(* ===== verification/Hotel_Prelude.thy ===== *)
theory Hotel_Prelude
  imports Main "HOL-Library.AList" "HOL-Library.List_Lexorder" "HOL-Library.Char_ord"
begin

text \<open>
  What every component of the development shares: the development's collections of rewrite
  rules, Go's machine integers and clock arithmetic, Go maps, and the decimal rendering
  behind the verb \<open>%d\<close> of \<open>fmt.Sprintf\<close>.

  A Go map is an association list with distinct keys (\<open>'v gomap\<close> when the keys are strings). The order of the list stands for one
  of the orders in which \<open>for k, v := range m\<close> may visit the map: Go leaves that order open,
  so a walk over a map is a walk over the list, and the theorems that matter say that the
  outcome does not depend on the order.

  An instant (\<open>time.Time\<close>) is an integer count of nanoseconds, and the zero time, the one
  \<open>IsZero\<close> recognises, is \<open>0\<close>. A \<open>time.Duration\<close> is an integer in the range of an \<open>int64\<close>;
  where the code adds or multiplies durations the result goes through \<open>wrap64\<close>.
\<close>

named_theorems go_simps \<open>rewrite rules for the Go run-time model\<close>
named_theorems hotel_defs \<open>definitions unfolded when a concrete run is evaluated\<close>

subsection \<open>Integers, durations and instants\<close>

type_synonym duration = int
type_synonym instant = int

definition wrap64 :: "int \<Rightarrow> int" where
  "wrap64 x = (x + 2 ^ 63) mod 2 ^ 64 - 2 ^ 63"

definition in_int64 :: "int \<Rightarrow> bool" where
  "in_int64 x \<longleftrightarrow> - (2 ^ 63) \<le> x \<and> x < 2 ^ 63"

definition maxDuration :: duration where
  "maxDuration = 2 ^ 63 - 1"

definition minDuration :: duration where
  "minDuration = - (2 ^ 63)"

text \<open>Go's integer division truncates towards zero.\<close>

definition go_quot :: "int \<Rightarrow> int \<Rightarrow> int" where
  "go_quot a b = sgn a * sgn b * (\<bar>a\<bar> div \<bar>b\<bar>)"

definition go_rem :: "int \<Rightarrow> int \<Rightarrow> int" where
  "go_rem a b = a - b * go_quot a b"

text \<open>\<open>t.Sub(u)\<close> saturates at the ends of the duration range; \<open>t.Add(d)\<close> does not wrap in
  any range a clock can reach.\<close>

definition time_sub :: "instant \<Rightarrow> instant \<Rightarrow> duration" where
  "time_sub t u = max minDuration (min maxDuration (t - u))"

definition time_add :: "instant \<Rightarrow> duration \<Rightarrow> instant" where
  "time_add t d = t + d"

definition nanosecond :: duration where "nanosecond = 1"
definition microsecond :: duration where "microsecond = 1000"
definition millisecond :: duration where "millisecond = 1000000"
definition second :: duration where "second = 1000000000"
definition minute :: duration where "minute = 60000000000"
definition hour :: duration where "hour = 3600000000000"

definition milliseconds_of :: "duration \<Rightarrow> int" where
  "milliseconds_of d = go_quot d millisecond"

subsection \<open>Maps\<close>

type_synonym 'v gomap = "(string \<times> 'v) list"

abbreviation gm_get :: "('k \<times> 'v) list \<Rightarrow> 'k \<Rightarrow> 'v option" where
  "gm_get m k \<equiv> map_of m k"

abbreviation gm_put :: "'k \<Rightarrow> 'v \<Rightarrow> ('k \<times> 'v) list \<Rightarrow> ('k \<times> 'v) list" where
  "gm_put k v m \<equiv> AList.update k v m"

abbreviation gm_del :: "'k \<Rightarrow> ('k \<times> 'v) list \<Rightarrow> ('k \<times> 'v) list" where
  "gm_del k m \<equiv> AList.delete k m"

definition gm_wf :: "('k \<times> 'v) list \<Rightarrow> bool" where
  "gm_wf m \<longleftrightarrow> distinct (map fst m)"

text \<open>Reading an absent key of a map of maps yields the nil map.\<close>

definition gm_inner :: "('k \<times> ('j \<times> 'v) list) list \<Rightarrow> 'k \<Rightarrow> ('j \<times> 'v) list" where
  "gm_inner m k = (case gm_get m k of None \<Rightarrow> [] | Some im \<Rightarrow> im)"

text \<open>
  The shape of a loop that keeps the best element seen so far:
  \<open>if best == nil || x.beats(best) { best = x }\<close>.
\<close>

fun scan_best :: "('a \<Rightarrow> 'a \<Rightarrow> bool) \<Rightarrow> 'a option \<Rightarrow> 'a list \<Rightarrow> 'a option" where
  "scan_best better best [] = best"
| "scan_best better best (x # xs) =
     scan_best better
       (case best of None \<Rightarrow> Some x | Some b \<Rightarrow> if better x b then Some x else Some b) xs"

subsection \<open>Decimal rendering\<close>

function show_digits :: "int \<Rightarrow> string" where
  "show_digits n = (if n < 10 then [char_of (48 + n)]
                    else show_digits (n div 10) @ [char_of (48 + n mod 10)])"
  by auto
termination by (relation "measure nat") auto

declare show_digits.simps [simp del]

definition show_int :: "int \<Rightarrow> string" where
  "show_int i = (if i < 0 then ''-'' @ show_digits (- i) else show_digits i)"

definition show_nat :: "nat \<Rightarrow> string" where
  "show_nat n = show_int (int n)"

subsection \<open>Facts about the integers\<close>

lemma wrap64_id [go_simps]: "in_int64 x \<Longrightarrow> wrap64 x = x"
  by (simp add: wrap64_def in_int64_def)

lemma wrap64_range: "in_int64 (wrap64 x)"
proof -
  have "0 \<le> (x + 2 ^ 63) mod 2 ^ 64" "(x + 2 ^ 63) mod 2 ^ 64 < (2 ^ 64 :: int)"
    by simp_all
  then show ?thesis by (simp add: wrap64_def in_int64_def)
qed

lemma go_quot_nonneg [go_simps]: "0 \<le> a \<Longrightarrow> 0 < b \<Longrightarrow> go_quot a b = a div b"
  by (cases "a = 0") (simp_all add: go_quot_def)

lemma go_rem_nonneg [go_simps]: "0 \<le> a \<Longrightarrow> 0 < b \<Longrightarrow> go_rem a b = a mod b"
  by (simp add: go_rem_def go_quot_nonneg minus_mult_div_eq_mod)

lemma time_sub_exact [go_simps]:
  "\<bar>t - u\<bar> \<le> maxDuration \<Longrightarrow> time_sub t u = t - u"
  by (simp add: time_sub_def maxDuration_def minDuration_def)

lemma time_sub_lt_iff:
  "d \<le> maxDuration \<Longrightarrow> minDuration < d \<Longrightarrow> time_sub t u < d \<longleftrightarrow> t < u + d"
  by (auto simp: time_sub_def maxDuration_def minDuration_def)

lemma time_sub_mono: "t \<le> t' \<Longrightarrow> time_sub t u \<le> time_sub t' u"
  by (auto simp: time_sub_def)

lemma time_sub_self [simp]: "time_sub t t = 0"
  by (simp add: time_sub_def maxDuration_def minDuration_def)

lemma time_sub_pos_iff [simp]: "0 < time_sub t u \<longleftrightarrow> u < t"
  by (auto simp: time_sub_def maxDuration_def minDuration_def)

subsection \<open>Facts about maps\<close>

lemma gm_wf_put [intro, simp]: "gm_wf m \<Longrightarrow> gm_wf (gm_put k v m)"
  by (simp add: gm_wf_def distinct_update)

lemma gm_wf_del [intro, simp]: "gm_wf m \<Longrightarrow> gm_wf (gm_del k m)"
  by (simp add: gm_wf_def distinct_delete)

lemma gm_wf_Nil [simp]: "gm_wf []"
  by (simp add: gm_wf_def)

lemma gm_get_put [go_simps, simp]:
  "gm_get (gm_put k v m) j = (if j = k then Some v else gm_get m j)"
  by (simp add: update_conv)

lemma gm_get_del [go_simps, simp]:
  "gm_get (gm_del k m) j = (if j = k then None else gm_get m j)"
  by (simp add: delete_conv)

lemma gm_inner_put [go_simps, simp]:
  "gm_inner (gm_put k v m) j = (if j = k then v else gm_inner m j)"
  by (simp add: gm_inner_def)

lemma gm_inner_del [go_simps, simp]:
  "gm_inner (gm_del k m) j = (if j = k then [] else gm_inner m j)"
  by (simp add: gm_inner_def)

lemma gm_put_not_Nil [simp]: "gm_put k v m \<noteq> []"
  by (cases m) auto

lemma gm_mem_iff: "gm_wf m \<Longrightarrow> (k, v) \<in> set m \<longleftrightarrow> gm_get m k = Some v"
  by (simp add: gm_wf_def map_of_eq_Some_iff)

lemma length_gm_put:
  "length (gm_put k v m) = (if gm_get m k = None then Suc (length m) else length m)"
  by (induction m) auto

lemma length_gm_del:
  "gm_wf m \<Longrightarrow> length (gm_del k m) = (if gm_get m k = None then length m else length m - 1)"
proof (induction m)
  case (Cons p m)
  obtain a b where p: "p = (a, b)" by (cases p)
  from Cons.prems p have wf: "gm_wf m" and notin: "a \<notin> fst ` set m"
    by (simp_all add: gm_wf_def)
  show ?case
  proof (cases "a = k")
    case True
    then have "k \<notin> fst ` set m" using notin by simp
    then have "gm_del k m = m" by (simp add: AList.delete_idem)
    with p True show ?thesis by (simp add: AList.delete_eq)
  next
    case False
    have "length (gm_del k (p # m)) = Suc (length (gm_del k m))"
      using p False by (simp add: AList.delete_eq)
    moreover have "gm_get m k \<noteq> None \<Longrightarrow> 0 < length m" by (cases m) auto
    ultimately show ?thesis using Cons.IH [OF wf] p False by auto
  qed
qed (simp add: AList.delete_eq)

lemma gm_put_get_same: "gm_get m k = Some v \<Longrightarrow> gm_put k v m = m"
  by (induction m) (auto split: if_splits)

lemma gm_put_put [simp]: "gm_put k v (gm_put k w m) = gm_put k v m"
  by (induction m) auto

lemma gm_get_eqI: "gm_wf m \<Longrightarrow> gm_wf m' \<Longrightarrow> set m = set m' \<Longrightarrow> gm_get m = gm_get m'"
  by (simp add: gm_wf_def map_of_inject_set)

lemma gm_put_set:
  "gm_wf m \<Longrightarrow> set (gm_put k v m) = insert (k, v) {p \<in> set m. fst p \<noteq> k}"
  by (induction m) (force simp: gm_wf_def)+

lemma gm_keys_del [simp]: "fst ` set (gm_del k m) = fst ` set m - {k}"
  by (force simp: AList.delete_eq)

lemma gm_keys_put [simp]: "fst ` set (gm_put k v m) = insert k (fst ` set m)"
  by (induction m) auto

lemma gm_inner_set: "gm_get m k = Some im \<Longrightarrow> (k, im) \<in> set m"
  by (rule map_of_SomeD)

lemma scan_best_mem_from: "scan_best better (Some b) xs = Some m \<Longrightarrow> m = b \<or> m \<in> set xs"
  by (induction xs arbitrary: b) (auto split: if_splits)

lemma scan_best_mem: "scan_best better None xs = Some m \<Longrightarrow> m \<in> set xs"
  by (cases xs) (auto dest: scan_best_mem_from)

subsection \<open>Choosing by a strict order that a key decides\<close>

text \<open>
  A \<open>beats\<close> relation under which two elements with different keys are always comparable. The
  scan then finds the one element that beats every other, so its result does not depend on
  the order in which a map is walked.
\<close>

locale keyed_choice =
  fixes better :: "'a \<Rightarrow> 'a \<Rightarrow> bool" and key :: "'a \<Rightarrow> 'k"
  assumes better_asym: "better a b \<Longrightarrow> \<not> better b a"
    and better_trans: "better a b \<Longrightarrow> better b c \<Longrightarrow> better a c"
    and better_total: "key a \<noteq> key b \<Longrightarrow> better a b \<or> better b a"
begin

lemma scan_best_from:
  assumes "distinct (map key (b # xs))"
  shows "\<exists>m. scan_best better (Some b) xs = Some m \<and> m \<in> set (b # xs) \<and>
           (\<forall>x \<in> set (b # xs). x = m \<or> better m x)"
  using assms
proof (induction xs arbitrary: b)
  case (Cons x xs)
  let ?w = "if better x b then x else b"
  have d: "distinct (map key (?w # xs))" using Cons.prems by simp
  obtain m where m: "scan_best better (Some ?w) xs = Some m" "m \<in> set (?w # xs)"
      "\<forall>y \<in> set (?w # xs). y = m \<or> better m y"
    using Cons.IH [OF d] by blast
  have "key x \<noteq> key b" using Cons.prems by auto
  then have loser: "y \<in> {x, b} \<Longrightarrow> y = ?w \<or> better ?w y" for y
    using better_total [of x b] by (auto split: if_splits)
  have "y = m \<or> better m y" if "y \<in> {x, b}" for y
  proof -
    have w: "?w = m \<or> better m ?w" using m(3) by simp
    from loser [OF that] show ?thesis
    proof
      assume "y = ?w"
      with w show ?thesis by simp
    next
      assume "better ?w y"
      with w show ?thesis using better_trans by blast
    qed
  qed
  moreover have "scan_best better (Some b) (x # xs) = Some m" using m(1) by (simp split: if_splits)
  moreover have "m \<in> set (b # x # xs)" using m(2) by (auto split: if_splits)
  ultimately show ?case using m(3) by (intro exI [of _ m]) auto
qed simp

lemma scan_best_max:
  assumes "distinct (map key xs)" "xs \<noteq> []"
  shows "\<exists>m. scan_best better None xs = Some m \<and> m \<in> set xs \<and> (\<forall>x \<in> set xs. x = m \<or> better m x)"
  using assms scan_best_from by (cases xs) auto

lemma scan_best_order_free:
  assumes "distinct (map key xs)" "distinct (map key ys)" "set xs = set ys"
  shows "scan_best better None xs = scan_best better None ys"
proof (cases "xs = []")
  case True
  with assms(3) show ?thesis by simp
next
  case False
  with assms(3) have "ys \<noteq> []" by auto
  obtain m where m: "scan_best better None xs = Some m" "m \<in> set xs"
      "\<forall>x \<in> set xs. x = m \<or> better m x"
    using scan_best_max [OF assms(1) False] by blast
  obtain n where n: "scan_best better None ys = Some n" "n \<in> set ys"
      "\<forall>x \<in> set ys. x = n \<or> better n x"
    using scan_best_max [OF assms(2) \<open>ys \<noteq> []\<close>] by blast
  have "n = m \<or> better m n" "m = n \<or> better n m" using m n assms(3) by simp_all
  then have "m = n" using better_asym by blast
  with m n show ?thesis by simp
qed

lemma scan_best_None_iff: "scan_best better None xs = None \<longleftrightarrow> xs = []"
proof -
  have "scan_best better (Some b) ys \<noteq> None" for b ys
    by (induction ys arbitrary: b) auto
  then show ?thesis by (cases xs) auto
qed

end

end
