(* ===== verification/Go_Float.thy ===== *)
theory Go_Float
  imports Hotel_Prelude Complex_Main
begin

text \<open>
  The part of \<open>float64\<close> arithmetic the gateway's own code relies on. A finite \<open>float64\<close> is the
  rational number it denotes; \<open>fl64\<close> rounds an exact result to the nearest \<open>float64\<close>, ties to
  even, with a 53 bit significand and gradual underflow, so an expression of the source is
  modelled by rounding after every operation. \<open>fl64\<close> is exact for the finite range; a result
  at or beyond \<open>2 ^ 1024\<close> (an infinity in Go) is not produced by any expression modelled here.

  The lemmas show that rounding keeps signs, is monotone, and leaves integers below \<open>2 ^ 53\<close>
  alone, which is what bounds a jittered duration.
\<close>

function int_log2 :: "int \<Rightarrow> nat" where
  "int_log2 n = (if n \<le> 1 then 0 else Suc (int_log2 (n div 2)))"
  by auto
termination by (relation "measure nat") auto

declare int_log2.simps [simp del]

definition rat_exp :: "rat \<Rightarrow> int" where
  "rat_exp x =
     (let (p, q) = quotient_of x;
          k = int (int_log2 p) - int (int_log2 q)
      in if 2 powi k \<le> x then k else k - 1)"

definition rne :: "rat \<Rightarrow> int" where
  "rne y =
     (let f = \<lfloor>y\<rfloor>; r = y - of_int f
      in if r < 1 / 2 then f else if 1 / 2 < r then f + 1 else if even f then f else f + 1)"

definition ulp_exp :: "rat \<Rightarrow> int" where
  "ulp_exp x = max (rat_exp x - 52) (- 1074)"

definition fl64_pos :: "rat \<Rightarrow> rat" where
  "fl64_pos x = of_int (rne (x / 2 powi (ulp_exp x))) * 2 powi (ulp_exp x)"

definition fl64 :: "rat \<Rightarrow> rat" where
  "fl64 x = (if x = 0 then 0 else if x < 0 then - fl64_pos (- x) else fl64_pos x)"

text \<open>\<open>time.Duration(f)\<close> and \<open>int64(f)\<close>: the conversion discards the fraction.\<close>

definition go_trunc :: "rat \<Rightarrow> int" where
  "go_trunc x = (if 0 \<le> x then \<lfloor>x\<rfloor> else \<lceil>x\<rceil>)"

subsection \<open>Rounding to an integer\<close>

lemma rne_of_int [simp]: "rne (of_int n) = n"
  by (simp add: rne_def Let_def)

lemma rne_bounds: "\<lfloor>y\<rfloor> \<le> rne y \<and> rne y \<le> \<lfloor>y\<rfloor> + 1"
  by (simp add: rne_def Let_def)

lemma rne_mono:
  assumes "y \<le> z"
  shows "rne y \<le> rne z"
proof -
  have fl: "\<lfloor>y\<rfloor> \<le> \<lfloor>z\<rfloor>" using assms by (rule floor_mono)
  show ?thesis
  proof (cases "\<lfloor>y\<rfloor> = \<lfloor>z\<rfloor>")
    case True
    with assms show ?thesis by (auto simp: rne_def Let_def)
  next
    case False
    with fl have "\<lfloor>y\<rfloor> + 1 \<le> \<lfloor>z\<rfloor>" by simp
    with rne_bounds [of y] rne_bounds [of z] show ?thesis by linarith
  qed
qed

subsection \<open>The binary exponent\<close>

lemma int_log2_bounds: "1 \<le> n \<Longrightarrow> 2 ^ int_log2 n \<le> n \<and> n < 2 ^ Suc (int_log2 n)"
proof (induction n rule: int_log2.induct)
  case (1 n)
  show ?case
  proof (cases "n \<le> 1")
    case True
    with "1.prems" have "n = 1" by simp
    then show ?thesis by (simp add: int_log2.simps [of 1])
  next
    case False
    then have "1 \<le> n div 2" by simp
    with False "1.IH" have "2 ^ int_log2 (n div 2) \<le> n div 2 \<and> n div 2 < 2 ^ Suc (int_log2 (n div 2))"
      by simp
    with False show ?thesis by (simp add: int_log2.simps [of n]) linarith
  qed
qed

lemma powi_of_nat_diff: "(2 :: rat) powi (int a - int b) = 2 ^ a / 2 ^ b"
  by (simp add: power_int_diff)

lemma rat_exp_bounds:
  assumes "0 < x"
  shows "2 powi (rat_exp x) \<le> x \<and> x < 2 powi (rat_exp x + 1)"
proof -
  obtain p q where pq: "quotient_of x = (p, q)" by (cases "quotient_of x")
  have q: "0 < q" using pq by (rule quotient_of_denom_pos)
  have x: "x = of_int p / of_int q" using pq by (rule quotient_of_div)
  with assms q have p: "0 < p" by (simp add: zero_less_divide_iff)
  define a b where "a = int_log2 p" and "b = int_log2 q"
  have "2 ^ a \<le> p" "p < 2 ^ Suc a" "2 ^ b \<le> q" "q < 2 ^ Suc b"
    unfolding a_def b_def using p q int_log2_bounds [of p] int_log2_bounds [of q] by linarith+
  then have "of_int (2 ^ a) \<le> (of_int p :: rat)" "of_int p < (of_int (2 ^ Suc a) :: rat)"
      "of_int (2 ^ b) \<le> (of_int q :: rat)" "of_int q < (of_int (2 ^ Suc b) :: rat)"
    by (simp_all only: of_int_le_iff of_int_less_iff)
  then have pa: "2 ^ a \<le> (of_int p :: rat)" "of_int p < (2 * 2 ^ a :: rat)"
    and qb: "2 ^ b \<le> (of_int q :: rat)" "of_int q < (2 * 2 ^ b :: rat)"
    by simp_all
  have q': "0 < (of_int q :: rat)" using q by simp
  have up: "x < 2 * (2 ^ a / 2 ^ b)"
  proof -
    have "of_int p * 2 ^ b < 2 * 2 ^ a * (of_int q :: rat)"
      using pa(2) qb(1) q' p by (intro mult_less_le_imp_less) auto
    then show ?thesis using q' by (simp add: x field_simps)
  qed
  have lo: "2 ^ a / 2 ^ b / 2 < x"
  proof -
    have "2 ^ a * of_int q < of_int p * (2 * 2 ^ b :: rat)"
      using pa(1) qb(2) q' by (intro mult_le_less_imp_less) auto
    then show ?thesis using q' by (simp add: x field_simps)
  qed
  let ?k = "int a - int b"
  have k1: "(2 :: rat) powi (?k + 1) = 2 * (2 ^ a / 2 ^ b)"
    by (simp add: power_int_add powi_of_nat_diff)
  have k0: "(2 :: rat) powi (?k - 1) = 2 ^ a / 2 ^ b / 2"
    by (simp add: power_int_diff)
  have re: "rat_exp x = (if 2 powi ?k \<le> x then ?k else ?k - 1)"
    by (simp add: rat_exp_def pq a_def b_def)
  show ?thesis
  proof (cases "2 powi ?k \<le> x")
    case True
    with re up k1 show ?thesis by simp
  next
    case False
    with re lo k0 show ?thesis by simp
  qed
qed

lemma powi2_mono: "k \<le> l \<Longrightarrow> (2 :: rat) powi k \<le> 2 powi l"
  by (rule power_int_increasing) simp_all

lemma rat_exp_mono:
  assumes "0 < x" "x \<le> y"
  shows "rat_exp x \<le> rat_exp y"
proof (rule ccontr)
  assume "\<not> rat_exp x \<le> rat_exp y"
  then have "rat_exp y + 1 \<le> rat_exp x" by simp
  then have "(2 :: rat) powi (rat_exp y + 1) \<le> 2 powi (rat_exp x)" by (rule powi2_mono)
  with rat_exp_bounds [of x] rat_exp_bounds [of y] assms show False by linarith
qed

subsection \<open>Rounding to a double\<close>

lemma powi2_int: "0 \<le> k \<Longrightarrow> (2 :: rat) powi k = of_int (2 ^ nat k)"
  by (simp add: power_int_def)

lemma fl64_pos_nonneg: "0 \<le> x \<Longrightarrow> 0 \<le> fl64_pos x"
proof -
  assume "0 \<le> x"
  then have "0 \<le> x / 2 powi (ulp_exp x)" by simp
  then have "rne 0 \<le> rne (x / 2 powi (ulp_exp x))" by (rule rne_mono)
  moreover have "rne 0 = 0" using rne_of_int [of 0] by simp
  ultimately show ?thesis by (simp add: fl64_pos_def)
qed

lemma fl64_nonneg: "0 \<le> x \<Longrightarrow> 0 \<le> fl64 x"
  by (simp add: fl64_def fl64_pos_nonneg)

lemma fl64_pos_le_pow2:
  assumes "0 < x" "x < 2 powi k" "ulp_exp x \<le> k"
  shows "fl64_pos x \<le> 2 powi k"
proof -
  let ?e = "ulp_exp x"
  have "x / 2 powi ?e \<le> 2 powi (k - ?e)"
    using assms(2) by (simp add: power_int_diff divide_right_mono)
  also have "\<dots> = of_int (2 ^ nat (k - ?e))" using assms(3) by (simp add: powi2_int)
  finally have "rne (x / 2 powi ?e) \<le> rne (of_int (2 ^ nat (k - ?e)))" by (rule rne_mono)
  then have "rne (x / 2 powi ?e) \<le> 2 ^ nat (k - ?e)" by (simp only: rne_of_int)
  then have "(of_int (rne (x / 2 powi ?e)) :: rat) \<le> of_int (2 ^ nat (k - ?e))"
    by (simp only: of_int_le_iff)
  then have "(of_int (rne (x / 2 powi ?e)) :: rat) \<le> 2 powi (k - ?e)"
    using assms(3) by (simp add: powi2_int)
  then have "of_int (rne (x / 2 powi ?e)) * 2 powi ?e \<le> (2 powi (k - ?e) * 2 powi ?e :: rat)"
    by (rule mult_right_mono) simp
  also have "\<dots> = 2 powi k" by (simp add: power_int_diff)
  finally show ?thesis by (simp add: fl64_pos_def)
qed

lemma fl64_pos_ge_pow2:
  assumes "2 powi k \<le> x" "ulp_exp x \<le> k"
  shows "2 powi k \<le> fl64_pos x"
proof -
  let ?e = "ulp_exp x"
  have "of_int (2 ^ nat (k - ?e)) = (2 :: rat) powi (k - ?e)" using assms(2) by (simp add: powi2_int)
  also have "\<dots> \<le> x / 2 powi ?e"
    using assms(1) by (simp add: power_int_diff divide_right_mono)
  finally have "rne (of_int (2 ^ nat (k - ?e))) \<le> rne (x / 2 powi ?e)" by (rule rne_mono)
  then have "2 ^ nat (k - ?e) \<le> rne (x / 2 powi ?e)" by (simp only: rne_of_int)
  then have "(of_int (2 ^ nat (k - ?e)) :: rat) \<le> of_int (rne (x / 2 powi ?e))"
    by (simp only: of_int_le_iff)
  then have "2 powi (k - ?e) \<le> (of_int (rne (x / 2 powi ?e)) :: rat)"
    using assms(2) by (simp add: powi2_int)
  then have "(2 powi (k - ?e) * 2 powi ?e :: rat) \<le> of_int (rne (x / 2 powi ?e)) * 2 powi ?e"
    by (rule mult_right_mono) simp
  moreover have "(2 powi (k - ?e) * 2 powi ?e :: rat) = 2 powi k" by (simp add: power_int_diff)
  ultimately show ?thesis by (simp add: fl64_pos_def)
qed

lemma fl64_pos_mono:
  assumes "0 < x" "x \<le> y"
  shows "fl64_pos x \<le> fl64_pos y"
proof -
  have re: "rat_exp x \<le> rat_exp y" using assms by (rule rat_exp_mono)
  then have le: "ulp_exp x \<le> ulp_exp y" by (simp add: ulp_exp_def)
  show ?thesis
  proof (cases "ulp_exp x = ulp_exp y")
    case True
    have "x / 2 powi (ulp_exp y) \<le> y / 2 powi (ulp_exp y)"
      using assms(2) by (simp add: divide_right_mono)
    then have "rne (x / 2 powi (ulp_exp y)) \<le> rne (y / 2 powi (ulp_exp y))" by (rule rne_mono)
    then show ?thesis unfolding fl64_pos_def True by (simp add: mult_right_mono)
  next
    case False
    with le have ey: "ulp_exp y = rat_exp y - 52" and lt: "rat_exp x < rat_exp y"
      and ex: "ulp_exp x \<le> rat_exp y"
      by (auto simp: ulp_exp_def)
    have "x < 2 powi (rat_exp x + 1)" using rat_exp_bounds [OF assms(1)] by simp
    also have "\<dots> \<le> 2 powi (rat_exp y)" using lt by (intro powi2_mono) simp
    finally have "fl64_pos x \<le> 2 powi (rat_exp y)"
      using fl64_pos_le_pow2 [OF assms(1)] ex by simp
    also have "\<dots> \<le> fl64_pos y"
      using fl64_pos_ge_pow2 [of "rat_exp y" y] rat_exp_bounds [of y] assms ey by simp
    finally show ?thesis .
  qed
qed

lemma fl64_mono:
  assumes "x \<le> y"
  shows "fl64 x \<le> fl64 y"
proof -
  consider "0 < x" | "x = 0" | "x < 0" "0 \<le> y" | "x < 0" "y < 0" by linarith
  then show ?thesis
  proof cases
    case 1
    with assms fl64_pos_mono [of x y] show ?thesis by (simp add: fl64_def)
  next
    case 2
    with assms fl64_nonneg [of y] show ?thesis by (simp add: fl64_def)
  next
    case 3
    have "fl64 x \<le> 0" using 3 fl64_pos_nonneg [of "- x"] by (simp add: fl64_def)
    also have "0 \<le> fl64 y" using 3 by (simp add: fl64_nonneg)
    finally show ?thesis .
  next
    case 4
    with assms fl64_pos_mono [of "- y" "- x"] show ?thesis by (simp add: fl64_def)
  qed
qed

lemma fl64_nat_exact:
  assumes "0 \<le> n" "n < 2 ^ 53"
  shows "fl64 (of_int n) = of_int n"
proof (cases "n = 0")
  case False
  with assms have n: "1 \<le> n" by simp
  let ?x = "of_int n :: rat"
  have x: "0 < ?x" using n by simp
  have "ulp_exp ?x \<le> 0"
  proof -
    have "(2 :: rat) powi (rat_exp ?x) \<le> ?x" using rat_exp_bounds [OF x] by simp
    also have "\<dots> < of_int (2 ^ 53)" using assms(2) by (simp only: of_int_less_iff)
    also have "\<dots> = 2 powi (53 :: int)" by (simp add: powi2_int)
    finally have "rat_exp ?x < 53" using powi2_mono [of 53 "rat_exp ?x"] by linarith
    then show ?thesis by (simp add: ulp_exp_def)
  qed
  then have i: "2 powi (- ulp_exp ?x) = (of_int (2 ^ nat (- ulp_exp ?x)) :: rat)"
    by (simp add: powi2_int)
  have "?x / 2 powi (ulp_exp ?x) = ?x * 2 powi (- ulp_exp ?x)"
    by (simp add: power_int_minus divide_inverse)
  also have "\<dots> = of_int (n * 2 ^ nat (- ulp_exp ?x))" by (simp add: i)
  finally have "rne (?x / 2 powi (ulp_exp ?x)) = n * 2 ^ nat (- ulp_exp ?x)"
    by (simp only: rne_of_int)
  then have "fl64_pos ?x = ?x * of_int (2 ^ nat (- ulp_exp ?x)) * 2 powi (ulp_exp ?x)"
    by (simp add: fl64_pos_def)
  also have "\<dots> = ?x * (2 powi (- ulp_exp ?x) * 2 powi (ulp_exp ?x))"
    by (simp only: i mult.assoc)
  also have "\<dots> = ?x" by (simp add: power_int_minus)
  finally show ?thesis using n by (simp add: fl64_def)
qed (simp add: fl64_def)

lemma go_trunc_mono: "x \<le> y \<Longrightarrow> go_trunc x \<le> go_trunc y"
proof -
  assume le: "x \<le> y"
  show ?thesis
  proof (cases "0 \<le> x \<or> y < 0")
    case True
    with le show ?thesis by (auto simp: go_trunc_def floor_mono ceiling_mono)
  next
    case False
    then have "\<lceil>x\<rceil> \<le> 0" "0 \<le> \<lfloor>y\<rfloor>" by (simp_all add: ceiling_le_iff)
    then have "\<lceil>x\<rceil> \<le> \<lfloor>y\<rfloor>" by (rule order_trans)
    with False show ?thesis by (simp add: go_trunc_def)
  qed
qed

lemma go_trunc_of_int [simp]: "go_trunc (of_int n) = n"
  by (simp add: go_trunc_def)

lemma go_trunc_nonneg: "0 \<le> x \<Longrightarrow> 0 \<le> go_trunc x"
  by (simp add: go_trunc_def)

end
