(* ===== verification/Circuit.thy ===== *)
theory Circuit
  imports Hotel_Prelude Go_Float
begin

text \<open>
  One (provider, resolved upstream model) circuit of the breaker: its states, the verdict it
  remembers, and the bookkeeping it does on its own, without reading the breaker around it
  (\<open>internal/failover/model_circuits.go\<close>, \<open>circuit_status.go\<close> and the state type of
  \<open>circuitbreaker.go\<close>). A method with a pointer receiver is a function that returns the
  updated record.
\<close>

subsection \<open>States and causes\<close>

datatype State = StateClosed | StateOpen | StateHalfOpen

fun State_String :: "State \<Rightarrow> string" where
  "State_String StateClosed = ''closed''"
| "State_String StateOpen = ''open''"
| "State_String StateHalfOpen = ''half-open''"

record Cause =
  cause_Status :: int
  cause_Reason :: string

definition UpstreamStatus :: "int \<Rightarrow> string \<Rightarrow> Cause" where
  "UpstreamStatus status qualifier =
     (let reason = ''upstream status '' @ show_int status;
          reason' = (if qualifier \<noteq> '''' then reason @ '' ('' @ qualifier @ '')'' else reason)
      in \<lparr>cause_Status = status, cause_Reason = reason'\<rparr>)"

definition causeSuccess :: string where "causeSuccess = ''success''"
definition causeSaturated :: string where "causeSaturated = ''saturated''"
definition causeExhausted :: string where "causeExhausted = ''exhausted''"
definition causeAlive :: string where "causeAlive = ''alive''"
definition causePinRetargeted :: string where
  "causePinRetargeted = ''quota pin retargeted (advisor)''"
definition causeSeeded :: string where "causeSeeded = ''quota pin seeded (advisor)''"
definition causePinReleasedQuota :: string where
  "causePinReleasedQuota = ''quota pin released (provider no longer exhausted)''"
definition causePinReleasedOff :: string where
  "causePinReleasedOff = ''quota pin released (quota polling disabled)''"

subsection \<open>The circuit\<close>

record circuit =
  c_state :: State
  c_consecutiveFails :: int
  c_openedAt :: instant
  c_halfOpenProbes :: int
  c_cooldownOverride :: duration
  c_failedProbes :: nat
  c_cooldownBackoff :: duration
  c_lastCharged :: instant
  c_lastSuccess :: instant
  c_pinSource :: string
  c_probeSeed :: rat
  c_lastCause :: string
  c_lastStatus :: int
  c_lastAt :: instant
  c_opens429Streak :: nat
  c_open429WindowStart :: instant
  c_opens :: nat
  c_openWindowStart :: instant
  c_unstableReported :: bool

text \<open>\<open>&circuit{state: StateClosed}\<close>: every other field at its zero value.\<close>

definition new_circuit :: circuit where
  "new_circuit = \<lparr>c_state = StateClosed, c_consecutiveFails = 0, c_openedAt = 0,
     c_halfOpenProbes = 0, c_cooldownOverride = 0, c_failedProbes = 0, c_cooldownBackoff = 0,
     c_lastCharged = 0, c_lastSuccess = 0, c_pinSource = '''', c_probeSeed = 0,
     c_lastCause = '''', c_lastStatus = 0, c_lastAt = 0, c_opens429Streak = 0,
     c_open429WindowStart = 0, c_opens = 0, c_openWindowStart = 0, c_unstableReported = False\<rparr>"

definition reopenWindow :: duration where "reopenWindow = 24 * hour"

definition opensBeforeEscalation :: nat where "opensBeforeEscalation = 3"

definition reopenWindowLabel :: string where
  "reopenWindowLabel = show_int (go_quot reopenWindow hour) @ ''h''"

text \<open>\<open>noteOpen\<close> counts one transition into Open and says whether this is the one to report.\<close>

definition noteOpen :: "circuit \<Rightarrow> instant \<Rightarrow> circuit \<times> bool" where
  "noteOpen c now =
     (if c_openWindowStart c = 0 \<or> time_sub now (c_openWindowStart c) > reopenWindow then
        (c\<lparr>c_openWindowStart := now, c_opens := 1, c_unstableReported := False\<rparr>, False)
      else
        (let c' = c\<lparr>c_opens := c_opens c + 1\<rparr>
         in if c_opens c' < opensBeforeEscalation \<or> c_unstableReported c' then (c', False)
            else (c'\<lparr>c_unstableReported := True\<rparr>, True)))"

definition note429Open :: "circuit \<Rightarrow> instant \<Rightarrow> bool \<Rightarrow> circuit" where
  "note429Open c now by429 =
     (if \<not> by429 then c\<lparr>c_opens429Streak := 0, c_open429WindowStart := 0\<rparr>
      else if c_open429WindowStart c = 0 \<or> time_sub now (c_open429WindowStart c) > reopenWindow
      then c\<lparr>c_open429WindowStart := now, c_opens429Streak := 1\<rparr>
      else c\<lparr>c_opens429Streak := c_opens429Streak c + 1\<rparr>)"

definition exhaustedEscalated :: "circuit \<Rightarrow> bool" where
  "exhaustedEscalated c \<longleftrightarrow> c_opens429Streak c \<ge> opensBeforeEscalation"

definition clear429Escalation :: "circuit \<Rightarrow> circuit" where
  "clear429Escalation c = c\<lparr>c_opens429Streak := 0, c_open429WindowStart := 0\<rparr>"

definition circuit_note :: "circuit \<Rightarrow> instant \<Rightarrow> Cause \<Rightarrow> circuit" where
  "circuit_note c now cause =
     c\<lparr>c_lastCause := cause_Reason cause, c_lastStatus := cause_Status cause, c_lastAt := now\<rparr>"

subsection \<open>Pin sources\<close>

definition pinSourceAdvisor :: string where "pinSourceAdvisor = ''advisor''"
definition pinSourceReserve :: string where "pinSourceReserve = ''reserve''"
definition pinSourceResponse :: string where "pinSourceResponse = ''response''"
definition pinSourceAccount :: string where "pinSourceAccount = ''account''"

record QuotaAdvice =
  adv_ResetsAt :: instant
  adv_Reserved :: bool

definition advisorPinSource :: "QuotaAdvice \<Rightarrow> string" where
  "advisorPinSource adv = (if adv_Reserved adv then pinSourceReserve else pinSourceAdvisor)"

definition pinProbes :: "string \<Rightarrow> bool" where
  "pinProbes source \<longleftrightarrow> source = pinSourceResponse \<or> source = pinSourceAccount"

definition pinSpeaksForAccount :: "string \<Rightarrow> bool" where
  "pinSpeaksForAccount source \<longleftrightarrow>
     source = pinSourceAdvisor \<or> source = pinSourceReserve \<or> source = pinSourceAccount"

lemmas pin_source_defs = pinSourceAdvisor_def pinSourceReserve_def pinSourceResponse_def
  pinSourceAccount_def

subsection \<open>What the bookkeeping leaves alone\<close>

text \<open>The fields the blocking decision reads; the bookkeeping functions keep them.\<close>

definition gate_view :: "circuit \<Rightarrow> State \<times> instant \<times> duration \<times> duration \<times> string \<times> rat" where
  "gate_view c = (c_state c, c_openedAt c, c_cooldownOverride c, c_cooldownBackoff c,
     c_pinSource c, c_probeSeed c)"

lemma gate_view_note [simp]: "gate_view (circuit_note c now cause) = gate_view c"
  by (simp add: circuit_note_def gate_view_def)

lemma gate_view_note429 [simp]: "gate_view (note429Open c now b) = gate_view c"
  by (simp add: note429Open_def gate_view_def)

lemma gate_view_noteOpen [simp]: "gate_view (fst (noteOpen c now)) = gate_view c"
  by (simp add: noteOpen_def gate_view_def Let_def)

lemma gate_view_clear429 [simp]: "gate_view (clear429Escalation c) = gate_view c"
  by (simp add: clear429Escalation_def gate_view_def)

lemma gate_view_eqD:
  assumes "gate_view c = gate_view d"
  shows "c_state c = c_state d" "c_openedAt c = c_openedAt d"
    "c_cooldownOverride c = c_cooldownOverride d" "c_cooldownBackoff c = c_cooldownBackoff d"
    "c_pinSource c = c_pinSource d" "c_probeSeed c = c_probeSeed d"
  using assms by (simp_all add: gate_view_def)

lemma noteOpen_fields [simp]:
  "c_state (fst (noteOpen c now)) = c_state c"
  "c_openedAt (fst (noteOpen c now)) = c_openedAt c"
  "c_cooldownOverride (fst (noteOpen c now)) = c_cooldownOverride c"
  "c_cooldownBackoff (fst (noteOpen c now)) = c_cooldownBackoff c"
  "c_pinSource (fst (noteOpen c now)) = c_pinSource c"
  "c_probeSeed (fst (noteOpen c now)) = c_probeSeed c"
  "c_consecutiveFails (fst (noteOpen c now)) = c_consecutiveFails c"
  "c_failedProbes (fst (noteOpen c now)) = c_failedProbes c"
  "c_halfOpenProbes (fst (noteOpen c now)) = c_halfOpenProbes c"
  "c_opens429Streak (fst (noteOpen c now)) = c_opens429Streak c"
  "c_open429WindowStart (fst (noteOpen c now)) = c_open429WindowStart c"
  "c_lastCause (fst (noteOpen c now)) = c_lastCause c"
  "c_lastStatus (fst (noteOpen c now)) = c_lastStatus c"
  "c_lastCharged (fst (noteOpen c now)) = c_lastCharged c"
  "c_lastSuccess (fst (noteOpen c now)) = c_lastSuccess c"
  by (simp_all add: noteOpen_def Let_def)

subsection \<open>The escalation report is once per window\<close>

text \<open>
  A run of open transitions at non-decreasing instants: \<open>noteOpen_run\<close> collects the instants
  at which \<open>noteOpen\<close> reported.
\<close>

fun noteOpen_run :: "circuit \<Rightarrow> instant list \<Rightarrow> circuit \<times> instant list" where
  "noteOpen_run c [] = (c, [])"
| "noteOpen_run c (t # ts) =
     (let (c', rep) = noteOpen c t; (c'', rs) = noteOpen_run c' ts
      in (c'', if rep then t # rs else rs))"

lemma noteOpen_report:
  assumes "snd (noteOpen c t)"
  shows "c_opens (fst (noteOpen c t)) \<ge> opensBeforeEscalation"
    and "c_unstableReported (fst (noteOpen c t))"
    and "c_openWindowStart (fst (noteOpen c t)) = c_openWindowStart c"
    and "c_openWindowStart c \<noteq> 0" and "time_sub t (c_openWindowStart c) \<le> reopenWindow"
  using assms by (auto simp: noteOpen_def Let_def split: if_splits)

lemma noteOpen_run_quiet_window:
  assumes "c_unstableReported c" "c_openWindowStart c \<noteq> 0"
    and "\<And>t. t \<in> set ts \<Longrightarrow> time_sub t (c_openWindowStart c) \<le> reopenWindow"
  shows "snd (noteOpen_run c ts) = []"
  using assms
proof (induction ts arbitrary: c)
  case (Cons t ts)
  from Cons.prems have t: "time_sub t (c_openWindowStart c) \<le> reopenWindow" by simp
  define c' where "c' = c\<lparr>c_opens := c_opens c + 1\<rparr>"
  have step: "noteOpen c t = (c', False)"
    using Cons.prems(1,2) t by (simp add: noteOpen_def c'_def)
  have "snd (noteOpen_run c' ts) = []"
    by (rule Cons.IH) (use Cons.prems in \<open>simp_all add: c'_def\<close>)
  with step show ?case by (simp add: split_beta)
qed simp

lemma noteOpen_run_reports_after_start:
  assumes "t \<in> set (snd (noteOpen_run c ts))"
  shows "t \<in> set ts"
  using assms by (induction ts arbitrary: c) (auto simp: split_beta split: if_splits)

end
