(* ===== verification/Breaker_Core.thy ===== *)
theory Breaker_Core
  imports Circuit
begin

text \<open>
  The breaker's state, the settings it reads, and the cooldown that governs a circuit
  (\<open>internal/failover/circuitbreaker.go\<close> and \<open>model_circuits.go\<close>).

  A settings repository is a record of reads (the interface \<open>SettingsReader\<close>); \<open>None\<close> is the
  nil interface. A walk reads its settings once (\<open>cooldownReads\<close>); the source defers three of
  the reads until a circuit needs them, which is invisible to a walk that runs under the
  breaker's lock against one snapshot of the settings. The clock is the argument \<open>now\<close>: one
  locked section reads one instant. Random draws (\<open>math/rand/v2\<close>) are the argument \<open>rng\<close>.
\<close>

record SettingsReader =
  sr_GetInt :: "string \<Rightarrow> int \<Rightarrow> int"
  sr_GetDuration :: "string \<Rightarrow> duration \<Rightarrow> duration"
  sr_GetBool :: "string \<Rightarrow> bool \<Rightarrow> bool"

type_synonym modelCircuits = "circuit gomap"

record CircuitBreaker =
  cb_circuits :: "modelCircuits gomap"
  cb_names :: "string gomap"
  cb_settings :: "SettingsReader option"
  cb_quota :: "(string \<Rightarrow> QuotaAdvice option) option"
  cb_onOpen :: bool
  cb_Threshold :: int
  cb_SpanModels :: int
  cb_Cooldown :: duration
  cb_HalfOpenMaxProbes :: int

record rng =
  rng_Int64N :: "int \<Rightarrow> int"
  rng_Float64 :: rat

text \<open>What \<open>math/rand/v2\<close> documents: \<open>Int64N(n)\<close> is in \<open>[0, n)\<close> and \<open>Float64()\<close> in \<open>[0, 1)\<close>.\<close>

definition rng_ok :: "rng \<Rightarrow> bool" where
  "rng_ok g \<longleftrightarrow> (\<forall>n>0. 0 \<le> rng_Int64N g n \<and> rng_Int64N g n < n) \<and>
     0 \<le> rng_Float64 g \<and> rng_Float64 g < 1"

definition maxModelCircuitsPerProvider :: nat where "maxModelCircuitsPerProvider = 256"
definition defaultSpanModels :: int where "defaultSpanModels = 2"
definition defaultBackoffMax :: duration where "defaultBackoffMax = 15 * minute"
definition defaultPinProbeInterval :: duration where "defaultPinProbeInterval = hour"
definition defaultQuotaPinMax :: duration where "defaultQuotaPinMax = 24 * hour"

definition NewCircuitBreaker :: "SettingsReader option \<Rightarrow> CircuitBreaker" where
  "NewCircuitBreaker settings = \<lparr>cb_circuits = [], cb_names = [], cb_settings = settings,
     cb_quota = None, cb_onOpen = False, cb_Threshold = 5, cb_SpanModels = defaultSpanModels,
     cb_Cooldown = 60 * second, cb_HalfOpenMaxProbes = 1\<rparr>"

definition SetQuotaAdvisor ::
  "CircuitBreaker \<Rightarrow> (string \<Rightarrow> QuotaAdvice option) option \<Rightarrow> CircuitBreaker" where
  "SetQuotaAdvisor cb a = cb\<lparr>cb_quota := a\<rparr>"

definition SetOnOpen :: "CircuitBreaker \<Rightarrow> bool \<Rightarrow> CircuitBreaker" where
  "SetOnOpen cb fn = cb\<lparr>cb_onOpen := fn\<rparr>"

subsection \<open>Settings\<close>

definition settingInt :: "SettingsReader \<Rightarrow> string \<Rightarrow> int \<Rightarrow> int" where
  "settingInt s key def = sr_GetInt s key def"

definition settingDuration :: "SettingsReader \<Rightarrow> string \<Rightarrow> duration \<Rightarrow> duration" where
  "settingDuration s key def = sr_GetDuration s key def"

definition effectiveThreshold :: "CircuitBreaker \<Rightarrow> int" where
  "effectiveThreshold cb =
     (case cb_settings cb of
        None \<Rightarrow> cb_Threshold cb
      | Some s \<Rightarrow> (let v = settingInt s ''circuit_breaker_threshold'' 0
                   in if v > 0 then v else cb_Threshold cb))"

definition effectiveSpan :: "CircuitBreaker \<Rightarrow> int" where
  "effectiveSpan cb =
     (let span = (case cb_settings cb of
                    None \<Rightarrow> cb_SpanModels cb
                  | Some s \<Rightarrow> (let v = settingInt s ''circuit_breaker_span_models'' 0
                               in if v > 0 then v else cb_SpanModels cb))
      in if span < 1 then 1 else span)"

definition effectiveCooldown :: "CircuitBreaker \<Rightarrow> duration" where
  "effectiveCooldown cb =
     (case cb_settings cb of
        None \<Rightarrow> cb_Cooldown cb
      | Some s \<Rightarrow> (let v = settingDuration s ''circuit_breaker_cooldown'' 0
                   in if v > 0 then v else cb_Cooldown cb))"

definition ceilingOrDefault :: "SettingsReader option \<Rightarrow> string \<Rightarrow> duration \<Rightarrow> duration" where
  "ceilingOrDefault reader key def =
     (case reader of None \<Rightarrow> def | Some s \<Rightarrow> max (sr_GetDuration s key def) 0)"

definition backoffMax :: "CircuitBreaker \<Rightarrow> duration" where
  "backoffMax cb = ceilingOrDefault (cb_settings cb) ''circuit_breaker_backoff_max'' defaultBackoffMax"

definition quotaPinMax :: "CircuitBreaker \<Rightarrow> duration" where
  "quotaPinMax cb =
     ceilingOrDefault (cb_settings cb) ''circuit_breaker_quota_pin_max'' defaultQuotaPinMax"

definition quotaPinEnabled :: "CircuitBreaker \<Rightarrow> bool" where
  "quotaPinEnabled cb \<longleftrightarrow> quotaPinMax cb > 0"

definition pinProbeInterval :: "CircuitBreaker \<Rightarrow> duration" where
  "pinProbeInterval cb =
     (case cb_settings cb of
        None \<Rightarrow> defaultPinProbeInterval
      | Some s \<Rightarrow> settingDuration s ''circuit_breaker_pin_probe_interval'' defaultPinProbeInterval)"

subsection \<open>One walk's reads\<close>

record cooldownReads =
  r_base :: duration
  r_backoffMax :: duration
  r_pinMax :: duration
  r_pinProbe :: duration

definition cooldowns :: "CircuitBreaker \<Rightarrow> cooldownReads" where
  "cooldowns cb = \<lparr>r_base = effectiveCooldown cb, r_backoffMax = backoffMax cb,
     r_pinMax = quotaPinMax cb, r_pinProbe = pinProbeInterval cb\<rparr>"

definition backoffEnabled :: "cooldownReads \<Rightarrow> bool" where
  "backoffEnabled r \<longleftrightarrow> r_backoffMax r > 0"

definition pinEnabled :: "cooldownReads \<Rightarrow> bool" where
  "pinEnabled r \<longleftrightarrow> r_pinMax r > 0"

subsection \<open>The cooldown governing a circuit\<close>

definition backedOffForWith :: "circuit \<Rightarrow> cooldownReads \<Rightarrow> bool" where
  "backedOffForWith c r \<longleftrightarrow> c_cooldownBackoff c > r_base r \<and> backoffEnabled r"

definition unpinnedCooldownWith :: "circuit \<Rightarrow> cooldownReads \<Rightarrow> duration" where
  "unpinnedCooldownWith c r = (if backedOffForWith c r then c_cooldownBackoff c else r_base r)"

definition quotaPinnedForWith :: "circuit \<Rightarrow> cooldownReads \<Rightarrow> bool" where
  "quotaPinnedForWith c r \<longleftrightarrow> c_cooldownOverride c > 0 \<and> pinEnabled r"

definition pinSourceForWith :: "circuit \<Rightarrow> cooldownReads \<Rightarrow> string" where
  "pinSourceForWith c r = (if quotaPinnedForWith c r then c_pinSource c else '''')"

text \<open>\<open>time.Duration(c.probeSeed*float64(probe)/20)\<close>.\<close>

definition probeSpread :: "rat \<Rightarrow> duration \<Rightarrow> duration" where
  "probeSpread seed probe = go_trunc (fl64 (fl64 (seed * fl64 (of_int probe)) / 20))"

definition effectiveCooldownForWith :: "circuit \<Rightarrow> cooldownReads \<Rightarrow> duration" where
  "effectiveCooldownForWith c r =
     (let cooldown = unpinnedCooldownWith c r
      in if \<not> quotaPinnedForWith c r \<or> c_cooldownOverride c \<le> cooldown then cooldown
         else
           (let pinned = c_cooldownOverride c; probe = r_pinProbe r
            in if pinProbes (c_pinSource c) \<and> probe > 0
               then min pinned (wrap64 (max probe cooldown + probeSpread (c_probeSeed c) probe))
               else pinned))"

definition stillDark :: "circuit \<Rightarrow> cooldownReads \<Rightarrow> instant \<Rightarrow> bool" where
  "stillDark c r now \<longleftrightarrow>
     c_openedAt c = 0 \<or> time_sub now (c_openedAt c) < effectiveCooldownForWith c r"

definition blocking :: "circuit \<Rightarrow> cooldownReads \<Rightarrow> instant \<Rightarrow> bool" where
  "blocking c r now \<longleftrightarrow> c_state c = StateOpen \<and> stillDark c r now"

definition logicalStateWith :: "circuit \<Rightarrow> cooldownReads \<Rightarrow> instant \<Rightarrow> State" where
  "logicalStateWith c r now =
     (if c_state c = StateOpen \<and> \<not> stillDark c r now then StateHalfOpen else c_state c)"

definition logicalState :: "CircuitBreaker \<Rightarrow> circuit \<Rightarrow> instant \<Rightarrow> State" where
  "logicalState cb c now = logicalStateWith c (cooldowns cb) now"

definition probeIfCooldownElapsed :: "CircuitBreaker \<Rightarrow> circuit \<Rightarrow> instant \<Rightarrow> circuit \<times> bool" where
  "probeIfCooldownElapsed cb c now =
     (if c_state c \<noteq> StateOpen \<or> stillDark c (cooldowns cb) now then (c, False)
      else (c\<lparr>c_state := StateHalfOpen, c_halfOpenProbes := 0\<rparr>, True))"

subsection \<open>The probe backoff\<close>

text \<open>The loop of \<open>applyBackoff\<close>: \<open>for range c.failedProbes\<close>, left early at the ceiling.\<close>

fun backoff_loop :: "nat \<Rightarrow> duration \<Rightarrow> duration \<Rightarrow> duration" where
  "backoff_loop 0 cap d = d"
| "backoff_loop (Suc n) cap d =
     (if d > go_quot cap 2 then cap else backoff_loop n cap (wrap64 (d * 2)))"

definition applyBackoff :: "CircuitBreaker \<Rightarrow> circuit \<Rightarrow> circuit" where
  "applyBackoff cb c =
     (let c = c\<lparr>c_cooldownBackoff := 0\<rparr>
      in if c_failedProbes c = 0 then c
         else
           (let base = effectiveCooldown cb; cap = backoffMax cb
            in if cap \<le> 0 then c
               else
                 (let cap = (if exhaustedEscalated c then max cap (quotaPinMax cb)
                                 else cap)
                  in if base \<le> 0 \<or> cap \<le> base then c
                     else c\<lparr>c_cooldownBackoff := backoff_loop (c_failedProbes c) cap base\<rparr>)))"

subsection \<open>Facts about the reads\<close>

lemma cooldowns_sel [simp]:
  "r_base (cooldowns cb) = effectiveCooldown cb"
  "r_backoffMax (cooldowns cb) = backoffMax cb"
  "r_pinMax (cooldowns cb) = quotaPinMax cb"
  "r_pinProbe (cooldowns cb) = pinProbeInterval cb"
  by (simp_all add: cooldowns_def)

lemma effectiveSpan_ge_1: "1 \<le> effectiveSpan cb"
  by (simp add: effectiveSpan_def Let_def)

lemma reads_depend_on_settings:
  assumes "cb_settings cb = cb_settings cb'" "cb_Threshold cb = cb_Threshold cb'"
    "cb_SpanModels cb = cb_SpanModels cb'" "cb_Cooldown cb = cb_Cooldown cb'"
  shows "effectiveThreshold cb = effectiveThreshold cb'" "effectiveSpan cb = effectiveSpan cb'"
    "effectiveCooldown cb = effectiveCooldown cb'" "backoffMax cb = backoffMax cb'"
    "quotaPinMax cb = quotaPinMax cb'" "pinProbeInterval cb = pinProbeInterval cb'"
    "quotaPinEnabled cb = quotaPinEnabled cb'" "cooldowns cb = cooldowns cb'"
  using assms
  by (simp_all add: effectiveThreshold_def effectiveSpan_def effectiveCooldown_def backoffMax_def
      quotaPinMax_def pinProbeInterval_def quotaPinEnabled_def cooldowns_def Let_def split: option.split)

lemma effectiveThreshold_upd [simp]:
  "effectiveThreshold (cb\<lparr>cb_circuits := x\<rparr>) = effectiveThreshold cb"
  "effectiveThreshold (cb\<lparr>cb_names := y\<rparr>) = effectiveThreshold cb"
  by (simp_all add: effectiveThreshold_def Let_def split: option.split)

lemma effectiveSpan_upd [simp]:
  "effectiveSpan (cb\<lparr>cb_circuits := x\<rparr>) = effectiveSpan cb"
  "effectiveSpan (cb\<lparr>cb_names := y\<rparr>) = effectiveSpan cb"
  by (simp_all add: effectiveSpan_def Let_def split: option.split)

lemma effectiveCooldown_upd [simp]:
  "effectiveCooldown (cb\<lparr>cb_circuits := x\<rparr>) = effectiveCooldown cb"
  "effectiveCooldown (cb\<lparr>cb_names := y\<rparr>) = effectiveCooldown cb"
  by (simp_all add: effectiveCooldown_def Let_def split: option.split)

lemma ceilings_upd [simp]:
  "backoffMax (cb\<lparr>cb_circuits := x\<rparr>) = backoffMax cb"
  "backoffMax (cb\<lparr>cb_names := y\<rparr>) = backoffMax cb"
  "quotaPinMax (cb\<lparr>cb_circuits := x\<rparr>) = quotaPinMax cb"
  "quotaPinMax (cb\<lparr>cb_names := y\<rparr>) = quotaPinMax cb"
  "quotaPinEnabled (cb\<lparr>cb_circuits := x\<rparr>) = quotaPinEnabled cb"
  "quotaPinEnabled (cb\<lparr>cb_names := y\<rparr>) = quotaPinEnabled cb"
  "pinProbeInterval (cb\<lparr>cb_circuits := x\<rparr>) = pinProbeInterval cb"
  "pinProbeInterval (cb\<lparr>cb_names := y\<rparr>) = pinProbeInterval cb"
  by (simp_all add: backoffMax_def quotaPinMax_def quotaPinEnabled_def pinProbeInterval_def)

lemma cooldowns_upd [simp]:
  "cooldowns (cb\<lparr>cb_circuits := x\<rparr>) = cooldowns cb"
  "cooldowns (cb\<lparr>cb_names := y\<rparr>) = cooldowns cb"
  by (simp_all add: cooldowns_def)

subsection \<open>Facts about the cooldown\<close>

lemma unpinned_ge_base: "r_base r \<le> unpinnedCooldownWith c r"
  by (simp add: unpinnedCooldownWith_def backedOffForWith_def)

lemma unpinned_gate_view:
  "gate_view c = gate_view d \<Longrightarrow> unpinnedCooldownWith c r = unpinnedCooldownWith d r"
  by (drule gate_view_eqD) (simp add: unpinnedCooldownWith_def backedOffForWith_def)

lemma cooldown_gate_view:
  assumes "gate_view c = gate_view d"
  shows "effectiveCooldownForWith c r = effectiveCooldownForWith d r"
  using gate_view_eqD [OF assms] unpinned_gate_view [OF assms, of r]
  by (simp add: effectiveCooldownForWith_def quotaPinnedForWith_def Let_def)

lemma dark_gate_view:
  assumes "gate_view c = gate_view d"
  shows "stillDark c r now = stillDark d r now" and "blocking c r now = blocking d r now"
    and "logicalStateWith c r now = logicalStateWith d r now"
    and "quotaPinnedForWith c r = quotaPinnedForWith d r"
proof -
  note eq = gate_view_eqD [OF assms] and cd = cooldown_gate_view [OF assms, of r]
  show dark: "stillDark c r now = stillDark d r now"
    using eq(2) cd by (simp add: stillDark_def)
  show "blocking c r now = blocking d r now" using eq(1) dark by (simp add: blocking_def)
  show "logicalStateWith c r now = logicalStateWith d r now"
    using eq(1) dark by (simp add: logicalStateWith_def)
  show "quotaPinnedForWith c r = quotaPinnedForWith d r"
    using eq(3) by (simp add: quotaPinnedForWith_def)
qed

lemma probeSpread_nonneg: "0 \<le> seed \<Longrightarrow> 0 \<le> probe \<Longrightarrow> 0 \<le> probeSpread seed probe"
  by (simp add: probeSpread_def go_trunc_nonneg fl64_nonneg)

text \<open>The spread of a probe interval below \<open>2 ^ 53\<close> nanoseconds (104 days) is at most a
  twentieth of it, rounded as the division rounds.\<close>

lemma probeSpread_le:
  assumes "0 \<le> seed" "seed \<le> 1" "0 \<le> probe" "probe < 2 ^ 53"
  shows "probeSpread seed probe \<le> probe div 20 + 1"
proof -
  have fp: "fl64 (of_int probe) = of_int probe" using assms(3,4) by (rule fl64_nat_exact)
  have "seed * of_int probe \<le> of_int probe"
    using assms(1,2,3) mult_right_mono [of seed 1 "of_int probe"] by simp
  then have "fl64 (seed * of_int probe) \<le> fl64 (of_int probe)" by (rule fl64_mono)
  then have le: "fl64 (seed * of_int probe) / 20 \<le> of_int probe / 20"
    by (simp add: fp divide_right_mono)
  let ?n = "probe div 20 + 1"
  have "probe \<le> ?n * 20" by (simp add: distrib_right)
  then have "(of_int probe :: rat) \<le> of_int (?n * 20)" by (simp only: of_int_le_iff)
  then have "(of_int probe :: rat) / 20 \<le> of_int ?n" by simp
  with le have "fl64 (fl64 (seed * of_int probe) / 20) \<le> fl64 (of_int ?n)"
    by (intro fl64_mono) simp
  also have "\<dots> = of_int ?n"
  proof (rule fl64_nat_exact)
    show "0 \<le> ?n" using assms(3) by simp
    show "?n < 2 ^ 53" using assms(3,4) by simp
  qed
  finally have "go_trunc (fl64 (fl64 (seed * of_int probe) / 20)) \<le> go_trunc (of_int ?n)"
    by (rule go_trunc_mono)
  then show ?thesis by (simp add: probeSpread_def fp del: of_int_add)
qed

lemma logicalState_cases:
  "logicalStateWith c r now = StateOpen \<longleftrightarrow> blocking c r now"
  "logicalStateWith c r now = StateClosed \<longleftrightarrow> c_state c = StateClosed"
  by (auto simp: logicalStateWith_def blocking_def)

lemma probeIf_simps:
  "c_state c \<noteq> StateOpen \<Longrightarrow> probeIfCooldownElapsed cb c now = (c, False)"
  "blocking c (cooldowns cb) now \<Longrightarrow> probeIfCooldownElapsed cb c now = (c, False)"
  "c_state c = StateOpen \<Longrightarrow> \<not> blocking c (cooldowns cb) now \<Longrightarrow>
     probeIfCooldownElapsed cb c now = (c\<lparr>c_state := StateHalfOpen, c_halfOpenProbes := 0\<rparr>, True)"
  by (auto simp: probeIfCooldownElapsed_def blocking_def)

lemma probeIf_state:
  "c_state (fst (probeIfCooldownElapsed cb c now)) = logicalStateWith c (cooldowns cb) now"
  by (auto simp: probeIfCooldownElapsed_def logicalStateWith_def)

lemma probeIf_fields [simp]:
  "c_openedAt (fst (probeIfCooldownElapsed cb c now)) = c_openedAt c"
  "c_cooldownOverride (fst (probeIfCooldownElapsed cb c now)) = c_cooldownOverride c"
  "c_cooldownBackoff (fst (probeIfCooldownElapsed cb c now)) = c_cooldownBackoff c"
  "c_pinSource (fst (probeIfCooldownElapsed cb c now)) = c_pinSource c"
  "c_probeSeed (fst (probeIfCooldownElapsed cb c now)) = c_probeSeed c"
  "c_consecutiveFails (fst (probeIfCooldownElapsed cb c now)) = c_consecutiveFails c"
  "c_failedProbes (fst (probeIfCooldownElapsed cb c now)) = c_failedProbes c"
  "c_lastCharged (fst (probeIfCooldownElapsed cb c now)) = c_lastCharged c"
  "c_lastSuccess (fst (probeIfCooldownElapsed cb c now)) = c_lastSuccess c"
  "c_opens429Streak (fst (probeIfCooldownElapsed cb c now)) = c_opens429Streak c"
  "c_open429WindowStart (fst (probeIfCooldownElapsed cb c now)) = c_open429WindowStart c"
  "c_lastCause (fst (probeIfCooldownElapsed cb c now)) = c_lastCause c"
  "c_lastStatus (fst (probeIfCooldownElapsed cb c now)) = c_lastStatus c"
  "c_opens (fst (probeIfCooldownElapsed cb c now)) = c_opens c"
  "c_openWindowStart (fst (probeIfCooldownElapsed cb c now)) = c_openWindowStart c"
  "c_unstableReported (fst (probeIfCooldownElapsed cb c now)) = c_unstableReported c"
  by (simp_all add: probeIfCooldownElapsed_def)

text \<open>A circuit only goes from dark to lit as time passes.\<close>

lemma stillDark_antimono:
  "now \<le> now' \<Longrightarrow> stillDark c r now' \<Longrightarrow> stillDark c r now"
  using time_sub_mono [of now now' "c_openedAt c"] by (auto simp: stillDark_def)

subsection \<open>The backoff is a capped doubling\<close>

lemma backoff_loop_spec:
  assumes "0 < d" "d \<le> cap" "cap < 2 ^ 63"
  shows "backoff_loop n cap d = min cap (d * 2 ^ n)"
  using assms
proof (induction n arbitrary: d)
  case (Suc n)
  have h: "go_quot cap 2 = cap div 2" using Suc.prems by (simp add: go_quot_nonneg)
  show ?case
  proof (cases "d > cap div 2")
    case True
    then have "cap \<le> d * 2" by linarith
    also have "d * 2 \<le> d * 2 ^ Suc n"
      using Suc.prems(1) by (intro mult_left_mono) simp_all
    finally show ?thesis using True h by simp
  next
    case False
    then have two: "d * 2 \<le> cap" by linarith
    then have "in_int64 (d * 2)" using Suc.prems by (simp add: in_int64_def)
    then have w: "wrap64 (d * 2) = d * 2" by (rule wrap64_id)
    have "backoff_loop (Suc n) cap d = backoff_loop n cap (d * 2)"
      using False h w by simp
    also have "\<dots> = min cap (d * 2 * 2 ^ n)"
      using Suc.IH [of "d * 2"] Suc.prems two by simp
    finally show ?thesis by (simp add: mult.assoc)
  qed
qed simp

end
