(* ===== verification/Provider_Verdict.thy ===== *)
theory Provider_Verdict
  imports Breaker_Core
begin

text \<open>
  What the breaker derives from one provider's circuits, and how it creates and drops them
  (\<open>internal/failover/model_circuits.go\<close>): the provider-wide verdict and the models it rests
  on, the most degraded circuit that represents the provider, the per-provider cap with its
  eviction, and the removal of a circuit. Every walk is over an association list whose order
  is arbitrary; the lemmas say what each walk computes in terms of the set of circuits alone.
\<close>

subsection \<open>The verdict\<close>

fun report_walk ::
  "modelCircuits \<Rightarrow> cooldownReads \<Rightarrow> instant \<Rightarrow> string list \<times> bool \<times> bool \<Rightarrow>
     string list \<times> bool \<times> bool" where
  "report_walk [] r now acc = acc"
| "report_walk ((model, c) # rest) r now (blocked, pinned, providerPinned) =
     (if \<not> blocking c r now then report_walk rest r now (blocked, pinned, providerPinned)
      else if quotaPinnedForWith c r
      then report_walk rest r now
             (blocked @ [model], True, providerPinned \<or> pinSpeaksForAccount (c_pinSource c))
      else report_walk rest r now (blocked @ [model], pinned, providerPinned))"

definition providerReport ::
  "CircuitBreaker \<Rightarrow> modelCircuits \<Rightarrow> cooldownReads \<Rightarrow> instant \<Rightarrow> bool \<times> string list \<times> bool" where
  "providerReport cb models r now =
     (let (blocked, pinned, providerPinned) = report_walk models r now ([], False, False)
      in (providerPinned \<or> int (length blocked) \<ge> effectiveSpan cb, sort blocked, pinned))"

definition providerOpen :: "CircuitBreaker \<Rightarrow> modelCircuits \<Rightarrow> instant \<Rightarrow> bool" where
  "providerOpen cb models now =
     (if \<not> list_ex (\<lambda>(_, c). c_state c = StateOpen) models then False
      else fst (providerReport cb models (cooldowns cb) now))"

definition accountPinned :: "modelCircuits \<Rightarrow> cooldownReads \<Rightarrow> instant \<Rightarrow> bool" where
  "accountPinned models r now =
     list_ex (\<lambda>(_, c). blocking c r now \<and> quotaPinnedForWith c r \<and>
       pinSpeaksForAccount (c_pinSource c)) models"

subsection \<open>The dominant circuit\<close>

record circuitRank =
  rank_model :: string
  rank_state :: nat
  rank_retry :: instant
  rank_fails :: int

fun stateRank :: "State \<Rightarrow> nat" where
  "stateRank StateOpen = 2"
| "stateRank StateHalfOpen = 1"
| "stateRank StateClosed = 0"

definition beats :: "circuitRank \<Rightarrow> circuitRank \<Rightarrow> bool" where
  "beats r o' =
     (if rank_state r \<noteq> rank_state o' then rank_state r > rank_state o'
      else if rank_retry r \<noteq> rank_retry o' then rank_retry r > rank_retry o'
      else if rank_fails r \<noteq> rank_fails o' then rank_fails r > rank_fails o'
      else rank_model r < rank_model o')"

definition rank_of :: "cooldownReads \<Rightarrow> instant \<Rightarrow> string \<times> circuit \<Rightarrow> circuitRank" where
  "rank_of r now mc =
     \<lparr>rank_model = fst mc, rank_state = stateRank (logicalStateWith (snd mc) r now),
      rank_retry = time_add (c_openedAt (snd mc)) (effectiveCooldownForWith (snd mc) r),
      rank_fails = c_consecutiveFails (snd mc)\<rparr>"

definition dominant :: "modelCircuits \<Rightarrow> cooldownReads \<Rightarrow> instant \<Rightarrow> circuit option" where
  "dominant models r now =
     map_option snd
       (scan_best (\<lambda>x y. beats (rank_of r now x) (rank_of r now y)) None models)"

text \<open>The states in the order \<open>stateRank\<close> scores them: how much traffic they hold back.\<close>

instantiation State :: linorder
begin
definition less_eq_State :: "State \<Rightarrow> State \<Rightarrow> bool" where
  "less_eq_State s t \<longleftrightarrow> stateRank s \<le> stateRank t"
definition less_State :: "State \<Rightarrow> State \<Rightarrow> bool" where
  "less_State s t \<longleftrightarrow> stateRank s < stateRank t"
instance
proof
  fix x y :: State
  show "x \<le> y \<Longrightarrow> y \<le> x \<Longrightarrow> x = y"
    by (cases x; cases y) (simp_all add: less_eq_State_def)
qed (auto simp: less_eq_State_def less_State_def)
end

subsection \<open>Creating and dropping circuits\<close>

definition evicts_before :: "string \<times> circuit \<Rightarrow> string \<times> circuit \<Rightarrow> bool" where
  "evicts_before x y \<longleftrightarrow>
     c_lastCharged (snd x) < c_lastCharged (snd y) \<or>
     c_lastCharged (snd x) = c_lastCharged (snd y) \<and> fst x < fst y"

definition evictIfFull :: "CircuitBreaker \<Rightarrow> modelCircuits \<Rightarrow> instant \<Rightarrow> modelCircuits" where
  "evictIfFull cb models now =
     (if length models < maxModelCircuitsPerProvider then models
      else
        (let r = cooldowns cb
         in case scan_best evicts_before None
                   (filter (\<lambda>(_, c). logicalStateWith c r now = StateClosed) models) of
              None \<Rightarrow> models
            | Some victim \<Rightarrow> gm_del (fst victim) models))"

definition getOrCreate ::
  "CircuitBreaker \<Rightarrow> string \<Rightarrow> string \<Rightarrow> instant \<Rightarrow> CircuitBreaker \<times> circuit" where
  "getOrCreate cb providerID model now =
     (let models = gm_inner (cb_circuits cb) providerID
      in case gm_get models model of
           Some c \<Rightarrow> (cb, c)
         | None \<Rightarrow>
             (let models' = gm_put model new_circuit (evictIfFull cb models now)
              in (cb\<lparr>cb_circuits := gm_put providerID models' (cb_circuits cb)\<rparr>, new_circuit)))"

text \<open>\<open>models[model]\<close> holds a pointer: writing through it is storing the circuit again.\<close>

definition setCircuit :: "CircuitBreaker \<Rightarrow> string \<Rightarrow> string \<Rightarrow> circuit \<Rightarrow> CircuitBreaker" where
  "setCircuit cb providerID model c =
     cb\<lparr>cb_circuits := gm_put providerID (gm_put model c (gm_inner (cb_circuits cb) providerID))
          (cb_circuits cb)\<rparr>"

definition getCircuit :: "CircuitBreaker \<Rightarrow> string \<Rightarrow> string \<Rightarrow> circuit option" where
  "getCircuit cb providerID model = gm_get (gm_inner (cb_circuits cb) providerID) model"

definition dropCircuit :: "CircuitBreaker \<Rightarrow> string \<Rightarrow> string \<Rightarrow> CircuitBreaker" where
  "dropCircuit cb pid model =
     (let models = gm_del model (gm_inner (cb_circuits cb) pid)
      in if models = []
         then cb\<lparr>cb_circuits := gm_del pid (cb_circuits cb), cb_names := gm_del pid (cb_names cb)\<rparr>
         else cb\<lparr>cb_circuits := gm_put pid models (cb_circuits cb)\<rparr>)"

definition setName :: "CircuitBreaker \<Rightarrow> string \<Rightarrow> string \<Rightarrow> CircuitBreaker" where
  "setName cb pid name = cb\<lparr>cb_names := gm_put pid name (cb_names cb)\<rparr>"

subsection \<open>What the verdict is\<close>

lemma report_walk_spec:
  "report_walk models r now (bl, p, pp) =
     (bl @ map fst (filter (\<lambda>(_, c). blocking c r now) models),
      p \<or> (\<exists>(m, c) \<in> set models. blocking c r now \<and> quotaPinnedForWith c r),
      pp \<or> accountPinned models r now)"
  by (induction models arbitrary: bl p pp) (auto simp: accountPinned_def)

definition blockedModels :: "modelCircuits \<Rightarrow> cooldownReads \<Rightarrow> instant \<Rightarrow> string list" where
  "blockedModels models r now = map fst (filter (\<lambda>(_, c). blocking c r now) models)"

lemma providerReport_spec:
  "providerReport cb models r now =
     (accountPinned models r now \<or> effectiveSpan cb \<le> int (length (blockedModels models r now)),
      sort (blockedModels models r now),
      \<exists>(m, c) \<in> set models. blocking c r now \<and> quotaPinnedForWith c r)"
  by (simp add: providerReport_def report_walk_spec blockedModels_def)

lemma blockedModels_Nil_if_none_open:
  "\<not> list_ex (\<lambda>(_, c). c_state c = StateOpen) models \<Longrightarrow> blockedModels models r now = []"
  by (auto simp: blockedModels_def blocking_def list_ex_iff filter_empty_conv)

lemma accountPinned_some_open:
  "accountPinned models r now \<Longrightarrow> list_ex (\<lambda>(_, c). c_state c = StateOpen) models"
  by (auto simp: accountPinned_def blocking_def list_ex_iff)

lemma providerOpen_spec:
  "providerOpen cb models now \<longleftrightarrow>
     accountPinned models (cooldowns cb) now \<or>
     effectiveSpan cb \<le> int (length (blockedModels models (cooldowns cb) now))"
proof (cases "list_ex (\<lambda>(_, c). c_state c = StateOpen) models")
  case True
  then show ?thesis by (simp add: providerOpen_def providerReport_spec)
next
  case False
  then have "blockedModels models (cooldowns cb) now = []" "\<not> accountPinned models (cooldowns cb) now"
    by (auto dest: blockedModels_Nil_if_none_open accountPinned_some_open)
  with False effectiveSpan_ge_1 [of cb] show ?thesis by (simp add: providerOpen_def)
qed

lemma providerOpen_upd [simp]:
  "providerOpen (cb\<lparr>cb_circuits := x\<rparr>) models now = providerOpen cb models now"
  "providerOpen (cb\<lparr>cb_names := y\<rparr>) models now = providerOpen cb models now"
  by (simp_all add: providerOpen_spec)

lemma length_blockedModels:
  "gm_wf models \<Longrightarrow>
   length (blockedModels models r now) = card {m. \<exists>c. gm_get models m = Some c \<and> blocking c r now}"
proof -
  assume wf: "gm_wf models"
  have "distinct (blockedModels models r now)"
    using wf by (auto simp: blockedModels_def gm_wf_def distinct_map inj_on_def)
  then have "length (blockedModels models r now) = card (set (blockedModels models r now))"
    by (simp add: distinct_card)
  also have "set (blockedModels models r now) =
      {m. \<exists>c. gm_get models m = Some c \<and> blocking c r now}"
    using wf by (force simp: blockedModels_def gm_mem_iff [symmetric])
  finally show ?thesis .
qed

lemma accountPinned_get:
  "gm_wf models \<Longrightarrow> accountPinned models r now \<longleftrightarrow>
     (\<exists>m c. gm_get models m = Some c \<and> blocking c r now \<and> quotaPinnedForWith c r \<and>
        pinSpeaksForAccount (c_pinSource c))"
  by (auto simp: accountPinned_def list_ex_iff gm_mem_iff [symmetric])

lemma blockedModels_set:
  "gm_wf models \<Longrightarrow>
     m \<in> set (blockedModels models r now) \<longleftrightarrow> (\<exists>c. gm_get models m = Some c \<and> blocking c r now)"
  by (force simp: blockedModels_def gm_mem_iff [symmetric])

lemma report_order_free:
  assumes "gm_wf ms" "gm_wf ms'" "set ms = set ms'"
  shows "providerReport cb ms r now = providerReport cb ms' r now"
proof -
  have get: "gm_get ms = gm_get ms'" using assms by (rule gm_get_eqI)
  have len: "length (blockedModels ms r now) = length (blockedModels ms' r now)"
    using assms get by (simp add: length_blockedModels)
  have d: "distinct (blockedModels x r now)" if "gm_wf x" for x
    using that by (auto simp: blockedModels_def gm_wf_def distinct_map inj_on_def)
  have "set (blockedModels ms r now) = set (blockedModels ms' r now)"
    using assms(3) by (auto simp: blockedModels_def)
  then have "sort (blockedModels ms r now) = sort (blockedModels ms' r now)"
    using d assms(1,2) by (intro sorted_distinct_set_unique) simp_all
  moreover have "accountPinned ms r now = accountPinned ms' r now"
    using assms get by (simp add: accountPinned_get)
  ultimately show ?thesis using len assms(3) by (simp add: providerReport_spec)
qed

subsection \<open>The dominant circuit and the eviction victim do not depend on the walk's order\<close>

lemma beats_asym: "beats a b \<Longrightarrow> \<not> beats b a"
  by (auto simp: beats_def split: if_splits)

lemma beats_trans: "beats a b \<Longrightarrow> beats b c \<Longrightarrow> beats a c"
  by (auto simp: beats_def split: if_splits)

lemma beats_total: "rank_model a \<noteq> rank_model b \<Longrightarrow> beats a b \<or> beats b a"
  by (auto simp: beats_def)

lemma rank_model_of [simp]: "rank_model (rank_of r now mc) = fst mc"
  by (simp add: rank_of_def)

interpretation rank_order: keyed_choice "\<lambda>x y. beats (rank_of r now x) (rank_of r now y)" fst
  for r now
  by unfold_locales (blast dest: beats_asym, blast intro: beats_trans, metis beats_total rank_model_of)

interpretation evict_order: keyed_choice evicts_before fst
  by unfold_locales (auto simp: evicts_before_def)

lemma dominant_order_free:
  assumes "gm_wf ms" "gm_wf ms'" "set ms = set ms'"
  shows "dominant ms r now = dominant ms' r now"
  unfolding dominant_def using assms
  by (intro arg_cong [where f = "map_option snd"] rank_order.scan_best_order_free)
    (simp_all add: gm_wf_def)

lemma dominant_None_iff: "dominant ms r now = None \<longleftrightarrow> ms = []"
  by (simp add: dominant_def rank_order.scan_best_None_iff)

lemma dominant_max:
  assumes "gm_wf ms" "dominant ms r now = Some d"
  shows "\<exists>m. gm_get ms m = Some d \<and> (\<forall>m' c. gm_get ms m' = Some c \<longrightarrow>
           (m', c) = (m, d) \<or> beats (rank_of r now (m, d)) (rank_of r now (m', c)))"
proof -
  have "ms \<noteq> []" using assms(2) dominant_None_iff [of ms r now] by auto
  then obtain p where p: "scan_best (\<lambda>x y. beats (rank_of r now x) (rank_of r now y)) None ms = Some p"
      "p \<in> set ms" "\<forall>x \<in> set ms. x = p \<or> beats (rank_of r now p) (rank_of r now x)"
    using rank_order.scan_best_max [of ms r now] assms(1) by (auto simp: gm_wf_def)
  then have "snd p = d" using assms(2) by (simp add: dominant_def)
  then have pd: "p = (fst p, d)" by (cases p) simp
  show ?thesis
  proof (intro exI conjI allI impI)
    show "gm_get ms (fst p) = Some d" using p(2) pd assms(1) by (metis gm_mem_iff)
    fix m' c assume "gm_get ms m' = Some c"
    then have "(m', c) \<in> set ms" by (rule map_of_SomeD)
    with p(3) pd show "(m', c) = (fst p, d) \<or> beats (rank_of r now (fst p, d)) (rank_of r now (m', c))"
      by metis
  qed
qed

lemma dominant_worst_state:
  assumes "gm_wf ms" "dominant ms r now = Some d" "gm_get ms m = Some c"
  shows "logicalStateWith c r now \<le> logicalStateWith d r now"
proof -
  from dominant_max [OF assms(1,2)] assms(3) obtain m' where
    "(m, c) = (m', d) \<or> beats (rank_of r now (m', d)) (rank_of r now (m, c))" by blast
  then show ?thesis by (auto simp: beats_def rank_of_def less_eq_State_def split: if_splits)
qed

subsection \<open>Eviction\<close>

lemma evictIfFull_cases:
  obtains (keep) "evictIfFull cb ms now = ms"
  | (drop) v c where "evictIfFull cb ms now = gm_del v ms" "(v, c) \<in> set ms"
      "c_state c = StateClosed" "maxModelCircuitsPerProvider \<le> length ms"
proof (cases "length ms < maxModelCircuitsPerProvider")
  case True
  then show ?thesis using keep by (simp add: evictIfFull_def)
next
  case False
  define cand where
    "cand = filter (\<lambda>(_, c). logicalStateWith c (cooldowns cb) now = StateClosed) ms"
  show ?thesis
  proof (cases "scan_best evicts_before None cand")
    case None
    with False show ?thesis using keep by (simp add: evictIfFull_def cand_def)
  next
    case (Some p)
    then have "p \<in> set cand" by (rule scan_best_mem)
    with Some False show ?thesis
      using drop [of "fst p" "snd p"]
      by (auto simp: evictIfFull_def cand_def logicalState_cases)
  qed
qed

lemma evictIfFull_wf: "gm_wf ms \<Longrightarrow> gm_wf (evictIfFull cb ms now)"
  by (rule evictIfFull_cases [of cb ms now]) simp_all

lemma evictIfFull_get:
  "gm_get (evictIfFull cb ms now) m = Some c \<Longrightarrow> gm_get ms m = Some c"
  by (rule evictIfFull_cases [of cb ms now]) (auto split: if_splits)

lemma evictIfFull_keeps_unhealthy:
  assumes "gm_wf ms" "gm_get ms m = Some c" "c_state c \<noteq> StateClosed"
  shows "gm_get (evictIfFull cb ms now) m = Some c"
proof (cases rule: evictIfFull_cases [of cb ms now])
  case keep
  with assms show ?thesis by simp
next
  case (drop v c')
  with assms have "v \<noteq> m" by (auto simp: gm_mem_iff)
  with assms drop show ?thesis by simp
qed

lemma evictIfFull_order_free:
  assumes "gm_wf ms" "gm_wf ms'" "set ms = set ms'"
  shows "gm_get (evictIfFull cb ms now) = gm_get (evictIfFull cb ms' now)"
proof -
  have get: "gm_get ms = gm_get ms'" using assms by (rule gm_get_eqI)
  have "length ms = card (set (map fst ms))" "length ms' = card (set (map fst ms'))"
    using assms(1,2) distinct_card [of "map fst ms"] distinct_card [of "map fst ms'"]
    by (simp_all add: gm_wf_def)
  with assms(3) have len: "length ms = length ms'" by simp
  have d: "distinct (map fst (filter P x))" if "gm_wf x" for x :: modelCircuits and P
    using that by (simp add: gm_wf_def distinct_map_filter)
  have "scan_best evicts_before None (filter P ms) = scan_best evicts_before None (filter P ms')" for P
    using assms(3) d [OF assms(1)] d [OF assms(2)]
    by (intro evict_order.scan_best_order_free) simp_all
  then show ?thesis by (simp add: evictIfFull_def len get fun_eq_iff split: option.split)
qed

subsection \<open>Reading the breaker's map after an update\<close>

lemma getCircuit_set:
  "getCircuit (setCircuit cb p m c) p' m' =
     (if p' = p \<and> m' = m then Some c else getCircuit cb p' m')"
  by (simp add: getCircuit_def setCircuit_def)

lemma getCircuit_setName [simp]: "getCircuit (setName cb p n) p' m' = getCircuit cb p' m'"
  by (simp add: getCircuit_def setName_def)

lemma cb_names_setCircuit [simp]: "cb_names (setCircuit cb p m c) = cb_names cb"
  by (simp add: setCircuit_def)

lemma setCircuit_config [simp]:
  "cb_settings (setCircuit cb p m c) = cb_settings cb" "cb_quota (setCircuit cb p m c) = cb_quota cb"
  "cb_onOpen (setCircuit cb p m c) = cb_onOpen cb" "cb_Threshold (setCircuit cb p m c) = cb_Threshold cb"
  "cb_SpanModels (setCircuit cb p m c) = cb_SpanModels cb"
  "cb_Cooldown (setCircuit cb p m c) = cb_Cooldown cb"
  "cb_HalfOpenMaxProbes (setCircuit cb p m c) = cb_HalfOpenMaxProbes cb"
  "cooldowns (setCircuit cb p m c) = cooldowns cb"
  "effectiveThreshold (setCircuit cb p m c) = effectiveThreshold cb"
  "effectiveSpan (setCircuit cb p m c) = effectiveSpan cb"
  "quotaPinMax (setCircuit cb p m c) = quotaPinMax cb"
  "providerOpen (setCircuit cb p m c) ms now = providerOpen cb ms now"
  by (simp_all add: setCircuit_def)

lemma setName_config [simp]:
  "cb_settings (setName cb p n) = cb_settings cb" "cb_quota (setName cb p n) = cb_quota cb"
  "cb_onOpen (setName cb p n) = cb_onOpen cb" "cb_Threshold (setName cb p n) = cb_Threshold cb"
  "cb_SpanModels (setName cb p n) = cb_SpanModels cb"
  "cb_Cooldown (setName cb p n) = cb_Cooldown cb"
  "cb_HalfOpenMaxProbes (setName cb p n) = cb_HalfOpenMaxProbes cb"
  "cb_circuits (setName cb p n) = cb_circuits cb" "cooldowns (setName cb p n) = cooldowns cb"
  "effectiveThreshold (setName cb p n) = effectiveThreshold cb"
  "effectiveSpan (setName cb p n) = effectiveSpan cb"
  "quotaPinMax (setName cb p n) = quotaPinMax cb"
  "providerOpen (setName cb p n) ms now = providerOpen cb ms now"
  "evictIfFull (setName cb p n) ms now = evictIfFull cb ms now"
  by (simp_all add: setName_def evictIfFull_def)

lemma getOrCreate_config [simp]:
  "cb_settings (fst (getOrCreate cb p m now)) = cb_settings cb"
  "cb_quota (fst (getOrCreate cb p m now)) = cb_quota cb"
  "cb_onOpen (fst (getOrCreate cb p m now)) = cb_onOpen cb"
  "cb_Threshold (fst (getOrCreate cb p m now)) = cb_Threshold cb"
  "cb_SpanModels (fst (getOrCreate cb p m now)) = cb_SpanModels cb"
  "cb_Cooldown (fst (getOrCreate cb p m now)) = cb_Cooldown cb"
  "cb_HalfOpenMaxProbes (fst (getOrCreate cb p m now)) = cb_HalfOpenMaxProbes cb"
  "cb_names (fst (getOrCreate cb p m now)) = cb_names cb"
  by (simp_all add: getOrCreate_def Let_def split: option.split)

lemma getOrCreate_circuit:
  "snd (getOrCreate cb p m now) = (case getCircuit cb p m of None \<Rightarrow> new_circuit | Some c \<Rightarrow> c)"
  by (simp add: getOrCreate_def getCircuit_def Let_def split: option.split)

lemma getOrCreate_tracked: "getCircuit cb p m = Some c \<Longrightarrow> getOrCreate cb p m now = (cb, c)"
  by (simp add: getOrCreate_def getCircuit_def)

lemma getOrCreate_get_same:
  "getCircuit (fst (getOrCreate cb p m now)) p m = Some (snd (getOrCreate cb p m now))"
  by (simp add: getOrCreate_def getCircuit_def Let_def split: option.split)

lemma getOrCreate_other_provider:
  "p' \<noteq> p \<Longrightarrow> gm_inner (cb_circuits (fst (getOrCreate cb p m now))) p' = gm_inner (cb_circuits cb) p'"
  by (simp add: getOrCreate_def Let_def split: option.split)

lemma getOrCreate_sibling:
  assumes "gm_wf (gm_inner (cb_circuits cb) p)" "getCircuit cb p m' = Some c" "c_state c \<noteq> StateClosed"
    "m' \<noteq> m"
  shows "getCircuit (fst (getOrCreate cb p m now)) p m' = Some c"
  using assms evictIfFull_keeps_unhealthy [of "gm_inner (cb_circuits cb) p" m' c cb now]
  by (simp add: getOrCreate_def getCircuit_def Let_def split: option.split)

end
