(* ===== verification/Quota_Pins.thy ===== *)
theory Quota_Pins
  imports Provider_Verdict
begin

text \<open>
  The pin an opening circuit is stamped with (\<open>internal/failover/circuit_quota.go\<close>,
  \<open>applyQuotaPin\<close> and \<open>clampPin\<close>): ceiling, then floor, then a positive jitter of at most a
  twentieth. The lemmas bound the pin, say when there is one, and say which source it carries.
\<close>

subsection \<open>Clamping\<close>

definition clampPin :: "duration \<Rightarrow> duration \<Rightarrow> duration \<Rightarrow> rng \<Rightarrow> duration option" where
  "clampPin d ceil floor' g =
     (let d = (if d > ceil then ceil else d)
      in if d \<le> floor' then None
         else
           (let spread = go_quot d 20
            in if spread > 0 then Some (wrap64 (d + rng_Int64N g (wrap64 (spread + 1)))) else Some d))"

definition applyQuotaPin ::
  "CircuitBreaker \<Rightarrow> string \<Rightarrow> circuit \<Rightarrow> duration \<Rightarrow> bool \<Rightarrow> rng \<Rightarrow> instant \<Rightarrow> circuit" where
  "applyQuotaPin cb providerID c exhaustHint account g now =
     (let c = c\<lparr>c_cooldownOverride := 0, c_pinSource := ''''\<rparr>
      in if \<not> quotaPinEnabled cb then c
         else
           (let hinted = (exhaustHint, if account then pinSourceAccount else pinSourceResponse);
                (d, source) =
                  (case cb_quota cb of
                     None \<Rightarrow> hinted
                   | Some advise \<Rightarrow>
                       (case advise providerID of
                          None \<Rightarrow> hinted
                        | Some adv \<Rightarrow>
                            if adv_ResetsAt adv > now
                            then (time_sub (adv_ResetsAt adv) now, advisorPinSource adv)
                            else hinted))
            in case clampPin d (quotaPinMax cb) (unpinnedCooldownWith c (cooldowns cb)) g of
                 None \<Rightarrow> c
               | Some d \<Rightarrow> c\<lparr>c_cooldownOverride := d, c_pinSource := source,
                               c_probeSeed := rng_Float64 g\<rparr>))"

subsection \<open>Bounds\<close>

text \<open>A ceiling for which neither the jitter nor the sum leaves the \<open>int64\<close> range: 146 years.\<close>

definition pin_ceiling_ok :: "duration \<Rightarrow> bool" where
  "pin_ceiling_ok ceil \<longleftrightarrow> ceil < 2 ^ 62"

lemma rng_draw: "rng_ok g \<Longrightarrow> 0 < n \<Longrightarrow> 0 \<le> rng_Int64N g n \<and> rng_Int64N g n < n"
  by (simp add: rng_ok_def)

lemma clampPin_bounds:
  assumes "clampPin d ceil fl g = Some p" "0 \<le> fl" "pin_ceiling_ok ceil" "rng_ok g"
  shows "fl < p" "min d ceil \<le> p" "p \<le> min d ceil + min d ceil div 20"
proof -
  define e where "e = min d ceil"
  have e: "(if d > ceil then ceil else d) = e" by (simp add: e_def)
  from assms(1) have fl: "fl < e" by (simp add: clampPin_def e Let_def split: if_splits)
  with assms(2) have pos: "0 < e" by simp
  have top: "e \<le> 2 ^ 62" using assms(3) by (simp add: e_def pin_ceiling_ok_def)
  have q: "go_quot e 20 = e div 20" using pos by (simp add: go_quot_nonneg)
  show "fl < p" "min d ceil \<le> p" "p \<le> min d ceil + min d ceil div 20"
  proof (atomize (full), cases "e div 20 > 0")
    case False
    with assms(1) have "p = e" using fl by (simp add: clampPin_def e q Let_def)
    with fl pos show "fl < p \<and> min d ceil \<le> p \<and> p \<le> min d ceil + min d ceil div 20"
      by (simp add: e_def [symmetric])
  next
    case True
    let ?k = "rng_Int64N g (e div 20 + 1)"
    have w1: "wrap64 (e div 20 + 1) = e div 20 + 1"
      using pos top by (intro wrap64_id) (simp add: in_int64_def)
    have k: "0 \<le> ?k" "?k \<le> e div 20"
      using rng_draw [OF assms(4), of "e div 20 + 1"] True by linarith+
    then have "wrap64 (e + ?k) = e + ?k"
      using pos top by (intro wrap64_id) (simp add: in_int64_def)
    with assms(1) True fl have "p = e + ?k" by (simp add: clampPin_def e q w1 Let_def)
    with fl k show "fl < p \<and> min d ceil \<le> p \<and> p \<le> min d ceil + min d ceil div 20"
      by (simp add: e_def [symmetric])
  qed
qed

lemma clampPin_range:
  assumes "clampPin d ceil fl g = Some p" "0 \<le> fl" "pin_ceiling_ok ceil" "rng_ok g"
  shows "0 < p" "p < 2 ^ 63"
proof -
  note b = clampPin_bounds [OF assms]
  show "0 < p" using b(1) assms(2) by simp
  have "min d ceil < 2 ^ 62" using assms(3) by (simp add: pin_ceiling_ok_def)
  then have "min d ceil + min d ceil div 20 < 2 ^ 63" by (simp add: min_def split: if_splits)
  with b(3) show "p < 2 ^ 63" by linarith
qed

lemma clampPin_None_iff: "clampPin d ceil fl g = None \<longleftrightarrow> d \<le> fl \<or> ceil \<le> fl"
  by (auto simp: clampPin_def Let_def)

subsection \<open>What the stamp leaves\<close>

lemma applyQuotaPin_fields [simp]:
  "c_state (applyQuotaPin cb p c h a g now) = c_state c"
  "c_openedAt (applyQuotaPin cb p c h a g now) = c_openedAt c"
  "c_cooldownBackoff (applyQuotaPin cb p c h a g now) = c_cooldownBackoff c"
  "c_failedProbes (applyQuotaPin cb p c h a g now) = c_failedProbes c"
  "c_consecutiveFails (applyQuotaPin cb p c h a g now) = c_consecutiveFails c"
  "c_halfOpenProbes (applyQuotaPin cb p c h a g now) = c_halfOpenProbes c"
  "c_opens429Streak (applyQuotaPin cb p c h a g now) = c_opens429Streak c"
  "c_open429WindowStart (applyQuotaPin cb p c h a g now) = c_open429WindowStart c"
  "c_lastCause (applyQuotaPin cb p c h a g now) = c_lastCause c"
  "c_lastStatus (applyQuotaPin cb p c h a g now) = c_lastStatus c"
  "c_lastCharged (applyQuotaPin cb p c h a g now) = c_lastCharged c"
  "c_lastSuccess (applyQuotaPin cb p c h a g now) = c_lastSuccess c"
  "c_opens (applyQuotaPin cb p c h a g now) = c_opens c"
  "c_openWindowStart (applyQuotaPin cb p c h a g now) = c_openWindowStart c"
  "c_unstableReported (applyQuotaPin cb p c h a g now) = c_unstableReported c"
  "unpinnedCooldownWith (applyQuotaPin cb p c h a g now) r = unpinnedCooldownWith c r"
  by (simp_all add: applyQuotaPin_def Let_def unpinnedCooldownWith_def backedOffForWith_def
      split: option.split prod.split)

text \<open>The candidate pin and its source, before the clamp.\<close>

definition pin_candidate ::
  "CircuitBreaker \<Rightarrow> string \<Rightarrow> duration \<Rightarrow> bool \<Rightarrow> instant \<Rightarrow> duration \<times> string" where
  "pin_candidate cb p h a now =
     (case cb_quota cb of
        Some advise \<Rightarrow>
          (case advise p of
             Some adv \<Rightarrow>
               if adv_ResetsAt adv > now then (time_sub (adv_ResetsAt adv) now, advisorPinSource adv)
               else (h, if a then pinSourceAccount else pinSourceResponse)
           | None \<Rightarrow> (h, if a then pinSourceAccount else pinSourceResponse))
      | None \<Rightarrow> (h, if a then pinSourceAccount else pinSourceResponse))"

lemma pin_candidate_source:
  "snd (pin_candidate cb p h a now) \<in>
     {pinSourceAdvisor, pinSourceReserve, pinSourceResponse, pinSourceAccount}"
  by (auto simp: pin_candidate_def advisorPinSource_def split: option.split)

lemma pin_candidate_nonempty: "snd (pin_candidate cb p h a now) \<noteq> ''''"
  using pin_candidate_source [of cb p h a now] by (auto simp: pin_source_defs)

lemma applyQuotaPin_cases:
  obtains (none) "applyQuotaPin cb p c h a g now = c\<lparr>c_cooldownOverride := 0, c_pinSource := ''''\<rparr>"
      "quotaPinMax cb \<le> 0 \<or> fst (pin_candidate cb p h a now) \<le> unpinnedCooldownWith c (cooldowns cb)
        \<or> quotaPinMax cb \<le> unpinnedCooldownWith c (cooldowns cb)"
  | (pin) d where "quotaPinEnabled cb"
      "clampPin (fst (pin_candidate cb p h a now)) (quotaPinMax cb)
         (unpinnedCooldownWith c (cooldowns cb)) g = Some d"
      "applyQuotaPin cb p c h a g now = c\<lparr>c_cooldownOverride := d,
         c_pinSource := snd (pin_candidate cb p h a now), c_probeSeed := rng_Float64 g\<rparr>"
proof (cases "quotaPinEnabled cb")
  case False
  then show ?thesis using none by (simp add: applyQuotaPin_def quotaPinEnabled_def)
next
  case True
  let ?c0 = "c\<lparr>c_cooldownOverride := 0, c_pinSource := ''''\<rparr>"
  let ?cand = "pin_candidate cb p h a now"
  have fl: "unpinnedCooldownWith ?c0 (cooldowns cb) = unpinnedCooldownWith c (cooldowns cb)"
    by (simp add: unpinnedCooldownWith_def backedOffForWith_def)
  have eq: "applyQuotaPin cb p c h a g now =
      (case clampPin (fst ?cand) (quotaPinMax cb) (unpinnedCooldownWith c (cooldowns cb)) g of
         None \<Rightarrow> ?c0
       | Some d \<Rightarrow> c\<lparr>c_cooldownOverride := d, c_pinSource := snd ?cand, c_probeSeed := rng_Float64 g\<rparr>)"
    using True
    by (simp add: applyQuotaPin_def pin_candidate_def fl Let_def split: option.split)
  show ?thesis
  proof (cases "clampPin (fst ?cand) (quotaPinMax cb) (unpinnedCooldownWith c (cooldowns cb)) g")
    case None
    with eq show ?thesis using none by (simp add: clampPin_None_iff)
  next
    case (Some d)
    with eq True show ?thesis using pin by simp
  qed
qed

text \<open>With pinning on and the advisor naming a future reset, the advisor's word is the candidate.\<close>

lemma pin_candidate_advised:
  "cb_quota cb = Some advise \<Longrightarrow> advise p = Some adv \<Longrightarrow> adv_ResetsAt adv > now \<Longrightarrow>
     pin_candidate cb p h a now = (time_sub (adv_ResetsAt adv) now, advisorPinSource adv)"
  by (simp add: pin_candidate_def)

end
