(* ===== verification/Event_Bus.thy ===== *)
theory Event_Bus
  imports Hotel_Prelude
begin

text \<open>
  The event bus behind the SSE streams and the alert dispatcher
  (\<open>internal/events/bus.go\<close>). A channel is an entry of the channel heap: its buffer and
  whether it is closed; \<open>make(chan Event, 64)\<close> allocates the next number. Sending on a closed
  channel and closing a closed channel panic in Go: the operations answer \<open>None\<close> there, and
  the lemmas show that no run of the bus reaches a panic. The metadata of an event is a map
  from strings to the values the emitters put there; an instant an emitter renders as RFC 3339
  text is kept as the instant.
\<close>

datatype attr = AStr string | AInt int | ABool bool | ATime instant

record Event =
  ev_ID :: string
  ev_Type :: string
  ev_Severity :: string
  ev_Source :: string
  ev_Message :: string
  ev_Metadata :: "attr gomap"
  ev_Timestamp :: instant

record event_chan =
  ch_buf :: "Event list"
  ch_closed :: bool

record Bus =
  bus_subscribers :: "(nat \<times> nat) list"
  bus_closed :: bool
  bus_chans :: "(nat \<times> event_chan) list"
  bus_next :: nat

definition dropLogEvery :: nat where "dropLogEvery = 100"

definition chan_cap :: nat where "chan_cap = 64"

definition NewBus :: Bus where
  "NewBus = \<lparr>bus_subscribers = [], bus_closed = False, bus_chans = [], bus_next = 0\<rparr>"

subsection \<open>Operations\<close>

text \<open>The send in \<open>Publish\<close>'s select: the result says whether the event was delivered, and is
  \<open>None\<close> where Go panics.\<close>

definition try_send :: "event_chan \<Rightarrow> Event \<Rightarrow> (event_chan \<times> bool) option" where
  "try_send ch ev =
     (if ch_closed ch then None
      else if length (ch_buf ch) < chan_cap then Some (ch\<lparr>ch_buf := ch_buf ch @ [ev]\<rparr>, True)
      else Some (ch, False))"

text \<open>The walk over the subscribers; the second component lists the drop counts logged.\<close>

fun publish_walk :: "(nat \<times> nat) list \<Rightarrow> Event \<Rightarrow> Bus \<Rightarrow> (Bus \<times> nat list) option" where
  "publish_walk [] ev b = Some (b, [])"
| "publish_walk ((ch, drops) # rest) ev b =
     (case gm_get (bus_chans b) ch of
        None \<Rightarrow> None
      | Some c \<Rightarrow>
          (case try_send c ev of
             None \<Rightarrow> None
           | Some (c', True) \<Rightarrow>
               publish_walk rest ev (b\<lparr>bus_chans := gm_put ch c' (bus_chans b)\<rparr>)
           | Some (_, False) \<Rightarrow>
               (let n = drops + 1;
                    b' = b\<lparr>bus_subscribers := gm_put ch n (bus_subscribers b)\<rparr>
                in map_option
                     (\<lambda>(b'', ls). (b'', if n = 1 \<or> n mod dropLogEvery = 0 then n # ls else ls))
                     (publish_walk rest ev b'))))"

definition Bus_Publish :: "Bus \<Rightarrow> Event \<Rightarrow> string \<Rightarrow> instant \<Rightarrow> (Bus \<times> nat list) option" where
  "Bus_Publish b event newID now =
     (let event = (if ev_ID event = '''' then event\<lparr>ev_ID := newID\<rparr> else event);
          event = (if ev_Timestamp event = 0 then event\<lparr>ev_Timestamp := now\<rparr> else event)
      in publish_walk (bus_subscribers b) event b)"

definition Bus_Subscribe :: "Bus \<Rightarrow> Bus \<times> nat" where
  "Bus_Subscribe b =
     (let ch = bus_next b;
          b = b\<lparr>bus_next := ch + 1\<rparr>
      in if bus_closed b
         then (b\<lparr>bus_chans := gm_put ch \<lparr>ch_buf = [], ch_closed = True\<rparr> (bus_chans b)\<rparr>, ch)
         else (b\<lparr>bus_chans := gm_put ch \<lparr>ch_buf = [], ch_closed = False\<rparr> (bus_chans b),
                 bus_subscribers := gm_put ch 0 (bus_subscribers b)\<rparr>, ch))"

text \<open>\<open>close(ch)\<close>; the background drain is a sequence of receives.\<close>

definition close_chan :: "Bus \<Rightarrow> nat \<Rightarrow> Bus option" where
  "close_chan b ch =
     (case gm_get (bus_chans b) ch of
        None \<Rightarrow> None
      | Some c \<Rightarrow> if ch_closed c then None
                  else Some (b\<lparr>bus_chans := gm_put ch (c\<lparr>ch_closed := True\<rparr>) (bus_chans b)\<rparr>))"

definition Bus_Unsubscribe :: "Bus \<Rightarrow> nat \<Rightarrow> Bus option" where
  "Bus_Unsubscribe b ch =
     (let tracked = (gm_get (bus_subscribers b) ch \<noteq> None);
          b = b\<lparr>bus_subscribers := gm_del ch (bus_subscribers b)\<rparr>
      in if \<not> tracked then Some b else close_chan b ch)"

fun close_walk :: "nat list \<Rightarrow> Bus \<Rightarrow> Bus option" where
  "close_walk [] b = Some b"
| "close_walk (ch # rest) b =
     (case close_chan (b\<lparr>bus_subscribers := gm_del ch (bus_subscribers b)\<rparr>) ch of
        None \<Rightarrow> None | Some b' \<Rightarrow> close_walk rest b')"

definition Bus_Close :: "Bus \<Rightarrow> Bus option" where
  "Bus_Close b =
     (if bus_closed b then Some b
      else close_walk (map fst (bus_subscribers b)) (b\<lparr>bus_closed := True\<rparr>))"

text \<open>A consumer (or the drain) takes the oldest event of a channel.\<close>

definition chan_recv :: "Bus \<Rightarrow> nat \<Rightarrow> (Bus \<times> Event) option" where
  "chan_recv b ch =
     (case gm_get (bus_chans b) ch of
        None \<Rightarrow> None
      | Some c \<Rightarrow>
          (case ch_buf c of
             [] \<Rightarrow> None
           | ev # evs \<Rightarrow>
               Some (b\<lparr>bus_chans := gm_put ch (c\<lparr>ch_buf := evs\<rparr>) (bus_chans b)\<rparr>, ev)))"

subsection \<open>Runs of the bus\<close>

text \<open>One rule per call another goroutine may make next; \<open>bus_panic\<close> are the calls that panic.\<close>

inductive bus_step :: "Bus \<Rightarrow> Bus \<Rightarrow> bool" where
  publish: "Bus_Publish b ev newID now = Some (b', ls) \<Longrightarrow> bus_step b b'"
| subscribe: "Bus_Subscribe b = (b', ch) \<Longrightarrow> bus_step b b'"
| unsubscribe: "Bus_Unsubscribe b ch = Some b' \<Longrightarrow> bus_step b b'"
| close: "Bus_Close b = Some b' \<Longrightarrow> bus_step b b'"
| recv: "chan_recv b ch = Some (b', ev) \<Longrightarrow> bus_step b b'"

inductive bus_reachable :: "Bus \<Rightarrow> bool" where
  start: "bus_reachable NewBus"
| step: "bus_reachable b \<Longrightarrow> bus_step b b' \<Longrightarrow> bus_reachable b'"

subsection \<open>The invariant\<close>

text \<open>Subscribers name open channels of the heap, a closed bus has none, and no buffer holds more
  than its capacity.\<close>

definition bus_inv :: "Bus \<Rightarrow> bool" where
  "bus_inv b \<longleftrightarrow> gm_wf (bus_subscribers b) \<and> gm_wf (bus_chans b) \<and>
     (\<forall>ch. gm_get (bus_subscribers b) ch \<noteq> None \<longrightarrow>
        (\<exists>c. gm_get (bus_chans b) ch = Some c \<and> \<not> ch_closed c)) \<and>
     (\<forall>ch c. gm_get (bus_chans b) ch = Some c \<longrightarrow> length (ch_buf c) \<le> chan_cap \<and> ch < bus_next b) \<and>
     (bus_closed b \<longrightarrow> bus_subscribers b = [])"

lemma bus_invD:
  assumes "bus_inv b"
  shows "gm_wf (bus_subscribers b)" "gm_wf (bus_chans b)"
    "gm_get (bus_subscribers b) ch = Some d \<Longrightarrow> \<exists>c. gm_get (bus_chans b) ch = Some c \<and> \<not> ch_closed c"
    "gm_get (bus_chans b) ch = Some c \<Longrightarrow> length (ch_buf c) \<le> chan_cap"
    "gm_get (bus_chans b) ch = Some c \<Longrightarrow> ch < bus_next b"
    "bus_closed b \<Longrightarrow> bus_subscribers b = []"
  using assms unfolding bus_inv_def by blast+

lemma bus_inv_new: "bus_inv NewBus"
  by (simp add: bus_inv_def NewBus_def)

text \<open>What a walk of \<open>Publish\<close> may change: buffers grow by the event within capacity, drop
  counts change, nothing else.\<close>

lemma publish_walk_inv:
  assumes "bus_inv b" "\<And>ch d. (ch, d) \<in> set ss \<Longrightarrow> gm_get (bus_subscribers b) ch \<noteq> None"
  shows "\<exists>b' ls. publish_walk ss ev b = Some (b', ls) \<and> bus_inv b'"
  using assms
proof (induction ss ev b rule: publish_walk.induct)
  case (2 ch drops rest ev b)
  have sub: "gm_get (bus_subscribers b) ch \<noteq> None"
    by (rule "2.prems"(2) [of ch drops]) simp
  then obtain c where c: "gm_get (bus_chans b) ch = Some c" "\<not> ch_closed c"
    using bus_invD(3) [OF "2.prems"(1)] by blast
  show ?case
  proof (cases "length (ch_buf c) < chan_cap")
    case True
    define c' where "c' = c\<lparr>ch_buf := ch_buf c @ [ev]\<rparr>"
    define b1 where "b1 = b\<lparr>bus_chans := gm_put ch c' (bus_chans b)\<rparr>"
    have send: "try_send c ev = Some (c', True)" using c(2) True by (simp add: try_send_def c'_def)
    have "bus_inv b1" using "2.prems"(1) c True unfolding bus_inv_def b1_def c'_def by auto
    then have "\<exists>b' ls. publish_walk rest ev b1 = Some (b', ls) \<and> bus_inv b'"
      using "2.IH"(1) [OF c(1) send] "2.prems"(2) by (fastforce simp: b1_def)
    with c(1) send show ?thesis by (simp add: b1_def)
  next
    case False
    define b1 where "b1 = b\<lparr>bus_subscribers := gm_put ch (drops + 1) (bus_subscribers b)\<rparr>"
    have send: "try_send c ev = Some (c, False)" using c(2) False by (simp add: try_send_def)
    have "\<not> bus_closed b" using sub bus_invD(6) [OF "2.prems"(1)] by auto
    then have "bus_inv b1" using "2.prems"(1) c sub unfolding bus_inv_def b1_def by auto
    then have "\<exists>b' ls. publish_walk rest ev b1 = Some (b', ls) \<and> bus_inv b'"
      using "2.IH"(2) [OF c(1) send] "2.prems"(2) by (fastforce simp: b1_def)
    with c(1) send show ?thesis by (auto simp: b1_def)
  qed
qed simp

lemma Publish_ok:
  assumes "bus_inv b"
  shows "\<exists>b' ls. Bus_Publish b ev newID now = Some (b', ls) \<and> bus_inv b'"
  unfolding Bus_Publish_def Let_def
  by (rule publish_walk_inv [OF assms]) (metis map_of_eq_None_iff image_eqI fst_conv)

lemma Subscribe_ok: "bus_inv b \<Longrightarrow> bus_inv (fst (Bus_Subscribe b))"
  unfolding bus_inv_def Bus_Subscribe_def Let_def
  by (auto simp: chan_cap_def less_Suc_eq)

lemma close_chan_ok:
  assumes "gm_wf (bus_subscribers b)" "gm_wf (bus_chans b)" "gm_get (bus_chans b) ch = Some c"
    "\<not> ch_closed c"
  shows "close_chan b ch = Some (b\<lparr>bus_chans := gm_put ch (c\<lparr>ch_closed := True\<rparr>) (bus_chans b)\<rparr>)"
  using assms by (simp add: close_chan_def)

lemma Unsubscribe_ok:
  assumes "bus_inv b"
  shows "\<exists>b'. Bus_Unsubscribe b ch = Some b' \<and> bus_inv b'"
proof (cases "gm_get (bus_subscribers b) ch")
  case None
  with assms show ?thesis by (auto simp: Bus_Unsubscribe_def bus_inv_def)
next
  case (Some d)
  then obtain c where c: "gm_get (bus_chans b) ch = Some c" "\<not> ch_closed c"
    using bus_invD(3) [OF assms] by blast
  with Some assms show ?thesis
    by (auto simp: Bus_Unsubscribe_def close_chan_def bus_inv_def)
qed

lemma close_walk_ok:
  assumes "gm_wf (bus_subscribers b)" "gm_wf (bus_chans b)" "distinct chs"
    "set chs = fst ` set (bus_subscribers b)"
    "\<And>ch. ch \<in> set chs \<Longrightarrow> \<exists>c. gm_get (bus_chans b) ch = Some c \<and> \<not> ch_closed c"
    "\<And>ch c. gm_get (bus_chans b) ch = Some c \<Longrightarrow> length (ch_buf c) \<le> chan_cap \<and> ch < bus_next b"
    "bus_closed b"
  shows "\<exists>b'. close_walk chs b = Some b' \<and> bus_inv b'"
  using assms
proof (induction chs arbitrary: b)
  case Nil
  then show ?case by (auto simp: bus_inv_def)
next
  case (Cons ch chs)
  obtain c where c: "gm_get (bus_chans b) ch = Some c" "\<not> ch_closed c"
    using Cons.prems(5) by auto
  define b1 where "b1 = b\<lparr>bus_subscribers := gm_del ch (bus_subscribers b),
      bus_chans := gm_put ch (c\<lparr>ch_closed := True\<rparr>) (bus_chans b)\<rparr>"
  have step: "close_chan (b\<lparr>bus_subscribers := gm_del ch (bus_subscribers b)\<rparr>) ch = Some b1"
    using c by (simp add: close_chan_def b1_def)
  have "\<exists>b'. close_walk chs b1 = Some b' \<and> bus_inv b'"
  proof (rule Cons.IH)
    show "set chs = fst ` set (bus_subscribers b1)"
      using Cons.prems(3,4) by (auto simp: b1_def)
    show "\<exists>ca. gm_get (bus_chans b1) k = Some ca \<and> \<not> ch_closed ca" if "k \<in> set chs" for k
      using that Cons.prems(3) Cons.prems(5) [of k] by (auto simp: b1_def)
    show "length (ch_buf ca) \<le> chan_cap \<and> k < bus_next b1" if "gm_get (bus_chans b1) k = Some ca" for k ca
      using that Cons.prems(6) c(1) by (auto simp: b1_def split: if_splits)
  qed (use Cons.prems in \<open>auto simp: b1_def\<close>)
  with step show ?case by simp
qed

lemma Close_ok:
  assumes "bus_inv b"
  shows "\<exists>b'. Bus_Close b = Some b' \<and> bus_inv b'"
proof (cases "bus_closed b")
  case False
  have "\<exists>b'. close_walk (map fst (bus_subscribers b)) (b\<lparr>bus_closed := True\<rparr>) = Some b' \<and> bus_inv b'"
  proof (rule close_walk_ok)
    show "\<exists>c. gm_get (bus_chans (b\<lparr>bus_closed := True\<rparr>)) ch = Some c \<and> \<not> ch_closed c"
      if "ch \<in> set (map fst (bus_subscribers b))" for ch
    proof -
      from that have "gm_get (bus_subscribers b) ch \<noteq> None"
        by (simp add: map_of_eq_None_iff)
      then show ?thesis using bus_invD(3) [OF assms] by fastforce
    qed
  qed (use assms in \<open>auto simp: bus_inv_def gm_wf_def\<close>)
  with False show ?thesis by (simp add: Bus_Close_def)
qed (use assms in \<open>simp add: Bus_Close_def\<close>)

lemma recv_ok: "bus_inv b \<Longrightarrow> chan_recv b ch = Some (b', ev) \<Longrightarrow> bus_inv b'"
  unfolding bus_inv_def chan_recv_def
  by (auto split: option.splits list.splits if_splits) fastforce+

lemma bus_step_inv:
  assumes "bus_step b b'" "bus_inv b"
  shows "bus_inv b'"
  using assms
proof (induction rule: bus_step.induct)
  case (publish b ev newID now b' ls)
  then show ?case using Publish_ok [of b ev newID now] by auto
next
  case (subscribe b b' ch)
  then show ?case using Subscribe_ok [of b] by simp
next
  case (unsubscribe b ch b')
  then show ?case using Unsubscribe_ok [of b ch] by auto
next
  case (close b b')
  then show ?case using Close_ok [of b] by auto
next
  case (recv b ch b' ev)
  then show ?case using recv_ok by blast
qed

lemma bus_reachable_inv: "bus_reachable b \<Longrightarrow> bus_inv b"
  by (induction rule: bus_reachable.induct) (simp_all add: bus_inv_new bus_step_inv)

subsection \<open>What a publish delivers\<close>

text \<open>The walk treats each subscriber on its own: an event is appended to a buffer with room, and
  counted as dropped for a full one.\<close>

lemma publish_walk_effect:
  assumes "distinct (map fst ss)" "publish_walk ss ev b = Some (b', ls)"
    "\<And>ch d. (ch, d) \<in> set ss \<Longrightarrow> gm_get (bus_subscribers b) ch = Some d"
    "gm_get (bus_chans b) ch = Some c"
  shows "gm_get (bus_chans b') ch =
      Some (if ch \<in> fst ` set ss \<and> length (ch_buf c) < chan_cap then c\<lparr>ch_buf := ch_buf c @ [ev]\<rparr> else c) \<and>
    gm_get (bus_subscribers b') ch =
      (if ch \<in> fst ` set ss \<and> \<not> length (ch_buf c) < chan_cap
       then map_option Suc (gm_get (bus_subscribers b) ch) else gm_get (bus_subscribers b) ch)"
  using assms
proof (induction ss ev b arbitrary: b' ls c rule: publish_walk.induct)
  case (2 k drops rest ev b)
  note prems = "2.prems"
  from prems(2) obtain ck where ck: "gm_get (bus_chans b) k = Some ck"
    by (auto split: option.splits)
  from prems(2) ck obtain ck' sent where snt: "try_send ck ev = Some (ck', sent)"
    by (auto split: option.splits)
  have k: "k \<notin> fst ` set rest" using prems(1) by force
  show ?case
  proof (cases sent)
    case True
    then have ck': "ck' = ck\<lparr>ch_buf := ch_buf ck @ [ev]\<rparr>" "length (ch_buf ck) < chan_cap"
      using snt by (auto simp: try_send_def split: if_splits)
    define b1 where "b1 = b\<lparr>bus_chans := gm_put k ck' (bus_chans b)\<rparr>"
    have walk: "publish_walk rest ev b1 = Some (b', ls)"
      using prems(2) ck snt True by (simp add: b1_def)
    have "gm_get (bus_chans b1) ch = Some (if ch = k then ck' else c)" using prems(4) by (simp add: b1_def)
    from "2.IH"(1) [OF ck snt _ _ _ walk [unfolded b1_def] _ this [unfolded b1_def]] prems True
    show ?thesis using ck ck' k by (auto simp: b1_def)
  next
    case False
    then have full: "\<not> length (ch_buf ck) < chan_cap"
      using snt by (auto simp: try_send_def split: if_splits)
    define b1 where "b1 = b\<lparr>bus_subscribers := gm_put k (drops + 1) (bus_subscribers b)\<rparr>"
    obtain ls' where walk: "publish_walk rest ev b1 = Some (b', ls')"
      using prems(2) ck snt False by (auto simp: b1_def Let_def split: option.splits)
    have sub: "gm_get (bus_subscribers b) k = Some drops" using prems(3) by simp
    have dom: "gm_get (bus_subscribers b1) j = Some d" if "(j, d) \<in> set rest" for j d
      using that prems(1) prems(3) [of j d] by (force simp: b1_def)
    have "gm_get (bus_chans b1) ch = Some c" using prems(4) by (simp add: b1_def)
    from "2.IH"(2) [OF ck snt refl _ refl refl, folded b1_def, OF _ _ walk dom this] prems(1) False
    show ?thesis using ck full k sub prems(4) by (auto simp: b1_def)
  qed
qed simp

end
