(* ===== verification/Breaker_Events.thy ===== *)
theory Breaker_Events
  imports Provider_Verdict Event_Bus
begin

text \<open>
  What the breaker emits once its lock is released: log lines, the metric of an open, the bus
  events and the open callback (\<open>internal/failover/circuit_events.go\<close> and the emitting half of
  \<open>circuitbreaker.go\<close>). \<open>afterUnlock\<close> is the list of emissions in the order they were added;
  running it is emitting them in that order. \<open>Duration.String\<close> and \<open>Duration.Round\<close> follow the
  standard library, including its rule that a fraction loses its trailing zeros.
\<close>

datatype emission =
    LogInfo string "attr gomap"
  | LogWarn string "attr gomap"
  | MetricBreakerOpen string string string
  | PublishEvent Event
  | RunOnOpen string

type_synonym afterUnlock = "emission list"

definition after_add :: "afterUnlock \<Rightarrow> emission \<Rightarrow> afterUnlock" where
  "after_add a f = a @ [f]"

subsection \<open>Durations as text\<close>

fun pad_digits :: "nat \<Rightarrow> int \<Rightarrow> string" where
  "pad_digits 0 v = ''''"
| "pad_digits (Suc n) v = pad_digits n (v div 10) @ [char_of (48 + v mod 10)]"

definition fmtFrac :: "int \<Rightarrow> nat \<Rightarrow> string" where
  "fmtFrac v prec =
     (let ds = rev (dropWhile (\<lambda>ch. ch = CHR ''0'') (rev (pad_digits prec (v mod 10 ^ prec))))
      in if ds = '''' then '''' else ''.'' @ ds)"

definition micro_sign :: string where "micro_sign = [CHR 0xC2, CHR 0xB5]"

definition Duration_String :: "duration \<Rightarrow> string" where
  "Duration_String d =
     (let u = \<bar>d\<bar>;
          body =
            (if u < 1000000000 then
               (if u = 0 then ''0s''
                else if u < 1000 then show_int u @ ''ns''
                else if u < 1000000 then show_int (u div 1000) @ fmtFrac u 3 @ micro_sign @ ''s''
                else show_int (u div 1000000) @ fmtFrac u 6 @ ''ms'')
             else
               (let s = u div 1000000000;
                    secs = show_int (s mod 60) @ fmtFrac u 9 @ ''s'';
                    m = s div 60;
                    mins = (if m > 0 then show_int (m mod 60) @ ''m'' else '''');
                    h = m div 60;
                    hrs = (if h > 0 then show_int h @ ''h'' else '''')
                in hrs @ mins @ secs))
      in if d < 0 then ''-'' @ body else body)"

definition Duration_Round :: "duration \<Rightarrow> duration \<Rightarrow> duration" where
  "Duration_Round d m =
     (if m \<le> 0 then d
      else
        (let r = go_rem d m
         in if d < 0 then
              (let r = - r
               in if r + r < m then d + r
                  else if d - m + r \<ge> minDuration then d - m + r else minDuration)
            else
              (if r + r < m then d - r
               else if d + m - r \<le> maxDuration then d + m - r else maxDuration)))"

definition shortDuration :: "duration \<Rightarrow> string" where
  "shortDuration d =
     (if d < second \<or> go_rem d second \<noteq> 0 then Duration_String d
      else if go_rem d minute \<noteq> 0 then Duration_String (Duration_Round d second)
      else
        (let h = go_quot d hour; m = go_quot (go_rem d hour) minute
         in if h = 0 then show_int m @ ''m''
            else if m = 0 then show_int h @ ''h''
            else show_int h @ ''h'' @ show_int m @ ''m''))"

definition backoffSuffix :: "duration \<Rightarrow> nat \<Rightarrow> string" where
  "backoffSuffix cooldown failedProbes =
     (let noun = (if failedProbes = 1 then ''retry'' else ''retries'')
      in '' (backing off after '' @ show_nat failedProbes @ '' failed '' @ noun @
         '', next retry in '' @ shortDuration cooldown @ '')'')"

subsection \<open>The event\<close>

definition breakerEventMessage :: "string \<Rightarrow> string \<Rightarrow> string \<Rightarrow> bool \<Rightarrow> string \<Rightarrow> string" where
  "breakerEventMessage providerName state model provOpen cause =
     (let msg = ''Provider '' @ providerName @ '' circuit breaker: '' @ state
      in if model = '''' then msg
         else
           (let msg = msg @ '' for model '' @ model;
                msg = (if state = ''open'' \<and> provOpen then msg @ '' (provider skipped)'' else msg)
            in if state = ''open'' \<and> cause \<noteq> '''' then msg @ '': '' @ cause else msg))"

definition severityForState :: "string \<Rightarrow> string" where
  "severityForState state =
     (if state = ''open'' then ''warning'' else if state = ''closed'' then ''success'' else ''info'')"

text \<open>
  \<open>publishEvent\<close> in three parts: the metadata map, the sentence, and the event built from them.
  The map holds its twelve constant keys first and then the keys some transitions add.
\<close>

definition breaker_event_meta ::
  "string \<Rightarrow> string \<Rightarrow> string \<Rightarrow> string \<Rightarrow> circuit \<Rightarrow> cooldownReads \<Rightarrow> bool \<Rightarrow> attr gomap" where
  "breaker_event_meta providerID providerName state model c r provOpen =
     [(''provider_id'', AStr providerID), (''provider'', AStr providerName),
      (''model'', AStr model), (''state'', AStr state), (''cause'', AStr (c_lastCause c)),
      (''status'', AInt (c_lastStatus c)), (''pin_source'', AStr (pinSourceForWith c r)),
      (''provider_open'', ABool provOpen),
      (''consecutive_fails'', AInt (c_consecutiveFails c)),
      (''quota_pinned'', ABool (quotaPinnedForWith c r)),
      (''backed_off'', ABool (backedOffForWith c r)),
      (''failed_probes'', AInt (int (c_failedProbes c)))] @
     (if state \<noteq> ''open'' \<or> \<not> provOpen then [(''model_id'', AStr model)] else []) @
     (if state = ''open''
      then [(''cooldown_ms'', AInt (milliseconds_of (effectiveCooldownForWith c r)))] else []) @
     (if state = ''open'' \<and> (quotaPinnedForWith c r \<or> backedOffForWith c r)
      then [(''next_retry_at'', ATime (time_add (c_openedAt c) (effectiveCooldownForWith c r)))]
      else [])"

definition breaker_event_text ::
  "string \<Rightarrow> string \<Rightarrow> string \<Rightarrow> circuit \<Rightarrow> cooldownReads \<Rightarrow> bool \<Rightarrow> string" where
  "breaker_event_text providerName state model c r provOpen =
     (let msg = breakerEventMessage providerName state model provOpen (c_lastCause c);
          cooldown = effectiveCooldownForWith c r
      in if state = ''open'' \<and> backedOffForWith c r \<and> cooldown = c_cooldownBackoff c
         then msg @ backoffSuffix cooldown (c_failedProbes c) else msg)"

definition publishEvent ::
  "CircuitBreaker \<Rightarrow> afterUnlock \<Rightarrow> string \<Rightarrow> string \<Rightarrow> string \<Rightarrow> string \<Rightarrow> circuit \<Rightarrow>
     cooldownReads \<Rightarrow> instant \<Rightarrow> afterUnlock" where
  "publishEvent cb after providerID providerName state model c r now =
     (let provOpen = providerOpen cb (gm_inner (cb_circuits cb) providerID) now
      in after_add after
           (PublishEvent
             \<lparr>ev_ID = '''', ev_Type = ''circuit_breaker.'' @ state,
              ev_Severity = severityForState state, ev_Source = ''failover'',
              ev_Message = breaker_event_text providerName state model c r provOpen,
              ev_Metadata = breaker_event_meta providerID providerName state model c r provOpen,
              ev_Timestamp = now\<rparr>))"

text \<open>\<open>reportUnstable\<close> writes a log line and publishes an event of its own.\<close>

definition reportUnstable :: "string \<Rightarrow> string \<Rightarrow> string \<Rightarrow> nat \<Rightarrow> emission list" where
  "reportUnstable providerID providerName model opens =
     [LogWarn ''circuit-breaker: model keeps reopening its circuit''
        [(''provider'', AStr providerName), (''provider_id'', AStr providerID),
         (''opens'', AInt (int opens)), (''window'', AStr reopenWindowLabel), (''model'', AStr model)],
      PublishEvent
        \<lparr>ev_ID = '''', ev_Type = ''circuit_breaker.unstable'', ev_Severity = ''warning'',
         ev_Source = ''failover'',
         ev_Message = model @ '' on '' @ providerName @ '' opened its circuit '' @ show_nat opens @
           '' times in '' @ reopenWindowLabel,
         ev_Metadata =
           [(''provider_id'', AStr providerID), (''provider'', AStr providerName),
            (''model'', AStr model), (''model_id'', AStr model), (''opens'', AInt (int opens)),
            (''window'', AStr reopenWindowLabel)],
         ev_Timestamp = 0\<rparr>]"

subsection \<open>What the metadata says\<close>

lemma meta_provider_open:
  "gm_get (breaker_event_meta p pn st m c r v) ''provider_open'' = Some (ABool v)"
  by (simp add: breaker_event_meta_def)

lemma meta_cause:
  "gm_get (breaker_event_meta p pn st m c r v) ''cause'' = Some (AStr (c_lastCause c))"
  by (simp add: breaker_event_meta_def)

lemma meta_model_id:
  "gm_get (breaker_event_meta p pn st m c r v) ''model_id'' =
     (if st = ''open'' \<and> v then None else Some (AStr m))"
  by (simp add: breaker_event_meta_def)

lemma meta_cooldown:
  "gm_get (breaker_event_meta p pn st m c r v) ''cooldown_ms'' =
     (if st = ''open'' then Some (AInt (milliseconds_of (effectiveCooldownForWith c r))) else None)"
  by (simp add: breaker_event_meta_def)

lemma meta_next_retry:
  "gm_get (breaker_event_meta p pn st m c r v) ''next_retry_at'' =
     (if st = ''open'' \<and> (quotaPinnedForWith c r \<or> backedOffForWith c r)
      then Some (ATime (time_add (c_openedAt c) (effectiveCooldownForWith c r))) else None)"
  by (simp add: breaker_event_meta_def)

lemmas event_meta = meta_provider_open meta_cause meta_model_id meta_cooldown meta_next_retry

text \<open>Every emission is added at the end, so the order of a locked section survives.\<close>

lemma publishEvent_append:
  "publishEvent cb after p pn st m c r now = after @ publishEvent cb [] p pn st m c r now"
  by (simp add: publishEvent_def after_add_def Let_def)

end
