(* ===== verification/Breaker_Ops.thy ===== *)
theory Breaker_Ops
  imports Quota_Pins Breaker_Events
begin

text \<open>
  The operations the request path runs on the breaker (\<open>internal/failover/circuitbreaker.go\<close>):
  the admission check \<open>IsOpen\<close>, the outcomes \<open>RecordFailure\<close>, \<open>RecordRateLimited\<close>,
  \<open>RecordExhausted\<close>, \<open>RecordExhaustedAccount\<close>, \<open>RecordSaturated\<close>, \<open>RecordSuccess\<close> and
  \<open>RecordAlive\<close>, and the reads \<open>BlockedUntil\<close>, \<open>LastSuccessWithin\<close> and \<open>GetState\<close>.

  An operation is one section under \<open>cb.mu\<close>: a function of the breaker, the arguments, the
  instant and the random draws, which returns the new breaker and what is emitted after the
  unlock. \<open>IsOpen\<close> is two such sections, one under the read lock and one under the write
  lock, between which other operations may run; each is a function of its own, and \<open>IsOpen\<close>
  is the two in sequence with nothing in between. Counters of events are not wrapped.
\<close>

definition arrow :: string where "arrow = [CHR 0xE2, CHR 0x86, CHR 0x92]"

subsection \<open>Admission\<close>

datatype read_outcome = Answer bool | NeedWrite

definition IsOpen_read :: "CircuitBreaker \<Rightarrow> string \<Rightarrow> string \<Rightarrow> instant \<Rightarrow> read_outcome" where
  "IsOpen_read cb providerID model now =
     (case gm_get (cb_circuits cb) providerID of
        None \<Rightarrow> Answer False
      | Some models \<Rightarrow>
          (case gm_get models model of
             None \<Rightarrow> Answer (providerOpen cb models now)
           | Some c \<Rightarrow>
               if c_state c \<noteq> StateOpen then Answer (providerOpen cb models now)
               else if stillDark c (cooldowns cb) now then Answer True
               else NeedWrite))"

definition IsOpen_write ::
  "CircuitBreaker \<Rightarrow> string \<Rightarrow> string \<Rightarrow> string \<Rightarrow> instant \<Rightarrow> CircuitBreaker \<times> afterUnlock \<times> bool" where
  "IsOpen_write cb providerID providerName model now =
     (case gm_get (cb_circuits cb) providerID of
        None \<Rightarrow> (cb, [], False)
      | Some models \<Rightarrow>
          (let (cb, after) =
             (case gm_get models model of
                None \<Rightarrow> (cb, [])
              | Some c \<Rightarrow>
                  (let (c, moved) = probeIfCooldownElapsed cb c now
                   in if moved
                      then (setCircuit cb providerID model c,
                            [LogInfo (''circuit-breaker: model state=open'' @ arrow @
                                      ''half-open (cooldown elapsed)'')
                               [(''provider'', AStr providerName), (''provider_id'', AStr providerID),
                                (''model'', AStr model)]])
                      else (cb, [])))
           in (cb, after, providerOpen cb (gm_inner (cb_circuits cb) providerID) now)))"

definition IsOpen ::
  "CircuitBreaker \<Rightarrow> string \<Rightarrow> string \<Rightarrow> string \<Rightarrow> instant \<Rightarrow> instant \<Rightarrow>
     CircuitBreaker \<times> afterUnlock \<times> bool" where
  "IsOpen cb providerID providerName model now now' =
     (case IsOpen_read cb providerID model now of
        Answer b \<Rightarrow> (cb, [], b)
      | NeedWrite \<Rightarrow> IsOpen_write cb providerID providerName model now')"

subsection \<open>Opening a circuit\<close>

text \<open>The fields \<open>openCircuit\<close> stamps before it reports, in its order.\<close>

definition opened_circuit ::
  "CircuitBreaker \<Rightarrow> string \<Rightarrow> circuit \<Rightarrow> bool \<Rightarrow> duration \<Rightarrow> bool \<Rightarrow> rng \<Rightarrow> instant \<Rightarrow> circuit" where
  "opened_circuit cb providerID c by429 exhaustHint account g now =
     (let c = c\<lparr>c_state := StateOpen, c_openedAt := now\<rparr>;
          c = note429Open c now by429;
          c = applyBackoff cb c
      in applyQuotaPin cb providerID c exhaustHint account g now)"

definition openCircuit ::
  "CircuitBreaker \<Rightarrow> afterUnlock \<Rightarrow> string \<Rightarrow> string \<Rightarrow> string \<Rightarrow> string \<Rightarrow> circuit \<Rightarrow> bool \<Rightarrow>
     duration \<Rightarrow> bool \<Rightarrow> rng \<Rightarrow> instant \<Rightarrow> CircuitBreaker \<times> afterUnlock" where
  "openCircuit cb after msg providerID providerName model c by429 exhaustHint account g now =
     (let c = opened_circuit cb providerID c by429 exhaustHint account g now;
          cb = setCircuit cb providerID model c;
          r = cooldowns cb;
          attrs = [(''provider'', AStr providerName), (''provider_id'', AStr providerID),
                   (''cause'', AStr (c_lastCause c)), (''status'', AInt (c_lastStatus c)),
                   (''consecutive_failures'', AInt (c_consecutiveFails c)),
                   (''cooldown_ms'', AInt (milliseconds_of (effectiveCooldownForWith c r))),
                   (''quota_pinned'', ABool (quotaPinnedForWith c r)),
                   (''backed_off'', ABool (backedOffForWith c r)),
                   (''failed_probes'', AInt (int (c_failedProbes c))), (''model'', AStr model)];
          after = after_add after (LogWarn msg attrs);
          after = after_add after (MetricBreakerOpen providerName model (c_lastCause c));
          after = publishEvent cb after providerID providerName ''open'' model c r now;
          (c, report) = noteOpen c now;
          cb = setCircuit cb providerID model c;
          after = (if report then after @ reportUnstable providerID providerName model (c_opens c)
                   else after);
          after = (if cb_onOpen cb then after_add after (RunOnOpen providerID) else after)
      in (cb, after))"

subsection \<open>Outcomes\<close>

text \<open>
  How every charge and credit begins: the circuit is stamped, moved to half-open when its
  cooldown has run out, and notes the verdict unless it is still open.
\<close>

definition record_entry :: "CircuitBreaker \<Rightarrow> circuit \<Rightarrow> Cause \<Rightarrow> instant \<Rightarrow> circuit" where
  "record_entry cb c cause now =
     (let c = c\<lparr>c_lastCharged := now\<rparr>;
          c = fst (probeIfCooldownElapsed cb c now)
      in if c_state c \<noteq> StateOpen then circuit_note c (c_lastCharged c) cause else c)"

definition recordFailure ::
  "CircuitBreaker \<Rightarrow> string \<Rightarrow> string \<Rightarrow> string \<Rightarrow> bool \<Rightarrow> Cause \<Rightarrow> rng \<Rightarrow> instant \<Rightarrow>
     CircuitBreaker \<times> afterUnlock" where
  "recordFailure cb providerID providerName model by429 cause g now =
     (let cb = setName cb providerID providerName;
          (cb, c) = getOrCreate cb providerID model now;
          c = record_entry cb c cause now
      in case c_state c of
           StateClosed \<Rightarrow>
             (let c = c\<lparr>c_consecutiveFails := c_consecutiveFails c + 1\<rparr>
              in if c_consecutiveFails c \<ge> effectiveThreshold cb
                 then openCircuit cb [] (''circuit-breaker: model state=closed'' @ arrow @ ''open'')
                        providerID providerName model c by429 0 False g now
                 else (setCircuit cb providerID model c, []))
         | StateHalfOpen \<Rightarrow>
             (let c = c\<lparr>c_consecutiveFails := effectiveThreshold cb,
                        c_failedProbes := c_failedProbes c + 1\<rparr>
              in openCircuit cb []
                   (''circuit-breaker: model state=half-open'' @ arrow @ ''open (probe failed)'')
                   providerID providerName model c by429 0 False g now)
         | StateOpen \<Rightarrow> (setCircuit cb providerID model c, []))"

definition RecordFailure ::
  "CircuitBreaker \<Rightarrow> string \<Rightarrow> string \<Rightarrow> string \<Rightarrow> Cause \<Rightarrow> rng \<Rightarrow> instant \<Rightarrow>
     CircuitBreaker \<times> afterUnlock" where
  "RecordFailure cb providerID providerName model cause g now =
     recordFailure cb providerID providerName model False cause g now"

definition RecordRateLimited ::
  "CircuitBreaker \<Rightarrow> string \<Rightarrow> string \<Rightarrow> string \<Rightarrow> Cause \<Rightarrow> rng \<Rightarrow> instant \<Rightarrow>
     CircuitBreaker \<times> afterUnlock" where
  "RecordRateLimited cb providerID providerName model cause g now =
     recordFailure cb providerID providerName model True cause g now"

definition recordExhausted ::
  "CircuitBreaker \<Rightarrow> string \<Rightarrow> string \<Rightarrow> string \<Rightarrow> int \<Rightarrow> duration \<Rightarrow> bool \<Rightarrow> rng \<Rightarrow> instant \<Rightarrow>
     CircuitBreaker \<times> afterUnlock" where
  "recordExhausted cb providerID providerName model status pinHint account g now =
     (let cb = setName cb providerID providerName;
          (cb, c) = getOrCreate cb providerID model now;
          c = record_entry cb c (UpstreamStatus status causeExhausted) now;
          by429 = (status = 429)
      in case c_state c of
           StateClosed \<Rightarrow>
             openCircuit cb []
               (''circuit-breaker: model state=closed'' @ arrow @ ''open (exhausted)'')
               providerID providerName model (c\<lparr>c_consecutiveFails := effectiveThreshold cb\<rparr>)
               by429 pinHint account g now
         | StateHalfOpen \<Rightarrow>
             (let c = c\<lparr>c_consecutiveFails := effectiveThreshold cb\<rparr>;
                  c = (if \<not> pinProbes (c_pinSource c) \<or> pinProbeInterval cb \<le> 0
                       then c\<lparr>c_failedProbes := c_failedProbes c + 1\<rparr> else c)
              in openCircuit cb []
                   (''circuit-breaker: model state=half-open'' @ arrow @
                    ''open (probe drew exhaustion)'')
                   providerID providerName model c by429 pinHint account g now)
         | StateOpen \<Rightarrow> (setCircuit cb providerID model c, []))"

definition RecordExhausted ::
  "CircuitBreaker \<Rightarrow> string \<Rightarrow> string \<Rightarrow> string \<Rightarrow> int \<Rightarrow> duration \<Rightarrow> rng \<Rightarrow> instant \<Rightarrow>
     CircuitBreaker \<times> afterUnlock" where
  "RecordExhausted cb providerID providerName model status pinHint g now =
     recordExhausted cb providerID providerName model status pinHint False g now"

definition RecordExhaustedAccount ::
  "CircuitBreaker \<Rightarrow> string \<Rightarrow> string \<Rightarrow> string \<Rightarrow> int \<Rightarrow> duration \<Rightarrow> rng \<Rightarrow> instant \<Rightarrow>
     CircuitBreaker \<times> afterUnlock" where
  "RecordExhaustedAccount cb providerID providerName model status pinHint g now =
     recordExhausted cb providerID providerName model status pinHint True g now"

definition RecordSaturated ::
  "CircuitBreaker \<Rightarrow> string \<Rightarrow> string \<Rightarrow> string \<Rightarrow> instant \<Rightarrow> CircuitBreaker" where
  "RecordSaturated cb providerID providerName model now =
     (let cb = setName cb providerID providerName;
          (cb, c) = getOrCreate cb providerID model now;
          c = fst (probeIfCooldownElapsed cb c now);
          c = (if c_state c \<noteq> StateOpen then circuit_note c now (UpstreamStatus 429 causeSaturated)
               else c)
      in setCircuit cb providerID model c)"

text \<open>What a success leaves of a circuit, and whether it closed it.\<close>

definition recordSuccess ::
  "CircuitBreaker \<Rightarrow> string \<Rightarrow> string \<Rightarrow> string \<Rightarrow> bool \<Rightarrow> Cause \<Rightarrow> instant \<Rightarrow>
     CircuitBreaker \<times> afterUnlock" where
  "recordSuccess cb providerID providerName model served cause now =
     (let cb = setName cb providerID providerName;
          (cb, c) = getOrCreate cb providerID model now;
          c = record_entry cb c cause now;
          c = (if served then c\<lparr>c_lastSuccess := c_lastCharged c\<rparr> else c)
      in case c_state c of
           StateClosed \<Rightarrow> (setCircuit cb providerID model (c\<lparr>c_consecutiveFails := 0\<rparr>), [])
         | StateHalfOpen \<Rightarrow>
             (let c = c\<lparr>c_halfOpenProbes := c_halfOpenProbes c + 1\<rparr>
              in if c_halfOpenProbes c \<ge> cb_HalfOpenMaxProbes cb
                 then
                   (let c = c\<lparr>c_state := StateClosed, c_consecutiveFails := 0, c_halfOpenProbes := 0,
                              c_cooldownOverride := 0, c_pinSource := '''', c_failedProbes := 0,
                              c_cooldownBackoff := 0\<rparr>;
                        c = clear429Escalation c;
                        cb = setCircuit cb providerID model c;
                        after = after_add []
                          (LogInfo (''circuit-breaker: model state=half-open'' @ arrow @
                                    ''closed (probe succeeded)'')
                             [(''provider'', AStr providerName), (''provider_id'', AStr providerID),
                              (''model'', AStr model)])
                    in (cb, publishEvent cb after providerID providerName ''closed'' model c
                              (cooldowns cb) now))
                 else (setCircuit cb providerID model c, []))
         | StateOpen \<Rightarrow> (setCircuit cb providerID model c, []))"

definition RecordSuccess ::
  "CircuitBreaker \<Rightarrow> string \<Rightarrow> string \<Rightarrow> string \<Rightarrow> instant \<Rightarrow> CircuitBreaker \<times> afterUnlock" where
  "RecordSuccess cb providerID providerName model now =
     recordSuccess cb providerID providerName model True
       \<lparr>cause_Status = 0, cause_Reason = causeSuccess\<rparr> now"

definition RecordAlive ::
  "CircuitBreaker \<Rightarrow> string \<Rightarrow> string \<Rightarrow> string \<Rightarrow> int \<Rightarrow> instant \<Rightarrow> CircuitBreaker \<times> afterUnlock" where
  "RecordAlive cb providerID providerName model status now =
     recordSuccess cb providerID providerName model False (UpstreamStatus status causeAlive) now"

subsection \<open>Reads\<close>

text \<open>The loop of \<open>BlockedUntil\<close> over the sorted ids; a missing id would be a nil dereference.\<close>

fun blocked_walk ::
  "modelCircuits \<Rightarrow> cooldownReads \<Rightarrow> string list \<Rightarrow> instant \<times> bool \<Rightarrow> (instant \<times> bool) option" where
  "blocked_walk models r [] acc = Some acc"
| "blocked_walk models r (m # ms) (retryAt, pinned) =
     (case gm_get models m of
        None \<Rightarrow> None
      | Some c \<Rightarrow>
          (let due = time_add (c_openedAt c) (effectiveCooldownForWith c r)
           in blocked_walk models r ms
                (if retryAt = 0 \<or> due < retryAt then due else retryAt,
                 pinned \<and> quotaPinnedForWith c r)))"

text \<open>\<open>None\<close> is a run-time panic, \<open>Some (retryAt, pinned, ok)\<close> a return.\<close>

definition BlockedUntil ::
  "CircuitBreaker \<Rightarrow> string \<Rightarrow> string \<Rightarrow> instant \<Rightarrow> (instant \<times> bool \<times> bool) option" where
  "BlockedUntil cb providerID model now =
     (let models = gm_inner (cb_circuits cb) providerID; r = cooldowns cb
      in if models = [] then Some (0, False, False)
         else
           (case gm_get models model of
              Some c \<Rightarrow>
                if blocking c r now
                then Some (time_add (c_openedAt c) (effectiveCooldownForWith c r),
                           quotaPinnedForWith c r, True)
                else
                  (let (open', blocked, _) = providerReport cb models r now
                   in if \<not> open' \<or> blocked = [] then Some (0, False, False)
                      else map_option (\<lambda>(t, p). (t, p, True)) (blocked_walk models r blocked (0, True)))
            | None \<Rightarrow>
                (let (open', blocked, _) = providerReport cb models r now
                 in if \<not> open' \<or> blocked = [] then Some (0, False, False)
                    else map_option (\<lambda>(t, p). (t, p, True)) (blocked_walk models r blocked (0, True)))))"

definition LastSuccessWithin ::
  "CircuitBreaker \<Rightarrow> string \<Rightarrow> string \<Rightarrow> duration \<Rightarrow> instant \<Rightarrow> bool" where
  "LastSuccessWithin cb providerID model window now =
     (case getCircuit cb providerID model of
        None \<Rightarrow> False
      | Some c \<Rightarrow> if c_lastSuccess c = 0 then False
                  else time_sub now (c_lastSuccess c) \<le> window)"

definition GetState :: "CircuitBreaker \<Rightarrow> string \<Rightarrow> string \<Rightarrow> instant \<Rightarrow> State" where
  "GetState cb providerID model now =
     (case getCircuit cb providerID model of None \<Rightarrow> StateClosed | Some c \<Rightarrow> logicalState cb c now)"

subsection \<open>The circuit an operation leaves\<close>

text \<open>
  Each outcome replaces one circuit. These functions give the circuit it leaves, so that the
  facts about an operation are facts about one circuit and about \<open>setCircuit\<close>.
\<close>

definition open_result ::
  "CircuitBreaker \<Rightarrow> string \<Rightarrow> circuit \<Rightarrow> bool \<Rightarrow> duration \<Rightarrow> bool \<Rightarrow> rng \<Rightarrow> instant \<Rightarrow> circuit" where
  "open_result cb p c by429 h a g now = fst (noteOpen (opened_circuit cb p c by429 h a g now) now)"

definition failure_result ::
  "CircuitBreaker \<Rightarrow> string \<Rightarrow> circuit \<Rightarrow> bool \<Rightarrow> Cause \<Rightarrow> rng \<Rightarrow> instant \<Rightarrow> circuit" where
  "failure_result cb p c by429 cause g now =
     (let c = record_entry cb c cause now
      in case c_state c of
           StateClosed \<Rightarrow>
             (let c = c\<lparr>c_consecutiveFails := c_consecutiveFails c + 1\<rparr>
              in if c_consecutiveFails c \<ge> effectiveThreshold cb
                 then open_result cb p c by429 0 False g now else c)
         | StateHalfOpen \<Rightarrow>
             open_result cb p (c\<lparr>c_consecutiveFails := effectiveThreshold cb,
                c_failedProbes := c_failedProbes c + 1\<rparr>) by429 0 False g now
         | StateOpen \<Rightarrow> c)"

definition exhausted_result ::
  "CircuitBreaker \<Rightarrow> string \<Rightarrow> circuit \<Rightarrow> int \<Rightarrow> duration \<Rightarrow> bool \<Rightarrow> rng \<Rightarrow> instant \<Rightarrow> circuit" where
  "exhausted_result cb p c status h a g now =
     (let c = record_entry cb c (UpstreamStatus status causeExhausted) now
      in case c_state c of
           StateClosed \<Rightarrow>
             open_result cb p (c\<lparr>c_consecutiveFails := effectiveThreshold cb\<rparr>) (status = 429) h a g now
         | StateHalfOpen \<Rightarrow>
             open_result cb p
               (c\<lparr>c_consecutiveFails := effectiveThreshold cb,
                  c_failedProbes := (if \<not> pinProbes (c_pinSource c) \<or> pinProbeInterval cb \<le> 0
                                     then c_failedProbes c + 1 else c_failedProbes c)\<rparr>)
               (status = 429) h a g now
         | StateOpen \<Rightarrow> c)"

definition saturated_result :: "CircuitBreaker \<Rightarrow> circuit \<Rightarrow> instant \<Rightarrow> circuit" where
  "saturated_result cb c now =
     (let c = fst (probeIfCooldownElapsed cb c now)
      in if c_state c \<noteq> StateOpen then circuit_note c now (UpstreamStatus 429 causeSaturated) else c)"

definition credit_entry :: "CircuitBreaker \<Rightarrow> circuit \<Rightarrow> bool \<Rightarrow> Cause \<Rightarrow> instant \<Rightarrow> circuit" where
  "credit_entry cb c served cause now =
     (let c = record_entry cb c cause now
      in if served then c\<lparr>c_lastSuccess := c_lastCharged c\<rparr> else c)"

definition success_result :: "CircuitBreaker \<Rightarrow> circuit \<Rightarrow> bool \<Rightarrow> Cause \<Rightarrow> instant \<Rightarrow> circuit" where
  "success_result cb c served cause now =
     (let c = credit_entry cb c served cause now
      in case c_state c of
           StateClosed \<Rightarrow> c\<lparr>c_consecutiveFails := 0\<rparr>
         | StateHalfOpen \<Rightarrow>
             if c_halfOpenProbes c + 1 \<ge> cb_HalfOpenMaxProbes cb
             then clear429Escalation
                    (c\<lparr>c_state := StateClosed, c_consecutiveFails := 0, c_halfOpenProbes := 0,
                       c_cooldownOverride := 0, c_pinSource := '''', c_failedProbes := 0,
                       c_cooldownBackoff := 0\<rparr>)
             else c\<lparr>c_halfOpenProbes := c_halfOpenProbes c + 1\<rparr>
         | StateOpen \<Rightarrow> c)"

text \<open>The circuit a pair has, or the fresh one \<open>getOrCreate\<close> would give it.\<close>

definition circuit_at :: "CircuitBreaker \<Rightarrow> string \<Rightarrow> string \<Rightarrow> circuit" where
  "circuit_at cb p m = (case getCircuit cb p m of None \<Rightarrow> new_circuit | Some c \<Rightarrow> c)"

text \<open>Storing the outcome: the name is recorded, room is made, the circuit is written.\<close>

definition record_at ::
  "CircuitBreaker \<Rightarrow> string \<Rightarrow> string \<Rightarrow> string \<Rightarrow> circuit \<Rightarrow> instant \<Rightarrow> CircuitBreaker" where
  "record_at cb p pn m c now = setCircuit (fst (getOrCreate (setName cb p pn) p m now)) p m c"

lemma setCircuit_twice [simp]:
  "setCircuit (setCircuit cb p m c) p m d = setCircuit cb p m d"
  by (simp add: setCircuit_def)

lemma openCircuit_state:
  "fst (openCircuit cb after msg p pn m c b h a g now) = setCircuit cb p m (open_result cb p c b h a g now)"
  by (simp add: openCircuit_def open_result_def Let_def split: prod.split)

lemma reads_getOrCreate [simp]:
  "effectiveThreshold (fst (getOrCreate cb p m now)) = effectiveThreshold cb"
  "effectiveSpan (fst (getOrCreate cb p m now)) = effectiveSpan cb"
  "effectiveCooldown (fst (getOrCreate cb p m now)) = effectiveCooldown cb"
  "backoffMax (fst (getOrCreate cb p m now)) = backoffMax cb"
  "quotaPinMax (fst (getOrCreate cb p m now)) = quotaPinMax cb"
  "quotaPinEnabled (fst (getOrCreate cb p m now)) = quotaPinEnabled cb"
  "pinProbeInterval (fst (getOrCreate cb p m now)) = pinProbeInterval cb"
  "cooldowns (fst (getOrCreate cb p m now)) = cooldowns cb"
  by (rule reads_depend_on_settings; simp)+

lemma reads_setName [simp]:
  "effectiveCooldown (setName cb p n) = effectiveCooldown cb"
  "backoffMax (setName cb p n) = backoffMax cb"
  "quotaPinEnabled (setName cb p n) = quotaPinEnabled cb"
  "pinProbeInterval (setName cb p n) = pinProbeInterval cb"
  by (rule reads_depend_on_settings; simp)+

text \<open>The circuit-level functions read the breaker's configuration only.\<close>

definition same_config :: "CircuitBreaker \<Rightarrow> CircuitBreaker \<Rightarrow> bool" where
  "same_config cb cb' \<longleftrightarrow> cb_settings cb = cb_settings cb' \<and> cb_quota cb = cb_quota cb' \<and>
     cb_onOpen cb = cb_onOpen cb' \<and> cb_Threshold cb = cb_Threshold cb' \<and>
     cb_SpanModels cb = cb_SpanModels cb' \<and> cb_Cooldown cb = cb_Cooldown cb' \<and>
     cb_HalfOpenMaxProbes cb = cb_HalfOpenMaxProbes cb'"

lemma same_config_reads:
  assumes "same_config cb cb'"
  shows "effectiveThreshold cb = effectiveThreshold cb'" "effectiveSpan cb = effectiveSpan cb'"
    "effectiveCooldown cb = effectiveCooldown cb'" "backoffMax cb = backoffMax cb'"
    "quotaPinMax cb = quotaPinMax cb'" "pinProbeInterval cb = pinProbeInterval cb'"
    "quotaPinEnabled cb = quotaPinEnabled cb'" "cooldowns cb = cooldowns cb'"
  using assms reads_depend_on_settings [of cb cb'] by (simp_all add: same_config_def)

lemma same_config_refl [simp]: "same_config cb cb"
  by (simp add: same_config_def)

lemma same_config_setCircuit [simp]: "same_config (setCircuit cb p m c) cb' = same_config cb cb'"
  by (simp add: same_config_def)

lemma same_config_trans: "same_config a b \<Longrightarrow> same_config b c \<Longrightarrow> same_config a c"
  by (simp add: same_config_def)

lemma same_config_prep [simp]: "same_config (fst (getOrCreate (setName cb p pn) p' m now)) cb"
  by (simp add: same_config_def)

lemma record_entry_config:
  assumes "same_config cb cb'"
  shows "record_entry cb c cause now = record_entry cb' c cause now"
    and "probeIfCooldownElapsed cb c now = probeIfCooldownElapsed cb' c now"
  by (simp_all add: record_entry_def probeIfCooldownElapsed_def same_config_reads [OF assms])

lemma open_result_config:
  assumes "same_config cb cb'"
  shows "open_result cb p c b h a g now = open_result cb' p c b h a g now"
proof -
  have q: "cb_quota cb = cb_quota cb'" using assms by (simp add: same_config_def)
  show ?thesis
    unfolding open_result_def opened_circuit_def applyBackoff_def applyQuotaPin_def q
      same_config_reads [OF assms] ..
qed

lemma snd_prep [simp]:
  "snd (getOrCreate (setName cb p pn) p m now) = circuit_at cb p m"
  by (simp add: getOrCreate_circuit circuit_at_def)

lemma recordFailure_state:
  "fst (recordFailure cb p pn m b cause g now) =
     record_at cb p pn m (failure_result cb p (circuit_at cb p m) b cause g now) now"
proof -
  define cb1 where "cb1 = fst (getOrCreate (setName cb p pn) p m now)"
  have prep: "getOrCreate (setName cb p pn) p m now = (cb1, circuit_at cb p m)"
    by (simp add: cb1_def prod_eq_iff)
  have cfg: "same_config cb1 cb" by (simp add: cb1_def)
  show ?thesis
    using record_entry_config(1) [OF cfg] open_result_config [OF cfg] same_config_reads(1) [OF cfg]
    by (simp add: recordFailure_def prep failure_result_def record_at_def openCircuit_state Let_def
        split: State.split)
qed

lemma recordExhausted_state:
  "fst (recordExhausted cb p pn m st h a g now) =
     record_at cb p pn m (exhausted_result cb p (circuit_at cb p m) st h a g now) now"
proof -
  define cb1 where "cb1 = fst (getOrCreate (setName cb p pn) p m now)"
  have prep: "getOrCreate (setName cb p pn) p m now = (cb1, circuit_at cb p m)"
    by (simp add: cb1_def prod_eq_iff)
  have cfg: "same_config cb1 cb" by (simp add: cb1_def)
  show ?thesis
    using record_entry_config(1) [OF cfg] open_result_config [OF cfg] same_config_reads [OF cfg]
    by (simp add: recordExhausted_def prep exhausted_result_def record_at_def openCircuit_state
        Let_def split: State.split)
qed

lemma RecordSaturated_state:
  "RecordSaturated cb p pn m now = record_at cb p pn m (saturated_result cb (circuit_at cb p m) now) now"
proof -
  define cb1 where "cb1 = fst (getOrCreate (setName cb p pn) p m now)"
  have prep: "getOrCreate (setName cb p pn) p m now = (cb1, circuit_at cb p m)"
    by (simp add: cb1_def prod_eq_iff)
  have cfg: "same_config cb1 cb" by (simp add: cb1_def)
  show ?thesis
    using record_entry_config(2) [OF cfg]
    by (simp add: RecordSaturated_def prep saturated_result_def record_at_def Let_def)
qed

lemma recordSuccess_state:
  "fst (recordSuccess cb p pn m served cause now) =
     record_at cb p pn m (success_result cb (circuit_at cb p m) served cause now) now"
proof -
  define cb1 where "cb1 = fst (getOrCreate (setName cb p pn) p m now)"
  have prep: "getOrCreate (setName cb p pn) p m now = (cb1, circuit_at cb p m)"
    by (simp add: cb1_def prod_eq_iff)
  have cfg: "same_config cb1 cb" by (simp add: cb1_def)
  have "cb_HalfOpenMaxProbes cb1 = cb_HalfOpenMaxProbes cb" using cfg by (simp add: same_config_def)
  then show ?thesis
    using record_entry_config(1) [OF cfg]
    by (simp add: recordSuccess_def prep success_result_def credit_entry_def record_at_def Let_def
        split: State.split)
qed

lemmas record_states = recordFailure_state recordExhausted_state RecordSaturated_state
  recordSuccess_state

end
