(* ===== verification/Circuit_Invariant.thy ===== *)
theory Circuit_Invariant
  imports Breaker_Ops
begin

text \<open>
  What holds of every circuit the breaker tracks, and that every outcome keeps it: a pin and
  its source come and go together, a closed circuit carries no wait and no escalation, a
  circuit that is not closed knows when it opened, and a half-open circuit still owes probes.
\<close>

definition pin_sources :: "string list" where
  "pin_sources = ['''', pinSourceAdvisor, pinSourceReserve, pinSourceResponse, pinSourceAccount]"

definition circuit_ok :: "int \<Rightarrow> circuit \<Rightarrow> bool" where
  "circuit_ok maxProbes c \<longleftrightarrow>
     0 \<le> c_cooldownOverride c \<and> (c_pinSource c = '''' \<longleftrightarrow> c_cooldownOverride c = 0) \<and>
     c_cooldownOverride c < 2 ^ 63 \<and> c_pinSource c \<in> set pin_sources \<and>
     0 \<le> c_cooldownBackoff c \<and> c_cooldownBackoff c < 2 ^ 62 \<and>
     0 \<le> c_probeSeed c \<and> c_probeSeed c < 1 \<and> 0 \<le> c_consecutiveFails c \<and> 0 \<le> c_halfOpenProbes c \<and>
     (c_state c = StateClosed \<longrightarrow> c_cooldownOverride c = 0 \<and> c_failedProbes c = 0 \<and>
        c_cooldownBackoff c = 0 \<and> c_opens429Streak c = 0 \<and> c_halfOpenProbes c = 0) \<and>
     (c_state c \<noteq> StateClosed \<longrightarrow> 0 < c_openedAt c) \<and>
     (c_state c = StateHalfOpen \<longrightarrow> c_halfOpenProbes c < maxProbes)"

text \<open>A configuration the breaker can run under: the struct's defaults are positive and the
  ceilings leave room for the arithmetic on them.\<close>

definition config_ok :: "CircuitBreaker \<Rightarrow> bool" where
  "config_ok cb \<longleftrightarrow> 0 < cb_Threshold cb \<and> 0 < cb_Cooldown cb \<and> 1 \<le> cb_HalfOpenMaxProbes cb \<and>
     pin_ceiling_ok (quotaPinMax cb) \<and> backoffMax cb < 2 ^ 62 \<and> effectiveCooldown cb < 2 ^ 62 \<and>
     pinProbeInterval cb < 2 ^ 53"

lemma config_reads_pos:
  assumes "config_ok cb"
  shows "0 < effectiveCooldown cb" "0 < effectiveThreshold cb" "1 \<le> cb_HalfOpenMaxProbes cb"
    "pin_ceiling_ok (quotaPinMax cb)" "backoffMax cb < 2 ^ 62"
  using assms
  by (auto simp: config_ok_def effectiveCooldown_def effectiveThreshold_def Let_def split: option.split)

lemma config_ok_same: "same_config cb cb' \<Longrightarrow> config_ok cb = config_ok cb'"
  unfolding config_ok_def
  by (simp add: same_config_reads [of cb cb']) (simp add: same_config_def)

lemma new_circuit_ok [simp]: "circuit_ok mp new_circuit"
  by (simp add: circuit_ok_def new_circuit_def pin_sources_def)

lemma note_fields [simp]:
  "c_state (circuit_note c now cause) = c_state c"
  "c_openedAt (circuit_note c now cause) = c_openedAt c"
  "c_halfOpenProbes (circuit_note c now cause) = c_halfOpenProbes c"
  "c_consecutiveFails (circuit_note c now cause) = c_consecutiveFails c"
  "c_failedProbes (circuit_note c now cause) = c_failedProbes c"
  "c_cooldownOverride (circuit_note c now cause) = c_cooldownOverride c"
  "c_cooldownBackoff (circuit_note c now cause) = c_cooldownBackoff c"
  "c_pinSource (circuit_note c now cause) = c_pinSource c"
  "c_probeSeed (circuit_note c now cause) = c_probeSeed c"
  "c_lastCharged (circuit_note c now cause) = c_lastCharged c"
  "c_lastSuccess (circuit_note c now cause) = c_lastSuccess c"
  "c_opens429Streak (circuit_note c now cause) = c_opens429Streak c"
  "c_lastCause (circuit_note c now cause) = cause_Reason cause"
  "c_lastStatus (circuit_note c now cause) = cause_Status cause"
  by (simp_all add: circuit_note_def)

lemma circuit_ok_note [simp]: "circuit_ok mp (circuit_note c now cause) = circuit_ok mp c"
  by (simp add: circuit_ok_def)

lemma circuit_ok_clear429: "circuit_ok mp c \<Longrightarrow> circuit_ok mp (clear429Escalation c)"
  by (simp add: circuit_ok_def clear429Escalation_def)

lemma circuit_ok_stamps [simp]:
  "circuit_ok mp (c\<lparr>c_lastCharged := t\<rparr>) = circuit_ok mp c"
  "circuit_ok mp (c\<lparr>c_lastSuccess := t\<rparr>) = circuit_ok mp c"
  by (simp_all add: circuit_ok_def)

lemma circuit_ok_probe:
  assumes "circuit_ok mp c" "1 \<le> mp"
  shows "circuit_ok mp (fst (probeIfCooldownElapsed cb c now))"
  using assms by (auto simp: probeIfCooldownElapsed_def circuit_ok_def)

lemma record_entry_ok:
  "circuit_ok mp c \<Longrightarrow> 1 \<le> mp \<Longrightarrow> circuit_ok mp (record_entry cb c cause now)"
  using circuit_ok_probe [of mp "c\<lparr>c_lastCharged := now\<rparr>" cb now]
  by (simp add: record_entry_def Let_def)

subsection \<open>The entry of an outcome\<close>

lemma dark_stamp [simp]:
  "stillDark (c\<lparr>c_lastCharged := t\<rparr>) r now = stillDark c r now"
  "logicalStateWith (c\<lparr>c_lastCharged := t\<rparr>) r now = logicalStateWith c r now"
  "blocking (c\<lparr>c_lastCharged := t\<rparr>) r now = blocking c r now"
  using dark_gate_view(1-3) [of "c\<lparr>c_lastCharged := t\<rparr>" c r now] by (simp_all add: gate_view_def)

text \<open>An outcome sees the state every observer reads: the logical one.\<close>

lemma record_entry_state:
  "c_state (record_entry cb c cause now) = logicalStateWith c (cooldowns cb) now"
  by (simp add: record_entry_def Let_def probeIf_state)

lemma record_entry_fields [simp]:
  "c_openedAt (record_entry cb c cause now) = c_openedAt c"
  "c_cooldownOverride (record_entry cb c cause now) = c_cooldownOverride c"
  "c_cooldownBackoff (record_entry cb c cause now) = c_cooldownBackoff c"
  "c_pinSource (record_entry cb c cause now) = c_pinSource c"
  "c_probeSeed (record_entry cb c cause now) = c_probeSeed c"
  "c_consecutiveFails (record_entry cb c cause now) = c_consecutiveFails c"
  "c_failedProbes (record_entry cb c cause now) = c_failedProbes c"
  "c_lastCharged (record_entry cb c cause now) = now"
  "c_lastSuccess (record_entry cb c cause now) = c_lastSuccess c"
  "c_opens429Streak (record_entry cb c cause now) = c_opens429Streak c"
  by (simp_all add: record_entry_def Let_def)

lemma record_entry_blocking:
  "blocking c (cooldowns cb) now \<Longrightarrow> record_entry cb c cause now = c\<lparr>c_lastCharged := now\<rparr>"
  by (simp add: record_entry_def probeIf_simps blocking_def)

lemma record_entry_cause:
  "\<not> blocking c (cooldowns cb) now \<Longrightarrow>
     c_lastCause (record_entry cb c cause now) = cause_Reason cause \<and>
     c_lastStatus (record_entry cb c cause now) = cause_Status cause"
  using logicalState_cases(1) [of c "cooldowns cb" now]
  by (simp add: record_entry_def Let_def probeIf_state)

subsection \<open>The opened circuit\<close>

lemma applyBackoff_fields [simp]:
  "c_state (applyBackoff cb c) = c_state c" "c_openedAt (applyBackoff cb c) = c_openedAt c"
  "c_failedProbes (applyBackoff cb c) = c_failedProbes c"
  "c_consecutiveFails (applyBackoff cb c) = c_consecutiveFails c"
  "c_halfOpenProbes (applyBackoff cb c) = c_halfOpenProbes c"
  "c_opens429Streak (applyBackoff cb c) = c_opens429Streak c"
  "c_lastCause (applyBackoff cb c) = c_lastCause c" "c_lastStatus (applyBackoff cb c) = c_lastStatus c"
  "c_probeSeed (applyBackoff cb c) = c_probeSeed c"
  "c_lastCharged (applyBackoff cb c) = c_lastCharged c"
  "c_lastSuccess (applyBackoff cb c) = c_lastSuccess c"
  "c_opens (applyBackoff cb c) = c_opens c"
  "c_openWindowStart (applyBackoff cb c) = c_openWindowStart c"
  "c_unstableReported (applyBackoff cb c) = c_unstableReported c"
  by (simp_all add: applyBackoff_def Let_def)

lemma note429_fields [simp]:
  "c_state (note429Open c now b) = c_state c" "c_openedAt (note429Open c now b) = c_openedAt c"
  "c_failedProbes (note429Open c now b) = c_failedProbes c"
  "c_consecutiveFails (note429Open c now b) = c_consecutiveFails c"
  "c_halfOpenProbes (note429Open c now b) = c_halfOpenProbes c"
  "c_lastCause (note429Open c now b) = c_lastCause c" "c_lastStatus (note429Open c now b) = c_lastStatus c"
  "c_probeSeed (note429Open c now b) = c_probeSeed c"
  "c_lastCharged (note429Open c now b) = c_lastCharged c"
  "c_lastSuccess (note429Open c now b) = c_lastSuccess c"
  "c_opens (note429Open c now b) = c_opens c"
  "c_openWindowStart (note429Open c now b) = c_openWindowStart c"
  "c_unstableReported (note429Open c now b) = c_unstableReported c"
  by (simp_all add: note429Open_def)

text \<open>The ceiling the backoff doubles towards, escalated or not.\<close>

definition backoff_ceiling :: "CircuitBreaker \<Rightarrow> circuit \<Rightarrow> duration" where
  "backoff_ceiling cb c =
     (if exhaustedEscalated c then max (backoffMax cb) (quotaPinMax cb) else backoffMax cb)"

lemma applyBackoff_spec:
  assumes "config_ok cb"
  shows "c_cooldownBackoff (applyBackoff cb c) =
    (if c_failedProbes c = 0 \<or> backoffMax cb \<le> 0 \<or> backoff_ceiling cb c \<le> effectiveCooldown cb then 0
     else min (backoff_ceiling cb c) (effectiveCooldown cb * 2 ^ c_failedProbes c))"
proof -
  have top: "backoff_ceiling cb c < 2 ^ 63"
    using config_reads_pos [OF assms] by (simp add: backoff_ceiling_def pin_ceiling_ok_def)
  have base: "0 < effectiveCooldown cb" using config_reads_pos(1) [OF assms] .
  have esc: "exhaustedEscalated (c\<lparr>c_cooldownBackoff := 0\<rparr>) = exhaustedEscalated c"
    by (simp add: exhaustedEscalated_def)
  show ?thesis
  proof (cases "c_failedProbes c = 0 \<or> backoffMax cb \<le> 0 \<or> backoff_ceiling cb c \<le> effectiveCooldown cb")
    case True
    then show ?thesis by (auto simp: applyBackoff_def Let_def backoff_ceiling_def esc)
  next
    case False
    then have "c_cooldownBackoff (applyBackoff cb c) =
        backoff_loop (c_failedProbes c) (backoff_ceiling cb c) (effectiveCooldown cb)"
      using base by (simp add: applyBackoff_def Let_def backoff_ceiling_def esc split: if_splits)
    then show ?thesis using False base top by (simp add: backoff_loop_spec)
  qed
qed

lemma applyBackoff_range:
  assumes "config_ok cb"
  shows "0 \<le> c_cooldownBackoff (applyBackoff cb c)" "c_cooldownBackoff (applyBackoff cb c) < 2 ^ 62"
proof -
  have top: "backoff_ceiling cb c < 2 ^ 62"
    using config_reads_pos [OF assms] by (simp add: backoff_ceiling_def pin_ceiling_ok_def)
  then show "c_cooldownBackoff (applyBackoff cb c) < 2 ^ 62"
    by (simp add: applyBackoff_spec [OF assms] min_less_iff_disj)
  show "0 \<le> c_cooldownBackoff (applyBackoff cb c)"
    using config_reads_pos(1) [OF assms] by (auto simp: applyBackoff_spec [OF assms])
qed

lemma open_result_fields [simp]:
  "c_state (open_result cb p c b h a g now) = StateOpen"
  "c_openedAt (open_result cb p c b h a g now) = now"
  "c_consecutiveFails (open_result cb p c b h a g now) = c_consecutiveFails c"
  "c_failedProbes (open_result cb p c b h a g now) = c_failedProbes c"
  "c_halfOpenProbes (open_result cb p c b h a g now) = c_halfOpenProbes c"
  "c_lastCause (open_result cb p c b h a g now) = c_lastCause c"
  "c_lastCharged (open_result cb p c b h a g now) = c_lastCharged c"
  by (simp_all add: open_result_def opened_circuit_def)

text \<open>The stages an opening circuit goes through, and its gate fields at the end.\<close>

definition backed_circuit :: "CircuitBreaker \<Rightarrow> circuit \<Rightarrow> bool \<Rightarrow> instant \<Rightarrow> circuit" where
  "backed_circuit cb c by429 now =
     applyBackoff cb (note429Open (c\<lparr>c_state := StateOpen, c_openedAt := now\<rparr>) now by429)"

lemma open_result_gate:
  "gate_view (open_result cb p c b h a g now) =
     gate_view (applyQuotaPin cb p (backed_circuit cb c b now) h a g now)"
  by (simp add: open_result_def opened_circuit_def backed_circuit_def)

lemma open_result_ok:
  assumes "circuit_ok mp c" "config_ok cb" "rng_ok g" "0 < now"
  shows "circuit_ok mp (open_result cb p c b h a g now)"
proof -
  define d where "d = backed_circuit cb c b now"
  have d: "0 \<le> c_cooldownBackoff d" "0 \<le> c_probeSeed d" "c_probeSeed d < 1" "c_cooldownBackoff d < 2 ^ 62"
    using assms(1,2) applyBackoff_range [OF assms(2)]
    by (simp_all add: d_def backed_circuit_def circuit_ok_def)
  let ?e = "applyQuotaPin cb p d h a g now"
  have pin: "0 \<le> c_cooldownOverride ?e \<and> c_cooldownOverride ?e < 2 ^ 63 \<and> (c_pinSource ?e = '''' \<longleftrightarrow> c_cooldownOverride ?e = 0) \<and>
      c_pinSource ?e \<in> set pin_sources \<and> 0 \<le> c_probeSeed ?e \<and> c_probeSeed ?e < 1"
  proof (cases rule: applyQuotaPin_cases [of cb p d h a g now])
    case none
    with d show ?thesis by (simp add: pin_sources_def)
  next
    case (pin q)
    have "0 \<le> unpinnedCooldownWith d (cooldowns cb)"
      using unpinned_ge_base [of "cooldowns cb" d] config_reads_pos(1) [OF assms(2)] by simp
    then have "0 < q" "q < 2 ^ 63"
      using clampPin_range [OF pin(2) _ config_reads_pos(4) [OF assms(2)] assms(3)] by simp_all
    with pin(3) pin_candidate_source [of cb p h a now] pin_candidate_nonempty [of cb p h a now]
    show ?thesis using assms(3) by (auto simp: pin_sources_def rng_ok_def)
  qed
  note gate = gate_view_eqD [OF open_result_gate [of cb p c b h a g now, folded d_def]]
  show ?thesis
    using assms(1,4) pin d(1,4) gate by (simp add: circuit_ok_def)
qed

subsection \<open>Every outcome keeps the invariant\<close>

lemma failure_result_ok:
  assumes "circuit_ok mp c" "config_ok cb" "mp = cb_HalfOpenMaxProbes cb" "rng_ok g" "0 < now"
  shows "circuit_ok mp (failure_result cb p c b cause g now)"
proof -
  let ?e = "record_entry cb c cause now"
  have mp: "1 \<le> mp" using config_reads_pos(3) [OF assms(2)] assms(3) by simp
  have e: "circuit_ok mp ?e" using record_entry_ok assms(1) mp by blast
  have thr: "0 < effectiveThreshold cb" using config_reads_pos(2) [OF assms(2)] .
  have one: "circuit_ok mp (?e\<lparr>c_consecutiveFails := c_consecutiveFails ?e + 1\<rparr>)"
    using e by (simp add: circuit_ok_def)
  have two: "circuit_ok mp (open_result cb p (?e\<lparr>c_consecutiveFails := effectiveThreshold cb,
      c_failedProbes := n\<rparr>) b 0 False g now)" if "c_state ?e = StateHalfOpen" for n
    by (rule open_result_ok) (use e thr assms that in \<open>simp_all add: circuit_ok_def\<close>)
  show ?thesis
    using e one two open_result_ok [OF one assms(2,4,5)]
    by (simp add: failure_result_def Let_def split: State.split)
qed

lemma exhausted_result_ok:
  assumes "circuit_ok mp c" "config_ok cb" "mp = cb_HalfOpenMaxProbes cb" "rng_ok g" "0 < now"
  shows "circuit_ok mp (exhausted_result cb p c st h a g now)"
proof -
  let ?e = "record_entry cb c (UpstreamStatus st causeExhausted) now"
  have mp: "1 \<le> mp" using config_reads_pos(3) [OF assms(2)] assms(3) by simp
  have e: "circuit_ok mp ?e" using record_entry_ok assms(1) mp by blast
  have thr: "0 < effectiveThreshold cb" using config_reads_pos(2) [OF assms(2)] .
  have one: "circuit_ok mp (open_result cb p (?e\<lparr>c_consecutiveFails := effectiveThreshold cb\<rparr>) b h a g now)"
    for b
    by (rule open_result_ok) (use e thr assms in \<open>simp_all add: circuit_ok_def\<close>)
  have two: "circuit_ok mp (open_result cb p (?e\<lparr>c_consecutiveFails := effectiveThreshold cb,
      c_failedProbes := n\<rparr>) b h a g now)" if "c_state ?e = StateHalfOpen" for n b
    by (rule open_result_ok) (use e thr assms that in \<open>simp_all add: circuit_ok_def\<close>)
  show ?thesis
    using e one two by (simp add: exhausted_result_def Let_def split: State.split)
qed

lemma saturated_result_ok:
  "circuit_ok mp c \<Longrightarrow> 1 \<le> mp \<Longrightarrow> circuit_ok mp (saturated_result cb c now)"
  using circuit_ok_probe [of mp c cb now] by (simp add: saturated_result_def Let_def)

lemma success_result_ok:
  assumes "circuit_ok mp c" "config_ok cb" "mp = cb_HalfOpenMaxProbes cb"
  shows "circuit_ok mp (success_result cb c served cause now)"
proof -
  have mp: "1 \<le> mp" using config_reads_pos(3) [OF assms(2)] assms(3) by simp
  have "circuit_ok mp (credit_entry cb c served cause now)"
    using record_entry_ok [OF assms(1) mp, of cb cause now] by (simp add: credit_entry_def Let_def)
  then show ?thesis
    using assms(3)
    by (auto simp: success_result_def Let_def circuit_ok_def clear429Escalation_def pin_sources_def
        split: State.split)
qed

lemmas results_ok = failure_result_ok exhausted_result_ok saturated_result_ok success_result_ok

end
