(* ===== verification/Breaker_Frame.thy ===== *)
theory Breaker_Frame
  imports Circuit_Invariant
begin

text \<open>
  The frame of the request path's operations: each touches one circuit. The interface
  \<open>one_circuit_op\<close> says what that means for the breaker's map, and its lemmas say what it
  means for the verdicts: other providers and sibling models keep theirs. The interface is
  interpreted on the four outcomes and on the transition of \<open>IsOpen\<close>.
\<close>

subsection \<open>Well-formed breakers\<close>

definition breaker_wf :: "CircuitBreaker \<Rightarrow> bool" where
  "breaker_wf cb \<longleftrightarrow> gm_wf (cb_circuits cb) \<and> gm_wf (cb_names cb) \<and>
     list_all (\<lambda>(p, ms). gm_wf ms \<and> ms \<noteq> []) (cb_circuits cb) \<and>
     list_all (\<lambda>(p, n). gm_get (cb_circuits cb) p \<noteq> None) (cb_names cb)"

definition breaker_ok :: "CircuitBreaker \<Rightarrow> bool" where
  "breaker_ok cb \<longleftrightarrow> breaker_wf cb \<and> config_ok cb \<and>
     list_all (\<lambda>(p, ms). list_all (\<lambda>(m, c). circuit_ok (cb_HalfOpenMaxProbes cb) c) ms) (cb_circuits cb)"

lemma NewCircuitBreaker_wf [simp]: "breaker_wf (NewCircuitBreaker s)"
  by (simp add: breaker_wf_def NewCircuitBreaker_def)

lemma breaker_wf_inner: "breaker_wf cb \<Longrightarrow> gm_wf (gm_inner (cb_circuits cb) p)"
  by (auto simp: breaker_wf_def gm_inner_def list_all_iff split: option.split dest!: map_of_SomeD)

lemma breaker_wf_bucket: "breaker_wf cb \<Longrightarrow> gm_get (cb_circuits cb) p = Some ms \<Longrightarrow> ms \<noteq> []"
  by (auto simp: breaker_wf_def list_all_iff dest: map_of_SomeD)

lemma breaker_wf_names:
  "breaker_wf cb \<Longrightarrow> gm_get (cb_names cb) p = Some n \<Longrightarrow> gm_get (cb_circuits cb) p \<noteq> None"
  by (auto simp: breaker_wf_def list_all_iff dest!: map_of_SomeD)

lemma breaker_wfI:
  assumes "gm_wf (cb_circuits cb)" "gm_wf (cb_names cb)"
    "\<And>p ms. gm_get (cb_circuits cb) p = Some ms \<Longrightarrow> gm_wf ms \<and> ms \<noteq> []"
    "\<And>p n. gm_get (cb_names cb) p = Some n \<Longrightarrow> gm_get (cb_circuits cb) p \<noteq> None"
  shows "breaker_wf cb"
  using assms by (force simp: breaker_wf_def list_all_iff gm_mem_iff)

lemma breaker_wfD:
  assumes "breaker_wf cb"
  shows "gm_wf (cb_circuits cb)" "gm_wf (cb_names cb)"
    "gm_get (cb_circuits cb) p = Some ms \<Longrightarrow> gm_wf ms \<and> ms \<noteq> []"
    "gm_get (cb_names cb) p = Some n \<Longrightarrow> gm_get (cb_circuits cb) p \<noteq> None"
  using assms by (auto simp: breaker_wf_def list_all_iff dest!: map_of_SomeD)

lemma getCircuit_mem:
  "breaker_wf cb \<Longrightarrow> getCircuit cb p m = Some c \<longleftrightarrow>
     (\<exists>ms. (p, ms) \<in> set (cb_circuits cb) \<and> (m, c) \<in> set ms)"
  using breaker_wfD(1) [of cb] breaker_wfD(3) [of cb p]
  by (auto simp: getCircuit_def gm_inner_def gm_mem_iff split: option.split)

lemma breaker_ok_iff:
  "breaker_ok cb \<longleftrightarrow> breaker_wf cb \<and> config_ok cb \<and>
     (\<forall>p m c. getCircuit cb p m = Some c \<longrightarrow> circuit_ok (cb_HalfOpenMaxProbes cb) c)"
  by (cases "breaker_wf cb") (fastforce simp: breaker_ok_def getCircuit_mem list_all_iff)+

lemma breaker_okD:
  assumes "breaker_ok cb"
  shows "breaker_wf cb" "config_ok cb"
    "getCircuit cb p m = Some c \<Longrightarrow> circuit_ok (cb_HalfOpenMaxProbes cb) c"
  using assms by (auto simp: breaker_ok_iff)

subsection \<open>Storing a circuit\<close>

lemma setCircuit_wf:
  assumes "breaker_wf cb"
  shows "breaker_wf (setCircuit cb p m c)"
proof (rule breaker_wfI)
  fix q ms assume "gm_get (cb_circuits (setCircuit cb p m c)) q = Some ms"
  then show "gm_wf ms \<and> ms \<noteq> []"
    using breaker_wfD(3) [OF assms, of q] breaker_wf_inner [OF assms, of p]
    by (auto simp: setCircuit_def split: if_splits)
qed (use breaker_wfD [OF assms] in \<open>auto simp: setCircuit_def\<close>)

lemma prep_wf:
  assumes "breaker_wf cb"
  shows "breaker_wf (fst (getOrCreate (setName cb p pn) p m now))"
proof -
  let ?ms = "gm_inner (cb_circuits cb) p"
  have wf: "gm_wf (evictIfFull cb ?ms now)" using breaker_wf_inner [OF assms] by (rule evictIfFull_wf)
  show ?thesis
  proof (rule breaker_wfI)
    fix q ms assume "gm_get (cb_circuits (fst (getOrCreate (setName cb p pn) p m now))) q = Some ms"
    then show "gm_wf ms \<and> ms \<noteq> []"
      using breaker_wfD(3) [OF assms, of q] wf
      by (auto simp: getOrCreate_def Let_def split: option.splits if_splits)
  next
    fix q n assume n: "gm_get (cb_names (fst (getOrCreate (setName cb p pn) p m now))) q = Some n"
    show "gm_get (cb_circuits (fst (getOrCreate (setName cb p pn) p m now))) q \<noteq> None"
      using n breaker_wfD(4) [OF assms, of q]
      by (auto simp: getOrCreate_def setName_def Let_def gm_inner_def split: option.splits if_splits)
  qed (use breaker_wfD [OF assms] in
        \<open>auto simp: getOrCreate_def setName_def Let_def split: option.splits\<close>)
qed

lemma record_at_wf: "breaker_wf cb \<Longrightarrow> breaker_wf (record_at cb p pn m c now)"
  by (simp add: record_at_def setCircuit_wf prep_wf)

lemma record_at_config [simp]: "same_config (record_at cb p pn m c now) cb"
  by (simp add: record_at_def)

lemma record_at_get [simp]: "getCircuit (record_at cb p pn m c now) p m = Some c"
  by (simp add: record_at_def getCircuit_set)

lemma record_at_other:
  "p' \<noteq> p \<Longrightarrow> gm_inner (cb_circuits (record_at cb p pn m c now)) p' = gm_inner (cb_circuits cb) p'"
  by (simp add: record_at_def setCircuit_def getOrCreate_other_provider)

lemma record_at_from:
  assumes "m' \<noteq> m" "getCircuit (record_at cb p pn m c now) p m' = Some d"
  shows "getCircuit cb p m' = Some d"
proof -
  from assms have "getCircuit (fst (getOrCreate (setName cb p pn) p m now)) p m' = Some d"
    by (simp add: record_at_def getCircuit_set)
  with assms(1) show ?thesis
    using evictIfFull_get [of cb "gm_inner (cb_circuits cb) p" now m' d]
    by (simp add: getOrCreate_def getCircuit_def Let_def split: option.splits)
qed

lemma record_at_kept:
  assumes "breaker_wf cb" "m' \<noteq> m" "getCircuit cb p m' = Some d" "c_state d \<noteq> StateClosed"
  shows "getCircuit (record_at cb p pn m c now) p m' = Some d"
  using assms getOrCreate_sibling [of "setName cb p pn" p m' d m now] breaker_wf_inner [OF assms(1)]
  by (simp add: record_at_def getCircuit_set)

lemma config_ok_record_at [simp]: "config_ok (record_at cb p pn m c now) = config_ok cb"
  by (rule config_ok_same) simp

lemma record_at_probes [simp]:
  "cb_HalfOpenMaxProbes (record_at cb p pn m c now) = cb_HalfOpenMaxProbes cb"
  using record_at_config [of cb p pn m c now] by (simp add: same_config_def)

lemma record_at_ok:
  assumes "breaker_ok cb" "circuit_ok (cb_HalfOpenMaxProbes cb) c"
  shows "breaker_ok (record_at cb p pn m c now)"
  unfolding breaker_ok_iff
proof (intro conjI allI impI)
  fix p' m' d assume d: "getCircuit (record_at cb p pn m c now) p' m' = Some d"
  show "circuit_ok (cb_HalfOpenMaxProbes (record_at cb p pn m c now)) d"
  proof (cases "p' = p")
    case False
    with d have "getCircuit cb p' m' = Some d" by (simp add: getCircuit_def record_at_other)
    with assms(1) show ?thesis by (auto simp: breaker_ok_iff)
  next
    case True
    show ?thesis
    proof (cases "m' = m")
      case True
      with d \<open>p' = p\<close> assms(2) show ?thesis by simp
    next
      case False
      with d True have "getCircuit cb p' m' = Some d" using record_at_from by blast
      with assms(1) show ?thesis by (auto simp: breaker_ok_iff)
    qed
  qed
qed (use assms(1) in \<open>auto simp: breaker_ok_iff record_at_wf\<close>)

lemma circuit_at_ok:
  "breaker_ok cb \<Longrightarrow> circuit_ok (cb_HalfOpenMaxProbes cb) (circuit_at cb p m)"
  by (auto simp: circuit_at_def breaker_ok_iff split: option.split)

lemma circuit_at_Some [simp]: "getCircuit cb p m = Some c \<Longrightarrow> circuit_at cb p m = c"
  by (simp add: circuit_at_def)

lemma circuit_at_None [simp]: "getCircuit cb p m = None \<Longrightarrow> circuit_at cb p m = new_circuit"
  by (simp add: circuit_at_def)

subsection \<open>The set of blocked models\<close>

definition is_blocked :: "CircuitBreaker \<Rightarrow> string \<Rightarrow> string \<Rightarrow> instant \<Rightarrow> bool" where
  "is_blocked cb p m now \<longleftrightarrow>
     (case getCircuit cb p m of None \<Rightarrow> False | Some c \<Rightarrow> blocking c (cooldowns cb) now)"

definition is_account_pinned :: "CircuitBreaker \<Rightarrow> string \<Rightarrow> string \<Rightarrow> instant \<Rightarrow> bool" where
  "is_account_pinned cb p m now \<longleftrightarrow>
     (case getCircuit cb p m of None \<Rightarrow> False
      | Some c \<Rightarrow> blocking c (cooldowns cb) now \<and> quotaPinnedForWith c (cooldowns cb) \<and>
                  pinSpeaksForAccount (c_pinSource c))"

lemma is_blocked_iff:
  "is_blocked cb p m now \<longleftrightarrow> (\<exists>c. getCircuit cb p m = Some c \<and> blocking c (cooldowns cb) now)"
  by (simp add: is_blocked_def split: option.split)

lemma is_account_pinned_iff:
  "is_account_pinned cb p m now \<longleftrightarrow>
     (\<exists>c. getCircuit cb p m = Some c \<and> blocking c (cooldowns cb) now \<and>
        quotaPinnedForWith c (cooldowns cb) \<and> pinSpeaksForAccount (c_pinSource c))"
  by (simp add: is_account_pinned_def split: option.split)

definition provider_down :: "CircuitBreaker \<Rightarrow> string \<Rightarrow> instant \<Rightarrow> bool" where
  "provider_down cb p now = providerOpen cb (gm_inner (cb_circuits cb) p) now"

text \<open>The verdict, as the set of blocked models decides it.\<close>

lemma provider_down_iff:
  assumes "breaker_wf cb"
  shows "provider_down cb p now \<longleftrightarrow>
    (\<exists>m. is_account_pinned cb p m now) \<or> effectiveSpan cb \<le> int (card {m. is_blocked cb p m now})"
proof -
  note wf = breaker_wf_inner [OF assms, of p]
  have "{m. is_blocked cb p m now} =
      {m. \<exists>c. gm_get (gm_inner (cb_circuits cb) p) m = Some c \<and> blocking c (cooldowns cb) now}"
    by (simp add: is_blocked_iff getCircuit_def)
  moreover have "accountPinned (gm_inner (cb_circuits cb) p) (cooldowns cb) now \<longleftrightarrow>
      (\<exists>m. is_account_pinned cb p m now)"
    unfolding accountPinned_get [OF wf] is_account_pinned_iff getCircuit_def ..
  ultimately show ?thesis
    by (simp add: provider_down_def providerOpen_spec length_blockedModels [OF wf])
qed

lemma blocked_finite: "finite {m. is_blocked cb p m now}"
proof (rule finite_subset)
  show "{m. is_blocked cb p m now} \<subseteq> dom (getCircuit cb p)"
    by (auto simp: is_blocked_def split: option.splits)
  have "dom (getCircuit cb p) = dom (gm_get (gm_inner (cb_circuits cb) p))"
    by (auto simp: getCircuit_def dom_def)
  then show "finite (dom (getCircuit cb p))" by (simp add: finite_dom_map_of)
qed

lemma account_pinned_blocked: "is_account_pinned cb p m now \<Longrightarrow> is_blocked cb p m now"
  by (auto simp: is_account_pinned_def is_blocked_def split: option.splits)

subsection \<open>Operations on one circuit\<close>

locale one_circuit_op =
  fixes op :: "CircuitBreaker \<Rightarrow> CircuitBreaker" and pid :: string and model :: string
  assumes op_config: "same_config (op cb) cb"
    and op_other: "p' \<noteq> pid \<Longrightarrow> gm_inner (cb_circuits (op cb)) p' = gm_inner (cb_circuits cb) p'"
    and op_from: "m' \<noteq> model \<Longrightarrow> getCircuit (op cb) pid m' = Some c \<Longrightarrow> getCircuit cb pid m' = Some c"
    and op_kept: "breaker_wf cb \<Longrightarrow> m' \<noteq> model \<Longrightarrow> getCircuit cb pid m' = Some c \<Longrightarrow>
      c_state c \<noteq> StateClosed \<Longrightarrow> getCircuit (op cb) pid m' = Some c"
    and op_wf: "breaker_wf cb \<Longrightarrow> breaker_wf (op cb)"
begin

lemma op_cooldowns: "cooldowns (op cb) = cooldowns cb"
  using op_config by (rule same_config_reads(8))

lemma op_span: "effectiveSpan (op cb) = effectiveSpan cb"
  using op_config by (rule same_config_reads(2))

lemma other_pair:
  assumes "breaker_wf cb" "(p', m') \<noteq> (pid, model)"
  shows "is_blocked (op cb) p' m' now = is_blocked cb p' m' now"
    and "is_account_pinned (op cb) p' m' now = is_account_pinned cb p' m' now"
proof -
  have "is_blocked (op cb) p' m' now = is_blocked cb p' m' now \<and>
    is_account_pinned (op cb) p' m' now = is_account_pinned cb p' m' now"
  proof (cases "p' = pid")
    case False
    show ?thesis
      unfolding is_blocked_def is_account_pinned_def getCircuit_def op_cooldowns op_other [OF False]
      by simp
  next
    case True
    with assms(2) have m: "m' \<noteq> model" by simp
    have open_kept: "getCircuit (op cb) pid m' = Some c" if "getCircuit cb pid m' = Some c"
        "c_state c = StateOpen" for c
      using op_kept [OF assms(1) m that(1)] that(2) by simp
    note from_op = op_from [of m' cb, OF m]
    show ?thesis
    proof (cases "getCircuit (op cb) pid m'")
      case (Some d)
      with from_op True show ?thesis by (simp add: is_blocked_def is_account_pinned_def op_cooldowns)
    next
      case None
      have "c_state c \<noteq> StateOpen" if "getCircuit cb pid m' = Some c" for c
        using open_kept [OF that] None by auto
      with None True show ?thesis
        by (auto simp: is_blocked_iff is_account_pinned_iff blocking_def)
    qed
  qed
  then show "is_blocked (op cb) p' m' now = is_blocked cb p' m' now"
    "is_account_pinned (op cb) p' m' now = is_account_pinned cb p' m' now" by simp_all
qed

lemma other_provider:
  "p' \<noteq> pid \<Longrightarrow> provider_down (op cb) p' now = provider_down cb p' now"
  unfolding provider_down_def providerOpen_spec op_other op_cooldowns op_span ..

text \<open>A circuit that neither was nor is blocking leaves the provider's verdict as it was.\<close>

lemma idle_verdict:
  assumes "breaker_wf cb" "\<not> is_blocked cb pid model now" "\<not> is_blocked (op cb) pid model now"
  shows "provider_down (op cb) pid now = provider_down cb pid now"
proof -
  have "is_blocked (op cb) pid m now = is_blocked cb pid m now" for m
    using other_pair(1) [OF assms(1)] assms(2,3) by (cases "m = model") auto
  moreover have "is_account_pinned (op cb) pid m now = is_account_pinned cb pid m now" for m
    using other_pair(2) [OF assms(1)] assms(2,3) account_pinned_blocked by (cases "m = model") blast+
  ultimately show ?thesis
    using assms(1) op_wf by (simp add: provider_down_iff op_span)
qed

text \<open>A circuit that starts blocking can only add to the verdict.\<close>

lemma blocking_adds:
  assumes "breaker_wf cb" "\<not> is_blocked cb pid model now" "provider_down cb pid now"
  shows "provider_down (op cb) pid now"
proof -
  have sub: "{m. is_blocked cb pid m now} \<subseteq> {m. is_blocked (op cb) pid m now}"
  proof safe
    fix m assume m: "is_blocked cb pid m now"
    with assms(2) have "(pid, m) \<noteq> (pid, model)" by auto
    from m other_pair(1) [OF assms(1) this] show "is_blocked (op cb) pid m now" by simp
  qed
  have "card {m. is_blocked cb pid m now} \<le> card {m. is_blocked (op cb) pid m now}"
    by (rule card_mono [OF blocked_finite sub])
  moreover have "is_account_pinned (op cb) pid m now" if "is_account_pinned cb pid m now" for m
  proof (cases "m = model")
    case True
    with account_pinned_blocked [OF that] assms(2) show ?thesis by simp
  next
    case False
    with that other_pair(2) [OF assms(1), of pid m] show ?thesis by simp
  qed
  ultimately show ?thesis
    using assms(3) unfolding provider_down_iff [OF assms(1)] provider_down_iff [OF op_wf [OF assms(1)]] op_span
    by force
qed

end

lemma record_at_one_circuit: "one_circuit_op (\<lambda>cb. record_at cb p pn m (f cb) now) p m"
  by unfold_locales (auto simp: record_at_other record_at_kept record_at_wf dest: record_at_from)

interpretation failure: one_circuit_op "\<lambda>cb. fst (recordFailure cb p pn m b cause g now)" p m
  for p pn m b cause g now
  unfolding record_states by (rule record_at_one_circuit)

interpretation exhausted: one_circuit_op "\<lambda>cb. fst (recordExhausted cb p pn m st h a g now)" p m
  for p pn m st h a g now
  unfolding record_states by (rule record_at_one_circuit)

interpretation saturated: one_circuit_op "\<lambda>cb. RecordSaturated cb p pn m now" p m
  for p pn m now
  unfolding record_states by (rule record_at_one_circuit)

interpretation success: one_circuit_op "\<lambda>cb. fst (recordSuccess cb p pn m served cause now)" p m
  for p pn m served cause now
  unfolding record_states by (rule record_at_one_circuit)

end
