(* ===== verification/Breaker_Requests.thy ===== *)
theory Breaker_Requests
  imports Breaker_Frame
begin

text \<open>
  What the request path relies on: the admission check answers exactly the documented rule,
  a circuit opens at its threshold and closes after its probes, an open circuit ignores late
  outcomes, and the wait reported to a caller is the wait that is enforced.
\<close>

subsection \<open>Admission\<close>

lemma getCircuit_bucket:
  "getCircuit cb p m = (case gm_get (cb_circuits cb) p of None \<Rightarrow> None | Some ms \<Rightarrow> gm_get ms m)"
  by (simp add: getCircuit_def gm_inner_def split: option.split)

lemma provider_down_untracked: "gm_get (cb_circuits cb) p = None \<Longrightarrow> \<not> provider_down cb p now"
  by (simp add: provider_down_def gm_inner_def providerOpen_def)

lemma provider_down_bucket:
  "gm_get (cb_circuits cb) p = Some ms \<Longrightarrow> providerOpen cb ms now = provider_down cb p now"
  by (simp add: provider_down_def gm_inner_def)

lemma IsOpen_read_cases:
  "IsOpen_read cb p m now =
     (case getCircuit cb p m of
        None \<Rightarrow> Answer (provider_down cb p now)
      | Some c \<Rightarrow>
          if c_state c \<noteq> StateOpen then Answer (provider_down cb p now)
          else if blocking c (cooldowns cb) now then Answer True else NeedWrite)"
  by (auto simp: IsOpen_read_def getCircuit_bucket provider_down_untracked provider_down_bucket
      blocking_def split: option.split)

text \<open>The write phase moves a circuit that is owed a probe and answers the verdict alone.\<close>

lemma IsOpen_write_state:
  "fst (IsOpen_write cb p pn m now) =
     (case getCircuit cb p m of
        None \<Rightarrow> cb
      | Some c \<Rightarrow>
          if c_state c = StateOpen \<and> \<not> blocking c (cooldowns cb) now
          then setCircuit cb p m (c\<lparr>c_state := StateHalfOpen, c_halfOpenProbes := 0\<rparr>) else cb)"
  by (auto simp: IsOpen_write_def getCircuit_bucket probeIfCooldownElapsed_def blocking_def
      split: option.split)

lemma IsOpen_write_answer:
  "snd (snd (IsOpen_write cb p pn m now)) = provider_down (fst (IsOpen_write cb p pn m now)) p now"
  by (auto simp: IsOpen_write_def provider_down_untracked split: option.split prod.split)
    (simp_all add: provider_down_def)

lemma setCircuit_one_circuit:
  assumes "\<And>cb. f cb = (case getCircuit cb p m of None \<Rightarrow> cb
      | Some c \<Rightarrow> if P cb c then setCircuit cb p m (h cb c) else cb)"
  shows "one_circuit_op f p m"
proof unfold_locales
  fix cb :: CircuitBreaker and p' m' c
  show "same_config (f cb) cb" by (simp add: assms split: option.split)
  show "p' \<noteq> p \<Longrightarrow> gm_inner (cb_circuits (f cb)) p' = gm_inner (cb_circuits cb) p'"
    by (simp add: assms setCircuit_def split: option.split)
  show "m' \<noteq> m \<Longrightarrow> getCircuit (f cb) p m' = Some c \<Longrightarrow> getCircuit cb p m' = Some c"
    "m' \<noteq> m \<Longrightarrow> getCircuit cb p m' = Some c \<Longrightarrow> getCircuit (f cb) p m' = Some c"
    by (simp_all add: assms getCircuit_set split: option.splits if_splits)
  show "breaker_wf cb \<Longrightarrow> breaker_wf (f cb)"
    by (simp add: assms setCircuit_wf split: option.split)
qed

interpretation admit: one_circuit_op "\<lambda>cb. fst (IsOpen_write cb p pn m now)" p m
  for p pn m now
  by (rule setCircuit_one_circuit [OF IsOpen_write_state])

lemma IsOpen_write_not_blocked_after:
  assumes "\<not> is_blocked cb p m now"
  shows "\<not> is_blocked (fst (IsOpen_write cb p pn m now)) p m now"
  using assms
  by (auto simp: IsOpen_write_state is_blocked_iff getCircuit_set blocking_def split: option.splits if_splits)

lemma IsOpen_write_verdict:
  assumes "breaker_wf cb" "\<not> is_blocked cb p m now"
  shows "snd (snd (IsOpen_write cb p pn m now)) = provider_down cb p now"
  using admit.idle_verdict [OF assms IsOpen_write_not_blocked_after [OF assms(2)]]
  by (simp add: IsOpen_write_answer)

lemma IsOpen_answer:
  assumes "breaker_wf cb"
  shows "snd (snd (IsOpen cb p pn m now now)) \<longleftrightarrow> is_blocked cb p m now \<or> provider_down cb p now"
proof (cases "getCircuit cb p m")
  case None
  then show ?thesis by (simp add: IsOpen_def IsOpen_read_cases is_blocked_def)
next
  case (Some c)
  show ?thesis
  proof (cases "c_state c = StateOpen \<and> \<not> blocking c (cooldowns cb) now")
    case True
    with Some have "\<not> is_blocked cb p m now" by (simp add: is_blocked_def)
    with True Some assms show ?thesis
      by (simp add: IsOpen_def IsOpen_read_cases IsOpen_write_verdict)
  next
    case False
    with Some show ?thesis by (auto simp: IsOpen_def IsOpen_read_cases is_blocked_def blocking_def)
  qed
qed

lemma IsOpen_state:
  "fst (IsOpen cb p pn m now now') =
     (if IsOpen_read cb p m now = NeedWrite then fst (IsOpen_write cb p pn m now') else cb)"
  by (simp add: IsOpen_def split: read_outcome.split)

subsection \<open>Runs of one pair's outcomes\<close>

text \<open>What one outcome does to the circuit of its own pair.\<close>

lemma circuit_at_record [simp]: "circuit_at (record_at cb p pn m c now) p m = c"
  by (simp add: circuit_at_def)

lemma logical_new [simp]: "logicalStateWith new_circuit r now = StateClosed"
  by (simp add: logicalStateWith_def new_circuit_def)

lemma failure_below_threshold:
  assumes "c_state c = StateClosed" "c_consecutiveFails c + 1 < effectiveThreshold cb"
  shows "c_state (failure_result cb p c b cause g now) = StateClosed"
    "c_consecutiveFails (failure_result cb p c b cause g now) = c_consecutiveFails c + 1"
  using assms record_entry_state [of cb c cause now]
  by (simp_all add: failure_result_def Let_def logicalStateWith_def)

lemma failure_at_threshold:
  assumes "c_state c = StateClosed" "effectiveThreshold cb \<le> c_consecutiveFails c + 1"
  shows "failure_result cb p c b cause g now =
    open_result cb p ((record_entry cb c cause now)\<lparr>c_consecutiveFails := c_consecutiveFails c + 1\<rparr>)
      b 0 False g now"
  using assms record_entry_state [of cb c cause now]
  by (simp add: failure_result_def Let_def logicalStateWith_def)

lemma failure_of_probe:
  assumes "logicalStateWith c (cooldowns cb) now = StateHalfOpen"
  shows "failure_result cb p c b cause g now =
    open_result cb p ((record_entry cb c cause now)\<lparr>c_consecutiveFails := effectiveThreshold cb,
      c_failedProbes := c_failedProbes c + 1\<rparr>) b 0 False g now"
  using assms record_entry_state [of cb c cause now] by (simp add: failure_result_def Let_def)

fun fail_run ::
  "CircuitBreaker \<Rightarrow> string \<Rightarrow> string \<Rightarrow> string \<Rightarrow> (Cause \<times> rng \<times> instant) list \<Rightarrow> CircuitBreaker" where
  "fail_run cb p pn m [] = cb"
| "fail_run cb p pn m ((cause, g, now) # rest) =
     fail_run (fst (RecordFailure cb p pn m cause g now)) p pn m rest"

lemma fail_run_threshold [simp]:
  "effectiveThreshold (fail_run cb p pn m outs) = effectiveThreshold cb"
proof (induction outs arbitrary: cb)
  case (Cons o' outs)
  then show ?case
    using same_config_reads(1) [OF failure.op_config]
    by (cases o') (simp add: RecordFailure_def)
qed simp

lemma fail_run_counts:
  assumes "c_state (circuit_at cb p m) = StateClosed"
    "c_consecutiveFails (circuit_at cb p m) + int (length outs) < effectiveThreshold cb"
  shows "c_state (circuit_at (fail_run cb p pn m outs) p m) = StateClosed"
    and "c_consecutiveFails (circuit_at (fail_run cb p pn m outs) p m) =
      c_consecutiveFails (circuit_at cb p m) + int (length outs)"
proof -
  have "c_state (circuit_at (fail_run cb p pn m outs) p m) = StateClosed \<and>
    c_consecutiveFails (circuit_at (fail_run cb p pn m outs) p m) =
      c_consecutiveFails (circuit_at cb p m) + int (length outs)"
    using assms
  proof (induction outs arbitrary: cb)
    case (Cons o' outs)
    obtain cause g now where o': "o' = (cause, g, now)" by (cases o')
    let ?cb = "fst (RecordFailure cb p pn m cause g now)"
    let ?c = "failure_result cb p (circuit_at cb p m) False cause g now"
    have at: "circuit_at ?cb p m = ?c" by (simp add: RecordFailure_def recordFailure_state)
    have lt: "c_consecutiveFails (circuit_at cb p m) + 1 < effectiveThreshold cb"
      using Cons.prems(2) by simp
    note step = failure_below_threshold [OF Cons.prems(1) lt, of p False cause g now]
    have thr: "effectiveThreshold ?cb = effectiveThreshold cb"
      using same_config_reads(1) [OF failure.op_config] by (simp add: RecordFailure_def)
    have "c_consecutiveFails (circuit_at ?cb p m) + int (length outs) < effectiveThreshold ?cb"
      using step(2) at thr Cons.prems(2) by simp
    with Cons.IH [of ?cb] step at show ?case by (simp add: o')
  qed simp
  then show "c_state (circuit_at (fail_run cb p pn m outs) p m) = StateClosed"
    "c_consecutiveFails (circuit_at (fail_run cb p pn m outs) p m) =
      c_consecutiveFails (circuit_at cb p m) + int (length outs)" by simp_all
qed

lemma fail_run_opens:
  assumes "c_state (circuit_at cb p m) = StateClosed"
    "c_consecutiveFails (circuit_at cb p m) + int (length outs) + 1 = effectiveThreshold cb"
  shows "c_state (circuit_at (fail_run cb p pn m (outs @ [(cause, g, now)])) p m) = StateOpen"
    and "c_openedAt (circuit_at (fail_run cb p pn m (outs @ [(cause, g, now)])) p m) = now"
proof -
  have app: "fail_run cb p pn m (xs @ [(cause, g, now)]) =
      fst (RecordFailure (fail_run cb p pn m xs) p pn m cause g now)" for xs
    by (induction xs arbitrary: cb) auto
  have "c_consecutiveFails (circuit_at cb p m) + int (length outs) < effectiveThreshold cb"
    using assms(2) by simp
  note cnt = fail_run_counts [OF assms(1) this, of pn]
  have thr: "effectiveThreshold (fail_run cb p pn m outs) \<le>
      c_consecutiveFails (circuit_at (fail_run cb p pn m outs) p m) + 1"
    using cnt(2) assms(2) by simp
  note opened = failure_at_threshold [OF cnt(1) thr, of p False cause g now]
  show "c_state (circuit_at (fail_run cb p pn m (outs @ [(cause, g, now)])) p m) = StateOpen"
    "c_openedAt (circuit_at (fail_run cb p pn m (outs @ [(cause, g, now)])) p m) = now"
    using opened by (simp_all add: app RecordFailure_def recordFailure_state)
qed

subsection \<open>Late outcomes\<close>

lemma outcomes_while_blocking:
  assumes "blocking c (cooldowns cb) now"
  shows "failure_result cb p c b cause g now = c\<lparr>c_lastCharged := now\<rparr>"
    "exhausted_result cb p c st h a g now = c\<lparr>c_lastCharged := now\<rparr>"
    "saturated_result cb c now = c"
    "success_result cb c served cause now =
       (if served then c\<lparr>c_lastCharged := now, c_lastSuccess := now\<rparr> else c\<lparr>c_lastCharged := now\<rparr>)"
proof -
  from assms have open': "c_state c = StateOpen" by (simp add: blocking_def)
  note entry = record_entry_blocking [OF assms]
  show "failure_result cb p c b cause g now = c\<lparr>c_lastCharged := now\<rparr>"
    by (simp add: failure_result_def entry open')
  show "exhausted_result cb p c st h a g now = c\<lparr>c_lastCharged := now\<rparr>"
    by (simp add: exhausted_result_def entry open')
  show "saturated_result cb c now = c"
    using assms open' by (simp add: saturated_result_def probeIf_simps)
  show "success_result cb c served cause now =
       (if served then c\<lparr>c_lastCharged := now, c_lastSuccess := now\<rparr> else c\<lparr>c_lastCharged := now\<rparr>)"
    by (simp add: success_result_def credit_entry_def entry open')
qed

subsection \<open>Closing\<close>

lemma success_banks_probe:
  assumes "logicalStateWith c (cooldowns cb) now = StateHalfOpen"
    "c_halfOpenProbes (record_entry cb c cause now) + 1 < cb_HalfOpenMaxProbes cb"
  shows "c_state (success_result cb c served cause now) = StateHalfOpen"
    "c_halfOpenProbes (success_result cb c served cause now) =
       c_halfOpenProbes (record_entry cb c cause now) + 1"
  using assms record_entry_state [of cb c cause now]
  by (simp_all add: success_result_def credit_entry_def Let_def)

lemma success_closes:
  assumes "logicalStateWith c (cooldowns cb) now = StateHalfOpen"
    "cb_HalfOpenMaxProbes cb \<le> c_halfOpenProbes (record_entry cb c cause now) + 1"
    "d = success_result cb c served cause now"
  shows "c_state d = StateClosed" "c_consecutiveFails d = 0" "c_halfOpenProbes d = 0"
    "c_cooldownOverride d = 0" "c_pinSource d = ''''" "c_failedProbes d = 0"
    "c_cooldownBackoff d = 0" "c_opens429Streak d = 0"
  using assms(1,2) record_entry_state [of cb c cause now]
  by (simp_all add: assms(3) success_result_def credit_entry_def clear429Escalation_def Let_def)

lemma record_entry_probes:
  "c_halfOpenProbes (record_entry cb c cause now) =
     (if c_state c = StateOpen \<and> \<not> blocking c (cooldowns cb) now then 0 else c_halfOpenProbes c)"
proof -
  have "stillDark (c\<lparr>c_lastCharged := now\<rparr>) (cooldowns cb) now = stillDark c (cooldowns cb) now"
    by simp
  then show ?thesis
    by (auto simp: record_entry_def Let_def probeIfCooldownElapsed_def blocking_def)
qed

lemma success_stays_closed:
  assumes "c_state c = StateClosed"
  shows "c_state (success_result cb c served cause now) = StateClosed"
    "c_consecutiveFails (success_result cb c served cause now) = 0"
  using assms record_entry_state [of cb c cause now]
  by (simp_all add: success_result_def credit_entry_def Let_def logicalStateWith_def)

lemma success_lastSuccess:
  "c_lastSuccess (success_result cb c served cause now) = (if served then now else c_lastSuccess c)"
  by (simp add: success_result_def credit_entry_def Let_def clear429Escalation_def split: State.split)

end
