(* ===== verification/Breaker_Waits.thy ===== *)
theory Breaker_Waits
  imports Breaker_Requests
begin

text \<open>
  How long a circuit stays dark. The cooldown in force is never below the configured one and
  never above the longest reason to wait; \<open>BlockedUntil\<close> names an instant before which the
  pair stays blocked as long as nothing touches the breaker.
\<close>

subsection \<open>The cooldown in force\<close>

text \<open>Waits for which the probe spread is exact and the sum stays in range: a probe interval
  below 104 days and an unpinned wait below 146 years.\<close>

definition waits_ok :: "circuit \<Rightarrow> cooldownReads \<Rightarrow> bool" where
  "waits_ok c r \<longleftrightarrow> 0 < r_base r \<and> r_pinProbe r < 2 ^ 53 \<and> unpinnedCooldownWith c r < 2 ^ 62 \<and>
     0 \<le> c_probeSeed c \<and> c_probeSeed c < 1 \<and> c_cooldownOverride c < 2 ^ 63"

lemma probe_wait_bounds:
  assumes "waits_ok c r" "0 < r_pinProbe r"
  defines "w \<equiv> max (r_pinProbe r) (unpinnedCooldownWith c r)"
  shows "wrap64 (w + probeSpread (c_probeSeed c) (r_pinProbe r)) =
      w + probeSpread (c_probeSeed c) (r_pinProbe r)"
    and "w \<le> w + probeSpread (c_probeSeed c) (r_pinProbe r)"
    and "w + probeSpread (c_probeSeed c) (r_pinProbe r) \<le> w + r_pinProbe r div 20 + 1"
proof -
  have lo: "0 \<le> probeSpread (c_probeSeed c) (r_pinProbe r)"
    using assms(1,2) by (intro probeSpread_nonneg) (simp_all add: waits_ok_def)
  have hi: "probeSpread (c_probeSeed c) (r_pinProbe r) \<le> r_pinProbe r div 20 + 1"
    using assms(1,2) by (intro probeSpread_le) (simp_all add: waits_ok_def)
  have w: "0 \<le> w" "w < 2 ^ 62" using assms(1,2) by (auto simp: w_def waits_ok_def)
  have "r_pinProbe r div 20 \<le> 2 ^ 53"
    using assms(1,2) zdiv_mono1 [of "r_pinProbe r" "2 ^ 53" 20] by (simp add: waits_ok_def)
  with lo hi w show "wrap64 (w + probeSpread (c_probeSeed c) (r_pinProbe r)) =
      w + probeSpread (c_probeSeed c) (r_pinProbe r)"
    by (intro wrap64_id) (simp add: in_int64_def)
  show "w \<le> w + probeSpread (c_probeSeed c) (r_pinProbe r)"
    "w + probeSpread (c_probeSeed c) (r_pinProbe r) \<le> w + r_pinProbe r div 20 + 1"
    using lo hi by simp_all
qed

lemma cooldown_ge_unpinned:
  assumes "waits_ok c r"
  shows "unpinnedCooldownWith c r \<le> effectiveCooldownForWith c r"
proof -
  have "0 < r_pinProbe r \<Longrightarrow> unpinnedCooldownWith c r \<le>
      wrap64 (max (r_pinProbe r) (unpinnedCooldownWith c r) + probeSpread (c_probeSeed c) (r_pinProbe r))"
    using probe_wait_bounds(1,2) [OF assms] by simp
  then show ?thesis by (auto simp: effectiveCooldownForWith_def Let_def)
qed

lemma cooldown_le_longest:
  "effectiveCooldownForWith c r \<le> max (unpinnedCooldownWith c r) (c_cooldownOverride c)"
  by (simp add: effectiveCooldownForWith_def Let_def)

text \<open>A pin inferred from a response is served as the probe interval, spread by a twentieth.\<close>

lemma response_pin_probe_interval:
  assumes "waits_ok c r" "pinProbes (c_pinSource c)" "0 < r_pinProbe r"
  shows "effectiveCooldownForWith c r \<le>
    max (r_pinProbe r) (unpinnedCooldownWith c r) + r_pinProbe r div 20 + 1"
proof -
  have "wrap64 (max (r_pinProbe r) (unpinnedCooldownWith c r) + probeSpread (c_probeSeed c) (r_pinProbe r))
      \<le> max (r_pinProbe r) (unpinnedCooldownWith c r) + r_pinProbe r div 20 + 1"
    using probe_wait_bounds(1,3) [OF assms(1,3)] by simp
  then show ?thesis
    using assms(2,3) by (auto simp: effectiveCooldownForWith_def Let_def)
qed

lemma advisor_pin_full:
  assumes "quotaPinnedForWith c r" "\<not> pinProbes (c_pinSource c)"
  shows "effectiveCooldownForWith c r = max (unpinnedCooldownWith c r) (c_cooldownOverride c)"
  using assms by (simp add: effectiveCooldownForWith_def Let_def)

lemma cooldown_range:
  assumes "waits_ok c r"
  shows "0 < effectiveCooldownForWith c r" "effectiveCooldownForWith c r \<le> maxDuration"
proof -
  show "0 < effectiveCooldownForWith c r"
    using cooldown_ge_unpinned [OF assms] unpinned_ge_base [of r c] assms by (simp add: waits_ok_def)
  have "unpinnedCooldownWith c r < 2 ^ 63"
    using assms by (simp add: waits_ok_def)
  then show "effectiveCooldownForWith c r \<le> maxDuration"
    using cooldown_le_longest [of c r] assms by (simp add: waits_ok_def maxDuration_def max_def split: if_splits)
qed

text \<open>The instant a circuit is due again.\<close>

definition due_at :: "circuit \<Rightarrow> cooldownReads \<Rightarrow> instant" where
  "due_at c r = time_add (c_openedAt c) (effectiveCooldownForWith c r)"

lemma dark_until_due:
  assumes "waits_ok c r" "0 < c_openedAt c"
  shows "stillDark c r now \<longleftrightarrow> now < due_at c r"
  using assms cooldown_range [OF assms(1)]
  by (simp add: stillDark_def due_at_def time_add_def time_sub_lt_iff minDuration_def)

subsection \<open>BlockedUntil\<close>

lemma blocked_walk_spec:
  assumes "\<And>m. m \<in> set ms \<Longrightarrow> \<exists>c. gm_get models m = Some c \<and> 0 < due_at c r" "0 \<le> t"
  shows "\<exists>t'. blocked_walk models r ms (t, pd) =
      Some (t', pd \<and> (\<forall>m\<in>set ms. \<forall>c. gm_get models m = Some c \<longrightarrow> quotaPinnedForWith c r)) \<and>
    (\<forall>m\<in>set ms. \<forall>c. gm_get models m = Some c \<longrightarrow> t' \<le> due_at c r) \<and>
    (0 < t \<longrightarrow> 0 < t' \<and> t' \<le> t) \<and> (ms \<noteq> [] \<longrightarrow> 0 < t') \<and>
    (t' = t \<or> (\<exists>m\<in>set ms. \<exists>c. gm_get models m = Some c \<and> t' = due_at c r))"
  using assms
proof (induction ms arbitrary: t pd)
  case (Cons m ms)
  obtain c where c: "gm_get models m = Some c" "0 < due_at c r" using Cons.prems(1) [of m] by auto
  define t1 where "t1 = (if t = 0 \<or> due_at c r < t then due_at c r else t)"
  have t1: "0 < t1" "t1 \<le> due_at c r" "0 < t \<Longrightarrow> t1 \<le> t" "t1 = t \<or> t1 = due_at c r"
    using c(2) Cons.prems(2) by (auto simp: t1_def)
  have step: "blocked_walk models r (m # ms) (t, pd) =
      blocked_walk models r ms (t1, pd \<and> quotaPinnedForWith c r)"
    using c(1) by (simp add: t1_def due_at_def Let_def)
  obtain t' where t': "blocked_walk models r ms (t1, pd \<and> quotaPinnedForWith c r) =
      Some (t', (pd \<and> quotaPinnedForWith c r) \<and>
        (\<forall>m\<in>set ms. \<forall>c. gm_get models m = Some c \<longrightarrow> quotaPinnedForWith c r))"
      "\<forall>m\<in>set ms. \<forall>c. gm_get models m = Some c \<longrightarrow> t' \<le> due_at c r"
      "0 < t' \<and> t' \<le> t1" "t' = t1 \<or> (\<exists>m\<in>set ms. \<exists>c. gm_get models m = Some c \<and> t' = due_at c r)"
    using Cons.IH [of t1 "pd \<and> quotaPinnedForWith c r"] Cons.prems(1) t1(1) by auto
  show ?case
    using step t' t1 c(1) by (intro exI [of _ t']) auto
qed simp

text \<open>The range facts every open circuit of a running breaker has.\<close>

definition waits_bounded :: "CircuitBreaker \<Rightarrow> string \<Rightarrow> bool" where
  "waits_bounded cb p \<longleftrightarrow>
     list_all (\<lambda>(m, c). waits_ok c (cooldowns cb) \<and> (c_state c = StateOpen \<longrightarrow> 0 < c_openedAt c))
       (gm_inner (cb_circuits cb) p)"

lemma waits_boundedD:
  "waits_bounded cb p \<Longrightarrow> getCircuit cb p m = Some c \<Longrightarrow>
     waits_ok c (cooldowns cb) \<and> (c_state c = StateOpen \<longrightarrow> 0 < c_openedAt c)"
  by (auto simp: waits_bounded_def getCircuit_def list_all_iff dest: map_of_SomeD)

lemma circuit_waits_ok:
  assumes "circuit_ok mp c" "config_ok cb"
  shows "waits_ok c (cooldowns cb)"
  using assms config_reads_pos(1) [OF assms(2)]
  by (simp add: waits_ok_def circuit_ok_def config_ok_def unpinnedCooldownWith_def)

lemma breaker_waits_bounded:
  assumes "breaker_ok cb"
  shows "waits_bounded cb p"
proof -
  have "waits_ok c (cooldowns cb) \<and> (c_state c = StateOpen \<longrightarrow> 0 < c_openedAt c)"
    if "(m, c) \<in> set (gm_inner (cb_circuits cb) p)" for m c
  proof -
    have "getCircuit cb p m = Some c"
      using that breaker_wf_inner [OF breaker_okD(1) [OF assms], of p]
      by (simp add: getCircuit_def gm_mem_iff)
    then have "circuit_ok (cb_HalfOpenMaxProbes cb) c" using breaker_okD(3) [OF assms] by blast
    with circuit_waits_ok [OF this breaker_okD(2) [OF assms]] show ?thesis
      by (simp add: circuit_ok_def)
  qed
  then show ?thesis by (auto simp: waits_bounded_def list_all_iff)
qed

lemma is_blocked_until_due:
  assumes "waits_bounded cb p" "getCircuit cb p m = Some c" "c_state c = StateOpen"
  shows "is_blocked cb p m now \<longleftrightarrow> now < due_at c (cooldowns cb)"
  using waits_boundedD [OF assms(1,2)] assms(2,3)
  by (auto simp: is_blocked_def blocking_def dark_until_due)

text \<open>As time passes with nothing touching the breaker, the blocked set only shrinks, and it
  holds every circuit not yet due.\<close>

lemma verdict_until:
  assumes "breaker_wf cb" "provider_down cb p now"
    "\<And>m. is_blocked cb p m now \<Longrightarrow> is_blocked cb p m t"
  shows "provider_down cb p t"
proof -
  have pin: "is_account_pinned cb p m t" if "is_account_pinned cb p m now" for m
    using that assms(3) [OF account_pinned_blocked [OF that]]
    by (auto simp: is_account_pinned_iff is_blocked_iff)
  have "card {m. is_blocked cb p m now} \<le> card {m. is_blocked cb p m t}"
    using assms(3) by (intro card_mono blocked_finite) blast
  then show ?thesis
    using assms(2) pin unfolding provider_down_iff [OF assms(1)] by force
qed

lemma BlockedUntil_own:
  assumes "getCircuit cb p m = Some c" "blocking c (cooldowns cb) now"
  shows "BlockedUntil cb p m now =
    Some (due_at c (cooldowns cb), quotaPinnedForWith c (cooldowns cb), True)"
proof -
  have "gm_inner (cb_circuits cb) p \<noteq> []" using assms(1) by (auto simp: getCircuit_def)
  with assms show ?thesis by (simp add: BlockedUntil_def getCircuit_def due_at_def Let_def)
qed

definition sorted_blocked :: "CircuitBreaker \<Rightarrow> string \<Rightarrow> instant \<Rightarrow> string list" where
  "sorted_blocked cb p now = sort (blockedModels (gm_inner (cb_circuits cb) p) (cooldowns cb) now)"

lemma sorted_blocked_set:
  "breaker_wf cb \<Longrightarrow> m \<in> set (sorted_blocked cb p now) \<longleftrightarrow> is_blocked cb p m now"
  using blockedModels_set [OF breaker_wf_inner [of cb p]]
  by (simp add: sorted_blocked_def is_blocked_iff getCircuit_def)

lemma BlockedUntil_verdict:
  assumes "\<not> is_blocked cb p m now"
  shows "BlockedUntil cb p m now =
    (if \<not> provider_down cb p now \<or> sorted_blocked cb p now = [] then Some (0, False, False)
     else map_option (\<lambda>(t, q). (t, q, True))
       (blocked_walk (gm_inner (cb_circuits cb) p) (cooldowns cb) (sorted_blocked cb p now) (0, True)))"
proof (cases "gm_inner (cb_circuits cb) p = []")
  case True
  then show ?thesis
    by (simp add: BlockedUntil_def provider_down_def providerOpen_def)
next
  case False
  have v: "providerReport cb (gm_inner (cb_circuits cb) p) (cooldowns cb) now =
      (provider_down cb p now, sorted_blocked cb p now,
       \<exists>(m, c)\<in>set (gm_inner (cb_circuits cb) p). blocking c (cooldowns cb) now \<and>
         quotaPinnedForWith c (cooldowns cb))"
    by (simp add: providerReport_spec provider_down_def providerOpen_spec sorted_blocked_def)
  from assms False show ?thesis
    by (auto simp: BlockedUntil_def v is_blocked_def getCircuit_def Let_def split: option.splits)
qed

lemma provider_down_some_blocked:
  assumes "breaker_wf cb" "provider_down cb p now"
  shows "\<exists>m. is_blocked cb p m now"
proof (rule ccontr)
  assume none: "\<nexists>m. is_blocked cb p m now"
  then have "card {m. is_blocked cb p m now} = 0" by simp
  moreover have "\<nexists>m. is_account_pinned cb p m now" using none account_pinned_blocked by blast
  ultimately show False
    using assms effectiveSpan_ge_1 [of cb] by (simp add: provider_down_iff)
qed

lemma BlockedUntil_spec:
  assumes "breaker_wf cb" "waits_bounded cb p"
  shows "\<exists>t q ok. BlockedUntil cb p m now = Some (t, q, ok) \<and>
    (ok \<longleftrightarrow> is_blocked cb p m now \<or> provider_down cb p now) \<and>
    (ok \<longrightarrow> now < t \<and> (\<forall>t'. now \<le> t' \<longrightarrow> t' < t \<longrightarrow> is_blocked cb p m t' \<or> provider_down cb p t'))"
proof (cases "is_blocked cb p m now")
  case True
  then obtain c where c: "getCircuit cb p m = Some c" "blocking c (cooldowns cb) now"
    by (auto simp: is_blocked_iff)
  have "c_state c = StateOpen" using c(2) by (simp add: blocking_def)
  note due = is_blocked_until_due [OF assms(2) c(1) this]
  show ?thesis using BlockedUntil_own [OF c] True due by auto
next
  case False
  show ?thesis
  proof (cases "provider_down cb p now")
    case down: False
    with False BlockedUntil_verdict [OF False] show ?thesis by (intro exI [of _ False] exI [of _ 0]) simp
  next
    case down: True
    let ?ms = "sorted_blocked cb p now" and ?models = "gm_inner (cb_circuits cb) p"
    have ne: "?ms \<noteq> []"
      using provider_down_some_blocked [OF assms(1) down] sorted_blocked_set [OF assms(1)]
      by (metis list.set(1) empty_iff)
    have due: "\<exists>c. gm_get ?models m' = Some c \<and> c_state c = StateOpen \<and> now < due_at c (cooldowns cb) \<and>
        0 < due_at c (cooldowns cb)" if "m' \<in> set ?ms" for m'
    proof -
      have "is_blocked cb p m' now" using that assms(1) by (simp add: sorted_blocked_set)
      then obtain c where c: "getCircuit cb p m' = Some c" "blocking c (cooldowns cb) now"
        by (auto simp: is_blocked_iff)
      have o': "c_state c = StateOpen" using c(2) by (simp add: blocking_def)
      note w = waits_boundedD [OF assms(2) c(1)]
      have "0 < due_at c (cooldowns cb)"
        using w o' cooldown_range(1) [of c "cooldowns cb"] by (simp add: due_at_def time_add_def)
      with c o' is_blocked_until_due [OF assms(2) c(1) o', of now] \<open>is_blocked cb p m' now\<close>
      show ?thesis by (auto simp: getCircuit_def)
    qed
    have pre: "\<And>m'. m' \<in> set ?ms \<Longrightarrow> \<exists>c. gm_get ?models m' = Some c \<and> 0 < due_at c (cooldowns cb)"
      using due by blast
    from blocked_walk_spec [where models = ?models and r = "cooldowns cb" and ms = ?ms and t = 0
        and pd = True, OF pre order_refl]
    obtain t q where t: "blocked_walk ?models (cooldowns cb) ?ms (0, True) = Some (t, q)"
        "\<forall>m'\<in>set ?ms. \<forall>c. gm_get ?models m' = Some c \<longrightarrow> t \<le> due_at c (cooldowns cb)"
        "?ms \<noteq> [] \<longrightarrow> 0 < t"
        "t = 0 \<or> (\<exists>m'\<in>set ?ms. \<exists>c. gm_get ?models m' = Some c \<and> t = due_at c (cooldowns cb))"
      by auto
    have "now < t" using t(3,4) ne due by force
    moreover have "provider_down cb p t'" if t': "now \<le> t'" "t' < t" for t'
    proof (rule verdict_until [OF assms(1) down])
      fix m' assume b: "is_blocked cb p m' now"
      then have m': "m' \<in> set ?ms" using assms(1) by (simp add: sorted_blocked_set)
      obtain c where c: "getCircuit cb p m' = Some c" "c_state c = StateOpen"
        using due [OF m'] by (auto simp: getCircuit_def)
      have "t \<le> due_at c (cooldowns cb)" using t(2) m' c(1) by (simp add: getCircuit_def)
      with t' show "is_blocked cb p m' t'" using is_blocked_until_due [OF assms(2) c] by simp
    qed
    ultimately show ?thesis
      using BlockedUntil_verdict [OF False] down ne t(1) by auto
  qed
qed

end
