(* ===== verification/Quota_Poll.thy ===== *)
theory Quota_Poll
  imports Breaker_Waits
begin

text \<open>
  What the quota poller does to the breaker (\<open>internal/failover/circuit_quota.go\<close>): release the
  pins of recovered providers, release every pin, and apply fresh quota advice, which retargets
  open circuits, seeds one for a provider nothing holds dark and sweeps seeds that ran out.

  A \<open>range\<close> loop over a map that only writes or deletes the entry it is visiting is a fold over
  the keys the map had when the loop began; an inner map is a reference, so the loop sees its
  current entries. The draws of a pass are a function of the circuit they
  are made for. Two interfaces carry the proofs: \<open>circuit_walk\<close> for a loop over one provider's
  circuits and \<open>provider_walk\<close> for a loop over providers.
\<close>

definition seededModel :: string where "seededModel = ''(account quota)''"

subsection \<open>Releasing pins\<close>

definition releasePin ::
  "afterUnlock \<Rightarrow> string \<Rightarrow> string \<Rightarrow> string \<Rightarrow> circuit \<Rightarrow> cooldownReads \<Rightarrow> instant \<Rightarrow>
     circuit \<times> afterUnlock" where
  "releasePin after reason providerID model c r now =
     (let c = c\<lparr>c_cooldownOverride := 0, c_pinSource := ''''\<rparr>;
          c = circuit_note c now \<lparr>cause_Status = c_lastStatus c, cause_Reason = reason\<rparr>
      in (c, after_add after
            (LogInfo (''circuit-breaker: '' @ reason)
               [(''provider_id'', AStr providerID),
                (''state'', AStr (State_String (logicalStateWith c r now))),
                (''cooldown_ms'', AInt (milliseconds_of (unpinnedCooldownWith c r))),
                (''model'', AStr model)])))"

definition retireIfSeeded :: "CircuitBreaker \<Rightarrow> string \<Rightarrow> string \<Rightarrow> CircuitBreaker" where
  "retireIfSeeded cb pid model = (if model \<noteq> seededModel then cb else dropCircuit cb pid model)"

type_synonym pass_state = "CircuitBreaker \<times> afterUnlock \<times> nat"

definition release_visit ::
  "cooldownReads \<Rightarrow> instant \<Rightarrow> string \<Rightarrow> string \<times> circuit \<Rightarrow> pass_state \<Rightarrow> pass_state" where
  "release_visit r now pid mc s =
     (let (model, c) = mc; (cb, after, released) = s; c = clear429Escalation c
      in if c_cooldownOverride c = 0 \<or> \<not> pinSpeaksForAccount (c_pinSource c)
         then (setCircuit cb pid model c, after, released)
         else
           (let (c, after) = releasePin after causePinReleasedQuota pid model c r now
            in (retireIfSeeded (setCircuit cb pid model c) pid model, after, released + 1)))"

definition ReleaseQuotaPins :: "CircuitBreaker \<Rightarrow> string list \<Rightarrow> instant \<Rightarrow> pass_state" where
  "ReleaseQuotaPins cb recovered now =
     (let r = cooldowns cb
      in fold (\<lambda>pid s. fold (release_visit r now pid) (gm_inner (cb_circuits (fst s)) pid) s)
           recovered (cb, [], 0))"

definition releaseAll_visit ::
  "cooldownReads \<Rightarrow> instant \<Rightarrow> string \<Rightarrow> string \<times> circuit \<Rightarrow> pass_state \<Rightarrow> pass_state" where
  "releaseAll_visit r now pid mc s =
     (let (model, c) = mc; (cb, after, released) = s
      in if c_cooldownOverride c = 0 then (cb, after, released)
         else
           (let (c, after) = releasePin after causePinReleasedOff pid model c r now
            in (retireIfSeeded (setCircuit cb pid model c) pid model, after, released + 1)))"

definition ReleaseAllQuotaPins :: "CircuitBreaker \<Rightarrow> instant \<Rightarrow> pass_state" where
  "ReleaseAllQuotaPins cb now =
     (let r = cooldowns cb
      in fold (\<lambda>pid s. fold (releaseAll_visit r now pid) (gm_inner (cb_circuits (fst s)) pid) s)
           (map fst (cb_circuits cb)) (cb, [], 0))"

subsection \<open>Applying advice\<close>

definition sweepExpiredSeeds :: "CircuitBreaker \<Rightarrow> instant \<Rightarrow> CircuitBreaker" where
  "sweepExpiredSeeds cb now =
     (let r = cooldowns cb
      in fold (\<lambda>pid cb.
                 case gm_get (gm_inner (cb_circuits cb) pid) seededModel of
                   None \<Rightarrow> cb
                 | Some c \<Rightarrow> if \<not> blocking c r now then retireIfSeeded cb pid seededModel else cb)
           (map fst (cb_circuits cb)) cb)"

definition seedQuotaPin ::
  "CircuitBreaker \<Rightarrow> afterUnlock \<Rightarrow> string \<Rightarrow> QuotaAdvice \<Rightarrow> duration \<Rightarrow> cooldownReads \<Rightarrow> rng \<Rightarrow>
     instant \<Rightarrow> CircuitBreaker \<times> afterUnlock \<times> bool" where
  "seedQuotaPin cb after pid adv maxPin r g now =
     (if accountPinned (gm_inner (cb_circuits cb) pid) r now then (cb, after, False)
      else
        (case clampPin (time_sub (adv_ResetsAt adv) now) maxPin (r_base r) g of
           None \<Rightarrow> (cb, after, False)
         | Some d \<Rightarrow>
             (let (cb, c) = getOrCreate cb pid seededModel now;
                  c = c\<lparr>c_state := StateOpen, c_openedAt := now,
                        c_consecutiveFails := effectiveThreshold cb, c_cooldownOverride := d,
                        c_pinSource := advisorPinSource adv, c_probeSeed := rng_Float64 g\<rparr>;
                  c = circuit_note c now \<lparr>cause_Status = 0, cause_Reason = causeSeeded\<rparr>;
                  verdict = (if adv_Reserved adv then ''reserve reached'' else ''exhausted'')
              in (setCircuit cb pid seededModel c,
                  after_add after
                    (LogInfo (''circuit-breaker: model state=closed'' @ arrow @ ''open ('' @ verdict @
                              '', seeded from quota advice)'')
                       [(''provider_id'', AStr pid), (''cooldown_ms'', AInt (milliseconds_of d)),
                        (''model'', AStr seededModel)]),
                  True))))"

definition retarget_visit ::
  "duration \<Rightarrow> cooldownReads \<Rightarrow> QuotaAdvice \<Rightarrow> instant \<Rightarrow> (string \<Rightarrow> rng) \<Rightarrow> string \<Rightarrow> string \<times> circuit \<Rightarrow>
     pass_state \<Rightarrow> pass_state" where
  "retarget_visit maxPin r adv now g pid mc s =
     (let (model, c) = mc; (cb, after, changed) = s
      in if logicalStateWith c r now \<noteq> StateOpen then s
         else
           (case clampPin (time_sub (adv_ResetsAt adv) (c_openedAt c)) maxPin
                   (effectiveCooldownForWith c r) (g model) of
              None \<Rightarrow>
                if c_cooldownOverride c > 0 \<and>
                   (c_pinSource c = pinSourceAdvisor \<or> c_pinSource c = pinSourceReserve)
                then (setCircuit cb pid model (c\<lparr>c_pinSource := advisorPinSource adv\<rparr>), after, changed)
                else s
            | Some d \<Rightarrow>
                (let c = c\<lparr>c_cooldownOverride := d, c_pinSource := advisorPinSource adv\<rparr>;
                     c = circuit_note c now
                           \<lparr>cause_Status = c_lastStatus c, cause_Reason = causePinRetargeted\<rparr>
                 in (setCircuit cb pid model c,
                     after_add after
                       (LogInfo ''circuit-breaker: quota pin retargeted (fresh exhaustion reading)''
                          [(''provider_id'', AStr pid), (''cooldown_ms'', AInt (milliseconds_of d)),
                           (''model'', AStr model)]),
                     changed + 1))))"

definition apply_pass ::
  "string gomap \<Rightarrow> duration \<Rightarrow> cooldownReads \<Rightarrow> (string \<Rightarrow> string \<Rightarrow> rng) \<Rightarrow> (string \<Rightarrow> rng) \<Rightarrow> instant \<Rightarrow>
     string \<times> QuotaAdvice \<Rightarrow> pass_state \<Rightarrow> pass_state" where
  "apply_pass names maxPin r g gseed now pa s =
     (let (pid, adv) = pa;
          (cb, after, changed) =
            fold (retarget_visit maxPin r adv now (g pid) pid) (gm_inner (cb_circuits (fst s)) pid) s;
          (cb, after, seeded) = seedQuotaPin cb after pid adv maxPin r (gseed pid) now;
          changed = (if seeded then changed + 1 else changed);
          name = (case gm_get names pid of None \<Rightarrow> '''' | Some n \<Rightarrow> n);
          cb = (if name \<noteq> '''' \<and> gm_inner (cb_circuits cb) pid \<noteq> [] then setName cb pid name else cb)
      in (cb, after, changed))"

definition ApplyQuotaPins ::
  "CircuitBreaker \<Rightarrow> QuotaAdvice gomap \<Rightarrow> string gomap \<Rightarrow> (string \<Rightarrow> string \<Rightarrow> rng) \<Rightarrow> (string \<Rightarrow> rng) \<Rightarrow>
     instant \<Rightarrow> pass_state" where
  "ApplyQuotaPins cb advice names g gseed now =
     (let cb = sweepExpiredSeeds cb now
      in if advice = [] \<or> \<not> quotaPinEnabled cb then (cb, [], 0)
         else fold (apply_pass names (quotaPinMax cb) (cooldowns cb) g gseed now) advice (cb, [], 0))"

subsection \<open>Removing a circuit\<close>

lemma dropCircuit_get:
  assumes "breaker_wf cb"
  shows "getCircuit (dropCircuit cb p m) p' m' =
    (if p' = p \<and> m' = m then None else getCircuit cb p' m')"
proof (cases "gm_del m (gm_inner (cb_circuits cb) p) = []")
  case True
  then have "gm_get (gm_inner (cb_circuits cb) p) m'' = None" if "m'' \<noteq> m" for m''
    using gm_get_del [of m "gm_inner (cb_circuits cb) p" m''] that by simp
  with True show ?thesis by (simp add: dropCircuit_def getCircuit_def)
next
  case False
  then show ?thesis by (simp add: dropCircuit_def getCircuit_def)
qed

lemma dropCircuit_wf:
  assumes "breaker_wf cb"
  shows "breaker_wf (dropCircuit cb p m)"
proof (rule breaker_wfI)
  fix q ms assume "gm_get (cb_circuits (dropCircuit cb p m)) q = Some ms"
  then show "gm_wf ms \<and> ms \<noteq> []"
    using breaker_wfD(3) [OF assms, of q] breaker_wf_inner [OF assms, of p]
    by (auto simp: dropCircuit_def Let_def split: if_splits)
next
  fix q n assume "gm_get (cb_names (dropCircuit cb p m)) q = Some n"
  then show "gm_get (cb_circuits (dropCircuit cb p m)) q \<noteq> None"
    using breaker_wfD(4) [OF assms, of q] by (auto simp: dropCircuit_def Let_def split: if_splits)
qed (use breaker_wfD [OF assms] in \<open>auto simp: dropCircuit_def Let_def\<close>)

lemma dropCircuit_config [simp]: "same_config (dropCircuit cb p m) cb' = same_config cb cb'"
  by (simp add: dropCircuit_def same_config_def Let_def)

lemma retire_get:
  assumes "breaker_wf cb"
  shows "getCircuit (retireIfSeeded cb p m) p' m' =
    (if p' = p \<and> m' = m \<and> m = seededModel then None else getCircuit cb p' m')"
  using dropCircuit_get [OF assms] by (simp add: retireIfSeeded_def)

lemma retire_wf: "breaker_wf cb \<Longrightarrow> breaker_wf (retireIfSeeded cb p m)"
  by (simp add: retireIfSeeded_def dropCircuit_wf)

lemma retire_config [simp]: "same_config (retireIfSeeded cb p m) cb' = same_config cb cb'"
  by (simp add: retireIfSeeded_def)

subsection \<open>A loop over one provider's circuits\<close>

locale circuit_walk =
  fixes visit :: "string \<times> circuit \<Rightarrow> CircuitBreaker \<times> 'a \<Rightarrow> CircuitBreaker \<times> 'a"
    and pid :: string and result :: "string \<Rightarrow> circuit \<Rightarrow> circuit option"
  assumes visit_config: "same_config (fst (visit x s)) (fst s)"
    and visit_wf: "breaker_wf (fst s) \<Longrightarrow> breaker_wf (fst (visit x s))"
    and visit_other: "breaker_wf (fst s) \<Longrightarrow> (p', m') \<noteq> (pid, fst x) \<Longrightarrow>
      getCircuit (fst (visit x s)) p' m' = getCircuit (fst s) p' m'"
    and visit_self: "breaker_wf (fst s) \<Longrightarrow> getCircuit (fst s) pid (fst x) = Some (snd x) \<Longrightarrow>
      getCircuit (fst (visit x s)) pid (fst x) = result (fst x) (snd x)"
begin

lemma walk_config: "same_config (fst (fold visit xs s)) (fst s)"
proof (induction xs arbitrary: s)
  case (Cons x xs)
  show ?case using same_config_trans [OF Cons.IH [of "visit x s"] visit_config] by simp
qed simp

lemma walk_wf: "breaker_wf (fst s) \<Longrightarrow> breaker_wf (fst (fold visit xs s))"
proof (induction xs arbitrary: s)
  case (Cons x xs)
  show ?case using Cons.IH [OF visit_wf [OF Cons.prems]] by simp
qed simp

lemma walk_get:
  assumes "breaker_wf (fst s)" "distinct (map fst xs)"
    "\<And>m c. (m, c) \<in> set xs \<Longrightarrow> getCircuit (fst s) pid m = Some c"
  shows "getCircuit (fst (fold visit xs s)) p' m' =
    (if p' = pid then (case map_of xs m' of Some c \<Rightarrow> result m' c | None \<Rightarrow> getCircuit (fst s) p' m')
     else getCircuit (fst s) p' m')"
  using assms
proof (induction xs arbitrary: s)
  case (Cons x xs)
  obtain m c where x: "x = (m, c)" by (cases x)
  let ?s = "visit x s"
  have other: "getCircuit (fst ?s) p m'' = getCircuit (fst s) p m''" if "(p, m'') \<noteq> (pid, m)" for p m''
    using visit_other [OF Cons.prems(1), of p m'' x] that x by simp
  have self: "getCircuit (fst ?s) pid m = result m c"
    using visit_self [OF Cons.prems(1), of x] Cons.prems(3) x by simp
  have "getCircuit (fst ?s) pid m'' = Some d" if "(m'', d) \<in> set xs" for m'' d
  proof -
    have "m'' \<noteq> m" using that Cons.prems(2) x by force
    then show ?thesis using other Cons.prems(3) that by simp
  qed
  then have ih: "getCircuit (fst (fold visit xs ?s)) p' m' =
      (if p' = pid then (case map_of xs m' of Some c \<Rightarrow> result m' c | None \<Rightarrow> getCircuit (fst ?s) p' m')
       else getCircuit (fst ?s) p' m')"
    using Cons.IH [of ?s] Cons.prems(1,2) visit_wf by simp
  show ?case
  proof (cases "p' = pid \<and> m' = m")
    case True
    moreover have "map_of xs m = None" using Cons.prems(2) x by (simp add: map_of_eq_None_iff)
    ultimately show ?thesis using ih self x by simp
  next
    case False
    then show ?thesis using ih other [of p' m'] x by (auto split: option.split)
  qed
qed simp

text \<open>The loop over the provider's own bucket.\<close>

lemma bucket_walk:
  assumes "breaker_wf (fst s)"
  shows "getCircuit (fst (fold visit (gm_inner (cb_circuits (fst s)) pid) s)) p' m' =
    (if p' = pid then Option.bind (getCircuit (fst s) pid m') (result m') else getCircuit (fst s) p' m')"
proof -
  let ?xs = "gm_inner (cb_circuits (fst s)) pid"
  have wf: "gm_wf ?xs" using assms by (rule breaker_wf_inner)
  have "getCircuit (fst s) pid m = Some c" if "(m, c) \<in> set ?xs" for m c
    using that wf by (simp add: getCircuit_def gm_mem_iff)
  from walk_get [OF assms _ this, of ?xs p' m'] wf show ?thesis
    by (auto simp: gm_wf_def getCircuit_def split: option.split)
qed

end

subsection \<open>A loop over providers\<close>

locale provider_walk =
  fixes pass :: "'x \<Rightarrow> 's \<Rightarrow> 's" and view :: "'s \<Rightarrow> CircuitBreaker" and key :: "'x \<Rightarrow> string"
    and cfg :: CircuitBreaker
    and post :: "'x \<Rightarrow> (string \<Rightarrow> circuit option) \<Rightarrow> (string \<Rightarrow> circuit option) \<Rightarrow> bool"
  assumes pass_config: "same_config (view (pass x s)) (view s)"
    and pass_wf: "breaker_wf (view s) \<Longrightarrow> breaker_wf (view (pass x s))"
    and pass_other: "breaker_wf (view s) \<Longrightarrow> p \<noteq> key x \<Longrightarrow>
      getCircuit (view (pass x s)) p = getCircuit (view s) p"
    and pass_self: "breaker_wf (view s) \<Longrightarrow> same_config (view s) cfg \<Longrightarrow>
      post x (getCircuit (view s) (key x)) (getCircuit (view (pass x s)) (key x))"
begin

lemma walk_config: "same_config (view (fold pass xs s)) (view s)"
proof (induction xs arbitrary: s)
  case (Cons x xs)
  show ?case using same_config_trans [OF Cons.IH [of "pass x s"] pass_config] by simp
qed simp

lemma walk_wf: "breaker_wf (view s) \<Longrightarrow> breaker_wf (view (fold pass xs s))"
proof (induction xs arbitrary: s)
  case (Cons x xs)
  show ?case using Cons.IH [OF pass_wf [OF Cons.prems]] by simp
qed simp

lemma walk_other:
  "breaker_wf (view s) \<Longrightarrow> p \<notin> key ` set xs \<Longrightarrow>
     getCircuit (view (fold pass xs s)) p = getCircuit (view s) p"
  by (induction xs arbitrary: s) (auto simp: pass_wf pass_other)

lemma walk_self:
  assumes "breaker_wf (view s)" "same_config (view s) cfg" "distinct (map key xs)" "x \<in> set xs"
  shows "post x (getCircuit (view s) (key x)) (getCircuit (view (fold pass xs s)) (key x))"
  using assms
proof (induction xs arbitrary: s)
  case (Cons y xs)
  let ?s = "pass y s"
  have wf: "breaker_wf (view ?s)" using Cons.prems(1) by (rule pass_wf)
  have cfg: "same_config (view ?s) cfg" using pass_config Cons.prems(2) by (rule same_config_trans)
  show ?case
  proof (cases "x = y")
    case True
    with Cons.prems(3) have "key x \<notin> key ` set xs" by auto
    then show ?thesis
      using True pass_self [OF Cons.prems(1,2), of y] walk_other [OF wf] by simp
  next
    case False
    with Cons.prems have "x \<in> set xs" "key x \<noteq> key y" by (auto simp: image_iff)
    then show ?thesis
      using Cons.IH [OF wf cfg] Cons.prems(1,3) pass_other [of s "key x" y] by simp
  qed
qed simp

end

end
