(* ===== verification/Quota_Passes.thy ===== *)
theory Quota_Passes
  imports Quota_Poll
begin

text \<open>
  What the quota poller's passes leave: the walks of \<open>Quota_Poll\<close> interpreted on its loops, and
  the circuit each loop leaves for each circuit it found.
\<close>

subsection \<open>The circuit each visit leaves\<close>

definition unpinned :: "string \<Rightarrow> circuit \<Rightarrow> instant \<Rightarrow> circuit" where
  "unpinned reason c now =
     circuit_note (c\<lparr>c_cooldownOverride := 0, c_pinSource := ''''\<rparr>) now
       \<lparr>cause_Status = c_lastStatus c, cause_Reason = reason\<rparr>"

definition release_result :: "instant \<Rightarrow> string \<Rightarrow> circuit \<Rightarrow> circuit option" where
  "release_result now m c =
     (if c_cooldownOverride c = 0 \<or> \<not> pinSpeaksForAccount (c_pinSource c)
      then Some (clear429Escalation c)
      else if m = seededModel then None
      else Some (unpinned causePinReleasedQuota (clear429Escalation c) now))"

definition releaseAll_result :: "instant \<Rightarrow> string \<Rightarrow> circuit \<Rightarrow> circuit option" where
  "releaseAll_result now m c =
     (if c_cooldownOverride c = 0 then Some c
      else if m = seededModel then None else Some (unpinned causePinReleasedOff c now))"

definition retarget_result ::
  "duration \<Rightarrow> cooldownReads \<Rightarrow> QuotaAdvice \<Rightarrow> instant \<Rightarrow> (string \<Rightarrow> rng) \<Rightarrow> string \<Rightarrow> circuit \<Rightarrow> circuit" where
  "retarget_result maxPin r adv now g m c =
     (if logicalStateWith c r now \<noteq> StateOpen then c
      else
        (case clampPin (time_sub (adv_ResetsAt adv) (c_openedAt c)) maxPin
                (effectiveCooldownForWith c r) (g m) of
           None \<Rightarrow>
             if c_cooldownOverride c > 0 \<and>
                (c_pinSource c = pinSourceAdvisor \<or> c_pinSource c = pinSourceReserve)
             then c\<lparr>c_pinSource := advisorPinSource adv\<rparr> else c
         | Some d \<Rightarrow>
             circuit_note (c\<lparr>c_cooldownOverride := d, c_pinSource := advisorPinSource adv\<rparr>) now
               \<lparr>cause_Status = c_lastStatus c, cause_Reason = causePinRetargeted\<rparr>))"

lemma release_visit_fst:
  "fst (release_visit r now pid (m, c) s) =
     (if c_cooldownOverride c = 0 \<or> \<not> pinSpeaksForAccount (c_pinSource c)
      then setCircuit (fst s) pid m (clear429Escalation c)
      else retireIfSeeded
        (setCircuit (fst s) pid m (unpinned causePinReleasedQuota (clear429Escalation c) now)) pid m)"
  by (cases s) (simp add: release_visit_def releasePin_def unpinned_def clear429Escalation_def Let_def)

lemma releaseAll_visit_fst:
  "fst (releaseAll_visit r now pid (m, c) s) =
     (if c_cooldownOverride c = 0 then fst s
      else retireIfSeeded (setCircuit (fst s) pid m (unpinned causePinReleasedOff c now)) pid m)"
  by (cases s) (simp add: releaseAll_visit_def releasePin_def unpinned_def Let_def)

lemma clear429_fields [simp]:
  "c_cooldownOverride (clear429Escalation c) = c_cooldownOverride c"
  "c_pinSource (clear429Escalation c) = c_pinSource c"
  "c_state (clear429Escalation c) = c_state c"
  "c_lastStatus (clear429Escalation c) = c_lastStatus c"
  by (simp_all add: clear429Escalation_def)

text \<open>A visit is a store of one circuit or its removal.\<close>

definition store_or_drop ::
  "CircuitBreaker \<Rightarrow> string \<Rightarrow> string \<Rightarrow> circuit \<Rightarrow> circuit option \<Rightarrow> CircuitBreaker \<Rightarrow> bool" where
  "store_or_drop cb p m c res cb' \<longleftrightarrow>
     (case res of
        None \<Rightarrow> m = seededModel \<and> (\<exists>d. cb' = retireIfSeeded (setCircuit cb p m d) p m)
      | Some d \<Rightarrow> cb' = setCircuit cb p m d \<or> (d = c \<and> cb' = cb))"

lemma store_or_drop_facts:
  assumes "store_or_drop cb p m c res cb'"
  shows "same_config cb' cb"
    and "breaker_wf cb \<Longrightarrow> breaker_wf cb'"
    and "breaker_wf cb \<Longrightarrow> (p', m') \<noteq> (p, m) \<Longrightarrow> getCircuit cb' p' m' = getCircuit cb p' m'"
    and "breaker_wf cb \<Longrightarrow> getCircuit cb p m = Some c \<Longrightarrow> getCircuit cb' p m = res"
  using assms
  by (auto simp: store_or_drop_def setCircuit_wf retire_wf retire_get getCircuit_set
      split: option.splits)

lemma circuit_walkI:
  assumes "\<And>x s. store_or_drop (fst s) pid (fst x) (snd x) (result (fst x) (snd x)) (fst (visit x s))"
  shows "circuit_walk visit pid result"
  by unfold_locales (use store_or_drop_facts [OF assms] in blast)+

lemma release_visit_effect:
  "store_or_drop (fst s) pid (fst x) (snd x) (release_result now (fst x) (snd x))
     (fst (release_visit r now pid x s))"
  by (cases x) (auto simp: release_visit_fst release_result_def store_or_drop_def retireIfSeeded_def)

lemma releaseAll_visit_effect:
  "store_or_drop (fst s) pid (fst x) (snd x) (releaseAll_result now (fst x) (snd x))
     (fst (releaseAll_visit r now pid x s))"
  by (cases x) (auto simp: releaseAll_visit_fst releaseAll_result_def store_or_drop_def retireIfSeeded_def)

lemma retarget_visit_effect:
  "store_or_drop (fst s) pid (fst x) (snd x) (Some (retarget_result maxPin r adv now g (fst x) (snd x)))
     (fst (retarget_visit maxPin r adv now g pid x s))"
  by (cases x; cases s)
    (auto simp: retarget_visit_def retarget_result_def store_or_drop_def Let_def split: option.split)

interpretation release_walk: circuit_walk "release_visit r now pid" pid "release_result now"
  for r now pid
  by (rule circuit_walkI) (rule release_visit_effect)

interpretation releaseAll_walk: circuit_walk "releaseAll_visit r now pid" pid "releaseAll_result now"
  for r now pid
  by (rule circuit_walkI) (rule releaseAll_visit_effect)

interpretation retarget_walk: circuit_walk "retarget_visit maxPin r adv now g pid" pid
    "\<lambda>m c. Some (retarget_result maxPin r adv now g m c)"
  for maxPin r adv now g pid
  by (rule circuit_walkI) (rule retarget_visit_effect)

subsection \<open>Releases\<close>

interpretation release_pass: provider_walk
    "\<lambda>pid s. fold (release_visit r now pid) (gm_inner (cb_circuits (fst s)) pid) s" fst "\<lambda>p. p" cfg
    "\<lambda>p before after. \<forall>m. after m = Option.bind (before m) (release_result now m)"
  for r now cfg
  by unfold_locales
    (auto simp: release_walk.bucket_walk fun_eq_iff intro: release_walk.walk_config release_walk.walk_wf)

interpretation releaseAll_pass: provider_walk
    "\<lambda>pid s. fold (releaseAll_visit r now pid) (gm_inner (cb_circuits (fst s)) pid) s" fst "\<lambda>p. p" cfg
    "\<lambda>p before after. \<forall>m. after m = Option.bind (before m) (releaseAll_result now m)"
  for r now cfg
  by unfold_locales
    (auto simp: releaseAll_walk.bucket_walk fun_eq_iff
      intro: releaseAll_walk.walk_config releaseAll_walk.walk_wf)

lemma Release_get:
  assumes "breaker_wf cb" "distinct recovered"
  shows "getCircuit (fst (ReleaseQuotaPins cb recovered now)) p m =
    (if p \<in> set recovered then Option.bind (getCircuit cb p m) (release_result now m)
     else getCircuit cb p m)"
  using release_pass.walk_self [of "(cb, [], 0)" cb recovered p "cooldowns cb" now]
    release_pass.walk_other [of "(cb, [], 0)" p recovered "cooldowns cb" now] assms
  by (simp add: ReleaseQuotaPins_def Let_def)

lemma Release_wf: "breaker_wf cb \<Longrightarrow> breaker_wf (fst (ReleaseQuotaPins cb recovered now))"
  using release_pass.walk_wf [of "(cb, [], 0)"] by (simp add: ReleaseQuotaPins_def Let_def)

lemma Release_config [simp]: "same_config (fst (ReleaseQuotaPins cb recovered now)) cb"
  using release_pass.walk_config [of "cooldowns cb" now recovered "(cb, [], 0)"]
  by (simp add: ReleaseQuotaPins_def Let_def)

lemma getCircuit_untracked: "p \<notin> fst ` set (cb_circuits cb) \<Longrightarrow> getCircuit cb p m = None"
  by (simp add: getCircuit_def gm_inner_def map_of_eq_None_iff [symmetric] split: option.split)

lemma ReleaseAll_get:
  assumes "breaker_wf cb"
  shows "getCircuit (fst (ReleaseAllQuotaPins cb now)) p m =
    Option.bind (getCircuit cb p m) (releaseAll_result now m)"
proof -
  let ?ps = "map fst (cb_circuits cb)"
  have d: "distinct ?ps" using breaker_wfD(1) [OF assms] by (simp add: gm_wf_def)
  show ?thesis
  proof (cases "p \<in> set ?ps")
    case True
    with releaseAll_pass.walk_self [of "(cb, [], 0)" cb ?ps p "cooldowns cb" now] assms d
    show ?thesis by (simp add: ReleaseAllQuotaPins_def Let_def)
  next
    case False
    with releaseAll_pass.walk_other [of "(cb, [], 0)" p ?ps "cooldowns cb" now] assms
    show ?thesis by (simp add: ReleaseAllQuotaPins_def Let_def getCircuit_untracked)
  qed
qed

lemma ReleaseAll_wf: "breaker_wf cb \<Longrightarrow> breaker_wf (fst (ReleaseAllQuotaPins cb now))"
  using releaseAll_pass.walk_wf [of "(cb, [], 0)"] by (simp add: ReleaseAllQuotaPins_def Let_def)

lemma ReleaseAll_config [simp]: "same_config (fst (ReleaseAllQuotaPins cb now)) cb"
  using releaseAll_pass.walk_config [of "cooldowns cb" now "map fst (cb_circuits cb)" "(cb, [], 0)"]
  by (simp add: ReleaseAllQuotaPins_def Let_def)

end
