(* ===== verification/Quota_Advice.thy ===== *)
theory Quota_Advice
  imports Quota_Passes
begin

text \<open>
  What \<open>ApplyQuotaPins\<close> leaves. The sweep removes seeded circuits that block nothing; for an
  advised provider every open circuit waits at least as long as before, and when the advice
  names a future reset the provider is down afterwards.
\<close>

subsection \<open>The sweep\<close>

definition sweep_result :: "cooldownReads \<Rightarrow> instant \<Rightarrow> string \<Rightarrow> circuit \<Rightarrow> circuit option" where
  "sweep_result r now m c = (if m = seededModel \<and> \<not> blocking c r now then None else Some c)"

lemma bind_sweep_other: "m \<noteq> seededModel \<Longrightarrow> Option.bind x (sweep_result r now m) = x"
  by (cases x) (simp_all add: sweep_result_def)

interpretation sweep_pass: provider_walk
    "\<lambda>pid cb. case gm_get (gm_inner (cb_circuits cb) pid) seededModel of
        None \<Rightarrow> cb
      | Some c \<Rightarrow> if \<not> blocking c r now then retireIfSeeded cb pid seededModel else cb"
    "\<lambda>cb. cb" "\<lambda>p. p" cfg
    "\<lambda>p before after. \<forall>m. after m = Option.bind (before m) (sweep_result r now m)"
  for r now cfg
proof (unfold_locales, goal_cases)
  case (1 x s)
  then show ?case by (simp split: option.split)
next
  case (2 s x)
  then show ?case by (simp add: retire_wf split: option.split)
next
  case (3 s p x)
  then show ?case by (simp add: retire_get fun_eq_iff split: option.split)
next
  case (4 s x)
  show ?case
  proof
    fix m
    show "getCircuit (case gm_get (gm_inner (cb_circuits s) x) seededModel of None \<Rightarrow> s
        | Some c \<Rightarrow> if \<not> blocking c r now then retireIfSeeded s x seededModel else s) x m =
      Option.bind (getCircuit s x m) (sweep_result r now m)"
      by (cases "m = seededModel")
        (simp_all add: retire_get [OF 4(1)] bind_sweep_other getCircuit_def [symmetric] sweep_result_def
          split: option.split)
  qed
qed

lemma sweep_get:
  assumes "breaker_wf cb"
  shows "getCircuit (sweepExpiredSeeds cb now) p m =
    Option.bind (getCircuit cb p m) (sweep_result (cooldowns cb) now m)"
proof -
  let ?ps = "map fst (cb_circuits cb)"
  have d: "distinct ?ps" using breaker_wfD(1) [OF assms] by (simp add: gm_wf_def)
  show ?thesis
  proof (cases "p \<in> set ?ps")
    case True
    with sweep_pass.walk_self [of cb cb ?ps p "cooldowns cb" now] assms d
    show ?thesis by (simp add: sweepExpiredSeeds_def Let_def)
  next
    case False
    with sweep_pass.walk_other [of cb p ?ps "cooldowns cb" now] assms
    show ?thesis by (simp add: sweepExpiredSeeds_def Let_def getCircuit_untracked)
  qed
qed

lemma sweep_wf: "breaker_wf cb \<Longrightarrow> breaker_wf (sweepExpiredSeeds cb now)"
  using sweep_pass.walk_wf [of cb] by (simp add: sweepExpiredSeeds_def Let_def)

lemma sweep_config [simp]: "same_config (sweepExpiredSeeds cb now) cb"
  using sweep_pass.walk_config [of "cooldowns cb" now "map fst (cb_circuits cb)" cb]
  by (simp add: sweepExpiredSeeds_def Let_def)

subsection \<open>Seeding\<close>

definition seed_result ::
  "int \<Rightarrow> QuotaAdvice \<Rightarrow> duration \<Rightarrow> rng \<Rightarrow> instant \<Rightarrow> circuit \<Rightarrow> circuit" where
  "seed_result thr adv d g now c =
     circuit_note (c\<lparr>c_state := StateOpen, c_openedAt := now, c_consecutiveFails := thr,
       c_cooldownOverride := d, c_pinSource := advisorPinSource adv, c_probeSeed := rng_Float64 g\<rparr>) now
       \<lparr>cause_Status = 0, cause_Reason = causeSeeded\<rparr>"

lemma seed_cases:
  assumes "s = seedQuotaPin cb after p adv maxPin r g now"
  obtains (pinned) "accountPinned (gm_inner (cb_circuits cb) p) r now" "fst s = cb"
  | (late) "clampPin (time_sub (adv_ResetsAt adv) now) maxPin (r_base r) g = None" "fst s = cb"
  | (seed) d where "clampPin (time_sub (adv_ResetsAt adv) now) maxPin (r_base r) g = Some d"
      "\<not> accountPinned (gm_inner (cb_circuits cb) p) r now"
      "fst s = setCircuit (fst (getOrCreate cb p seededModel now)) p seededModel
         (seed_result (effectiveThreshold cb) adv d g now (circuit_at cb p seededModel))"
proof (cases "accountPinned (gm_inner (cb_circuits cb) p) r now")
  case True
  then show ?thesis using pinned assms by (simp add: seedQuotaPin_def)
next
  case no: False
  show ?thesis
  proof (cases "clampPin (time_sub (adv_ResetsAt adv) now) maxPin (r_base r) g")
    case None
    with no show ?thesis using late assms by (simp add: seedQuotaPin_def)
  next
    case (Some d)
    obtain cb1 c1 where gc: "getOrCreate cb p seededModel now = (cb1, c1)" by fastforce
    have c1: "c1 = circuit_at cb p seededModel"
      using getOrCreate_circuit [of cb p seededModel now] gc by (simp add: circuit_at_def)
    have thr: "effectiveThreshold cb1 = effectiveThreshold cb"
      using reads_getOrCreate(1) [of cb p seededModel now] gc by simp
    have "fst s = setCircuit (fst (getOrCreate cb p seededModel now)) p seededModel
        (seed_result (effectiveThreshold cb) adv d g now (circuit_at cb p seededModel))"
      using no Some by (simp add: assms seedQuotaPin_def gc thr c1 [symmetric] seed_result_def Let_def)
    with no Some show ?thesis using seed by blast
  qed
qed

lemma create_facts:
  assumes "breaker_wf cb"
    "cb' = setCircuit (fst (getOrCreate cb p m now)) p m c"
  shows "breaker_wf cb'" "same_config cb' cb" "getCircuit cb' p m = Some c"
    "p' \<noteq> p \<Longrightarrow> getCircuit cb' p' = getCircuit cb p'"
    "m' \<noteq> m \<Longrightarrow> getCircuit cb' p m' = getCircuit cb p m' \<or>
       (getCircuit cb' p m' = None \<and> (\<exists>d. getCircuit cb p m' = Some d \<and> c_state d = StateClosed))"
proof -
  let ?ms = "gm_inner (cb_circuits cb) p"
  have wf: "gm_wf (evictIfFull cb ?ms now)" using breaker_wf_inner [OF assms(1)] by (rule evictIfFull_wf)
  have g: "breaker_wf (fst (getOrCreate cb p m now))"
  proof (rule breaker_wfI)
    fix q ms assume "gm_get (cb_circuits (fst (getOrCreate cb p m now))) q = Some ms"
    then show "gm_wf ms \<and> ms \<noteq> []"
      using breaker_wfD(3) [OF assms(1), of q] wf
      by (auto simp: getOrCreate_def Let_def split: option.splits if_splits)
  next
    fix q n assume "gm_get (cb_names (fst (getOrCreate cb p m now))) q = Some n"
    then show "gm_get (cb_circuits (fst (getOrCreate cb p m now))) q \<noteq> None"
      using breaker_wfD(4) [OF assms(1), of q]
      by (auto simp: getOrCreate_def Let_def split: option.splits)
  qed (use breaker_wfD [OF assms(1)] in \<open>auto simp: getOrCreate_def Let_def split: option.splits\<close>)
  then show "breaker_wf cb'" by (simp add: assms(2) setCircuit_wf)
  show "same_config cb' cb" by (simp add: assms(2)) (simp add: same_config_def)
  show "getCircuit cb' p m = Some c" by (simp add: assms(2) getCircuit_set)
  show "p' \<noteq> p \<Longrightarrow> getCircuit cb' p' = getCircuit cb p'"
    by (simp add: assms(2) getCircuit_def setCircuit_def getOrCreate_other_provider fun_eq_iff)
  assume m': "m' \<noteq> m"
  have eq: "getCircuit cb' p m' = getCircuit (fst (getOrCreate cb p m now)) p m'"
    using m' by (simp add: assms(2) getCircuit_set)
  show "getCircuit cb' p m' = getCircuit cb p m' \<or>
       (getCircuit cb' p m' = None \<and> (\<exists>d. getCircuit cb p m' = Some d \<and> c_state d = StateClosed))"
  proof (cases "getCircuit cb p m")
    case (Some e)
    then show ?thesis by (simp add: eq getOrCreate_tracked)
  next
    case None
    have "getCircuit (fst (getOrCreate cb p m now)) p m' = gm_get (evictIfFull cb ?ms now) m'"
      using None m' by (simp add: getOrCreate_def getCircuit_def Let_def)
    moreover have "gm_get (evictIfFull cb ?ms now) m' = gm_get ?ms m' \<or>
        (gm_get (evictIfFull cb ?ms now) m' = None \<and>
         (\<exists>d. gm_get ?ms m' = Some d \<and> c_state d = StateClosed))"
      using evictIfFull_keeps_unhealthy [OF breaker_wf_inner [OF assms(1)], of p m' _ cb now]
        evictIfFull_get [of cb ?ms now m']
      by (metis not_None_eq)
    ultimately show ?thesis unfolding eq by (simp add: getCircuit_def)
  qed
qed

subsection \<open>The advised provider\<close>

text \<open>The relation one pass establishes between a provider's circuits before and after it.\<close>

definition apply_post ::
  "duration \<Rightarrow> cooldownReads \<Rightarrow> (string \<Rightarrow> string \<Rightarrow> rng) \<Rightarrow> (string \<Rightarrow> rng) \<Rightarrow> instant \<Rightarrow> int \<Rightarrow>
     string \<times> QuotaAdvice \<Rightarrow> (string \<Rightarrow> circuit option) \<Rightarrow> (string \<Rightarrow> circuit option) \<Rightarrow> bool" where
  "apply_post maxPin r g gseed now thr pa before after \<longleftrightarrow>
     (let (p, adv) = pa; rt = retarget_result maxPin r adv now (g p);
          clamp = clampPin (time_sub (adv_ResetsAt adv) now) maxPin (r_base r) (gseed p)
      in (\<forall>m. m \<noteq> seededModel \<longrightarrow>
            after m = map_option (rt m) (before m) \<or>
            (after m = None \<and> (\<exists>d. before m = Some d \<and> c_state d = StateClosed))) \<and>
         (after seededModel = map_option (rt seededModel) (before seededModel) \<or>
          (\<exists>d. clamp = Some d \<and> after seededModel = Some (seed_result thr adv d (gseed p) now
             (case before seededModel of None \<Rightarrow> new_circuit | Some c \<Rightarrow> rt seededModel c)))) \<and>
         (clamp \<noteq> None \<longrightarrow>
            (\<exists>m c. after m = Some c \<and> blocking c r now \<and> quotaPinnedForWith c r \<and>
               pinSpeaksForAccount (c_pinSource c)) \<or>
            (\<exists>d c. clamp = Some d \<and> after seededModel = Some (seed_result thr adv d (gseed p) now c))))"

lemma retarget_state [simp]: "c_state (retarget_result maxPin r adv now g m c) = c_state c"
  by (simp add: retarget_result_def split: option.split)

definition with_name :: "string gomap \<Rightarrow> string \<Rightarrow> CircuitBreaker \<Rightarrow> CircuitBreaker" where
  "with_name names p cb =
     (let name = (case gm_get names p of None \<Rightarrow> '''' | Some n \<Rightarrow> n)
      in if name \<noteq> '''' \<and> gm_inner (cb_circuits cb) p \<noteq> [] then setName cb p name else cb)"

lemma with_name_facts:
  "getCircuit (with_name names p cb) = getCircuit cb"
  "same_config (with_name names p cb) cb"
  "breaker_wf cb \<Longrightarrow> breaker_wf (with_name names p cb)"
proof -
  show "getCircuit (with_name names p cb) = getCircuit cb"
    by (simp add: with_name_def Let_def fun_eq_iff)
  show "same_config (with_name names p cb) cb"
    by (simp add: with_name_def Let_def) (simp add: same_config_def)
  assume wf: "breaker_wf cb"
  show "breaker_wf (with_name names p cb)"
  proof (rule breaker_wfI)
    fix q n assume "gm_get (cb_names (with_name names p cb)) q = Some n"
    then show "gm_get (cb_circuits (with_name names p cb)) q \<noteq> None"
      using breaker_wfD(4) [OF wf, of q]
      by (auto simp: with_name_def Let_def setName_def gm_inner_def split: if_splits option.splits)
  qed (use breaker_wfD [OF wf] in \<open>auto simp: with_name_def Let_def setName_def split: if_splits\<close>)
qed

lemma apply_pass_fst:
  "fst (apply_pass names maxPin r g gseed now (p, adv) s) =
     (let s1 = fold (retarget_visit maxPin r adv now (g p) p) (gm_inner (cb_circuits (fst s)) p) s
      in with_name names p (fst (seedQuotaPin (fst s1) (fst (snd s1)) p adv maxPin r (gseed p) now)))"
  by (simp add: apply_pass_def with_name_def Let_def split: prod.split)

lemma seed_config [simp]: "same_config (fst (seedQuotaPin cb after p adv maxPin r g now)) cb"
  by (cases rule: seed_cases [OF refl, where cb = cb and after = after and p = p and adv = adv and
      maxPin = maxPin and r = r and g = g and now = now])
    (simp_all, simp add: same_config_def)

lemma seed_facts:
  assumes "breaker_wf cb" "cb' = fst (seedQuotaPin cb after p adv maxPin r g now)"
  shows "breaker_wf cb'"
    "p' \<noteq> p \<Longrightarrow> getCircuit cb' p' = getCircuit cb p'"
    "m \<noteq> seededModel \<Longrightarrow> getCircuit cb' p m = getCircuit cb p m \<or>
       (getCircuit cb' p m = None \<and> (\<exists>d. getCircuit cb p m = Some d \<and> c_state d = StateClosed))"
    "getCircuit cb' p seededModel = getCircuit cb p seededModel \<or>
       (\<exists>d. clampPin (time_sub (adv_ResetsAt adv) now) maxPin (r_base r) g = Some d \<and>
          getCircuit cb' p seededModel =
            Some (seed_result (effectiveThreshold cb) adv d g now (circuit_at cb p seededModel)))"
    "clampPin (time_sub (adv_ResetsAt adv) now) maxPin (r_base r) g = Some d \<Longrightarrow>
       (accountPinned (gm_inner (cb_circuits cb) p) r now \<and> cb' = cb) \<or>
       getCircuit cb' p seededModel =
         Some (seed_result (effectiveThreshold cb) adv d g now (circuit_at cb p seededModel))"
proof -
  let ?clamp = "clampPin (time_sub (adv_ResetsAt adv) now) maxPin (r_base r) g"
  let ?seed = "\<lambda>d. seed_result (effectiveThreshold cb) adv d g now (circuit_at cb p seededModel)"
  consider (same) "cb' = cb" "accountPinned (gm_inner (cb_circuits cb) p) r now \<or> ?clamp = None"
    | (seed) d' where "?clamp = Some d'"
        "cb' = setCircuit (fst (getOrCreate cb p seededModel now)) p seededModel (?seed d')"
    using seed_cases [OF refl, where cb = cb and after = after and p = p and adv = adv and
      maxPin = maxPin and r = r and g = g and now = now] assms(2) by metis
  note dich = this
  show "breaker_wf cb'"
    by (cases rule: dich) (simp_all add: assms(1) create_facts(1) [OF assms(1) refl])
  show "p' \<noteq> p \<Longrightarrow> getCircuit cb' p' = getCircuit cb p'"
    by (cases rule: dich) (simp_all add: create_facts(4) [OF assms(1) refl])
  show "m \<noteq> seededModel \<Longrightarrow> getCircuit cb' p m = getCircuit cb p m \<or>
       (getCircuit cb' p m = None \<and> (\<exists>d. getCircuit cb p m = Some d \<and> c_state d = StateClosed))"
    by (cases rule: dich) (simp_all add: create_facts(5) [OF assms(1) refl])
  show "getCircuit cb' p seededModel = getCircuit cb p seededModel \<or>
       (\<exists>d. ?clamp = Some d \<and> getCircuit cb' p seededModel = Some (?seed d))"
    by (cases rule: dich) (simp_all add: create_facts(3) [OF assms(1) refl])
  show "?clamp = Some d \<Longrightarrow>
       (accountPinned (gm_inner (cb_circuits cb) p) r now \<and> cb' = cb) \<or>
       getCircuit cb' p seededModel = Some (?seed d)"
    by (cases rule: dich) (auto simp: create_facts(3) [OF assms(1) refl])
qed

lemma map_option_bind: "Option.bind x (\<lambda>c. Some (f c)) = map_option f x"
  by (cases x) simp_all

interpretation apply_walk: provider_walk "apply_pass names maxPin r g gseed now" fst fst cfg
    "apply_post maxPin r g gseed now (effectiveThreshold cfg)"
  for names maxPin r g gseed now cfg
proof (unfold_locales, goal_cases)
  case (1 x s)
  obtain p adv where x: "x = (p, adv)" by (cases x)
  note rt = retarget_walk.walk_config [of maxPin r adv now "g p" p "gm_inner (cb_circuits (fst s)) p" s]
  show ?case
    unfolding x apply_pass_fst Let_def
    by (rule same_config_trans [OF with_name_facts(2) same_config_trans [OF seed_config rt]])
next
  case (2 s x)
  obtain p adv where x: "x = (p, adv)" by (cases x)
  note rt = retarget_walk.walk_wf [OF 2, of maxPin r adv now "g p" p "gm_inner (cb_circuits (fst s)) p"]
  show ?case
    unfolding x apply_pass_fst Let_def by (rule with_name_facts(3) [OF seed_facts(1) [OF rt refl]])
next
  case (3 s q x)
  obtain p adv where x: "x = (p, adv)" by (cases x)
  note rt = retarget_walk.walk_wf [OF 3(1), of maxPin r adv now "g p" p "gm_inner (cb_circuits (fst s)) p"]
  from 3(2) x have "q \<noteq> p" by simp
  then show ?case
    unfolding x apply_pass_fst Let_def with_name_facts(1)
    using seed_facts(2) [OF rt refl, of q p] retarget_walk.bucket_walk [OF 3(1), of maxPin r adv now "g p" p q]
    by (simp add: fun_eq_iff)
next
  case (4 s x)
  obtain p adv where x: "x = (p, adv)" by (cases x)
  let ?s1 = "fold (retarget_visit maxPin r adv now (g p) p) (gm_inner (cb_circuits (fst s)) p) s"
  let ?cb2 = "fst (seedQuotaPin (fst ?s1) (fst (snd ?s1)) p adv maxPin r (gseed p) now)"
  let ?rt = "retarget_result maxPin r adv now (g p)"
  note wf1 = retarget_walk.walk_wf [OF 4(1), of maxPin r adv now "g p" p "gm_inner (cb_circuits (fst s)) p"]
  have mid: "getCircuit (fst ?s1) p m = map_option (?rt m) (getCircuit (fst s) p m)" for m
    using retarget_walk.bucket_walk [OF 4(1), of maxPin r adv now "g p" p p m] by (simp add: map_option_bind)
  have thr: "effectiveThreshold (fst ?s1) = effectiveThreshold cfg"
    using same_config_reads(1) [OF same_config_trans [OF retarget_walk.walk_config 4(2)]] .
  have closed: "(\<exists>d. map_option (?rt m) (getCircuit (fst s) p m) = Some d \<and> c_state d = StateClosed) \<Longrightarrow>
      (\<exists>d. getCircuit (fst s) p m = Some d \<and> c_state d = StateClosed)" for m by auto
  have at: "circuit_at (fst ?s1) p seededModel =
      (case getCircuit (fst s) p seededModel of None \<Rightarrow> new_circuit | Some c \<Rightarrow> ?rt seededModel c)"
    by (simp add: circuit_at_def mid split: option.split)
  have ap: "accountPinned (gm_inner (cb_circuits (fst ?s1)) p) r now \<Longrightarrow>
      \<exists>m c. getCircuit (fst ?s1) p m = Some c \<and> blocking c r now \<and> quotaPinnedForWith c r \<and>
        pinSpeaksForAccount (c_pinSource c)"
    using accountPinned_get [OF breaker_wf_inner [OF wf1]] by (simp add: getCircuit_def)
  note f = seed_facts(3-5) [OF wf1 refl, where p = p and adv = adv and maxPin = maxPin and r = r and
      g = "gseed p" and now = now and after = "fst (snd ?s1)"]
  show ?case
    unfolding x fst_conv apply_pass_fst Let_def with_name_facts(1) apply_post_def prod.case
  proof (intro conjI allI impI)
    fix m assume "m \<noteq> seededModel"
    with f(1) [of m] mid [of m] closed [of m]
    show "getCircuit ?cb2 p m = map_option (?rt m) (getCircuit (fst s) p m) \<or>
      (getCircuit ?cb2 p m = None \<and> (\<exists>d. getCircuit (fst s) p m = Some d \<and> c_state d = StateClosed))"
      by metis
  next
    show "getCircuit ?cb2 p seededModel = map_option (?rt seededModel) (getCircuit (fst s) p seededModel) \<or>
      (\<exists>d. clampPin (time_sub (adv_ResetsAt adv) now) maxPin (r_base r) (gseed p) = Some d \<and>
         getCircuit ?cb2 p seededModel = Some (seed_result (effectiveThreshold cfg) adv d (gseed p) now
           (case getCircuit (fst s) p seededModel of None \<Rightarrow> new_circuit | Some c \<Rightarrow> ?rt seededModel c)))"
      using f(2) mid [of seededModel] at thr by metis
  next
    assume "clampPin (time_sub (adv_ResetsAt adv) now) maxPin (r_base r) (gseed p) \<noteq> None"
    then obtain d where d: "clampPin (time_sub (adv_ResetsAt adv) now) maxPin (r_base r) (gseed p) = Some d"
      by blast
    show "(\<exists>m c. getCircuit ?cb2 p m = Some c \<and> blocking c r now \<and> quotaPinnedForWith c r \<and>
          pinSpeaksForAccount (c_pinSource c)) \<or>
        (\<exists>d c. clampPin (time_sub (adv_ResetsAt adv) now) maxPin (r_base r) (gseed p) = Some d \<and>
          getCircuit ?cb2 p seededModel = Some (seed_result (effectiveThreshold cfg) adv d (gseed p) now c))"
      using f(3) [OF d] ap d thr by metis
  qed
qed

end
