(* ===== verification/Breaker_Status.thy ===== *)
theory Breaker_Status
  imports Breaker_Waits
begin

text \<open>
  The manual resets (\<open>internal/failover/circuit_reset.go\<close>) and the status rows
  (\<open>circuit_status.go\<close> and the status methods of \<open>circuitbreaker.go\<close>). A row's RFC 3339 texts are
  kept as the instants they render; \<open>None\<close> is the empty text.
\<close>

subsection \<open>Resets\<close>

record manualReset =
  mr_providerID :: string
  mr_model :: string
  mr_prev :: State

definition logManualResets :: "manualReset list \<Rightarrow> emission list" where
  "logManualResets resets =
     map (\<lambda>x. LogInfo ''circuit-breaker: manual reset''
            [(''provider_id'', AStr (mr_providerID x)), (''cause'', AStr ''manual reset''),
             (''previous_state'', AStr (State_String (mr_prev x))), (''model'', AStr (mr_model x))]) resets"

definition resetProvider ::
  "CircuitBreaker \<Rightarrow> string \<Rightarrow> instant \<Rightarrow> CircuitBreaker \<times> State \<times> manualReset list" where
  "resetProvider cb providerID now =
     (let r = cooldowns cb; models = gm_inner (cb_circuits cb) providerID
      in case dominant models r now of
           None \<Rightarrow> (cb, StateClosed, [])
         | Some c \<Rightarrow>
             (cb\<lparr>cb_circuits := gm_del providerID (cb_circuits cb),
                 cb_names := gm_del providerID (cb_names cb)\<rparr>,
              logicalStateWith c r now,
              map (\<lambda>(model, mc). \<lparr>mr_providerID = providerID, mr_model = model,
                                   mr_prev = logicalStateWith mc r now\<rparr>) models))"

definition Reset :: "CircuitBreaker \<Rightarrow> string \<Rightarrow> instant \<Rightarrow> CircuitBreaker \<times> emission list \<times> State" where
  "Reset cb providerID now =
     (let (cb, prev, resets) = resetProvider cb providerID now in (cb, logManualResets resets, prev))"

definition resetModel ::
  "CircuitBreaker \<Rightarrow> string \<Rightarrow> string \<Rightarrow> instant \<Rightarrow> CircuitBreaker \<times> State \<times> bool" where
  "resetModel cb providerID model now =
     (case gm_get (gm_inner (cb_circuits cb) providerID) model of
        None \<Rightarrow> (cb, StateClosed, False)
      | Some c \<Rightarrow> (dropCircuit cb providerID model, logicalStateWith c (cooldowns cb) now, True))"

definition ResetModel ::
  "CircuitBreaker \<Rightarrow> string \<Rightarrow> string \<Rightarrow> instant \<Rightarrow> CircuitBreaker \<times> emission list \<times> State \<times> bool" where
  "ResetModel cb providerID model now =
     (let (cb, prev, existed) = resetModel cb providerID model now
      in (cb, if existed
              then logManualResets [\<lparr>mr_providerID = providerID, mr_model = model, mr_prev = prev\<rparr>]
              else [], prev, existed))"

definition resetAll ::
  "CircuitBreaker \<Rightarrow> instant \<Rightarrow> CircuitBreaker \<times> nat \<times> nat \<times> manualReset list" where
  "resetAll cb now =
     (let r = cooldowns cb;
          (cleared, recovered, resets) =
            fold (\<lambda>(pid, models) (cleared, recovered, resets).
                    fold (\<lambda>(model, c) (cleared, recovered, resets).
                            let prev = logicalStateWith c r now
                            in (cleared, if prev \<noteq> StateClosed then recovered + 1 else recovered,
                                resets @ [\<lparr>mr_providerID = pid, mr_model = model, mr_prev = prev\<rparr>]))
                      models (cleared + length models, recovered, resets))
              (cb_circuits cb) (0, 0, [])
      in (cb\<lparr>cb_circuits := [], cb_names := []\<rparr>, cleared, recovered, resets))"

definition ResetAll :: "CircuitBreaker \<Rightarrow> instant \<Rightarrow> CircuitBreaker \<times> emission list \<times> nat \<times> nat" where
  "ResetAll cb now =
     (let (cb, cleared, recovered, resets) = resetAll cb now
      in (cb, logManualResets resets, cleared, recovered))"

subsection \<open>Status rows\<close>

record CircuitStatus =
  cs_Model :: string
  cs_State :: string
  cs_ConsecutiveFails :: int
  cs_OpenedAt :: "instant option"
  cs_CooldownMs :: int
  cs_NextRetryAt :: "instant option"
  cs_QuotaPinned :: bool
  cs_PinSource :: string
  cs_BackedOff :: bool
  cs_FailedProbes :: nat
  cs_LastCause :: string
  cs_LastStatus :: int
  cs_LastAt :: "instant option"

record ProviderStatus =
  ps_ProviderID :: string
  ps_ProviderName :: string
  ps_State :: string
  ps_ConsecutiveFails :: int
  ps_OpenedAt :: "instant option"
  ps_CooldownMs :: int
  ps_NextRetryAt :: "instant option"
  ps_QuotaPinned :: bool
  ps_PinSource :: string
  ps_BackedOff :: bool
  ps_FailedProbes :: nat
  ps_ProviderOpen :: bool
  ps_OpenModels :: "string list"
  ps_Circuits :: "CircuitStatus list"

definition waitFields ::
  "circuit \<Rightarrow> State \<Rightarrow> cooldownReads \<Rightarrow> instant option \<times> int \<times> instant option" where
  "waitFields c state r =
     (if c_openedAt c = 0 \<or> (state \<noteq> StateOpen \<and> state \<noteq> StateHalfOpen) then (None, 0, None)
      else if state = StateOpen
      then (let cooldown = effectiveCooldownForWith c r
            in (Some (c_openedAt c), milliseconds_of cooldown, Some (time_add (c_openedAt c) cooldown)))
      else (Some (c_openedAt c), 0, None))"

definition circuitStatus :: "cooldownReads \<Rightarrow> instant \<Rightarrow> string \<times> circuit \<Rightarrow> CircuitStatus" where
  "circuitStatus r now mc =
     (let (model, c) = mc; state = logicalStateWith c r now; (oa, ms, nr) = waitFields c state r
      in \<lparr>cs_Model = model, cs_State = State_String state, cs_ConsecutiveFails = c_consecutiveFails c,
          cs_OpenedAt = oa, cs_CooldownMs = ms, cs_NextRetryAt = nr,
          cs_QuotaPinned = quotaPinnedForWith c r, cs_PinSource = pinSourceForWith c r,
          cs_BackedOff = backedOffForWith c r, cs_FailedProbes = c_failedProbes c,
          cs_LastCause = c_lastCause c, cs_LastStatus = c_lastStatus c,
          cs_LastAt = (if c_lastAt c = 0 then None else Some (c_lastAt c))\<rparr>)"

definition circuitStatuses :: "modelCircuits \<Rightarrow> cooldownReads \<Rightarrow> instant \<Rightarrow> CircuitStatus list" where
  "circuitStatuses models r now = sort_key cs_Model (map (circuitStatus r now) models)"

text \<open>The row of one provider, built from its dominant circuit \<open>c\<close>.\<close>

definition providerRow ::
  "CircuitBreaker \<Rightarrow> bool \<Rightarrow> cooldownReads \<Rightarrow> instant \<Rightarrow> string \<Rightarrow> modelCircuits \<Rightarrow> circuit \<Rightarrow>
     ProviderStatus" where
  "providerRow cb detail r now pid models c =
     (let state = logicalStateWith c r now;
          (provOpen, openModels, quotaPinned) = providerReport cb models r now;
          (oa, ms, nr) = waitFields c state r
      in \<lparr>ps_ProviderID = pid,
          ps_ProviderName = (case gm_get (cb_names cb) pid of None \<Rightarrow> '''' | Some n \<Rightarrow> n),
          ps_State = State_String state, ps_ConsecutiveFails = c_consecutiveFails c,
          ps_OpenedAt = oa, ps_CooldownMs = ms, ps_NextRetryAt = nr,
          ps_QuotaPinned = quotaPinned, ps_PinSource = pinSourceForWith c r,
          ps_BackedOff = backedOffForWith c r, ps_FailedProbes = c_failedProbes c,
          ps_ProviderOpen = provOpen, ps_OpenModels = openModels,
          ps_Circuits = (if detail then circuitStatuses models r now else [])\<rparr>)"

fun status_walk ::
  "CircuitBreaker \<Rightarrow> bool \<Rightarrow> cooldownReads \<Rightarrow> instant \<Rightarrow> modelCircuits gomap \<Rightarrow> ProviderStatus list" where
  "status_walk cb detail r now [] = []"
| "status_walk cb detail r now ((pid, models) # rest) =
     (case dominant models r now of
        None \<Rightarrow> status_walk cb detail r now rest
      | Some c \<Rightarrow> providerRow cb detail r now pid models c # status_walk cb detail r now rest)"

definition status :: "CircuitBreaker \<Rightarrow> bool \<Rightarrow> instant \<Rightarrow> ProviderStatus list" where
  "status cb detail now = status_walk cb detail (cooldowns cb) now (cb_circuits cb)"

definition Status :: "CircuitBreaker \<Rightarrow> instant \<Rightarrow> ProviderStatus list" where
  "Status cb now = status cb False now"

definition StatusDetail :: "CircuitBreaker \<Rightarrow> instant \<Rightarrow> ProviderStatus list" where
  "StatusDetail cb now = status cb True now"

subsection \<open>What a reset leaves\<close>

lemma resetProvider_fst:
  "fst (resetProvider cb p now) =
     (if gm_inner (cb_circuits cb) p = [] then cb
      else cb\<lparr>cb_circuits := gm_del p (cb_circuits cb), cb_names := gm_del p (cb_names cb)\<rparr>)"
  using dominant_None_iff [of "gm_inner (cb_circuits cb) p" "cooldowns cb" now]
  by (auto simp: resetProvider_def Let_def split: option.split)

lemma Reset_fst: "fst (Reset cb p now) = fst (resetProvider cb p now)"
  by (simp add: Reset_def split: prod.split)

lemma Reset_get:
  "getCircuit (fst (Reset cb p now)) p' m = (if p' = p then None else getCircuit cb p' m)"
  by (simp add: Reset_fst resetProvider_fst getCircuit_def)

lemma Reset_wf:
  assumes "breaker_wf cb"
  shows "breaker_wf (fst (Reset cb p now))"
proof (cases "gm_inner (cb_circuits cb) p = []")
  case True
  with assms show ?thesis by (simp add: Reset_fst resetProvider_fst)
next
  case False
  show ?thesis
    by (rule breaker_wfI)
      (use False breaker_wfD [OF assms] in \<open>auto simp: Reset_fst resetProvider_fst split: if_splits\<close>)
qed

lemma Reset_config [simp]: "same_config (fst (Reset cb p now)) cb"
  by (simp add: Reset_fst resetProvider_fst same_config_def)

lemma Reset_prev:
  assumes "breaker_wf cb"
  shows "snd (snd (Reset cb p now)) =
    (case dominant (gm_inner (cb_circuits cb) p) (cooldowns cb) now of
       None \<Rightarrow> StateClosed | Some c \<Rightarrow> logicalStateWith c (cooldowns cb) now)"
  by (simp add: Reset_def resetProvider_def Let_def split: option.split)

lemma ResetModel_fst:
  "fst (ResetModel cb p m now) = (if getCircuit cb p m = None then cb else dropCircuit cb p m)"
  by (auto simp: ResetModel_def resetModel_def getCircuit_def split: option.split)

text \<open>The two counts of a full reset.\<close>

lemma resetAll_inner:
  "fold (\<lambda>(model, c) (cleared, recovered, resets).
      let prev = logicalStateWith c r now
      in (cleared, if prev \<noteq> StateClosed then recovered + 1 else recovered,
          resets @ [\<lparr>mr_providerID = pid, mr_model = model, mr_prev = prev\<rparr>])) models (a, b, rs) =
   (a, b + length (filter (\<lambda>(m, c). c_state c \<noteq> StateClosed) models),
    rs @ map (\<lambda>(m, c). \<lparr>mr_providerID = pid, mr_model = m, mr_prev = logicalStateWith c r now\<rparr>) models)"
  by (induction models arbitrary: b rs) (auto simp: logicalState_cases Let_def)

lemma ResetAll_counts:
  "fst (snd (resetAll cb now)) = sum_list (map (length \<circ> snd) (cb_circuits cb))"
  "fst (snd (snd (resetAll cb now))) =
     sum_list (map (\<lambda>(p, ms). length (filter (\<lambda>(m, c). c_state c \<noteq> StateClosed) ms)) (cb_circuits cb))"
proof -
  have "fst (fold (\<lambda>(pid, models) (cleared, recovered, resets).
            fold (\<lambda>(model, c) (cleared, recovered, resets).
                    let prev = logicalStateWith c r now
                    in (cleared, if prev \<noteq> StateClosed then recovered + 1 else recovered,
                        resets @ [\<lparr>mr_providerID = pid, mr_model = model, mr_prev = prev\<rparr>]))
              models (cleared + length models, recovered, resets)) xs (a, b, rs)) =
          a + sum_list (map (length \<circ> snd) xs) \<and>
        fst (snd (fold (\<lambda>(pid, models) (cleared, recovered, resets).
            fold (\<lambda>(model, c) (cleared, recovered, resets).
                    let prev = logicalStateWith c r now
                    in (cleared, if prev \<noteq> StateClosed then recovered + 1 else recovered,
                        resets @ [\<lparr>mr_providerID = pid, mr_model = model, mr_prev = prev\<rparr>]))
              models (cleared + length models, recovered, resets)) xs (a, b, rs))) =
          b + sum_list (map (\<lambda>(p, ms). length (filter (\<lambda>(m, c). c_state c \<noteq> StateClosed) ms)) xs)"
    for r xs a b rs
    by (induction xs arbitrary: a b rs) (auto simp: resetAll_inner)
  then show "fst (snd (resetAll cb now)) = sum_list (map (length \<circ> snd) (cb_circuits cb))"
    "fst (snd (snd (resetAll cb now))) =
     sum_list (map (\<lambda>(p, ms). length (filter (\<lambda>(m, c). c_state c \<noteq> StateClosed) ms)) (cb_circuits cb))"
    unfolding resetAll_def Let_def by (simp_all add: split_beta)
qed

subsection \<open>What a row says\<close>

lemma providerRow_sel [simp]:
  "ps_ProviderID (providerRow cb detail r now p ms c) = p"
  "ps_State (providerRow cb detail r now p ms c) = State_String (logicalStateWith c r now)"
  "ps_ProviderOpen (providerRow cb detail r now p ms c) = fst (providerReport cb ms r now)"
  "ps_OpenModels (providerRow cb detail r now p ms c) = fst (snd (providerReport cb ms r now))"
  "ps_Circuits (providerRow cb detail r now p ms c) = (if detail then circuitStatuses ms r now else [])"
  "ps_NextRetryAt (providerRow cb detail r now p ms c) =
     snd (snd (waitFields c (logicalStateWith c r now) r))"
  by (simp_all add: providerRow_def Let_def split_beta)

lemma status_walk_set:
  "row \<in> set (status_walk cb detail r now xs) \<longleftrightarrow>
     (\<exists>p ms c. (p, ms) \<in> set xs \<and> dominant ms r now = Some c \<and> row = providerRow cb detail r now p ms c)"
proof (induction xs)
  case (Cons x xs)
  obtain p ms where x: "x = (p, ms)" by (cases x)
  show ?case
  proof (cases "dominant ms r now")
    case None
    then have "row \<in> set (status_walk cb detail r now (x # xs)) \<longleftrightarrow> row \<in> set (status_walk cb detail r now xs)"
      by (simp add: x)
    with Cons.IH None x show ?thesis by force
  next
    case (Some c)
    then have "row \<in> set (status_walk cb detail r now (x # xs)) \<longleftrightarrow>
        row = providerRow cb detail r now p ms c \<or> row \<in> set (status_walk cb detail r now xs)"
      by (simp add: x)
    with Cons.IH Some x show ?thesis by auto
  qed
qed simp

lemma status_row:
  assumes "breaker_wf cb" "row \<in> set (status cb detail now)"
  obtains p ms c where "gm_get (cb_circuits cb) p = Some ms" "dominant ms (cooldowns cb) now = Some c"
    "ps_ProviderID row = p" "ps_ProviderOpen row = provider_down cb p now"
    "ps_OpenModels row = sorted_blocked cb p now"
    "ps_State row = State_String (logicalStateWith c (cooldowns cb) now)"
    "ps_Circuits row = (if detail then circuitStatuses ms (cooldowns cb) now else [])"
    "ps_NextRetryAt row = snd (snd (waitFields c (logicalStateWith c (cooldowns cb) now) (cooldowns cb)))"
proof -
  from assms(2) obtain p ms c where pm: "(p, ms) \<in> set (cb_circuits cb)"
    and c: "dominant ms (cooldowns cb) now = Some c"
    and row: "row = providerRow cb detail (cooldowns cb) now p ms c"
    by (auto simp: status_def status_walk_set)
  have get: "gm_get (cb_circuits cb) p = Some ms"
    using pm breaker_wfD(1) [OF assms(1)] by (simp add: gm_mem_iff)
  then have inner: "gm_inner (cb_circuits cb) p = ms" by (simp add: gm_inner_def)
  have "fst (providerReport cb ms (cooldowns cb) now) = provider_down cb p now"
    by (simp add: providerReport_spec provider_down_def providerOpen_spec inner)
  moreover have "fst (snd (providerReport cb ms (cooldowns cb) now)) = sorted_blocked cb p now"
    by (simp add: providerReport_spec sorted_blocked_def inner)
  ultimately show ?thesis using that get c row by simp
qed

lemma status_covers:
  assumes "breaker_wf cb" "gm_get (cb_circuits cb) p = Some ms"
  shows "\<exists>row \<in> set (status cb detail now). ps_ProviderID row = p"
proof -
  have "ms \<noteq> []" using assms by (rule breaker_wf_bucket)
  then obtain c where c: "dominant ms (cooldowns cb) now = Some c"
    using dominant_None_iff [of ms "cooldowns cb" now] by auto
  have "(p, ms) \<in> set (cb_circuits cb)" using assms(2) by (rule map_of_SomeD)
  with c show ?thesis by (force simp: status_def status_walk_set)
qed

end
