(* ===== verification/Breaker_System.thy ===== *)
theory Breaker_System
  imports Quota_Advice Breaker_Status
begin

text \<open>
  The breaker as a state machine: a step is one locked section of any operation, at one instant,
  or a change of the configuration around it. \<open>breaker_ok\<close> holds in every reachable state, and
  a circuit that is blocking stays open through every step that is not a manual reset.
\<close>

subsection \<open>The circuits the poller's passes leave are well formed\<close>

lemma unpinned_ok: "circuit_ok mp c \<Longrightarrow> circuit_ok mp (unpinned reason c now)"
  by (simp add: unpinned_def circuit_ok_def pin_sources_def)

lemma release_result_ok:
  "circuit_ok mp c \<Longrightarrow> release_result now m c = Some d \<Longrightarrow> circuit_ok mp d"
  by (auto simp: release_result_def circuit_ok_clear429 unpinned_ok split: if_splits)

lemma releaseAll_result_ok:
  "circuit_ok mp c \<Longrightarrow> releaseAll_result now m c = Some d \<Longrightarrow> circuit_ok mp d"
  by (auto simp: releaseAll_result_def unpinned_ok split: if_splits)

lemma advisorPinSource_facts:
  "advisorPinSource adv \<noteq> ''''" "advisorPinSource adv \<in> set pin_sources"
  "\<not> pinProbes (advisorPinSource adv)" "pinSpeaksForAccount (advisorPinSource adv)"
  by (simp_all add: advisorPinSource_def pin_source_defs pin_sources_def pinProbes_def
      pinSpeaksForAccount_def)

lemma retarget_result_ok:
  assumes "circuit_ok mp c" "config_ok cb" "\<And>m. rng_ok (g m)"
  shows "circuit_ok mp (retarget_result (quotaPinMax cb) (cooldowns cb) adv now g m c)"
proof (cases "logicalStateWith c (cooldowns cb) now = StateOpen")
  case False
  with assms(1) show ?thesis by (simp add: retarget_result_def)
next
  case True
  then have open': "c_state c = StateOpen" by (simp add: logicalState_cases blocking_def)
  show ?thesis
  proof (cases "clampPin (time_sub (adv_ResetsAt adv) (c_openedAt c)) (quotaPinMax cb)
        (effectiveCooldownForWith c (cooldowns cb)) (g m)")
    case None
    with True assms(1) advisorPinSource_facts show ?thesis
      by (auto simp: retarget_result_def circuit_ok_def)
  next
    case (Some d)
    have "0 < effectiveCooldownForWith c (cooldowns cb)"
      using cooldown_range(1) [OF circuit_waits_ok [OF assms(1,2)]] .
    then have "0 < d" "d < 2 ^ 63"
      using clampPin_range [OF Some _ config_reads_pos(4) [OF assms(2)] assms(3)] by simp_all
    with True Some assms(1) open' advisorPinSource_facts show ?thesis
      by (simp add: retarget_result_def circuit_ok_def)
  qed
qed

lemma seed_result_ok:
  assumes "circuit_ok mp c" "config_ok cb" "rng_ok g" "0 < now"
    "clampPin (time_sub (adv_ResetsAt adv) now) (quotaPinMax cb) (effectiveCooldown cb) g = Some d"
  shows "circuit_ok mp (seed_result (effectiveThreshold cb) adv d g now c)"
proof -
  have "0 \<le> effectiveCooldown cb" using config_reads_pos(1) [OF assms(2)] by simp
  then have "0 < d" "d < 2 ^ 63"
    using clampPin_range [OF assms(5) _ config_reads_pos(4) [OF assms(2)] assms(3)] by simp_all
  then show ?thesis
    using assms(1,3,4) config_reads_pos(2) [OF assms(2)] advisorPinSource_facts
    by (simp add: seed_result_def circuit_ok_def rng_ok_def)
qed

lemma pass_ok:
  assumes "breaker_ok cb" "breaker_wf cb'" "same_config cb' cb"
    "\<And>p m d. getCircuit cb' p m = Some d \<Longrightarrow> circuit_ok (cb_HalfOpenMaxProbes cb) d"
  shows "breaker_ok cb'"
proof -
  have "cb_HalfOpenMaxProbes cb' = cb_HalfOpenMaxProbes cb" using assms(3) by (simp add: same_config_def)
  then show ?thesis
    using assms config_ok_same [OF assms(3)] breaker_okD(2) [OF assms(1)] by (simp add: breaker_ok_iff)
qed

lemma bind_ok:
  assumes "breaker_ok cb" "Option.bind (getCircuit cb p m) (f m) = Some d"
    "\<And>c. circuit_ok (cb_HalfOpenMaxProbes cb) c \<Longrightarrow> f m c = Some d \<Longrightarrow> circuit_ok (cb_HalfOpenMaxProbes cb) d"
  shows "circuit_ok (cb_HalfOpenMaxProbes cb) d"
  using assms breaker_okD(3) [OF assms(1), of p m] by (cases "getCircuit cb p m") auto

lemma Release_ok:
  assumes "breaker_ok cb" "distinct recovered"
  shows "breaker_ok (fst (ReleaseQuotaPins cb recovered now))"
proof (rule pass_ok [OF assms(1) Release_wf [OF breaker_okD(1) [OF assms(1)]] Release_config])
  fix p m d assume d: "getCircuit (fst (ReleaseQuotaPins cb recovered now)) p m = Some d"
  show "circuit_ok (cb_HalfOpenMaxProbes cb) d"
  proof (cases "p \<in> set recovered")
    case True
    with d have "Option.bind (getCircuit cb p m) (release_result now m) = Some d"
      by (simp add: Release_get [OF breaker_okD(1) [OF assms(1)] assms(2)])
    then show ?thesis by (rule bind_ok [OF assms(1)]) (rule release_result_ok)
  next
    case False
    with d show ?thesis
      using breaker_okD(3) [OF assms(1)] by (simp add: Release_get [OF breaker_okD(1) [OF assms(1)] assms(2)])
  qed
qed

lemma ReleaseAll_ok:
  assumes "breaker_ok cb"
  shows "breaker_ok (fst (ReleaseAllQuotaPins cb now))"
proof (rule pass_ok [OF assms ReleaseAll_wf [OF breaker_okD(1) [OF assms]] ReleaseAll_config])
  fix p m d assume "getCircuit (fst (ReleaseAllQuotaPins cb now)) p m = Some d"
  then have "Option.bind (getCircuit cb p m) (releaseAll_result now m) = Some d"
    by (simp add: ReleaseAll_get [OF breaker_okD(1) [OF assms]])
  then show "circuit_ok (cb_HalfOpenMaxProbes cb) d"
    by (rule bind_ok [OF assms]) (rule releaseAll_result_ok)
qed

lemma sweep_ok:
  assumes "breaker_ok cb"
  shows "breaker_ok (sweepExpiredSeeds cb now)"
proof (rule pass_ok [OF assms sweep_wf [OF breaker_okD(1) [OF assms]] sweep_config])
  fix p m d assume "getCircuit (sweepExpiredSeeds cb now) p m = Some d"
  then have "Option.bind (getCircuit cb p m) (sweep_result (cooldowns cb) now m) = Some d"
    by (simp add: sweep_get [OF breaker_okD(1) [OF assms]])
  then show "circuit_ok (cb_HalfOpenMaxProbes cb) d"
    by (rule bind_ok [OF assms]) (simp add: sweep_result_def split: if_splits)
qed

subsection \<open>Applying advice, from a swept breaker\<close>

definition advice_pass ::
  "CircuitBreaker \<Rightarrow> QuotaAdvice gomap \<Rightarrow> string gomap \<Rightarrow> (string \<Rightarrow> string \<Rightarrow> rng) \<Rightarrow> (string \<Rightarrow> rng) \<Rightarrow>
     instant \<Rightarrow> CircuitBreaker" where
  "advice_pass cb advice names g gseed now =
     fst (fold (apply_pass names (quotaPinMax cb) (cooldowns cb) g gseed now) advice (cb, [], 0))"

lemma Apply_fst:
  "fst (ApplyQuotaPins cb advice names g gseed now) =
     (if advice = [] \<or> \<not> quotaPinEnabled cb then sweepExpiredSeeds cb now
      else advice_pass (sweepExpiredSeeds cb now) advice names g gseed now)"
  using same_config_reads(7) [OF sweep_config [of cb now]]
  by (simp add: ApplyQuotaPins_def advice_pass_def Let_def)

lemma advice_pass_facts:
  assumes "breaker_wf cb" "gm_wf advice" "cb' = advice_pass cb advice names g gseed now"
  shows "breaker_wf cb'" "same_config cb' cb"
    "p \<notin> fst ` set advice \<Longrightarrow> getCircuit cb' p = getCircuit cb p"
    "gm_get advice p = Some adv \<Longrightarrow>
       apply_post (quotaPinMax cb) (cooldowns cb) g gseed now (effectiveThreshold cb) (p, adv)
         (getCircuit cb p) (getCircuit cb' p)"
proof -
  show "breaker_wf cb'"
    using apply_walk.walk_wf [of "(cb, [], 0)"] assms(1) by (simp add: assms(3) advice_pass_def)
  show "same_config cb' cb"
    using apply_walk.walk_config [of _ _ _ _ _ _ _ "(cb, [], 0)"] by (simp add: assms(3) advice_pass_def)
  show "p \<notin> fst ` set advice \<Longrightarrow> getCircuit cb' p = getCircuit cb p"
    using apply_walk.walk_other [of "(cb, [], 0)" p advice] assms(1) by (simp add: assms(3) advice_pass_def)
  assume "gm_get advice p = Some adv"
  then have "(p, adv) \<in> set advice" by (rule map_of_SomeD)
  then show "apply_post (quotaPinMax cb) (cooldowns cb) g gseed now (effectiveThreshold cb) (p, adv)
         (getCircuit cb p) (getCircuit cb' p)"
    using apply_walk.walk_self [of "(cb, [], 0)" cb advice "(p, adv)"] assms(1,2)
    by (simp add: assms(3) advice_pass_def gm_wf_def)
qed

lemma advice_pass_ok:
  assumes "breaker_ok cb" "gm_wf advice" "\<And>p m. rng_ok (g p m)" "\<And>p. rng_ok (gseed p)" "0 < now"
  shows "breaker_ok (advice_pass cb advice names g gseed now)"
proof -
  let ?cb' = "advice_pass cb advice names g gseed now"
  note wf = breaker_okD(1) [OF assms(1)] and cfg = breaker_okD(2) [OF assms(1)]
  note facts = advice_pass_facts [OF wf assms(2) refl, where names = names and g = g and
      gseed = gseed and now = now]
  let ?mp = "cb_HalfOpenMaxProbes cb"
  show ?thesis
  proof (rule pass_ok [OF assms(1) facts(1,2)])
    fix p m d assume d: "getCircuit ?cb' p m = Some d"
    show "circuit_ok ?mp d"
    proof (cases "gm_get advice p")
      case None
      with facts(3) [of p] d breaker_okD(3) [OF assms(1)] show ?thesis
        by (simp add: map_of_eq_None_iff)
    next
      case (Some adv)
      let ?rt = "retarget_result (quotaPinMax cb) (cooldowns cb) adv now (g p)"
      have rt: "circuit_ok ?mp (?rt m' c)" if "getCircuit cb p m' = Some c" for m' c
        using retarget_result_ok [OF breaker_okD(3) [OF assms(1) that] cfg] assms(3) by blast
      have base: "circuit_ok ?mp (case getCircuit cb p seededModel of None \<Rightarrow> new_circuit
          | Some c \<Rightarrow> ?rt seededModel c)"
        using rt by (simp split: option.split)
      note post = facts(4) [OF Some, unfolded apply_post_def, simplified]
      show ?thesis
      proof (cases "getCircuit ?cb' p m = map_option (?rt m) (getCircuit cb p m)")
        case True
        with d rt show ?thesis by auto
      next
        case False
        with post d have "m = seededModel" by (metis option.distinct(1))
        with False post d obtain e where "clampPin (time_sub (adv_ResetsAt adv) now) (quotaPinMax cb)
            (effectiveCooldown cb) (gseed p) = Some e"
            "d = seed_result (effectiveThreshold cb) adv e (gseed p) now
              (case getCircuit cb p seededModel of None \<Rightarrow> new_circuit | Some c \<Rightarrow> ?rt seededModel c)"
          by (metis option.inject)
        with seed_result_ok [OF base cfg assms(4,5)] show ?thesis by blast
      qed
    qed
  qed
qed

lemma Apply_ok:
  assumes "breaker_ok cb" "gm_wf advice" "\<And>p m. rng_ok (g p m)" "\<And>p. rng_ok (gseed p)" "0 < now"
  shows "breaker_ok (fst (ApplyQuotaPins cb advice names g gseed now))"
  using advice_pass_ok [OF sweep_ok [OF assms(1)] assms(2-5)] sweep_ok [OF assms(1)]
  by (simp add: Apply_fst)

subsection \<open>Steps\<close>

lemma dropCircuit_ok:
  assumes "breaker_ok cb"
  shows "breaker_ok (dropCircuit cb p m)"
proof (rule pass_ok [OF assms dropCircuit_wf [OF breaker_okD(1) [OF assms]]])
  fix p' m' d assume "getCircuit (dropCircuit cb p m) p' m' = Some d"
  then show "circuit_ok (cb_HalfOpenMaxProbes cb) d"
    using breaker_okD(3) [OF assms] dropCircuit_get [OF breaker_okD(1) [OF assms]] by (auto split: if_splits)
qed simp

lemma Reset_ok:
  assumes "breaker_ok cb"
  shows "breaker_ok (fst (Reset cb p now))"
proof (rule pass_ok [OF assms Reset_wf [OF breaker_okD(1) [OF assms]] Reset_config])
  fix p' m' d assume "getCircuit (fst (Reset cb p now)) p' m' = Some d"
  then show "circuit_ok (cb_HalfOpenMaxProbes cb) d"
    using breaker_okD(3) [OF assms] by (auto simp: Reset_get split: if_splits)
qed

lemma IsOpen_write_ok:
  assumes "breaker_ok cb"
  shows "breaker_ok (fst (IsOpen_write cb p pn m now))"
proof (rule pass_ok [OF assms admit.op_wf [OF breaker_okD(1) [OF assms]] admit.op_config])
  fix p' m' d assume d: "getCircuit (fst (IsOpen_write cb p pn m now)) p' m' = Some d"
  have mp: "1 \<le> cb_HalfOpenMaxProbes cb" using config_reads_pos(3) [OF breaker_okD(2) [OF assms]] .
  show "circuit_ok (cb_HalfOpenMaxProbes cb) d"
    using d breaker_okD(3) [OF assms] mp
    by (auto simp: IsOpen_write_state getCircuit_set circuit_ok_def split: option.splits if_splits)
qed

text \<open>
  The flag is set on the manual resets. Setters and settings changes are steps too: the
  settings repository answers differently from one operation to the next.
\<close>

inductive breaker_step :: "bool \<Rightarrow> instant \<Rightarrow> CircuitBreaker \<Rightarrow> CircuitBreaker \<Rightarrow> bool" where
  step_admit: "0 < now \<Longrightarrow> breaker_step False now cb (fst (IsOpen_write cb p pn m now))"
| step_failure: "0 < now \<Longrightarrow> rng_ok g \<Longrightarrow>
    breaker_step False now cb (fst (recordFailure cb p pn m b cause g now))"
| step_exhausted: "0 < now \<Longrightarrow> rng_ok g \<Longrightarrow>
    breaker_step False now cb (fst (recordExhausted cb p pn m st h a g now))"
| step_saturated: "0 < now \<Longrightarrow> breaker_step False now cb (RecordSaturated cb p pn m now)"
| step_success: "0 < now \<Longrightarrow> breaker_step False now cb (fst (recordSuccess cb p pn m served cause now))"
| step_release: "0 < now \<Longrightarrow> distinct ps \<Longrightarrow> breaker_step False now cb (fst (ReleaseQuotaPins cb ps now))"
| step_release_all: "0 < now \<Longrightarrow> breaker_step False now cb (fst (ReleaseAllQuotaPins cb now))"
| step_apply: "0 < now \<Longrightarrow> gm_wf advice \<Longrightarrow> (\<And>p m. rng_ok (g p m)) \<Longrightarrow> (\<And>p. rng_ok (gseed p)) \<Longrightarrow>
    breaker_step False now cb (fst (ApplyQuotaPins cb advice names g gseed now))"
| step_reset: "0 < now \<Longrightarrow> breaker_step True now cb (fst (Reset cb p now))"
| step_reset_model: "0 < now \<Longrightarrow> breaker_step True now cb (fst (ResetModel cb p m now))"
| step_reset_all: "0 < now \<Longrightarrow> breaker_step True now cb (fst (ResetAll cb now))"
| step_settings: "0 < now \<Longrightarrow> config_ok (cb\<lparr>cb_settings := s\<rparr>) \<Longrightarrow>
    breaker_step False now cb (cb\<lparr>cb_settings := s\<rparr>)"
| step_advisor: "0 < now \<Longrightarrow> breaker_step False now cb (SetQuotaAdvisor cb q)"
| step_on_open: "0 < now \<Longrightarrow> breaker_step False now cb (SetOnOpen cb f)"

inductive breaker_reachable :: "CircuitBreaker \<Rightarrow> bool" where
  reach_new: "config_ok (NewCircuitBreaker s) \<Longrightarrow> breaker_reachable (NewCircuitBreaker s)"
| reach_step: "breaker_reachable cb \<Longrightarrow> breaker_step manual now cb cb' \<Longrightarrow> breaker_reachable cb'"

lemma config_setters:
  "config_ok (SetQuotaAdvisor cb q) = config_ok cb" "config_ok (SetOnOpen cb f) = config_ok cb"
proof -
  have "effectiveCooldown (SetQuotaAdvisor cb q) = effectiveCooldown cb"
    "backoffMax (SetQuotaAdvisor cb q) = backoffMax cb" "quotaPinMax (SetQuotaAdvisor cb q) = quotaPinMax cb"
    "pinProbeInterval (SetQuotaAdvisor cb q) = pinProbeInterval cb"
    "effectiveCooldown (SetOnOpen cb f) = effectiveCooldown cb" "backoffMax (SetOnOpen cb f) = backoffMax cb"
    "quotaPinMax (SetOnOpen cb f) = quotaPinMax cb" "pinProbeInterval (SetOnOpen cb f) = pinProbeInterval cb"
    by (simp_all add: SetQuotaAdvisor_def SetOnOpen_def effectiveCooldown_def backoffMax_def
        quotaPinMax_def pinProbeInterval_def Let_def split: option.split)
  then show "config_ok (SetQuotaAdvisor cb q) = config_ok cb" "config_ok (SetOnOpen cb f) = config_ok cb"
    by (simp_all add: config_ok_def) (simp_all add: SetQuotaAdvisor_def SetOnOpen_def)
qed

lemma breaker_ok_config_change:
  assumes "breaker_ok cb" "cb_circuits cb' = cb_circuits cb" "cb_names cb' = cb_names cb"
    "cb_HalfOpenMaxProbes cb' = cb_HalfOpenMaxProbes cb" "config_ok cb'"
  shows "breaker_ok cb'"
  using assms by (simp add: breaker_ok_def breaker_wf_def)

lemma breaker_step_ok:
  assumes "breaker_step manual now cb cb'" "breaker_ok cb"
  shows "breaker_ok cb'"
  using assms
proof (induction rule: breaker_step.induct)
  case (step_failure now g cb p pn m b cause)
  then show ?case
    unfolding recordFailure_state
    by (intro record_at_ok failure_result_ok circuit_at_ok breaker_okD(2)) auto
next
  case (step_exhausted now g cb p pn m st h a)
  then show ?case
    unfolding recordExhausted_state
    by (intro record_at_ok exhausted_result_ok circuit_at_ok breaker_okD(2)) auto
next
  case (step_saturated now cb p pn m)
  then show ?case
    unfolding RecordSaturated_state
    using config_reads_pos(3) [OF breaker_okD(2)] by (intro record_at_ok saturated_result_ok circuit_at_ok) auto
next
  case (step_success now cb p pn m served cause)
  then show ?case
    unfolding recordSuccess_state
    by (intro record_at_ok success_result_ok circuit_at_ok breaker_okD(2)) auto
next
  case (step_apply now advice g gseed cb names)
  then show ?case by (intro Apply_ok) auto
next
  case (step_reset_model now cb p m)
  then show ?case by (simp add: ResetModel_fst dropCircuit_ok)
next
  case (step_reset_all now cb)
  show ?case
  proof (rule pass_ok [OF step_reset_all(2)])
    show "breaker_wf (fst (ResetAll cb now))"
      by (simp add: ResetAll_def resetAll_def breaker_wf_def split_beta Let_def)
    show "same_config (fst (ResetAll cb now)) cb"
      by (simp add: ResetAll_def resetAll_def same_config_def split_beta Let_def)
    show "getCircuit (fst (ResetAll cb now)) p m = Some d \<Longrightarrow> circuit_ok (cb_HalfOpenMaxProbes cb) d"
      for p m d by (simp add: ResetAll_def resetAll_def getCircuit_def gm_inner_def split_beta Let_def)
  qed
next
  case (step_settings now cb s)
  then show ?case by (intro breaker_ok_config_change [OF step_settings(3)]) simp_all
next
  case (step_advisor now cb q)
  then show ?case
    by (intro breaker_ok_config_change [OF step_advisor(2)])
      (simp_all add: config_setters breaker_okD(2), simp_all add: SetQuotaAdvisor_def)
next
  case (step_on_open now cb f)
  then show ?case
    by (intro breaker_ok_config_change [OF step_on_open(2)])
      (simp_all add: config_setters breaker_okD(2), simp_all add: SetOnOpen_def)
qed (auto intro: IsOpen_write_ok Release_ok ReleaseAll_ok Reset_ok)

lemma breaker_reachable_ok: "breaker_reachable cb \<Longrightarrow> breaker_ok cb"
proof (induction rule: breaker_reachable.induct)
  case (reach_new s)
  have "getCircuit (NewCircuitBreaker s) p m = None" for p m
    by (simp add: getCircuit_def gm_inner_def NewCircuitBreaker_def)
  with reach_new show ?case by (simp add: breaker_ok_iff)
next
  case (reach_step cb manual now cb')
  then show ?case using breaker_step_ok by blast
qed

inductive_simps step_settings_simps: "breaker_step manual now cb (cb\<lparr>cb_settings := s\<rparr>)"
inductive_cases breaker_reachableE: "breaker_reachable cb"

subsection \<open>A blocking circuit stays open\<close>

text \<open>What no step but a manual reset may change of a circuit that is blocking.\<close>

definition same_incident :: "circuit \<Rightarrow> circuit \<Rightarrow> bool" where
  "same_incident c d \<longleftrightarrow> c_state d = c_state c \<and> c_openedAt d = c_openedAt c \<and>
     c_consecutiveFails d = c_consecutiveFails c \<and> c_failedProbes d = c_failedProbes c \<and>
     c_cooldownBackoff d = c_cooldownBackoff c"

lemma same_incident_refl [simp]: "same_incident c c"
  by (simp add: same_incident_def)

lemma one_circuit_blocking:
  assumes "one_circuit_op op p m" "breaker_wf cb" "getCircuit cb p' m' = Some c" "c_state c = StateOpen"
    "p' = p \<Longrightarrow> m' = m \<Longrightarrow> \<exists>d. getCircuit (op cb) p m = Some d \<and> same_incident c d"
  shows "\<exists>d. getCircuit (op cb) p' m' = Some d \<and> same_incident c d"
proof (cases "p' = p")
  case False
  have "getCircuit (op cb) p' m' = getCircuit cb p' m'"
    unfolding getCircuit_def one_circuit_op.op_other [OF assms(1) False] ..
  with assms(3) show ?thesis by simp
next
  case True
  show ?thesis
  proof (cases "m' = m")
    case True
    with assms(5) \<open>p' = p\<close> show ?thesis by simp
  next
    case False
    with one_circuit_op.op_kept [OF assms(1,2) False] assms(3,4) \<open>p' = p\<close> show ?thesis by simp
  qed
qed

lemma record_at_incident:
  assumes "getCircuit cb p m = Some c" "same_incident c (f cb c)"
  shows "\<exists>d. getCircuit (record_at cb p pn m (f cb (circuit_at cb p m)) now) p m = Some d \<and> same_incident c d"
  using assms by simp

lemma release_incident:
  "m \<noteq> seededModel \<Longrightarrow> \<exists>d. release_result now m c = Some d \<and> same_incident c d"
  "m \<noteq> seededModel \<Longrightarrow> \<exists>d. releaseAll_result now m c = Some d \<and> same_incident c d"
  by (auto simp: release_result_def releaseAll_result_def same_incident_def unpinned_def
      clear429Escalation_def)

lemma retarget_incident: "same_incident c (retarget_result maxPin r adv now g m c)"
  by (simp add: retarget_result_def same_incident_def split: option.split)

lemma apply_post_other:
  assumes "apply_post maxPin r g gseed now thr (p, adv) before after" "m \<noteq> seededModel"
    "before m = Some c" "c_state c \<noteq> StateClosed"
  shows "after m = Some (retarget_result maxPin r adv now (g p) m c)"
  using assms by (auto simp: apply_post_def Let_def)

lemma step_keeps_blocking:
  assumes "breaker_step manual now cb cb'" "\<not> manual" "breaker_ok cb" "m \<noteq> seededModel"
    "getCircuit cb p m = Some c" "blocking c (cooldowns cb) now"
  shows "\<exists>d. getCircuit cb' p m = Some d \<and> same_incident c d"
  using assms
proof (induction rule: breaker_step.induct)
  case (step_admit now cb q qn n)
  have o': "c_state c = StateOpen" using step_admit by (simp add: blocking_def)
  show ?case
    by (rule one_circuit_blocking [OF admit.one_circuit_op_axioms])
      (use step_admit o' breaker_okD(1) in \<open>auto simp: IsOpen_write_state\<close>)
next
  case (step_failure now g cb q qn n b cause)
  have o': "c_state c = StateOpen" using step_failure by (simp add: blocking_def)
  show ?case
    by (rule one_circuit_blocking [OF failure.one_circuit_op_axioms])
      (use step_failure o' breaker_okD(1) in \<open>auto simp: recordFailure_state outcomes_while_blocking
        same_incident_def\<close>)
next
  case (step_exhausted now g cb q qn n st h a)
  have o': "c_state c = StateOpen" using step_exhausted by (simp add: blocking_def)
  show ?case
    by (rule one_circuit_blocking [OF exhausted.one_circuit_op_axioms])
      (use step_exhausted o' breaker_okD(1) in \<open>auto simp: recordExhausted_state outcomes_while_blocking
        same_incident_def\<close>)
next
  case (step_saturated now cb q qn n)
  have o': "c_state c = StateOpen" using step_saturated by (simp add: blocking_def)
  show ?case
    by (rule one_circuit_blocking [OF saturated.one_circuit_op_axioms])
      (use step_saturated o' breaker_okD(1) in \<open>auto simp: RecordSaturated_state outcomes_while_blocking\<close>)
next
  case (step_success now cb q qn n served cause)
  have o': "c_state c = StateOpen" using step_success by (simp add: blocking_def)
  show ?case
    by (rule one_circuit_blocking [OF success.one_circuit_op_axioms])
      (use step_success o' breaker_okD(1) in \<open>auto simp: recordSuccess_state outcomes_while_blocking
        same_incident_def\<close>)
next
  case (step_release now ps cb)
  then show ?case
    using release_incident(1) [of m now c] by (simp add: Release_get breaker_okD(1))
next
  case (step_release_all now cb)
  then show ?case
    using release_incident(2) [of m now c] by (simp add: ReleaseAll_get breaker_okD(1))
next
  case (step_apply now advice g gseed cb names)
  have o': "c_state c = StateOpen" using step_apply by (simp add: blocking_def)
  have wf: "breaker_wf cb" using step_apply breaker_okD(1) by blast
  let ?cb = "sweepExpiredSeeds cb now"
  have sw: "getCircuit ?cb p m = Some c"
    using step_apply by (simp add: sweep_get [OF wf] sweep_result_def)
  note facts = advice_pass_facts [OF sweep_wf [OF wf] step_apply(2) refl, where names = names and g = g
      and gseed = gseed and now = now]
  have "\<exists>d. getCircuit (advice_pass ?cb advice names g gseed now) p m = Some d \<and> same_incident c d"
  proof (cases "gm_get advice p")
    case None
    with facts(3) [of p] sw show ?thesis by (simp add: map_of_eq_None_iff)
  next
    case (Some adv)
    have "c_state c \<noteq> StateClosed" using o' by simp
    from apply_post_other [OF facts(4) [OF Some] step_apply(7) sw this] show ?thesis
      using retarget_incident by blast
  qed
  with sw show ?case by (simp add: Apply_fst)
next
  case (step_settings now cb s)
  then show ?case by (simp add: getCircuit_def)
next
  case (step_advisor now cb q)
  then show ?case by (simp add: getCircuit_def SetQuotaAdvisor_def)
next
  case (step_on_open now cb f)
  then show ?case by (simp add: getCircuit_def SetOnOpen_def)
qed simp_all

end
