(* ===== verification/Breaker_Behaviour.thy ===== *)
theory Breaker_Behaviour
  imports Breaker_System
begin

text \<open>
  Facts that combine several components of the breaker, used by the properties: runs of
  successes, what an exhausted answer does to the provider verdict, how the poller's passes
  change the waits, and that an event carries the verdict of the state it leaves.
\<close>

subsection \<open>Runs of successes\<close>

fun success_run ::
  "CircuitBreaker \<Rightarrow> string \<Rightarrow> string \<Rightarrow> string \<Rightarrow> instant list \<Rightarrow> CircuitBreaker" where
  "success_run cb p pn m [] = cb"
| "success_run cb p pn m (now # rest) =
     success_run (fst (RecordSuccess cb p pn m now)) p pn m rest"

lemma RecordSuccess_at:
  "circuit_at (fst (RecordSuccess cb p pn m now)) p m =
     success_result cb (circuit_at cb p m) True \<lparr>cause_Status = 0, cause_Reason = causeSuccess\<rparr> now"
  by (simp add: RecordSuccess_def recordSuccess_state)

lemma RecordSuccess_config: "same_config (fst (RecordSuccess cb p pn m now)) cb"
  unfolding RecordSuccess_def by (rule success.op_config)

lemma success_run_append:
  "success_run cb p pn m (xs @ [t]) = fst (RecordSuccess (success_run cb p pn m xs) p pn m t)"
  by (induction xs arbitrary: cb) auto

lemma success_run_probes:
  assumes "c_state (circuit_at cb p m) = StateHalfOpen"
    "c_halfOpenProbes (circuit_at cb p m) + int (length ts) < cb_HalfOpenMaxProbes cb"
  shows "c_state (circuit_at (success_run cb p pn m ts) p m) = StateHalfOpen \<and>
    c_halfOpenProbes (circuit_at (success_run cb p pn m ts) p m) =
      c_halfOpenProbes (circuit_at cb p m) + int (length ts) \<and>
    cb_HalfOpenMaxProbes (success_run cb p pn m ts) = cb_HalfOpenMaxProbes cb"
  using assms
proof (induction ts arbitrary: cb)
  case (Cons t ts)
  let ?cb = "fst (RecordSuccess cb p pn m t)" and ?cause = "\<lparr>cause_Status = 0, cause_Reason = causeSuccess\<rparr>"
  have mp: "cb_HalfOpenMaxProbes ?cb = cb_HalfOpenMaxProbes cb"
    using RecordSuccess_config [of cb p pn m t] by (simp add: same_config_def)
  have log: "logicalStateWith (circuit_at cb p m) (cooldowns cb) t = StateHalfOpen"
    using Cons.prems(1) by (simp add: logicalStateWith_def)
  have pr: "c_halfOpenProbes (record_entry cb (circuit_at cb p m) ?cause t) = c_halfOpenProbes (circuit_at cb p m)"
    using Cons.prems(1) by (simp add: record_entry_probes)
  have lt: "c_halfOpenProbes (record_entry cb (circuit_at cb p m) ?cause t) + 1 < cb_HalfOpenMaxProbes cb"
    using Cons.prems(2) pr by simp
  note bank = success_banks_probe [OF log lt, of True]
  have "c_state (circuit_at ?cb p m) = StateHalfOpen"
    "c_halfOpenProbes (circuit_at ?cb p m) = c_halfOpenProbes (circuit_at cb p m) + 1"
    using bank pr by (simp_all add: RecordSuccess_at)
  with Cons.IH [of ?cb] Cons.prems(2) mp show ?case by simp
qed simp

text \<open>The first success of a recovery: it finds the circuit owed a probe or half-open.\<close>

lemma success_first:
  assumes "c_state (circuit_at cb p m) = StateOpen" "\<not> blocking (circuit_at cb p m) (cooldowns cb) t"
    "1 < cb_HalfOpenMaxProbes cb"
  shows "c_state (circuit_at (fst (RecordSuccess cb p pn m t)) p m) = StateHalfOpen"
    "c_halfOpenProbes (circuit_at (fst (RecordSuccess cb p pn m t)) p m) = 1"
proof -
  let ?cause = "\<lparr>cause_Status = 0, cause_Reason = causeSuccess\<rparr>"
  have log: "logicalStateWith (circuit_at cb p m) (cooldowns cb) t = StateHalfOpen"
    using assms(1,2) by (simp add: logicalStateWith_def blocking_def)
  have pr: "c_halfOpenProbes (record_entry cb (circuit_at cb p m) ?cause t) = 0"
    using assms(1,2) by (simp add: record_entry_probes)
  have lt: "c_halfOpenProbes (record_entry cb (circuit_at cb p m) ?cause t) + 1 < cb_HalfOpenMaxProbes cb"
    using pr assms(3) by simp
  show "c_state (circuit_at (fst (RecordSuccess cb p pn m t)) p m) = StateHalfOpen"
    "c_halfOpenProbes (circuit_at (fst (RecordSuccess cb p pn m t)) p m) = 1"
    using success_banks_probe [OF log lt, of True] pr by (simp_all add: RecordSuccess_at)
qed

lemma recovery_run:
  assumes "c_state (circuit_at cb p m) = StateOpen" "\<not> blocking (circuit_at cb p m) (cooldowns cb) t"
    "int (length (t # ts)) < cb_HalfOpenMaxProbes cb"
  shows "c_state (circuit_at (success_run cb p pn m (t # ts)) p m) = StateHalfOpen \<and>
    c_halfOpenProbes (circuit_at (success_run cb p pn m (t # ts)) p m) = int (length (t # ts)) \<and>
    cb_HalfOpenMaxProbes (success_run cb p pn m (t # ts)) = cb_HalfOpenMaxProbes cb"
proof -
  have "1 < cb_HalfOpenMaxProbes cb" using assms(3) by simp
  note first = success_first [OF assms(1,2) this, of pn]
  have mp: "cb_HalfOpenMaxProbes (fst (RecordSuccess cb p pn m t)) = cb_HalfOpenMaxProbes cb"
    using RecordSuccess_config [of cb p pn m t] by (simp add: same_config_def)
  show ?thesis
    using success_run_probes [OF first(1), of ts pn] first(2) mp assms(3) by simp
qed

lemma recovery_closes:
  assumes "c_state (circuit_at cb p m) = StateOpen" "\<not> blocking (circuit_at cb p m) (cooldowns cb) (hd ts)"
    "int (length ts) = cb_HalfOpenMaxProbes cb" "ts \<noteq> []"
    "d = circuit_at (success_run cb p pn m ts) p m"
  shows "c_state d = StateClosed" "c_consecutiveFails d = 0" "c_cooldownOverride d = 0"
    "c_pinSource d = ''''" "c_failedProbes d = 0" "c_cooldownBackoff d = 0" "c_opens429Streak d = 0"
proof -
  obtain us t where ts: "ts = us @ [t]" using assms(4) by (metis rev_exhaust)
  let ?cb = "success_run cb p pn m us" and ?cause = "\<lparr>cause_Status = 0, cause_Reason = causeSuccess\<rparr>"
  let ?c = "circuit_at ?cb p m"
  have "logicalStateWith ?c (cooldowns ?cb) t = StateHalfOpen \<and>
      cb_HalfOpenMaxProbes ?cb \<le> c_halfOpenProbes (record_entry ?cb ?c ?cause t) + 1"
  proof (cases us)
    case Nil
    with ts assms(1-3) show ?thesis
      by (simp add: logicalStateWith_def blocking_def record_entry_probes)
  next
    case (Cons u us')
    have hd: "hd ts = u" and len: "int (length us) + 1 = cb_HalfOpenMaxProbes cb"
      using ts Cons assms(3) by simp_all
    have "\<not> blocking (circuit_at cb p m) (cooldowns cb) u" using assms(2) hd by simp
    from recovery_run [OF assms(1) this, of us' pn] len Cons
    show ?thesis by (simp add: logicalStateWith_def record_entry_probes)
  qed
  note close = success_closes [OF this [THEN conjunct1] this [THEN conjunct2] refl, where served = True]
  have d: "d = success_result ?cb ?c True ?cause t"
    by (simp add: assms(5) ts success_run_append RecordSuccess_at)
  show "c_state d = StateClosed" "c_consecutiveFails d = 0" "c_cooldownOverride d = 0"
    "c_pinSource d = ''''" "c_failedProbes d = 0" "c_cooldownBackoff d = 0" "c_opens429Streak d = 0"
    unfolding d using close by simp_all
qed

subsection \<open>An exhausted answer\<close>

text \<open>A pair that is not blocking opens on one exhausted answer.\<close>

lemma exhausted_opens:
  assumes "\<not> blocking c (cooldowns cb) now"
  obtains c' where "exhausted_result cb p c st h a g now = open_result cb p c' (st = 429) h a g now"
    "c_consecutiveFails c' = effectiveThreshold cb"
    "c_failedProbes c' \<in> {c_failedProbes c, c_failedProbes c + 1}"
    "c_opens429Streak c' = c_opens429Streak c"
proof -
  let ?e = "record_entry cb c (UpstreamStatus st causeExhausted) now"
  have "c_state ?e \<noteq> StateOpen"
    using assms record_entry_state [of cb c "UpstreamStatus st causeExhausted" now] logicalState_cases(1)
    by simp
  then consider "c_state ?e = StateClosed" | "c_state ?e = StateHalfOpen" by (cases "c_state ?e") auto
  then show ?thesis
  proof cases
    case 1
    show ?thesis
      by (rule that [of "?e\<lparr>c_consecutiveFails := effectiveThreshold cb\<rparr>"])
        (simp_all add: exhausted_result_def 1 Let_def)
  next
    case 2
    show ?thesis
      by (rule that [of "?e\<lparr>c_consecutiveFails := effectiveThreshold cb,
          c_failedProbes := (if \<not> pinProbes (c_pinSource ?e) \<or> pinProbeInterval cb \<le> 0
            then c_failedProbes ?e + 1 else c_failedProbes ?e)\<rparr>"])
        (simp_all add: exhausted_result_def 2 Let_def)
  qed
qed

text \<open>The pin an opened circuit carries when the candidate clears the wait it would serve.\<close>

lemma open_result_pinned:
  assumes "config_ok cb" "rng_ok g" "quotaPinEnabled cb"
    "unpinnedCooldownWith (backed_circuit cb c b now) (cooldowns cb) < fst (pin_candidate cb p h a now)"
    "unpinnedCooldownWith (backed_circuit cb c b now) (cooldowns cb) < quotaPinMax cb"
    "d = open_result cb p c b h a g now"
    "q = min (fst (pin_candidate cb p h a now)) (quotaPinMax cb)"
  shows "c_pinSource d = snd (pin_candidate cb p h a now)"
    "q \<le> c_cooldownOverride d" "c_cooldownOverride d \<le> q + q div 20"
    "unpinnedCooldownWith d (cooldowns cb) < c_cooldownOverride d"
    "quotaPinnedForWith d (cooldowns cb)" "blocking d (cooldowns cb) now"
proof -
  let ?b = "backed_circuit cb c b now"
  have gate: "gate_view d = gate_view (applyQuotaPin cb p ?b h a g now)"
    using open_result_gate assms(6) by simp
  have fl: "0 \<le> unpinnedCooldownWith ?b (cooldowns cb)"
    using unpinned_ge_base [of "cooldowns cb" ?b] config_reads_pos(1) [OF assms(1)] by simp
  obtain e where e: "clampPin (fst (pin_candidate cb p h a now)) (quotaPinMax cb)
      (unpinnedCooldownWith ?b (cooldowns cb)) g = Some e"
    "applyQuotaPin cb p ?b h a g now = ?b\<lparr>c_cooldownOverride := e,
       c_pinSource := snd (pin_candidate cb p h a now), c_probeSeed := rng_Float64 g\<rparr>"
  proof (cases rule: applyQuotaPin_cases [of cb p ?b h a g now])
    case none
    with assms(3-5) show ?thesis by (simp add: quotaPinEnabled_def)
  next
    case (pin e)
    then show ?thesis using that by blast
  qed
  note bounds = clampPin_bounds [OF e(1) fl config_reads_pos(4) [OF assms(1)] assms(2)]
  note eq = gate_view_eqD [OF gate, unfolded e(2), simplified]
  show "c_pinSource d = snd (pin_candidate cb p h a now)" using eq by simp
  show "q \<le> c_cooldownOverride d" "c_cooldownOverride d \<le> q + q div 20"
    using eq bounds assms(7) by simp_all
  have up: "unpinnedCooldownWith d (cooldowns cb) = unpinnedCooldownWith ?b (cooldowns cb)"
    using eq by (simp add: unpinnedCooldownWith_def backedOffForWith_def)
  then show "unpinnedCooldownWith d (cooldowns cb) < c_cooldownOverride d" using bounds eq by simp
  show "quotaPinnedForWith d (cooldowns cb)"
    using assms(3) bounds(1) fl eq by (simp add: quotaPinnedForWith_def pinEnabled_def quotaPinEnabled_def)
  have "c_probeSeed d = rng_Float64 g" using eq by simp
  moreover have "e < 2 ^ 63"
    using clampPin_range [OF e(1) fl config_reads_pos(4) [OF assms(1)] assms(2)] by simp
  moreover have "unpinnedCooldownWith ?b (cooldowns cb) < 2 ^ 62"
    using assms(5) config_reads_pos(4) [OF assms(1)] by (simp add: pin_ceiling_ok_def)
  ultimately have "waits_ok d (cooldowns cb)"
    using up eq assms(1,2) config_reads_pos(1) [OF assms(1)]
    by (simp add: waits_ok_def rng_ok_def config_ok_def)
  from cooldown_range(1) [OF this] show "blocking d (cooldowns cb) now"
    using assms(6) by (simp add: blocking_def stillDark_def)
qed

text \<open>The wait a freshly opened circuit would serve unpinned: its backoff or the base.\<close>

lemma backed_fresh:
  assumes "c_failedProbes c = 0" "config_ok cb"
  shows "unpinnedCooldownWith (backed_circuit cb c b now) (cooldowns cb) = effectiveCooldown cb"
proof -
  have "c_cooldownBackoff (backed_circuit cb c b now) = 0"
    using assms by (simp add: backed_circuit_def applyBackoff_def Let_def)
  then show ?thesis
    using config_reads_pos(1) [OF assms(2)] by (simp add: unpinnedCooldownWith_def backedOffForWith_def)
qed

subsection \<open>How the poller changes the waits\<close>

lemma unpinned_wait:
  "effectiveCooldownForWith (unpinned reason c now) r = unpinnedCooldownWith c r"
  "unpinnedCooldownWith (unpinned reason c now) r = unpinnedCooldownWith c r"
  by (simp_all add: unpinned_def effectiveCooldownForWith_def quotaPinnedForWith_def
      unpinnedCooldownWith_def backedOffForWith_def Let_def)

lemma clear429_wait [simp]:
  "effectiveCooldownForWith (clear429Escalation c) r = effectiveCooldownForWith c r"
  "unpinnedCooldownWith (clear429Escalation c) r = unpinnedCooldownWith c r"
  using cooldown_gate_view [OF gate_view_clear429] unpinned_gate_view [OF gate_view_clear429] by blast+

lemma release_shortens:
  assumes "waits_ok c r" "release_result now m c = Some d"
  shows "effectiveCooldownForWith d r \<le> effectiveCooldownForWith c r"
  using assms cooldown_ge_unpinned [OF assms(1)]
  by (auto simp: release_result_def unpinned_wait split: if_splits)

lemma release_clears_account:
  assumes "release_result now m c = Some d" "circuit_ok mp c"
  shows "\<not> (quotaPinnedForWith d r \<and> pinSpeaksForAccount (c_pinSource d))"
    "c_pinSource c = pinSourceResponse \<Longrightarrow>
       c_cooldownOverride d = c_cooldownOverride c \<and> c_pinSource d = c_pinSource c"
  using assms
  by (auto simp: release_result_def quotaPinnedForWith_def unpinned_def pinSpeaksForAccount_def
      pin_source_defs split: if_splits)

lemma retarget_lengthens:
  assumes "circuit_ok mp c" "config_ok cb" "\<And>m. rng_ok (g m)" "quotaPinEnabled cb"
  shows "effectiveCooldownForWith c (cooldowns cb) \<le>
    effectiveCooldownForWith (retarget_result (quotaPinMax cb) (cooldowns cb) adv now g m c) (cooldowns cb)"
proof (cases "logicalStateWith c (cooldowns cb) now = StateOpen")
  case False
  then show ?thesis by (simp add: retarget_result_def)
next
  case True
  let ?r = "cooldowns cb"
  show ?thesis
  proof (cases "clampPin (time_sub (adv_ResetsAt adv) (c_openedAt c)) (quotaPinMax cb)
        (effectiveCooldownForWith c ?r) (g m)")
    case None
    with True show ?thesis
      using advisorPinSource_facts
      by (auto simp: retarget_result_def effectiveCooldownForWith_def Let_def quotaPinnedForWith_def
          unpinnedCooldownWith_def backedOffForWith_def pinProbes_def pin_source_defs)
  next
    case (Some d)
    have pos: "0 < effectiveCooldownForWith c ?r"
      using cooldown_range(1) [OF circuit_waits_ok [OF assms(1,2)]] .
    then have lt: "effectiveCooldownForWith c ?r < d"
      using clampPin_bounds(1) [OF Some _ config_reads_pos(4) [OF assms(2)] assms(3)] by simp
    let ?d = "retarget_result (quotaPinMax cb) ?r adv now g m c"
    have d: "c_cooldownOverride ?d = d" "c_pinSource ?d = advisorPinSource adv"
      using True Some by (simp_all add: retarget_result_def)
    have "quotaPinnedForWith ?d ?r"
      using lt pos d assms(4) by (simp add: quotaPinnedForWith_def pinEnabled_def quotaPinEnabled_def)
    from advisor_pin_full [OF this] d advisorPinSource_facts(3) lt show ?thesis by simp
  qed
qed

lemma retarget_untouched:
  "\<not> blocking c r now \<Longrightarrow> retarget_result maxPin r adv now g m c = c"
  using logicalState_cases(1) [of c r now] by (simp add: retarget_result_def)

lemma seed_blocks:
  assumes "config_ok cb" "rng_ok g" "quotaPinEnabled cb"
    "clampPin (time_sub (adv_ResetsAt adv) now) (quotaPinMax cb) (effectiveCooldown cb) g = Some d"
    "e = seed_result thr adv d g now c"
  shows "blocking e (cooldowns cb) now" "quotaPinnedForWith e (cooldowns cb)"
    "pinSpeaksForAccount (c_pinSource e)"
proof -
  have base: "0 < effectiveCooldown cb" using config_reads_pos(1) [OF assms(1)] .
  have d: "0 < d" using clampPin_range(1) [OF assms(4) _ config_reads_pos(4) [OF assms(1)] assms(2)] base by simp
  have src: "c_pinSource e = advisorPinSource adv" "c_cooldownOverride e = d" "c_openedAt e = now"
    "c_state e = StateOpen" by (simp_all add: assms(5) seed_result_def)
  show pin: "quotaPinnedForWith e (cooldowns cb)"
    using d src assms(3) by (simp add: quotaPinnedForWith_def pinEnabled_def quotaPinEnabled_def)
  show "pinSpeaksForAccount (c_pinSource e)" using src advisorPinSource_facts(4) by simp
  have "d \<le> effectiveCooldownForWith e (cooldowns cb)"
    using advisor_pin_full [OF pin] src advisorPinSource_facts(3) by simp
  with d src show "blocking e (cooldowns cb) now" by (simp add: blocking_def stillDark_def)
qed

lemma account_pin_downs_provider:
  assumes "breaker_wf cb" "getCircuit cb p m = Some c" "blocking c (cooldowns cb) now"
    "quotaPinnedForWith c (cooldowns cb)" "pinSpeaksForAccount (c_pinSource c)"
  shows "provider_down cb p now"
  using assms by (auto simp: provider_down_iff is_account_pinned_iff)

lemma IsOpen_when_down:
  "breaker_wf cb \<Longrightarrow> provider_down cb p now \<Longrightarrow> snd (snd (IsOpen cb p pn m now now))"
  by (simp add: IsOpen_answer)

text \<open>One refusal that speaks for the account turns every model of the provider away.\<close>

lemma account_refusal_down:
  assumes "breaker_ok cb" "c_state (circuit_at cb p m) = StateClosed" "cb_quota cb = None"
    "rng_ok g" "effectiveCooldown cb < h" "effectiveCooldown cb < quotaPinMax cb"
  shows "snd (snd (IsOpen (fst (RecordExhaustedAccount cb p pn m st h g now)) p pn' m' now now))"
proof -
  note ok = assms(1)
  note cfg = breaker_okD(2) [OF ok]
  let ?cb = "fst (RecordExhaustedAccount cb p pn m st h g now)" and ?c = "circuit_at cb p m"
  let ?e = "(record_entry cb ?c (UpstreamStatus st causeExhausted) now)\<lparr>c_consecutiveFails := effectiveThreshold cb\<rparr>"
  let ?d = "open_result cb p ?e (st = 429) h True g now"
  have fp: "c_failedProbes ?c = 0" using circuit_at_ok [OF ok, of p m] assms(2) by (simp add: circuit_ok_def)
  have wf: "breaker_wf ?cb"
    unfolding RecordExhaustedAccount_def by (rule exhausted.op_wf [OF breaker_okD(1) [OF ok]])
  have cd: "cooldowns ?cb = cooldowns cb"
    unfolding RecordExhaustedAccount_def by (rule exhausted.op_cooldowns)
  have get: "getCircuit ?cb p m = Some ?d"
    using assms(2) record_entry_state [of cb ?c "UpstreamStatus st causeExhausted" now]
    by (simp add: RecordExhaustedAccount_def recordExhausted_state exhausted_result_def Let_def logicalStateWith_def)
  have cand: "pin_candidate cb p h True now = (h, pinSourceAccount)" using assms(3) by (simp add: pin_candidate_def)
  have fl: "unpinnedCooldownWith (backed_circuit cb ?e (st = 429) now) (cooldowns cb) = effectiveCooldown cb"
    by (rule backed_fresh) (use fp cfg in simp_all)
  have en: "quotaPinEnabled cb" using assms(6) config_reads_pos(1) [OF cfg] by (simp add: quotaPinEnabled_def)
  have "unpinnedCooldownWith (backed_circuit cb ?e (st = 429) now) (cooldowns cb) <
      fst (pin_candidate cb p h True now)"
    "unpinnedCooldownWith (backed_circuit cb ?e (st = 429) now) (cooldowns cb) < quotaPinMax cb"
    using fl cand assms(5,6) by simp_all
  note pin = open_result_pinned [OF cfg assms(4) en this refl refl]
  have "provider_down ?cb p now"
    by (rule account_pin_downs_provider [OF wf get])
      (use pin cand in \<open>simp_all only: cd, simp add: pinSpeaksForAccount_def\<close>)
  then show ?thesis by (rule IsOpen_when_down [OF wf])
qed

subsection \<open>The verdict an event carries\<close>

text \<open>The verdict reads the gate fields of a circuit only, so the counters \<open>noteOpen\<close> keeps do
  not change it.\<close>

lemma verdict_gate_view:
  assumes "breaker_wf cb" "gate_view c = gate_view d"
  shows "provider_down (setCircuit cb p m c) p now = provider_down (setCircuit cb p m d) p now"
proof -
  note same = dark_gate_view [OF assms(2)] and src = gate_view_eqD(5) [OF assms(2)]
  have "is_blocked (setCircuit cb p m c) p m' now = is_blocked (setCircuit cb p m d) p m' now"
    "is_account_pinned (setCircuit cb p m c) p m' now = is_account_pinned (setCircuit cb p m d) p m' now" for m'
    using same src by (simp_all add: is_blocked_iff is_account_pinned_iff getCircuit_set)
  then show ?thesis
    using setCircuit_wf [OF assms(1)] by (simp add: provider_down_iff)
qed

lemma openCircuit_event:
  assumes "breaker_wf cb" "c1 = opened_circuit cb p c b h a g now"
  shows "\<exists>l mt rest. snd (openCircuit cb [] msg p pn m c b h a g now) =
    [LogWarn msg l, mt,
     PublishEvent \<lparr>ev_ID = '''', ev_Type = ''circuit_breaker.open'', ev_Severity = ''warning'',
       ev_Source = ''failover'',
       ev_Message = breaker_event_text pn ''open'' m c1 (cooldowns cb)
         (provider_down (fst (openCircuit cb [] msg p pn m c b h a g now)) p now),
       ev_Metadata = breaker_event_meta p pn ''open'' m c1 (cooldowns cb)
         (provider_down (fst (openCircuit cb [] msg p pn m c b h a g now)) p now),
       ev_Timestamp = now\<rparr>] @ rest"
proof -
  have v: "providerOpen cb (gm_inner (cb_circuits (setCircuit cb p m c1)) p) now =
      provider_down (fst (openCircuit cb [] msg p pn m c b h a g now)) p now"
  proof -
    have "provider_down (setCircuit cb p m c1) p now =
        provider_down (setCircuit cb p m (fst (noteOpen c1 now))) p now"
      by (rule verdict_gate_view [OF assms(1)]) simp
    then show ?thesis
      by (simp add: openCircuit_state open_result_def assms(2)) (simp add: provider_down_def)
  qed
  show ?thesis
    unfolding v [symmetric]
    by (simp add: openCircuit_def publishEvent_def after_add_def Let_def assms(2) [symmetric] split_beta
        severityForState_def)
qed

end
