(* ===== verification/Breaker_Properties.thy ===== *)
theory Breaker_Properties
  imports Breaker_Behaviour
begin

text \<open>
  The breaker's properties, each with a concrete run that meets its hypotheses. The runs start
  from a breaker with the struct's defaults (threshold 5, span 2, cooldown one minute, one
  probe, backoff ceiling 15 minutes, pin ceiling 24 hours, probe interval one hour).
\<close>

subsection \<open>Concrete breakers\<close>

definition ex_rng :: rng where
  "ex_rng = \<lparr>rng_Int64N = (\<lambda>n. 0), rng_Float64 = 1 / 2\<rparr>"

definition ex_t :: instant where "ex_t = 63000000000 * second"

definition ex_cause :: Cause where "ex_cause = UpstreamStatus 503 ''''"

definition ex_new :: CircuitBreaker where "ex_new = NewCircuitBreaker None"

text \<open>One model of provider \<open>p\<close> refused with a two hour hint at \<open>ex_t\<close>, and the same as an
  account-wide refusal.\<close>

definition ex_open :: CircuitBreaker where
  "ex_open = fst (RecordExhausted ex_new ''p'' ''P'' ''m'' 429 (2 * hour) ex_rng ex_t)"

definition ex_account :: CircuitBreaker where
  "ex_account = fst (RecordExhaustedAccount ex_new ''p'' ''P'' ''m'' 402 (2 * hour) ex_rng ex_t)"

definition ex_advice :: QuotaAdvice where
  "ex_advice = \<lparr>adv_ResetsAt = ex_t + 5 * hour, adv_Reserved = False\<rparr>"

lemma ex_rng_ok [simp]: "rng_ok ex_rng"
  by (simp add: rng_ok_def ex_rng_def)

lemma ex_breakers_ok: "breaker_ok ex_new" "breaker_ok ex_open" "breaker_ok ex_account"
  by code_simp+

lemmas ex_wf = ex_breakers_ok [THEN breaker_okD(1)]
lemmas ex_config = ex_breakers_ok [THEN breaker_okD(2)]

lemma ex_t_pos [simp]: "0 < ex_t"
  by (simp add: ex_t_def second_def)

lemma ex_new_reachable: "breaker_reachable ex_new"
  unfolding ex_new_def by (rule reach_new) (use ex_config(1) in \<open>simp add: ex_new_def\<close>)

lemma ex_open_reachable: "breaker_reachable ex_open"
  unfolding ex_open_def RecordExhausted_def
  by (rule reach_step [OF ex_new_reachable step_exhausted]) simp_all

subsection \<open>Admission\<close>



text \<open>
  C2. Every reachable breaker is well formed: the maps have distinct keys, no provider has an
  empty bucket and no name outlives its circuits, a pin and its source come and go together, a
  closed circuit carries no pin, backoff, failed probe or rate-limit streak, a circuit that is
  not closed knows when it opened, and a half-open circuit still owes probes.
\<close>

theorem reachable_invariant:
  assumes "breaker_reachable cb"
  shows "breaker_ok cb"
  using assms by (rule breaker_reachable_ok)

theorem reachable_invariant_witness:
  "breaker_reachable ex_open \<and> breaker_ok ex_open \<and> getCircuit ex_open ''p'' ''m'' \<noteq> None"
proof -
  have "getCircuit ex_open ''p'' ''m'' \<noteq> None" by code_simp
  then show ?thesis using reachable_invariant [OF ex_open_reachable] ex_open_reachable by simp
qed



subsection \<open>Opening and closing\<close>

text \<open>
  C19. A closed circuit opens on exactly the failure that makes its streak reach the threshold:
  after fewer consecutive failures it is still closed with the streak counted, and the failure
  that completes it opens the circuit at that instant.
\<close>

theorem opens_at_threshold:
  assumes "c_state (circuit_at cb p m) = StateClosed"
    "c_consecutiveFails (circuit_at cb p m) + int (length outs) + 1 = effectiveThreshold cb"
  shows "c_state (circuit_at (fail_run cb p pn m outs) p m) = StateClosed \<and>
    c_consecutiveFails (circuit_at (fail_run cb p pn m outs) p m) =
      c_consecutiveFails (circuit_at cb p m) + int (length outs) \<and>
    c_state (circuit_at (fail_run cb p pn m (outs @ [(cause, g, now)])) p m) = StateOpen \<and>
    c_openedAt (circuit_at (fail_run cb p pn m (outs @ [(cause, g, now)])) p m) = now"
  using fail_run_counts [OF assms(1), of outs pn] assms(2) fail_run_opens [OF assms, of pn cause g now]
  by simp

theorem opens_at_threshold_witness:
  "c_state (circuit_at (fail_run ex_new ''p'' ''P'' ''m'' (replicate 4 (ex_cause, ex_rng, ex_t))) ''p'' ''m'')
     = StateClosed \<and>
   c_state (circuit_at (fail_run ex_new ''p'' ''P'' ''m''
     (replicate 4 (ex_cause, ex_rng, ex_t) @ [(ex_cause, ex_rng, ex_t + 1)])) ''p'' ''m'') = StateOpen"
proof -
  have "c_state (circuit_at ex_new ''p'' ''m'') = StateClosed" by code_simp
  moreover have "c_consecutiveFails (circuit_at ex_new ''p'' ''m'') +
      int (length (replicate 4 (ex_cause, ex_rng, ex_t))) + 1 = effectiveThreshold ex_new"
    by code_simp
  ultimately show ?thesis
    using opens_at_threshold [of ex_new "''p''" "''m''" "replicate 4 (ex_cause, ex_rng, ex_t)" "''P''"]
    by blast
qed



text \<open>
  Late outcomes are ignored: an outcome that lands on a circuit still inside its cooldown
  changes nothing the breaker decides by, keeps the verdict that opened it, and emits nothing.
\<close>

theorem late_outcome_ignored:
  assumes "getCircuit cb p m = Some c" "blocking c (cooldowns cb) now"
  shows "getCircuit (fst (RecordFailure cb p pn m cause g now)) p m = Some (c\<lparr>c_lastCharged := now\<rparr>) \<and>
    getCircuit (fst (RecordExhausted cb p pn m st h g now)) p m = Some (c\<lparr>c_lastCharged := now\<rparr>) \<and>
    getCircuit (RecordSaturated cb p pn m now) p m = Some c \<and>
    getCircuit (fst (RecordSuccess cb p pn m now)) p m =
      Some (c\<lparr>c_lastCharged := now, c_lastSuccess := now\<rparr>)"
  using assms outcomes_while_blocking [OF assms(2)]
  by (simp add: RecordFailure_def RecordExhausted_def RecordSuccess_def record_states)

theorem late_outcome_ignored_witness:
  "\<exists>c. getCircuit ex_open ''p'' ''m'' = Some c \<and>
     getCircuit (fst (RecordSuccess ex_open ''p'' ''P'' ''m'' (ex_t + 1))) ''p'' ''m'' =
       Some (c\<lparr>c_lastCharged := ex_t + 1, c_lastSuccess := ex_t + 1\<rparr>)"
proof -
  have "is_blocked ex_open ''p'' ''m'' (ex_t + 1)" by code_simp
  then obtain c where "getCircuit ex_open ''p'' ''m'' = Some c" "blocking c (cooldowns ex_open) (ex_t + 1)"
    by (auto simp: is_blocked_iff)
  with late_outcome_ignored [OF this, where pn = "''P''"] show ?thesis by blast
qed

end
