(* ===== verification/Breaker_Wait_Properties.thy ===== *)
theory Breaker_Wait_Properties
  imports Breaker_Properties
begin

text \<open>
  Properties about how long circuits wait and whom a refusal speaks for: the probe backoff and
  its escalation, the bounds of the cooldown in force, the pin of an exhausted answer, the
  provider verdict, and the isolation of siblings and of other providers.
\<close>

subsection \<open>Backoff\<close>

lemma open_result_backoff:
  assumes "config_ok cb"
  shows "c_cooldownBackoff (open_result cb p c b h a g now) =
    (if c_failedProbes c = 0 \<or> backoffMax cb \<le> 0 \<or>
        backoff_ceiling cb (note429Open c now b) \<le> effectiveCooldown cb then 0
     else min (backoff_ceiling cb (note429Open c now b)) (effectiveCooldown cb * 2 ^ c_failedProbes c))"
proof -
  have "c_cooldownBackoff (open_result cb p c b h a g now) =
      c_cooldownBackoff (applyBackoff cb (note429Open (c\<lparr>c_state := StateOpen, c_openedAt := now\<rparr>) now b))"
    using gate_view_eqD(4) [OF open_result_gate [of cb p c b h a g now]] by (simp add: backed_circuit_def)
  moreover have "backoff_ceiling cb (note429Open (c\<lparr>c_state := StateOpen, c_openedAt := now\<rparr>) now b) =
      backoff_ceiling cb (note429Open c now b)"
    by (simp add: backoff_ceiling_def exhaustedEscalated_def note429Open_def)
  ultimately show ?thesis by (simp add: applyBackoff_spec [OF assms])
qed

lemma plain_open_not_escalated: "backoff_ceiling cb (note429Open c now False) = backoffMax cb"
  by (simp add: backoff_ceiling_def exhaustedEscalated_def note429Open_def opensBeforeEscalation_def)

text \<open>
  C21. A failed probe re-opens the circuit at once with one more failed probe counted, and the
  backoff it stamps is the base cooldown doubled once per failed probe, capped at the ceiling:
  \<open>min ceiling (base * 2 ^ failedProbes)\<close>, computed without leaving the range of an \<open>int64\<close>.
\<close>

theorem failed_probe_backs_off:
  assumes "breaker_reachable cb" "getCircuit cb p m = Some c"
    "logicalStateWith c (cooldowns cb) now = StateHalfOpen"
  shows "\<exists>d. getCircuit (fst (RecordFailure cb p pn m cause g now)) p m = Some d \<and>
    c_state d = StateOpen \<and> c_openedAt d = now \<and> c_failedProbes d = c_failedProbes c + 1 \<and>
    c_cooldownBackoff d =
      (if backoffMax cb \<le> effectiveCooldown cb then 0
       else min (backoffMax cb) (effectiveCooldown cb * 2 ^ (c_failedProbes c + 1)))"
proof -
  have cfg: "config_ok cb" using breaker_okD(2) [OF breaker_reachable_ok [OF assms(1)]] .
  note pos = config_reads_pos(1) [OF cfg]
  show ?thesis
    using assms(2) failure_of_probe [OF assms(3), of p False cause g] open_result_backoff [OF cfg] pos
    by (simp add: RecordFailure_def recordFailure_state plain_open_not_escalated)
qed

theorem failed_probe_backs_off_witness:
  "\<exists>c d. getCircuit ex_open ''p'' ''m'' = Some c \<and>
     getCircuit (fst (RecordFailure ex_open ''p'' ''P'' ''m'' ex_cause ex_rng (ex_t + 3 * hour))) ''p'' ''m'' = Some d \<and>
     c_failedProbes d = c_failedProbes c + 1"
proof -
  have "case getCircuit ex_open ''p'' ''m'' of None \<Rightarrow> False
      | Some c \<Rightarrow> logicalStateWith c (cooldowns ex_open) (ex_t + 3 * hour) = StateHalfOpen"
    by code_simp
  then obtain c where "getCircuit ex_open ''p'' ''m'' = Some c"
      "logicalStateWith c (cooldowns ex_open) (ex_t + 3 * hour) = StateHalfOpen"
    by (auto split: option.splits)
  with failed_probe_backs_off [OF ex_open_reachable this] show ?thesis by blast
qed

text \<open>
  Escalation: a circuit whose third or later consecutive open inside the window came from
  an unclassified rate limit backs off towards the quota pin ceiling instead of the ordinary
  one; any open that is not rate-limited ends the streak.
\<close>

theorem rate_limit_streak_escalates:
  assumes "breaker_reachable cb" "getCircuit cb p m = Some c"
    "logicalStateWith c (cooldowns cb) now = StateHalfOpen"
    "2 \<le> c_opens429Streak c" "c_open429WindowStart c \<noteq> 0"
    "time_sub now (c_open429WindowStart c) \<le> reopenWindow"
    "0 < backoffMax cb" "effectiveCooldown cb < max (backoffMax cb) (quotaPinMax cb)"
  shows "(\<exists>d. getCircuit (fst (RecordRateLimited cb p pn m cause g now)) p m = Some d \<and>
      c_cooldownBackoff d = min (max (backoffMax cb) (quotaPinMax cb))
        (effectiveCooldown cb * 2 ^ (c_failedProbes c + 1))) \<and>
    (\<exists>d. getCircuit (fst (RecordFailure cb p pn m cause g now)) p m = Some d \<and> c_opens429Streak d = 0)"
proof -
  have cfg: "config_ok cb" using breaker_okD(2) [OF breaker_reachable_ok [OF assms(1)]] .
  let ?e = "record_entry cb c cause now"
  let ?f = "?e\<lparr>c_consecutiveFails := effectiveThreshold cb, c_failedProbes := c_failedProbes c + 1\<rparr>"
  have w: "c_open429WindowStart ?e = c_open429WindowStart c"
    by (simp add: record_entry_def circuit_note_def Let_def)
  have "backoff_ceiling cb (note429Open ?f now True) = max (backoffMax cb) (quotaPinMax cb)"
    using assms(4-6) w
    by (simp add: backoff_ceiling_def exhaustedEscalated_def note429Open_def opensBeforeEscalation_def)
  moreover have "c_opens429Streak (open_result cb p ?f False 0 False g now) = 0"
    by (simp add: open_result_def opened_circuit_def note429Open_def)
  ultimately show ?thesis
    using assms(2,7,8) failure_of_probe [OF assms(3), of p True cause g]
      failure_of_probe [OF assms(3), of p False cause g] open_result_backoff [OF cfg]
    by (simp add: RecordRateLimited_def RecordFailure_def recordFailure_state) linarith
qed

definition ex_limited :: "nat \<Rightarrow> CircuitBreaker" where
  "ex_limited n = fold (\<lambda>i cb. fst (RecordRateLimited cb ''p'' ''P'' ''m'' ex_cause ex_rng
     (ex_t + int i * 20 * minute))) [0..<n] ex_new"

lemma ex_limited_reachable: "breaker_reachable (ex_limited n)"
proof (induction n)
  case 0
  then show ?case using ex_new_reachable by (simp add: ex_limited_def)
next
  case (Suc n)
  have pos: "0 < ex_t + int n * 20 * minute" by (simp add: ex_t_def second_def minute_def)
  have "ex_limited (Suc n) = fst (recordFailure (ex_limited n) ''p'' ''P'' ''m'' True ex_cause ex_rng
      (ex_t + int n * 20 * minute))"
    by (simp add: ex_limited_def RecordRateLimited_def)
  with reach_step [OF Suc.IH step_failure [OF pos ex_rng_ok]] show ?case by simp
qed

theorem rate_limit_streak_escalates_witness:
  "\<exists>d. getCircuit (fst (RecordRateLimited (ex_limited 6) ''p'' ''P'' ''m'' ex_cause ex_rng (ex_t + 140 * minute)))
       ''p'' ''m'' = Some d \<and> c_cooldownBackoff d = min (24 * hour) (minute * 2 ^ 2)"
proof -
  let ?cb = "ex_limited 6" and ?now = "ex_t + 140 * minute"
  have "case getCircuit ?cb ''p'' ''m'' of None \<Rightarrow> False
      | Some c \<Rightarrow> logicalStateWith c (cooldowns ?cb) ?now = StateHalfOpen \<and> 2 \<le> c_opens429Streak c \<and>
          c_open429WindowStart c \<noteq> 0 \<and> time_sub ?now (c_open429WindowStart c) \<le> reopenWindow \<and>
          c_failedProbes c = 1"
    by code_simp
  then obtain c where c: "getCircuit ?cb ''p'' ''m'' = Some c"
      "logicalStateWith c (cooldowns ?cb) ?now = StateHalfOpen" "2 \<le> c_opens429Streak c"
      "c_open429WindowStart c \<noteq> 0" "time_sub ?now (c_open429WindowStart c) \<le> reopenWindow"
      "c_failedProbes c = 1"
    by (auto split: option.splits)
  have r: "0 < backoffMax ?cb" "effectiveCooldown ?cb < max (backoffMax ?cb) (quotaPinMax ?cb)"
    "max (backoffMax ?cb) (quotaPinMax ?cb) = 24 * hour" "effectiveCooldown ?cb = minute"
    by code_simp+
  show ?thesis
    using rate_limit_streak_escalates [OF ex_limited_reachable c(1-5) r(1,2), of "''P''" ex_cause ex_rng] c(6) r(3,4)
    by simp
qed

subsection \<open>The cooldown in force\<close>

text \<open>
  The cooldown in force never undercuts the configured one, nor the wait the circuit would
  serve unpinned, and never exceeds the longest of its reasons to wait. A pin inferred from a
  response makes a circuit wait at most one probe interval, spread by a twentieth, beyond which
  only the unpinned wait counts; a measured pin is served in full.
\<close>

theorem cooldown_in_force:
  assumes "breaker_reachable cb" "getCircuit cb p m = Some c"
  shows "effectiveCooldown cb \<le> unpinnedCooldownWith c (cooldowns cb) \<and>
    unpinnedCooldownWith c (cooldowns cb) \<le> effectiveCooldownForWith c (cooldowns cb) \<and>
    effectiveCooldownForWith c (cooldowns cb) \<le>
      max (unpinnedCooldownWith c (cooldowns cb)) (c_cooldownOverride c) \<and>
    (pinProbes (c_pinSource c) \<longrightarrow> 0 < pinProbeInterval cb \<longrightarrow>
       effectiveCooldownForWith c (cooldowns cb) \<le>
         max (pinProbeInterval cb) (unpinnedCooldownWith c (cooldowns cb)) + pinProbeInterval cb div 20 + 1) \<and>
    (quotaPinnedForWith c (cooldowns cb) \<longrightarrow> \<not> pinProbes (c_pinSource c) \<longrightarrow>
       effectiveCooldownForWith c (cooldowns cb) =
         max (unpinnedCooldownWith c (cooldowns cb)) (c_cooldownOverride c))"
proof -
  note ok = breaker_reachable_ok [OF assms(1)]
  note w = circuit_waits_ok [OF breaker_okD(3) [OF ok assms(2)] breaker_okD(2) [OF ok]]
  show ?thesis
    using unpinned_ge_base [of "cooldowns cb" c] cooldown_ge_unpinned [OF w] cooldown_le_longest
      response_pin_probe_interval [OF w] advisor_pin_full [of c "cooldowns cb"] by simp
qed

theorem cooldown_in_force_witness:
  "\<exists>c. getCircuit ex_open ''p'' ''m'' = Some c \<and> pinProbes (c_pinSource c) \<and>
     effectiveCooldownForWith c (cooldowns ex_open) \<le> hour + hour div 20 + 1 \<and>
     c_cooldownOverride c = 2 * hour"
proof -
  have "case getCircuit ex_open ''p'' ''m'' of None \<Rightarrow> False
      | Some c \<Rightarrow> pinProbes (c_pinSource c) \<and> c_cooldownOverride c = 2 * hour \<and>
          unpinnedCooldownWith c (cooldowns ex_open) = minute"
    "pinProbeInterval ex_open = hour"
    by code_simp+
  then obtain c where c: "getCircuit ex_open ''p'' ''m'' = Some c" "pinProbes (c_pinSource c)"
      "c_cooldownOverride c = 2 * hour" "unpinnedCooldownWith c (cooldowns ex_open) = minute"
      "pinProbeInterval ex_open = hour"
    by (auto split: option.splits)
  have "max hour minute = hour" "0 < hour" by (simp_all add: hour_def minute_def)
  with cooldown_in_force [OF ex_open_reachable c(1)] c show ?thesis by auto
qed

subsection \<open>Exhausted answers\<close>



text \<open>
  A refusal of the account darkens the whole provider on that one answer: every model of
  it is turned away at once, tried or not.
\<close>

theorem account_refusal_darkens_provider:
  assumes "breaker_reachable cb" "c_state (circuit_at cb p m) = StateClosed" "cb_quota cb = None"
    "rng_ok g" "effectiveCooldown cb < h" "effectiveCooldown cb < quotaPinMax cb"
  shows "snd (snd (IsOpen (fst (RecordExhaustedAccount cb p pn m st h g now)) p pn' m' now now))"
  by (rule account_refusal_down [OF breaker_reachable_ok [OF assms(1)] assms(2-6)])

theorem account_refusal_darkens_provider_witness:
  "snd (snd (IsOpen ex_account ''p'' ''P'' ''never tried'' ex_t ex_t))"
proof -
  have "c_state (circuit_at ex_new ''p'' ''m'') = StateClosed" "effectiveCooldown ex_new < 2 * hour"
    "effectiveCooldown ex_new < quotaPinMax ex_new" "cb_quota ex_new = None"
    by (code_simp, code_simp, code_simp, simp add: ex_new_def NewCircuitBreaker_def)
  then show ?thesis
    unfolding ex_account_def by (intro account_refusal_darkens_provider [OF ex_new_reachable]) simp_all
qed

text \<open>
  A refusal of one model is that model's evidence alone: as long as no sibling is blocking,
  the span asks for at least two models and the advisor is silent, an exhausted answer leaves
  every sibling of the provider admitted.
\<close>

theorem model_refusal_spares_siblings:
  assumes "breaker_reachable cb" "cb_quota cb = None" "2 \<le> effectiveSpan cb"
    "\<forall>m''. m'' \<noteq> m \<longrightarrow> \<not> is_blocked cb p m'' now" "\<not> is_blocked cb p m now" "m' \<noteq> m"
  shows "\<not> snd (snd (IsOpen (fst (RecordExhausted cb p pn m st h g now)) p pn' m' now now))"
proof -
  note ok = breaker_reachable_ok [OF assms(1)]
  note wf = breaker_okD(1) [OF ok]
  let ?cb = "fst (RecordExhausted cb p pn m st h g now)"
  have wf': "breaker_wf ?cb" unfolding RecordExhausted_def by (rule exhausted.op_wf [OF wf])
  have sib: "\<not> is_blocked ?cb p m'' now" if "m'' \<noteq> m" for m''
    using exhausted.other_pair(1) [OF wf, of p m'' p m] assms(4) that by (simp add: RecordExhausted_def)
  have "\<not> is_account_pinned ?cb p m'' now" for m''
  proof (cases "m'' = m")
    case False
    with sib account_pinned_blocked show ?thesis by blast
  next
    case True
    have "\<not> blocking (circuit_at cb p m) (cooldowns cb) now"
      using assms(5) by (auto simp: is_blocked_def circuit_at_def blocking_def new_circuit_def split: option.splits)
    then obtain c' where c': "exhausted_result cb p (circuit_at cb p m) st h False g now =
        open_result cb p c' (st = 429) h False g now"
      by (rule exhausted_opens)
    let ?q = "applyQuotaPin cb p (backed_circuit cb c' (st = 429) now) h False g now"
    have "c_pinSource ?q \<in> {'''', pinSourceResponse}"
      using assms(2)
      by (cases rule: applyQuotaPin_cases [of cb p "backed_circuit cb c' (st = 429) now" h False g now])
        (simp_all add: pin_candidate_def)
    then have "\<not> pinSpeaksForAccount (c_pinSource (open_result cb p c' (st = 429) h False g now))"
      using gate_view_eqD(5) [OF open_result_gate [of cb p c' "st = 429" h False g now]]
      by (auto simp: pinSpeaksForAccount_def pin_source_defs)
    with True c' show ?thesis
      by (simp add: is_account_pinned_def RecordExhausted_def recordExhausted_state)
  qed
  moreover have "card {m''. is_blocked ?cb p m'' now} \<le> 1"
  proof -
    have "{m''. is_blocked ?cb p m'' now} \<subseteq> {m}" using sib by blast
    from card_mono [OF _ this] show ?thesis by simp
  qed
  moreover have "effectiveSpan ?cb = effectiveSpan cb"
    unfolding RecordExhausted_def by (rule exhausted.op_span)
  ultimately have "\<not> provider_down ?cb p now"
    using assms(3) by (auto simp: provider_down_iff [OF wf'])
  with sib [OF assms(6)] show ?thesis by (simp add: IsOpen_answer [OF wf'])
qed

theorem model_refusal_spares_siblings_witness:
  "\<not> snd (snd (IsOpen ex_open ''p'' ''P'' ''n'' ex_t ex_t))"
proof -
  have "2 \<le> effectiveSpan ex_new" by code_simp
  moreover have "cb_quota ex_new = None" by (simp add: ex_new_def NewCircuitBreaker_def)
  moreover have "\<not> is_blocked ex_new ''p'' m'' ex_t" for m''
    by (simp add: is_blocked_def ex_new_def NewCircuitBreaker_def getCircuit_def gm_inner_def)
  moreover have "''n'' \<noteq> ''m''" by simp
  ultimately show ?thesis
    unfolding ex_open_def by (intro model_refusal_spares_siblings [OF ex_new_reachable]) blast+
qed

text \<open>
  Isolation: an outcome charges one circuit. Every other (provider, model) pair keeps its
  blocking status, every other provider its verdict; and an admission check that moves a circuit
  to half-open changes no other pair either.
\<close>

theorem outcome_isolation:
  assumes "breaker_reachable cb" "(p', m') \<noteq> (p, m)"
  shows "is_blocked (fst (recordFailure cb p pn m b cause g now)) p' m' t = is_blocked cb p' m' t \<and>
    is_blocked (fst (recordExhausted cb p pn m st h a g now)) p' m' t = is_blocked cb p' m' t \<and>
    is_blocked (fst (recordSuccess cb p pn m served cause now)) p' m' t = is_blocked cb p' m' t \<and>
    is_blocked (RecordSaturated cb p pn m now) p' m' t = is_blocked cb p' m' t \<and>
    is_blocked (fst (IsOpen_write cb p pn m now)) p' m' t = is_blocked cb p' m' t \<and>
    (p' \<noteq> p \<longrightarrow>
      provider_down (fst (recordFailure cb p pn m b cause g now)) p' t = provider_down cb p' t \<and>
      provider_down (fst (recordExhausted cb p pn m st h a g now)) p' t = provider_down cb p' t \<and>
      provider_down (fst (recordSuccess cb p pn m served cause now)) p' t = provider_down cb p' t)"
proof -
  note wf = breaker_okD(1) [OF breaker_reachable_ok [OF assms(1)]]
  show ?thesis
    by (intro conjI impI failure.other_pair(1) [OF wf assms(2)] exhausted.other_pair(1) [OF wf assms(2)]
        success.other_pair(1) [OF wf assms(2)] saturated.other_pair(1) [OF wf assms(2)]
        admit.other_pair(1) [OF wf assms(2)] failure.other_provider exhausted.other_provider
        success.other_provider)
qed

theorem outcome_isolation_witness:
  "is_blocked (fst (recordSuccess ex_open ''p'' ''P'' ''n'' True ex_cause ex_t)) ''p'' ''m'' ex_t"
proof -
  have "is_blocked ex_open ''p'' ''m'' ex_t" by code_simp
  moreover have "(''p'', ''m'') \<noteq> (''p'', ''n'')" by simp
  ultimately show ?thesis
    using outcome_isolation [OF ex_open_reachable, of "''p''" "''m''" "''p''" "''n''"] by blast
qed

end
