(* ===== verification/Breaker_Poll_Properties.thy ===== *)
theory Breaker_Poll_Properties
  imports Breaker_Properties
begin

text \<open>
  Properties of the quota poller's passes, and of what the breaker reports: the retry instant,
  the status rows, the events and the manual resets.
\<close>

subsection \<open>Releasing pins\<close>

text \<open>
  C23. A recovery only ever shortens waits, and only for providers affirmatively recovered:
  there no circuit keeps a pin that speaks for the account, a pin from one model's own refusal
  stays, every circuit that is not a seed keeps its state and failure counts and waits at most
  as long as before; every other provider is left as it was.
\<close>

theorem release_only_shortens:
  assumes "breaker_reachable cb" "distinct recovered" "getCircuit cb p m = Some c"
    "cb' = fst (ReleaseQuotaPins cb recovered now)"
  shows "(p \<notin> set recovered \<longrightarrow> getCircuit cb' p m = Some c) \<and>
    (p \<in> set recovered \<longrightarrow> m \<noteq> seededModel \<longrightarrow>
      (\<exists>d. getCircuit cb' p m = Some d \<and> same_incident c d \<and>
        effectiveCooldownForWith d (cooldowns cb) \<le> effectiveCooldownForWith c (cooldowns cb) \<and>
        (c_pinSource c = pinSourceResponse \<longrightarrow> c_cooldownOverride d = c_cooldownOverride c))) \<and>
    (p \<in> set recovered \<longrightarrow> \<not> is_account_pinned cb' p m t)"
proof -
  note ok = breaker_reachable_ok [OF assms(1)]
  note wf = breaker_okD(1) [OF ok]
  have get: "getCircuit cb' p m =
      (if p \<in> set recovered then release_result now m c else Some c)"
    using Release_get [OF wf assms(2), of now p m] assms(3,4) by simp
  have cok: "circuit_ok (cb_HalfOpenMaxProbes cb) c" using breaker_okD(3) [OF ok assms(3)] .
  note w = circuit_waits_ok [OF cok breaker_okD(2) [OF ok]]
  have "\<not> is_account_pinned cb' p m t" if "p \<in> set recovered"
  proof (cases "release_result now m c")
    case None
    with get that show ?thesis by (simp add: is_account_pinned_def)
  next
    case (Some d)
    with get that release_clears_account(1) [OF Some cok] show ?thesis by (simp add: is_account_pinned_def)
  qed
  moreover have "\<exists>d. getCircuit cb' p m = Some d \<and> same_incident c d \<and>
      effectiveCooldownForWith d (cooldowns cb) \<le> effectiveCooldownForWith c (cooldowns cb) \<and>
      (c_pinSource c = pinSourceResponse \<longrightarrow> c_cooldownOverride d = c_cooldownOverride c)"
    if r: "p \<in> set recovered" "m \<noteq> seededModel"
  proof -
    obtain d where d: "release_result now m c = Some d" "same_incident c d"
      using release_incident(1) [OF r(2)] by blast
    with get r release_shortens [OF w d(1)] release_clears_account(2) [OF d(1) cok] show ?thesis by simp
  qed
  ultimately show ?thesis using get by simp
qed

theorem release_only_shortens_witness:
  "is_account_pinned ex_account ''p'' ''m'' ex_t \<and>
   \<not> is_account_pinned (fst (ReleaseQuotaPins ex_account [''p''] (ex_t + 1))) ''p'' ''m'' ex_t"
proof -
  have pin: "is_account_pinned ex_account ''p'' ''m'' ex_t" by code_simp
  then obtain c where c: "getCircuit ex_account ''p'' ''m'' = Some c" by (auto simp: is_account_pinned_iff)
  have "breaker_reachable ex_account"
    unfolding ex_account_def RecordExhaustedAccount_def
    by (rule reach_step [OF ex_new_reachable step_exhausted]) simp_all
  from release_only_shortens [OF this _ c refl, of "[''p'']" "ex_t + 1" ex_t] pin show ?thesis by simp
qed

text \<open>
  Switching quota polling off releases every pin: no circuit carries one afterwards, seeds
  are gone, every other circuit keeps its incident, and a second pass finds nothing to release.
\<close>

theorem release_all_is_total_and_idempotent:
  assumes "breaker_reachable cb" "cb' = fst (ReleaseAllQuotaPins cb now)"
  shows "(\<forall>p m d. getCircuit cb' p m = Some d \<longrightarrow> c_cooldownOverride d = 0) \<and>
    (\<forall>p m c. getCircuit cb p m = Some c \<longrightarrow> m \<noteq> seededModel \<longrightarrow>
       (\<exists>d. getCircuit cb' p m = Some d \<and> same_incident c d)) \<and>
    (\<forall>p m. getCircuit (fst (ReleaseAllQuotaPins cb' now')) p m = getCircuit cb' p m)"
proof -
  note wf = breaker_okD(1) [OF breaker_reachable_ok [OF assms(1)]]
  have get: "getCircuit cb' p m = Option.bind (getCircuit cb p m) (releaseAll_result now m)" for p m
    using ReleaseAll_get [OF wf] assms(2) by simp
  have zero: "c_cooldownOverride d = 0" if "getCircuit cb' p m = Some d" for p m d
    using that unfolding get
    by (cases "getCircuit cb p m") (auto simp: releaseAll_result_def unpinned_def split: if_splits)
  have wf': "breaker_wf cb'" using ReleaseAll_wf [OF wf] assms(2) by simp
  have "getCircuit (fst (ReleaseAllQuotaPins cb' now')) p m = getCircuit cb' p m" for p m
    using zero [of p m] unfolding ReleaseAll_get [OF wf']
    by (cases "getCircuit cb' p m") (simp_all add: releaseAll_result_def)
  moreover have "\<exists>d. getCircuit cb' p m = Some d \<and> same_incident c d"
    if "getCircuit cb p m = Some c" "m \<noteq> seededModel" for p m c
    using that release_incident(2) [OF that(2), of now c] by (simp add: get)
  ultimately show ?thesis using zero by blast
qed

theorem release_all_is_total_and_idempotent_witness:
  "\<exists>d. getCircuit (fst (ReleaseAllQuotaPins ex_open ex_t)) ''p'' ''m'' = Some d \<and>
     c_cooldownOverride d = 0 \<and> c_state d = StateOpen"
proof -
  have "case getCircuit ex_open ''p'' ''m'' of None \<Rightarrow> False | Some c \<Rightarrow> c_state c = StateOpen" by code_simp
  then obtain c where c: "getCircuit ex_open ''p'' ''m'' = Some c" "c_state c = StateOpen"
    by (auto split: option.splits)
  have "''m'' \<noteq> seededModel" by (simp add: seededModel_def)
  with release_all_is_total_and_idempotent [OF ex_open_reachable refl, of ex_t ex_t] c(1)
  obtain d where "getCircuit (fst (ReleaseAllQuotaPins ex_open ex_t)) ''p'' ''m'' = Some d"
      "same_incident c d" "c_cooldownOverride d = 0"
    by metis
  with c(2) show ?thesis by (auto simp: same_incident_def)
qed

subsection \<open>Applying advice\<close>

text \<open>
  Fresh quota advice only ever lengthens waits and only touches circuits that are blocking:
  a circuit that is not a seed keeps its incident, its wait does not shrink, and when it was not
  blocking it is left exactly as it was (a closed one may be evicted to make room for the seed).
\<close>

theorem advice_only_lengthens:
  assumes "breaker_reachable cb" "gm_wf advice" "\<And>q m. rng_ok (g q m)" "m \<noteq> seededModel"
    "getCircuit cb p m = Some c" "c_state c \<noteq> StateClosed"
    "cb' = fst (ApplyQuotaPins cb advice names g gseed now)"
  shows "\<exists>d. getCircuit cb' p m = Some d \<and> same_incident c d \<and>
    effectiveCooldownForWith c (cooldowns cb) \<le> effectiveCooldownForWith d (cooldowns cb) \<and>
    (\<not> blocking c (cooldowns cb) now \<longrightarrow> d = c)"
proof -
  note ok = breaker_reachable_ok [OF assms(1)]
  note wf = breaker_okD(1) [OF ok]
  let ?sw = "sweepExpiredSeeds cb now"
  have sw: "getCircuit ?sw p m = Some c" using assms(4,5) by (simp add: sweep_get [OF wf] sweep_result_def)
  have reads: "cooldowns ?sw = cooldowns cb" "quotaPinMax ?sw = quotaPinMax cb"
    using same_config_reads(8,5) [OF sweep_config [of cb now]] .
  have cok: "circuit_ok (cb_HalfOpenMaxProbes cb) c" using breaker_okD(3) [OF ok assms(5)] .
  show ?thesis
  proof (cases "advice = [] \<or> \<not> quotaPinEnabled cb \<or> gm_get advice p = None")
    case True
    have "getCircuit cb' p m = Some c"
    proof (cases "advice = [] \<or> \<not> quotaPinEnabled cb")
      case True
      with sw assms(7) show ?thesis by (simp add: Apply_fst)
    next
      case False
      with True have "p \<notin> fst ` set advice" by (simp add: map_of_eq_None_iff)
      with False sw assms(7) advice_pass_facts(3) [OF sweep_wf [OF wf] assms(2) refl, of p]
      show ?thesis by (simp add: Apply_fst)
    qed
    then show ?thesis by simp
  next
    case False
    then obtain adv where adv: "gm_get advice p = Some adv" by blast
    let ?d = "retarget_result (quotaPinMax cb) (cooldowns cb) adv now (g p) m c"
    have "getCircuit cb' p m = Some ?d"
      using apply_post_other [OF advice_pass_facts(4) [OF sweep_wf [OF wf] assms(2) refl adv] assms(4) sw assms(6)]
        False assms(7) reads by (simp add: Apply_fst)
    moreover have "effectiveCooldownForWith c (cooldowns cb) \<le> effectiveCooldownForWith ?d (cooldowns cb)"
      using retarget_lengthens [OF cok breaker_okD(2) [OF ok], of "g p"] assms(3) False by blast
    ultimately show ?thesis using retarget_incident retarget_untouched by blast
  qed
qed

theorem advice_only_lengthens_witness:
  "\<exists>c d. getCircuit ex_open ''p'' ''m'' = Some c \<and>
     getCircuit (fst (ApplyQuotaPins ex_open [(''p'', ex_advice)] [] (\<lambda>_ _. ex_rng) (\<lambda>_. ex_rng) ex_t))
       ''p'' ''m'' = Some d \<and>
     effectiveCooldownForWith c (cooldowns ex_open) \<le> effectiveCooldownForWith d (cooldowns ex_open)"
proof -
  have "case getCircuit ex_open ''p'' ''m'' of None \<Rightarrow> False | Some c \<Rightarrow> c_state c = StateOpen" by code_simp
  then obtain c where c: "getCircuit ex_open ''p'' ''m'' = Some c" "c_state c = StateOpen"
    by (auto split: option.splits)
  have "c_state c \<noteq> StateClosed" "''m'' \<noteq> seededModel" "gm_wf [(''p'', ex_advice)]"
    using c(2) by (simp_all add: seededModel_def gm_wf_def)
  with advice_only_lengthens [OF ex_open_reachable, of "[(''p'', ex_advice)]" "\<lambda>_ _. ex_rng" "''m''" "''p''" c
      _ "[]" "\<lambda>_. ex_rng" ex_t] c
  show ?thesis by auto
qed

text \<open>
  Seeding: when the advice names a reset further out than the cooldown and pinning is on,
  the provider is down as soon as the pass returns, whatever its circuits were: a request for any
  of its models is turned away, with no upstream request spent to learn it.
\<close>

theorem advice_darkens_provider:
  assumes "breaker_reachable cb" "gm_wf advice" "\<And>q. rng_ok (gseed q)" "gm_get advice p = Some adv"
    "effectiveCooldown cb < time_sub (adv_ResetsAt adv) now" "effectiveCooldown cb < quotaPinMax cb"
    "cb' = fst (ApplyQuotaPins cb advice names g gseed now)"
  shows "snd (snd (IsOpen cb' p pn m now now))"
proof -
  note ok = breaker_reachable_ok [OF assms(1)]
  note wf = breaker_okD(1) [OF ok] and cfg = breaker_okD(2) [OF ok]
  let ?sw = "sweepExpiredSeeds cb now"
  note conf = sweep_config [of cb now]
  have reads: "cooldowns ?sw = cooldowns cb" "quotaPinMax ?sw = quotaPinMax cb"
    "effectiveThreshold ?sw = effectiveThreshold cb"
    using same_config_reads(8,5,1) [OF conf] .
  have en: "quotaPinEnabled cb" using assms(6) config_reads_pos(1) [OF cfg] by (simp add: quotaPinEnabled_def)
  have cb': "cb' = advice_pass ?sw advice names g gseed now"
    using assms(4,7) en by (auto simp: Apply_fst)
  note facts = advice_pass_facts [OF sweep_wf [OF wf] assms(2) cb']
  have cd: "cooldowns cb' = cooldowns cb"
    using same_config_reads(8) [OF same_config_trans [OF facts(2) conf]] .
  obtain d where d: "clampPin (time_sub (adv_ResetsAt adv) now) (quotaPinMax cb) (effectiveCooldown cb) (gseed p) = Some d"
    using assms(5,6) clampPin_None_iff [of "time_sub (adv_ResetsAt adv) now" "quotaPinMax cb" "effectiveCooldown cb" "gseed p"]
    by (cases "clampPin (time_sub (adv_ResetsAt adv) now) (quotaPinMax cb) (effectiveCooldown cb) (gseed p)") auto
  have "(\<exists>m c. getCircuit cb' p m = Some c \<and> blocking c (cooldowns cb) now \<and> quotaPinnedForWith c (cooldowns cb) \<and>
          pinSpeaksForAccount (c_pinSource c)) \<or>
        (\<exists>c. getCircuit cb' p seededModel = Some (seed_result (effectiveThreshold cb) adv d (gseed p) now c))"
    using facts(4) [OF assms(4)] d by (simp add: apply_post_def reads Let_def)
  then obtain m' c where "getCircuit cb' p m' = Some c" "blocking c (cooldowns cb) now"
      "quotaPinnedForWith c (cooldowns cb)" "pinSpeaksForAccount (c_pinSource c)"
    using seed_blocks [OF cfg assms(3) en d refl] by blast
  then have "provider_down cb' p now" using account_pin_downs_provider [OF facts(1)] cd by simp
  then show ?thesis by (rule IsOpen_when_down [OF facts(1)])
qed

theorem advice_darkens_provider_witness:
  "snd (snd (IsOpen (fst (ApplyQuotaPins ex_new [(''p'', ex_advice)] [] (\<lambda>_ _. ex_rng) (\<lambda>_. ex_rng) ex_t))
     ''p'' ''P'' ''never tried'' ex_t ex_t))"
proof -
  have "effectiveCooldown ex_new < time_sub (adv_ResetsAt ex_advice) ex_t"
    "effectiveCooldown ex_new < quotaPinMax ex_new" by code_simp+
  moreover have "gm_wf [(''p'', ex_advice)]" by (simp add: gm_wf_def)
  ultimately show ?thesis
    using advice_darkens_provider [OF ex_new_reachable, of "[(''p'', ex_advice)]" "\<lambda>_. ex_rng" "''p''" ex_advice ex_t]
    by auto
qed

subsection \<open>What is reported\<close>

text \<open>
  \<open>BlockedUntil\<close> never dereferences a missing circuit, says "blocked" exactly when the
  admission check would, and the retry instant it names is sound: it lies in the future, and
  until then, if nothing touches the breaker, the pair stays blocked.
\<close>

theorem blocked_until_sound:
  assumes "breaker_reachable cb"
  shows "\<exists>t q ok. BlockedUntil cb p m now = Some (t, q, ok) \<and>
    (ok \<longleftrightarrow> snd (snd (IsOpen cb p pn m now now))) \<and>
    (ok \<longrightarrow> now < t \<and> (\<forall>t'. now \<le> t' \<longrightarrow> t' < t \<longrightarrow> snd (snd (IsOpen cb p pn m t' t'))))"
proof -
  note ok = breaker_reachable_ok [OF assms]
  from BlockedUntil_spec [OF breaker_okD(1) [OF ok] breaker_waits_bounded [OF ok]]
  show ?thesis by (simp add: IsOpen_answer [OF breaker_okD(1) [OF ok]])
qed

theorem blocked_until_sound_witness:
  "\<exists>t q. BlockedUntil ex_open ''p'' ''m'' ex_t = Some (t, q, True) \<and> ex_t < t"
proof -
  have "snd (snd (IsOpen ex_open ''p'' ''P'' ''m'' ex_t ex_t))" by code_simp
  with blocked_until_sound [OF ex_open_reachable, of "''p''" "''m''" ex_t "''P''"] show ?thesis by auto
qed

text \<open>
  C24. The status rows agree with the admission check: there is a row for exactly the providers
  the breaker tracks, its verdict flag is the one requests are held to, its model list is the
  set of blocking models in order, and its state is the worst any of the provider's circuits is in.
\<close>

theorem status_agrees_with_admission:
  assumes "breaker_reachable cb"
  shows "ps_ProviderID ` set (Status cb now) = dom (gm_get (cb_circuits cb)) \<and>
    (\<forall>row \<in> set (Status cb now).
       ps_ProviderOpen row = provider_down cb (ps_ProviderID row) now \<and>
       set (ps_OpenModels row) = {m. is_blocked cb (ps_ProviderID row) m now} \<and>
       sorted (ps_OpenModels row) \<and>
       (\<exists>s. ps_State row = State_String s \<and>
          (\<forall>m c. getCircuit cb (ps_ProviderID row) m = Some c \<longrightarrow>
             logicalStateWith c (cooldowns cb) now \<le> s)))"
proof -
  note wf = breaker_okD(1) [OF breaker_reachable_ok [OF assms]]
  have "ps_ProviderID ` set (Status cb now) = dom (gm_get (cb_circuits cb))"
    unfolding Status_def
    using status_covers [OF wf, of _ _ False now] by (fastforce elim: status_row [OF wf])
  moreover have "ps_ProviderOpen row = provider_down cb (ps_ProviderID row) now \<and>
       set (ps_OpenModels row) = {m. is_blocked cb (ps_ProviderID row) m now} \<and>
       sorted (ps_OpenModels row) \<and>
       (\<exists>s. ps_State row = State_String s \<and>
          (\<forall>m c. getCircuit cb (ps_ProviderID row) m = Some c \<longrightarrow>
             logicalStateWith c (cooldowns cb) now \<le> s))"
    if row: "row \<in> set (Status cb now)" for row
  proof -
    obtain p ms c where r: "gm_get (cb_circuits cb) p = Some ms" "dominant ms (cooldowns cb) now = Some c"
        "ps_ProviderID row = p" "ps_ProviderOpen row = provider_down cb p now"
        "ps_OpenModels row = sorted_blocked cb p now"
        "ps_State row = State_String (logicalStateWith c (cooldowns cb) now)"
      using row unfolding Status_def by (rule status_row [OF wf]) blast
    have worst: "logicalStateWith c' (cooldowns cb) now \<le> logicalStateWith c (cooldowns cb) now"
      if "getCircuit cb p m = Some c'" for m c'
      using dominant_worst_state [OF _ r(2), of m c'] that breaker_wfD(3) [OF wf r(1)] r(1)
      by (simp add: getCircuit_bucket)
    have set_eq: "set (sorted_blocked cb p now) = {m. is_blocked cb p m now}"
      using sorted_blocked_set [OF wf] by blast
    have sorted_eq: "sorted (sorted_blocked cb p now)" by (simp add: sorted_blocked_def)
    show ?thesis
      unfolding r(3-6)
      by (intro conjI refl set_eq sorted_eq exI [of _ "logicalStateWith c (cooldowns cb) now"] allI impI)
        (rule worst)
  qed
  ultimately show ?thesis by blast
qed

theorem status_agrees_with_admission_witness:
  "\<exists>row \<in> set (Status ex_open ex_t). ps_ProviderID row = ''p'' \<and> set (ps_OpenModels row) = {m. is_blocked ex_open ''p'' m ex_t}"
proof -
  have "gm_get (cb_circuits ex_open) ''p'' \<noteq> None" by code_simp
  then have "''p'' \<in> dom (gm_get (cb_circuits ex_open))" by blast
  then have "''p'' \<in> ps_ProviderID ` set (Status ex_open ex_t)"
    unfolding status_agrees_with_admission [OF ex_open_reachable, of ex_t, THEN conjunct1] .
  then obtain row where row: "row \<in> set (Status ex_open ex_t)" "ps_ProviderID row = ''p''" by auto
  from bspec [OF status_agrees_with_admission [OF ex_open_reachable, of ex_t, THEN conjunct2] row(1)] row
  show ?thesis by (intro bexI [of _ row]) simp_all
qed

text \<open>
  The circuit that represents a provider and the circuit evicted at the per-provider cap do
  not depend on Go's map iteration order, and an eviction never drops a circuit that is open or
  half-open.
\<close>

theorem walks_are_deterministic:
  assumes "gm_wf ms" "gm_wf ms'" "set ms = set ms'"
  shows "dominant ms r now = dominant ms' r now \<and>
    providerReport cb ms r now = providerReport cb ms' r now \<and>
    gm_get (evictIfFull cb ms now) = gm_get (evictIfFull cb ms' now) \<and>
    (\<forall>m c. gm_get ms m = Some c \<longrightarrow> c_state c \<noteq> StateClosed \<longrightarrow> gm_get (evictIfFull cb ms now) m = Some c)"
  using dominant_order_free [OF assms] report_order_free [OF assms] evictIfFull_order_free [OF assms]
    evictIfFull_keeps_unhealthy [OF assms(1)] by blast

theorem walks_are_deterministic_witness:
  "dominant [(''a'', new_circuit), (''b'', new_circuit)] (cooldowns ex_new) ex_t =
   dominant [(''b'', new_circuit), (''a'', new_circuit)] (cooldowns ex_new) ex_t"
proof -
  have "gm_wf [(''a'', new_circuit), (''b'', new_circuit)]" "gm_wf [(''b'', new_circuit), (''a'', new_circuit)]"
    "set [(''a'', new_circuit), (''b'', new_circuit)] = set [(''b'', new_circuit), (''a'', new_circuit)]"
    by (auto simp: gm_wf_def)
  then show ?thesis using walks_are_deterministic by blast
qed

text \<open>
  The manual resets: a reset provider has no circuits left and reports the worst state it
  was in, one reset model leaves its siblings alone, and a full reset empties the breaker and
  counts every circuit discarded and every one that was not closed.
\<close>

theorem manual_resets:
  assumes "breaker_reachable cb"
  shows "getCircuit (fst (Reset cb p now)) p' m = (if p' = p then None else getCircuit cb p' m) \<and>
    (\<forall>m c. getCircuit cb p m = Some c \<longrightarrow> logicalStateWith c (cooldowns cb) now \<le> snd (snd (Reset cb p now))) \<and>
    getCircuit (fst (ResetModel cb p n now)) p' m = (if p' = p \<and> m = n then None else getCircuit cb p' m) \<and>
    snd (snd (snd (ResetModel cb p n now))) = (getCircuit cb p n \<noteq> None) \<and>
    getCircuit (fst (ResetAll cb now)) p' m = None \<and>
    snd (snd (ResetAll cb now)) =
      (sum_list (map (length \<circ> snd) (cb_circuits cb)),
       sum_list (map (\<lambda>(q, ms). length (filter (\<lambda>(m, c). c_state c \<noteq> StateClosed) ms)) (cb_circuits cb)))"
proof -
  note wf = breaker_okD(1) [OF breaker_reachable_ok [OF assms]]
  have worst: "logicalStateWith c (cooldowns cb) now \<le> snd (snd (Reset cb p now))"
    if c: "getCircuit cb p m = Some c" for m c
  proof -
    have "gm_inner (cb_circuits cb) p \<noteq> []" using c by (auto simp: getCircuit_def)
    then obtain d where "dominant (gm_inner (cb_circuits cb) p) (cooldowns cb) now = Some d"
      using dominant_None_iff [of "gm_inner (cb_circuits cb) p" "cooldowns cb" now] by auto
    with dominant_worst_state [OF breaker_wf_inner [OF wf] this, of m c] c show ?thesis
      by (simp add: Reset_prev [OF wf] getCircuit_def)
  qed
  have all: "fst (ResetAll cb now) = cb\<lparr>cb_circuits := [], cb_names := []\<rparr>"
    "snd (snd (ResetAll cb now)) = (fst (snd (resetAll cb now)), fst (snd (snd (resetAll cb now))))"
    by (simp_all add: ResetAll_def resetAll_def Let_def split_beta)
  have one: "snd (snd (snd (ResetModel cb p n now))) = (getCircuit cb p n \<noteq> None)"
    by (auto simp: ResetModel_def resetModel_def getCircuit_def split: option.split)
  have empty: "getCircuit (fst (ResetAll cb now)) p' m = None"
    by (simp add: all getCircuit_def gm_inner_def)
  show ?thesis
    using worst one all(2) empty ResetAll_counts [of cb now] dropCircuit_get [OF wf]
    by (auto simp: Reset_get ResetModel_fst)
qed

theorem manual_resets_witness:
  "getCircuit (fst (Reset ex_open ''p'' ex_t)) ''p'' ''m'' = None \<and>
   StateOpen \<le> snd (snd (Reset ex_open ''p'' ex_t)) \<and> snd (snd (ResetAll ex_open ex_t)) = (1, 1)"
proof -
  have "case getCircuit ex_open ''p'' ''m'' of None \<Rightarrow> False
      | Some c \<Rightarrow> logicalStateWith c (cooldowns ex_open) ex_t = StateOpen"
    "sum_list (map (length \<circ> snd) (cb_circuits ex_open)) = 1"
    "sum_list (map (\<lambda>(q, ms). length (filter (\<lambda>(m, c). c_state c \<noteq> StateClosed) ms)) (cb_circuits ex_open)) = 1"
    by code_simp+
  then obtain c where c: "getCircuit ex_open ''p'' ''m'' = Some c"
      "logicalStateWith c (cooldowns ex_open) ex_t = StateOpen"
      "sum_list (map (length \<circ> snd) (cb_circuits ex_open)) = 1"
      "sum_list (map (\<lambda>(q, ms). length (filter (\<lambda>(m, c). c_state c \<noteq> StateClosed) ms)) (cb_circuits ex_open)) = 1"
    by (auto split: option.splits)
  from manual_resets [OF ex_open_reachable, of "''p''" ex_t "''p''" "''m''" "''m''"] c
  show ?thesis by simp metis
qed

end
