(* ===== verification/Breaker_Event_Properties.thy ===== *)
theory Breaker_Event_Properties
  imports Breaker_Properties
begin

text \<open>
  Properties of what the breaker emits and remembers, of the two phases of the admission check,
  and of the event bus that carries the events.
\<close>

subsection \<open>Events and reports\<close>

text \<open>
  The event of an open carries the verdict of the state the open leaves behind, names the
  model as its alert identity exactly while the provider is still serving, and gives the wait
  that is enforced; nothing is emitted before the log line of the open.
\<close>

theorem open_event_carries_verdict:
  assumes "breaker_reachable cb" "(cb', es) = openCircuit cb [] msg p pn m c b h a g now"
  shows "\<exists>l mt ev rest d. es = LogWarn msg l # mt # PublishEvent ev # rest \<and>
    getCircuit cb' p m = Some d \<and> ev_Timestamp ev = now \<and>
    gm_get (ev_Metadata ev) ''provider_open'' = Some (ABool (provider_down cb' p now)) \<and>
    gm_get (ev_Metadata ev) ''model_id'' = (if provider_down cb' p now then None else Some (AStr m)) \<and>
    gm_get (ev_Metadata ev) ''cooldown_ms'' =
      Some (AInt (milliseconds_of (effectiveCooldownForWith d (cooldowns cb'))))"
proof -
  note wf = breaker_okD(1) [OF breaker_reachable_ok [OF assms(1)]]
  define c1 where "c1 = opened_circuit cb p c b h a g now"
  have cb': "cb' = fst (openCircuit cb [] msg p pn m c b h a g now)"
    and es: "es = snd (openCircuit cb [] msg p pn m c b h a g now)"
    using assms(2) by (simp_all add: prod_eq_iff)
  have d: "getCircuit cb' p m = Some (open_result cb p c b h a g now)"
    by (simp add: cb' openCircuit_state getCircuit_set)
  have cd: "cooldowns cb' = cooldowns cb" by (simp add: cb' openCircuit_state)
  have wait: "effectiveCooldownForWith (open_result cb p c b h a g now) r = effectiveCooldownForWith c1 r" for r
    by (rule cooldown_gate_view) (simp add: open_result_def c1_def)
  from openCircuit_event [OF wf c1_def, of msg pn m] obtain l mt rest where
    "es = [LogWarn msg l, mt,
     PublishEvent \<lparr>ev_ID = '''', ev_Type = ''circuit_breaker.open'', ev_Severity = ''warning'',
       ev_Source = ''failover'',
       ev_Message = breaker_event_text pn ''open'' m c1 (cooldowns cb) (provider_down cb' p now),
       ev_Metadata = breaker_event_meta p pn ''open'' m c1 (cooldowns cb) (provider_down cb' p now),
       ev_Timestamp = now\<rparr>] @ rest"
    unfolding cb' [symmetric] es [symmetric] by blast
  then show ?thesis using d by (simp add: event_meta cd wait)
qed

theorem open_event_carries_verdict_witness:
  "\<exists>l mt ev rest. snd (openCircuit ex_new [] ''open'' ''p'' ''P'' ''m'' new_circuit False (2 * hour) True ex_rng ex_t) =
       LogWarn ''open'' l # mt # PublishEvent ev # rest \<and>
     gm_get (ev_Metadata ev) ''provider_open'' = Some (ABool True)"
proof -
  let ?s = "openCircuit ex_new [] ''open'' ''p'' ''P'' ''m'' new_circuit False (2 * hour) True ex_rng ex_t"
  have "provider_down (fst ?s) ''p'' ex_t" by code_simp
  moreover have "(fst ?s, snd ?s) = ?s" by simp
  ultimately show ?thesis using open_event_carries_verdict [OF ex_new_reachable, of "fst ?s" "snd ?s"] by metis
qed

text \<open>
  The "keeps reopening" report is made at most once per window: after a report, no further
  open inside the window that began at the first of them reports again, and a report comes with
  at least three opens.
\<close>

theorem unstable_report_once_per_window:
  assumes "snd (noteOpen c t)"
    "\<forall>t' \<in> set ts. time_sub t' (c_openWindowStart c) \<le> reopenWindow"
  shows "snd (noteOpen_run (fst (noteOpen c t)) ts) = [] \<and>
    opensBeforeEscalation \<le> c_opens (fst (noteOpen c t))"
proof -
  note rep = noteOpen_report [OF assms(1)]
  have "snd (noteOpen_run (fst (noteOpen c t)) ts) = []"
    by (rule noteOpen_run_quiet_window) (use rep assms(2) in auto)
  with rep(1) show ?thesis by simp
qed

definition ex_reopening :: circuit where
  "ex_reopening = fst (noteOpen_run new_circuit [ex_t, ex_t + minute])"

theorem unstable_report_once_per_window_witness:
  "snd (noteOpen ex_reopening (ex_t + hour)) \<and>
   snd (noteOpen_run (fst (noteOpen ex_reopening (ex_t + hour))) [ex_t + 2 * hour, ex_t + 3 * hour]) = []"
proof -
  have "snd (noteOpen ex_reopening (ex_t + hour))"
    "list_all (\<lambda>t'. time_sub t' (c_openWindowStart ex_reopening) \<le> reopenWindow) [ex_t + 2 * hour, ex_t + 3 * hour]"
    by code_simp+
  with unstable_report_once_per_window [of ex_reopening "ex_t + hour" "[ex_t + 2 * hour, ex_t + 3 * hour]"]
  show ?thesis by (simp add: list_all_iff)
qed

text \<open>
  Only a served answer counts as a recent success: \<open>RecordSuccess\<close> makes
  \<open>LastSuccessWithin\<close> hold for as long as the window asks, while \<open>RecordAlive\<close>, which credits
  the circuit the same way, leaves the answer of \<open>LastSuccessWithin\<close> as it was.
\<close>

theorem only_served_answers_count:
  assumes "0 < t"
  shows "(LastSuccessWithin (fst (RecordSuccess cb p pn m t)) p m window now \<longleftrightarrow> time_sub now t \<le> window) \<and>
    LastSuccessWithin (fst (RecordAlive cb p pn m st t)) p m window now = LastSuccessWithin cb p m window now"
proof (rule conjI)
  show "LastSuccessWithin (fst (RecordSuccess cb p pn m t)) p m window now \<longleftrightarrow> time_sub now t \<le> window"
    using assms by (simp add: LastSuccessWithin_def RecordSuccess_def recordSuccess_state success_lastSuccess)
  show "LastSuccessWithin (fst (RecordAlive cb p pn m st t)) p m window now = LastSuccessWithin cb p m window now"
    by (simp add: LastSuccessWithin_def RecordAlive_def recordSuccess_state success_lastSuccess circuit_at_def
        new_circuit_def split: option.split)
qed

theorem only_served_answers_count_witness:
  "LastSuccessWithin (fst (RecordSuccess ex_new ''p'' ''P'' ''m'' ex_t)) ''p'' ''m'' minute (ex_t + second) \<and>
   \<not> LastSuccessWithin (fst (RecordAlive ex_new ''p'' ''P'' ''m'' 400 ex_t)) ''p'' ''m'' minute (ex_t + second)"
proof -
  have "time_sub (ex_t + second) ex_t \<le> minute" "\<not> LastSuccessWithin ex_new ''p'' ''m'' minute (ex_t + second)"
    by code_simp+
  then show ?thesis using only_served_answers_count [OF ex_t_pos] by blast
qed

subsection \<open>The two phases of the admission check\<close>

text \<open>
  C25. The write phase of the admission check reads the provider verdict only. When the read
  phase sees a circuit owed a probe and another request's probe fails before the write lock is
  taken, the circuit is open and blocking again, and the write phase still answers the provider
  verdict alone: with a span of two the request is let through to a model whose own circuit is
  blocking.
\<close>

theorem admission_write_phase_misses_reopened_circuit:
  assumes "breaker_reachable cb" "IsOpen_read cb p m t = NeedWrite" "t \<le> now" "0 < now" "rng_ok g"
    "cb' = fst (RecordFailure cb p pn m cause g now)"
  shows "is_blocked cb' p m now \<and> snd (snd (IsOpen_write cb' p pn m now)) = provider_down cb' p now"
proof -
  note ok = breaker_reachable_ok [OF assms(1)]
  note cfg = breaker_okD(2) [OF ok]
  from assms(2) obtain c where c: "getCircuit cb p m = Some c" "c_state c = StateOpen"
      "\<not> blocking c (cooldowns cb) t"
    by (auto simp: IsOpen_read_cases split: option.splits if_splits)
  have "\<not> blocking c (cooldowns cb) now"
    using c stillDark_antimono [OF assms(3), of c "cooldowns cb"] by (auto simp: blocking_def)
  then have log: "logicalStateWith c (cooldowns cb) now = StateHalfOpen"
    using c(2) by (simp add: logicalStateWith_def blocking_def)
  let ?d = "failure_result cb p c False cause g now"
  have d: "getCircuit cb' p m = Some ?d" using c(1) assms(6) by (simp add: RecordFailure_def recordFailure_state)
  have st: "c_state ?d = StateOpen" "c_openedAt ?d = now" by (simp_all add: failure_of_probe [OF log])
  have conf: "same_config cb' cb" using assms(6) failure.op_config by (simp add: RecordFailure_def)
  have dok: "circuit_ok (cb_HalfOpenMaxProbes cb) ?d"
    using failure_result_ok [OF breaker_okD(3) [OF ok c(1)] cfg refl assms(5,4)] .
  have "0 < effectiveCooldownForWith ?d (cooldowns cb)"
    using cooldown_range(1) [OF circuit_waits_ok [OF dok cfg]] .
  then have bl: "is_blocked cb' p m now"
    using d st same_config_reads(8) [OF conf] by (simp add: is_blocked_def blocking_def stillDark_def)
  have "fst (IsOpen_write cb' p pn m now) = cb'"
    using d bl by (simp add: IsOpen_write_state is_blocked_def)
  with bl show ?thesis by (simp add: IsOpen_write_answer)
qed

text \<open>In the concrete run the model's circuit is blocking and the request is admitted.\<close>

theorem admission_write_phase_misses_reopened_circuit_witness:
  "is_blocked (fst (RecordFailure ex_open ''p'' ''P'' ''m'' ex_cause ex_rng (ex_t + 3 * hour))) ''p'' ''m'' (ex_t + 3 * hour) \<and>
   \<not> snd (snd (IsOpen_write (fst (RecordFailure ex_open ''p'' ''P'' ''m'' ex_cause ex_rng (ex_t + 3 * hour)))
         ''p'' ''P'' ''m'' (ex_t + 3 * hour)))"
proof -
  let ?now = "ex_t + 3 * hour"
  have "IsOpen_read ex_open ''p'' ''m'' ?now = NeedWrite"
    "\<not> provider_down (fst (RecordFailure ex_open ''p'' ''P'' ''m'' ex_cause ex_rng ?now)) ''p'' ?now"
    by code_simp+
  moreover have "0 < ?now" by (simp add: ex_t_def second_def hour_def)
  ultimately show ?thesis
    using admission_write_phase_misses_reopened_circuit [OF ex_open_reachable, of "''p''" "''m''" ?now ?now ex_rng
        _ "''P''" ex_cause] by simp
qed

end
