(* ===== verification/Read_Through.thy ===== *)
theory Read_Through
  imports Hotel_Prelude "HOL-Library.Word"
begin

text \<open>
  The discipline the read-through caches of the gateway share (\<open>internal/failover/cache.go\<close>,
  \<open>internal/model/cache.go\<close>): a reader captures a mark of the cache before its SELECT, and
  installs the row only if no invalidation has landed since; a writer commits first and
  invalidates after. The step relation interleaves the readers' three phases (capture, select,
  install) with commits and invalidations of any number of goroutines. The locale states what a
  cache promises, and its theorem is coherence: a cached row is the row of the table, unless a
  commit on that row still has its invalidation outstanding.
\<close>

text \<open>The system: the table by row key, the cache, the keys committed to and not yet
  invalidated, the marks captured so far, and the rows read so far under each mark. A mark and a
  row stay available: several readers may hold the same mark, and a reader may be slow.\<close>

record ('r, 'v, 'c, 'm) rt_state =
  rt_table :: "'r \<Rightarrow> 'v option"
  rt_cache :: 'c
  rt_dirty :: "'r set"
  rt_marks :: "'m set"
  rt_fills :: "('m \<times> 'v) set"

definition table_ok :: "('v \<Rightarrow> 'r) \<Rightarrow> ('r \<Rightarrow> 'v option) \<Rightarrow> bool" where
  "table_ok rid T \<longleftrightarrow> (\<forall>r v. T r = Some v \<longrightarrow> rid v = r)"

inductive rt_step :: "('v \<Rightarrow> 'r) \<Rightarrow> ('c \<Rightarrow> 'm) \<Rightarrow> ('w \<Rightarrow> 'v \<Rightarrow> 'm \<Rightarrow> 'c \<Rightarrow> 'c) \<Rightarrow> ('i \<Rightarrow> 'c \<Rightarrow> 'c) \<Rightarrow>
    ('i \<Rightarrow> 'r \<Rightarrow> bool) \<Rightarrow> ('c \<Rightarrow> bool) \<Rightarrow> ('r, 'v, 'c, 'm) rt_state \<Rightarrow> ('r, 'v, 'c, 'm) rt_state \<Rightarrow> bool"
  for rid mark install inval clears room where
  commit: "table_ok rid T' \<Longrightarrow> \<forall>r. r \<notin> R \<longrightarrow> T' r = rt_table s r \<Longrightarrow>
    rt_step rid mark install inval clears room s (s\<lparr>rt_table := T', rt_dirty := rt_dirty s \<union> R\<rparr>)"
| invalidate: "room (rt_cache s) \<Longrightarrow>
    rt_step rid mark install inval clears room s
      (s\<lparr>rt_cache := inval i (rt_cache s), rt_dirty := {r \<in> rt_dirty s. \<not> clears i r}\<rparr>)"
| capture: "rt_step rid mark install inval clears room s
      (s\<lparr>rt_marks := insert (mark (rt_cache s)) (rt_marks s)\<rparr>)"
| select: "m \<in> rt_marks s \<Longrightarrow> rt_table s r = Some v \<Longrightarrow>
    rt_step rid mark install inval clears room s (s\<lparr>rt_fills := insert (m, v) (rt_fills s)\<rparr>)"
| install: "(m, v) \<in> rt_fills s \<Longrightarrow>
    rt_step rid mark install inval clears room s (s\<lparr>rt_cache := install w v m (rt_cache s)\<rparr>)"

inductive rt_reachable :: "('v \<Rightarrow> 'r) \<Rightarrow> ('c \<Rightarrow> 'm) \<Rightarrow> ('w \<Rightarrow> 'v \<Rightarrow> 'm \<Rightarrow> 'c \<Rightarrow> 'c) \<Rightarrow> ('i \<Rightarrow> 'c \<Rightarrow> 'c) \<Rightarrow>
    ('i \<Rightarrow> 'r \<Rightarrow> bool) \<Rightarrow> ('c \<Rightarrow> bool) \<Rightarrow> 'c \<Rightarrow> ('r, 'v, 'c, 'm) rt_state \<Rightarrow> bool"
  for rid mark install inval clears room empty_cache where
  start: "table_ok rid T \<Longrightarrow> rt_reachable rid mark install inval clears room empty_cache
    \<lparr>rt_table = T, rt_cache = empty_cache, rt_dirty = {}, rt_marks = {}, rt_fills = {}\<rparr>"
| step: "rt_reachable rid mark install inval clears room empty_cache s \<Longrightarrow>
    rt_step rid mark install inval clears room s s' \<Longrightarrow>
    rt_reachable rid mark install inval clears room empty_cache s'"

text \<open>What a cache promises: \<open>admits c m r\<close> says that \<open>c\<close> would install a row with key \<open>r\<close> read
  under mark \<open>m\<close>, \<open>captured c m\<close> that \<open>m\<close> was taken from \<open>c\<close> or an earlier state of it, \<open>room\<close>
  that the generation counter has not run through its 64 bits.\<close>

locale marked_cache =
  fixes rid :: "'v \<Rightarrow> 'r" and mark :: "'c \<Rightarrow> 'm" and lookup :: "'c \<Rightarrow> 'k \<Rightarrow> 'v option"
    and install :: "'w \<Rightarrow> 'v \<Rightarrow> 'm \<Rightarrow> 'c \<Rightarrow> 'c" and inval :: "'i \<Rightarrow> 'c \<Rightarrow> 'c"
    and clears :: "'i \<Rightarrow> 'r \<Rightarrow> bool" and room :: "'c \<Rightarrow> bool" and empty_cache :: 'c
    and admits :: "'c \<Rightarrow> 'm \<Rightarrow> 'r \<Rightarrow> bool" and captured :: "'c \<Rightarrow> 'm \<Rightarrow> bool"
    and fits :: "'k \<Rightarrow> 'v \<Rightarrow> bool"
  assumes empty_lookup: "lookup empty_cache k = None"
    and captured_mark: "captured c (mark c)"
    and captured_inval: "room c \<Longrightarrow> captured c m \<Longrightarrow> captured (inval i c) m"
    and captured_install: "captured (install w v m' c) m \<longleftrightarrow> captured c m"
    and install_refused: "\<not> admits c m (rid v) \<Longrightarrow> install w v m c = c"
    and install_lookup: "lookup (install w v m c) k = Some v' \<Longrightarrow>
      lookup c k = Some v' \<or> v' = v \<and> fits k v"
    and install_admits: "admits (install w v m' c) m r \<longleftrightarrow> admits c m r"
    and inval_lookup: "lookup (inval i c) k = Some v \<Longrightarrow> lookup c k = Some v"
    and inval_clears: "lookup (inval i c) k = Some v \<Longrightarrow> fits k v \<Longrightarrow> \<not> clears i (rid v)"
    and inval_admits: "room c \<Longrightarrow> captured c m \<Longrightarrow> admits (inval i c) m r \<Longrightarrow>
      admits c m r \<and> \<not> clears i r"
begin

definition fresh :: "('r, 'v, 'c, 'm) rt_state \<Rightarrow> 'v \<Rightarrow> bool" where
  "fresh s v \<longleftrightarrow> rt_table s (rid v) = Some v \<or> rid v \<in> rt_dirty s"

definition rt_inv :: "('r, 'v, 'c, 'm) rt_state \<Rightarrow> bool" where
  "rt_inv s \<longleftrightarrow> table_ok rid (rt_table s) \<and> (\<forall>m \<in> rt_marks s. captured (rt_cache s) m) \<and>
     (\<forall>m v. (m, v) \<in> rt_fills s \<longrightarrow>
        captured (rt_cache s) m \<and> (admits (rt_cache s) m (rid v) \<longrightarrow> fresh s v)) \<and>
     (\<forall>k v. lookup (rt_cache s) k = Some v \<longrightarrow> fits k v \<and> fresh s v)"

lemma rt_inv_step:
  assumes "rt_step rid mark install inval clears room s s'" "rt_inv s"
  shows "rt_inv s'"
  using assms
proof (induction rule: rt_step.induct)
  case (commit T' R s)
  then have "fresh s v \<Longrightarrow> fresh (s\<lparr>rt_table := T', rt_dirty := rt_dirty s \<union> R\<rparr>) v" for v
    by (auto simp: fresh_def)
  with commit show ?case by (auto simp: rt_inv_def)
next
  case (invalidate s i)
  let ?s' = "s\<lparr>rt_cache := inval i (rt_cache s), rt_dirty := {r \<in> rt_dirty s. \<not> clears i r}\<rparr>"
  have keep: "fresh ?s' v" if "fresh s v" "\<not> clears i (rid v)" for v
    using that by (auto simp: fresh_def)
  have "captured (inval i (rt_cache s)) m \<and> (admits (inval i (rt_cache s)) m (rid v) \<longrightarrow> fresh ?s' v)"
    if f: "(m, v) \<in> rt_fills s" for m v
  proof -
    from invalidate.prems f have c: "captured (rt_cache s) m"
      and adm: "admits (rt_cache s) m (rid v) \<longrightarrow> fresh s v" by (auto simp: rt_inv_def)
    from c invalidate.hyps have "captured (inval i (rt_cache s)) m" by (rule captured_inval [rotated])
    moreover have "fresh ?s' v" if "admits (inval i (rt_cache s)) m (rid v)"
      using inval_admits [OF invalidate.hyps c that] adm keep by blast
    ultimately show ?thesis by blast
  qed
  moreover have "fits k v \<and> fresh ?s' v" if "lookup (inval i (rt_cache s)) k = Some v" for k v
    using inval_lookup [OF that] inval_clears [OF that] invalidate.prems keep by (auto simp: rt_inv_def)
  ultimately show ?case
    using invalidate captured_inval by (auto simp: rt_inv_def)
next
  case (capture s)
  then show ?case by (auto simp: rt_inv_def fresh_def captured_mark)
next
  case (select m s r v)
  then have "rid v = r" by (auto simp: rt_inv_def table_ok_def)
  with select show ?case by (auto simp: rt_inv_def fresh_def)
next
  case (install m v s w)
  let ?c = "install w v m (rt_cache s)"
  have "fits k v' \<and> fresh s v'" if l: "lookup ?c k = Some v'" for k v'
  proof (cases "admits (rt_cache s) m (rid v)")
    case True
    then show ?thesis using install_lookup [OF l] install by (auto simp: rt_inv_def)
  next
    case False
    then show ?thesis using l install install_refused by (auto simp: rt_inv_def)
  qed
  with install show ?case
    by (auto simp: rt_inv_def fresh_def captured_install install_admits)
qed

lemma rt_reachable_inv: "rt_reachable rid mark install inval clears room empty_cache s \<Longrightarrow> rt_inv s"
  by (induction rule: rt_reachable.induct)
     (auto simp: rt_inv_step, auto simp: rt_inv_def empty_lookup)

theorem coherent:
  assumes "rt_reachable rid mark install inval clears room empty_cache s"
    "lookup (rt_cache s) k = Some v" "rid v \<notin> rt_dirty s"
  shows "rt_table s (rid v) = Some v \<and> fits k v"
  using rt_reachable_inv [OF assms(1)] assms(2,3) by (auto simp: rt_inv_def fresh_def)

end

end
