(* ===== verification/Failover_Cache.thy ===== *)
theory Failover_Cache
  imports Read_Through
begin

text \<open>
  The failover group as the gateway hands it around (\<open>FailoverGroup\<close> of
  \<open>internal/failover/failover.go\<close>) and the process-wide cache of groups by display model
  (\<open>internal/failover/cache.go\<close>). A UUID is its canonical text, so \<open>id.String()\<close> is the
  identity; a nil pointer is \<open>None\<close>. The cache is the pair of the map and the 64-bit generation,
  which the mutex makes change together; the instant an operation reads from the clock is an
  argument.
\<close>

type_synonym uuid = string

record FailoverGroup =
  fg_ID :: uuid
  fg_DisplayModel :: string
  fg_DisplayName :: "string option"
  fg_Description :: string
  fg_PriorityOrder :: "uuid list"
  fg_EntryEnabled :: "bool gomap"
  fg_GroupEnabled :: bool
  fg_AutoCreated :: bool
  fg_AutoDisabled :: bool
  fg_CreatedAt :: instant
  fg_UpdatedAt :: instant

definition IsEntryEnabled :: "FailoverGroup \<Rightarrow> uuid \<Rightarrow> bool" where
  "IsEntryEnabled g i = (case gm_get (fg_EntryEnabled g) i of Some v \<Rightarrow> v | None \<Rightarrow> True)"

record failoverCacheEntry =
  fce_group :: FailoverGroup
  fce_expiresAt :: instant

record failover_cache =
  failoverByModelCache :: "failoverCacheEntry gomap"
  failoverCacheGen :: "64 word"

definition new_failover_cache :: failover_cache where
  "new_failover_cache = \<lparr>failoverByModelCache = [], failoverCacheGen = 0\<rparr>"

definition failoverCacheTTL :: duration where "failoverCacheTTL = 5 * minute"

subsection \<open>Operations\<close>

definition CacheGen :: "failover_cache \<Rightarrow> 64 word" where
  "CacheGen c = failoverCacheGen c"

definition cacheFailoverGroupAt ::
    "instant \<Rightarrow> FailoverGroup option \<Rightarrow> 64 word \<Rightarrow> failover_cache \<Rightarrow> failover_cache" where
  "cacheFailoverGroupAt now fg gen c =
     (case fg of
        None \<Rightarrow> c
      | Some g \<Rightarrow>
          (let entry = \<lparr>fce_group = g, fce_expiresAt = time_add now failoverCacheTTL\<rparr>
           in if failoverCacheGen c \<noteq> gen then c
              else c\<lparr>failoverByModelCache :=
                       gm_put (fg_DisplayModel g) entry (failoverByModelCache c)\<rparr>))"

definition GetCachedFailoverByModel ::
    "failover_cache \<Rightarrow> string \<Rightarrow> instant \<Rightarrow> FailoverGroup option" where
  "GetCachedFailoverByModel c displayModel now =
     (case gm_get (failoverByModelCache c) displayModel of
        None \<Rightarrow> None
      | Some entry \<Rightarrow> if fce_expiresAt entry < now then None else Some (fce_group entry))"

definition InvalidateFailoverCacheKey :: "string \<Rightarrow> failover_cache \<Rightarrow> failover_cache" where
  "InvalidateFailoverCacheKey displayModel c =
     c\<lparr>failoverCacheGen := failoverCacheGen c + 1,
       failoverByModelCache := gm_del displayModel (failoverByModelCache c)\<rparr>"

definition InvalidateFailoverCache :: "failover_cache \<Rightarrow> failover_cache" where
  "InvalidateFailoverCache c =
     c\<lparr>failoverCacheGen := failoverCacheGen c + 1, failoverByModelCache := []\<rparr>"

definition IsCachedByModel :: "failover_cache \<Rightarrow> string \<Rightarrow> instant \<Rightarrow> bool" where
  "IsCachedByModel c displayModel now =
     (case gm_get (failoverByModelCache c) displayModel of
        None \<Rightarrow> False | Some entry \<Rightarrow> \<not> fce_expiresAt entry < now)"

text \<open>One clock reading per row: the warm loop reads the clock inside each install.\<close>

definition WarmFailoverCacheAt ::
    "(instant \<times> FailoverGroup option) list \<Rightarrow> 64 word \<Rightarrow> failover_cache \<Rightarrow> failover_cache" where
  "WarmFailoverCacheAt groups gen c =
     fold (\<lambda>(now, fg) c. cacheFailoverGroupAt now fg gen c) groups c"

subsection \<open>The cache keeps the read-through discipline\<close>

text \<open>The two invalidations as one operation: a key, or everything.\<close>

definition failover_inval :: "string option \<Rightarrow> failover_cache \<Rightarrow> failover_cache" where
  "failover_inval i c =
     (case i of Some k \<Rightarrow> InvalidateFailoverCacheKey k c | None \<Rightarrow> InvalidateFailoverCache c)"

definition failover_clears :: "string option \<Rightarrow> string \<Rightarrow> bool" where
  "failover_clears i k \<longleftrightarrow> i = None \<or> i = Some k"

definition failover_room :: "failover_cache \<Rightarrow> bool" where
  "failover_room c \<longleftrightarrow> failoverCacheGen c \<noteq> - 1"

definition failover_install ::
    "instant \<Rightarrow> FailoverGroup \<Rightarrow> 64 word \<Rightarrow> failover_cache \<Rightarrow> failover_cache" where
  "failover_install now g = cacheFailoverGroupAt now (Some g)"

definition failover_entry :: "failover_cache \<Rightarrow> string \<Rightarrow> FailoverGroup option" where
  "failover_entry c k = map_option fce_group (gm_get (failoverByModelCache c) k)"

lemma word_succ_room:
  fixes g m :: "64 word"
  assumes "g \<noteq> - 1"
  shows "g < g + 1" "m \<le> g \<Longrightarrow> m \<le> g + 1" "\<not> g + 1 \<le> g"
proof -
  have "unat (- 1 :: 64 word) = 2 ^ 64 - 1" by (simp add: unsigned_minus_1_eq_mask mask_eq_exp_minus_1)
  then have "unat g \<noteq> 2 ^ 64 - 1" using assms by (metis unsigned_word_eqI)
  moreover have "unat g < 2 ^ 64" using unsigned_less [of g] by simp
  ultimately have "unat (g + 1) = unat g + 1" by (simp add: unat_word_ariths)
  then show "g < g + 1" "m \<le> g \<Longrightarrow> m \<le> g + 1" "\<not> g + 1 \<le> g"
    by (auto simp: word_less_nat_alt word_le_nat_alt)
qed

lemmas failover_ops = CacheGen_def cacheFailoverGroupAt_def GetCachedFailoverByModel_def
  InvalidateFailoverCacheKey_def InvalidateFailoverCache_def IsCachedByModel_def
  failover_inval_def failover_clears_def failover_room_def failover_install_def failover_entry_def
  new_failover_cache_def

interpretation failover_rt: marked_cache fg_DisplayModel CacheGen failover_entry failover_install
  failover_inval failover_clears failover_room new_failover_cache
  "\<lambda>c m _. failoverCacheGen c = m" "\<lambda>c m. m \<le> failoverCacheGen c" "\<lambda>k g. k = fg_DisplayModel g"
proof
  show "failover_entry c k = Some v' \<or> v' = v \<and> k = fg_DisplayModel v"
    if "failover_entry (failover_install w v m c) k = Some v'" for w v m c k v'
    using that by (auto simp: failover_ops split: if_splits)
  show "\<not> failover_clears i (fg_DisplayModel v)"
    if "failover_entry (failover_inval i c) k = Some v" "k = fg_DisplayModel v" for i c k v
    using that by (auto simp: failover_ops split: option.splits if_splits)
qed (auto simp: failover_ops word_succ_room split: option.splits if_splits)

text \<open>A hit is the cached entry, within its lifetime.\<close>

lemma failover_hit_entry: "GetCachedFailoverByModel c k now = Some g \<Longrightarrow> failover_entry c k = Some g"
  by (auto simp: failover_ops split: option.splits if_splits)

lemma IsCachedByModel_iff: "IsCachedByModel c k now \<longleftrightarrow> GetCachedFailoverByModel c k now \<noteq> None"
  by (auto simp: failover_ops split: option.splits)

lemma cache_then_get:
  "GetCachedFailoverByModel (cacheFailoverGroupAt now (Some g) (CacheGen c) c) (fg_DisplayModel g) t =
     (if t \<le> time_add now failoverCacheTTL then Some g else None)"
  by (simp add: failover_ops)

end
