(* ===== verification/Model_Cache.thy ===== *)
theory Model_Cache
  imports Failover_Cache
begin

text \<open>
  The model cache (\<open>internal/model/cache.go\<close>): rows by UUID and by the composite key
  \<open>provider:model\<close>, under one 64-bit generation. A row is any extension of the three columns the
  keys are made of; the cached pointer is the row, which nothing writes through.
\<close>

record ModelRow =
  m_ID :: uuid
  m_ProviderID :: uuid
  m_ModelID :: string

record 'a modelByIDCacheEntry =
  mce_model :: "'a ModelRow_scheme"
  mce_expiresAt :: instant

record 'a model_cache =
  modelByUUIDCache :: "'a modelByIDCacheEntry gomap"
  modelByCompositeKey :: "'a modelByIDCacheEntry gomap"
  modelCacheGen :: "64 word"

definition new_model_cache :: "'a model_cache" where
  "new_model_cache = \<lparr>modelByUUIDCache = [], modelByCompositeKey = [], modelCacheGen = 0\<rparr>"

definition modelCacheTTL :: duration where "modelCacheTTL = 5 * minute"

definition compositeKey :: "uuid \<Rightarrow> string \<Rightarrow> string" where
  "compositeKey providerID modelID = providerID @ '':'' @ modelID"

subsection \<open>Operations\<close>

definition Model_CacheGen :: "'a model_cache \<Rightarrow> 64 word" where
  "Model_CacheGen c = modelCacheGen c"

definition cacheModelByUUIDAt ::
    "instant \<Rightarrow> 'a ModelRow_scheme option \<Rightarrow> 64 word \<Rightarrow> 'a model_cache \<Rightarrow> 'a model_cache" where
  "cacheModelByUUIDAt now m gen c =
     (case m of
        None \<Rightarrow> c
      | Some r \<Rightarrow>
          if modelCacheGen c \<noteq> gen then c
          else c\<lparr>modelByUUIDCache :=
                   gm_put (m_ID r) \<lparr>mce_model = r, mce_expiresAt = time_add now modelCacheTTL\<rparr>
                     (modelByUUIDCache c)\<rparr>)"

definition cacheModelByCompositeKeyAt ::
    "instant \<Rightarrow> uuid \<Rightarrow> string \<Rightarrow> 'a ModelRow_scheme option \<Rightarrow> 64 word \<Rightarrow> 'a model_cache \<Rightarrow> 'a model_cache" where
  "cacheModelByCompositeKeyAt now providerID modelID m gen c =
     (case m of
        None \<Rightarrow> c
      | Some r \<Rightarrow>
          (let key = compositeKey providerID modelID
           in if modelCacheGen c \<noteq> gen then c
              else c\<lparr>modelByCompositeKey :=
                       gm_put key \<lparr>mce_model = r, mce_expiresAt = time_add now modelCacheTTL\<rparr>
                         (modelByCompositeKey c)\<rparr>))"

definition GetCachedByUUID :: "'a model_cache \<Rightarrow> uuid \<Rightarrow> instant \<Rightarrow> 'a ModelRow_scheme option" where
  "GetCachedByUUID c i now =
     (case gm_get (modelByUUIDCache c) i of
        None \<Rightarrow> None
      | Some entry \<Rightarrow> if mce_expiresAt entry < now then None else Some (mce_model entry))"

definition GetCachedByCompositeKey ::
    "'a model_cache \<Rightarrow> uuid \<Rightarrow> string \<Rightarrow> instant \<Rightarrow> 'a ModelRow_scheme option" where
  "GetCachedByCompositeKey c providerID modelID now =
     (case gm_get (modelByCompositeKey c) (compositeKey providerID modelID) of
        None \<Rightarrow> None
      | Some entry \<Rightarrow> if mce_expiresAt entry < now then None else Some (mce_model entry))"

definition IsCachedByUUID :: "'a model_cache \<Rightarrow> uuid \<Rightarrow> instant \<Rightarrow> bool" where
  "IsCachedByUUID c i now = (GetCachedByUUID c i now \<noteq> None)"

definition IsCachedByCompositeKey :: "'a model_cache \<Rightarrow> uuid \<Rightarrow> string \<Rightarrow> instant \<Rightarrow> bool" where
  "IsCachedByCompositeKey c providerID modelID now =
     (GetCachedByCompositeKey c providerID modelID now \<noteq> None)"

definition InvalidateModelCache :: "'a model_cache \<Rightarrow> 'a model_cache" where
  "InvalidateModelCache c =
     c\<lparr>modelCacheGen := modelCacheGen c + 1, modelByUUIDCache := [], modelByCompositeKey := []\<rparr>"

definition WarmModelCacheAt ::
    "instant \<Rightarrow> 'a ModelRow_scheme list \<Rightarrow> 64 word \<Rightarrow> 'a model_cache \<Rightarrow> 'a model_cache" where
  "WarmModelCacheAt now models gen c =
     (let expi = time_add now modelCacheTTL
      in if modelCacheGen c \<noteq> gen then c
         else fold (\<lambda>m c. c\<lparr>
             modelByUUIDCache := gm_put (m_ID m) \<lparr>mce_model = m, mce_expiresAt = expi\<rparr> (modelByUUIDCache c),
             modelByCompositeKey := gm_put (compositeKey (m_ProviderID m) (m_ModelID m))
                 \<lparr>mce_model = m, mce_expiresAt = expi\<rparr> (modelByCompositeKey c)\<rparr>) models c)"

subsection \<open>The cache keeps the read-through discipline\<close>

text \<open>The installs of the three readers, by the sub-cache they fill: \<open>Get\<close> fills by UUID,
  \<open>GetByProviderAndModelID\<close> by composite key, the multi-row reads both.\<close>

datatype fill_way = FillUUID instant | FillComposite instant | FillBoth instant

datatype model_key = ByUUID uuid | ByComposite string

fun model_install :: "fill_way \<Rightarrow> 'a ModelRow_scheme \<Rightarrow> 64 word \<Rightarrow> 'a model_cache \<Rightarrow> 'a model_cache" where
  "model_install (FillUUID now) r gen c = cacheModelByUUIDAt now (Some r) gen c"
| "model_install (FillComposite now) r gen c =
     cacheModelByCompositeKeyAt now (m_ProviderID r) (m_ModelID r) (Some r) gen c"
| "model_install (FillBoth now) r gen c = WarmModelCacheAt now [r] gen c"

fun model_entry :: "'a model_cache \<Rightarrow> model_key \<Rightarrow> 'a ModelRow_scheme option" where
  "model_entry c (ByUUID i) = map_option mce_model (gm_get (modelByUUIDCache c) i)"
| "model_entry c (ByComposite k) = map_option mce_model (gm_get (modelByCompositeKey c) k)"

fun model_fits :: "model_key \<Rightarrow> 'a ModelRow_scheme \<Rightarrow> bool" where
  "model_fits (ByUUID i) r \<longleftrightarrow> i = m_ID r"
| "model_fits (ByComposite k) r \<longleftrightarrow> k = compositeKey (m_ProviderID r) (m_ModelID r)"

definition model_room :: "'a model_cache \<Rightarrow> bool" where
  "model_room c \<longleftrightarrow> modelCacheGen c \<noteq> - 1"

definition model_inval :: "unit \<Rightarrow> 'a model_cache \<Rightarrow> 'a model_cache" where
  "model_inval i c = InvalidateModelCache c"

lemmas model_ops = Model_CacheGen_def cacheModelByUUIDAt_def cacheModelByCompositeKeyAt_def
  GetCachedByUUID_def GetCachedByCompositeKey_def InvalidateModelCache_def WarmModelCacheAt_def
  model_room_def model_inval_def new_model_cache_def

lemma model_install_gen: "modelCacheGen (model_install w r gen c) = modelCacheGen c"
  by (cases w) (auto simp: model_ops Let_def)

lemma model_install_stale: "modelCacheGen c \<noteq> gen \<Longrightarrow> model_install w r gen c = c"
  by (cases w) (auto simp: model_ops Let_def)

lemma model_install_entry:
  "model_entry (model_install w r gen c) k = Some r' \<Longrightarrow>
     model_entry c k = Some r' \<or> r' = r \<and> model_fits k r"
  by (cases w; cases k) (auto simp: model_ops Let_def split: if_splits)

lemma WarmModelCacheAt_fold:
  "WarmModelCacheAt now rows gen c = fold (\<lambda>r. model_install (FillBoth now) r gen) rows c"
proof (cases "modelCacheGen c = gen")
  case True
  then show ?thesis
  proof (induction rows arbitrary: c)
    case (Cons r rows)
    have "modelCacheGen (model_install (FillBoth now) r gen c) = gen"
      using Cons.prems model_install_gen by metis
    then show ?case using Cons.IH [of "model_install (FillBoth now) r gen c"] Cons.prems
      by (simp add: WarmModelCacheAt_def Let_def)
  qed (simp add: WarmModelCacheAt_def Let_def)
next
  case False
  have "fold (\<lambda>r. model_install (FillBoth now) r gen) rows c = c"
    using False by (induction rows) (simp_all add: model_install_stale del: model_install.simps)
  with False show ?thesis by (simp add: WarmModelCacheAt_def Let_def)
qed

lemma model_inval_entry: "model_entry (model_inval i c) k = None"
  by (cases k) (simp_all add: model_ops)

lemma model_inval_gen: "modelCacheGen (model_inval i c) = modelCacheGen c + 1"
  by (simp add: model_ops)

interpretation model_rt: marked_cache m_ID Model_CacheGen model_entry model_install
  model_inval "\<lambda>_ _. True" model_room new_model_cache
  "\<lambda>c m _. modelCacheGen c = m" "\<lambda>c m. m \<le> modelCacheGen c" model_fits
proof
  show "model_entry new_model_cache k = None" for k
    by (cases k) (simp_all add: model_ops)
qed (auto simp: model_install_gen model_install_stale model_inval_entry model_inval_gen
       word_succ_room model_room_def Model_CacheGen_def
       dest: model_install_entry)

text \<open>Two composite keys agree only on the same pair, as a UUID's text has a fixed length.\<close>

lemma compositeKey_inj:
  assumes "length p = length p'"
  shows "compositeKey p m = compositeKey p' m' \<longleftrightarrow> p = p' \<and> m = m'"
  using assms by (auto simp: compositeKey_def)

lemma uuid_hit_entry: "GetCachedByUUID c i now = Some r \<Longrightarrow> model_entry c (ByUUID i) = Some r"
  by (auto simp: model_ops split: option.splits if_splits)

lemma composite_hit_entry:
  "GetCachedByCompositeKey c p m now = Some r \<Longrightarrow> model_entry c (ByComposite (compositeKey p m)) = Some r"
  by (auto simp: model_ops split: option.splits if_splits)

end
