(* ===== verification/Provider_Cache.thy ===== *)
theory Provider_Cache
  imports Failover_Cache
begin

text \<open>
  The provider cache (\<open>internal/provider/cache.go\<close>): one row under three keys (id, name,
  normalized name), fenced by two 64-bit counters. A flush advances \<open>providerFlushGen\<close>; the
  eviction of one id advances \<open>providerEvictSeq\<close> and records it for that id, so that only that
  row's overlapping fills are discarded. A row is any extension of the columns the cache reads;
  a nil \<open>last_used_at\<close> is \<open>None\<close>.
\<close>

record ProviderRow =
  p_ID :: uuid
  p_Name :: string
  p_LastUsedAt :: "instant option"

definition NormalizeName :: "string \<Rightarrow> string" where
  "NormalizeName name = map (\<lambda>ch. if ch = CHR '' '' then CHR ''-'' else ch) name"

record 'a providerCacheEntry =
  pce_provider :: "'a ProviderRow_scheme"
  pce_expiresAt :: instant

record 'a provider_cache =
  providerByIDCache :: "'a providerCacheEntry gomap"
  providerByNameCache :: "'a providerCacheEntry gomap"
  providerByNormalNameCache :: "'a providerCacheEntry gomap"
  providerFlushGen :: "64 word"
  providerEvictSeq :: "64 word"
  providerEvicted :: "(uuid \<times> 64 word) list"
  providerTouchedAt :: "instant gomap"

definition new_provider_cache :: "'a provider_cache" where
  "new_provider_cache = \<lparr>providerByIDCache = [], providerByNameCache = [],
     providerByNormalNameCache = [], providerFlushGen = 0, providerEvictSeq = 0,
     providerEvicted = [], providerTouchedAt = []\<rparr>"

record CacheMark =
  cm_flush :: "64 word"
  cm_evict :: "64 word"

definition Provider_CacheGen :: "'a provider_cache \<Rightarrow> CacheMark" where
  "Provider_CacheGen c = \<lparr>cm_flush = providerFlushGen c, cm_evict = providerEvictSeq c\<rparr>"

definition providerCacheTTL :: duration where "providerCacheTTL = 5 * minute"

text \<open>A missing key of a Go map reads as the zero value.\<close>

definition evicted_at :: "'a provider_cache \<Rightarrow> uuid \<Rightarrow> 64 word" where
  "evicted_at c i = (case gm_get (providerEvicted c) i of Some n \<Rightarrow> n | None \<Rightarrow> 0)"

definition put_provider :: "'a providerCacheEntry \<Rightarrow> uuid \<Rightarrow> string \<Rightarrow> 'a provider_cache \<Rightarrow> 'a provider_cache" where
  "put_provider entry i name c =
     c\<lparr>providerByIDCache := gm_put i entry (providerByIDCache c),
       providerByNameCache := gm_put name entry (providerByNameCache c),
       providerByNormalNameCache := gm_put (NormalizeName name) entry (providerByNormalNameCache c)\<rparr>"

definition cacheProviderAt ::
    "instant \<Rightarrow> 'a ProviderRow_scheme option \<Rightarrow> CacheMark \<Rightarrow> 'a provider_cache \<Rightarrow> 'a provider_cache \<times> bool" where
  "cacheProviderAt now pr gen c =
     (case pr of
        None \<Rightarrow> (c, False)
      | Some p \<Rightarrow>
          if providerFlushGen c \<noteq> cm_flush gen \<or> evicted_at c (p_ID p) > cm_evict gen then (c, False)
          else
            (let stamped = (case gm_get (providerTouchedAt c) (p_ID p) of
                 None \<Rightarrow> p
               | Some t \<Rightarrow> (if (case p_LastUsedAt p of None \<Rightarrow> True | Some u \<Rightarrow> u < t)
                            then p\<lparr>p_LastUsedAt := Some t\<rparr> else p));
                 entry = \<lparr>pce_provider = stamped, pce_expiresAt = time_add now providerCacheTTL\<rparr>
             in (put_provider entry (p_ID p) (p_Name p) c, True)))"

definition live_entry :: "'a providerCacheEntry option \<Rightarrow> instant \<Rightarrow> 'a ProviderRow_scheme option" where
  "live_entry e now = (case e of None \<Rightarrow> None
     | Some entry \<Rightarrow> if pce_expiresAt entry < now then None else Some (pce_provider entry))"

definition GetCachedByID :: "'a provider_cache \<Rightarrow> uuid \<Rightarrow> instant \<Rightarrow> 'a ProviderRow_scheme option" where
  "GetCachedByID c i now = live_entry (gm_get (providerByIDCache c) i) now"

definition by_name :: "'a provider_cache \<Rightarrow> string \<Rightarrow> 'a providerCacheEntry option" where
  "by_name c name = (case gm_get (providerByNameCache c) name of
     Some entry \<Rightarrow> Some entry | None \<Rightarrow> gm_get (providerByNormalNameCache c) name)"

definition GetCachedByName :: "'a provider_cache \<Rightarrow> string \<Rightarrow> instant \<Rightarrow> 'a ProviderRow_scheme option" where
  "GetCachedByName c name now = live_entry (by_name c name) now"

definition IsCachedByID :: "'a provider_cache \<Rightarrow> uuid \<Rightarrow> instant \<Rightarrow> bool" where
  "IsCachedByID c i now =
     (case gm_get (providerByIDCache c) i of None \<Rightarrow> False | Some entry \<Rightarrow> \<not> pce_expiresAt entry < now)"

definition IsCachedByName :: "'a provider_cache \<Rightarrow> string \<Rightarrow> instant \<Rightarrow> bool" where
  "IsCachedByName c name now =
     (case by_name c name of None \<Rightarrow> False | Some entry \<Rightarrow> \<not> pce_expiresAt entry < now)"

definition EvictProviderCacheByID :: "uuid \<Rightarrow> 'a provider_cache \<Rightarrow> 'a provider_cache" where
  "EvictProviderCacheByID i c =
     (let c = c\<lparr>providerEvictSeq := providerEvictSeq c + 1\<rparr>;
          c = c\<lparr>providerEvicted := gm_put i (providerEvictSeq c) (providerEvicted c)\<rparr>;
          c = (case gm_get (providerByIDCache c) i of
                 None \<Rightarrow> c
               | Some entry \<Rightarrow>
                   c\<lparr>providerByNameCache := gm_del (p_Name (pce_provider entry)) (providerByNameCache c),
                     providerByNormalNameCache :=
                       gm_del (NormalizeName (p_Name (pce_provider entry))) (providerByNormalNameCache c)\<rparr>)
      in c\<lparr>providerByIDCache := gm_del i (providerByIDCache c)\<rparr>)"

definition TouchProviderCacheLastUsed :: "uuid \<Rightarrow> instant \<Rightarrow> 'a provider_cache \<Rightarrow> 'a provider_cache" where
  "TouchProviderCacheLastUsed i t c =
     (let c = (if (case gm_get (providerTouchedAt c) i of None \<Rightarrow> True | Some prev \<Rightarrow> prev < t)
               then c\<lparr>providerTouchedAt := gm_put i t (providerTouchedAt c)\<rparr> else c)
      in case gm_get (providerByIDCache c) i of
           None \<Rightarrow> c
         | Some entry \<Rightarrow>
             (if (case p_LastUsedAt (pce_provider entry) of None \<Rightarrow> False | Some cur \<Rightarrow> \<not> cur < t) then c
              else (let stamped = (pce_provider entry)\<lparr>p_LastUsedAt := Some t\<rparr>
                    in put_provider (entry\<lparr>pce_provider := stamped\<rparr>) i (p_Name stamped) c)))"

definition InvalidateProviderCache :: "'a provider_cache \<Rightarrow> 'a provider_cache" where
  "InvalidateProviderCache c =
     c\<lparr>providerFlushGen := providerFlushGen c + 1, providerEvicted := [], providerTouchedAt := [],
       providerByIDCache := [], providerByNameCache := [], providerByNormalNameCache := []\<rparr>"

text \<open>The warm loop, one clock reading per row; the count is how many were installed.\<close>

fun WarmProviderCacheAt ::
    "(instant \<times> 'a ProviderRow_scheme option) list \<Rightarrow> CacheMark \<Rightarrow> 'a provider_cache \<Rightarrow> 'a provider_cache \<times> nat" where
  "WarmProviderCacheAt [] m c = (c, 0)"
| "WarmProviderCacheAt ((now, p) # ps) m c =
     (let (c', done) = cacheProviderAt now p m c; (c'', n) = WarmProviderCacheAt ps m c'
      in (c'', if done then n + 1 else n))"

subsection \<open>Runs\<close>

text \<open>What the goroutines sharing the cache do to it, in the order the mutex gives them.\<close>

datatype 'a cache_call =
    Fill instant "'a ProviderRow_scheme" CacheMark
  | Evict uuid
  | Touch uuid instant
  | Flush

fun do_call :: "'a cache_call \<Rightarrow> 'a provider_cache \<Rightarrow> 'a provider_cache" where
  "do_call (Fill now p m) c = fst (cacheProviderAt now (Some p) m c)"
| "do_call (Evict i) c = EvictProviderCacheByID i c"
| "do_call (Touch i t) c = TouchProviderCacheLastUsed i t c"
| "do_call Flush c = InvalidateProviderCache c"

definition cache_run :: "'a cache_call list \<Rightarrow> 'a provider_cache \<Rightarrow> 'a provider_cache" where
  "cache_run ops c = fold do_call ops c"

lemma cache_run_simps [simp]:
  "cache_run [] c = c" "cache_run (x # ops) c = cache_run ops (do_call x c)"
  "cache_run (ops @ ops') c = cache_run ops' (cache_run ops c)"
  by (simp_all add: cache_run_def)

lemmas provider_ops = cacheProviderAt_def EvictProviderCacheByID_def TouchProviderCacheLastUsed_def
  InvalidateProviderCache_def put_provider_def evicted_at_def Let_def

lemma evict_fields [simp]:
  "providerFlushGen (EvictProviderCacheByID i c) = providerFlushGen c"
  "providerEvictSeq (EvictProviderCacheByID i c) = providerEvictSeq c + 1"
  "evicted_at (EvictProviderCacheByID i c) j = (if j = i then providerEvictSeq c + 1 else evicted_at c j)"
  "providerTouchedAt (EvictProviderCacheByID i c) = providerTouchedAt c"
  "gm_get (providerByIDCache (EvictProviderCacheByID i c)) j =
     (if j = i then None else gm_get (providerByIDCache c) j)"
  by (auto simp: provider_ops split: option.splits)

lemma fill_fields [simp]:
  "providerFlushGen (fst (cacheProviderAt now p m c)) = providerFlushGen c"
  "providerEvictSeq (fst (cacheProviderAt now p m c)) = providerEvictSeq c"
  "evicted_at (fst (cacheProviderAt now p m c)) j = evicted_at c j"
  "providerTouchedAt (fst (cacheProviderAt now p m c)) = providerTouchedAt c"
  by (auto simp: provider_ops split: option.splits)

lemma touch_fields [simp]:
  "providerFlushGen (TouchProviderCacheLastUsed i t c) = providerFlushGen c"
  "providerEvictSeq (TouchProviderCacheLastUsed i t c) = providerEvictSeq c"
  "evicted_at (TouchProviderCacheLastUsed i t c) j = evicted_at c j"
  by (auto simp: provider_ops split: option.splits)

lemma flush_fields [simp]:
  "providerFlushGen (InvalidateProviderCache c) = providerFlushGen c + 1"
  "providerEvictSeq (InvalidateProviderCache c) = providerEvictSeq c"
  "evicted_at (InvalidateProviderCache c) j = 0"
  "providerTouchedAt (InvalidateProviderCache c) = []"
  "providerByIDCache (InvalidateProviderCache c) = []"
  by (auto simp: provider_ops)


subsection \<open>The fence\<close>

text \<open>A fill under the mark \<open>m\<close> of a row with id \<open>i\<close> is installed.\<close>

definition fill_admitted :: "'a provider_cache \<Rightarrow> CacheMark \<Rightarrow> uuid \<Rightarrow> bool" where
  "fill_admitted c m i \<longleftrightarrow> providerFlushGen c = cm_flush m \<and> evicted_at c i \<le> cm_evict m"

lemma snd_cacheProviderAt: "snd (cacheProviderAt now (Some p) m c) = fill_admitted c m (p_ID p)"
  by (auto simp: cacheProviderAt_def fill_admitted_def Let_def not_less)

fun flushes :: "'a cache_call list \<Rightarrow> nat" where
  "flushes [] = 0"
| "flushes (Flush # ops) = Suc (flushes ops)"
| "flushes (_ # ops) = flushes ops"

lemma flushes_le: "flushes ops \<le> length ops"
  by (induction ops rule: flushes.induct) auto

lemma flushes_0_iff: "flushes ops = 0 \<longleftrightarrow> Flush \<notin> set ops"
  by (induction ops rule: flushes.induct) auto

lemma run_flushGen: "providerFlushGen (cache_run ops c) = providerFlushGen c + of_nat (flushes ops)"
  by (induction ops arbitrary: c rule: flushes.induct) (auto simp: add_ac)

lemma word_add_of_nat_eq:
  fixes g :: "64 word"
  assumes "n < 2 ^ 64"
  shows "g + of_nat n = g \<longleftrightarrow> n = 0"
proof
  assume "g + of_nat n = g"
  then have "(of_nat n :: 64 word) = 0" by simp
  then have "n mod 2 ^ 64 = 0" by (simp add: word_of_nat_eq_0_iff take_bit_eq_mod dvd_eq_mod_eq_0)
  with assms show "n = 0" by simp
qed simp

lemma run_evicted:
  assumes "Flush \<notin> set ops" "n \<le> providerEvictSeq c"
    "unat (providerEvictSeq c) + length ops < 2 ^ 64"
  shows "evicted_at (cache_run ops c) i \<le> n \<longleftrightarrow> evicted_at c i \<le> n \<and> Evict i \<notin> set ops"
  using assms
proof (induction ops arbitrary: c)
  case (Cons x ops)
  show ?case
  proof (cases x)
    case (Evict j)
    have "unat (providerEvictSeq c) \<noteq> 2 ^ 64 - 1" using Cons.prems(3) by simp
    then have room: "providerEvictSeq c \<noteq> - 1"
      by (auto simp: unsigned_minus_1_eq_mask mask_eq_exp_minus_1)
    have u: "unat (providerEvictSeq c + 1) = unat (providerEvictSeq c) + 1"
      using Cons.prems(3) by (simp add: unat_word_ariths)
    have "\<not> providerEvictSeq c + 1 \<le> n"
      using word_succ_room [OF room] Cons.prems(2) by auto
    moreover have "evicted_at (cache_run ops (do_call x c)) i \<le> n \<longleftrightarrow>
        evicted_at (do_call x c) i \<le> n \<and> Evict i \<notin> set ops"
      using Cons.prems u Evict word_succ_room(2) [OF room] by (intro Cons.IH) auto
    ultimately show ?thesis using Evict by auto
  qed (use Cons in \<open>auto\<close>)
qed simp

text \<open>A mark taken now admits a row later exactly if no flush and no eviction of that row came
  between.\<close>

lemma fence:
  assumes "evicted_at c i \<le> providerEvictSeq c" "unat (providerEvictSeq c) + length ops < 2 ^ 64"
  shows "fill_admitted (cache_run ops c) (Provider_CacheGen c) i \<longleftrightarrow>
           Flush \<notin> set ops \<and> Evict i \<notin> set ops"
proof -
  have "flushes ops < 2 ^ 64" using flushes_le [of ops] assms(2) by simp
  then have "providerFlushGen (cache_run ops c) = providerFlushGen c \<longleftrightarrow> Flush \<notin> set ops"
    unfolding run_flushGen by (simp only: word_add_of_nat_eq flushes_0_iff)
  then show ?thesis
    using run_evicted [of ops "providerEvictSeq c" c i] assms
    by (auto simp: fill_admitted_def Provider_CacheGen_def)
qed

text \<open>The sequence numbers stay below the counter while it has not run through its 64 bits.\<close>

lemma evict_seq_bound:
  assumes "\<And>j. evicted_at c j \<le> providerEvictSeq c" "unat (providerEvictSeq c) + length ops < 2 ^ 64"
  shows "evicted_at (cache_run ops c) i \<le> providerEvictSeq (cache_run ops c)"
  using assms
proof (induction ops arbitrary: c)
  case (Cons x ops)
  show ?case
  proof (cases x)
    case (Evict j)
    have "unat (providerEvictSeq c) \<noteq> 2 ^ 64 - 1" using Cons.prems(2) by simp
    then have room: "providerEvictSeq c \<noteq> - 1"
      by (auto simp: unsigned_minus_1_eq_mask mask_eq_exp_minus_1)
    have u: "unat (providerEvictSeq c + 1) = unat (providerEvictSeq c) + 1"
      using Cons.prems(2) by (simp add: unat_word_ariths)
    show ?thesis unfolding cache_run_simps
      using Cons.prems u Evict word_succ_room(2) [OF room] by (intro Cons.IH) auto
  qed (use Cons in \<open>auto\<close>)
qed simp

lemma evict_seq_le: "unat (providerEvictSeq (cache_run ops c)) \<le> unat (providerEvictSeq c) + length ops"
proof (induction ops arbitrary: c)
  case (Cons x ops)
  have "unat (providerEvictSeq (do_call x c)) \<le> unat (providerEvictSeq c) + 1"
    by (cases x) (auto simp: unat_word_ariths)
  with Cons.IH [of "do_call x c"] show ?case by simp
qed simp

subsection \<open>Names\<close>

text \<open>Every name entry stands beside an id entry of the same name. Rows of one id carry one name
  between flushes (\<open>nm\<close>), since a rename flushes.\<close>

definition names_ok :: "(uuid \<Rightarrow> string) \<Rightarrow> 'a provider_cache \<Rightarrow> bool" where
  "names_ok nm c \<longleftrightarrow>
     (\<forall>i e. gm_get (providerByIDCache c) i = Some e \<longrightarrow> p_ID (pce_provider e) = i \<and> p_Name (pce_provider e) = nm i) \<and>
     (\<forall>n e. gm_get (providerByNameCache c) n = Some e \<longrightarrow>
        n = nm (p_ID (pce_provider e)) \<and> gm_get (providerByIDCache c) (p_ID (pce_provider e)) \<noteq> None) \<and>
     (\<forall>n e. gm_get (providerByNormalNameCache c) n = Some e \<longrightarrow>
        n = NormalizeName (nm (p_ID (pce_provider e))) \<and>
        gm_get (providerByIDCache c) (p_ID (pce_provider e)) \<noteq> None)"

lemma names_ok_put:
  assumes "names_ok nm c" "p_ID (pce_provider e) = i" "p_Name (pce_provider e) = nm i"
  shows "names_ok nm (put_provider e i (nm i) c)"
  using assms by (auto simp: names_ok_def put_provider_def)

lemma names_ok_fill:
  assumes "names_ok nm c" "p_Name p = nm (p_ID p)"
  shows "names_ok nm (fst (cacheProviderAt now (Some p) m c))"
  using assms by (auto simp: cacheProviderAt_def Let_def intro: names_ok_put split: option.splits)

lemma names_ok_touch:
  assumes "names_ok nm c"
  shows "names_ok nm (TouchProviderCacheLastUsed i t c)"
proof -
  have t: "names_ok nm (c\<lparr>providerTouchedAt := x\<rparr>)" for x using assms by (simp add: names_ok_def)
  have "p_ID (pce_provider e) = i \<and> p_Name (pce_provider e) = nm i"
    if "gm_get (providerByIDCache c) i = Some e" for e
    using assms that by (auto simp: names_ok_def)
  then show ?thesis
    using assms t by (auto simp: TouchProviderCacheLastUsed_def Let_def intro!: names_ok_put split: option.splits)
qed

lemma names_ok_evict:
  assumes "names_ok nm c"
  shows "names_ok nm (EvictProviderCacheByID i c)"
proof (cases "gm_get (providerByIDCache c) i")
  case None
  have "p_ID (pce_provider e) \<noteq> i"
    if "gm_get (providerByNameCache c) n = Some e \<or> gm_get (providerByNormalNameCache c) n = Some e" for n e
    using assms None that unfolding names_ok_def by force
  with assms None show ?thesis by (fastforce simp: names_ok_def EvictProviderCacheByID_def Let_def)
next
  case (Some e)
  with assms show ?thesis by (auto simp: names_ok_def EvictProviderCacheByID_def Let_def)
qed

lemma names_ok_run:
  assumes "names_ok nm c" "\<And>now p m. Fill now p m \<in> set ops \<Longrightarrow> p_Name p = nm (p_ID p)"
  shows "names_ok nm (cache_run ops c)"
  using assms
proof (induction ops arbitrary: c)
  case (Cons x ops)
  have "names_ok nm (do_call x c)"
  proof (cases x)
    case (Fill now p m)
    then have "p_Name p = nm (p_ID p)" using Cons.prems(2) [of now p m] by simp
    with Fill Cons.prems(1) show ?thesis by (simp add: names_ok_fill)
  next
    case Flush
    then show ?thesis by (simp add: names_ok_def InvalidateProviderCache_def)
  qed (use Cons.prems names_ok_touch names_ok_evict in auto)
  then show ?case using Cons by auto
qed simp

text \<open>What an entry under any of the keys answers.\<close>

lemma hits_entry:
  "GetCachedByID c i now = Some p \<Longrightarrow> \<exists>e. gm_get (providerByIDCache c) i = Some e \<and> pce_provider e = p"
  "GetCachedByName c n now = Some p \<Longrightarrow> \<exists>e. pce_provider e = p \<and>
     (gm_get (providerByNameCache c) n = Some e \<or> gm_get (providerByNormalNameCache c) n = Some e)"
  by (auto simp: GetCachedByID_def GetCachedByName_def live_entry_def by_name_def
       split: option.splits if_splits)

lemma names_ok_hit:
  assumes "names_ok nm c" "GetCachedByName c n now = Some p"
  shows "gm_get (providerByIDCache c) (p_ID p) \<noteq> None"
  using assms hits_entry(2) [OF assms(2)] unfolding names_ok_def by blast

subsection \<open>The last-used stamp\<close>

definition stamps_ok :: "'a provider_cache \<Rightarrow> bool" where
  "stamps_ok c \<longleftrightarrow> (\<forall>i e t. gm_get (providerByIDCache c) i = Some e \<longrightarrow>
     gm_get (providerTouchedAt c) i = Some t \<longrightarrow>
     (\<exists>u. p_LastUsedAt (pce_provider e) = Some u \<and> t \<le> u))"

lemma stamps_ok_call: "stamps_ok c \<Longrightarrow> stamps_ok (do_call x c)"
proof (cases x)
  case (Fill now p m)
  assume ok: "stamps_ok c"
  show ?thesis unfolding stamps_ok_def
  proof (intro allI impI)
    fix i e t
    assume e: "gm_get (providerByIDCache (do_call x c)) i = Some e"
      and t: "gm_get (providerTouchedAt (do_call x c)) i = Some t"
    show "\<exists>u. p_LastUsedAt (pce_provider e) = Some u \<and> t \<le> u"
      using ok e t unfolding Fill stamps_ok_def
      by (auto simp: cacheProviderAt_def put_provider_def Let_def split: if_splits option.splits)
  qed
next
  case (Touch i t)
  assume ok: "stamps_ok c"
  then show ?thesis unfolding Touch stamps_ok_def
    by (auto simp: TouchProviderCacheLastUsed_def put_provider_def Let_def split: if_splits option.splits)
       (force dest: less_imp_le)+
qed (auto simp: stamps_ok_def)

lemma stamps_ok_run: "stamps_ok c \<Longrightarrow> stamps_ok (cache_run ops c)"
  by (induction ops arbitrary: c) (auto simp: stamps_ok_call)

definition touched_since :: "'a provider_cache \<Rightarrow> uuid \<Rightarrow> instant \<Rightarrow> bool" where
  "touched_since c i t \<longleftrightarrow> (\<exists>u. gm_get (providerTouchedAt c) i = Some u \<and> t \<le> u)"

lemma touch_touches: "touched_since (TouchProviderCacheLastUsed i t c) i t"
  by (auto simp: touched_since_def TouchProviderCacheLastUsed_def put_provider_def Let_def split: option.splits)

lemma touched_call: "touched_since c i t \<Longrightarrow> x \<noteq> Flush \<Longrightarrow> touched_since (do_call x c) i t"
  by (cases x) (auto simp: touched_since_def TouchProviderCacheLastUsed_def put_provider_def Let_def
      split: option.splits)

lemma touched_run: "touched_since c i t \<Longrightarrow> Flush \<notin> set ops \<Longrightarrow> touched_since (cache_run ops c) i t"
  by (induction ops arbitrary: c) (auto simp: touched_call)

lemma new_provider_cache_fields [simp]:
  "providerEvictSeq new_provider_cache = 0" "evicted_at new_provider_cache i = 0"
  "names_ok nm new_provider_cache" "stamps_ok new_provider_cache"
  by (auto simp: new_provider_cache_def evicted_at_def names_ok_def stamps_ok_def)

end
