(* ===== verification/Shared_State_Properties.thy ===== *)
theory Shared_State_Properties
  imports Event_Bus Model_Cache Provider_Cache
begin

text \<open>
  The properties of the process-wide state the goroutines share besides the breaker: the
  read-through caches of failover groups, models and providers, and the event bus.
\<close>

subsection \<open>The failover and model caches\<close>

definition ex_group :: FailoverGroup where
  "ex_group = \<lparr>fg_ID = ''g1'', fg_DisplayModel = ''glm'', fg_DisplayName = Some '''', fg_Description = '''',
     fg_PriorityOrder = [''a'', ''b''], fg_EntryEnabled = [], fg_GroupEnabled = True,
     fg_AutoCreated = True, fg_AutoDisabled = False, fg_CreatedAt = 1, fg_UpdatedAt = 1\<rparr>"

definition ex_filled :: "(string, FailoverGroup, failover_cache, 64 word) rt_state" where
  "ex_filled = \<lparr>rt_table = [''glm'' \<mapsto> ex_group],
     rt_cache = failover_install 7 ex_group 0 new_failover_cache,
     rt_dirty = {}, rt_marks = {0}, rt_fills = {(0, ex_group)}\<rparr>"

lemma ex_filled_reachable: "rt_reachable fg_DisplayModel CacheGen failover_install failover_inval
    failover_clears failover_room new_failover_cache ex_filled"
proof -
  let ?R = "rt_reachable fg_DisplayModel CacheGen failover_install failover_inval
    failover_clears failover_room new_failover_cache"
  let ?s = "\<lparr>rt_table = [''glm'' \<mapsto> ex_group], rt_cache = new_failover_cache, rt_dirty = {},
    rt_marks = {}, rt_fills = {}\<rparr>"
  have "?R ?s" by (rule rt_reachable.start) (simp add: table_ok_def ex_group_def)
  from rt_reachable.step [OF this rt_step.capture]
  have "?R (?s\<lparr>rt_marks := {0}\<rparr>)" by (simp add: CacheGen_def new_failover_cache_def)
  from rt_reachable.step [OF this rt_step.select, of 0 "''glm''" ex_group]
  have "?R (?s\<lparr>rt_marks := {0}, rt_fills := {(0, ex_group)}\<rparr>)" by simp
  from rt_reachable.step [OF this rt_step.install, of 0 ex_group 7]
  show ?thesis by (simp add: ex_filled_def)
qed

text \<open>C26: in every interleaving of readers, commits and invalidations, a hit of the failover
  cache answers the row the table holds, for every display model that has no commit still waiting
  for its invalidation: a read that overlapped a write never reinstalls the row from before it.\<close>

theorem failover_cache_coherent:
  assumes "rt_reachable fg_DisplayModel CacheGen failover_install failover_inval
      failover_clears failover_room new_failover_cache s"
    and "GetCachedFailoverByModel (rt_cache s) displayModel now = Some g"
    and "displayModel \<notin> rt_dirty s"
  shows "rt_table s displayModel = Some g \<and> fg_DisplayModel g = displayModel"
  using failover_rt.rt_reachable_inv [OF assms(1)] failover_hit_entry [OF assms(2)] assms(3)
  by (auto simp: failover_rt.rt_inv_def failover_rt.fresh_def)

theorem failover_cache_coherent_witness:
  "GetCachedFailoverByModel (rt_cache ex_filled) ''glm'' 9 = Some ex_group \<and>
   rt_table ex_filled ''glm'' = Some ex_group"
proof -
  have "GetCachedFailoverByModel (rt_cache ex_filled) ''glm'' 9 = Some ex_group"
    by (simp add: ex_filled_def failover_ops ex_group_def failoverCacheTTL_def time_add_def minute_def
        second_def nanosecond_def microsecond_def millisecond_def)
  with failover_cache_coherent [OF ex_filled_reachable this] show ?thesis
    by (simp add: ex_filled_def)
qed

definition ex_row :: ModelRow where
  "ex_row = \<lparr>m_ID = ''r1'', m_ProviderID = replicate 36 CHR ''0'', m_ModelID = ''glm''\<rparr>"

definition ex_warm :: "(string, ModelRow, unit model_cache, 64 word) rt_state" where
  "ex_warm = \<lparr>rt_table = [''r1'' \<mapsto> ex_row], rt_cache = model_install (FillBoth 7) ex_row 0 new_model_cache,
     rt_dirty = {}, rt_marks = {0}, rt_fills = {(0, ex_row)}\<rparr>"

lemma ex_warm_reachable: "rt_reachable m_ID Model_CacheGen model_install model_inval
    (\<lambda>_ _. True) model_room new_model_cache ex_warm"
proof -
  let ?R = "rt_reachable m_ID Model_CacheGen model_install model_inval (\<lambda>_ _. True) model_room new_model_cache"
  let ?s = "\<lparr>rt_table = [''r1'' \<mapsto> ex_row], rt_cache = new_model_cache, rt_dirty = {},
    rt_marks = {}, rt_fills = {}\<rparr>"
  have "?R ?s" by (rule rt_reachable.start) (simp add: table_ok_def ex_row_def)
  from rt_reachable.step [OF this rt_step.capture]
  have "?R (?s\<lparr>rt_marks := {0}\<rparr>)" by (simp add: Model_CacheGen_def new_model_cache_def)
  from rt_reachable.step [OF this rt_step.select, of 0 "''r1''" ex_row]
  have "?R (?s\<lparr>rt_marks := {0}, rt_fills := {(0, ex_row)}\<rparr>)" by simp
  from rt_reachable.step [OF this rt_step.install, of 0 ex_row "FillBoth 7"]
  show ?thesis by (simp add: ex_warm_def del: model_install.simps)
qed

text \<open>C27: the model cache is coherent under both of its keys. A hit by UUID answers the table's
  row of that UUID, and a hit by composite key answers the table's row of that provider and model
  (a UUID's text has 36 characters), for every row with no invalidation outstanding.\<close>

theorem model_cache_coherent:
  assumes "rt_reachable m_ID Model_CacheGen model_install model_inval (\<lambda>_ _. True) model_room
      new_model_cache s"
    and "m_ID r \<notin> rt_dirty s"
  shows "(GetCachedByUUID (rt_cache s) i now = Some r \<longrightarrow> rt_table s i = Some r) \<and>
    (GetCachedByCompositeKey (rt_cache s) providerID modelID now = Some r \<longrightarrow>
       rt_table s (m_ID r) = Some r \<and>
       (length providerID = 36 \<and> length (m_ProviderID r) = 36 \<longrightarrow>
          m_ProviderID r = providerID \<and> m_ModelID r = modelID))"
proof (intro conjI impI)
  assume "GetCachedByUUID (rt_cache s) i now = Some r"
  from model_rt.coherent [OF assms(1) uuid_hit_entry [OF this] assms(2)]
  show "rt_table s i = Some r" by simp
next
  assume "GetCachedByCompositeKey (rt_cache s) providerID modelID now = Some r"
  note hit = model_rt.coherent [OF assms(1) composite_hit_entry [OF this] assms(2)]
  then show "rt_table s (m_ID r) = Some r" by simp
  assume "length providerID = 36 \<and> length (m_ProviderID r) = 36"
  then show "m_ProviderID r = providerID" "m_ModelID r = modelID"
    using hit compositeKey_inj [of providerID "m_ProviderID r" modelID "m_ModelID r"] by simp_all
qed

theorem model_cache_coherent_witness:
  "GetCachedByCompositeKey (rt_cache ex_warm) (replicate 36 CHR ''0'') ''glm'' 9 = Some ex_row \<and>
   rt_table ex_warm (m_ID ex_row) = Some ex_row"
proof -
  have "GetCachedByCompositeKey (rt_cache ex_warm) (replicate 36 CHR ''0'') ''glm'' 9 = Some ex_row"
    by (simp add: ex_warm_def model_ops ex_row_def modelCacheTTL_def time_add_def minute_def
        second_def nanosecond_def microsecond_def millisecond_def)
  with model_cache_coherent [OF ex_warm_reachable, of ex_row] show ?thesis
    by (simp add: ex_warm_def)
qed

subsection \<open>The provider cache\<close>

definition ex_provider :: ProviderRow where
  "ex_provider = \<lparr>p_ID = ''p1'', p_Name = ''Open Router'', p_LastUsedAt = None\<rparr>"

text \<open>The fence of the provider cache is exact. A read-through that captured its mark in any
  reachable state of the cache installs its row later if and only if no flush and no eviction of
  that very row happened in between; other rows' evictions, touches and fills do not disturb it,
  and a refused fill leaves the cache as it was.\<close>

theorem provider_fill_fence:
  fixes before_capture between :: "'a cache_call list"
  defines "c \<equiv> cache_run before_capture new_provider_cache"
  defines "c' \<equiv> cache_run between c"
  assumes "length before_capture + length between < 2 ^ 64"
  shows "(snd (cacheProviderAt now (Some p) (Provider_CacheGen c) c') \<longleftrightarrow>
            Flush \<notin> set between \<and> Evict (p_ID p) \<notin> set between) \<and>
         (\<not> snd (cacheProviderAt now (Some p) (Provider_CacheGen c) c') \<longrightarrow>
            fst (cacheProviderAt now (Some p) (Provider_CacheGen c) c') = c')"
proof -
  have "unat (providerEvictSeq c) \<le> length before_capture"
    using evict_seq_le [of before_capture new_provider_cache] by (simp add: c_def)
  moreover have "evicted_at c i \<le> providerEvictSeq c" for i
    unfolding c_def using assms(3) by (intro evict_seq_bound) simp_all
  ultimately have "snd (cacheProviderAt now (Some p) (Provider_CacheGen c) c') \<longleftrightarrow>
            Flush \<notin> set between \<and> Evict (p_ID p) \<notin> set between"
    unfolding snd_cacheProviderAt c'_def using assms(3) by (intro fence) simp_all
  moreover have "\<not> snd (cacheProviderAt now (Some p) m d) \<Longrightarrow> fst (cacheProviderAt now (Some p) m d) = d" for m d
    by (auto simp: cacheProviderAt_def Let_def)
  ultimately show ?thesis by blast
qed

theorem provider_fill_fence_witness:
  "snd (cacheProviderAt 5 (Some ex_provider) (Provider_CacheGen (new_provider_cache :: unit provider_cache))
      (cache_run [Evict ''p2'', Touch ''p1'' 3] new_provider_cache)) \<and>
   \<not> snd (cacheProviderAt 5 (Some ex_provider) (Provider_CacheGen (new_provider_cache :: unit provider_cache))
      (cache_run [Evict ''p1''] new_provider_cache))"
  using provider_fill_fence [where before_capture = "[]" and between = "[Evict ''p2'', Touch ''p1'' 3]"
      and p = ex_provider and now = 5]
    provider_fill_fence [where before_capture = "[]" and between = "[Evict ''p1'']" and p = ex_provider and now = 5]
  by (simp add: ex_provider_def del: cache_run_simps(2) do_call.simps)

text \<open>Evicting a provider removes it under all of its keys: as long as the fills between two
  flushes agree on each provider's name, no lookup by id, name or normalized name answers the
  evicted provider, and every other provider stays cached by id as it was.\<close>

theorem provider_evict_complete:
  assumes "\<And>t q m. Fill t q m \<in> set ops \<Longrightarrow> p_Name q = nm (p_ID q)"
  shows "GetCachedByID (EvictProviderCacheByID i (cache_run ops new_provider_cache)) i now = None \<and>
    (\<forall>n p. GetCachedByName (EvictProviderCacheByID i (cache_run ops new_provider_cache)) n now = Some p \<longrightarrow>
        p_ID p \<noteq> i) \<and>
    (\<forall>j. j \<noteq> i \<longrightarrow> GetCachedByID (EvictProviderCacheByID i (cache_run ops new_provider_cache)) j now =
        GetCachedByID (cache_run ops new_provider_cache) j now)"
proof -
  let ?c = "cache_run ops new_provider_cache"
  have "names_ok nm (EvictProviderCacheByID i ?c)"
    using assms by (intro names_ok_evict names_ok_run) auto
  from names_ok_hit [OF this]
  have "GetCachedByName (EvictProviderCacheByID i ?c) n now = Some p \<Longrightarrow> p_ID p \<noteq> i" for n p
    by fastforce
  then show ?thesis by (auto simp: GetCachedByID_def live_entry_def)
qed

theorem provider_evict_complete_witness:
  "GetCachedByName (cache_run [Fill 5 ex_provider \<lparr>cm_flush = 0, cm_evict = 0\<rparr>] new_provider_cache)
      ''Open-Router'' 6 = Some ex_provider \<and>
   GetCachedByName (EvictProviderCacheByID ''p1''
      (cache_run [Fill 5 ex_provider \<lparr>cm_flush = 0, cm_evict = 0\<rparr>] new_provider_cache)) ''Open-Router'' 6 \<noteq> Some ex_provider"
proof
  let ?ops = "[Fill 5 ex_provider \<lparr>cm_flush = 0, cm_evict = 0\<rparr>]"
  show "GetCachedByName (cache_run ?ops new_provider_cache) ''Open-Router'' 6 = Some ex_provider"
    by code_simp
  have evicted: "\<forall>n p. GetCachedByName (EvictProviderCacheByID ''p1'' (cache_run ?ops new_provider_cache)) n 6 =
      Some p \<longrightarrow> p_ID p \<noteq> ''p1''"
    using provider_evict_complete [of ?ops "\<lambda>_. ''Open Router''" "''p1''" 6]
    by (simp add: ex_provider_def del: cache_run_simps(2) do_call.simps)
  have "p_ID ex_provider = ''p1''" by (simp add: ex_provider_def)
  with evicted
  show "GetCachedByName (EvictProviderCacheByID ''p1'' (cache_run ?ops new_provider_cache)) ''Open-Router'' 6
      \<noteq> Some ex_provider"
    by blast
qed

text \<open>A touch sticks. After a provider was stamped as used at an instant, every row the cache
  answers for it by id carries that stamp or a later one until the next flush, whatever fills,
  evictions and touches (in whatever order) happen in between.\<close>

theorem provider_touch_sticks:
  assumes "Flush \<notin> set after"
    and "GetCachedByID (cache_run (before @ Touch i used # after) new_provider_cache) i now = Some p"
  shows "\<exists>u. p_LastUsedAt p = Some u \<and> used \<le> u"
proof -
  let ?c = "cache_run (before @ Touch i used # after) new_provider_cache"
  have "stamps_ok ?c" by (rule stamps_ok_run) simp
  moreover have "touched_since ?c i used"
    using touched_run [OF touch_touches assms(1)] by simp
  moreover obtain e where "gm_get (providerByIDCache ?c) i = Some e" "pce_provider e = p"
    using hits_entry(1) [OF assms(2)] by blast
  ultimately show ?thesis unfolding stamps_ok_def touched_since_def by (meson order_trans)
qed

theorem provider_touch_sticks_witness:
  "\<exists>p :: ProviderRow. GetCachedByID (cache_run ([] @ Touch ''p1'' 3 #
      [Fill 5 ex_provider \<lparr>cm_flush = 0, cm_evict = 0\<rparr>]) new_provider_cache) ''p1'' 6 = Some p \<and>
     (\<exists>u. p_LastUsedAt p = Some u \<and> 3 \<le> u)"
proof -
  let ?c = "cache_run ([] @ Touch ''p1'' 3 # [Fill 5 ex_provider \<lparr>cm_flush = 0, cm_evict = 0\<rparr>])
    new_provider_cache"
  have hit: "GetCachedByID ?c ''p1'' 6 = Some (ex_provider\<lparr>p_LastUsedAt := Some 3\<rparr>)" by code_simp
  moreover have "\<exists>u. p_LastUsedAt (ex_provider\<lparr>p_LastUsedAt := Some 3\<rparr>) = Some u \<and> 3 \<le> u"
    by (rule provider_touch_sticks [OF _ hit]) simp
  ultimately show ?thesis by blast
qed

subsection \<open>The event bus\<close>

definition ex_event :: Event where
  "ex_event = \<lparr>ev_ID = '''', ev_Type = ''t'', ev_Severity = ''info'', ev_Source = ''s'',
     ev_Message = ''m'', ev_Metadata = [], ev_Timestamp = 0\<rparr>"


definition ex_bus :: Bus where "ex_bus = fst (Bus_Subscribe NewBus)"

lemma ex_bus_reachable: "bus_reachable ex_bus"
  unfolding ex_bus_def
  by (rule bus_reachable.step [OF bus_reachable.start bus_step.subscribe [of _ _ "snd (Bus_Subscribe NewBus)"]]) simp


text \<open>A publish treats the subscribers independently. On a reachable bus, each subscriber with
  room in its buffer gets the event (with its id and timestamp filled in) appended exactly once,
  each full one keeps its buffer and has one more drop counted, and a channel that is not
  subscribed is left alone: a slow consumer neither blocks the publisher nor costs the others
  an event.\<close>

theorem publish_delivers:
  assumes "bus_reachable b"
    and "Bus_Publish b ev newID now = Some (b', logged)"
    and "gm_get (bus_chans b) ch = Some c"
  shows "\<exists>ev'. ev_Type ev' = ev_Type ev \<and> (ev_ID ev' = (if ev_ID ev = [] then newID else ev_ID ev)) \<and>
     (case gm_get (bus_subscribers b) ch of
        Some drops \<Rightarrow>
          (if length (ch_buf c) < 64
           then gm_get (bus_chans b') ch = Some (c\<lparr>ch_buf := ch_buf c @ [ev']\<rparr>) \<and>
                gm_get (bus_subscribers b') ch = Some drops
           else gm_get (bus_chans b') ch = Some c \<and> gm_get (bus_subscribers b') ch = Some (drops + 1))
      | None \<Rightarrow> gm_get (bus_chans b') ch = Some c \<and> gm_get (bus_subscribers b') ch = None)"
proof -
  define ev1 where "ev1 = (if ev_ID ev = '''' then ev\<lparr>ev_ID := newID\<rparr> else ev)"
  define ev2 where "ev2 = (if ev_Timestamp ev1 = 0 then ev1\<lparr>ev_Timestamp := now\<rparr> else ev1)"
  have wf: "gm_wf (bus_subscribers b)" using bus_reachable_inv [OF assms(1)] by (rule bus_invD(1))
  have walk: "publish_walk (bus_subscribers b) ev2 b = Some (b', logged)"
    using assms(2) unfolding Bus_Publish_def Let_def ev1_def ev2_def .
  have "gm_get (bus_subscribers b) k = Some d" if "(k, d) \<in> set (bus_subscribers b)" for k d
    using wf that by (simp add: gm_wf_def)
  note eff = publish_walk_effect [OF wf [unfolded gm_wf_def] walk this assms(3)]
  have dom: "ch \<in> fst ` set (bus_subscribers b) \<longleftrightarrow> gm_get (bus_subscribers b) ch \<noteq> None"
    by (simp add: map_of_eq_None_iff)
  have "ev_Type ev2 = ev_Type ev" "ev_ID ev2 = (if ev_ID ev = [] then newID else ev_ID ev)"
    by (simp_all add: ev1_def ev2_def)
  with eff dom show ?thesis
    by (intro exI [of _ ev2]) (auto simp: chan_cap_def split: option.splits)
qed

theorem publish_delivers_witness:
  "\<exists>b' c ev'. Bus_Publish ex_bus ex_event ''id'' 5 = Some (b', []) \<and> ev_ID ev' = ''id'' \<and>
     gm_get (bus_chans b') 0 = Some c \<and> ch_buf c = [ev']"
proof -
  let ?c = "\<lparr>ch_buf = [], ch_closed = False\<rparr>"
  have get: "gm_get (bus_chans ex_bus) 0 = Some ?c" "gm_get (bus_subscribers ex_bus) 0 = Some 0"
    by (simp_all add: ex_bus_def Bus_Subscribe_def NewBus_def Let_def)
  obtain b' where pub: "Bus_Publish ex_bus ex_event ''id'' 5 = Some (b', [])"
    by (simp add: ex_bus_def Bus_Subscribe_def NewBus_def Bus_Publish_def try_send_def chan_cap_def Let_def)
  from publish_delivers [OF ex_bus_reachable pub get(1)] get(2)
  show ?thesis using pub by (auto simp: ex_event_def)
qed

end
