(* ===== verification/Failover_Store.thy ===== *)
theory Failover_Store
  imports Failover_Cache
begin

text \<open>
  The repository of failover groups (\<open>internal/failover/failover.go\<close>) over the tables it reads and
  writes. A table is the list of its rows; each SQL statement of the source is a function on the
  tables, with the constraints of the schema (\<open>internal/db/migrations\<close>: the primary key, the unique
  \<open>display_model\<close>, the nullable columns). JSON columns are kept decoded. Sorting by a text column
  is by bytes.

  The world an operation runs in is one record: the tables, the group cache, the pending flag of
  the fleet echo, the clock it reads, the UUIDs \<open>gen_random_uuid()\<close> will hand out, and the list of
  outcomes of the statements it will issue (\<open>Some e\<close> makes the next statement, with the reading of
  its rows, fail with \<open>e\<close>; past the end of the list every statement succeeds). So each error branch
  of the source is a run of the model.
\<close>

subsection \<open>The tables\<close>

datatype order_json = OSqlNull | OJsonNull | OArr "uuid list" | OOther

datatype toggles_json = TSqlNull | TJsonNull | TObj "bool gomap" | TOther

record group_row =
  gr_id :: uuid
  gr_display_model :: string
  gr_display_name :: "string option"
  gr_description :: "string option"
  gr_priority_order :: order_json
  gr_entry_enabled :: toggles_json
  gr_group_enabled :: "bool option"
  gr_auto_created :: "bool option"
  gr_auto_disabled_at :: "instant option"
  gr_floor_disabled_at :: "instant option"
  gr_created_at :: instant
  gr_updated_at :: "instant option"

record model_row =
  mr_id :: uuid
  mr_model_id :: string
  mr_provider_id :: uuid
  mr_enabled :: "bool option"

record provider_row =
  pr_id :: uuid
  pr_name :: string
  pr_enabled :: "bool option"
  pr_created_at :: instant

text \<open>A settings value: a JSON array of groups (by display model), or any other text.\<close>

datatype setting_value = SText string | SGroups "string list"

datatype db_error = ErrNoRows | DbError string | ScanError string

record world =
  w_groups :: "group_row list"
  w_models :: "model_row list"
  w_providers :: "provider_row list"
  w_settings :: "setting_value gomap"
  w_cache :: failover_cache
  w_echoClearPending :: bool
  w_faults :: "string option list"
  w_clock :: instant
  w_uuids :: "nat \<Rightarrow> uuid"
  w_seq :: nat

definition is_true :: "bool option \<Rightarrow> bool" where "is_true b \<longleftrightarrow> b = Some True"

text \<open>The outcome of the next statement.\<close>

definition next_fault :: "world \<Rightarrow> string option \<times> world" where
  "next_fault w = (case w_faults w of
     [] \<Rightarrow> (None, w) | f # fs \<Rightarrow> (f, w\<lparr>w_faults := fs\<rparr>))"

subsection \<open>Reading rows\<close>

definition unmarshal_order :: "order_json \<Rightarrow> uuid list option" where
  "unmarshal_order j = (case j of OArr ids \<Rightarrow> Some ids | OJsonNull \<Rightarrow> Some [] | _ \<Rightarrow> None)"

text \<open>After the projection's \<open>COALESCE(entry_enabled, '{}')\<close>.\<close>

definition unmarshal_toggles :: "toggles_json \<Rightarrow> bool gomap option" where
  "unmarshal_toggles j =
     (case j of TObj m \<Rightarrow> Some m | TSqlNull \<Rightarrow> Some [] | TJsonNull \<Rightarrow> Some [] | TOther \<Rightarrow> None)"

definition scanFailoverGroup :: "group_row \<Rightarrow> db_error + FailoverGroup" where
  "scanFailoverGroup r =
     (case unmarshal_order (gr_priority_order r) of
        None \<Rightarrow> Inl (ScanError (''unmarshal priority_order for '' @ gr_display_model r))
      | Some ids \<Rightarrow>
          (case unmarshal_toggles (gr_entry_enabled r) of
             None \<Rightarrow> Inl (ScanError (''unmarshal entry_enabled for '' @ gr_display_model r))
           | Some m \<Rightarrow>
               Inr \<lparr>fg_ID = gr_id r, fg_DisplayModel = gr_display_model r,
                 fg_DisplayName = Some (case gr_display_name r of Some n \<Rightarrow> n | None \<Rightarrow> ''''),
                 fg_Description = (case gr_description r of Some d \<Rightarrow> d | None \<Rightarrow> ''''),
                 fg_PriorityOrder = ids, fg_EntryEnabled = m,
                 fg_GroupEnabled = (case gr_group_enabled r of Some b \<Rightarrow> b | None \<Rightarrow> True),
                 fg_AutoCreated = (case gr_auto_created r of Some b \<Rightarrow> b | None \<Rightarrow> False),
                 fg_AutoDisabled = (gr_auto_disabled_at r \<noteq> None \<or> gr_floor_disabled_at r \<noteq> None),
                 fg_CreatedAt = gr_created_at r,
                 fg_UpdatedAt = (case gr_updated_at r of Some t \<Rightarrow> t | None \<Rightarrow> gr_created_at r)\<rparr>))"

text \<open>The multi-row loop stops at the first row it cannot read.\<close>

fun scanFailoverGroups :: "group_row list \<Rightarrow> db_error + FailoverGroup list" where
  "scanFailoverGroups [] = Inr []"
| "scanFailoverGroups (r # rs) =
     (case scanFailoverGroup r of
        Inl e \<Rightarrow> Inl e
      | Inr fg \<Rightarrow> (case scanFailoverGroups rs of Inl e \<Rightarrow> Inl e | Inr fgs \<Rightarrow> Inr (fg # fgs)))"

text \<open>A single-row query: the fault of the statement, no row, or the row.\<close>

definition query_row :: "(group_row \<Rightarrow> bool) \<Rightarrow> world \<Rightarrow> (db_error + FailoverGroup) \<times> world" where
  "query_row P w =
     (case next_fault w of
        (Some e, w) \<Rightarrow> (Inl (DbError e), w)
      | (None, w) \<Rightarrow> ((case find P (w_groups w) of None \<Rightarrow> Inl ErrNoRows | Some r \<Rightarrow> scanFailoverGroup r), w))"

definition query_groups :: "(group_row \<Rightarrow> bool) \<Rightarrow> world \<Rightarrow> (db_error + FailoverGroup list) \<times> world" where
  "query_groups P w =
     (case next_fault w of
        (Some e, w) \<Rightarrow> (Inl (DbError e), w)
      | (None, w) \<Rightarrow> (scanFailoverGroups (filter P (w_groups w)), w))"

subsection \<open>Operations\<close>

definition w_InvalidateKey :: "string \<Rightarrow> world \<Rightarrow> world" where
  "w_InvalidateKey k w = w\<lparr>w_cache := InvalidateFailoverCacheKey k (w_cache w)\<rparr>"

definition w_Invalidate :: "world \<Rightarrow> world" where
  "w_Invalidate w = w\<lparr>w_cache := InvalidateFailoverCache (w_cache w)\<rparr>"

definition GetByModel :: "string \<Rightarrow> world \<Rightarrow> (db_error + FailoverGroup) \<times> world" where
  "GetByModel modelID w =
     (case GetCachedFailoverByModel (w_cache w) modelID (w_clock w) of
        Some fg \<Rightarrow> (Inr fg, w)
      | None \<Rightarrow>
          (let gen = CacheGen (w_cache w)
           in case query_row (\<lambda>r. gr_display_model r = modelID) w of
                (Inl e, w) \<Rightarrow> (Inl e, w)
              | (Inr fg, w) \<Rightarrow>
                  (Inr fg, w\<lparr>w_cache := cacheFailoverGroupAt (w_clock w) (Some fg) gen (w_cache w)\<rparr>)))"

definition GetByID :: "uuid \<Rightarrow> world \<Rightarrow> (db_error + FailoverGroup) \<times> world" where
  "GetByID i w =
     (let gen = CacheGen (w_cache w)
      in case query_row (\<lambda>r. gr_id r = i) w of
           (Inl e, w) \<Rightarrow> (Inl e, w)
         | (Inr fg, w) \<Rightarrow>
             (Inr fg, w\<lparr>w_cache := cacheFailoverGroupAt (w_clock w) (Some fg) gen (w_cache w)\<rparr>))"

definition order_by_model :: "group_row list \<Rightarrow> group_row list" where
  "order_by_model rs = sort_key gr_display_model rs"

definition GetEnabled :: "world \<Rightarrow> (db_error + FailoverGroup list) \<times> world" where
  "GetEnabled w =
     (case next_fault w of
        (Some e, w) \<Rightarrow> (Inl (DbError e), w)
      | (None, w) \<Rightarrow> (scanFailoverGroups (order_by_model (filter (\<lambda>r. is_true (gr_group_enabled r)) (w_groups w))), w))"

definition ListGroups :: "world \<Rightarrow> (db_error + FailoverGroup list) \<times> world" where
  "ListGroups w =
     (case next_fault w of
        (Some e, w) \<Rightarrow> (Inl (DbError e), w)
      | (None, w) \<Rightarrow> (scanFailoverGroups (order_by_model (w_groups w)), w))"

definition Delete :: "string \<Rightarrow> world \<Rightarrow> db_error option \<times> world" where
  "Delete displayModel w =
     (case next_fault w of
        (Some e, w) \<Rightarrow> (Some (DbError e), w_Invalidate w)
      | (None, w) \<Rightarrow>
          (None, w_Invalidate (w\<lparr>w_groups := filter (\<lambda>r. gr_display_model r \<noteq> displayModel) (w_groups w)\<rparr>)))"

definition DeleteByID :: "uuid \<Rightarrow> world \<Rightarrow> db_error option \<times> world" where
  "DeleteByID i w =
     (case next_fault w of
        (Some e, w) \<Rightarrow> (Some (DbError e), w_Invalidate w)
      | (None, w) \<Rightarrow>
          (None, w_Invalidate (w\<lparr>w_groups := filter (\<lambda>r. gr_id r \<noteq> i) (w_groups w)\<rparr>)))"

text \<open>\<open>json.Marshal\<close> of a nil slice or map is \<open>null\<close>.\<close>

definition marshal_order :: "uuid list option \<Rightarrow> order_json" where
  "marshal_order ids = (case ids of None \<Rightarrow> OJsonNull | Some xs \<Rightarrow> OArr xs)"

definition marshal_toggles :: "bool gomap option \<Rightarrow> toggles_json" where
  "marshal_toggles m = (case m of None \<Rightarrow> TJsonNull | Some xs \<Rightarrow> TObj xs)"

text \<open>The \<open>DO UPDATE SET\<close> clauses of the upsert, applied to the conflicting row.\<close>

definition upsert_set ::
    "order_json \<Rightarrow> toggles_json \<Rightarrow> bool \<Rightarrow> string option \<Rightarrow> string option \<Rightarrow> bool \<Rightarrow> instant \<Rightarrow> group_row \<Rightarrow> group_row" where
  "upsert_set priorityJSON entryEnabledJSON groupEnabledVal displayName description autoCreatedVal now r =
     (let r = r\<lparr>gr_priority_order := priorityJSON, gr_entry_enabled := entryEnabledJSON,
                gr_group_enabled := Some groupEnabledVal,
                gr_auto_disabled_at := None, gr_floor_disabled_at := None\<rparr>;
          r = (case displayName of
                 None \<Rightarrow> r
               | Some n \<Rightarrow> r\<lparr>gr_display_name := (if n = '''' then None else Some n)\<rparr>);
          r = (case description of None \<Rightarrow> r | Some d \<Rightarrow> r\<lparr>gr_description := Some d\<rparr>)
      in r\<lparr>gr_auto_created := Some autoCreatedVal, gr_updated_at := Some now\<rparr>)"

definition insert_row ::
    "uuid \<Rightarrow> string \<Rightarrow> order_json \<Rightarrow> toggles_json \<Rightarrow> bool \<Rightarrow> string option \<Rightarrow> string option \<Rightarrow> bool \<Rightarrow> instant \<Rightarrow> group_row" where
  "insert_row i displayModel priorityJSON entryEnabledJSON groupEnabledVal displayName description autoCreatedVal now =
     \<lparr>gr_id = i, gr_display_model = displayModel,
       gr_display_name = (if displayName = Some '''' then None else displayName),
       gr_description = description, gr_priority_order = priorityJSON, gr_entry_enabled = entryEnabledJSON,
       gr_group_enabled = Some groupEnabledVal, gr_auto_created = Some autoCreatedVal,
       gr_auto_disabled_at = None, gr_floor_disabled_at = None, gr_created_at = now, gr_updated_at = None\<rparr>"

text \<open>The statement: insert, or update the row that holds the name if the \<open>WHERE\<close> admits it.\<close>

definition sql_upsert ::
    "string \<Rightarrow> order_json \<Rightarrow> toggles_json \<Rightarrow> bool \<Rightarrow> string option \<Rightarrow> string option \<Rightarrow> bool \<Rightarrow> world \<Rightarrow>
     (db_error + FailoverGroup) \<times> world" where
  "sql_upsert displayModel pj ej ge dn ds ac w =
     (case find (\<lambda>r. gr_display_model r = displayModel) (w_groups w) of
        None \<Rightarrow>
          (let i = w_uuids w (w_seq w); w = w\<lparr>w_seq := w_seq w + 1\<rparr>;
               r = insert_row i displayModel pj ej ge dn ds ac (w_clock w)
           in if i \<in> gr_id ` set (w_groups w) then (Inl (DbError ''duplicate key''), w)
              else (scanFailoverGroup r, w\<lparr>w_groups := w_groups w @ [r]\<rparr>))
      | Some r \<Rightarrow>
          if is_true (gr_auto_created r) \<or> \<not> ac
          then (let r' = upsert_set pj ej ge dn ds ac (w_clock w) r
                in (scanFailoverGroup r',
                    w\<lparr>w_groups := map (\<lambda>q. if gr_display_model q = displayModel then r' else q) (w_groups w)\<rparr>))
          else (Inl ErrNoRows, w))"

definition UpsertWithConfig ::
    "string \<Rightarrow> uuid list option \<Rightarrow> bool gomap option \<Rightarrow> bool option \<Rightarrow> string option \<Rightarrow> string option \<Rightarrow>
     bool option \<Rightarrow> world \<Rightarrow> (db_error + FailoverGroup) \<times> world" where
  "UpsertWithConfig displayModel priorityOrder entryEnabled groupEnabled displayName description autoCreated w =
     (let groupEnabledVal = (case groupEnabled of Some b \<Rightarrow> b | None \<Rightarrow> True);
          autoCreatedVal = (case autoCreated of Some b \<Rightarrow> b | None \<Rightarrow> False)
      in case next_fault w of
           (Some e, w) \<Rightarrow> (Inl (DbError e), w)
         | (None, w) \<Rightarrow>
             (case sql_upsert displayModel (marshal_order priorityOrder) (marshal_toggles entryEnabled)
                     groupEnabledVal displayName description autoCreatedVal w of
                (Inl e, w) \<Rightarrow> (Inl e, w)
              | (Inr fg, w) \<Rightarrow> (Inr fg, w_InvalidateKey (fg_DisplayModel fg) w)))"

text \<open>The \<open>SET\<close> list of the operator's update.\<close>

definition update_set ::
    "uuid list option \<Rightarrow> bool gomap option \<Rightarrow> bool option \<Rightarrow> bool \<Rightarrow> string option \<Rightarrow> string option \<Rightarrow>
     string option \<Rightarrow> instant \<Rightarrow> group_row \<Rightarrow> group_row" where
  "update_set priorityOrder entryEnabled groupEnabled floorDisabled displayName description displayModel now r =
     (let r = r\<lparr>gr_priority_order := marshal_order priorityOrder, gr_entry_enabled := marshal_toggles entryEnabled\<rparr>;
          r = (case groupEnabled of
                 None \<Rightarrow> r
               | Some b \<Rightarrow>
                   if floorDisabled \<and> \<not> b
                   then r\<lparr>gr_group_enabled := Some b, gr_floor_disabled_at := Some now\<rparr>
                   else r\<lparr>gr_group_enabled := Some b, gr_auto_disabled_at := None, gr_floor_disabled_at := None\<rparr>);
          r = (case displayName of
                 None \<Rightarrow> r
               | Some n \<Rightarrow> r\<lparr>gr_display_name := (if n = '''' then None else Some n)\<rparr>);
          r = (case description of None \<Rightarrow> r | Some d \<Rightarrow> r\<lparr>gr_description := Some d\<rparr>);
          r = (case displayModel of None \<Rightarrow> r | Some m \<Rightarrow> r\<lparr>gr_display_model := m\<rparr>)
      in r\<lparr>gr_updated_at := Some now\<rparr>)"

definition UpdateGroup ::
    "uuid \<Rightarrow> uuid list option \<Rightarrow> bool gomap option \<Rightarrow> bool option \<Rightarrow> bool \<Rightarrow> string option \<Rightarrow> string option \<Rightarrow>
     string option \<Rightarrow> world \<Rightarrow> (db_error + FailoverGroup) \<times> world" where
  "UpdateGroup i priorityOrder entryEnabled groupEnabled floorDisabled displayName description displayModel w =
     (case next_fault w of
        (Some e, w) \<Rightarrow> (Inl (DbError e), w)
      | (None, w) \<Rightarrow>
          (case find (\<lambda>r. gr_id r = i) (w_groups w) of
             None \<Rightarrow> (Inl ErrNoRows, w)
           | Some r \<Rightarrow>
               (let r' = update_set priorityOrder entryEnabled groupEnabled floorDisabled displayName
                           description displayModel (w_clock w) r
                in if \<exists>q \<in> set (w_groups w). gr_id q \<noteq> i \<and> gr_display_model q = gr_display_model r'
                   then (Inl (DbError ''duplicate key''), w)
                   else (let w = w\<lparr>w_groups := map (\<lambda>q. if gr_id q = i then r' else q) (w_groups w)\<rparr>
                         in case scanFailoverGroup r' of
                              Inl e \<Rightarrow> (Inl e, w)
                            | Inr fg \<Rightarrow> (Inr fg, w_InvalidateKey (fg_DisplayModel fg) w)))))"

end
