(* ===== verification/Go_Text.thy ===== *)
theory Go_Text
  imports Go_Float
begin

text \<open>
  The text functions of Go's standard library that the gateway's own code calls, on strings as
  lists of bytes: case mapping and trimming for ASCII, substring search, leftmost-first regular
  expressions with submatches (\<open>regexp\<close>), \<open>strconv.Atoi\<close> and \<open>ParseInt\<close>, \<open>ParseFloat\<close> on plain
  decimals, and \<open>time.ParseDuration\<close>.
\<close>

definition lower_char :: "char \<Rightarrow> char" where
  "lower_char c = (if 65 \<le> (of_char c :: nat) \<and> (of_char c :: nat) \<le> 90 then char_of ((of_char c :: nat) + 32) else c)"

definition ToLower :: "string \<Rightarrow> string" where "ToLower s = map lower_char s"

definition is_space :: "char \<Rightarrow> bool" where
  "is_space c \<longleftrightarrow> c \<in> {CHR '' '', CHR 0x09, CHR 0x0A, CHR 0x0B, CHR 0x0C, CHR 0x0D}"

definition TrimSpace :: "string \<Rightarrow> string" where
  "TrimSpace s = rev (dropWhile is_space (rev (dropWhile is_space s)))"

fun starts_with :: "string \<Rightarrow> string \<Rightarrow> bool" where
  "starts_with s [] = True"
| "starts_with [] (_ # _) = False"
| "starts_with (c # s) (d # t) = (c = d \<and> starts_with s t)"

fun Contains :: "string \<Rightarrow> string \<Rightarrow> bool" where
  "Contains [] t = (t = [])"
| "Contains (c # s) t = (starts_with (c # s) t \<or> Contains s t)"

lemma starts_with_iff: "starts_with s t \<longleftrightarrow> (\<exists>u. s = t @ u)"
  by (induction s t rule: starts_with.induct) auto

lemma Contains_iff: "Contains s t \<longleftrightarrow> (\<exists>a b. s = a @ t @ b)"
proof (induction s)
  case (Cons c s)
  show ?case
  proof
    assume "Contains (c # s) t"
    then consider u where "c # s = t @ u" | a b where "c # s = (c # a) @ t @ b"
      using Cons by (auto simp: starts_with_iff)
    then show "\<exists>a b. c # s = a @ t @ b" by cases (metis append_Nil, blast)
  next
    assume "\<exists>a b. c # s = a @ t @ b"
    then obtain a b where "c # s = a @ t @ b" by blast
    then have "starts_with (c # s) t \<or> (\<exists>a b. s = a @ t @ b)"
      by (cases a) (auto simp: starts_with_iff simp del: starts_with.simps)
    then show "Contains (c # s) t" using Cons by auto
  qed
qed simp

subsection \<open>Regular expressions\<close>

text \<open>A position in a match: the byte before it, what follows it, and the submatches so far.\<close>

record rx_pos =
  rx_prev :: "char option"
  rx_rest :: string
  rx_caps :: "(nat \<times> string) list"

datatype regexp =
    RClass "char \<Rightarrow> bool"
  | REmpty
  | RSeq regexp regexp
  | RAlt regexp regexp
  | RStar regexp
  | RGroup nat regexp
  | REndText
  | RWordEdge

definition ROpt :: "regexp \<Rightarrow> regexp" where "ROpt r = RAlt r REmpty"
definition RPlus :: "regexp \<Rightarrow> regexp" where "RPlus r = RSeq r (RStar r)"

fun RLit :: "string \<Rightarrow> regexp" where
  "RLit [] = REmpty"
| "RLit (c # cs) = RSeq (RClass (\<lambda>d. d = c)) (RLit cs)"

definition is_digit :: "char \<Rightarrow> bool" where
  "is_digit c \<longleftrightarrow> 48 \<le> (of_char c :: nat) \<and> (of_char c :: nat) \<le> 57"

definition is_lower :: "char \<Rightarrow> bool" where
  "is_lower c \<longleftrightarrow> 97 \<le> (of_char c :: nat) \<and> (of_char c :: nat) \<le> 122"

definition is_word :: "char \<Rightarrow> bool" where
  "is_word c \<longleftrightarrow> is_digit c \<or> is_lower c \<or> (65 \<le> (of_char c :: nat) \<and> (of_char c :: nat) \<le> 90) \<or> c = CHR ''_''"

text \<open>The perl class \<open>\s\<close> has no vertical tab.\<close>

definition is_rx_space :: "char \<Rightarrow> bool" where
  "is_rx_space c \<longleftrightarrow> c \<in> {CHR '' '', CHR 0x09, CHR 0x0A, CHR 0x0C, CHR 0x0D}"

text \<open>The matches at a position in the order a backtracking search finds them; \<open>regexp\<close> answers the
  first. An iteration of a star consumes something.\<close>

function (sequential) rx_match :: "regexp \<Rightarrow> rx_pos \<Rightarrow> rx_pos list" where
  "rx_match (RClass f) p = (case rx_rest p of
     [] \<Rightarrow> [] | c # cs \<Rightarrow> if f c then [p\<lparr>rx_prev := Some c, rx_rest := cs\<rparr>] else [])"
| "rx_match REmpty p = [p]"
| "rx_match (RSeq r s) p = concat (map (rx_match s) (rx_match r p))"
| "rx_match (RAlt r s) p = rx_match r p @ rx_match s p"
| "rx_match (RStar r) p =
     concat (map (\<lambda>q. if length (rx_rest q) < length (rx_rest p) then rx_match (RStar r) q else [])
                 (rx_match r p)) @ [p]"
| "rx_match (RGroup n r) p =
     map (\<lambda>q. q\<lparr>rx_caps := (n, take (length (rx_rest p) - length (rx_rest q)) (rx_rest p)) # rx_caps q\<rparr>)
         (rx_match r p)"
| "rx_match REndText p = (if rx_rest p = [] then [p] else [])"
| "rx_match RWordEdge p =
     (let left_word = (case rx_prev p of Some c \<Rightarrow> is_word c | None \<Rightarrow> False);
          right_word = (case rx_rest p of c # _ \<Rightarrow> is_word c | [] \<Rightarrow> False)
      in if left_word \<noteq> right_word then [p] else [])"
  by pat_completeness auto
termination by (relation "measures [\<lambda>(r, p). size r, \<lambda>(r, p). length (rx_rest p)]") auto

fun rx_search :: "regexp \<Rightarrow> char option \<Rightarrow> string \<Rightarrow> rx_pos option" where
  "rx_search r prev s =
     (case rx_match r \<lparr>rx_prev = prev, rx_rest = s, rx_caps = []\<rparr> of
        q # _ \<Rightarrow> Some q
      | [] \<Rightarrow> (case s of [] \<Rightarrow> None | c # cs \<Rightarrow> rx_search r (Some c) cs))"

declare rx_search.simps [simp del]

definition MatchString :: "regexp \<Rightarrow> string \<Rightarrow> bool" where
  "MatchString r s \<longleftrightarrow> rx_search r None s \<noteq> None"

text \<open>The submatch of a group, empty when the group took no part.\<close>

definition FindStringSubmatch :: "regexp \<Rightarrow> string \<Rightarrow> (nat \<Rightarrow> string) option" where
  "FindStringSubmatch r s =
     map_option (\<lambda>q n. case gm_get (rx_caps q) n of Some t \<Rightarrow> t | None \<Rightarrow> []) (rx_search r None s)"

subsection \<open>Numbers\<close>

definition digit_val :: "char \<Rightarrow> int" where
  "digit_val c = int (of_char c :: nat) - 48"

definition digits_val :: "string \<Rightarrow> int" where
  "digits_val s = foldl (\<lambda>n c. n * 10 + digit_val c) 0 s"

text \<open>\<open>strconv.ParseInt(s, 10, 64)\<close> and \<open>strconv.Atoi\<close>: an optional sign and digits; a value outside
  an \<open>int64\<close> is an error.\<close>

definition ParseInt :: "string \<Rightarrow> int option" where
  "ParseInt s =
     (let neg = (case s of c # _ \<Rightarrow> c = CHR ''-'' | [] \<Rightarrow> False);
          ds = (case s of c # cs \<Rightarrow> if c = CHR ''-'' \<or> c = CHR ''+'' then cs else s | [] \<Rightarrow> []);
          n = (if neg then - digits_val ds else digits_val ds)
      in if ds = [] \<or> \<not> list_all is_digit ds \<or> \<not> in_int64 n then None else Some n)"

text \<open>\<open>strconv.ParseFloat(s, 64)\<close> on text of the form digits or digits.digits: the nearest
  \<open>float64\<close>, an error beyond the finite range.\<close>

definition ParseFloat :: "string \<Rightarrow> rat option" where
  "ParseFloat s =
     (let whole = takeWhile is_digit s; rest = drop (length whole) s;
          frac = (case rest of [] \<Rightarrow> [] | _ # cs \<Rightarrow> cs);
          x = fl64 (of_int (digits_val (whole @ frac)) / 10 ^ length frac)
      in if x \<ge> 2 ^ 1024 then None else Some x)"

text \<open>\<open>time.Duration(f)\<close> for a \<open>float64\<close>: truncation; a value an \<open>int64\<close> cannot hold becomes the
  least \<open>int64\<close>, as on amd64.\<close>

definition Duration_of_float :: "rat \<Rightarrow> duration" where
  "Duration_of_float x = (let n = go_trunc x in if in_int64 n then n else minDuration)"

subsection \<open>Durations\<close>

text \<open>\<open>time.ParseDuration\<close>. The unsigned accumulators never pass \<open>2 ^ 64\<close>: every step checks
  \<open>2 ^ 63\<close> first.\<close>

fun leadingInt :: "int \<Rightarrow> string \<Rightarrow> (int \<times> string) option" where
  "leadingInt x [] = Some (x, [])"
| "leadingInt x (c # s) =
     (if \<not> is_digit c then Some (x, c # s)
      else if x > 2 ^ 63 div 10 then None
      else (let y = x * 10 + digit_val c in if y > 2 ^ 63 then None else leadingInt y s))"

fun leadingFraction :: "bool \<Rightarrow> int \<Rightarrow> rat \<Rightarrow> string \<Rightarrow> int \<times> rat \<times> string" where
  "leadingFraction overflow x scale [] = (x, scale, [])"
| "leadingFraction overflow x scale (c # s) =
     (if \<not> is_digit c then (x, scale, c # s)
      else if overflow then leadingFraction True x scale s
      else if x > (2 ^ 63 - 1) div 10 then leadingFraction True x scale s
      else (let y = x * 10 + digit_val c
            in if y > 2 ^ 63 then leadingFraction True x scale s
               else leadingFraction False y (fl64 (scale * 10)) s))"

definition unitMap :: "(string \<times> int) list" where
  "unitMap = [(''ns'', nanosecond), (''us'', microsecond), ([CHR 0xC2, CHR 0xB5, CHR ''s''], microsecond),
     ([CHR 0xCE, CHR 0xBC, CHR ''s''], microsecond), (''ms'', millisecond), (''s'', second),
     (''m'', minute), (''h'', hour)]"

definition is_unit_char :: "char \<Rightarrow> bool" where
  "is_unit_char c \<longleftrightarrow> c \<noteq> CHR ''.'' \<and> \<not> is_digit c"

text \<open>One element: a number and its unit; the nanoseconds and what is left of the text.\<close>

definition duration_element :: "string \<Rightarrow> (int \<times> string) option" where
  "duration_element s =
     (case leadingInt 0 s of
        None \<Rightarrow> None
      | Some (v, s1) \<Rightarrow>
          (let pre = length s1 \<noteq> length s;
               (f, scale, s2) = (case s1 of
                  c # cs \<Rightarrow> if c = CHR ''.'' then leadingFraction False 0 1 cs else (0, 1, s1)
                | [] \<Rightarrow> (0, 1, s1));
               post = (case s1 of c # cs \<Rightarrow> c = CHR ''.'' \<and> length s2 \<noteq> length cs | [] \<Rightarrow> False);
               u = takeWhile is_unit_char s2
           in if \<not> pre \<and> \<not> post \<or> u = [] then None
              else (case gm_get unitMap u of
                      None \<Rightarrow> None
                    | Some unit \<Rightarrow>
                        if v > 2 ^ 63 div unit then None
                        else (let v = v * unit;
                                  v = (if f > 0
                                       then v + go_trunc (fl64 (fl64 (of_int f) * fl64 (of_int unit / scale)))
                                       else v)
                              in if v > 2 ^ 63 then None else Some (v, drop (length u) s2)))))"

lemma leadingInt_rest: "leadingInt x s = Some (v, t) \<Longrightarrow> length t \<le> length s"
  by (induction x s rule: leadingInt.induct) (auto simp: Let_def split: if_splits)

lemma leadingFraction_rest: "leadingFraction b x sc s = (f, sc', t) \<Longrightarrow> length t \<le> length s"
  by (induction b x sc s rule: leadingFraction.induct) (auto simp: Let_def split: if_splits)

lemma duration_element_rest:
  assumes "duration_element s = Some (v, t)"
  shows "length t < length s"
proof -
  from assms obtain w s1 where li: "leadingInt 0 s = Some (w, s1)"
    by (auto simp: duration_element_def split: option.splits)
  obtain f scale s2 where fr: "(case s1 of
      c # cs \<Rightarrow> if c = CHR ''.'' then leadingFraction False 0 1 cs else (0, 1, s1) | [] \<Rightarrow> (0, 1, s1)) = (f, scale, s2)"
    by (metis prod_cases3)
  have "length s1 \<le> length s" by (rule leadingInt_rest [OF li])
  moreover have "length s2 \<le> length s1"
    using fr leadingFraction_rest by (cases s1) (auto split: if_splits, fastforce)
  moreover have "takeWhile is_unit_char s2 \<noteq> [] \<and> t = drop (length (takeWhile is_unit_char s2)) s2"
    using assms li fr by (auto simp: duration_element_def Let_def split: if_splits option.splits)
  ultimately show ?thesis by (cases s2) auto
qed

function duration_loop :: "int \<Rightarrow> string \<Rightarrow> int option" where
  "duration_loop d s =
     (if s = [] then Some d
      else (case duration_element s of
              None \<Rightarrow> None
            | Some (v, t) \<Rightarrow> if d + v > 2 ^ 63 then None else duration_loop (d + v) t))"
  by auto
termination by (relation "measure (length \<circ> snd)") (auto dest: duration_element_rest)

declare duration_loop.simps [simp del]

definition ParseDuration :: "string \<Rightarrow> duration option" where
  "ParseDuration s0 =
     (let neg = (case s0 of c # _ \<Rightarrow> c = CHR ''-'' | [] \<Rightarrow> False);
          s = (case s0 of c # cs \<Rightarrow> if c = CHR ''-'' \<or> c = CHR ''+'' then cs else s0 | [] \<Rightarrow> [])
      in if s = ''0'' then Some 0
         else if s = [] then None
         else (case duration_loop 0 s of
                 None \<Rightarrow> None
               | Some d \<Rightarrow> if neg then Some (- d) else if d > 2 ^ 63 - 1 then None else Some d))"

end
