(* ===== verification/Failover_Sync.thy ===== *)
theory Failover_Sync
  imports Failover_Store Go_Text
begin

text \<open>
  The maintenance of failover groups: the discovery sync that rebuilds the auto groups
  (\<open>internal/failover/sync.go\<close>) and the prune and revalidation of all groups
  (\<open>internal/failover/revalidate.go\<close>), over the world of the repository. Log lines are left out.
  Case mapping is that of ASCII. The order in which \<open>SyncAllModels\<close> ranges over its map of bases
  is an argument.
\<close>

subsection \<open>The fleet echo\<close>

definition FleetAutoGroupsEchoKey :: string where
  "FleetAutoGroupsEchoKey = ''_fleet_auto_failover_groups''"

definition ClearFleetAutoEcho :: "world \<Rightarrow> world" where
  "ClearFleetAutoEcho w =
     (case next_fault w of
        (Some e, w) \<Rightarrow> w\<lparr>w_echoClearPending := True\<rparr>
      | (None, w) \<Rightarrow>
          w\<lparr>w_settings := gm_del FleetAutoGroupsEchoKey (w_settings w), w_echoClearPending := False\<rparr>)"

text \<open>The bases the echo carries, and whether they are known.\<close>

definition echoedBases :: "world \<Rightarrow> (string list \<times> bool) \<times> world" where
  "echoedBases w =
     (case next_fault w of
        (Some e, w) \<Rightarrow> (([], False), w)
      | (None, w) \<Rightarrow>
          ((case gm_get (w_settings w) FleetAutoGroupsEchoKey of
              None \<Rightarrow> ([], True)
            | Some (SText raw) \<Rightarrow> ([], True)
            | Some (SGroups sent) \<Rightarrow> (sent, True)), w))"

definition clearFleetAutoEchoIfStaled :: "string list \<Rightarrow> world \<Rightarrow> world" where
  "clearFleetAutoEchoIfStaled changed w =
     (if w_echoClearPending w then ClearFleetAutoEcho w
      else if changed = [] then w
      else (case echoedBases w of
              ((echoed, known), w) \<Rightarrow>
                if \<not> known then ClearFleetAutoEcho w
                else if list_ex (\<lambda>base. base \<in> set echoed) changed then ClearFleetAutoEcho w
                else w))"

definition MarkFleetAutoEchoWritten :: "world \<Rightarrow> world" where
  "MarkFleetAutoEchoWritten w = w\<lparr>w_echoClearPending := False\<rparr>"

subsection \<open>Results\<close>

record DeletedGroupInfo =
  dg_DisplayModel :: string
  dg_Reason :: string
  dg_ProviderCount :: nat
  dg_ProviderNames :: "string list"

record PrunedEntryInfo =
  pe_GroupDisplayModel :: string
  pe_PrunedModelIDs :: "string list"

record UpdatedGroupInfo =
  ug_DisplayModel :: string
  ug_RemovedModelIDs :: "string list"
  ug_AddedModelIDs :: "string list"

record DisabledGroupInfo =
  dis_DisplayModel :: string
  dis_EffectiveCount :: nat
  dis_Reason :: string

record SyncResult =
  DeletedGroups :: "DeletedGroupInfo list"
  UpdatedGroups :: "UpdatedGroupInfo list"
  PurgedEntries :: "PrunedEntryInfo list"
  DisabledGroups :: "DisabledGroupInfo list"
  SyncErrors :: "string list"

definition new_result :: SyncResult where
  "new_result = \<lparr>DeletedGroups = [], UpdatedGroups = [], PurgedEntries = [], DisabledGroups = [], SyncErrors = []\<rparr>"

definition err_text :: "db_error \<Rightarrow> string" where
  "err_text e = (case e of ErrNoRows \<Rightarrow> ''no rows in result set'' | DbError s \<Rightarrow> s | ScanError s \<Rightarrow> s)"

subsection \<open>Membership\<close>

text \<open>The two loops of the merge: existing entries that are still current, once each, and then the
  current entries the first loop did not see.\<close>

fun merge_kept :: "uuid list \<Rightarrow> uuid set \<Rightarrow> uuid set \<Rightarrow> uuid list \<Rightarrow> uuid list \<times> uuid set" where
  "merge_kept [] currentSet seen merged = (merged, seen)"
| "merge_kept (i # ids) currentSet seen merged =
     (if i \<in> currentSet \<and> i \<notin> seen then merge_kept ids currentSet (insert i seen) (merged @ [i])
      else merge_kept ids currentSet seen merged)"

definition mergePriorityOrder :: "uuid list \<Rightarrow> uuid list \<Rightarrow> uuid list" where
  "mergePriorityOrder existingOrder currentIDs =
     (let (merged, seen) = merge_kept existingOrder (set currentIDs) {} []
      in merged @ filter (\<lambda>i. i \<notin> seen) currentIDs)"

fun LastIndex :: "string \<Rightarrow> char \<Rightarrow> nat option" where
  "LastIndex [] c = None"
| "LastIndex (x # xs) c =
     (case LastIndex xs c of Some i \<Rightarrow> Some (Suc i) | None \<Rightarrow> if x = c then Some 0 else None)"

definition normalizeBaseModel :: "string \<Rightarrow> string" where
  "normalizeBaseModel modelID =
     (case LastIndex modelID CHR ''/'' of
        Some idx \<Rightarrow> ToLower (drop (idx + 1) modelID)
      | None \<Rightarrow> ToLower modelID)"

text \<open>The difference between a group's stored members and the current ones.\<close>

definition diffGroupMembership :: "FailoverGroup option \<Rightarrow> uuid list \<Rightarrow> string list \<times> string list" where
  "diffGroupMembership existing currentIDs =
     (case existing of
        None \<Rightarrow> ([], currentIDs)
      | Some g \<Rightarrow>
          (filter (\<lambda>i. i \<notin> set currentIDs) (fg_PriorityOrder g),
           filter (\<lambda>i. i \<notin> set (fg_PriorityOrder g)) currentIDs))"

subsection \<open>Auto groups\<close>

definition deleteAutoGroup :: "string \<Rightarrow> world \<Rightarrow> (db_error + bool) \<times> world" where
  "deleteAutoGroup displayModel w =
     (case next_fault w of
        (Some e, w) \<Rightarrow> (Inl (DbError e), w)
      | (None, w) \<Rightarrow>
          (let gone = (\<lambda>r. gr_display_model r = displayModel \<and> is_true (gr_auto_created r))
           in if \<not> list_ex gone (w_groups w) then (Inr False, w)
              else (Inr True, w_Invalidate (w\<lparr>w_groups := filter (\<lambda>r. \<not> gone r) (w_groups w)\<rparr>))))"

definition deleteUndersizedAutoGroup ::
    "string \<Rightarrow> nat \<Rightarrow> string list \<Rightarrow> SyncResult \<Rightarrow> world \<Rightarrow> SyncResult \<times> world" where
  "deleteUndersizedAutoGroup base providerCount providerNames result w =
     (case deleteAutoGroup base w of
        (Inl e, w) \<Rightarrow>
          (result\<lparr>SyncErrors := SyncErrors result @ [base @ '': delete auto-group: '' @ err_text e]\<rparr>, w)
      | (Inr False, w) \<Rightarrow> (result, w)
      | (Inr True, w) \<Rightarrow>
          (result\<lparr>DeletedGroups := DeletedGroups result @
             [\<lparr>dg_DisplayModel = base,
               dg_Reason = (if providerCount = 1 then ''only 1 enabled provider (need 2+ for failover)''
                            else ''no enabled providers found''),
               dg_ProviderCount = providerCount, dg_ProviderNames = providerNames\<rparr>]\<rparr>, w))"

record auto_upsert =
  au_existing :: "FailoverGroup option"
  au_order :: "uuid list"
  au_custom :: bool

text \<open>The toggles written: on for every member, then the stored value of the members still present.\<close>

definition keep_toggles :: "bool gomap \<Rightarrow> bool gomap \<Rightarrow> bool gomap" where
  "keep_toggles stored entryEnabled =
     fold (\<lambda>(k, v) m. if gm_get m k \<noteq> None then gm_put k v m else m) stored entryEnabled"

text \<open>The write half of \<open>upsertAutoGroup\<close>, after the read settled that no custom group is known to
  hold the name.\<close>

definition write_auto_group ::
    "FailoverGroup option \<Rightarrow> string \<Rightarrow> uuid list \<Rightarrow> world \<Rightarrow> (db_error + auto_upsert) \<times> world" where
  "write_auto_group existing base currentIDs w =
     (let entryEnabled = fold (\<lambda>i m. gm_put i True m) currentIDs [];
          entryEnabled = (case existing of
              None \<Rightarrow> entryEnabled | Some g \<Rightarrow> keep_toggles (fg_EntryEnabled g) entryEnabled);
          priorityOrder = (case existing of
              None \<Rightarrow> currentIDs | Some g \<Rightarrow> mergePriorityOrder (fg_PriorityOrder g) currentIDs);
          syncDisplayName = (case existing of None \<Rightarrow> None | Some g \<Rightarrow> fg_DisplayName g);
          syncDescription = (case existing of
              None \<Rightarrow> None
            | Some g \<Rightarrow> if fg_Description g \<noteq> '''' then Some (fg_Description g) else None)
      in case UpsertWithConfig base (Some priorityOrder) (Some entryEnabled) (Some True)
                syncDisplayName syncDescription (Some True) w of
           (Inr _, w) \<Rightarrow>
             (Inr \<lparr>au_existing = existing, au_order = priorityOrder, au_custom = False\<rparr>, w)
         | (Inl ErrNoRows, w) \<Rightarrow>
             (Inr \<lparr>au_existing = existing,
                au_order = (case existing of None \<Rightarrow> [] | Some g \<Rightarrow> fg_PriorityOrder g),
                au_custom = True\<rparr>, w_InvalidateKey base w)
         | (Inl e, w) \<Rightarrow> (Inl e, w))"

definition upsertAutoGroup :: "string \<Rightarrow> uuid list \<Rightarrow> world \<Rightarrow> (db_error + auto_upsert) \<times> world" where
  "upsertAutoGroup base currentIDs w =
     (case GetByModel base w of
        (Inl e, w) \<Rightarrow>
          if e \<noteq> ErrNoRows then (Inl (DbError (''lookup existing group: '' @ err_text e)), w)
          else write_auto_group None base currentIDs w
      | (Inr g, w) \<Rightarrow>
          if \<not> fg_AutoCreated g
          then (Inr \<lparr>au_existing = Some g, au_order = fg_PriorityOrder g, au_custom = True\<rparr>, w)
          else write_auto_group (Some g) base currentIDs w)"

subsection \<open>Prune\<close>

definition without_ids :: "string list \<Rightarrow> bool gomap \<Rightarrow> bool gomap" where
  "without_ids ids m = filter (\<lambda>(k, _). k \<notin> set ids) m"

text \<open>The \<open>UPDATE\<close> of the prune on one row.\<close>

definition prune_row :: "string list \<Rightarrow> instant \<Rightarrow> group_row \<Rightarrow> group_row" where
  "prune_row prunedIDs now r =
     r\<lparr>gr_priority_order := (case gr_priority_order r of
          OArr ids \<Rightarrow> OArr (filter (\<lambda>i. i \<notin> set prunedIDs) ids) | _ \<Rightarrow> OArr []),
       gr_entry_enabled := (case gr_entry_enabled r of
          TObj m \<Rightarrow> TObj (without_ids prunedIDs m) | _ \<Rightarrow> TObj []),
       gr_updated_at := Some now\<rparr>"

definition order_length :: "order_json \<Rightarrow> nat" where
  "order_length j = (case j of OArr ids \<Rightarrow> length ids | _ \<Rightarrow> 0)"

definition pruneMembership :: "uuid \<Rightarrow> string \<Rightarrow> string list \<Rightarrow> world \<Rightarrow> (db_error + nat) \<times> world" where
  "pruneMembership i displayModel prunedIDs w =
     (case next_fault w of
        (Some e, w) \<Rightarrow> (Inl (DbError e), w)
      | (None, w) \<Rightarrow>
          (case find (\<lambda>r. gr_id r = i) (w_groups w) of
             None \<Rightarrow> (Inl ErrNoRows, w)
           | Some r \<Rightarrow>
               (let r' = prune_row prunedIDs (w_clock w) r
                in (Inr (order_length (gr_priority_order r')),
                    w_InvalidateKey displayModel
                      (w\<lparr>w_groups := map (\<lambda>q. if gr_id q = i then r' else q) (w_groups w)\<rparr>)))))"

definition unviable :: "order_json \<Rightarrow> bool" where
  "unviable j = (case j of OSqlNull \<Rightarrow> False | OArr ids \<Rightarrow> length ids \<le> 1 | _ \<Rightarrow> True)"

definition deleteIfUnviable :: "uuid \<Rightarrow> world \<Rightarrow> (db_error + bool) \<times> world" where
  "deleteIfUnviable i w =
     (case next_fault w of
        (Some e, w) \<Rightarrow> (Inl (DbError e), w_Invalidate w)
      | (None, w) \<Rightarrow>
          (let gone = (\<lambda>r. gr_id r = i \<and> unviable (gr_priority_order r))
           in (Inr (length (filter gone (w_groups w)) = 1),
               w_Invalidate (w\<lparr>w_groups := filter (\<lambda>r. \<not> gone r) (w_groups w)\<rparr>))))"

definition prune_group :: "uuid set \<Rightarrow> FailoverGroup \<Rightarrow> SyncResult \<times> world \<Rightarrow> SyncResult \<times> world" where
  "prune_group existingIDs g rw =
     (case rw of
        (result, w) \<Rightarrow>
          (let prunedIDs = filter (\<lambda>i. i \<notin> existingIDs) (fg_PriorityOrder g)
           in if prunedIDs = [] then (result, w)
              else (case pruneMembership (fg_ID g) (fg_DisplayModel g) prunedIDs w of
                      (Inl e, w) \<Rightarrow> (result, w)
                    | (Inr remaining, w) \<Rightarrow>
                        (let result = result\<lparr>PurgedEntries := PurgedEntries result @
                               [\<lparr>pe_GroupDisplayModel = fg_DisplayModel g, pe_PrunedModelIDs = prunedIDs\<rparr>]\<rparr>
                         in if remaining > 1 then (result, w)
                            else (case deleteIfUnviable (fg_ID g) w of
                                    (Inl e, w) \<Rightarrow> (result, w)
                                  | (Inr False, w) \<Rightarrow> (result, w)
                                  | (Inr True, w) \<Rightarrow>
                                      (result\<lparr>DeletedGroups := DeletedGroups result @
                                         [\<lparr>dg_DisplayModel = fg_DisplayModel g,
                                           dg_Reason = (if remaining = 1
                                             then ''only 1 valid provider after prune (need 2+ for failover)''
                                             else ''no valid providers after prune''),
                                           dg_ProviderCount = remaining, dg_ProviderNames = []\<rparr>]\<rparr>, w))))))"

definition pruneStaleEntries :: "FailoverGroup list \<Rightarrow> SyncResult \<Rightarrow> world \<Rightarrow> SyncResult \<times> world" where
  "pruneStaleEntries groups result w =
     (let allUUIDs = concat (map fg_PriorityOrder groups)
      in if allUUIDs = [] then (result, w)
         else (case next_fault w of
                 (Some e, w) \<Rightarrow> (result, w)
               | (None, w) \<Rightarrow>
                   (let existingIDs = set (filter (\<lambda>i. i \<in> set allUUIDs) (map mr_id (w_models w)))
                    in fold (prune_group existingIDs) groups (result, w))))"

subsection \<open>Revalidation of custom groups\<close>

definition routable_ids :: "world \<Rightarrow> uuid list" where
  "routable_ids w = [mr_id m. m \<leftarrow> w_models w, p \<leftarrow> w_providers w,
     mr_provider_id m = pr_id p \<and> is_true (mr_enabled m) \<and> is_true (pr_enabled p)]"

definition routableMemberIDs :: "uuid list \<Rightarrow> world \<Rightarrow> (db_error + uuid list) \<times> world" where
  "routableMemberIDs ids w =
     (if ids = [] then (Inr [], w)
      else (case next_fault w of
              (Some e, w) \<Rightarrow> (Inl (DbError e), w)
            | (None, w) \<Rightarrow> (Inr (filter (\<lambda>i. i \<in> set ids) (routable_ids w)), w)))"

definition disable_row :: "instant \<Rightarrow> group_row \<Rightarrow> group_row" where
  "disable_row now r =
     r\<lparr>gr_group_enabled := Some False, gr_auto_disabled_at := Some now, gr_updated_at := Some now\<rparr>"

definition revalidate_group ::
    "uuid set \<Rightarrow> FailoverGroup \<Rightarrow> SyncResult \<times> world \<Rightarrow> FailoverGroup \<times> SyncResult \<times> world" where
  "revalidate_group routable g rw =
     (case rw of
        (result, w) \<Rightarrow>
          (let count = length (filter (\<lambda>i. i \<in> routable) (fg_PriorityOrder g))
           in if count \<ge> 2 then (g, result, w)
              else (case next_fault w of
                      (Some e, w) \<Rightarrow> (g, result, w)
                    | (None, w) \<Rightarrow>
                        (g\<lparr>fg_GroupEnabled := False\<rparr>,
                         result\<lparr>DisabledGroups := DisabledGroups result @
                           [\<lparr>dis_DisplayModel = fg_DisplayModel g, dis_EffectiveCount = count,
                             dis_Reason = ''fewer than 2 routable members (need 2+ for failover)''\<rparr>]\<rparr>,
                         w_InvalidateKey (fg_DisplayModel g)
                           (w\<lparr>w_groups := map (\<lambda>q. if gr_id q = fg_ID g then disable_row (w_clock w) q else q)
                                (w_groups w)\<rparr>)))))"

text \<open>The walk over the candidates; the groups come back with the flags it flipped in place.\<close>

fun revalidate_walk ::
    "uuid set \<Rightarrow> FailoverGroup list \<Rightarrow> SyncResult \<times> world \<Rightarrow> FailoverGroup list \<times> SyncResult \<times> world" where
  "revalidate_walk routable [] (result, w) = ([], result, w)"
| "revalidate_walk routable (g # gs) (result, w) =
     (if fg_AutoCreated g \<or> \<not> fg_GroupEnabled g
      then (case revalidate_walk routable gs (result, w) of (gs', rw) \<Rightarrow> (g # gs', rw))
      else (case revalidate_group routable g (result, w) of
              (g', rw) \<Rightarrow> (case revalidate_walk routable gs rw of (gs', rw') \<Rightarrow> (g' # gs', rw'))))"

definition revalidateCustomGroups ::
    "FailoverGroup list \<Rightarrow> SyncResult \<Rightarrow> world \<Rightarrow> FailoverGroup list \<times> SyncResult \<times> world" where
  "revalidateCustomGroups groups result w =
     (let candidates = filter (\<lambda>g. \<not> (fg_AutoCreated g \<or> \<not> fg_GroupEnabled g)) groups
      in if candidates = [] then (groups, result, w)
         else (case routableMemberIDs (concat (map fg_PriorityOrder candidates)) w of
                 (Inl e, w) \<Rightarrow> (groups, result, w)
               | (Inr routable, w) \<Rightarrow> revalidate_walk (set routable) groups (result, w)))"

definition RevalidateCustomGroups :: "world \<Rightarrow> (db_error + SyncResult) \<times> world" where
  "RevalidateCustomGroups w =
     (case ListGroups w of
        (Inl e, w) \<Rightarrow> (Inl e, w)
      | (Inr groups, w) \<Rightarrow>
          (case revalidateCustomGroups groups new_result w of (_, result, w) \<Rightarrow> (Inr result, w)))"

definition RevalidateCustomGroupsIn ::
    "FailoverGroup list \<Rightarrow> world \<Rightarrow> FailoverGroup list \<times> SyncResult \<times> world" where
  "RevalidateCustomGroupsIn groups w = revalidateCustomGroups groups new_result w"

subsection \<open>The syncs\<close>

record modelInfo =
  mi_uuid :: uuid
  mi_modelID :: string
  mi_providerID :: uuid
  mi_providerName :: string

definition enabled_rows :: "world \<Rightarrow> (model_row \<times> provider_row) list" where
  "enabled_rows w = [(m, p). m \<leftarrow> w_models w, p \<leftarrow> w_providers w,
     mr_provider_id m = pr_id p \<and> is_true (mr_enabled m) \<and> is_true (pr_enabled p)]"

definition sync_rows :: "world \<Rightarrow> modelInfo list" where
  "sync_rows w = map (\<lambda>(m, p). \<lparr>mi_uuid = mr_id m, mi_modelID = mr_model_id m,
       mi_providerID = mr_provider_id m, mi_providerName = pr_name p\<rparr>)
     (sort_key (\<lambda>(m, p). mr_model_id m) (sort_key (\<lambda>(m, p). pr_created_at p) (enabled_rows w)))"

definition baseToModels :: "modelInfo list \<Rightarrow> modelInfo list gomap" where
  "baseToModels rows =
     fold (\<lambda>m t. gm_put (normalizeBaseModel (mi_modelID m))
                   ((case gm_get t (normalizeBaseModel (mi_modelID m)) of None \<Rightarrow> [] | Some ms \<Rightarrow> ms) @ [m]) t)
       rows []"

record sync_state =
  ss_world :: world
  ss_result :: SyncResult
  ss_syncedBases :: "string list"
  ss_changed :: "string list"

definition sync_base :: "string \<times> modelInfo list \<Rightarrow> sync_state \<Rightarrow> sync_state" where
  "sync_base bm s =
     (case bm of
        (base, models) \<Rightarrow>
          if length models \<le> 1
          then (case deleteUndersizedAutoGroup base (length models) (map mi_providerName models)
                       (ss_result s) (ss_world s) of
                  (result, w) \<Rightarrow> s\<lparr>ss_result := result, ss_world := w\<rparr>)
          else
            (let s = s\<lparr>ss_syncedBases := base # ss_syncedBases s\<rparr>
             in case upsertAutoGroup base (map mi_uuid models) (ss_world s) of
                  (Inl e, w) \<Rightarrow>
                    s\<lparr>ss_world := w, ss_result := (ss_result s)\<lparr>SyncErrors :=
                        SyncErrors (ss_result s) @ [base @ '': '' @ err_text e]\<rparr>\<rparr>
                | (Inr u, w) \<Rightarrow>
                    if au_custom u then s\<lparr>ss_world := w\<rparr>
                    else if (case au_existing u of
                               None \<Rightarrow> True
                             | Some g \<Rightarrow> \<not> fg_GroupEnabled g \<or> fg_PriorityOrder g \<noteq> au_order u)
                    then s\<lparr>ss_world := w, ss_changed := base # ss_changed s\<rparr>
                    else s\<lparr>ss_world := w\<rparr>))"

definition drop_orphan :: "string list \<Rightarrow> FailoverGroup \<Rightarrow> SyncResult \<times> world \<Rightarrow> SyncResult \<times> world" where
  "drop_orphan syncedBases g rw =
     (case rw of
        (result, w) \<Rightarrow>
          if fg_AutoCreated g \<and> fg_DisplayModel g \<notin> set syncedBases
          then (case deleteAutoGroup (fg_DisplayModel g) w of
                  (Inl e, w) \<Rightarrow>
                    (result\<lparr>SyncErrors := SyncErrors result @
                       [fg_DisplayModel g @ '': delete auto-group: '' @ err_text e]\<rparr>, w)
                | (Inr False, w) \<Rightarrow> (result, w)
                | (Inr True, w) \<Rightarrow>
                    (result\<lparr>DeletedGroups := DeletedGroups result @
                       [\<lparr>dg_DisplayModel = fg_DisplayModel g, dg_Reason = ''no enabled providers found'',
                         dg_ProviderCount = 0, dg_ProviderNames = []\<rparr>]\<rparr>, w))
          else (result, w))"

definition SyncAllModels ::
    "((string \<times> modelInfo list) list \<Rightarrow> (string \<times> modelInfo list) list) \<Rightarrow> world \<Rightarrow>
     (db_error + SyncResult) \<times> world" where
  "SyncAllModels visit w =
     (case next_fault w of
        (Some e, w) \<Rightarrow> (Inl (DbError e), w)
      | (None, w) \<Rightarrow>
          (let s = fold sync_base (visit (baseToModels (sync_rows w)))
                     \<lparr>ss_world = w, ss_result = new_result, ss_syncedBases = [], ss_changed = []\<rparr>
           in case ListGroups (ss_world s) of
                (Inl e, w) \<Rightarrow> (Inl (DbError (''list failover groups: '' @ err_text e)), w)
              | (Inr allGroups, w) \<Rightarrow>
                  (let (result, w) = fold (drop_orphan (ss_syncedBases s)) allGroups (ss_result s, w);
                       gone = map dg_DisplayModel (DeletedGroups result);
                       (result, w) = pruneStaleEntries
                         (filter (\<lambda>g. fg_DisplayModel g \<notin> set gone) allGroups) result w;
                       (result, w) = (case ListGroups w of
                          (Inl e, w) \<Rightarrow> (result, w)
                        | (Inr afterPrune, w) \<Rightarrow>
                            (case revalidateCustomGroups afterPrune result w of (_, result, w) \<Rightarrow> (result, w)))
                   in (Inr result, clearFleetAutoEchoIfStaled
                         (ss_changed s @ map dg_DisplayModel (DeletedGroups result)) w))))"

text \<open>\<open>LOWER(SUBSTRING(model_id FROM '[^/]+$'))\<close>: NULL when nothing follows the last slash.\<close>

definition sql_leaf :: "string \<Rightarrow> string option" where
  "sql_leaf modelID =
     (let leaf = rev (takeWhile (\<lambda>c. c \<noteq> CHR ''/'') (rev modelID))
      in if leaf = [] then None else Some (ToLower leaf))"

definition member_rows :: "string \<Rightarrow> world \<Rightarrow> uuid list" where
  "member_rows base w = map (\<lambda>(m, p). mr_id m)
     (sort_key (\<lambda>(m, p). pr_created_at p)
       (filter (\<lambda>(m, p). sql_leaf (mr_model_id m) = Some base) (enabled_rows w)))"

definition SyncForModel :: "string \<Rightarrow> world \<Rightarrow> (db_error + SyncResult) \<times> world" where
  "SyncForModel modelID w =
     (let base = normalizeBaseModel modelID; result = new_result
      in case next_fault w of
           (Some e, w) \<Rightarrow> (Inl (DbError e), w)
         | (None, w) \<Rightarrow>
             (let currentIDs = member_rows base w
              in if length currentIDs \<le> 1
                 then (case deleteUndersizedAutoGroup base (length currentIDs) [] result w of
                         (result, w) \<Rightarrow>
                           (Inr result, clearFleetAutoEchoIfStaled
                              (if DeletedGroups result \<noteq> [] then [base] else []) w))
                 else (case upsertAutoGroup base currentIDs w of
                         (Inl e, w) \<Rightarrow> (Inl e, w)
                       | (Inr u, w) \<Rightarrow>
                           if au_custom u then (Inr result, clearFleetAutoEchoIfStaled [] w)
                           else
                             (let (removed, added) = diffGroupMembership (au_existing u) currentIDs;
                                  result = (if removed \<noteq> [] \<or> added \<noteq> []
                                    then result\<lparr>UpdatedGroups := UpdatedGroups result @
                                      [\<lparr>ug_DisplayModel = base, ug_RemovedModelIDs = removed, ug_AddedModelIDs = added\<rparr>]\<rparr>
                                    else result);
                                  changed = (if UpdatedGroups result \<noteq> [] \<or>
                                      (case au_existing u of None \<Rightarrow> False | Some g \<Rightarrow> \<not> fg_GroupEnabled g)
                                    then [base] else [])
                              in (Inr result, clearFleetAutoEchoIfStaled changed w)))))"

definition PruneModelUUID :: "uuid \<Rightarrow> world \<Rightarrow> db_error option \<times> world" where
  "PruneModelUUID modelUUID w =
     (case query_groups (\<lambda>r. case gr_priority_order r of OArr ids \<Rightarrow> modelUUID \<in> set ids | _ \<Rightarrow> False) w of
        (Inl e, w) \<Rightarrow> (Some e, w)
      | (Inr groups, w) \<Rightarrow>
          if groups = [] then (None, w)
          else (case pruneStaleEntries groups new_result w of (_, w) \<Rightarrow> (None, w)))"

end
