(* ===== verification/Failover_Membership.thy ===== *)
theory Failover_Membership
  imports Failover_Sync
begin

text \<open>
  What the pure parts of the sync compute: the merge of priority orders, the membership report,
  the base name of a model (and its agreement with the SQL the sync filters by), and the toggles
  carried over.
\<close>

subsection \<open>The merge\<close>

lemma merge_kept_spec:
  assumes "merge_kept ids C (set merged) merged = (m', s')" "distinct merged"
  shows "s' = set m' \<and> distinct m' \<and> set m' = set merged \<union> (set ids \<inter> C) \<and>
    (distinct ids \<longrightarrow> m' = merged @ filter (\<lambda>i. i \<in> C \<and> i \<notin> set merged) ids)"
  using assms
proof (induction ids arbitrary: merged)
  case (Cons i ids)
  show ?case
  proof (cases "i \<in> C \<and> i \<notin> set merged")
    case True
    then have "merge_kept ids C (set (merged @ [i])) (merged @ [i]) = (m', s')"
      using Cons.prems(1) by simp
    from Cons.IH [OF this] Cons.prems(2) True
    have IH: "s' = set m' \<and> distinct m' \<and> set m' = set (merged @ [i]) \<union> (set ids \<inter> C) \<and>
      (distinct ids \<longrightarrow> m' = (merged @ [i]) @ filter (\<lambda>j. j \<in> C \<and> j \<notin> set (merged @ [i])) ids)"
      by auto
    moreover have "distinct (i # ids) \<Longrightarrow>
        filter (\<lambda>j. j \<in> C \<and> j \<notin> set (merged @ [i])) ids = filter (\<lambda>j. j \<in> C \<and> j \<notin> set merged) ids"
      by (intro filter_cong) auto
    ultimately show ?thesis using True by auto
  next
    case False
    then have "merge_kept ids C (set merged) merged = (m', s')" using Cons.prems(1) by auto
    from Cons.IH [OF this Cons.prems(2)] False show ?thesis by auto
  qed
qed auto

lemma mergePriorityOrder_spec:
  shows merge_set: "set (mergePriorityOrder old cur) = set cur"
    and merge_distinct: "distinct cur \<Longrightarrow> distinct (mergePriorityOrder old cur)"
    and merge_of_distinct: "distinct old \<Longrightarrow>
      mergePriorityOrder old cur = filter (\<lambda>i. i \<in> set cur) old @ filter (\<lambda>i. i \<notin> set old) cur"
proof -
  obtain m' s' where run: "merge_kept old (set cur) {} [] = (m', s')" by fastforce
  from merge_kept_spec [of old "set cur" "[]" m' s'] run
  have spec: "s' = set m'" "distinct m'" "set m' = set old \<inter> set cur"
    "distinct old \<longrightarrow> m' = filter (\<lambda>i. i \<in> set cur) old" by auto
  have merge: "mergePriorityOrder old cur = m' @ filter (\<lambda>i. i \<notin> s') cur"
    by (simp add: mergePriorityOrder_def run)
  show "set (mergePriorityOrder old cur) = set cur" using spec by (auto simp: merge)
  show "distinct cur \<Longrightarrow> distinct (mergePriorityOrder old cur)" using spec by (auto simp: merge)
  have "filter (\<lambda>i. i \<notin> s') cur = filter (\<lambda>i. i \<notin> set old) cur"
    using spec by (intro filter_cong) auto
  then show "distinct old \<Longrightarrow>
      mergePriorityOrder old cur = filter (\<lambda>i. i \<in> set cur) old @ filter (\<lambda>i. i \<notin> set old) cur"
    using spec by (simp add: merge)
qed

lemma merge_unchanged:
  assumes "distinct old" "set old = set cur"
  shows "mergePriorityOrder old cur = old"
proof -
  have "filter (\<lambda>i. i \<in> set cur) old = old" "filter (\<lambda>i. i \<notin> set old) cur = []"
    using assms(2) by (auto simp: filter_empty_conv)
  then show ?thesis using merge_of_distinct [OF assms(1), of cur] by simp
qed

lemma merge_idem:
  assumes "distinct cur"
  shows "mergePriorityOrder (mergePriorityOrder old cur) cur = mergePriorityOrder old cur"
  by (rule merge_unchanged) (simp_all add: merge_distinct [OF assms] merge_set)

subsection \<open>Base names\<close>

lemma lower_char_neq_slash: "lower_char c = CHR ''/'' \<longleftrightarrow> c = CHR ''/''"
proof (cases "65 \<le> (of_char c :: nat) \<and> (of_char c :: nat) \<le> 90")
  case True
  then have "of_char (lower_char c) = (of_char c + 32 :: nat)"
    by (simp add: lower_char_def)
  moreover have "of_char (CHR ''/'') = (47 :: nat)" by simp
  ultimately have "lower_char c \<noteq> CHR ''/''" "c \<noteq> CHR ''/''" using True by auto
  then show ?thesis by simp
next
  case False
  then show ?thesis by (simp only: lower_char_def if_False)
qed

lemma lower_char_idem [simp]: "lower_char (lower_char c) = lower_char c"
  by (auto simp: lower_char_def)

lemma ToLower_idem: "ToLower (ToLower s) = ToLower s"
  by (simp add: ToLower_def)

lemma LastIndex_None: "LastIndex s c = None \<longleftrightarrow> c \<notin> set s"
  by (induction s) (auto split: option.splits)

lemma LastIndex_Some: "LastIndex s c = Some i \<Longrightarrow> i < length s \<and> s ! i = c \<and> c \<notin> set (drop (Suc i) s)"
  by (induction s arbitrary: i) (auto split: option.splits if_splits simp: LastIndex_None)

lemma leaf_takeWhile:
  assumes "c \<notin> set ys"
  shows "rev (takeWhile (\<lambda>x. x \<noteq> c) (rev (xs @ c # ys))) = ys"
proof -
  have "takeWhile (\<lambda>x. x \<noteq> c) (rev ys @ c # rev xs) = rev ys"
    using assms by (subst takeWhile_append2) auto
  then show ?thesis by simp
qed

lemma normalizeBaseModel_leaf:
  "normalizeBaseModel m = ToLower (rev (takeWhile (\<lambda>c. c \<noteq> CHR ''/'') (rev m)))"
proof (cases "LastIndex m CHR ''/''")
  case None
  then have "\<forall>c \<in> set (rev m). c \<noteq> CHR ''/''" by (auto simp: LastIndex_None)
  then have "takeWhile (\<lambda>c. c \<noteq> CHR ''/'') (rev m) = rev m"
    by (simp only: takeWhile_eq_all_conv)
  with None show ?thesis by (simp only: normalizeBaseModel_def rev_rev_ident option.case)
next
  case (Some i)
  note i = LastIndex_Some [OF Some]
  then have "m = take i m @ CHR ''/'' # drop (Suc i) m" by (metis id_take_nth_drop)
  with i have "rev (takeWhile (\<lambda>c. c \<noteq> CHR ''/'') (rev m)) = drop (Suc i) m"
    using leaf_takeWhile [of "CHR ''/''" "drop (Suc i) m" "take i m"] by simp
  with Some show ?thesis by (simp add: normalizeBaseModel_def)
qed

lemma normalizeBaseModel_no_slash: "CHR ''/'' \<notin> set (normalizeBaseModel m)"
proof
  assume "CHR ''/'' \<in> set (normalizeBaseModel m)"
  then obtain c where "c \<in> set (takeWhile (\<lambda>c. c \<noteq> CHR ''/'') (rev m))" "lower_char c = CHR ''/''"
    by (auto simp: normalizeBaseModel_leaf ToLower_def)
  then show False using set_takeWhileD lower_char_neq_slash by metis
qed

lemma normalizeBaseModel_idem: "normalizeBaseModel (normalizeBaseModel m) = normalizeBaseModel m"
proof -
  have "LastIndex (normalizeBaseModel m) CHR ''/'' = None"
    by (simp add: LastIndex_None normalizeBaseModel_no_slash)
  then have "normalizeBaseModel (normalizeBaseModel m) = ToLower (normalizeBaseModel m)"
    by (simp add: normalizeBaseModel_def)
  then show ?thesis by (simp add: normalizeBaseModel_leaf ToLower_idem)
qed

lemma sql_leaf_normalize:
  "sql_leaf m = (if normalizeBaseModel m = [] then None else Some (normalizeBaseModel m))"
  by (simp add: sql_leaf_def normalizeBaseModel_leaf Let_def ToLower_def)

subsection \<open>Toggles\<close>

lemma all_on_get: "gm_get (fold (\<lambda>i m. gm_put i True m) ids m0) k = (if k \<in> set ids then Some True else gm_get m0 k)"
  by (induction ids arbitrary: m0) auto

lemma keep_toggles_get:
  assumes "gm_wf stored"
  shows "gm_get (keep_toggles stored m) k =
    (case gm_get m k of None \<Rightarrow> None | Some v \<Rightarrow> (case gm_get stored k of Some b \<Rightarrow> Some b | None \<Rightarrow> Some v))"
  using assms unfolding keep_toggles_def
proof (induction stored arbitrary: m)
  case (Cons kv stored)
  obtain j b where kv: "kv = (j, b)" by (cases kv)
  then have wf: "gm_wf stored" and j: "gm_get stored j = None"
    using Cons.prems by (auto simp: gm_wf_def map_of_eq_None_iff)
  show ?case using Cons.IH [OF wf] j by (auto simp: kv split: option.splits)
qed (auto split: option.splits)

end
