(* ===== verification/Failover_Frame.thy ===== *)
theory Failover_Frame
  imports Failover_Membership
begin

text \<open>
  What each statement may change. \<open>tables_ok\<close> are the schema's two uniqueness constraints;
  \<open>same_inputs\<close> says that an operation left the tables it only reads alone. The lemmas then say
  for every operation which rows of the group table it can touch, whatever statements fail.
\<close>

definition tables_ok :: "world \<Rightarrow> bool" where
  "tables_ok w \<longleftrightarrow> distinct (map gr_id (w_groups w)) \<and> distinct (map gr_display_model (w_groups w))"

definition same_inputs :: "world \<Rightarrow> world \<Rightarrow> bool" where
  "same_inputs w w' \<longleftrightarrow> w_models w' = w_models w \<and> w_providers w' = w_providers w \<and> w_clock w' = w_clock w"

definition is_custom :: "group_row \<Rightarrow> bool" where
  "is_custom r \<longleftrightarrow> \<not> is_true (gr_auto_created r)"

definition custom_rows :: "world \<Rightarrow> group_row list" where
  "custom_rows w = filter is_custom (w_groups w)"

definition other_rows :: "string \<Rightarrow> world \<Rightarrow> group_row list" where
  "other_rows name w = filter (\<lambda>r. gr_display_model r \<noteq> name) (w_groups w)"

lemma same_inputs_refl [simp]: "same_inputs w w"
  by (simp add: same_inputs_def)

lemma same_inputs_trans: "same_inputs w w' \<Longrightarrow> same_inputs w' w'' \<Longrightarrow> same_inputs w w''"
  by (simp add: same_inputs_def)

lemma next_fault_Some: "next_fault w = (f, w') \<Longrightarrow> w' = w\<lparr>w_faults := tl (w_faults w)\<rparr>"
  by (cases "w_faults w") (auto simp: next_fault_def)

lemma next_fault_keeps:
  assumes "next_fault w = (f, w')"
  shows "w_groups w' = w_groups w" "w_models w' = w_models w" "w_providers w' = w_providers w"
    "w_settings w' = w_settings w" "w_cache w' = w_cache w" "w_clock w' = w_clock w"
    "w_echoClearPending w' = w_echoClearPending w" "w_uuids w' = w_uuids w" "w_seq w' = w_seq w"
  using next_fault_Some [OF assms] by simp_all

lemma no_fault [simp]: "w_faults w = [] \<Longrightarrow> next_fault w = (None, w)"
  by (simp add: next_fault_def)

lemma invalidate_fields [simp]:
  "w_groups (w_InvalidateKey k w) = w_groups w" "w_groups (w_Invalidate w) = w_groups w"
  "w_models (w_InvalidateKey k w) = w_models w" "w_models (w_Invalidate w) = w_models w"
  "w_providers (w_InvalidateKey k w) = w_providers w" "w_providers (w_Invalidate w) = w_providers w"
  "w_settings (w_InvalidateKey k w) = w_settings w" "w_settings (w_Invalidate w) = w_settings w"
  "w_clock (w_InvalidateKey k w) = w_clock w" "w_clock (w_Invalidate w) = w_clock w"
  "w_faults (w_InvalidateKey k w) = w_faults w" "w_faults (w_Invalidate w) = w_faults w"
  "w_echoClearPending (w_InvalidateKey k w) = w_echoClearPending w"
  "w_echoClearPending (w_Invalidate w) = w_echoClearPending w"
  "same_inputs w (w_InvalidateKey k w)" "same_inputs w (w_Invalidate w)"
  by (simp_all add: w_InvalidateKey_def w_Invalidate_def same_inputs_def)

subsection \<open>Reads\<close>

lemma query_row_keeps: "query_row P w = (res, w') \<Longrightarrow> w' = w\<lparr>w_faults := tl (w_faults w)\<rparr> \<or> w' = w"
  by (auto simp: query_row_def dest: next_fault_Some split: prod.splits option.splits)

lemma GetByModel_keeps:
  assumes "GetByModel m w = (res, w')"
  shows "w_groups w' = w_groups w \<and> same_inputs w w' \<and> w_settings w' = w_settings w \<and>
    w_echoClearPending w' = w_echoClearPending w \<and> w_uuids w' = w_uuids w \<and> w_seq w' = w_seq w"
  using assms
  by (auto simp: GetByModel_def Let_def same_inputs_def dest: query_row_keeps split: prod.splits option.splits sum.splits)

lemma ListGroups_keeps:
  assumes "ListGroups w = (res, w')"
  shows "w' = w\<lparr>w_faults := tl (w_faults w)\<rparr>"
  using assms by (auto simp: ListGroups_def dest: next_fault_Some split: prod.splits option.splits)

subsection \<open>The upsert\<close>

lemma replace_by_name_keys:
  assumes "gr_display_model r' = d" "distinct (map gr_display_model gs)" "r \<in> set gs" "gr_display_model r = d" "gr_id r' = gr_id r"
  shows "map gr_display_model (map (\<lambda>q. if gr_display_model q = d then r' else q) gs) = map gr_display_model gs"
    "map gr_id (map (\<lambda>q. if gr_display_model q = d then r' else q) gs) = map gr_id gs"
proof -
  have "q = r" if "q \<in> set gs" "gr_display_model q = d" for q
    using that assms(2-4) by (metis (mono_tags, lifting) distinct_map inj_on_def)
  then show "map gr_display_model (map (\<lambda>q. if gr_display_model q = d then r' else q) gs) = map gr_display_model gs"
    "map gr_id (map (\<lambda>q. if gr_display_model q = d then r' else q) gs) = map gr_id gs"
    using assms(1,5) by (auto simp: map_eq_conv)
qed

lemma replace_by_id_keys:
  assumes "gr_display_model (f r) = gr_display_model r" "gr_id (f r) = gr_id r"
    "distinct (map gr_id gs)" "r \<in> set gs"
  shows "map gr_display_model (map (\<lambda>q. if gr_id q = gr_id r then f r else q) gs) = map gr_display_model gs"
    "map gr_id (map (\<lambda>q. if gr_id q = gr_id r then f r else q) gs) = map gr_id gs"
proof -
  have "q = r" if "q \<in> set gs" "gr_id q = gr_id r" for q
    using that assms(3,4) by (metis (mono_tags, lifting) distinct_map inj_on_def)
  then show "map gr_display_model (map (\<lambda>q. if gr_id q = gr_id r then f r else q) gs) = map gr_display_model gs"
    "map gr_id (map (\<lambda>q. if gr_id q = gr_id r then f r else q) gs) = map gr_id gs"
    using assms(1,2) by (auto simp: map_eq_conv)
qed

lemma upsert_set_keeps [simp]:
  "gr_id (upsert_set pj ej ge dn ds ac now r) = gr_id r"
  "gr_display_model (upsert_set pj ej ge dn ds ac now r) = gr_display_model r"
  "gr_auto_created (upsert_set pj ej ge dn ds ac now r) = Some ac"
  "gr_priority_order (upsert_set pj ej ge dn ds ac now r) = pj"
  "gr_entry_enabled (upsert_set pj ej ge dn ds ac now r) = ej"
  "gr_group_enabled (upsert_set pj ej ge dn ds ac now r) = Some ge"
  "gr_auto_disabled_at (upsert_set pj ej ge dn ds ac now r) = None"
  "gr_floor_disabled_at (upsert_set pj ej ge dn ds ac now r) = None"
  by (auto simp: upsert_set_def Let_def split: option.splits)

lemma insert_row_fields [simp]:
  "gr_id (insert_row i d pj ej ge dn ds ac now) = i"
  "gr_display_model (insert_row i d pj ej ge dn ds ac now) = d"
  "gr_auto_created (insert_row i d pj ej ge dn ds ac now) = Some ac"
  "gr_priority_order (insert_row i d pj ej ge dn ds ac now) = pj"
  "gr_entry_enabled (insert_row i d pj ej ge dn ds ac now) = ej"
  "gr_group_enabled (insert_row i d pj ej ge dn ds ac now) = Some ge"
  "gr_auto_disabled_at (insert_row i d pj ej ge dn ds ac now) = None"
  "gr_floor_disabled_at (insert_row i d pj ej ge dn ds ac now) = None"
  by (simp_all add: insert_row_def)

text \<open>The three things the upsert statement can do to the table.\<close>

lemma sql_upsert_cases:
  assumes "sql_upsert d pj ej ge dn ds ac w = (res, w')"
  obtains (unchanged) "w_groups w' = w_groups w" "\<exists>e. res = Inl e"
    | (inserted) r where "\<forall>q \<in> set (w_groups w). gr_display_model q \<noteq> d" "gr_id r \<notin> gr_id ` set (w_groups w)"
        "r = insert_row (gr_id r) d pj ej ge dn ds ac (w_clock w)" "w_groups w' = w_groups w @ [r]"
        "res = scanFailoverGroup r"
    | (updated) r where "r \<in> set (w_groups w)" "gr_display_model r = d" "is_true (gr_auto_created r) \<or> \<not> ac"
        "w_groups w' = map (\<lambda>q. if gr_display_model q = d
           then upsert_set pj ej ge dn ds ac (w_clock w) r else q) (w_groups w)"
        "res = scanFailoverGroup (upsert_set pj ej ge dn ds ac (w_clock w) r)"
proof (cases "find (\<lambda>r. gr_display_model r = d) (w_groups w)")
  case None
  then have none: "\<forall>q \<in> set (w_groups w). gr_display_model q \<noteq> d" by (auto simp: find_None_iff)
  show thesis
  proof (cases "w_uuids w (w_seq w) \<in> gr_id ` set (w_groups w)")
    case True
    with assms None unchanged show thesis by (auto simp: sql_upsert_def Let_def)
  next
    case False
    let ?r = "insert_row (w_uuids w (w_seq w)) d pj ej ge dn ds ac (w_clock w)"
    show thesis
      by (rule inserted [of ?r]) (use assms None none False in \<open>auto simp: sql_upsert_def Let_def\<close>)
  qed
next
  case (Some r)
  then have r: "r \<in> set (w_groups w)" "gr_display_model r = d"
    by (auto simp: find_Some_iff)
  with assms Some updated [of r] unchanged show thesis
    by (auto simp: sql_upsert_def Let_def split: if_splits)
qed

lemma sql_upsert_inputs: "sql_upsert d pj ej ge dn ds ac w = (res, w') \<Longrightarrow>
    same_inputs w w' \<and> w_settings w' = w_settings w \<and> w_echoClearPending w' = w_echoClearPending w \<and>
    w_faults w' = w_faults w \<and> w_cache w' = w_cache w"
  by (auto simp: sql_upsert_def same_inputs_def Let_def split: option.splits if_splits)

lemma sql_upsert_tables:
  assumes "sql_upsert d pj ej ge dn ds ac w = (res, w')" "tables_ok w"
  shows "tables_ok w' \<and> other_rows d w' = other_rows d w \<and> (ac \<longrightarrow> custom_rows w' = custom_rows w)"
  using assms(1)
proof (cases rule: sql_upsert_cases)
  case unchanged
  then show ?thesis using assms(2) by (simp add: tables_ok_def other_rows_def custom_rows_def)
next
  case (inserted r)
  have "gr_display_model r = d" "gr_auto_created r = Some ac"
    using inserted(3) by (metis insert_row_fields)+
  with inserted assms(2) show ?thesis
    by (auto simp: tables_ok_def other_rows_def custom_rows_def is_custom_def is_true_def)
next
  case (updated r)
  let ?r' = "upsert_set pj ej ge dn ds ac (w_clock w) r"
  have uniq: "q = r" if "q \<in> set (w_groups w)" "gr_display_model q = d" for q
    using that updated(1,2) assms(2) unfolding tables_ok_def by (metis (mono_tags, lifting) distinct_map inj_on_def)
  have dist: "distinct (map gr_display_model (w_groups w))" using assms(2) by (simp add: tables_ok_def)
  have "gr_display_model ?r' = d" using updated(2) by simp
  note keys = replace_by_name_keys [OF this dist updated(1,2)]
  have "tables_ok w'"
    using assms(2) unfolding tables_ok_def updated(4) by (simp only: keys upsert_set_keeps)
  moreover have "filter (\<lambda>q. gr_display_model q \<noteq> d)
      (map (\<lambda>q. if gr_display_model q = d then ?r' else q) gs) = filter (\<lambda>q. gr_display_model q \<noteq> d) gs" for gs
    by (induction gs) (auto simp: updated(2))
  then have "other_rows d w' = other_rows d w" by (simp add: other_rows_def updated(4))
  moreover have "custom_rows w' = custom_rows w" if ac
  proof -
    have "filter is_custom (map (\<lambda>q. if gr_display_model q = d then ?r' else q) gs) = filter is_custom gs"
      if "set gs \<subseteq> set (w_groups w)" for gs
      using that uniq updated(3) \<open>ac\<close> by (induction gs) (auto simp: is_custom_def is_true_def)
    then show ?thesis by (simp add: custom_rows_def updated(4))
  qed
  ultimately show ?thesis by blast
qed

lemma UpsertWithConfig_tables:
  assumes "UpsertWithConfig d po ee ge dn ds ac w = (res, w')" "tables_ok w"
  shows "tables_ok w' \<and> other_rows d w' = other_rows d w \<and> same_inputs w w' \<and>
    (ac = Some True \<longrightarrow> custom_rows w' = custom_rows w)"
proof -
  obtain f w1 where f: "next_fault w = (f, w1)" by fastforce
  note keep = next_fault_keeps [OF f]
  have ok1: "tables_ok w1" "other_rows d w1 = other_rows d w" "custom_rows w1 = custom_rows w" "same_inputs w w1"
    using assms(2) keep by (simp_all add: tables_ok_def other_rows_def custom_rows_def same_inputs_def)
  show ?thesis
  proof (cases f)
    case (Some e)
    then show ?thesis using assms(1) f ok1 by (auto simp: UpsertWithConfig_def Let_def)
  next
    case None
    obtain res1 w2 where up: "sql_upsert d (marshal_order po) (marshal_toggles ee)
        (case ge of Some b \<Rightarrow> b | None \<Rightarrow> True) dn ds (case ac of Some b \<Rightarrow> b | None \<Rightarrow> False) w1 = (res1, w2)"
      by fastforce
    have "w_groups w' = w_groups w2" "same_inputs w2 w'"
      using assms(1) f None up by (auto simp: UpsertWithConfig_def Let_def split: sum.splits)
    with sql_upsert_tables [OF up ok1(1)] sql_upsert_inputs [OF up] ok1 show ?thesis
      by (auto simp: tables_ok_def other_rows_def custom_rows_def same_inputs_def)
  qed
qed

subsection \<open>Auto groups\<close>

lemma deleteAutoGroup_tables:
  assumes "deleteAutoGroup d w = (res, w')" "tables_ok w"
  shows "tables_ok w' \<and> other_rows d w' = other_rows d w \<and> same_inputs w w' \<and> custom_rows w' = custom_rows w"
proof -
  obtain f w1 where f: "next_fault w = (f, w1)" by fastforce
  note keep = next_fault_keeps [OF f]
  let ?gone = "\<lambda>r. gr_display_model r = d \<and> is_true (gr_auto_created r)"
  have "w_groups w' = w_groups w \<or> w_groups w' = filter (\<lambda>r. \<not> ?gone r) (w_groups w)"
    using assms(1) f keep by (auto simp: deleteAutoGroup_def Let_def split: option.splits if_splits)
  moreover have "same_inputs w w'"
    using assms(1) f keep by (auto simp: deleteAutoGroup_def Let_def same_inputs_def split: option.splits if_splits)
  moreover have "filter (\<lambda>r. gr_display_model r \<noteq> d) (filter (\<lambda>r. \<not> ?gone r) gs) =
      filter (\<lambda>r. gr_display_model r \<noteq> d) gs"
    "filter is_custom (filter (\<lambda>r. \<not> ?gone r) gs) = filter is_custom gs" for gs
    by (auto simp: is_custom_def intro!: filter_cong)
  ultimately show ?thesis
    using assms(2) distinct_map_filter unfolding tables_ok_def other_rows_def custom_rows_def
    by (elim disjE) (simp_all only: distinct_map_filter)
qed

lemma write_auto_group_tables:
  assumes "write_auto_group ex base ids w = (res, w')" "tables_ok w"
  shows "tables_ok w' \<and> other_rows base w' = other_rows base w \<and> same_inputs w w' \<and> custom_rows w' = custom_rows w"
proof -
  obtain po ee dn ds res1 w1 where up: "UpsertWithConfig base po ee (Some True) dn ds (Some True) w = (res1, w1)"
    and w': "w_groups w' = w_groups w1" "same_inputs w1 w'"
    using assms(1) unfolding write_auto_group_def Let_def
    by (auto split: prod.splits sum.splits db_error.splits)
  from UpsertWithConfig_tables [OF up assms(2)] w' show ?thesis
    by (auto simp: tables_ok_def other_rows_def custom_rows_def intro: same_inputs_trans)
qed

lemma upsertAutoGroup_tables:
  assumes "upsertAutoGroup base ids w = (res, w')" "tables_ok w"
  shows "tables_ok w' \<and> other_rows base w' = other_rows base w \<and> same_inputs w w' \<and> custom_rows w' = custom_rows w"
proof -
  obtain res1 w1 where g: "GetByModel base w = (res1, w1)" by fastforce
  note keep = GetByModel_keeps [OF g]
  then have ok1: "tables_ok w1" "other_rows base w1 = other_rows base w" "custom_rows w1 = custom_rows w" "same_inputs w w1"
    using assms(2) by (simp_all add: tables_ok_def other_rows_def custom_rows_def)
  have "w' = w1 \<or> (\<exists>ex res2. write_auto_group ex base ids w1 = (res2, w'))"
    using assms(1) g by (auto simp: upsertAutoGroup_def split: sum.splits if_splits)
  then show ?thesis
    using ok1 write_auto_group_tables [OF _ ok1(1)] by (metis same_inputs_trans)
qed

lemma deleteUndersizedAutoGroup_tables:
  assumes "deleteUndersizedAutoGroup base n ns result w = (result', w')" "tables_ok w"
  shows "tables_ok w' \<and> other_rows base w' = other_rows base w \<and> same_inputs w w' \<and> custom_rows w' = custom_rows w"
proof -
  obtain res where "deleteAutoGroup base w = (res, w')"
    using assms(1) by (auto simp: deleteUndersizedAutoGroup_def split: prod.splits sum.splits bool.splits)
  with deleteAutoGroup_tables assms(2) show ?thesis by blast
qed

subsection \<open>The echo\<close>

lemma echo_keeps:
  "w_groups (ClearFleetAutoEcho w) = w_groups w" "same_inputs w (ClearFleetAutoEcho w)"
  by (auto simp: ClearFleetAutoEcho_def same_inputs_def next_fault_def split: list.splits option.splits)

lemma echoedBases_keeps:
  assumes "echoedBases w = (x, w')"
  shows "w' = w\<lparr>w_faults := tl (w_faults w)\<rparr>"
  using assms by (auto simp: echoedBases_def dest: next_fault_Some split: prod.splits option.splits)

lemma clearFleetAutoEchoIfStaled_keeps:
  "w_groups (clearFleetAutoEchoIfStaled ch w) = w_groups w" "same_inputs w (clearFleetAutoEchoIfStaled ch w)"
  by (auto simp: clearFleetAutoEchoIfStaled_def echo_keeps dest!: echoedBases_keeps
        intro: same_inputs_trans [OF _ echo_keeps(2)] simp: same_inputs_def split: prod.splits)
     (auto simp: ClearFleetAutoEcho_def next_fault_def split: list.splits option.splits)

end
