(* ===== verification/Failover_Maintenance.thy ===== *)
theory Failover_Maintenance
  imports Failover_Frame
begin

text \<open>
  Prune and revalidation, row by row. \<open>maintained L r r'\<close> says that \<open>r'\<close> is the row \<open>r\<close> after
  maintenance: everything an operator chose is kept, and so are the members in \<open>L\<close> (the models
  that exist) in their order and with their toggles; at most the group was auto-disabled.
\<close>

definition row_members :: "group_row \<Rightarrow> uuid list" where
  "row_members r = (case gr_priority_order r of OArr ids \<Rightarrow> ids | _ \<Rightarrow> [])"

definition row_toggle :: "group_row \<Rightarrow> uuid \<Rightarrow> bool option" where
  "row_toggle r i = (case gr_entry_enabled r of TObj m \<Rightarrow> gm_get m i | _ \<Rightarrow> None)"

definition live_ids :: "world \<Rightarrow> uuid set" where
  "live_ids w = mr_id ` set (w_models w)"

definition live_members :: "uuid set \<Rightarrow> group_row \<Rightarrow> uuid list" where
  "live_members L r = filter (\<lambda>i. i \<in> L) (row_members r)"

definition maintained :: "uuid set \<Rightarrow> group_row \<Rightarrow> group_row \<Rightarrow> bool" where
  "maintained L r r' \<longleftrightarrow>
     gr_id r' = gr_id r \<and> gr_display_model r' = gr_display_model r \<and> gr_display_name r' = gr_display_name r \<and>
     gr_description r' = gr_description r \<and> gr_auto_created r' = gr_auto_created r \<and>
     gr_floor_disabled_at r' = gr_floor_disabled_at r \<and> gr_created_at r' = gr_created_at r \<and>
     live_members L r' = live_members L r \<and> (\<forall>i \<in> L. row_toggle r' i = row_toggle r i) \<and>
     (gr_group_enabled r' = gr_group_enabled r \<and> gr_auto_disabled_at r' = gr_auto_disabled_at r \<or>
      gr_group_enabled r' = Some False \<and> gr_auto_disabled_at r' \<noteq> None)"

text \<open>A table after maintenance: each row is there, maintained, unless it had at most one live member,
  and no row appeared.\<close>

definition survives :: "uuid set \<Rightarrow> group_row list \<Rightarrow> group_row list \<Rightarrow> bool" where
  "survives L gs gs' \<longleftrightarrow>
     (\<forall>r \<in> set gs. (\<exists>r' \<in> set gs'. maintained L r r') \<or> length (live_members L r) \<le> 1) \<and>
     (\<forall>r' \<in> set gs'. \<exists>r \<in> set gs. gr_display_model r' = gr_display_model r \<and> gr_auto_created r' = gr_auto_created r)"

lemma maintained_refl [simp]: "maintained L r r"
  by (simp add: maintained_def)

lemma maintained_trans: "maintained L r r' \<Longrightarrow> maintained L r' r'' \<Longrightarrow> maintained L r r''"
  unfolding maintained_def by (elim conjE disjE) simp_all

lemma survives_map:
  assumes "\<And>r. maintained L r (h r)"
  shows "survives L gs (map h gs)"
proof -
  have "\<exists>r' \<in> set (map h gs). maintained L r r'" if "r \<in> set gs" for r
    using that by (intro bexI [of _ "h r"]) (simp_all add: assms)
  moreover have "gr_display_model (h r) = gr_display_model r \<and> gr_auto_created (h r) = gr_auto_created r" for r
    using assms [of r] by (simp add: maintained_def)
  ultimately show ?thesis unfolding survives_def by auto
qed

lemma survives_refl [simp]: "survives L gs gs"
  using survives_map [of L "\<lambda>r. r" gs] by simp

lemma survives_trans:
  assumes "survives L gs gs'" "survives L gs' gs''"
  shows "survives L gs gs''"
proof -
  have "live_members L r' = live_members L r" if "maintained L r r'" for r r'
    using that by (simp add: maintained_def)
  then have "\<forall>r \<in> set gs. (\<exists>r' \<in> set gs''. maintained L r r') \<or> length (live_members L r) \<le> 1"
    using assms maintained_trans unfolding survives_def by metis
  moreover have "\<forall>r' \<in> set gs''. \<exists>r \<in> set gs.
      gr_display_model r' = gr_display_model r \<and> gr_auto_created r' = gr_auto_created r"
    using assms unfolding survives_def by metis
  ultimately show ?thesis unfolding survives_def by blast
qed

subsection \<open>Prune\<close>

lemma without_ids_get: "k \<notin> set ids \<Longrightarrow> gm_get (without_ids ids m) k = gm_get m k"
  unfolding without_ids_def by (induction m) auto

lemma prune_row_maintained:
  assumes "set ids \<inter> L = {}"
  shows "maintained L r (prune_row ids now r)"
proof -
  have "filter (\<lambda>i. i \<in> L) (filter (\<lambda>i. i \<notin> set ids) xs) = filter (\<lambda>i. i \<in> L) xs" for xs
    using assms by (auto intro!: filter_cong)
  moreover have "i \<in> L \<Longrightarrow> gm_get (without_ids ids m) i = gm_get m i" for m i
    using assms by (intro without_ids_get) auto
  ultimately show ?thesis
    by (auto simp: maintained_def prune_row_def live_members_def row_members_def row_toggle_def
        split: order_json.splits toggles_json.splits)
qed

lemma prune_row_keys [simp]:
  "gr_id (prune_row ids now r) = gr_id r" "gr_display_model (prune_row ids now r) = gr_display_model r"
  by (simp_all add: prune_row_def)

lemma pruneMembership_rows:
  assumes "pruneMembership i d ids w = (res, w')" "tables_ok w" "set ids \<inter> L = {}"
  shows "tables_ok w' \<and> same_inputs w w' \<and> survives L (w_groups w) (w_groups w') \<and>
    (\<forall>n. res = Inr n \<longrightarrow>
      w_groups w' = map (\<lambda>q. if gr_id q = i then prune_row ids (w_clock w) q else q) (w_groups w))"
proof -
  obtain f w1 where f: "next_fault w = (f, w1)" by fastforce
  note keep = next_fault_keeps [OF f]
  show ?thesis
  proof (cases "f = None \<and> find (\<lambda>r. gr_id r = i) (w_groups w) \<noteq> None")
    case True
    then obtain r where r: "find (\<lambda>r. gr_id r = i) (w_groups w) = Some r" by auto
    then have mem: "r \<in> set (w_groups w)" "gr_id r = i" by (auto simp: find_Some_iff)
    have ids: "distinct (map gr_id (w_groups w))" using assms(2) by (simp add: tables_ok_def)
    have uniq: "q = r" if "q \<in> set (w_groups w)" "gr_id q = i" for q
      using that mem ids by (metis (mono_tags, lifting) distinct_map inj_on_def)
    have raw: "w_groups w' = map (\<lambda>q. if gr_id q = i then prune_row ids (w_clock w) r else q) (w_groups w)"
      and inp: "same_inputs w w'"
      using assms(1) f True r keep by (auto simp: pruneMembership_def Let_def same_inputs_def)
    have "w_groups w' = map (\<lambda>q. if gr_id q = i then prune_row ids (w_clock w) q else q) (w_groups w)"
      unfolding raw using uniq by (intro map_cong) auto
    moreover have "tables_ok w'"
      using assms(2) replace_by_id_keys [of "prune_row ids (w_clock w)" r, OF _ _ ids mem(1)]
      unfolding tables_ok_def raw mem(2) [symmetric] by (simp only: prune_row_keys)
    moreover have "survives L (w_groups w)
        (map (\<lambda>q. if gr_id q = i then prune_row ids (w_clock w) q else q) (w_groups w))"
      by (rule survives_map) (simp add: prune_row_maintained [OF assms(3)])
    ultimately show ?thesis using inp by simp
  next
    case False
    then have "w_groups w' = w_groups w \<and> same_inputs w w' \<and> (\<forall>n. res \<noteq> Inr n)"
      using assms(1) f keep by (auto simp: pruneMembership_def same_inputs_def split: option.splits)
    then show ?thesis using assms(2) by (simp add: tables_ok_def)
  qed
qed

lemma unviable_live: "unviable (gr_priority_order r) \<Longrightarrow> length (live_members L r) \<le> 1"
  by (auto simp: unviable_def live_members_def row_members_def split: order_json.splits
      intro: order_trans [OF length_filter_le])

lemma deleteIfUnviable_rows:
  assumes "deleteIfUnviable i w = (res, w')" "tables_ok w"
  shows "tables_ok w' \<and> same_inputs w w' \<and> survives L (w_groups w) (w_groups w')"
proof -
  obtain f w1 where f: "next_fault w = (f, w1)" by fastforce
  note keep = next_fault_keeps [OF f]
  let ?gone = "\<lambda>r. gr_id r = i \<and> unviable (gr_priority_order r)"
  have g: "w_groups w' = w_groups w \<or> w_groups w' = filter (\<lambda>r. \<not> ?gone r) (w_groups w)"
    and inp: "same_inputs w w'"
    using assms(1) f keep by (auto simp: deleteIfUnviable_def Let_def same_inputs_def split: option.splits)
  have "survives L (w_groups w) (filter (\<lambda>r. \<not> ?gone r) (w_groups w))"
    unfolding survives_def using unviable_live maintained_refl by auto
  moreover have "distinct (map h (filter (\<lambda>r. \<not> ?gone r) (w_groups w)))" if "distinct (map h (w_groups w))" for h :: "group_row \<Rightarrow> string"
    using that by (rule distinct_map_filter)
  ultimately show ?thesis using g inp assms(2) survives_refl unfolding tables_ok_def by (elim disjE) simp_all
qed

lemma prune_group_rows:
  assumes "prune_group E g (result, w) = (result', w')" "tables_ok w" "set (fg_PriorityOrder g) \<inter> L \<subseteq> E"
  shows "tables_ok w' \<and> same_inputs w w' \<and> survives L (w_groups w) (w_groups w')"
proof -
  let ?ids = "filter (\<lambda>i. i \<notin> E) (fg_PriorityOrder g)"
  have stale: "set ?ids \<inter> L = {}" using assms(3) by auto
  show ?thesis
  proof (cases "?ids = []")
    case True
    then show ?thesis using assms(1,2) by (simp add: prune_group_def)
  next
    case False
    obtain res1 w1 where p: "pruneMembership (fg_ID g) (fg_DisplayModel g) ?ids w = (res1, w1)" by fastforce
    note one = pruneMembership_rows [OF p assms(2) stale]
    have "w' = w1 \<or> (\<exists>res2. deleteIfUnviable (fg_ID g) w1 = (res2, w'))"
      using assms(1) False p
      by (auto simp: prune_group_def Let_def split: sum.splits prod.splits if_splits bool.splits)
    then show ?thesis
      using one deleteIfUnviable_rows same_inputs_trans survives_trans by blast
  qed
qed

lemma prune_groups_rows:
  assumes "fold (prune_group E) gs (result, w) = (result', w')" "tables_ok w"
    "\<And>g. g \<in> set gs \<Longrightarrow> set (fg_PriorityOrder g) \<inter> L \<subseteq> E"
  shows "tables_ok w' \<and> same_inputs w w' \<and> survives L (w_groups w) (w_groups w')"
  using assms
proof (induction gs arbitrary: result w)
  case (Cons g gs)
  obtain result1 w1 where p: "prune_group E g (result, w) = (result1, w1)" by fastforce
  have one: "tables_ok w1 \<and> same_inputs w w1 \<and> survives L (w_groups w) (w_groups w1)"
    by (rule prune_group_rows [OF p Cons.prems(2)]) (use Cons.prems(3) in simp)
  have "fold (prune_group E) gs (result1, w1) = (result', w')" using Cons.prems(1) p by simp
  from Cons.IH [OF this] one Cons.prems(3) show ?case
    using same_inputs_trans survives_trans by (meson list.set_intros(2))
qed simp

lemma pruneStaleEntries_rows:
  assumes "pruneStaleEntries gs result w = (result', w')" "tables_ok w"
  shows "tables_ok w' \<and> same_inputs w w' \<and> survives (live_ids w) (w_groups w) (w_groups w')"
proof -
  let ?all = "concat (map fg_PriorityOrder gs)"
  obtain f w1 where f: "next_fault w = (f, w1)" by fastforce
  note keep = next_fault_keeps [OF f]
  have ok1: "tables_ok w1" "same_inputs w w1" "w_groups w1 = w_groups w"
    using assms(2) keep by (simp_all add: tables_ok_def same_inputs_def)
  let ?E = "set (filter (\<lambda>i. i \<in> set ?all) (map mr_id (w_models w1)))"
  consider "w' = w" | "w' = w1" | "fold (prune_group ?E) gs (result, w1) = (result', w')"
    using assms(1) f by (auto simp: pruneStaleEntries_def Let_def split: if_splits option.splits)
  then show ?thesis
  proof cases
    case 3
    have "set (fg_PriorityOrder g) \<inter> live_ids w \<subseteq> ?E" if "g \<in> set gs" for g
      using that keep by (auto simp: live_ids_def)
    from prune_groups_rows [OF 3 ok1(1) this] ok1 show ?thesis
      using same_inputs_trans by metis
  qed (use assms(2) ok1 in simp_all)
qed

subsection \<open>Revalidation\<close>

lemma disable_row_fields [simp]:
  "gr_id (disable_row now r) = gr_id r" "gr_display_model (disable_row now r) = gr_display_model r"
  "disable_row now (disable_row now r) = disable_row now r"
  by (simp_all add: disable_row_def)

lemma disable_row_maintained: "maintained L r (disable_row now r)"
  by (simp add: maintained_def disable_row_def live_members_def row_members_def row_toggle_def)

lemma map_rows_ok:
  assumes "\<And>r. gr_id (h r) = gr_id r \<and> gr_display_model (h r) = gr_display_model r"
  shows "map gr_id (map h gs) = map gr_id gs" "map gr_display_model (map h gs) = map gr_display_model gs"
  using assms by simp_all

lemma revalidate_group_rows:
  assumes "revalidate_group R g (result, w) = (g', result', w')"
  shows "same_inputs w w' \<and> (w_groups w' = w_groups w \<or>
    w_groups w' = map (\<lambda>q. if gr_id q = fg_ID g then disable_row (w_clock w) q else q) (w_groups w))"
  using assms next_fault_keeps [of w]
  by (auto simp: revalidate_group_def Let_def same_inputs_def split: prod.splits option.splits if_splits)

lemma revalidate_group_survives:
  assumes "revalidate_group R g (result, w) = (g', result', w')" "tables_ok w"
  shows "tables_ok w' \<and> same_inputs w w' \<and> survives L (w_groups w) (w_groups w')"
proof -
  let ?h = "\<lambda>q. if gr_id q = fg_ID g then disable_row (w_clock w) q else q"
  have "survives L (w_groups w) (map ?h (w_groups w))"
    by (rule survives_map) (simp add: disable_row_maintained)
  moreover have "map gr_id (map ?h (w_groups w)) = map gr_id (w_groups w)"
    "map gr_display_model (map ?h (w_groups w)) = map gr_display_model (w_groups w)"
    by (rule map_rows_ok; simp)+
  ultimately show ?thesis
    using revalidate_group_rows [OF assms(1)] assms(2) survives_refl unfolding tables_ok_def
    by (elim conjE disjE) (simp_all only: simp_thms)
qed

lemma revalidate_walk_survives:
  assumes "revalidate_walk R gs (result, w) = (gs', result', w')" "tables_ok w"
  shows "tables_ok w' \<and> same_inputs w w' \<and> survives L (w_groups w) (w_groups w')"
  using assms
proof (induction gs arbitrary: gs' result w)
  case (Cons g gs)
  show ?case
  proof (cases "fg_AutoCreated g \<or> \<not> fg_GroupEnabled g")
    case True
    then obtain gs1 where "revalidate_walk R gs (result, w) = (gs1, result', w')"
      using Cons.prems(1) by (auto split: prod.splits)
    from Cons.IH [OF this Cons.prems(2)] show ?thesis .
  next
    case False
    obtain g1 result1 w1 where one: "revalidate_group R g (result, w) = (g1, result1, w1)"
      by (metis prod_cases3)
    then obtain gs1 where rest: "revalidate_walk R gs (result1, w1) = (gs1, result', w')"
      using Cons.prems(1) False by (auto split: prod.splits)
    note s1 = revalidate_group_survives [OF one Cons.prems(2), of L]
    with Cons.IH [OF rest] show ?thesis using same_inputs_trans survives_trans by blast
  qed
qed simp

lemma routableMemberIDs_keeps:
  assumes "routableMemberIDs ids w = (res, w')"
  shows "w_groups w' = w_groups w \<and> same_inputs w w'"
  using assms next_fault_keeps [of w]
  by (auto simp: routableMemberIDs_def same_inputs_def split: if_splits prod.splits option.splits)

lemma revalidateCustomGroups_survives:
  assumes "revalidateCustomGroups gs result w = (gs', result', w')" "tables_ok w"
  shows "tables_ok w' \<and> same_inputs w w' \<and> survives L (w_groups w) (w_groups w')"
proof -
  let ?cand = "filter (\<lambda>g. \<not> (fg_AutoCreated g \<or> \<not> fg_GroupEnabled g)) gs"
  obtain res w1 where r: "routableMemberIDs (concat (map fg_PriorityOrder ?cand)) w = (res, w1)" by fastforce
  note keep = routableMemberIDs_keeps [OF r]
  then have ok1: "tables_ok w1" using assms(2) by (simp add: tables_ok_def)
  consider "w' = w" | "w' = w1" | R where "revalidate_walk R gs (result, w1) = (gs', result', w')"
    using assms(1) r by (auto simp: revalidateCustomGroups_def Let_def split: if_splits sum.splits)
  then show ?thesis
  proof cases
    case 2
    then show ?thesis using ok1 keep by simp
  next
    case 3
    from revalidate_walk_survives [OF this ok1] keep show ?thesis using same_inputs_trans by metis
  qed (use assms(2) in simp)
qed

end
