(* ===== verification/Failover_Correct.thy ===== *)
theory Failover_Correct
  imports Failover_Maintenance
begin

text \<open>
  What the maintenance operations achieve when their statements succeed: the exact effect of the
  revalidation and of \<open>SyncForModel\<close>, and the auto groups \<open>SyncAllModels\<close> leaves behind.
\<close>

subsection \<open>Readable rows\<close>

definition row_wf :: "group_row \<Rightarrow> bool" where
  "row_wf r \<longleftrightarrow> unmarshal_order (gr_priority_order r) \<noteq> None \<and>
     (case gr_entry_enabled r of TObj m \<Rightarrow> gm_wf m | TOther \<Rightarrow> False | _ \<Rightarrow> True)"

definition group_of :: "group_row \<Rightarrow> FailoverGroup" where
  "group_of r = projr (scanFailoverGroup r)"

lemma scan_row_wf: "row_wf r \<Longrightarrow> scanFailoverGroup r = Inr (group_of r)"
  by (auto simp: row_wf_def group_of_def scanFailoverGroup_def unmarshal_toggles_def
      split: option.splits toggles_json.splits)

lemma group_of_fields:
  assumes "row_wf r"
  shows "fg_ID (group_of r) = gr_id r" "fg_DisplayModel (group_of r) = gr_display_model r"
    "fg_PriorityOrder (group_of r) = row_members r" "fg_AutoCreated (group_of r) \<longleftrightarrow> \<not> is_custom r"
    "fg_GroupEnabled (group_of r) \<longleftrightarrow> gr_group_enabled r \<noteq> Some False"
    "gm_wf (fg_EntryEnabled (group_of r))" "gm_get (fg_EntryEnabled (group_of r)) i = row_toggle r i"
proof -
  obtain ids where ids: "unmarshal_order (gr_priority_order r) = Some ids"
    using assms by (auto simp: row_wf_def)
  obtain m where m: "unmarshal_toggles (gr_entry_enabled r) = Some m"
    using assms by (auto simp: row_wf_def unmarshal_toggles_def split: toggles_json.splits)
  have "ids = row_members r"
    using ids by (auto simp: unmarshal_order_def row_members_def split: order_json.splits)
  moreover have "gm_wf m" "gm_get m i = row_toggle r i" for i
    using m assms by (auto simp: unmarshal_toggles_def row_toggle_def row_wf_def split: toggles_json.splits)
  ultimately show "fg_ID (group_of r) = gr_id r" "fg_DisplayModel (group_of r) = gr_display_model r"
    "fg_PriorityOrder (group_of r) = row_members r" "fg_AutoCreated (group_of r) \<longleftrightarrow> \<not> is_custom r"
    "fg_GroupEnabled (group_of r) \<longleftrightarrow> gr_group_enabled r \<noteq> Some False"
    "gm_wf (fg_EntryEnabled (group_of r))" "gm_get (fg_EntryEnabled (group_of r)) i = row_toggle r i"
    using ids m by (auto simp: group_of_def scanFailoverGroup_def is_custom_def is_true_def split: option.splits)
qed

lemma scan_groups_wf: "\<forall>r \<in> set rs. row_wf r \<Longrightarrow> scanFailoverGroups rs = Inr (map group_of rs)"
  by (induction rs) (simp_all add: scan_row_wf)

lemma ListGroups_wf:
  assumes "w_faults w = []" "\<forall>r \<in> set (w_groups w). row_wf r"
  shows "ListGroups w = (Inr (map group_of (order_by_model (w_groups w))), w)"
  using assms by (simp add: ListGroups_def order_by_model_def scan_groups_wf)

subsection \<open>Revalidation\<close>

definition needs_disable :: "uuid set \<Rightarrow> FailoverGroup \<Rightarrow> bool" where
  "needs_disable R g \<longleftrightarrow> \<not> fg_AutoCreated g \<and> fg_GroupEnabled g \<and>
     length (filter (\<lambda>i. i \<in> R) (fg_PriorityOrder g)) < 2"

definition undersized :: "world \<Rightarrow> group_row \<Rightarrow> bool" where
  "undersized w r \<longleftrightarrow> is_custom r \<and> gr_group_enabled r \<noteq> Some False \<and>
     length (filter (\<lambda>i. i \<in> set (routable_ids w)) (row_members r)) < 2"

lemma revalidate_walk_exact:
  assumes "w_faults w = []" "revalidate_walk R gs (result, w) = (gs', result', w')"
  shows "w_faults w' = [] \<and> w_clock w' = w_clock w \<and>
    w_groups w' = map (\<lambda>q. if \<exists>g \<in> set gs. fg_ID g = gr_id q \<and> needs_disable R g
      then disable_row (w_clock w) q else q) (w_groups w) \<and>
    map dis_DisplayModel (DisabledGroups result') =
      map dis_DisplayModel (DisabledGroups result) @ map fg_DisplayModel (filter (needs_disable R) gs)"
  using assms
proof (induction gs arbitrary: gs' result w)
  case (Cons g gs)
  show ?case
  proof (cases "needs_disable R g")
    case False
    then have "\<exists>gs1. revalidate_walk R gs (result, w) = (gs1, result', w')"
      using Cons.prems by (auto simp: needs_disable_def revalidate_group_def Let_def split: prod.splits if_splits)
    then obtain gs1 where "revalidate_walk R gs (result, w) = (gs1, result', w')" by blast
    from Cons.IH [OF Cons.prems(1) this] False show ?thesis by auto
  next
    case True
    obtain g1 result1 w1 where one: "revalidate_group R g (result, w) = (g1, result1, w1)"
      by (metis prod_cases3)
    then obtain gs1 where rest: "revalidate_walk R gs (result1, w1) = (gs1, result', w')"
      using Cons.prems(2) True by (auto simp: needs_disable_def split: prod.splits)
    have w1: "w_faults w1 = []" "w_clock w1 = w_clock w"
      "w_groups w1 = map (\<lambda>q. if gr_id q = fg_ID g then disable_row (w_clock w) q else q) (w_groups w)"
      "map dis_DisplayModel (DisabledGroups result1) = map dis_DisplayModel (DisabledGroups result) @ [fg_DisplayModel g]"
      using one True Cons.prems(1) by (auto simp: needs_disable_def revalidate_group_def Let_def split: if_splits)
    show ?thesis using Cons.IH [OF w1(1) rest] True by (auto simp: w1)
  qed
qed simp

lemma filter_routable:
  assumes "set xs \<subseteq> set all"
  shows "filter (\<lambda>i. i \<in> set (filter (\<lambda>i. i \<in> set all) ys)) xs = filter (\<lambda>i. i \<in> set ys) xs"
  using assms by (auto intro!: filter_cong)

lemma routableMemberIDs_ok:
  assumes "w_faults w = []"
  shows "routableMemberIDs all w = (Inr (filter (\<lambda>i. i \<in> set all) (routable_ids w)), w)"
  using assms by (cases all) (simp_all add: routableMemberIDs_def)

lemma RevalidateCustomGroups_exact:
  assumes "w_faults w = []" "tables_ok w" "\<forall>r \<in> set (w_groups w). row_wf r"
    "RevalidateCustomGroups w = (res, w')"
  shows "w_groups w' = map (\<lambda>r. if undersized w r then disable_row (w_clock w) r else r) (w_groups w)"
proof -
  let ?gs = "map group_of (order_by_model (w_groups w))"
  let ?cand = "filter (\<lambda>g. \<not> (fg_AutoCreated g \<or> \<not> fg_GroupEnabled g)) ?gs"
  let ?all = "concat (map fg_PriorityOrder ?cand)"
  let ?R = "set (filter (\<lambda>i. i \<in> set ?all) (routable_ids w))"
  have set_gs: "set ?gs = group_of ` set (w_groups w)" by (simp add: order_by_model_def)
  obtain gs' result where rv: "revalidateCustomGroups ?gs new_result w = (gs', result, w')"
    using assms(4) ListGroups_wf [OF assms(1,3)] by (auto simp: RevalidateCustomGroups_def split: prod.splits)
  have hit: "(\<exists>g \<in> set ?gs. fg_ID g = gr_id r \<and> needs_disable R g) \<longleftrightarrow> needs_disable R (group_of r)"
    if "r \<in> set (w_groups w)" for r R
  proof -
    have "q = r" if "q \<in> set (w_groups w)" "fg_ID (group_of q) = gr_id r" for q
      using that \<open>r \<in> set (w_groups w)\<close> assms(2,3) group_of_fields(1) unfolding tables_ok_def
      by (metis (mono_tags, lifting) distinct_map inj_on_def)
    moreover have "fg_ID (group_of r) = gr_id r" using that assms(3) group_of_fields(1) by blast
    ultimately show ?thesis using that unfolding set_gs by blast
  qed
  have same: "needs_disable ?R (group_of r) \<longleftrightarrow> undersized w r" if r: "r \<in> set (w_groups w)" for r
  proof (cases "is_custom r \<and> gr_group_enabled r \<noteq> Some False")
    case True
    have wf: "row_wf r" using assms(3) r by blast
    have "group_of r \<in> set ?cand" using True r group_of_fields(4,5) [OF wf] by (auto simp: order_by_model_def)
    then have "set (row_members r) \<subseteq> set ?all" using group_of_fields(3) [OF wf] by force
    from filter_routable [OF this, of "routable_ids w"] True group_of_fields(3-5) [OF wf]
    show ?thesis by (simp only: needs_disable_def undersized_def) simp
  next
    case False
    then show ?thesis using assms(3) r by (auto simp: needs_disable_def undersized_def group_of_fields(4,5))
  qed
  show ?thesis
  proof (cases "?cand = []")
    case True
    have "\<not> undersized w r" if "r \<in> set (w_groups w)" for r
    proof -
      have "group_of r \<notin> set ?cand" using True by simp
      then show ?thesis using that assms(3) set_gs by (auto simp: undersized_def group_of_fields(4,5))
    qed
    then have "w_groups w = map (\<lambda>r. if undersized w r then disable_row (w_clock w) r else r) (w_groups w)"
      by (intro map_idI [symmetric]) simp
    moreover have "w' = w" using rv True by (simp add: revalidateCustomGroups_def)
    ultimately show ?thesis by simp
  next
    case False
    have "routableMemberIDs ?all w = (Inr (filter (\<lambda>i. i \<in> set ?all) (routable_ids w)), w)"
      by (rule routableMemberIDs_ok [OF assms(1)])
    then have walk: "revalidate_walk ?R ?gs (new_result, w) = (gs', result, w')"
      using rv False by (simp only: revalidateCustomGroups_def Let_def if_False prod.case sum.case)
    have rows: "w_groups w' = map (\<lambda>q. if \<exists>g \<in> set ?gs. fg_ID g = gr_id q \<and> needs_disable ?R g
        then disable_row (w_clock w) q else q) (w_groups w)"
      using revalidate_walk_exact [OF assms(1) walk] by (elim conjE)
    show ?thesis unfolding rows by (rule map_cong [OF refl]) (simp only: hit same)
  qed
qed

subsection \<open>The sync of one model\<close>

text \<open>The cache entry of the base, if there is a live one, is the table's row.\<close>

definition cache_fresh :: "string \<Rightarrow> world \<Rightarrow> bool" where
  "cache_fresh base w \<longleftrightarrow> (\<forall>g. GetCachedFailoverByModel (w_cache w) base (w_clock w) = Some g \<longrightarrow>
     (\<exists>r \<in> set (w_groups w). gr_display_model r = base \<and> scanFailoverGroup r = Inr g))"

definition row_named :: "string \<Rightarrow> world \<Rightarrow> group_row option" where
  "row_named base w = find (\<lambda>r. gr_display_model r = base) (w_groups w)"

lemma row_named_mem:
  "row_named base w = Some r \<Longrightarrow> r \<in> set (w_groups w) \<and> gr_display_model r = base"
  "row_named base w = None \<longleftrightarrow> (\<forall>r \<in> set (w_groups w). gr_display_model r \<noteq> base)"
  by (auto simp: row_named_def find_Some_iff find_None_iff)

lemma row_named_unique:
  assumes "tables_ok w" "row_named base w = Some r" "q \<in> set (w_groups w)" "gr_display_model q = base"
  shows "q = r"
  using assms row_named_mem(1) [OF assms(2)] unfolding tables_ok_def
  by (metis (mono_tags, lifting) distinct_map inj_on_def)

lemma GetByModel_fresh:
  assumes "w_faults w = []" "tables_ok w" "\<forall>r \<in> set (w_groups w). row_wf r" "cache_fresh base w"
  shows "\<exists>c. GetByModel base w = ((case row_named base w of None \<Rightarrow> Inl ErrNoRows
      | Some r \<Rightarrow> Inr (group_of r)), w\<lparr>w_cache := c\<rparr>)"
proof (cases "GetCachedFailoverByModel (w_cache w) base (w_clock w)")
  case (Some g)
  then obtain q where q: "q \<in> set (w_groups w)" "gr_display_model q = base" "scanFailoverGroup q = Inr g"
    using assms(4) by (auto simp: cache_fresh_def)
  then obtain r where r: "row_named base w = Some r" using row_named_mem(2) by (metis option.exhaust)
  have "q = r" using row_named_unique [OF assms(2) r q(1,2)] .
  then have "g = group_of r" using q(3) by (simp add: group_of_def)
  then show ?thesis using Some r by (intro exI [of _ "w_cache w"]) (simp add: GetByModel_def)
next
  case None
  show ?thesis
  proof (cases "row_named base w")
    case None
    with \<open>GetCachedFailoverByModel _ _ _ = None\<close> assms(1) show ?thesis
      by (intro exI [of _ "w_cache w"]) (simp add: GetByModel_def query_row_def row_named_def Let_def)
  next
    case (Some r)
    then have "scanFailoverGroup r = Inr (group_of r)"
      using row_named_mem(1) assms(3) scan_row_wf by blast
    with \<open>GetCachedFailoverByModel _ _ _ = None\<close> Some assms(1) show ?thesis
      by (simp add: GetByModel_def query_row_def row_named_def Let_def) blast
  qed
qed

text \<open>A written row reads back.\<close>

lemma scan_written:
  assumes "gr_priority_order r = OArr ids" "gr_entry_enabled r = TObj m"
  shows "\<exists>g. scanFailoverGroup r = Inr g"
  using assms by (simp add: scanFailoverGroup_def unmarshal_order_def unmarshal_toggles_def)

text \<open>What an auto group should look like after a sync of its members.\<close>

definition synced_row :: "group_row option \<Rightarrow> uuid list \<Rightarrow> string \<Rightarrow> group_row \<Rightarrow> bool" where
  "synced_row old ids base r \<longleftrightarrow>
     gr_display_model r = base \<and> gr_auto_created r = Some True \<and> gr_group_enabled r = Some True \<and>
     gr_auto_disabled_at r = None \<and> gr_floor_disabled_at r = None \<and>
     gr_priority_order r = OArr (case old of None \<Rightarrow> ids | Some q \<Rightarrow> mergePriorityOrder (row_members q) ids) \<and>
     (\<forall>i. row_toggle r i = (if i \<in> set ids
        then Some (case old of None \<Rightarrow> True | Some q \<Rightarrow> (case row_toggle q i of Some b \<Rightarrow> b | None \<Rightarrow> True))
        else None))"

lemma write_auto_group_ok:
  assumes "w_faults w = []" "tables_ok w" "\<forall>r \<in> set (w_groups w). row_wf r"
    "w_uuids w (w_seq w) \<notin> gr_id ` set (w_groups w)"
    "row_named base w = old" "case old of None \<Rightarrow> True | Some r \<Rightarrow> \<not> is_custom r"
    "ex = map_option group_of old"
  shows "\<exists>u w'. write_auto_group ex base ids w = (Inr u, w') \<and> \<not> au_custom u \<and> au_existing u = ex \<and>
    w_faults w' = [] \<and> (\<exists>r \<in> set (w_groups w'). synced_row old ids base r)"
proof -
  define ee where "ee = (case ex of None \<Rightarrow> fold (\<lambda>i m. gm_put i True m) ids []
      | Some g \<Rightarrow> keep_toggles (fg_EntryEnabled g) (fold (\<lambda>i m. gm_put i True m) ids []))"
  define po where "po = (case ex of None \<Rightarrow> ids | Some g \<Rightarrow> mergePriorityOrder (fg_PriorityOrder g) ids)"
  define dn where "dn = (case ex of None \<Rightarrow> None | Some g \<Rightarrow> fg_DisplayName g)"
  define ds where "ds = (case ex of None \<Rightarrow> None
      | Some g \<Rightarrow> if fg_Description g \<noteq> '''' then Some (fg_Description g) else None)"
  have wf_old: "old = Some q \<Longrightarrow> row_wf q" for q using assms(3,5) row_named_mem(1) by blast
  have po: "po = (case old of None \<Rightarrow> ids | Some q \<Rightarrow> mergePriorityOrder (row_members q) ids)"
    using wf_old by (auto simp: po_def assms(7) group_of_fields(3) split: option.splits)
  have ee: "gm_get ee i = (if i \<in> set ids
        then Some (case old of None \<Rightarrow> True | Some q \<Rightarrow> (case row_toggle q i of Some b \<Rightarrow> b | None \<Rightarrow> True))
        else None)" for i
    using wf_old
    by (auto simp: ee_def assms(7) all_on_get keep_toggles_get group_of_fields(6,7) split: option.splits)
  have row: "synced_row old ids base r"
    if "gr_display_model r = base" "gr_auto_created r = Some True" "gr_group_enabled r = Some True"
      "gr_auto_disabled_at r = None" "gr_floor_disabled_at r = None" "gr_priority_order r = OArr po"
      "gr_entry_enabled r = TObj ee" for r
    using that po ee by (simp add: synced_row_def row_toggle_def)
  obtain res w1 where up: "sql_upsert base (OArr po) (TObj ee) True dn ds True w = (res, w1)" by fastforce
  have "(\<exists>g. res = Inr g) \<and> (\<exists>r \<in> set (w_groups w1). synced_row old ids base r)"
  proof (cases old)
    case None
    let ?r = "insert_row (w_uuids w (w_seq w)) base (OArr po) (TObj ee) True dn ds True (w_clock w)"
    have "res = scanFailoverGroup ?r" "w_groups w1 = w_groups w @ [?r]"
      using up None assms(4,5) by (auto simp: sql_upsert_def row_named_def Let_def)
    then show ?thesis using row [of ?r] scan_written [of ?r po ee] by auto
  next
    case (Some q)
    let ?r = "upsert_set (OArr po) (TObj ee) True dn ds True (w_clock w) q"
    have q: "q \<in> set (w_groups w)" "gr_display_model q = base"
      using Some assms(5) row_named_mem(1) by auto
    have "res = scanFailoverGroup ?r"
      "w_groups w1 = map (\<lambda>p. if gr_display_model p = base then ?r else p) (w_groups w)"
      using up Some assms(5,6) by (auto simp: sql_upsert_def row_named_def Let_def is_custom_def)
    moreover have "?r \<in> (\<lambda>p. if gr_display_model p = base then ?r else p) ` set (w_groups w)"
      using q by force
    ultimately show ?thesis using row [of ?r] scan_written [of ?r po ee] q by auto
  qed
  then obtain g where g: "res = Inr g" and r: "\<exists>r \<in> set (w_groups w1). synced_row old ids base r" by blast
  have "UpsertWithConfig base (Some po) (Some ee) (Some True) dn ds (Some True) w =
      (Inr g, w_InvalidateKey (fg_DisplayModel g) w1)"
    using up g assms(1) by (simp add: UpsertWithConfig_def marshal_order_def marshal_toggles_def)
  then have "write_auto_group ex base ids w =
      (Inr \<lparr>au_existing = ex, au_order = po, au_custom = False\<rparr>, w_InvalidateKey (fg_DisplayModel g) w1)"
    unfolding write_auto_group_def Let_def ee_def [symmetric] po_def [symmetric] dn_def [symmetric] ds_def [symmetric]
    by simp
  moreover have "w_faults w1 = []" using sql_upsert_inputs [OF up] assms(1) by simp
  ultimately show ?thesis using r by auto
qed

lemma upsertAutoGroup_ok:
  assumes "w_faults w = []" "tables_ok w" "\<forall>r \<in> set (w_groups w). row_wf r" "cache_fresh base w"
    "w_uuids w (w_seq w) \<notin> gr_id ` set (w_groups w)"
  shows "\<exists>u w'. upsertAutoGroup base ids w = (Inr u, w') \<and> w_faults w' = [] \<and>
    au_existing u = map_option group_of (row_named base w) \<and>
    (case row_named base w of
       Some r \<Rightarrow> if is_custom r then au_custom u \<and> w_groups w' = w_groups w
                 else \<not> au_custom u \<and> (\<exists>r' \<in> set (w_groups w'). synced_row (Some r) ids base r')
     | None \<Rightarrow> \<not> au_custom u \<and> (\<exists>r' \<in> set (w_groups w'). synced_row None ids base r'))"
proof -
  obtain c where g: "GetByModel base w = ((case row_named base w of None \<Rightarrow> Inl ErrNoRows
      | Some r \<Rightarrow> Inr (group_of r)), w\<lparr>w_cache := c\<rparr>)"
    using GetByModel_fresh [OF assms(1-4)] by blast
  let ?w = "w\<lparr>w_cache := c\<rparr>"
  have pre: "w_faults ?w = []" "tables_ok ?w" "\<forall>r \<in> set (w_groups ?w). row_wf r"
    "w_uuids ?w (w_seq ?w) \<notin> gr_id ` set (w_groups ?w)" "row_named base ?w = row_named base w"
    using assms by (simp_all add: tables_ok_def row_named_def)
  show ?thesis
  proof (cases "row_named base w")
    case None
    from write_auto_group_ok [OF pre, of None ids] None g show ?thesis
      by (auto simp: upsertAutoGroup_def)
  next
    case (Some r)
    then have wf: "row_wf r" using row_named_mem(1) assms(3) by blast
    show ?thesis
    proof (cases "is_custom r")
      case True
      then show ?thesis using Some g assms(1) by (simp add: upsertAutoGroup_def group_of_fields(4) [OF wf])
    next
      case False
      from write_auto_group_ok [OF pre, of "Some (group_of r)" ids] Some False g show ?thesis
        by (auto simp: upsertAutoGroup_def group_of_fields(4) [OF wf])
    qed
  qed
qed

lemma deleteAutoGroup_ok:
  assumes "w_faults w = []"
  shows "\<exists>b w'. deleteAutoGroup base w = (Inr b, w') \<and> w_faults w' = [] \<and>
    (\<forall>r \<in> set (w_groups w'). gr_display_model r = base \<longrightarrow> is_custom r)"
  using assms by (auto simp: deleteAutoGroup_def Let_def is_custom_def list_ex_iff)

end
