(* ===== verification/Failover_Sync_All.thy ===== *)
theory Failover_Sync_All
  imports Failover_Correct
begin

text \<open>
  The full sync: which rows its phases can touch whatever fails, and which auto groups it leaves
  when its statements succeed.
\<close>

subsection \<open>Grouping by base name\<close>

lemma baseToModels_get_from:
  "gm_get (fold (\<lambda>m t. gm_put (normalizeBaseModel (mi_modelID m))
      ((case gm_get t (normalizeBaseModel (mi_modelID m)) of None \<Rightarrow> [] | Some ms \<Rightarrow> ms) @ [m]) t) rows t0) b =
   (let ms = filter (\<lambda>m. normalizeBaseModel (mi_modelID m) = b) rows
    in if ms = [] then gm_get t0 b else Some ((case gm_get t0 b of None \<Rightarrow> [] | Some ms \<Rightarrow> ms) @ ms))"
  by (induction rows arbitrary: t0) (auto simp: Let_def)

lemma baseToModels_wf: "gm_wf (baseToModels rows)"
proof -
  have "gm_wf t0 \<Longrightarrow> gm_wf (fold (\<lambda>m t. gm_put (normalizeBaseModel (mi_modelID m))
      ((case gm_get t (normalizeBaseModel (mi_modelID m)) of None \<Rightarrow> [] | Some ms \<Rightarrow> ms) @ [m]) t) rows t0)" for t0
    by (induction rows arbitrary: t0) auto
  then show ?thesis by (simp add: baseToModels_def)
qed

lemma baseToModels_mem:
  assumes "(b, ms) \<in> set (baseToModels rows)"
  shows "ms = filter (\<lambda>m. normalizeBaseModel (mi_modelID m) = b) rows"
proof -
  have "gm_get (baseToModels rows) b = Some ms" using assms baseToModels_wf by (simp add: gm_mem_iff)
  then show ?thesis
    using baseToModels_get_from [of rows "[]" b] by (simp add: baseToModels_def Let_def split: if_splits)
qed

subsection \<open>The phases\<close>

lemma sync_base_tables:
  assumes "tables_ok (ss_world s)"
  shows "tables_ok (ss_world (sync_base bm s)) \<and> same_inputs (ss_world s) (ss_world (sync_base bm s)) \<and>
    custom_rows (ss_world (sync_base bm s)) = custom_rows (ss_world s)"
proof -
  obtain base models where bm: "bm = (base, models)" by (cases bm)
  obtain result1 w1 where d: "deleteUndersizedAutoGroup base (length models) (map mi_providerName models)
      (ss_result s) (ss_world s) = (result1, w1)" by fastforce
  obtain res2 w2 where u: "upsertAutoGroup base (map mi_uuid models) (ss_world s) = (res2, w2)" by fastforce
  have "ss_world (sync_base bm s) = (if length models \<le> 1 then w1 else w2)"
    using d u by (auto simp: sync_base_def bm Let_def split: sum.splits option.splits)
  then show ?thesis
    using deleteUndersizedAutoGroup_tables [OF d assms] upsertAutoGroup_tables [OF u assms] by auto
qed

lemma sync_bases_tables:
  assumes "tables_ok (ss_world s)"
  shows "tables_ok (ss_world (fold sync_base bs s)) \<and> same_inputs (ss_world s) (ss_world (fold sync_base bs s)) \<and>
    custom_rows (ss_world (fold sync_base bs s)) = custom_rows (ss_world s)"
  using assms
proof (induction bs arbitrary: s)
  case (Cons b bs)
  note one = sync_base_tables [OF Cons.prems, of b]
  from Cons.IH [of "sync_base b s"] one show ?case using same_inputs_trans by auto
qed simp

lemma synced_step: "set (ss_syncedBases (sync_base bm s)) =
    set (ss_syncedBases s) \<union> (if length (snd bm) \<le> 1 then {} else {fst bm})"
  by (cases bm) (auto simp: sync_base_def Let_def split: prod.splits sum.splits option.splits)

lemma synced_bases:
  "set (ss_syncedBases (fold sync_base bs s)) = set (ss_syncedBases s) \<union> fst ` {b \<in> set bs. 2 \<le> length (snd b)}"
  by (induction bs arbitrary: s) (auto simp: synced_step not_le)

lemma drop_orphan_tables:
  assumes "drop_orphan S g (result, w) = (result', w')" "tables_ok w"
  shows "tables_ok w' \<and> same_inputs w w' \<and> custom_rows w' = custom_rows w \<and> set (w_groups w') \<subseteq> set (w_groups w)"
proof (cases "fg_AutoCreated g \<and> fg_DisplayModel g \<notin> set S")
  case True
  then obtain res where d: "deleteAutoGroup (fg_DisplayModel g) w = (res, w')"
    using assms(1) by (auto simp: drop_orphan_def split: prod.splits sum.splits bool.splits)
  moreover have "set (w_groups w') \<subseteq> set (w_groups w)"
    using d next_fault_keeps(1) [of w]
    by (auto simp: deleteAutoGroup_def Let_def split: prod.splits option.splits if_splits)
  ultimately show ?thesis using deleteAutoGroup_tables [OF d assms(2)] by blast
next
  case False
  then show ?thesis using assms by (auto simp: drop_orphan_def)
qed

lemma drop_orphans_tables:
  assumes "fold (drop_orphan S) gs (result, w) = (result', w')" "tables_ok w"
  shows "tables_ok w' \<and> same_inputs w w' \<and> custom_rows w' = custom_rows w \<and> set (w_groups w') \<subseteq> set (w_groups w)"
  using assms
proof (induction gs arbitrary: result w)
  case (Cons g gs)
  obtain result1 w1 where one: "drop_orphan S g (result, w) = (result1, w1)" by fastforce
  note t1 = drop_orphan_tables [OF one Cons.prems(2)]
  have "fold (drop_orphan S) gs (result1, w1) = (result', w')" using Cons.prems(1) one by simp
  from Cons.IH [OF this] t1 show ?case using same_inputs_trans by (metis subset_trans)
qed simp

lemma drop_orphans_ok:
  assumes "fold (drop_orphan S) gs (result, w) = (result', w')" "w_faults w = []" "tables_ok w"
  shows "\<forall>r \<in> set (w_groups w'). \<forall>g \<in> set gs. fg_AutoCreated g \<and> fg_DisplayModel g \<notin> set S \<and>
    gr_display_model r = fg_DisplayModel g \<longrightarrow> is_custom r"
  using assms
proof (induction gs arbitrary: result w)
  case (Cons g gs)
  obtain result1 w1 where one: "drop_orphan S g (result, w) = (result1, w1)" by fastforce
  have rest: "fold (drop_orphan S) gs (result1, w1) = (result', w')" using Cons.prems(1) one by simp
  obtain b w2 where d: "deleteAutoGroup (fg_DisplayModel g) w = (Inr b, w2)" "w_faults w2 = []"
    "\<forall>r \<in> set (w_groups w2). gr_display_model r = fg_DisplayModel g \<longrightarrow> is_custom r"
    using deleteAutoGroup_ok [OF Cons.prems(2)] by blast
  have w1: "w1 = (if fg_AutoCreated g \<and> fg_DisplayModel g \<notin> set S then w2 else w)"
    using one d(1) by (auto simp: drop_orphan_def split: bool.splits if_splits)
  have f1: "w_faults w1 = []" using w1 d(2) Cons.prems(2) by simp
  have ok1: "tables_ok w1" using drop_orphan_tables [OF one Cons.prems(3)] by blast
  have "set (w_groups w') \<subseteq> set (w_groups w1)" using drop_orphans_tables [OF rest ok1] by blast
  then have "is_custom r" if "r \<in> set (w_groups w')" "fg_AutoCreated g \<and> fg_DisplayModel g \<notin> set S \<and>
      gr_display_model r = fg_DisplayModel g" for r
    using that d(3) w1 by auto
  with Cons.IH [OF rest f1 ok1] show ?case by auto
qed simp

lemma scan_group_fields:
  assumes "scanFailoverGroup r = Inr g"
  shows "fg_DisplayModel g = gr_display_model r" "fg_AutoCreated g \<longleftrightarrow> \<not> is_custom r"
  using assms by (auto simp: scanFailoverGroup_def is_custom_def is_true_def split: option.splits)

lemma scan_groups_mem:
  "scanFailoverGroups rs = Inr gs \<Longrightarrow> r \<in> set rs \<Longrightarrow> \<exists>g \<in> set gs. scanFailoverGroup r = Inr g"
  by (induction rs arbitrary: gs) (auto split: sum.splits)

lemma ListGroups_mem:
  assumes "ListGroups w = (Inr gs, w')" "r \<in> set (w_groups w)"
  shows "\<exists>g \<in> set gs. fg_DisplayModel g = gr_display_model r \<and> (fg_AutoCreated g \<longleftrightarrow> \<not> is_custom r)"
proof -
  have "scanFailoverGroups (order_by_model (w_groups w)) = Inr gs"
    using assms(1) next_fault_keeps(1) [of w] by (auto simp: ListGroups_def split: prod.splits option.splits)
  from scan_groups_mem [OF this, of r] assms(2)
  obtain g where "g \<in> set gs" "scanFailoverGroup r = Inr g" by (auto simp: order_by_model_def)
  with scan_group_fields [OF this(2)] show ?thesis by (intro bexI [of _ g]) simp_all
qed

subsection \<open>Statement outcomes are only consumed\<close>

lemma UpsertWithConfig_faults:
  "UpsertWithConfig d po ee ge dn ds ac w = (res, w') \<Longrightarrow> w_faults w = [] \<Longrightarrow> w_faults w' = []"
  using sql_upsert_inputs by (fastforce simp: UpsertWithConfig_def Let_def split: prod.splits sum.splits)

lemma GetByModel_faults: "GetByModel m w = (res, w') \<Longrightarrow> w_faults w = [] \<Longrightarrow> w_faults w' = []"
  by (auto simp: GetByModel_def query_row_def Let_def split: option.splits prod.splits sum.splits)

lemma write_auto_group_faults:
  assumes "write_auto_group ex base ids w = (res, w')" "w_faults w = []"
  shows "w_faults w' = []"
proof -
  obtain po ee dn ds res1 w1 where "UpsertWithConfig base po ee (Some True) dn ds (Some True) w = (res1, w1)"
    and "w_faults w' = w_faults w1"
    using assms(1) unfolding write_auto_group_def Let_def
    by (auto split: prod.splits sum.splits db_error.splits)
  with UpsertWithConfig_faults assms(2) show ?thesis by metis
qed

lemma upsertAutoGroup_faults:
  assumes "upsertAutoGroup base ids w = (res, w')" "w_faults w = []"
  shows "w_faults w' = []"
proof -
  obtain res1 w1 where g: "GetByModel base w = (res1, w1)" by fastforce
  have "w_faults w1 = []" using GetByModel_faults [OF g assms(2)] .
  moreover have "w' = w1 \<or> (\<exists>ex res2. write_auto_group ex base ids w1 = (res2, w'))"
    using assms(1) g by (auto simp: upsertAutoGroup_def split: sum.splits if_splits)
  ultimately show ?thesis using write_auto_group_faults by metis
qed

lemma sync_base_faults: "w_faults (ss_world s) = [] \<Longrightarrow> w_faults (ss_world (sync_base bm s)) = []"
proof -
  assume nf: "w_faults (ss_world s) = []"
  obtain base models where bm: "bm = (base, models)" by (cases bm)
  obtain result1 w1 where d: "deleteUndersizedAutoGroup base (length models) (map mi_providerName models)
      (ss_result s) (ss_world s) = (result1, w1)" by fastforce
  obtain res2 w2 where u: "upsertAutoGroup base (map mi_uuid models) (ss_world s) = (res2, w2)" by fastforce
  have "w_faults w1 = []"
    using d nf by (auto simp: deleteUndersizedAutoGroup_def deleteAutoGroup_def Let_def split: if_splits)
  moreover have "ss_world (sync_base bm s) = (if length models \<le> 1 then w1 else w2)"
    using d u by (auto simp: sync_base_def bm Let_def split: sum.splits option.splits)
  ultimately show ?thesis using upsertAutoGroup_faults [OF u nf] by simp
qed

lemma sync_bases_faults: "w_faults (ss_world s) = [] \<Longrightarrow> w_faults (ss_world (fold sync_base bs s)) = []"
  by (induction bs arbitrary: s) (simp_all add: sync_base_faults)

subsection \<open>The whole sync\<close>

text \<open>A run of the full sync: either it stops at a failed read, or it goes through its phases.\<close>

lemma SyncAllModels_cases:
  assumes "SyncAllModels visit w = (res, w')"
  obtains (read_failed) e where "res = Inl e" "w_groups w' = w_groups w" "same_inputs w w'"
    | (list_failed) w1 s e where "w1 = w\<lparr>w_faults := tl (w_faults w)\<rparr>"
        "s = fold sync_base (visit (baseToModels (sync_rows w)))
          \<lparr>ss_world = w1, ss_result = new_result, ss_syncedBases = [], ss_changed = []\<rparr>"
        "res = Inl e" "w_groups w' = w_groups (ss_world s)"
    | (completed) w1 s gs w2 result3 w3 result4 w4 w5 where "w1 = w\<lparr>w_faults := tl (w_faults w)\<rparr>"
        "s = fold sync_base (visit (baseToModels (sync_rows w)))
          \<lparr>ss_world = w1, ss_result = new_result, ss_syncedBases = [], ss_changed = []\<rparr>"
        "ListGroups (ss_world s) = (Inr gs, w2)"
        "fold (drop_orphan (ss_syncedBases s)) gs (ss_result s, w2) = (result3, w3)"
        "pruneStaleEntries (filter (\<lambda>g. fg_DisplayModel g \<notin> set (map dg_DisplayModel (DeletedGroups result3))) gs)
          result3 w3 = (result4, w4)"
        "w_groups w5 = w_groups w4 \<and> same_inputs w4 w5 \<or>
          (\<exists>gs' w' result' gs'' result''. w_groups w' = w_groups w4 \<and> same_inputs w4 w' \<and>
             revalidateCustomGroups gs' result' w' = (gs'', result'', w5))"
        "w_groups w' = w_groups w5"
proof -
  obtain f w1 where f: "next_fault w = (f, w1)" by fastforce
  note w1 = next_fault_Some [OF f]
  note keep = next_fault_keeps [OF f]
  show thesis
  proof (cases f)
    case (Some e)
    with assms f keep read_failed show thesis by (auto simp: SyncAllModels_def same_inputs_def)
  next
    case None
    define s where "s = fold sync_base (visit (baseToModels (sync_rows w)))
        \<lparr>ss_world = w1, ss_result = new_result, ss_syncedBases = [], ss_changed = []\<rparr>"
    have rows: "sync_rows w1 = sync_rows w" using keep by (simp add: sync_rows_def enabled_rows_def)
    obtain lres w2 where l: "ListGroups (ss_world s) = (lres, w2)" by fastforce
    show thesis
    proof (cases lres)
      case (Inl e)
      have "res = Inl (DbError (''list failover groups: '' @ err_text e))" "w' = w2"
        using assms f None l Inl by (simp_all add: SyncAllModels_def Let_def rows s_def [symmetric])
      then show thesis
        using list_failed [OF w1 s_def] ListGroups_keeps [OF l] by simp
    next
      case (Inr gs)
      obtain result3 w3 where d: "fold (drop_orphan (ss_syncedBases s)) gs (ss_result s, w2) = (result3, w3)"
        by fastforce
      obtain result4 w4 where p: "pruneStaleEntries
          (filter (\<lambda>g. fg_DisplayModel g \<notin> set (map dg_DisplayModel (DeletedGroups result3))) gs)
          result3 w3 = (result4, w4)" by fastforce
      obtain lres5 wl where l5: "ListGroups w4 = (lres5, wl)" by fastforce
      note kl = ListGroups_keeps [OF l5]
      have al: "w_groups wl = w_groups w4" "same_inputs w4 wl" using kl by (simp_all add: same_inputs_def)
      show thesis
      proof (cases lres5)
        case Il: (Inl e)
        have "w' = clearFleetAutoEchoIfStaled (ss_changed s @ map dg_DisplayModel (DeletedGroups result4)) wl"
          using assms f None l Inr d p l5 Il by (simp add: SyncAllModels_def Let_def rows s_def [symmetric])
        then show thesis
          using completed [OF w1 s_def l [unfolded Inr] d p, of wl] al clearFleetAutoEchoIfStaled_keeps by auto
      next
        case Ir: (Inr gs5)
        obtain gs6 result6 w6 where r: "revalidateCustomGroups gs5 result4 wl = (gs6, result6, w6)"
          by (metis prod_cases3)
        have "w' = clearFleetAutoEchoIfStaled (ss_changed s @ map dg_DisplayModel (DeletedGroups result6)) w6"
          using assms f None l Inr d p l5 Ir r by (simp add: SyncAllModels_def Let_def rows s_def [symmetric])
        then show thesis
          using completed [OF w1 s_def l [unfolded Inr] d p, of w6] al r clearFleetAutoEchoIfStaled_keeps by blast
      qed
    qed
  qed
qed

lemma live_ids_same: "same_inputs w w' \<Longrightarrow> live_ids w' = live_ids w"
  by (simp add: same_inputs_def live_ids_def)

text \<open>From the listing on: the custom rows are maintained, and the rows that remain were there.\<close>

lemma sync_tail:
  assumes "fold (drop_orphan S) gs (r2, w2) = (result3, w3)" "tables_ok w2"
    "pruneStaleEntries gs' result3 w3 = (result4, w4)"
    "w_groups w5 = w_groups w4 \<and> same_inputs w4 w5 \<or>
      (\<exists>gs' w' result' gs'' result''. w_groups w' = w_groups w4 \<and> same_inputs w4 w' \<and>
         revalidateCustomGroups gs' result' w' = (gs'', result'', w5))"
  shows "tables_ok w5 \<and> survives (live_ids w2) (w_groups w3) (w_groups w5) \<and> custom_rows w3 = custom_rows w2"
proof -
  note t3 = drop_orphans_tables [OF assms(1,2)]
  then have t4: "tables_ok w4 \<and> same_inputs w3 w4 \<and> survives (live_ids w3) (w_groups w3) (w_groups w4)"
    using pruneStaleEntries_rows [OF assms(3)] by blast
  have L: "live_ids w3 = live_ids w2" using t3 live_ids_same by blast
  from assms(4) have "tables_ok w5 \<and> survives (live_ids w2) (w_groups w4) (w_groups w5)"
  proof
    assume "w_groups w5 = w_groups w4 \<and> same_inputs w4 w5"
    then show ?thesis using t4 by (simp add: tables_ok_def)
  next
    assume "\<exists>gs' w' result' gs'' result''. w_groups w' = w_groups w4 \<and> same_inputs w4 w' \<and>
         revalidateCustomGroups gs' result' w' = (gs'', result'', w5)"
    then obtain gs' w' result' gs'' result'' where w': "w_groups w' = w_groups w4"
      and r: "revalidateCustomGroups gs' result' w' = (gs'', result'', w5)" by blast
    have "tables_ok w'" using t4 w' by (simp add: tables_ok_def)
    from revalidateCustomGroups_survives [OF r this] w' show ?thesis by simp
  qed
  with t4 t3 L show ?thesis using survives_trans by metis
qed

lemma SyncAllModels_custom:
  assumes "SyncAllModels visit w = (res, w')" "tables_ok w" "r \<in> set (w_groups w)" "is_custom r"
  shows "(\<exists>r' \<in> set (w_groups w'). maintained (live_ids w) r r') \<or> length (live_members (live_ids w) r) \<le> 1"
  using assms(1)
proof (cases rule: SyncAllModels_cases)
  case (read_failed e)
  with assms(3) show ?thesis by (intro disjI1 bexI [of _ r]) simp_all
next
  case (list_failed w1 s e)
  have "tables_ok w1" using assms(2) list_failed(1) by (simp add: tables_ok_def)
  then have "custom_rows (ss_world s) = custom_rows w1"
    using sync_bases_tables [of "\<lparr>ss_world = w1, ss_result = new_result, ss_syncedBases = [], ss_changed = []\<rparr>"]
    by (simp add: list_failed(2))
  then have "r \<in> set (custom_rows (ss_world s))"
    using assms(3,4) list_failed(1) by (simp add: custom_rows_def)
  then show ?thesis using list_failed(4) by (intro disjI1 bexI [of _ r]) (simp_all add: custom_rows_def)
next
  case (completed w1 s gs w2 result3 w3 result4 w4 w5)
  have ok1: "tables_ok w1" using assms(2) completed(1) by (simp add: tables_ok_def)
  note t = sync_bases_tables [of "\<lparr>ss_world = w1, ss_result = new_result, ss_syncedBases = [], ss_changed = []\<rparr>",
      simplified, OF ok1, of "visit (baseToModels (sync_rows w))", folded completed(2)]
  have w2: "w_groups w2 = w_groups (ss_world s)" "live_ids w2 = live_ids w"
    using ListGroups_keeps [OF completed(3)] t completed(1) by (simp_all add: live_ids_def same_inputs_def)
  then have ok2: "tables_ok w2" using t by (simp add: tables_ok_def)
  note tail = sync_tail [OF completed(4) ok2 completed(5,6)]
  have "custom_rows w3 = custom_rows w" using tail t w2 completed(1) by (simp add: custom_rows_def)
  moreover have "r \<in> set (custom_rows w)" using assms(3,4) by (simp add: custom_rows_def)
  ultimately have "r \<in> set (custom_rows w3)" by simp
  then have "r \<in> set (w_groups w3)" by (simp add: custom_rows_def)
  then show ?thesis using tail unfolding survives_def w2(2) completed(7) by blast
qed

lemma SyncAllModels_no_orphans:
  assumes "SyncAllModels visit w = (Inr result, w')" "w_faults w = []" "tables_ok w"
    "set (visit (baseToModels (sync_rows w))) \<subseteq> set (baseToModels (sync_rows w))"
    "r \<in> set (w_groups w')" "\<not> is_custom r"
  shows "2 \<le> length (filter (\<lambda>m. normalizeBaseModel (mi_modelID m) = gr_display_model r) (sync_rows w))"
  using assms(1)
proof (cases rule: SyncAllModels_cases)
  case (completed w1 s gs w2 result3 w3 result4 w4 w5)
  let ?s0 = "\<lparr>ss_world = w1, ss_result = new_result, ss_syncedBases = [], ss_changed = []\<rparr>"
  have ok1: "tables_ok w1" using assms(3) completed(1) by (simp add: tables_ok_def)
  note t = sync_bases_tables [of ?s0, simplified, OF ok1, of "visit (baseToModels (sync_rows w))", folded completed(2)]
  have nf: "w_faults (ss_world s) = []"
    using sync_bases_faults [of ?s0] assms(2) by (simp add: completed(1,2))
  have w2: "w_groups w2 = w_groups (ss_world s)" "w_faults w2 = []"
    using ListGroups_keeps [OF completed(3)] nf by simp_all
  then have ok2: "tables_ok w2" using t by (simp add: tables_ok_def)
  note tail = sync_tail [OF completed(4) ok2 completed(5,6)]
  from tail assms(5) obtain q where q: "q \<in> set (w_groups w3)" "gr_display_model r = gr_display_model q"
    "gr_auto_created r = gr_auto_created q" unfolding survives_def completed(7) by metis
  have auto: "\<not> is_custom q" using q(3) assms(6) by (simp add: is_custom_def)
  have "q \<in> set (w_groups (ss_world s))"
    using q(1) drop_orphans_tables [OF completed(4) ok2] w2(1) by auto
  then obtain g where g: "g \<in> set gs" "fg_DisplayModel g = gr_display_model q" "fg_AutoCreated g"
    using ListGroups_mem [OF completed(3)] auto by blast
  have "fg_DisplayModel g \<in> set (ss_syncedBases s)"
    using drop_orphans_ok [OF completed(4) w2(2) ok2] q(1) g auto by metis
  then obtain b where b: "b \<in> set (visit (baseToModels (sync_rows w)))" "2 \<le> length (snd b)"
    "fst b = gr_display_model r"
    using synced_bases [of "visit (baseToModels (sync_rows w))" ?s0] g(2) q(2) by (auto simp: completed(2))
  then have "(gr_display_model r, snd b) \<in> set (baseToModels (sync_rows w))"
    using assms(4) by (metis prod.collapse subsetD)
  from baseToModels_mem [OF this] b(2) show ?thesis by simp
qed auto

end
