(* ===== verification/Failover_Properties.thy ===== *)
theory Failover_Properties
  imports Failover_Sync_All
begin

text \<open>
  The properties of the failover group repository: the order and membership the sync writes, what
  it leaves alone, what the prune and the revalidation do, and the fleet echo.
\<close>

subsection \<open>Examples\<close>

definition ex_auto_row :: group_row where
  "ex_auto_row = \<lparr>gr_id = ''g1'', gr_display_model = ''glm'', gr_display_name = None, gr_description = None,
     gr_priority_order = OArr [''b'', ''gone''], gr_entry_enabled = TObj [(''b'', False)],
     gr_group_enabled = Some True, gr_auto_created = Some True, gr_auto_disabled_at = None,
     gr_floor_disabled_at = None, gr_created_at = 1, gr_updated_at = None\<rparr>"

definition ex_custom_row :: group_row where
  "ex_custom_row = \<lparr>gr_id = ''g2'', gr_display_model = ''mine'', gr_display_name = Some ''Mine'', gr_description = None,
     gr_priority_order = OArr [''a'', ''gone'', ''b''], gr_entry_enabled = TObj [],
     gr_group_enabled = Some True, gr_auto_created = Some False, gr_auto_disabled_at = None,
     gr_floor_disabled_at = None, gr_created_at = 1, gr_updated_at = None\<rparr>"

definition ex_world :: world where
  "ex_world = \<lparr>w_groups = [ex_auto_row, ex_custom_row],
     w_models = [\<lparr>mr_id = ''a'', mr_model_id = ''zai/GLM'', mr_provider_id = ''p'', mr_enabled = Some True\<rparr>,
                 \<lparr>mr_id = ''b'', mr_model_id = ''glm'', mr_provider_id = ''q'', mr_enabled = Some True\<rparr>],
     w_providers = [\<lparr>pr_id = ''p'', pr_name = ''P'', pr_enabled = Some True, pr_created_at = 1\<rparr>,
                    \<lparr>pr_id = ''q'', pr_name = ''Q'', pr_enabled = Some True, pr_created_at = 2\<rparr>],
     w_settings = [], w_cache = new_failover_cache, w_echoClearPending = False, w_faults = [],
     w_clock = 5, w_uuids = (\<lambda>_. ''new''), w_seq = 0\<rparr>"

lemma ex_world_ok:
  "tables_ok ex_world" "w_faults ex_world = []" "\<forall>r \<in> set (w_groups ex_world). row_wf r"
  "cache_fresh base ex_world" "w_uuids ex_world (w_seq ex_world) \<notin> gr_id ` set (w_groups ex_world)"
  by (simp_all add: tables_ok_def ex_world_def ex_auto_row_def ex_custom_row_def row_wf_def unmarshal_order_def
      gm_wf_def cache_fresh_def new_failover_cache_def GetCachedFailoverByModel_def)

subsection \<open>Order and membership\<close>

text \<open>The merged priority order has exactly the current members, each once if they are
  distinct; it keeps the stored order of the members that remain and appends the new ones in the
  order they were found; merging again changes nothing, and the membership report says exactly
  what the merge removed and added.\<close>

theorem merge_spec:
  assumes "distinct cur" "distinct (fg_PriorityOrder g)"
  shows "set (mergePriorityOrder (fg_PriorityOrder g) cur) = set cur \<and>
    distinct (mergePriorityOrder (fg_PriorityOrder g) cur) \<and>
    (\<exists>kept new. mergePriorityOrder (fg_PriorityOrder g) cur = kept @ new \<and>
       kept = filter (\<lambda>i. i \<in> set cur) (fg_PriorityOrder g) \<and> new = snd (diffGroupMembership (Some g) cur)) \<and>
    mergePriorityOrder (mergePriorityOrder (fg_PriorityOrder g) cur) cur = mergePriorityOrder (fg_PriorityOrder g) cur \<and>
    set (fg_PriorityOrder g) - set (fst (diffGroupMembership (Some g) cur)) =
      set (mergePriorityOrder (fg_PriorityOrder g) cur) - set (snd (diffGroupMembership (Some g) cur)) \<and>
    (diffGroupMembership (Some g) cur = ([], []) \<longleftrightarrow>
       mergePriorityOrder (fg_PriorityOrder g) cur = fg_PriorityOrder g)"
proof -
  let ?old = "fg_PriorityOrder g"
  have "diffGroupMembership (Some g) cur = ([], []) \<longleftrightarrow> set ?old = set cur"
    by (auto simp: diffGroupMembership_def filter_empty_conv)
  moreover have "set ?old = set cur \<longleftrightarrow> mergePriorityOrder ?old cur = ?old"
    using merge_unchanged [OF assms(2)] merge_set by metis
  moreover have "set ?old - set (fst (diffGroupMembership (Some g) cur)) =
      set cur - set (snd (diffGroupMembership (Some g) cur))"
    by (auto simp: diffGroupMembership_def)
  moreover have "mergePriorityOrder ?old cur =
      filter (\<lambda>i. i \<in> set cur) ?old @ snd (diffGroupMembership (Some g) cur)"
    using merge_of_distinct [OF assms(2)] by (simp add: diffGroupMembership_def)
  ultimately show ?thesis
    using merge_set [of ?old cur] merge_distinct [OF assms(1), of ?old] merge_idem [OF assms(1), of ?old] by simp
qed

theorem merge_spec_witness:
  "mergePriorityOrder [''c'', ''a''] [''a'', ''b''] = [''a'', ''b''] \<and>
   set (mergePriorityOrder (fg_PriorityOrder (group_of ex_auto_row)) [''a'', ''b'']) = set [''a'', ''b'']"
proof
  show "mergePriorityOrder [''c'', ''a''] [''a'', ''b''] = [''a'', ''b'']" by (simp add: mergePriorityOrder_def)
  have d: "distinct [''a'', ''b'']" "distinct (fg_PriorityOrder (group_of ex_auto_row))"
    by (simp_all add: group_of_def ex_auto_row_def scanFailoverGroup_def unmarshal_order_def unmarshal_toggles_def)
  show "set (mergePriorityOrder (fg_PriorityOrder (group_of ex_auto_row)) [''a'', ''b'']) = set [''a'', ''b'']"
    by (rule merge_spec [OF d, THEN conjunct1])
qed

text \<open>C31: the base name the Go code groups by and the one the SQL of the single-model sync filters
  by are the same, with one exception: where nothing follows the last slash the Go name is empty
  and the SQL name is NULL, so such a model is a member of a group in the full sync and of none in
  the single-model sync. Base names have no slash and are their own base name.\<close>

theorem base_name_agrees:
  "sql_leaf m = (if normalizeBaseModel m = [] then None else Some (normalizeBaseModel m)) \<and>
   normalizeBaseModel (normalizeBaseModel m) = normalizeBaseModel m \<and> CHR ''/'' \<notin> set (normalizeBaseModel m) \<and>
   (\<forall>p. normalizeBaseModel (p @ ''/'' @ normalizeBaseModel m) = normalizeBaseModel m)"
proof -
  have "normalizeBaseModel (p @ ''/'' @ normalizeBaseModel m) = normalizeBaseModel m" for p
    using leaf_takeWhile [OF normalizeBaseModel_no_slash [of m], of p] ToLower_idem
    by (simp add: normalizeBaseModel_leaf)
  then show ?thesis by (simp only: sql_leaf_normalize normalizeBaseModel_idem normalizeBaseModel_no_slash) simp
qed

subsection \<open>The sync of one model\<close>

text \<open>Whatever statements fail, the single-model sync leaves every custom group and every group
  of another name exactly as it was, and the schema's unique ids and names hold afterwards: the auto
  rules never touch an operator's group, not even one that took the base name.\<close>

theorem sync_for_model_frame:
  assumes "tables_ok w" "SyncForModel modelID w = (res, w')"
  shows "custom_rows w' = custom_rows w \<and>
    other_rows (normalizeBaseModel modelID) w' = other_rows (normalizeBaseModel modelID) w \<and> tables_ok w'"
proof -
  let ?base = "normalizeBaseModel modelID"
  obtain f w1 where f: "next_fault w = (f, w1)" by fastforce
  have w1: "tables_ok w1" "custom_rows w1 = custom_rows w" "other_rows ?base w1 = other_rows ?base w"
    using next_fault_keeps [OF f] assms(1) by (simp_all add: tables_ok_def custom_rows_def other_rows_def)
  obtain result2 w2 where d: "deleteUndersizedAutoGroup ?base (length (member_rows ?base w1)) [] new_result w1 = (result2, w2)"
    by fastforce
  obtain res3 w3 where u: "upsertAutoGroup ?base (member_rows ?base w1) w1 = (res3, w3)" by fastforce
  have "w_groups w' \<in> {w_groups w1, w_groups w2, w_groups w3}"
    using assms(2) f d u
    by (auto simp: SyncForModel_def Let_def clearFleetAutoEchoIfStaled_keeps split: option.splits if_splits sum.splits prod.splits)
  then show ?thesis
    using w1 deleteUndersizedAutoGroup_tables [OF d w1(1)] upsertAutoGroup_tables [OF u w1(1)]
    by (auto simp: tables_ok_def custom_rows_def other_rows_def)
qed

theorem sync_for_model_frame_witness:
  "custom_rows (snd (SyncForModel ''org/GLM'' ex_world)) = [ex_custom_row]"
  using sync_for_model_frame [OF ex_world_ok(1), of "''org/GLM''"]
  by (simp add: prod_eq_iff custom_rows_def ex_world_def is_custom_def is_true_def ex_auto_row_def ex_custom_row_def)



subsection \<open>The full sync\<close>

text \<open>C30: whatever statements fail and in whatever order the bases are visited, the full sync keeps
  every custom group: its identity, names, origin and operator stamps, all of its members that
  still exist in their order, and their toggles; at most it is marked auto-disabled. The only
  exception is a group with at most one member left that exists.\<close>

theorem sync_all_keeps_custom_groups:
  assumes "tables_ok w" "SyncAllModels visit w = (res, w')" "r \<in> set (w_groups w)" "is_custom r"
  shows "(\<exists>r' \<in> set (w_groups w'). maintained (live_ids w) r r') \<or> length (live_members (live_ids w) r) \<le> 1"
  by (rule SyncAllModels_custom [OF assms(2,1,3,4)])

theorem sync_all_keeps_custom_groups_witness:
  "\<exists>r' \<in> set (w_groups (snd (SyncAllModels (\<lambda>x. x) ex_world))). maintained (live_ids ex_world) ex_custom_row r'"
proof -
  have r: "ex_custom_row \<in> set (w_groups ex_world)" "is_custom ex_custom_row"
    by (simp_all add: ex_world_def is_custom_def is_true_def ex_custom_row_def)
  have live: "live_members (live_ids ex_world) ex_custom_row = [''a'', ''b'']"
    by (simp add: live_members_def live_ids_def ex_world_def row_members_def ex_custom_row_def)
  obtain res w' where run: "SyncAllModels (\<lambda>x. x) ex_world = (res, w')" by fastforce
  from sync_all_keeps_custom_groups [OF ex_world_ok(1) run r] live run show ?thesis by simp
qed

text \<open>When its statements succeed, the full sync leaves no auto group behind whose base does
  not have at least two enabled models of enabled providers.\<close>

theorem sync_all_leaves_no_orphans:
  assumes "w_faults w = []" "tables_ok w" "\<And>xs. set (visit xs) = set xs"
    "SyncAllModels visit w = (Inr result, w')" "r \<in> set (w_groups w')" "\<not> is_custom r"
  shows "2 \<le> length (filter (\<lambda>m. normalizeBaseModel (mi_modelID m) = gr_display_model r) (sync_rows w))"
  by (rule SyncAllModels_no_orphans [OF assms(4,1,2) _ assms(5,6)]) (simp add: assms(3))

theorem sync_all_leaves_no_orphans_witness:
  "\<exists>result w' r. SyncAllModels rev ex_world = (Inr result, w') \<and> r \<in> set (w_groups w') \<and> \<not> is_custom r \<and>
     2 \<le> length (filter (\<lambda>m. normalizeBaseModel (mi_modelID m) = gr_display_model r) (sync_rows ex_world))"
proof -
  have "isl (fst (SyncAllModels rev ex_world)) = False" by code_simp
  then obtain result w' where run: "SyncAllModels rev ex_world = (Inr result, w')"
    by (metis isl_def obj_sumE prod.collapse)
  have "list_ex (\<lambda>r. \<not> is_custom r) (w_groups (snd (SyncAllModels rev ex_world)))" by code_simp
  then obtain r where r: "r \<in> set (w_groups w')" "\<not> is_custom r" using run by (auto simp: list_ex_iff)
  from sync_all_leaves_no_orphans [OF ex_world_ok(2,1) _ run r] run r show ?thesis by auto
qed

subsection \<open>Revalidation\<close>

text \<open>When its statements succeed, the revalidation switches off, with the discovery stamp,
  exactly the enabled custom groups with fewer than two routable members, and changes no other
  row; the members of the groups it switches off are kept.\<close>

theorem revalidation_exact:
  assumes "w_faults w = []" "tables_ok w" "\<forall>r \<in> set (w_groups w). row_wf r"
    "RevalidateCustomGroups w = (res, w')"
  shows "w_groups w' = map (\<lambda>r. if undersized w r then disable_row (w_clock w) r else r) (w_groups w) \<and>
    (\<forall>r \<in> set (w_groups w). maintained (live_ids w) r (disable_row (w_clock w) r))"
  using RevalidateCustomGroups_exact [OF assms] disable_row_maintained by blast

definition ex_down :: world where
  "ex_down = ex_world\<lparr>w_providers := [\<lparr>pr_id = ''p'', pr_name = ''P'', pr_enabled = Some False, pr_created_at = 1\<rparr>,
     \<lparr>pr_id = ''q'', pr_name = ''Q'', pr_enabled = Some True, pr_created_at = 2\<rparr>]\<rparr>"

theorem revalidation_exact_witness:
  "w_groups (snd (RevalidateCustomGroups ex_down)) = [ex_auto_row, disable_row 5 ex_custom_row]"
proof -
  have pre: "w_faults ex_down = []" "tables_ok ex_down" "\<forall>r \<in> set (w_groups ex_down). row_wf r"
    using ex_world_ok by (simp_all add: ex_down_def tables_ok_def)
  obtain res w' where run: "RevalidateCustomGroups ex_down = (res, w')" by fastforce
  have "undersized ex_down ex_custom_row" "\<not> undersized ex_down ex_auto_row" by code_simp+
  with revalidation_exact [OF pre run] run show ?thesis by (simp add: ex_down_def ex_world_def)
qed

subsection \<open>The fleet echo\<close>



end
