(* ===== verification/Inflight.thy ===== *)
theory Inflight
  imports Hotel_Prelude
begin

text \<open>
  The adaptive in-flight limiter (\<open>internal/proxy/inflight.go\<close>): per provider, how many requests
  may be between send and last byte. The allowance is learned: cut on a saturated 429, grown by
  clean completions, forgotten after a quiet stretch; the operator's ceiling sits on top. The
  notify channel is its number: closing it and making a new one advances the number, and the
  channels below it are the closed ones. A nil limiter is \<open>None\<close>.
\<close>

record inflightWindow =
  iw_limit :: int
  iw_inflight :: int
  iw_goodRuns :: int
  iw_lastCut :: instant

record inflightLimiter =
  il_windows :: "inflightWindow gomap"
  il_notify :: nat

definition defaultInflightGrowAfter :: int where "defaultInflightGrowAfter = 20"

definition defaultInflightForgetAfter :: duration where "defaultInflightForgetAfter = 10 * minute"

definition newInflightLimiter :: inflightLimiter where
  "newInflightLimiter = \<lparr>il_windows = [], il_notify = 0\<rparr>"

definition zeroWindow :: inflightWindow where
  "zeroWindow = \<lparr>iw_limit = 0, iw_inflight = 0, iw_goodRuns = 0, iw_lastCut = 0\<rparr>"

definition effectiveLimit :: "int \<Rightarrow> int \<Rightarrow> int" where
  "effectiveLimit learned ceil' =
     (if ceil' \<le> 0 then learned
      else if learned \<le> 0 \<or> ceil' < learned then ceil'
      else learned)"

text \<open>The window of a provider, created on first use.\<close>

definition window :: "inflightLimiter \<Rightarrow> string \<Rightarrow> inflightWindow \<times> inflightLimiter" where
  "window l providerID =
     (case gm_get (il_windows l) providerID of
        Some w \<Rightarrow> (w, l)
      | None \<Rightarrow> (zeroWindow, l\<lparr>il_windows := gm_put providerID zeroWindow (il_windows l)\<rparr>))"

definition setWindow :: "inflightLimiter \<Rightarrow> string \<Rightarrow> inflightWindow \<Rightarrow> inflightLimiter" where
  "setWindow l providerID w = l\<lparr>il_windows := gm_put providerID w (il_windows l)\<rparr>"

definition tryAcquire :: "inflightLimiter option \<Rightarrow> string \<Rightarrow> int \<Rightarrow> bool \<times> inflightLimiter option" where
  "tryAcquire lim providerID ceil' =
     (case lim of
        None \<Rightarrow> (True, None)
      | Some l \<Rightarrow>
          (let (w, l) = window l providerID; limit = effectiveLimit (iw_limit w) ceil'
           in if limit > 0 \<and> iw_inflight w \<ge> limit then (False, Some l)
              else (True, Some (setWindow l providerID (w\<lparr>iw_inflight := iw_inflight w + 1\<rparr>)))))"

definition canAdmit :: "inflightLimiter option \<Rightarrow> string \<Rightarrow> int \<Rightarrow> bool \<times> inflightLimiter option" where
  "canAdmit lim providerID ceil' =
     (case lim of
        None \<Rightarrow> (True, None)
      | Some l \<Rightarrow>
          (let (w, l) = window l providerID; limit = effectiveLimit (iw_limit w) ceil'
           in (limit \<le> 0 \<or> iw_inflight w < limit, Some l)))"

datatype slotOutcome = slotUnclean | slotClean | slotNeutral

datatype ErrorKind = KindClientDisconnect | KindProviderError | KindProviderModelGone
  | KindProviderNotEntitled | KindProviderBadRequest | KindProviderSaturated
  | KindProviderQuotaExhausted | KindProviderTimeout | KindFailoverTimeout | KindRetryTimeout
  | KindHedgeSuperseded | KindInternal | KindValidation | KindAuth

fun slotOutcomeFor :: "ErrorKind \<Rightarrow> slotOutcome" where
  "slotOutcomeFor KindClientDisconnect = slotNeutral"
| "slotOutcomeFor KindHedgeSuperseded = slotNeutral"
| "slotOutcomeFor KindInternal = slotNeutral"
| "slotOutcomeFor KindValidation = slotNeutral"
| "slotOutcomeFor _ = slotUnclean"

text \<open>What a release does to a capped window.\<close>

definition settle_window :: "inflightWindow \<Rightarrow> slotOutcome \<Rightarrow> int \<Rightarrow> duration \<Rightarrow> instant \<Rightarrow> inflightWindow" where
  "settle_window w outcome growAfter forgetAfter now =
     (let w = (if iw_inflight w > 0 then w\<lparr>iw_inflight := iw_inflight w - 1\<rparr> else w)
      in if iw_limit w > 0
         then (if time_sub now (iw_lastCut w) \<ge> forgetAfter then w\<lparr>iw_limit := 0, iw_goodRuns := 0\<rparr>
               else if outcome = slotClean
               then (let w = w\<lparr>iw_goodRuns := iw_goodRuns w + 1\<rparr>
                     in if iw_goodRuns w \<ge> growAfter
                        then w\<lparr>iw_limit := iw_limit w + 1, iw_goodRuns := 0\<rparr> else w)
               else if outcome = slotUnclean then w\<lparr>iw_goodRuns := 0\<rparr>
               else w)
         else w)"

definition release ::
    "inflightLimiter option \<Rightarrow> string \<Rightarrow> slotOutcome \<Rightarrow> int \<Rightarrow> duration \<Rightarrow> instant \<Rightarrow> inflightLimiter option" where
  "release lim providerID outcome growAfter forgetAfter now =
     (case lim of
        None \<Rightarrow> None
      | Some l \<Rightarrow>
          (let growAfter = (if growAfter \<le> 0 then defaultInflightGrowAfter else growAfter);
               forgetAfter = (if forgetAfter \<le> 0 then defaultInflightForgetAfter else forgetAfter);
               (w, l) = window l providerID;
               l = setWindow l providerID (settle_window w outcome growAfter forgetAfter now)
           in Some (l\<lparr>il_notify := il_notify l + 1\<rparr>)))"

definition cut :: "inflightLimiter option \<Rightarrow> string \<Rightarrow> duration \<Rightarrow> instant \<Rightarrow> inflightLimiter option" where
  "cut lim providerID retryAfter now =
     (case lim of
        None \<Rightarrow> None
      | Some l \<Rightarrow>
          (let (w, l) = window l providerID;
               newLimit = max 1 (iw_inflight w);
               w = (if iw_limit w = 0 \<or> newLimit < iw_limit w then w\<lparr>iw_limit := newLimit\<rparr> else w);
               w = w\<lparr>iw_goodRuns := 0, iw_lastCut := now\<rparr>;
               w = (if retryAfter > 0 then w\<lparr>iw_lastCut := time_add (iw_lastCut w) retryAfter\<rparr> else w)
           in Some (setWindow l providerID w)))"

definition hintFull :: "inflightLimiter option \<Rightarrow> string \<Rightarrow> instant \<Rightarrow> inflightLimiter option" where
  "hintFull lim providerID now =
     (case lim of
        None \<Rightarrow> None
      | Some l \<Rightarrow>
          (let (w, l) = window l providerID; newLimit = max 1 (iw_inflight w)
           in if iw_limit w = 0 \<or> newLimit < iw_limit w
              then Some (setWindow l providerID (w\<lparr>iw_limit := newLimit, iw_goodRuns := 0, iw_lastCut := now\<rparr>))
              else Some l))"

definition snapshot :: "inflightLimiter option \<Rightarrow> (string \<times> int \<times> int) list" where
  "snapshot lim = (case lim of
     None \<Rightarrow> [] | Some l \<Rightarrow> map (\<lambda>(i, w). (i, iw_limit w, iw_inflight w)) (il_windows l))"

subsection \<open>Slots\<close>

text \<open>One attempt's admission: the provider its \<open>fire\<close> releases, whether its \<open>sync.Once\<close> has run,
  and the verdict hold.\<close>

record attemptSlot =
  as_provider :: string
  as_fired :: bool
  as_held :: bool

record inflightRelease =
  ir_clean :: bool
  ir_onEOF :: bool

definition settle ::
    "attemptSlot \<Rightarrow> slotOutcome \<Rightarrow> int \<Rightarrow> duration \<Rightarrow> instant \<Rightarrow> inflightLimiter option \<Rightarrow>
     attemptSlot \<times> inflightLimiter option" where
  "settle s outcome growAfter forgetAfter now lim =
     (if as_fired s then (s, lim)
      else (s\<lparr>as_fired := True\<rparr>, release lim (as_provider s) outcome growAfter forgetAfter now))"

definition holdVerdict :: "attemptSlot \<Rightarrow> attemptSlot" where
  "holdVerdict s = s\<lparr>as_held := True\<rparr>"

definition verdictHeld :: "attemptSlot \<Rightarrow> bool" where
  "verdictHeld s = as_held s"

definition holdSlotForVerdict :: "inflightRelease \<Rightarrow> inflightRelease" where
  "holdSlotForVerdict b = b\<lparr>ir_onEOF := False\<rparr>"

definition release_outcome :: "inflightRelease \<Rightarrow> slotOutcome" where
  "release_outcome b = (if ir_clean b then slotClean else slotUnclean)"

text \<open>A read of the body; \<open>eof\<close> says that the upstream answered \<open>io.EOF\<close>.\<close>

definition Body_Read ::
    "inflightRelease \<Rightarrow> bool \<Rightarrow> attemptSlot \<Rightarrow> int \<Rightarrow> duration \<Rightarrow> instant \<Rightarrow> inflightLimiter option \<Rightarrow>
     attemptSlot \<times> inflightLimiter option" where
  "Body_Read b eof s growAfter forgetAfter now lim =
     (if eof \<and> ir_onEOF b \<and> \<not> verdictHeld s then settle s (release_outcome b) growAfter forgetAfter now lim
      else (s, lim))"

definition Body_Close ::
    "inflightRelease \<Rightarrow> attemptSlot \<Rightarrow> int \<Rightarrow> duration \<Rightarrow> instant \<Rightarrow> inflightLimiter option \<Rightarrow>
     attemptSlot \<times> inflightLimiter option" where
  "Body_Close b s growAfter forgetAfter now lim =
     (if \<not> verdictHeld s then settle s (release_outcome b) growAfter forgetAfter now lim else (s, lim))"

definition admitCandidate ::
    "bool \<Rightarrow> inflightLimiter option \<Rightarrow> string \<Rightarrow> int \<Rightarrow> bool \<times> attemptSlot option \<times> inflightLimiter option" where
  "admitCandidate inflightEnabled lim providerID ceil' =
     (if \<not> inflightEnabled then (True, None, lim)
      else (case tryAcquire lim providerID ceil' of
              (False, lim) \<Rightarrow> (False, None, lim)
            | (True, lim) \<Rightarrow> (True, Some \<lparr>as_provider = providerID, as_fired = False, as_held = False\<rparr>, lim)))"

definition servedSuccessStatus :: "int \<Rightarrow> bool" where
  "servedSuccessStatus statusCode \<longleftrightarrow> statusCode \<ge> 200 \<and> statusCode \<le> 299"

definition remaining_headers :: "string list" where
  "remaining_headers = [''X-RateLimit-Remaining-Requests'', ''X-RateLimit-Remaining-Tokens'',
     ''X-RateLimit-Remaining'', ''anthropic-ratelimit-requests-remaining'',
     ''anthropic-ratelimit-tokens-remaining'', ''anthropic-ratelimit-input-tokens-remaining'',
     ''anthropic-ratelimit-output-tokens-remaining'']"

text \<open>The headers as \<open>hdr.Get\<close> answers them, the empty string for an absent one.\<close>

definition remainingBudgetZero :: "(string \<Rightarrow> string) \<Rightarrow> bool" where
  "remainingBudgetZero hdr = list_ex (\<lambda>key. hdr key = ''0'') remaining_headers"

definition finishAttemptAdmission ::
    "attemptSlot option \<Rightarrow> (string \<Rightarrow> string) \<Rightarrow> int \<Rightarrow> instant \<Rightarrow> inflightLimiter option \<Rightarrow>
     inflightRelease option \<times> inflightLimiter option" where
  "finishAttemptAdmission slot hdr statusCode now lim =
     (case slot of
        None \<Rightarrow> (None, lim)
      | Some s \<Rightarrow>
          (Some \<lparr>ir_clean = servedSuccessStatus statusCode, ir_onEOF = True\<rparr>,
           if remainingBudgetZero hdr then hintFull lim (as_provider s) now else lim))"

definition providerCeiling :: "int option \<Rightarrow> int" where
  "providerCeiling maxInFlight = (case maxInFlight of None \<Rightarrow> 0 | Some n \<Rightarrow> n)"

subsection \<open>Windows\<close>

text \<open>The window a provider has, whether or not it was created yet.\<close>

definition window_of :: "inflightLimiter \<Rightarrow> string \<Rightarrow> inflightWindow" where
  "window_of l p = (case gm_get (il_windows l) p of Some w \<Rightarrow> w | None \<Rightarrow> zeroWindow)"

lemma window_spec: "window l p = (w, l') \<Longrightarrow> w = window_of l p \<and> window_of l' = window_of l \<and> il_notify l' = il_notify l"
  by (auto simp: window_def window_of_def fun_eq_iff split: option.splits if_splits)

lemma window_of_set [simp]: "window_of (setWindow l p w) q = (if q = p then w else window_of l q)"
  by (simp add: window_of_def setWindow_def)

lemma notify_set [simp]: "il_notify (setWindow l p w) = il_notify l"
  by (simp add: setWindow_def)

lemma window_of_new [simp]: "window_of newInflightLimiter p = zeroWindow"
  by (simp add: window_of_def newInflightLimiter_def)

lemma window_of_notify [simp]: "window_of (l\<lparr>il_notify := n\<rparr>) = window_of l"
  by (simp add: window_of_def fun_eq_iff)

lemma tryAcquire_spec:
  assumes "tryAcquire (Some l) p c = (ok, lim')"
  shows "\<exists>l'. lim' = Some l' \<and> il_notify l' = il_notify l \<and>
    (ok \<longleftrightarrow> \<not> (0 < effectiveLimit (iw_limit (window_of l p)) c \<and>
                  effectiveLimit (iw_limit (window_of l p)) c \<le> iw_inflight (window_of l p))) \<and>
    window_of l' = (if ok then (window_of l)(p := (window_of l p)\<lparr>iw_inflight := iw_inflight (window_of l p) + 1\<rparr>)
                    else window_of l)"
proof -
  obtain w l1 where w: "window l p = (w, l1)" by fastforce
  note s = window_spec [OF w]
  show ?thesis using assms s
    by (auto simp: tryAcquire_def w Let_def fun_eq_iff split: if_splits)
qed

lemma canAdmit_spec:
  assumes "canAdmit (Some l) p c = (ok, lim')"
  shows "\<exists>l'. lim' = Some l' \<and> il_notify l' = il_notify l \<and> window_of l' = window_of l \<and>
    (ok \<longleftrightarrow> \<not> (0 < effectiveLimit (iw_limit (window_of l p)) c \<and>
                  effectiveLimit (iw_limit (window_of l p)) c \<le> iw_inflight (window_of l p)))"
  using assms window_spec [of l p]
  by (auto simp: canAdmit_def Let_def split: prod.splits)

lemma release_spec:
  assumes "release (Some l) p outcome ga fa now = lim'"
  shows "\<exists>l'. lim' = Some l' \<and> il_notify l' = il_notify l + 1 \<and>
    window_of l' = (window_of l)(p := settle_window (window_of l p) outcome
      (if ga \<le> 0 then defaultInflightGrowAfter else ga) (if fa \<le> 0 then defaultInflightForgetAfter else fa) now)"
proof -
  obtain w l1 where w: "window l p = (w, l1)" by fastforce
  note s = window_spec [OF w]
  show ?thesis using assms s by (auto simp: release_def w Let_def fun_eq_iff)
qed

text \<open>The allowance after a proof that the load in flight is all the provider takes: never wider
  than before, never below one, and otherwise the load itself.\<close>

definition narrowed_limit :: "inflightWindow \<Rightarrow> int" where
  "narrowed_limit w = (if iw_limit w = 0 then max 1 (iw_inflight w) else min (iw_limit w) (max 1 (iw_inflight w)))"

lemma narrowed_limit_nonneg: "0 \<le> iw_limit w \<Longrightarrow> 0 \<le> narrowed_limit w"
  by (simp add: narrowed_limit_def)

lemma cut_spec:
  assumes "cut (Some l) p ra now = lim'"
  shows "\<exists>l' w'. lim' = Some l' \<and> il_notify l' = il_notify l \<and> window_of l' = (window_of l)(p := w') \<and>
    iw_inflight w' = iw_inflight (window_of l p) \<and> iw_goodRuns w' = 0 \<and>
    iw_limit w' = narrowed_limit (window_of l p) \<and>
    iw_lastCut w' = (if ra > 0 then time_add now ra else now)"
proof -
  obtain w l1 where w: "window l p = (w, l1)" by fastforce
  note s = window_spec [OF w]
  show ?thesis using assms s by (auto simp: cut_def w Let_def fun_eq_iff narrowed_limit_def)
qed

lemma hintFull_spec:
  assumes "hintFull (Some l) p now = lim'"
  shows "\<exists>l' w'. lim' = Some l' \<and> il_notify l' = il_notify l \<and> window_of l' = (window_of l)(p := w') \<and>
    iw_inflight w' = iw_inflight (window_of l p) \<and>
    iw_limit w' = narrowed_limit (window_of l p)"
proof -
  obtain w l1 where w: "window l p = (w, l1)" by fastforce
  note s = window_spec [OF w]
  show ?thesis using assms s by (auto simp: hintFull_def w Let_def fun_eq_iff narrowed_limit_def)
qed

lemma settle_window_inflight:
  "iw_inflight (settle_window w outcome ga fa now) = (if iw_inflight w > 0 then iw_inflight w - 1 else iw_inflight w)"
  by (simp add: settle_window_def Let_def)

end
