(* ===== verification/Inflight_System.thy ===== *)
theory Inflight_System
  imports Inflight
begin

text \<open>
  The goroutines around the in-flight limiter. The first system runs attempts: admissions, bodies
  read to their end or closed, verdict holds, explicit settles (any number of them, in any order),
  cuts and header hints; its invariant counts the slots that are out. The second runs one waiter
  of \<open>waitForSlot\<close> against arbitrary calls of others.
\<close>

subsection \<open>Attempts\<close>

record attempt =
  at_slot :: attemptSlot
  at_body :: "inflightRelease option"

record inflight_sys =
  is_limiter :: inflightLimiter
  is_attempts :: "attempt list"

text \<open>Replacing one attempt's slot and the limiter after a call made on that attempt.\<close>

definition with_slot :: "inflight_sys \<Rightarrow> nat \<Rightarrow> attemptSlot \<times> inflightLimiter option \<Rightarrow> inflight_sys" where
  "with_slot s i sl = (case sl of (slot, lim) \<Rightarrow>
     s\<lparr>is_attempts := (is_attempts s)[i := (is_attempts s ! i)\<lparr>at_slot := slot\<rparr>],
       is_limiter := (case lim of Some l \<Rightarrow> l | None \<Rightarrow> is_limiter s)\<rparr>)"

text \<open>The operator's ceilings are the parameter \<open>ceil'\<close>.\<close>

inductive inflight_step :: "(string \<Rightarrow> int) \<Rightarrow> inflight_sys \<Rightarrow> inflight_sys \<Rightarrow> bool" for ceil' where
  admit: "admitCandidate True (Some (is_limiter s)) p (ceil' p) = (True, Some slot, Some l) \<Longrightarrow>
    inflight_step ceil' s (s\<lparr>is_limiter := l, is_attempts := is_attempts s @ [\<lparr>at_slot = slot, at_body = None\<rparr>]\<rparr>)"
| skip: "admitCandidate True (Some (is_limiter s)) p (ceil' p) = (False, None, Some l) \<Longrightarrow>
    inflight_step ceil' s (s\<lparr>is_limiter := l\<rparr>)"
| headers: "i < length (is_attempts s) \<Longrightarrow>
    finishAttemptAdmission (Some (at_slot (is_attempts s ! i))) hdr status now (Some (is_limiter s)) = (body, Some l) \<Longrightarrow>
    inflight_step ceil' s (s\<lparr>is_limiter := l, is_attempts := (is_attempts s)[i := (is_attempts s ! i)\<lparr>at_body := body\<rparr>]\<rparr>)"
| settle: "i < length (is_attempts s) \<Longrightarrow>
    inflight_step ceil' s (with_slot s i (settle (at_slot (is_attempts s ! i)) outcome ga fa now (Some (is_limiter s))))"
| hold: "i < length (is_attempts s) \<Longrightarrow>
    inflight_step ceil' s (with_slot s i (holdVerdict (at_slot (is_attempts s ! i)), Some (is_limiter s)))"
| hold_eof: "i < length (is_attempts s) \<Longrightarrow> at_body (is_attempts s ! i) = Some b \<Longrightarrow>
    inflight_step ceil' s (s\<lparr>is_attempts := (is_attempts s)[i := (is_attempts s ! i)\<lparr>at_body := Some (holdSlotForVerdict b)\<rparr>]\<rparr>)"
| read: "i < length (is_attempts s) \<Longrightarrow> at_body (is_attempts s ! i) = Some b \<Longrightarrow>
    inflight_step ceil' s (with_slot s i (Body_Read b eof (at_slot (is_attempts s ! i)) ga fa now (Some (is_limiter s))))"
| close: "i < length (is_attempts s) \<Longrightarrow> at_body (is_attempts s ! i) = Some b \<Longrightarrow>
    inflight_step ceil' s (with_slot s i (Body_Close b (at_slot (is_attempts s ! i)) ga fa now (Some (is_limiter s))))"
| cut: "cut (Some (is_limiter s)) p ra now = Some l \<Longrightarrow> inflight_step ceil' s (s\<lparr>is_limiter := l\<rparr>)"
| check: "canAdmit (Some (is_limiter s)) p c = (ok, Some l) \<Longrightarrow> inflight_step ceil' s (s\<lparr>is_limiter := l\<rparr>)"

inductive inflight_reachable :: "(string \<Rightarrow> int) \<Rightarrow> inflight_sys \<Rightarrow> bool" for ceil' where
  start: "inflight_reachable ceil' \<lparr>is_limiter = newInflightLimiter, is_attempts = []\<rparr>"
| step: "inflight_reachable ceil' s \<Longrightarrow> inflight_step ceil' s s' \<Longrightarrow> inflight_reachable ceil' s'"

text \<open>The slots of a provider that are out: admitted and not settled.\<close>

definition slots_out :: "attempt list \<Rightarrow> string \<Rightarrow> nat" where
  "slots_out as p = length (filter (\<lambda>a. as_provider (at_slot a) = p \<and> \<not> as_fired (at_slot a)) as)"

definition inflight_inv :: "(string \<Rightarrow> int) \<Rightarrow> inflight_sys \<Rightarrow> bool" where
  "inflight_inv ceil' s \<longleftrightarrow> (\<forall>p. iw_inflight (window_of (is_limiter s) p) = int (slots_out (is_attempts s) p) \<and>
     iw_limit (window_of (is_limiter s) p) \<ge> 0 \<and>
     (ceil' p > 0 \<longrightarrow> iw_inflight (window_of (is_limiter s) p) \<le> ceil' p))"

lemma slots_out_update:
  assumes "i < length as"
  shows "int (slots_out (as[i := a]) p) = int (slots_out as p)
    - (if as_provider (at_slot (as ! i)) = p \<and> \<not> as_fired (at_slot (as ! i)) then 1 else 0)
    + (if as_provider (at_slot a) = p \<and> \<not> as_fired (at_slot a) then 1 else 0)"
proof -
  have "as = take i as @ as ! i # drop (Suc i) as" using assms by (rule id_take_nth_drop)
  then have "slots_out as p = slots_out (take i as @ as ! i # drop (Suc i) as) p" by simp
  moreover have "as[i := a] = take i as @ a # drop (Suc i) as" using assms by (rule upd_conv_take_nth_drop)
  ultimately show ?thesis by (simp add: slots_out_def)
qed

lemma slots_out_same:
  assumes "i < length as" "at_slot a = at_slot (as ! i)"
  shows "slots_out (as[i := a]) p = slots_out as p"
  using slots_out_update [OF assms(1), of a p] assms(2) by simp

lemma with_slot_same:
  "i < length (is_attempts s) \<Longrightarrow> with_slot s i (at_slot (is_attempts s ! i), Some (is_limiter s)) = s"
  by (simp add: with_slot_def)

lemma inflight_inv_settle:
  assumes "inflight_inv ceil' s" "i < length (is_attempts s)"
  shows "inflight_inv ceil' (with_slot s i (settle (at_slot (is_attempts s ! i)) outcome ga fa now (Some (is_limiter s))))"
proof (cases "as_fired (at_slot (is_attempts s ! i))")
  case True
  then show ?thesis using assms(1) with_slot_same [OF assms(2)] by (simp add: settle_def)
next
  case False
  let ?p = "as_provider (at_slot (is_attempts s ! i))"
  obtain l' ga' fa' where l': "release (Some (is_limiter s)) ?p outcome ga fa now = Some l'"
    and win: "window_of l' = (window_of (is_limiter s))(?p := settle_window (window_of (is_limiter s) ?p) outcome ga' fa' now)"
    using release_spec [of "is_limiter s" ?p outcome ga fa now] by blast
  let ?w = "window_of (is_limiter s)"
  have out: "0 < slots_out (is_attempts s) ?p"
    using assms(2) False by (force simp: slots_out_def filter_empty_conv)
  have slots: "int (slots_out ((is_attempts s)[i := (is_attempts s ! i)\<lparr>at_slot := (at_slot (is_attempts s ! i))\<lparr>as_fired := True\<rparr>\<rparr>]) p)
      = int (slots_out (is_attempts s) p) - (if p = ?p then 1 else 0)" for p
    using slots_out_update [OF assms(2)] False by auto
  have lim: "iw_limit (settle_window w outcome ga' fa' now) \<ge> 0" if "iw_limit w \<ge> 0" for w
    using that by (simp add: settle_window_def Let_def)
  show ?thesis
    using assms(1) l' win out slots lim False
    by (auto simp: settle_def with_slot_def inflight_inv_def settle_window_inflight)
qed

lemma effectiveLimit_ceiling: "0 \<le> learned \<Longrightarrow> 0 < c \<Longrightarrow> 0 < effectiveLimit learned c \<and> effectiveLimit learned c \<le> c"
  by (auto simp: effectiveLimit_def)

lemma inflight_inv_step:
  assumes "inflight_step ceil' s s'" "inflight_inv ceil' s"
  shows "inflight_inv ceil' s'"
  using assms
proof (induction rule: inflight_step.induct)
  case (admit s p slot l)
  then have ta: "tryAcquire (Some (is_limiter s)) p (ceil' p) = (True, Some l)"
    and slot: "slot = \<lparr>as_provider = p, as_fired = False, as_held = False\<rparr>"
    by (auto simp: admitCandidate_def split: prod.splits bool.splits)
  from tryAcquire_spec [OF ta]
  have win: "window_of l = (window_of (is_limiter s))(p := (window_of (is_limiter s) p)\<lparr>iw_inflight := iw_inflight (window_of (is_limiter s) p) + 1\<rparr>)"
    and room: "\<not> (0 < effectiveLimit (iw_limit (window_of (is_limiter s) p)) (ceil' p) \<and>
      effectiveLimit (iw_limit (window_of (is_limiter s) p)) (ceil' p) \<le> iw_inflight (window_of (is_limiter s) p))"
    by auto
  have "iw_inflight (window_of (is_limiter s) p) < ceil' p" if "ceil' p > 0"
    using room effectiveLimit_ceiling [OF _ that] admit.prems unfolding inflight_inv_def by (meson leI order_trans)
  then show ?case using admit.prems win slot by (auto simp: inflight_inv_def slots_out_def)
next
  case (skip s p l)
  then have "tryAcquire (Some (is_limiter s)) p (ceil' p) = (False, Some l)"
    by (auto simp: admitCandidate_def split: prod.splits bool.splits)
  from tryAcquire_spec [OF this] skip.prems show ?case by (auto simp: inflight_inv_def)
next
  case (headers i s hdr status now body l)
  let ?p = "as_provider (at_slot (is_attempts s ! i))"
  obtain l1 w1 where h: "hintFull (Some (is_limiter s)) ?p now = Some l1"
    and win: "window_of l1 = (window_of (is_limiter s))(?p := w1)"
    "iw_inflight w1 = iw_inflight (window_of (is_limiter s) ?p)"
    "iw_limit w1 = narrowed_limit (window_of (is_limiter s) ?p)"
    using hintFull_spec [OF refl, of "is_limiter s" ?p now] by auto
  have "l = is_limiter s \<or> l = l1"
    using headers.hyps(2) h by (auto simp: finishAttemptAdmission_def split: if_splits)
  then have "window_of l = window_of (is_limiter s) \<or> window_of l = (window_of (is_limiter s))(?p := w1)"
    using win(1) by auto
  with win(2,3) show ?case using headers.prems slots_out_same [OF headers.hyps(1)]
    by (auto simp: inflight_inv_def narrowed_limit_nonneg)
next
  case (settle i s outcome ga fa now)
  then show ?case by (rule inflight_inv_settle [rotated])
next
  case (hold i s)
  have "slots_out ((is_attempts s)[i := (is_attempts s ! i)\<lparr>at_slot := holdVerdict (at_slot (is_attempts s ! i))\<rparr>]) p =
      slots_out (is_attempts s) p" for p
    using slots_out_update [OF hold.hyps, of "(is_attempts s ! i)\<lparr>at_slot := holdVerdict (at_slot (is_attempts s ! i))\<rparr>" p]
    by (simp add: holdVerdict_def)
  then show ?case using hold.prems by (auto simp: inflight_inv_def with_slot_def)
next
  case (hold_eof i s b)
  then show ?case using slots_out_same [OF hold_eof.hyps(1)] by (auto simp: inflight_inv_def)
next
  case (read i s b eof ga fa now)
  show ?case using read.prems inflight_inv_settle [OF read.prems read.hyps(1)] with_slot_same [OF read.hyps(1)]
    by (simp add: Body_Read_def)
next
  case (close i s b ga fa now)
  show ?case using close.prems inflight_inv_settle [OF close.prems close.hyps(1)] with_slot_same [OF close.hyps(1)]
    by (simp add: Body_Close_def)
next
  case (cut s p ra now l)
  from cut_spec [OF cut.hyps] cut.prems show ?case by (auto simp: inflight_inv_def narrowed_limit_nonneg)
next
  case (check s p c ok l)
  from canAdmit_spec [OF check.hyps] check.prems show ?case by (auto simp: inflight_inv_def)
qed

lemma inflight_reachable_inv: "inflight_reachable ceil' s \<Longrightarrow> inflight_inv ceil' s"
  by (induction rule: inflight_reachable.induct)
     (simp_all add: inflight_inv_step, simp add: inflight_inv_def slots_out_def zeroWindow_def)

subsection \<open>The waiter\<close>

text \<open>Where \<open>waitForSlot\<close> is in its loop: before the snapshot of the channel, about to ask candidate
  number \<open>i\<close> (the \<open>admit\<close> of \<open>retryAfterSlotFrees\<close> takes the lock once per candidate), in the select
  on the snapshotted channel, or returned with the candidate that had room.\<close>

datatype waiter = WTop | WCheck nat nat | WSelect nat | WReturned "nat option"

text \<open>One step of the waiter itself. A candidate is its provider and its ceiling.\<close>

fun wait_own :: "(string \<times> int) list \<Rightarrow> waiter \<times> inflightLimiter \<Rightarrow> waiter \<times> inflightLimiter" where
  "wait_own cands (WTop, l) = (WCheck (il_notify l) 0, l)"
| "wait_own cands (WCheck ch i, l) =
     (if i < length cands
      then (case canAdmit (Some l) (fst (cands ! i)) (snd (cands ! i)) of
              (ok, lim) \<Rightarrow> (if ok then WReturned (Some i) else WCheck ch (Suc i),
                           case lim of Some l' \<Rightarrow> l' | None \<Rightarrow> l))
      else (WSelect ch, l))"
| "wait_own cands (WSelect ch, l) = (if ch < il_notify l then WTop else WSelect ch, l)"
| "wait_own cands (WReturned r, l) = (WReturned r, l)"

text \<open>The waiter among the other goroutines; the timer and the context end its select.\<close>

inductive wait_step :: "(string \<times> int) list \<Rightarrow> waiter \<times> inflightLimiter \<Rightarrow> waiter \<times> inflightLimiter \<Rightarrow> bool"
  for cands where
  own: "wait_step cands s (wait_own cands s)"
| expired: "wait_step cands (WSelect ch, l) (WReturned None, l)"
| other_acquire: "tryAcquire (Some l) p c = (ok, Some l') \<Longrightarrow> wait_step cands (st, l) (st, l')"
| other_check: "canAdmit (Some l) p c = (ok, Some l') \<Longrightarrow> wait_step cands (st, l) (st, l')"
| other_release: "release (Some l) p outcome ga fa now = Some l' \<Longrightarrow> wait_step cands (st, l) (st, l')"
| other_cut: "cut (Some l) p ra now = Some l' \<Longrightarrow> wait_step cands (st, l) (st, l')"
| other_hint: "hintFull (Some l) p now = Some l' \<Longrightarrow> wait_step cands (st, l) (st, l')"

inductive wait_reachable :: "(string \<times> int) list \<Rightarrow> waiter \<times> inflightLimiter \<Rightarrow> bool" for cands where
  start: "wait_reachable cands (WTop, newInflightLimiter)"
| step: "wait_reachable cands s \<Longrightarrow> wait_step cands s s' \<Longrightarrow> wait_reachable cands s'"

definition has_room :: "inflightLimiter \<Rightarrow> string \<times> int \<Rightarrow> bool" where
  "has_room l pc = (let limit = effectiveLimit (iw_limit (window_of l (fst pc))) (snd pc)
     in limit \<le> 0 \<or> iw_inflight (window_of l (fst pc)) < limit)"

lemma has_room_cong: "window_of l = window_of l' \<Longrightarrow> has_room l = has_room l'"
  by (simp add: has_room_def fun_eq_iff)

lemma canAdmit_room:
  obtains l' where "canAdmit (Some l) p c = (has_room l (p, c), Some l')"
    "il_notify l' = il_notify l" "window_of l' = window_of l"
proof -
  obtain ok lim where ca: "canAdmit (Some l) p c = (ok, lim)" by fastforce
  from canAdmit_spec [OF ca] ca that show ?thesis by (auto simp: has_room_def Let_def not_less)
qed

text \<open>What the waiter knows while no release has closed its channel: the candidates it has asked
  are still full.\<close>

fun asked :: "(string \<times> int) list \<Rightarrow> waiter \<Rightarrow> (nat \<times> nat) option" where
  "asked cands (WCheck ch i) = Some (ch, i)"
| "asked cands (WSelect ch) = Some (ch, length cands)"
| "asked cands _ = None"

definition counts_ok :: "inflightLimiter \<Rightarrow> bool" where
  "counts_ok l \<longleftrightarrow> (\<forall>p. 0 \<le> iw_inflight (window_of l p) \<and> 0 \<le> iw_limit (window_of l p))"

definition wait_inv :: "(string \<times> int) list \<Rightarrow> waiter \<times> inflightLimiter \<Rightarrow> bool" where
  "wait_inv cands s = (case s of (st, l) \<Rightarrow> counts_ok l \<and>
     (\<forall>ch i. asked cands st = Some (ch, i) \<longrightarrow> i \<le> length cands \<and> ch \<le> il_notify l \<and>
        (ch = il_notify l \<longrightarrow> (\<forall>j<i. \<not> has_room l (cands ! j)))))"

text \<open>Acquisitions, cuts and hints only take room away.\<close>

lemma no_room_kept:
  assumes "counts_ok l" "\<not> has_room l qc"
    "window_of l' = (window_of l)(p := w')"
    "iw_inflight (window_of l p) \<le> iw_inflight w'"
    "iw_limit w' = narrowed_limit (window_of l p) \<or>
     iw_limit w' = iw_limit (window_of l p)"
  shows "\<not> has_room l' qc"
proof (cases "fst qc = p")
  case True
  have c: "0 \<le> iw_inflight (window_of l p)" "0 \<le> iw_limit (window_of l p)" using assms(1) by (simp_all add: counts_ok_def)
  have w: "window_of l' p = w'" using assms(3) by simp
  show ?thesis using assms(2,4,5) c True w
    by (auto simp: has_room_def effectiveLimit_def Let_def narrowed_limit_def max_def min_def split: if_splits)
next
  case False
  then show ?thesis using assms(2,3) by (simp add: has_room_def)
qed

lemma wait_inv_narrow:
  assumes "wait_inv cands (st, l)" "il_notify l' = il_notify l" "counts_ok l'"
    "\<And>qc. \<not> has_room l qc \<Longrightarrow> \<not> has_room l' qc"
  shows "wait_inv cands (st, l')"
  using assms by (auto simp: wait_inv_def)

lemma wait_inv_narrow_one:
  assumes "wait_inv cands (st, l)" "il_notify l' = il_notify l" "window_of l' = (window_of l)(p := w')"
    "iw_inflight (window_of l p) \<le> iw_inflight w'"
    "iw_limit w' = narrowed_limit (window_of l p) \<or>
     iw_limit w' = iw_limit (window_of l p)"
  shows "wait_inv cands (st, l')"
proof (rule wait_inv_narrow [OF assms(1,2)])
  have c: "counts_ok l" using assms(1) by (simp add: wait_inv_def)
  have "0 \<le> iw_inflight w'" "0 \<le> iw_limit w'"
    using c assms(4,5) order_trans by (fastforce simp: counts_ok_def narrowed_limit_def)+
  then show "counts_ok l'" using c assms(3) by (simp add: counts_ok_def)
  show "\<not> has_room l' qc" if "\<not> has_room l qc" for qc by (rule no_room_kept [OF c that assms(3-5)])
qed

lemma wait_inv_own: "wait_inv cands (st, l) \<Longrightarrow> wait_inv cands (wait_own cands (st, l))"
proof (cases st)
  case (WCheck ch i)
  assume inv: "wait_inv cands (st, l)"
  obtain l' where ca: "canAdmit (Some l) (fst (cands ! i)) (snd (cands ! i)) = (has_room l (cands ! i), Some l')"
    "il_notify l' = il_notify l" "window_of l' = window_of l"
    using canAdmit_room [of l "fst (cands ! i)" "snd (cands ! i)"] by auto
  then show ?thesis using inv has_room_cong [OF ca(3)] WCheck
    by (auto simp: wait_inv_def counts_ok_def less_Suc_eq)
qed (auto simp: wait_inv_def)

lemma wait_inv_step:
  assumes "wait_step cands s s'" "wait_inv cands s"
  shows "wait_inv cands s'"
  using assms
proof (induction rule: wait_step.induct)
  case (own s)
  then show ?case by (metis wait_inv_own surj_pair)
next
  case (expired ch l)
  then show ?case by (simp add: wait_inv_def)
next
  case (other_acquire l p c ok l' st)
  from tryAcquire_spec [OF other_acquire.hyps]
  have "il_notify l' = il_notify l" and win: "window_of l' = (if ok
      then (window_of l)(p := (window_of l p)\<lparr>iw_inflight := iw_inflight (window_of l p) + 1\<rparr>) else window_of l)"
    by auto
  then show ?case
    using wait_inv_narrow_one [OF other_acquire.prems, of l' p "window_of l' p"] by (cases ok) auto
next
  case (other_check l p c ok l' st)
  from canAdmit_spec [OF other_check.hyps] show ?case
    using wait_inv_narrow [OF other_check.prems, of l'] has_room_cong [of l' l] other_check.prems
    by (auto simp: wait_inv_def counts_ok_def)
next
  case (other_release l p outcome ga fa now l' st)
  then obtain ga' fa' where l': "il_notify l' = il_notify l + 1"
    "window_of l' = (window_of l)(p := settle_window (window_of l p) outcome ga' fa' now)"
    using release_spec [OF other_release.hyps] by auto
  have "0 \<le> iw_limit (settle_window w outcome ga' fa' now)" if "0 \<le> iw_limit w" for w
    using that by (simp add: settle_window_def Let_def)
  then show ?case using other_release.prems l'
    by (auto simp: wait_inv_def counts_ok_def settle_window_inflight)
next
  case (other_cut l p ra now l' st)
  from cut_spec [OF other_cut.hyps] obtain w' where w': "il_notify l' = il_notify l" "window_of l' = (window_of l)(p := w')"
    "iw_inflight w' = iw_inflight (window_of l p)"
    "iw_limit w' = narrowed_limit (window_of l p)" by auto
  from wait_inv_narrow_one [OF other_cut.prems w'(1,2)] w'(3,4) show ?case by (metis order_refl)
next
  case (other_hint l p now l' st)
  from hintFull_spec [OF other_hint.hyps] obtain w' where w': "il_notify l' = il_notify l" "window_of l' = (window_of l)(p := w')"
    "iw_inflight w' = iw_inflight (window_of l p)"
    "iw_limit w' = narrowed_limit (window_of l p)" by auto
  from wait_inv_narrow_one [OF other_hint.prems w'(1,2)] w'(3,4) show ?case by (metis order_refl)
qed

lemma wait_reachable_inv: "wait_reachable cands s \<Longrightarrow> wait_inv cands s"
proof (induction rule: wait_reachable.induct)
  case start
  show ?case by (simp add: wait_inv_def counts_ok_def zeroWindow_def)
qed (rule wait_inv_step)

text \<open>Left alone, a scan that meets a candidate with room returns the first one.\<close>

lemma scan_returns_first:
  assumes "j < length cands" "has_room l (cands ! j)" "\<forall>k. i \<le> k \<and> k < j \<longrightarrow> \<not> has_room l (cands ! k)" "i \<le> j"
  shows "\<exists>n l'. (wait_own cands ^^ n) (WCheck ch i, l) = (WReturned (Some j), l') \<and> window_of l' = window_of l"
  using assms
proof (induction "j - i" arbitrary: i l)
  case 0
  then have ij: "i = j" by simp
  obtain l' where ca: "canAdmit (Some l) (fst (cands ! j)) (snd (cands ! j)) = (has_room l (cands ! j), Some l')"
    "window_of l' = window_of l"
    using canAdmit_room [of l "fst (cands ! j)" "snd (cands ! j)"] by auto
  then have "(wait_own cands ^^ 1) (WCheck ch i, l) = (WReturned (Some j), l')"
    using "0.prems" ij by simp
  then show ?case using ca(2) by blast
next
  case (Suc d)
  obtain l1 where ca: "canAdmit (Some l) (fst (cands ! i)) (snd (cands ! i)) = (has_room l (cands ! i), Some l1)"
    "window_of l1 = window_of l"
    using canAdmit_room [of l "fst (cands ! i)" "snd (cands ! i)"] by auto
  note hr = has_room_cong [OF ca(2)]
  have "i < j" using Suc.hyps(2) by linarith
  then have full: "\<not> has_room l (cands ! i)" using Suc.prems(3) by simp
  have "d = j - Suc i" using Suc.hyps(2) by simp
  from Suc.hyps(1) [OF this Suc.prems(1), of l1] \<open>i < j\<close> Suc.prems hr
  obtain n l' where "(wait_own cands ^^ n) (WCheck ch (Suc i), l1) = (WReturned (Some j), l')"
    "window_of l' = window_of l1" by auto
  moreover have "wait_own cands (WCheck ch i, l) = (WCheck ch (Suc i), l1)"
    using ca(1) full \<open>i < j\<close> Suc.prems(1) by simp
  ultimately have "(wait_own cands ^^ Suc n) (WCheck ch i, l) = (WReturned (Some j), l')"
    by (simp add: funpow_swap1)
  then show ?case using ca(2) \<open>window_of l' = window_of l1\<close> by (metis (no_types))
qed

end
