(* ===== verification/Inflight_Properties.thy ===== *)
theory Inflight_Properties
  imports Inflight_System
begin

text \<open>
  The properties of the in-flight limiter: what its counters count, how an allowance is learned
  back after a cut, and that a waiting request is never left asleep beside a free slot.
\<close>

subsection \<open>Counting\<close>

definition ex_slot :: attemptSlot where
  "ex_slot = \<lparr>as_provider = ''p'', as_fired = False, as_held = False\<rparr>"

definition ex_limiter :: inflightLimiter where
  "ex_limiter = \<lparr>il_windows = [(''p'', zeroWindow\<lparr>iw_inflight := 1\<rparr>)], il_notify = 0\<rparr>"

lemma ex_inflight_reachable: "inflight_reachable (\<lambda>_. 1)
    \<lparr>is_limiter = ex_limiter, is_attempts = [\<lparr>at_slot = ex_slot, at_body = None\<rparr>]\<rparr>"
proof -
  let ?s = "\<lparr>is_limiter = newInflightLimiter, is_attempts = []\<rparr>"
  have "admitCandidate True (Some newInflightLimiter) ''p'' 1 = (True, Some ex_slot, Some ex_limiter)"
    by (simp add: admitCandidate_def tryAcquire_def window_def newInflightLimiter_def setWindow_def
        zeroWindow_def effectiveLimit_def ex_slot_def ex_limiter_def Let_def)
  then have "inflight_step (\<lambda>_. 1) ?s (?s\<lparr>is_limiter := ex_limiter,
      is_attempts := is_attempts ?s @ [\<lparr>at_slot = ex_slot, at_body = None\<rparr>]\<rparr>)"
    by (intro inflight_step.admit [where p = "''p''"]) simp
  from inflight_reachable.step [OF inflight_reachable.start this] show ?thesis by simp
qed

text \<open>C33: however admissions, reads, closes, verdict holds, explicit settles, cuts and header hints
  interleave, a provider's in-flight count is exactly the number of its admitted attempts whose slot
  has not been settled yet, so that no slot leaks and none is returned twice, and the operator's
  \<open>max_in_flight\<close> is never exceeded.\<close>

theorem inflight_slots_exact:
  assumes "inflight_reachable ceil' s"
  shows "iw_inflight (window_of (is_limiter s) p) = int (slots_out (is_attempts s) p) \<and>
    (0 < ceil' p \<longrightarrow> int (slots_out (is_attempts s) p) \<le> ceil' p)"
  using inflight_reachable_inv [OF assms] by (auto simp: inflight_inv_def)

theorem inflight_slots_exact_witness:
  "iw_inflight (window_of ex_limiter ''p'') = 1 \<and>
   slots_out [\<lparr>at_slot = ex_slot, at_body = None\<rparr>] ''p'' = 1"
  using inflight_slots_exact [OF ex_inflight_reachable, of "''p''"]
  by (simp add: slots_out_def ex_slot_def)

subsection \<open>Learning\<close>

text \<open>A run of releases of one provider, each with its outcome and its time.\<close>

fun releases ::
    "inflightLimiter \<Rightarrow> string \<Rightarrow> int \<Rightarrow> duration \<Rightarrow> (slotOutcome \<times> instant) list \<Rightarrow> inflightLimiter option" where
  "releases l p ga fa [] = Some l"
| "releases l p ga fa ((outcome, now) # rs) =
     (case release (Some l) p outcome ga fa now of Some l' \<Rightarrow> releases l' p ga fa rs | None \<Rightarrow> None)"

definition clean_count :: "(slotOutcome \<times> instant) list \<Rightarrow> int" where
  "clean_count rs = int (length (filter (\<lambda>r. fst r = slotClean) rs))"

lemma settle_window_before_forget:
  assumes "0 < iw_limit w" "time_sub now (iw_lastCut w) < fa" "0 \<le> iw_goodRuns w" "iw_goodRuns w < ga"
    "outcome \<noteq> slotUnclean"
  shows "iw_lastCut (settle_window w outcome ga fa now) = iw_lastCut w \<and>
    iw_limit (settle_window w outcome ga fa now) = iw_limit w + (iw_goodRuns w + (if outcome = slotClean then 1 else 0)) div ga \<and>
    iw_goodRuns (settle_window w outcome ga fa now) = (iw_goodRuns w + (if outcome = slotClean then 1 else 0)) mod ga"
proof (cases "outcome = slotClean \<and> iw_goodRuns w = ga - 1")
  case True
  then show ?thesis using assms by (simp add: settle_window_def Let_def)
next
  case False
  then have "(if outcome = slotClean then iw_goodRuns w + 1 else iw_goodRuns w) < ga" using assms(4) by auto
  then show ?thesis using assms by (auto simp: settle_window_def Let_def zdiv_eq_0_iff)
qed

lemma releases_growth:
  assumes "releases l p ga fa rs = Some l'" "0 < ga" "0 < fa" "0 < iw_limit (window_of l p)"
    "\<forall>r\<in>set rs. fst r \<noteq> slotUnclean \<and> time_sub (snd r) (iw_lastCut (window_of l p)) < fa"
    "0 \<le> iw_goodRuns (window_of l p)" "iw_goodRuns (window_of l p) < ga"
  shows "iw_limit (window_of l' p) = iw_limit (window_of l p) + (iw_goodRuns (window_of l p) + clean_count rs) div ga"
  using assms
proof (induction l p ga fa rs rule: releases.induct)
  case (1 l p ga fa)
  then show ?case by (simp add: clean_count_def)
next
  case (2 l p ga fa outcome now rs)
  let ?w = "window_of l p"
  let ?n = "iw_goodRuns ?w + (if outcome = slotClean then 1 else 0)"
  obtain l1 where l1: "release (Some l) p outcome ga fa now = Some l1"
    "window_of l1 p = settle_window ?w outcome ga fa now"
    using release_spec [OF refl, of l p outcome ga fa now] "2.prems"(2,3) by auto
  have o: "outcome \<noteq> slotUnclean" "time_sub now (iw_lastCut ?w) < fa" using "2.prems"(5) by simp_all
  have w1: "iw_lastCut (window_of l1 p) = iw_lastCut ?w" "iw_limit (window_of l1 p) = iw_limit ?w + ?n div ga"
    "iw_goodRuns (window_of l1 p) = ?n mod ga"
    using settle_window_before_forget [OF "2.prems"(4) o(2) "2.prems"(6,7) o(1)] l1(2) by simp_all
  have "0 \<le> ?n div ga" using "2.prems"(2,6) by (simp add: pos_imp_zdiv_nonneg_iff)
  then have "0 < iw_limit (window_of l1 p)" using w1(2) "2.prems"(4) by linarith
  moreover have "releases l1 p ga fa rs = Some l'" using "2.prems"(1) l1(1) by simp
  ultimately have "iw_limit (window_of l' p) = iw_limit (window_of l1 p) + (iw_goodRuns (window_of l1 p) + clean_count rs) div ga"
    using "2.IH" [OF l1(1)] "2.prems"(2,3,5) w1 by simp
  moreover have "(?n + clean_count rs) div ga = ?n div ga + (?n mod ga + clean_count rs) div ga"
  proof -
    have "?n + clean_count rs = (?n mod ga + clean_count rs) + ?n div ga * ga" by (simp add: algebra_simps)
    then show ?thesis using "2.prems"(2) by (metis div_mult_self1 order_less_irrefl)
  qed
  moreover have "iw_goodRuns ?w + clean_count ((outcome, now) # rs) = ?n + clean_count rs"
    by (simp add: clean_count_def)
  ultimately show ?case using w1(2,3) by (simp only: add.assoc)
qed

text \<open>After a saturated 429 cuts a provider to the load that fit (at least one, never wider than
  the allowance before), the allowance grows by exactly one per \<open>growAfter\<close> clean completions,
  however many neutral ones lie in between, until the first release that finds the quiet stretch
  over returns the provider to uncapped.\<close>

theorem inflight_growth_law:
  assumes "cut (Some l) p ra t0 = Some l0" "0 \<le> iw_limit (window_of l p)" "0 < ga" "0 < fa"
    "\<forall>r\<in>set rs. fst r \<noteq> slotUnclean \<and> time_sub (snd r) (if ra > 0 then time_add t0 ra else t0) < fa"
    "releases l0 p ga fa rs = Some l1"
  shows "iw_limit (window_of l0 p) = narrowed_limit (window_of l p) \<and>
    iw_limit (window_of l1 p) = narrowed_limit (window_of l p) + clean_count rs div ga \<and>
    (time_sub now (iw_lastCut (window_of l1 p)) \<ge> fa \<longrightarrow>
      (\<exists>l2. release (Some l1) p outcome ga fa now = Some l2 \<and> iw_limit (window_of l2 p) = 0))"
proof -
  from cut_spec [OF assms(1)] have w: "iw_limit (window_of l0 p) = narrowed_limit (window_of l p)"
    "iw_goodRuns (window_of l0 p) = 0" "iw_lastCut (window_of l0 p) = (if ra > 0 then time_add t0 ra else t0)"
    by auto
  have pos: "0 < narrowed_limit (window_of l p)" using assms(2) by (simp add: narrowed_limit_def)
  have "iw_limit (window_of l1 p) = narrowed_limit (window_of l p) + clean_count rs div ga"
    using releases_growth [OF assms(6,3,4)] w pos assms(3,5) by simp
  moreover have "iw_limit (settle_window v outcome ga fa now) = 0"
    if "time_sub now (iw_lastCut v) \<ge> fa" "0 < iw_limit v" for v
    using that by (simp add: settle_window_def Let_def)
  moreover have "0 \<le> clean_count rs div ga" using assms(3) by (simp add: clean_count_def pos_imp_zdiv_nonneg_iff)
  ultimately show ?thesis
    using w(1) pos release_spec [OF refl, of l1 p outcome ga fa now] assms(3,4) by auto
qed

definition ex_busy :: inflightLimiter where
  "ex_busy = \<lparr>il_windows = [(''p'', \<lparr>iw_limit = 0, iw_inflight = 3, iw_goodRuns = 0, iw_lastCut = 0\<rparr>)], il_notify = 0\<rparr>"

definition ex_cut :: inflightLimiter where
  "ex_cut = \<lparr>il_windows = [(''p'', \<lparr>iw_limit = 3, iw_inflight = 3, iw_goodRuns = 0, iw_lastCut = 100\<rparr>)], il_notify = 0\<rparr>"

theorem inflight_growth_law_witness:
  "(\<exists>l1. releases ex_cut ''p'' 2 50 [(slotClean, 110), (slotNeutral, 120), (slotClean, 130)] = Some l1 \<and>
     iw_limit (window_of l1 ''p'') = 4)"
proof -
  have c: "cut (Some ex_busy) ''p'' 0 100 = Some ex_cut"
    by (simp add: cut_def window_def setWindow_def ex_busy_def ex_cut_def Let_def)
  let ?rs = "[(slotClean, 110), (slotNeutral, 120), (slotClean, 130)] :: (slotOutcome \<times> instant) list"
  obtain l1 where l1: "releases ex_cut ''p'' 2 50 ?rs = Some l1"
    using release_spec [OF refl] by (metis option.case(2) releases.simps(1,2))
  have n: "narrowed_limit (window_of ex_busy ''p'') = 3" "0 \<le> iw_limit (window_of ex_busy ''p'')"
    by (simp_all add: narrowed_limit_def window_of_def ex_busy_def)
  have "\<forall>r\<in>set ?rs. fst r \<noteq> slotUnclean \<and> time_sub (snd r) (if (0::duration) > 0 then time_add 100 0 else 100) < 50"
    by (simp add: time_sub_def maxDuration_def minDuration_def)
  from inflight_growth_law [OF c n(2) _ _ this l1, of 131 slotClean] n(1) l1
  show ?thesis by (simp add: clean_count_def)
qed

subsection \<open>Waiting\<close>

text \<open>The candidate the scan stops at: the first with room.\<close>

definition first_room :: "inflightLimiter \<Rightarrow> (string \<times> int) list \<Rightarrow> nat \<Rightarrow> bool" where
  "first_room l cands j \<longleftrightarrow> j < length cands \<and> has_room l (cands ! j) \<and> (\<forall>k<j. \<not> has_room l (cands ! k))"

text \<open>C34: no wakeup is lost. In every interleaving with acquisitions, releases, cuts and hints, a
  request asleep in its select while one of its candidates has room sleeps on a channel that is
  already closed; left to run it wakes and returns the first candidate with room, and it returns
  only candidates it was given.\<close>

theorem no_lost_wakeup:
  assumes "wait_reachable cands (WSelect ch, l)" "first_room l cands j"
  shows "ch < il_notify l \<and>
    (\<exists>n l'. (wait_own cands ^^ n) (WSelect ch, l) = (WReturned (Some j), l') \<and> window_of l' = window_of l)"
proof -
  from wait_reachable_inv [OF assms(1)] assms(2) have closed: "ch < il_notify l"
    by (auto simp: wait_inv_def first_room_def dest: le_neq_implies_less)
  obtain n l' where "(wait_own cands ^^ n) (WCheck (il_notify l) 0, l) = (WReturned (Some j), l')" "window_of l' = window_of l"
    using scan_returns_first [of j cands l 0 "il_notify l"] assms(2) by (auto simp: first_room_def)
  then have "(wait_own cands ^^ Suc (Suc n)) (WSelect ch, l) = (WReturned (Some j), l')"
    using closed by (simp add: funpow_swap1)
  with closed \<open>window_of l' = window_of l\<close> show ?thesis by blast
qed

definition ex_free :: inflightLimiter where
  "ex_free = \<lparr>il_windows = [(''p'', zeroWindow)], il_notify = 1\<rparr>"

lemma ex_waiting: "wait_reachable [(''p'', 1)] (WSelect 0, ex_free)"
proof -
  let ?c = "[(''p'', 1)] :: (string \<times> int) list"
  note ops = tryAcquire_def canAdmit_def release_def window_def newInflightLimiter_def setWindow_def
    zeroWindow_def effectiveLimit_def ex_limiter_def ex_free_def settle_window_def Let_def
  have "tryAcquire (Some newInflightLimiter) ''p'' 1 = (True, Some ex_limiter)" by (simp add: ops)
  from wait_reachable.step [OF wait_reachable.start wait_step.other_acquire [OF this]]
  have "wait_reachable ?c (WTop, ex_limiter)" .
  from wait_reachable.step [OF this wait_step.own] have "wait_reachable ?c (WCheck 0 0, ex_limiter)"
    by (simp add: ops)
  from wait_reachable.step [OF this wait_step.own] have "wait_reachable ?c (WCheck 0 1, ex_limiter)"
    by (simp add: ops)
  from wait_reachable.step [OF this wait_step.own] have sel: "wait_reachable ?c (WSelect 0, ex_limiter)"
    by simp
  have "release (Some ex_limiter) ''p'' slotClean 20 50 0 = Some ex_free" by (simp add: ops)
  from wait_reachable.step [OF sel wait_step.other_release [OF this]] show ?thesis .
qed

theorem no_lost_wakeup_witness:
  "\<exists>n l'. (wait_own [(''p'', 1)] ^^ n) (WSelect 0, ex_free) = (WReturned (Some 0), l')"
proof -
  have "first_room ex_free [(''p'', 1)] 0"
    by (simp add: first_room_def has_room_def window_of_def ex_free_def zeroWindow_def effectiveLimit_def)
  from no_lost_wakeup [OF ex_waiting this] show ?thesis by blast
qed

end
