(* ===== verification/Rate_Limit.thy ===== *)
theory Rate_Limit
  imports Go_Text Inflight
begin

text \<open>
  What a 429 says (\<open>internal/proxy/rate_limit_classify.go\<close>): busy or spent. The classifier reads
  the provider's phrases, the MiniMax codes and the waits stated in headers and body. Headers
  are the function \<open>Header.Get\<close> is, the empty string for an absent one. The two date formats Go's
  library parses are the functions of \<open>dates\<close>; the clock is an argument.
\<close>

datatype rateLimitClass = rateLimitUnknown | rateLimitSaturated | rateLimitExhausted

fun rateLimitClass_String :: "rateLimitClass \<Rightarrow> string" where
  "rateLimitClass_String rateLimitSaturated = ''saturated''"
| "rateLimitClass_String rateLimitExhausted = ''exhausted''"
| "rateLimitClass_String rateLimitUnknown = ''unknown''"

record rateLimitVerdict =
  rl_classified :: bool
  rl_class :: rateLimitClass
  rl_phrase :: string
  rl_detail :: string
  rl_retryAfter :: duration
  rl_pinHint :: duration
  rl_entitled :: bool
  rl_account :: bool

definition no_verdict :: rateLimitVerdict where
  "no_verdict = \<lparr>rl_classified = False, rl_class = rateLimitUnknown, rl_phrase = [], rl_detail = [],
     rl_retryAfter = 0, rl_pinHint = 0, rl_entitled = False, rl_account = False\<rparr>"

fun verdict_kind :: "rateLimitClass \<Rightarrow> bool \<Rightarrow> ErrorKind option" where
  "verdict_kind rateLimitSaturated entitled = Some KindProviderSaturated"
| "verdict_kind rateLimitExhausted entitled =
     (if entitled then Some KindProviderNotEntitled else Some KindProviderQuotaExhausted)"
| "verdict_kind rateLimitUnknown entitled = None"

definition errorKind :: "rateLimitVerdict \<Rightarrow> ErrorKind option" where
  "errorKind v = verdict_kind (rl_class v) (rl_entitled v)"

definition defaultSaturationMaxWait :: duration where "defaultSaturationMaxWait = 60 * second"
definition defaultRecentSuccessWindow :: duration where "defaultRecentSuccessWindow = 60 * second"
definition defaultSaturatedRetryAfter :: duration where "defaultSaturatedRetryAfter = 2 * second"
definition pinHintWindow :: duration where "pinHintWindow = 30 * minute"
definition pinHintWeekly :: duration where "pinHintWeekly = 2 * hour"
definition pinHintUntilPaid :: duration where "pinHintUntilPaid = 90 * 24 * hour"
definition bodyResetHintMax :: duration where "bodyResetHintMax = 30 * 24 * hour"

subsection \<open>The phrase table\<close>

record rateLimitPhrase =
  ph_phrase :: string
  ph_also :: string
  ph_class :: rateLimitClass
  ph_pinHint :: duration
  ph_entitled :: bool
  ph_perModel :: bool

definition unpaid :: "string \<Rightarrow> bool \<Rightarrow> rateLimitPhrase" where
  "unpaid p perModel = \<lparr>ph_phrase = p, ph_also = [], ph_class = rateLimitExhausted,
     ph_pinHint = pinHintUntilPaid, ph_entitled = True, ph_perModel = perModel\<rparr>"

definition spent :: "string \<Rightarrow> string \<Rightarrow> duration \<Rightarrow> rateLimitPhrase" where
  "spent p also' hint = \<lparr>ph_phrase = p, ph_also = also', ph_class = rateLimitExhausted,
     ph_pinHint = hint, ph_entitled = False, ph_perModel = False\<rparr>"

definition busy :: "string \<Rightarrow> string \<Rightarrow> rateLimitPhrase" where
  "busy p also' = \<lparr>ph_phrase = p, ph_also = also', ph_class = rateLimitSaturated,
     ph_pinHint = 0, ph_entitled = False, ph_perModel = False\<rparr>"

definition rateLimitPhrases :: "rateLimitPhrase list" where
  "rateLimitPhrases =
    [unpaid ''no resource package'' True,
     unpaid ''insufficient balance'' False,
     unpaid ''please recharge'' False,
     unpaid ''insufficient_quota'' False,
     unpaid ''exceeded your current quota'' False,
     unpaid ''billing hard limit'' False,
     unpaid ''credit balance is too low'' False,
     spent ''limit exhausted'' ''reset'' pinHintWeekly,
     spent ''weekly usage limit'' [] pinHintWeekly,
     spent ''usage limit reached'' [] pinHintWindow,
     spent ''session usage limit'' [] pinHintWindow,
     spent ''usage limit'' ''upgrade'' pinHintWindow,
     spent ''overage_limit'' [] pinHintWindow,
     busy ''concurrent_budget_exceeded'' [],
     busy ''rate_limit_error'' ''concurr'',
     busy ''too many concurrent'' [],
     busy ''concurrency limit'' [],
     busy ''rate limit exceeded'' [],
     busy ''requests per minute'' [],
     busy ''tokens per minute'' [],
     busy ''please try again in'' [],
     busy ''overloaded'' [],
     busy ''slow down'' []]"

definition miniMaxCode :: "string \<Rightarrow> regexp" where
  "miniMaxCode code =
     RSeq (RLit ([CHR 0x22] @ ''status_code'' @ [CHR 0x22])) (RSeq (RStar (RClass is_rx_space)) (RSeq (RLit '':'')
       (RSeq (RStar (RClass is_rx_space)) (RSeq (ROpt (RLit [CHR 0x22])) (RSeq (RLit code) RWordEdge)))))"

definition miniMaxBalanceCode :: regexp where "miniMaxBalanceCode = miniMaxCode ''1008''"
definition miniMaxWindowCode :: regexp where "miniMaxWindowCode = miniMaxCode ''1039''"
definition miniMaxBalancePhrase :: string where "miniMaxBalancePhrase = ''minimax status_code 1008''"
definition miniMaxWindowPhrase :: string where "miniMaxWindowPhrase = ''minimax status_code 1039''"

subsection \<open>Stated waits\<close>

record dates =
  http_ParseTime :: "string \<Rightarrow> instant option"
  time_Parse_RFC3339 :: "string \<Rightarrow> instant option"

definition parseRetryAfter :: "dates \<Rightarrow> instant \<Rightarrow> string \<Rightarrow> duration option" where
  "parseRetryAfter ds now v =
     (let v = TrimSpace v
      in if v = [] then None
         else (case ParseInt v of
                 Some secs \<Rightarrow>
                   if secs \<le> 0 then None
                   else Some (wrap64 (min secs (go_quot bodyResetHintMax second) * second))
               | None \<Rightarrow>
                   (case http_ParseTime ds v of
                      Some t \<Rightarrow> (let d = time_sub t now in if d > 0 then Some d else None)
                    | None \<Rightarrow> None)))"

text \<open>The Unix epoch, counted like every instant from the zero time.\<close>

definition unixEpoch :: instant where "unixEpoch = 62135596800 * second"

definition parseResetValue :: "dates \<Rightarrow> instant \<Rightarrow> string \<Rightarrow> duration option" where
  "parseResetValue ds now v =
     (let v = TrimSpace v; until = (\<lambda>t. let d = time_sub t now in if d > 0 then Some d else None)
      in if v = [] then None
         else (case ParseInt v of
                 Some n \<Rightarrow>
                   if n \<le> 0 then None
                   else if n < 10 ^ 9 then Some (wrap64 (n * second))
                   else if n < 10 ^ 12 then until (unixEpoch + n * second)
                   else until (unixEpoch + n * millisecond)
               | None \<Rightarrow>
                   (case ParseDuration v of
                      Some d \<Rightarrow>
                        if d > 0 then Some d
                        else (case time_Parse_RFC3339 ds v of Some t \<Rightarrow> until t | None \<Rightarrow> None)
                    | None \<Rightarrow> (case time_Parse_RFC3339 ds v of Some t \<Rightarrow> until t | None \<Rightarrow> None))))"

definition reset_headers :: "string list" where
  "reset_headers = [''X-RateLimit-Reset-Requests'', ''X-RateLimit-Reset-Tokens'', ''X-RateLimit-Reset'',
     ''anthropic-ratelimit-requests-reset'', ''anthropic-ratelimit-tokens-reset'',
     ''anthropic-ratelimit-input-tokens-reset'', ''anthropic-ratelimit-output-tokens-reset'']"

fun longest_reset :: "dates \<Rightarrow> instant \<Rightarrow> (string \<Rightarrow> string) \<Rightarrow> string list \<Rightarrow> duration \<times> bool \<Rightarrow> duration \<times> bool" where
  "longest_reset ds now hdr [] acc = acc"
| "longest_reset ds now hdr (key # keys) (longest, found) =
     longest_reset ds now hdr keys
       (case parseResetValue ds now (hdr key) of
          Some d \<Rightarrow> if d > longest then (d, True) else (longest, found)
        | None \<Rightarrow> (longest, found))"

definition rateLimitResetHint :: "dates \<Rightarrow> instant \<Rightarrow> (string \<Rightarrow> string) \<Rightarrow> duration option" where
  "rateLimitResetHint ds now hdr =
     (case parseRetryAfter ds now (hdr ''Retry-After'') of
        Some d \<Rightarrow> Some d
      | None \<Rightarrow> (case longest_reset ds now hdr reset_headers (0, False) of
                   (longest, found) \<Rightarrow> if found then Some longest else None))"

definition decimal_re :: regexp where
  "decimal_re = RSeq (RPlus (RClass is_digit)) (ROpt (RSeq (RLit ''.'') (RPlus (RClass is_digit))))"

definition retry_words_re :: regexp where
  "retry_words_re = RSeq (RAlt (RLit ''retry'') (RLit ''try again'')) (RSeq (RPlus (RClass is_rx_space))
     (RSeq (RAlt (RLit ''in'') (RLit ''after'')) (RPlus (RClass is_rx_space))))"

definition bodyRetryDelayRe :: regexp where
  "bodyRetryDelayRe = RSeq (RLit ([CHR 0x22] @ ''retrydelay'' @ [CHR 0x22])) (RSeq (RStar (RClass is_rx_space))
     (RSeq (RLit '':'') (RSeq (RStar (RClass is_rx_space)) (RSeq (RLit [CHR 0x22])
       (RSeq (RGroup 1 decimal_re) (RLit (''s'' @ [CHR 0x22])))))))"

definition bodyRetryGoDurRe :: regexp where
  "bodyRetryGoDurRe = RSeq retry_words_re (RSeq
     (RGroup 1 (RPlus (RSeq decimal_re (RAlt (RLit ''ms'') (RAlt (RLit ''h'') (RAlt (RLit ''m'') (RLit ''s'')))))))
     (RAlt (RClass (\<lambda>c. \<not> is_lower c)) REndText))"

definition bodyRetryWordsRe :: regexp where
  "bodyRetryWordsRe = RSeq retry_words_re (RSeq (RGroup 1 decimal_re)
     (RSeq (RPlus (RClass is_rx_space)) (RGroup 2 (RPlus (RClass is_lower)))))"

definition bodyUnitDurations :: "duration gomap" where
  "bodyUnitDurations = [(''second'', second), (''seconds'', second), (''sec'', second), (''secs'', second),
     (''minute'', minute), (''minutes'', minute), (''min'', minute), (''mins'', minute),
     (''hour'', hour), (''hours'', hour), (''day'', 24 * hour), (''days'', 24 * hour)]"

definition plausibleWait :: "duration \<Rightarrow> duration option" where
  "plausibleWait d = (if d \<le> 0 \<or> d > bodyResetHintMax then None else Some d)"

text \<open>\<open>time.Duration(n * float64(per))\<close>.\<close>

definition scaled_wait :: "rat \<Rightarrow> duration \<Rightarrow> duration" where
  "scaled_wait n per = Duration_of_float (fl64 (n * fl64 (of_int per)))"

text \<open>The three statements a body can carry, in the order they are read.\<close>

definition delay_detail :: "string \<Rightarrow> duration option" where
  "delay_detail body =
     (case FindStringSubmatch bodyRetryDelayRe body of
        None \<Rightarrow> None
      | Some m \<Rightarrow> (case ParseFloat (m 1) of None \<Rightarrow> None | Some secs \<Rightarrow> plausibleWait (scaled_wait secs second)))"

definition go_duration_wait :: "string \<Rightarrow> duration option" where
  "go_duration_wait body =
     (case FindStringSubmatch bodyRetryGoDurRe body of
        None \<Rightarrow> None
      | Some m \<Rightarrow> (case ParseDuration (m 1) of None \<Rightarrow> None | Some d \<Rightarrow> plausibleWait d))"

definition words_wait :: "string \<Rightarrow> duration option" where
  "words_wait body =
     (case FindStringSubmatch bodyRetryWordsRe body of
        None \<Rightarrow> None
      | Some m \<Rightarrow>
          (case (ParseFloat (m 1), gm_get bodyUnitDurations (m 2)) of
             (Some n, Some per) \<Rightarrow> plausibleWait (scaled_wait n per)
           | _ \<Rightarrow> None))"

definition bodyResetHint :: "string \<Rightarrow> (duration \<times> bool) option" where
  "bodyResetHint body =
     (case delay_detail body of
        Some d \<Rightarrow> Some (d, True)
      | None \<Rightarrow> (case go_duration_wait body of
                   Some d \<Rightarrow> Some (d, False)
                 | None \<Rightarrow> (case words_wait body of Some d \<Rightarrow> Some (d, False) | None \<Rightarrow> None)))"

definition longestResetHint :: "dates \<Rightarrow> instant \<Rightarrow> (string \<Rightarrow> string) \<Rightarrow> string \<Rightarrow> duration option" where
  "longestResetHint ds now hdr body =
     (case (rateLimitResetHint ds now hdr, bodyResetHint body) of
        (Some hw, Some (bw, _)) \<Rightarrow> Some (max hw bw)
      | (Some hw, None) \<Rightarrow> Some hw
      | (None, Some (bw, _)) \<Rightarrow> Some bw
      | (None, None) \<Rightarrow> None)"

definition providerResetHint :: "dates \<Rightarrow> instant \<Rightarrow> (string \<Rightarrow> string) \<Rightarrow> string \<Rightarrow> duration option" where
  "providerResetHint ds now hdr body =
     (case rateLimitResetHint ds now hdr of
        Some d \<Rightarrow> Some d
      | None \<Rightarrow> map_option fst (bodyResetHint body))"

subsection \<open>The classifier\<close>

definition exhaustedVerdict ::
    "dates \<Rightarrow> instant \<Rightarrow> (string \<Rightarrow> string) \<Rightarrow> string \<Rightarrow> duration \<Rightarrow> duration \<Rightarrow> bool \<Rightarrow> rateLimitVerdict" where
  "exhaustedVerdict ds now hdr body maxWait phraseHint entitled =
     (let v = no_verdict\<lparr>rl_class := rateLimitExhausted, rl_pinHint := phraseHint, rl_entitled := entitled\<rparr>;
          rest = (case bodyResetHint body of
              None \<Rightarrow> v
            | Some (wait, structured) \<Rightarrow>
                if wait > maxWait then v\<lparr>rl_pinHint := wait, rl_entitled := False\<rparr>
                else if structured then no_verdict\<lparr>rl_class := rateLimitSaturated, rl_retryAfter := wait\<rparr>
                else v)
      in case rateLimitResetHint ds now hdr of
           Some wait \<Rightarrow> if wait > maxWait then v\<lparr>rl_pinHint := wait\<rparr> else rest
         | None \<Rightarrow> rest)"

definition saturatedVerdict ::
    "dates \<Rightarrow> instant \<Rightarrow> (string \<Rightarrow> string) \<Rightarrow> string \<Rightarrow> duration \<Rightarrow> rateLimitVerdict" where
  "saturatedVerdict ds now hdr body maxWait =
     (case longestResetHint ds now hdr body of
        Some wait \<Rightarrow>
          if wait > maxWait then no_verdict\<lparr>rl_class := rateLimitExhausted, rl_pinHint := wait\<rparr>
          else no_verdict\<lparr>rl_class := rateLimitSaturated, rl_retryAfter := wait\<rparr>
      | None \<Rightarrow> no_verdict\<lparr>rl_class := rateLimitSaturated, rl_retryAfter := defaultSaturatedRetryAfter\<rparr>)"

definition phrase_matches :: "string \<Rightarrow> rateLimitPhrase \<Rightarrow> bool" where
  "phrase_matches b p \<longleftrightarrow> Contains b (ph_phrase p) \<and> (ph_also p = [] \<or> Contains b (ph_also p))"

fun phrase_verdict ::
    "dates \<Rightarrow> instant \<Rightarrow> (string \<Rightarrow> string) \<Rightarrow> string \<Rightarrow> duration \<Rightarrow> rateLimitPhrase list \<Rightarrow> rateLimitVerdict option" where
  "phrase_verdict ds now hdr b maxWait [] = None"
| "phrase_verdict ds now hdr b maxWait (p # ps) =
     (if \<not> phrase_matches b p \<or> ph_class p = rateLimitUnknown
      then phrase_verdict ds now hdr b maxWait ps
      else (let v = (if ph_class p = rateLimitExhausted
                     then exhaustedVerdict ds now hdr b maxWait (ph_pinHint p) (ph_entitled p)
                     else saturatedVerdict ds now hdr b maxWait)
            in Some (v\<lparr>rl_phrase := ph_phrase p,
                       rl_account := rl_class v = rateLimitExhausted \<and> rl_entitled v \<and> \<not> ph_perModel p\<rparr>)))"

definition classifyRateLimit ::
    "dates \<Rightarrow> instant \<Rightarrow> int \<Rightarrow> (string \<Rightarrow> string) \<Rightarrow> string \<Rightarrow> duration \<Rightarrow> rateLimitVerdict" where
  "classifyRateLimit ds now status hdr body maxWait0 =
     (if status \<noteq> 429 then no_verdict
      else
        (let maxWait = (if maxWait0 \<le> 0 then defaultSaturationMaxWait else maxWait0);
             b = ToLower body
         in case phrase_verdict ds now hdr b maxWait rateLimitPhrases of
              Some v \<Rightarrow> v
            | None \<Rightarrow>
                if MatchString miniMaxBalanceCode b
                then (let v = exhaustedVerdict ds now hdr b maxWait pinHintUntilPaid True
                      in v\<lparr>rl_phrase := miniMaxBalancePhrase, rl_account := rl_entitled v\<rparr>)
                else if MatchString miniMaxWindowCode b
                then (exhaustedVerdict ds now hdr b maxWait pinHintWindow False)\<lparr>rl_phrase := miniMaxWindowPhrase\<rparr>
                else (case providerResetHint ds now hdr b of
                        Some wait \<Rightarrow>
                          if wait \<le> maxWait
                          then no_verdict\<lparr>rl_class := rateLimitSaturated, rl_retryAfter := wait\<rparr>
                          else no_verdict\<lparr>rl_class := rateLimitExhausted, rl_pinHint := wait\<rparr>
                      | None \<Rightarrow> no_verdict)))"

subsection \<open>Wording and status\<close>

definition rateLimitClientReason :: "rateLimitClass \<Rightarrow> string" where
  "rateLimitClientReason class =
     (if class = rateLimitExhausted then ''the provider's usage quota is exhausted; retry after it resets''
      else ''the provider is at capacity; retry shortly'')"

definition rateLimitTerminalKind ::
    "ErrorKind \<Rightarrow> string \<Rightarrow> int \<Rightarrow> rateLimitVerdict \<Rightarrow> ErrorKind \<times> string" where
  "rateLimitTerminalKind kind reason status v =
     (if status \<noteq> 429 \<or> kind \<noteq> KindProviderError then (kind, reason)
      else (case errorKind v of Some k \<Rightarrow> (k, rateLimitClientReason (rl_class v)) | None \<Rightarrow> (kind, reason)))"

definition retryAfterSeconds :: "duration \<Rightarrow> int" where
  "retryAfterSeconds d0 =
     (let d = (if d0 \<le> 0 then defaultSaturatedRetryAfter else d0)
      in go_quot (wrap64 (wrap64 (d + second) - 1)) second)"

end
