(* ===== verification/Req_Error.thy ===== *)
theory Req_Error
  imports Rate_Limit
begin

text \<open>
  The structured cause of a failed attempt and the terminal verdict of a request no candidate
  served (\<open>internal/proxy/reqerror.go\<close>, \<open>verdict.go\<close>, \<open>failover_exhausted.go\<close>). An unset kind is
  \<open>None\<close>. Upstream text passes through \<open>fence\<close>, the masking and fencing of the request's own
  content, before it is recorded.
\<close>

record reqError =
  re_Kind :: "ErrorKind option"
  re_Attempt :: int
  re_Provider :: string
  re_Model :: string
  re_Underlying :: string
  re_Detail :: string
  re_Hint :: string

definition no_error :: reqError where
  "no_error = \<lparr>re_Kind = None, re_Attempt = 0, re_Provider = [], re_Model = [], re_Underlying = [],
     re_Detail = [], re_Hint = []\<rparr>"

definition req_error :: "ErrorKind \<Rightarrow> int \<Rightarrow> string \<Rightarrow> reqError" where
  "req_error kind attempt provider = no_error\<lparr>re_Kind := Some kind, re_Attempt := attempt, re_Provider := provider\<rparr>"

definition statusClientClosedRequest :: int where "statusClientClosedRequest = 499"

fun cancelOriginToKind :: "string \<Rightarrow> ErrorKind" where
  "cancelOriginToKind origin =
     (if origin = ''client_disconnect'' then KindClientDisconnect
      else if origin = ''failover_timeout'' then KindFailoverTimeout
      else if origin = ''retry_timeout'' then KindRetryTimeout
      else if origin = ''hedge_superseded'' then KindHedgeSuperseded
      else KindInternal)"

text \<open>\<open>cancelKind\<close> and \<open>abortKind\<close>: the interruption is the origin \<open>resolveCancelOrigin\<close> names when
  the error or the context is a cancellation, \<open>None\<close> when neither is.\<close>

definition cancelKind :: "string option \<Rightarrow> ErrorKind option" where
  "cancelKind interrupted = map_option cancelOriginToKind interrupted"

definition abortKind :: "string option \<Rightarrow> ErrorKind option \<times> bool \<times> bool" where
  "abortKind interrupted =
     (case cancelKind interrupted of
        None \<Rightarrow> (None, False, False)
      | Some kind \<Rightarrow>
          if kind = KindClientDisconnect \<or> kind = KindHedgeSuperseded then (Some kind, True, True)
          else (Some KindProviderTimeout, True, False))"

definition requestAbandoned :: "string option \<Rightarrow> bool" where
  "requestAbandoned interrupted = (case abortKind interrupted of (_, _, abandoned) \<Rightarrow> abandoned)"

subsection \<open>Rendering\<close>

text \<open>The verb \<open>%q\<close>: quotes, backslashes and control bytes are escaped; other bytes are printable.\<close>

definition hex_digit :: "nat \<Rightarrow> char" where
  "hex_digit n = (if n < 10 then char_of (48 + n) else char_of (87 + n))"

definition escape_char :: "char \<Rightarrow> string" where
  "escape_char c =
     (if c = CHR 0x22 then [CHR 0x5C, CHR 0x22]
      else if c = CHR 0x5C then [CHR 0x5C, CHR 0x5C]
      else if c = CHR 0x07 then [CHR 0x5C, CHR ''a'']
      else if c = CHR 0x08 then [CHR 0x5C, CHR ''b'']
      else if c = CHR 0x0C then [CHR 0x5C, CHR ''f'']
      else if c = CHR 0x0A then [CHR 0x5C, CHR ''n'']
      else if c = CHR 0x0D then [CHR 0x5C, CHR ''r'']
      else if c = CHR 0x09 then [CHR 0x5C, CHR ''t'']
      else if c = CHR 0x0B then [CHR 0x5C, CHR ''v'']
      else if (of_char c :: nat) < 32 \<or> (of_char c :: nat) = 127
      then [CHR 0x5C, CHR ''x'', hex_digit (of_char c div 16), hex_digit (of_char c mod 16)]
      else [c])"

definition quoted :: "string \<Rightarrow> string" where
  "quoted s = [CHR 0x22] @ concat (map escape_char s) @ [CHR 0x22]"

definition providerLabel :: "reqError \<Rightarrow> string" where
  "providerLabel e = (if re_Provider e = [] then ''the provider'' else ''provider '' @ quoted (re_Provider e))"

definition withUnderlying :: "reqError \<Rightarrow> string \<Rightarrow> string" where
  "withUnderlying e msg = (if re_Underlying e = [] then msg else msg @ ''; last provider error: '' @ re_Underlying e)"

definition render :: "reqError \<Rightarrow> string" where
  "render e =
     (let n = show_int (re_Attempt e + 1); label = providerLabel e; u = re_Underlying e
      in case re_Kind e of
           Some KindClientDisconnect \<Rightarrow>
             if u \<noteq> [] then ''client disconnected while retrying '' @ label @ '' (attempt '' @ n @ ''); last provider error: '' @ u
             else ''client disconnected during attempt '' @ n @ '' to '' @ label
         | Some KindProviderTimeout \<Rightarrow>
             (let base = label @ '' did not return a response in time on attempt '' @ n
              in withUnderlying e (if re_Hint e \<noteq> [] then base @ ''; '' @ re_Hint e else base))
         | Some KindFailoverTimeout \<Rightarrow>
             withUnderlying e (''request timed out while waiting on '' @ label @ '' (attempt '' @ n @ '')'')
         | Some KindRetryTimeout \<Rightarrow>
             withUnderlying e (''self-heal retry timed out on '' @ label @ '' (attempt '' @ n @ '')'')
         | Some KindInternal \<Rightarrow>
             if u \<noteq> [] then ''internal error on attempt '' @ n @ '': '' @ u
             else ''internal error on attempt '' @ n
         | Some KindValidation \<Rightarrow> if u \<noteq> [] then ''invalid request: '' @ u else ''invalid request''
         | Some KindAuth \<Rightarrow> ''authorization failed''
         | Some KindProviderModelGone \<Rightarrow>
             withUnderlying e (label @ '' no longer serves this model (attempt '' @ n @ '')'')
         | Some KindProviderNotEntitled \<Rightarrow>
             withUnderlying e (label @ '' rejected the request for billing or plan reasons on attempt '' @ n)
         | Some KindProviderSaturated \<Rightarrow>
             withUnderlying e (label @ '' is busy (rate limited at capacity) on attempt '' @ n)
         | Some KindProviderQuotaExhausted \<Rightarrow>
             withUnderlying e (label @ '' has spent its usage quota on attempt '' @ n)
         | Some KindProviderBadRequest \<Rightarrow>
             withUnderlying e (label @ '' rejected the request payload on attempt '' @ n)
         | Some KindHedgeSuperseded \<Rightarrow>
             withUnderlying e (''attempt '' @ n @ '' to '' @ label @ '' was superseded by a faster hedged attempt'')
         | _ \<Rightarrow>
             if re_Detail e \<noteq> [] then label @ '' returned '' @ re_Detail e @ '' on attempt '' @ n
             else if u \<noteq> [] then label @ '' failed on attempt '' @ n @ '': '' @ u
             else label @ '' failed on attempt '' @ n)"

definition terminalStatus :: "reqError \<Rightarrow> int" where
  "terminalStatus e =
     (case re_Kind e of
        Some KindClientDisconnect \<Rightarrow> statusClientClosedRequest
      | Some KindFailoverTimeout \<Rightarrow> 504
      | Some KindRetryTimeout \<Rightarrow> 504
      | Some KindValidation \<Rightarrow> 400
      | _ \<Rightarrow> 502)"

definition terminalLogMessage :: "reqError \<Rightarrow> bool \<Rightarrow> int \<Rightarrow> string" where
  "terminalLogMessage e isFailover numCandidates =
     (let last = render e
      in if re_Kind e \<in> {Some KindClientDisconnect, Some KindFailoverTimeout, Some KindRetryTimeout,
                         Some KindHedgeSuperseded, Some KindValidation}
         then last
         else if re_Kind e = Some KindProviderSaturated
         then (if isFailover \<and> numCandidates > 1
               then ''all '' @ show_int numCandidates @ '' providers busy; last error: '' @ last else last)
         else (if isFailover \<and> numCandidates > 1
               then ''all '' @ show_int numCandidates @ '' providers failed; last error: '' @ last else last))"

definition terminalClientMessage :: "reqError \<Rightarrow> string \<Rightarrow> bool \<Rightarrow> string" where
  "terminalClientMessage e reqModel isFailover =
     (case re_Kind e of
        Some KindClientDisconnect \<Rightarrow> ''client disconnected''
      | Some KindFailoverTimeout \<Rightarrow> ''request timed out for model '' @ reqModel
      | Some KindRetryTimeout \<Rightarrow> ''request timed out for model '' @ reqModel
      | Some KindHedgeSuperseded \<Rightarrow> ''request superseded for model '' @ reqModel
      | Some KindProviderSaturated \<Rightarrow>
          if isFailover then ''all providers busy for model '' @ reqModel @ '', retry shortly''
          else ''provider busy for model '' @ reqModel @ '', retry shortly''
      | Some KindValidation \<Rightarrow>
          if re_Underlying e \<noteq> [] then ''invalid request for model '' @ reqModel @ '': '' @ re_Underlying e
          else ''invalid request for model '' @ reqModel
      | _ \<Rightarrow>
          if isFailover then ''all providers failed for model '' @ reqModel
          else ''provider request failed for model '' @ reqModel)"

subsection \<open>The terminal verdict\<close>

definition busySkipDetail :: string where "busySkipDetail = ''at in-flight limit''"

definition isRoutedFailure :: "reqError \<Rightarrow> bool" where
  "isRoutedFailure e =
     (case re_Kind e of
        Some k \<Rightarrow>
          (if k \<in> {KindProviderError, KindProviderTimeout, KindProviderModelGone, KindProviderNotEntitled,
                   KindProviderBadRequest, KindProviderQuotaExhausted, KindRetryTimeout, KindFailoverTimeout}
           then True
           else if k = KindProviderSaturated then re_Detail e \<noteq> busySkipDetail
           else False)
      | None \<Rightarrow> False)"

text \<open>The part of \<open>requestState\<close> the verdict lives in.\<close>

record verdictState =
  vs_rateLimit :: rateLimitVerdict
  vs_lastReqErr :: reqError
  vs_lastErr :: string
  vs_terminalRateLimit :: rateLimitVerdict
  vs_routedFailure :: reqError
  vs_routedFailureRateLimit :: rateLimitVerdict

definition new_verdict :: verdictState where
  "new_verdict = \<lparr>vs_rateLimit = no_verdict, vs_lastReqErr = no_error, vs_lastErr = [],
     vs_terminalRateLimit = no_verdict, vs_routedFailure = no_error, vs_routedFailureRateLimit = no_verdict\<rparr>"

definition displaces_other :: "reqError \<Rightarrow> reqError \<Rightarrow> bool" where
  "displaces_other prev e \<longleftrightarrow> re_Kind prev \<noteq> None \<and> re_Kind prev \<noteq> Some KindValidation \<and> re_Kind prev \<noteq> Some KindInternal \<and>
     (re_Provider prev \<noteq> re_Provider e \<or> re_Model prev \<noteq> re_Model e)"

definition setReqErr :: "(string \<Rightarrow> string) \<Rightarrow> reqError \<Rightarrow> 'a verdictState_scheme \<Rightarrow> 'a verdictState_scheme" where
  "setReqErr fence e st =
     (let rl = vs_rateLimit st
      in if re_Kind e = Some KindValidation \<and> displaces_other (vs_lastReqErr st) e then st
         else if re_Kind e = Some KindValidation \<and> re_Kind (vs_routedFailure st) \<noteq> None
         then st\<lparr>vs_lastReqErr := vs_routedFailure st, vs_lastErr := render (vs_routedFailure st),
                 vs_terminalRateLimit := vs_routedFailureRateLimit st\<rparr>
         else
           (let e = e\<lparr>re_Underlying := fence (re_Underlying e)\<rparr>;
                st = st\<lparr>vs_lastReqErr := e, vs_terminalRateLimit := rl\<rparr>;
                st = (if isRoutedFailure e then st\<lparr>vs_routedFailure := e, vs_routedFailureRateLimit := rl\<rparr> else st)
            in st\<lparr>vs_lastErr := render e\<rparr>))"

definition rateLimitReqErr :: "rateLimitVerdict \<Rightarrow> int \<Rightarrow> string \<Rightarrow> reqError" where
  "rateLimitReqErr v attempt providerName =
     no_error\<lparr>re_Kind := errorKind v, re_Attempt := attempt, re_Provider := providerName,
              re_Detail := ''HTTP 429 ('' @ rateLimitClass_String (rl_class v) @ '')''\<rparr>"

definition failoverReqErr :: "rateLimitVerdict \<Rightarrow> int \<Rightarrow> string \<Rightarrow> int \<Rightarrow> reqError" where
  "failoverReqErr rl attempt providerName status =
     (if status = 429 \<and> rl_class rl \<noteq> rateLimitUnknown then rateLimitReqErr rl attempt providerName
      else no_error\<lparr>re_Kind := Some KindProviderError, re_Attempt := attempt, re_Provider := providerName,
                    re_Detail := ''HTTP '' @ show_int status\<rparr>)"

subsection \<open>Exhaustion\<close>

text \<open>What the client and the log are answered: status, kind, log message, client message, the
  \<open>Retry-After\<close> seconds and the label of the exhaustion metric (for a failover group).\<close>

record exhaustion =
  ex_status :: int
  ex_kind :: "ErrorKind option"
  ex_logMsg :: string
  ex_clientMsg :: string
  ex_retryAfter :: "int option"
  ex_reason :: "string option"

definition failAllExhausted :: "bool \<Rightarrow> bool \<Rightarrow> string \<Rightarrow> int \<Rightarrow> 'a verdictState_scheme \<Rightarrow> exhaustion" where
  "failAllExhausted status429 isFailover reqModel numCandidates st =
     (let last = vs_lastReqErr st; busy = re_Kind last = Some KindProviderSaturated \<and> status429
      in \<lparr>ex_status = (if busy then 429 else terminalStatus last),
          ex_kind = re_Kind last,
          ex_logMsg = terminalLogMessage last isFailover numCandidates,
          ex_clientMsg = terminalClientMessage last reqModel isFailover,
          ex_retryAfter = (if busy then Some (retryAfterSeconds (rl_retryAfter (vs_terminalRateLimit st))) else None),
          ex_reason = (if isFailover
                       then Some (if re_Kind last = Some KindProviderSaturated then ''all_busy''
                                  else if re_Kind last = Some KindValidation then ''invalid_request''
                                  else ''all_failed'')
                       else None)\<rparr>)"

text \<open>A group that resolved to no candidate. \<open>skips\<close> candidates were refused by the breaker, the
  earliest coming back at \<open>earliestRetry\<close>, all of them waiting out a quota pin or not.\<close>

definition failNoAvailableProvider ::
    "bool \<Rightarrow> string \<Rightarrow> string \<Rightarrow> nat \<Rightarrow> instant \<Rightarrow> bool \<Rightarrow> instant \<Rightarrow> exhaustion" where
  "failNoAvailableProvider status429 displayModel reason skips earliestRetry allPinned now =
     (let msg = ''no available provider for hotel/'' @ displayModel
      in if skips = 0 \<or> \<not> status429
         then \<lparr>ex_status = 502, ex_kind = Some KindProviderError, ex_logMsg = msg, ex_clientMsg = msg,
               ex_retryAfter = None, ex_reason = Some reason\<rparr>
         else
           (let retryIn = min (max (time_sub earliestRetry now) second) defaultSaturationMaxWait;
                secs = retryAfterSeconds retryIn;
                kind = (if allPinned then KindProviderQuotaExhausted else KindProviderSaturated);
                msg = msg @ ''; earliest retry in '' @ show_int secs @ ''s''
            in \<lparr>ex_status = 429, ex_kind = Some kind, ex_logMsg = msg, ex_clientMsg = msg,
                ex_retryAfter = Some secs, ex_reason = Some reason\<rparr>))"

subsection \<open>The verdict of a run\<close>

text \<open>A run of failed attempts: each sets its own 429 verdict, then records its error.\<close>

fun verdict_run :: "(string \<Rightarrow> string) \<Rightarrow> (rateLimitVerdict \<times> reqError) list \<Rightarrow> 'a verdictState_scheme \<Rightarrow> 'a verdictState_scheme" where
  "verdict_run fence [] st = st"
| "verdict_run fence ((rl, e) # es) st = verdict_run fence es (setReqErr fence e (st\<lparr>vs_rateLimit := rl\<rparr>))"

definition fenced :: "(string \<Rightarrow> string) \<Rightarrow> reqError \<Rightarrow> reqError" where
  "fenced fence e = e\<lparr>re_Underlying := fence (re_Underlying e)\<rparr>"

lemma fenced_sel [simp]:
  "re_Kind (fenced fence e) = re_Kind e" "isRoutedFailure (fenced fence e) = isRoutedFailure e"
  by (simp_all add: fenced_def isRoutedFailure_def split: option.split)

text \<open>The verdict always is one attempt's error together with that attempt's own 429 verdict, a
  remembered routed failure likewise, and once a routed failure is remembered the verdict is no
  refusal of the caller's body.\<close>

definition verdict_inv :: "(string \<Rightarrow> string) \<Rightarrow> (rateLimitVerdict \<times> reqError) set \<Rightarrow> 'a verdictState_scheme \<Rightarrow> bool" where
  "verdict_inv fence seen st \<longleftrightarrow>
     (vs_lastReqErr st = no_error \<and> seen = {} \<or>
      (\<exists>(rl, e)\<in>seen. vs_lastReqErr st = fenced fence e \<and> vs_terminalRateLimit st = rl)) \<and>
     (if \<exists>(rl, e)\<in>seen. isRoutedFailure e
      then (\<exists>(rl, e)\<in>seen. isRoutedFailure e \<and> vs_routedFailure st = fenced fence e \<and> vs_routedFailureRateLimit st = rl) \<and>
           re_Kind (vs_lastReqErr st) \<noteq> Some KindValidation
      else re_Kind (vs_routedFailure st) = None)"

lemma routed_kind: "isRoutedFailure e \<Longrightarrow> re_Kind e \<noteq> None \<and> re_Kind e \<noteq> Some KindValidation"
  by (auto simp: isRoutedFailure_def split: option.splits if_splits)

lemma setReqErr_inv:
  assumes "verdict_inv fence seen st" "re_Kind e \<noteq> None"
  shows "verdict_inv fence (insert (rl, e) seen) (setReqErr fence e (st\<lparr>vs_rateLimit := rl\<rparr>))"
proof (cases "re_Kind e = Some KindValidation")
  case False
  then have s: "setReqErr fence e (st\<lparr>vs_rateLimit := rl\<rparr>) =
      (let st = st\<lparr>vs_rateLimit := rl, vs_lastReqErr := fenced fence e, vs_terminalRateLimit := rl\<rparr>;
           st = (if isRoutedFailure e then st\<lparr>vs_routedFailure := fenced fence e, vs_routedFailureRateLimit := rl\<rparr> else st)
       in st\<lparr>vs_lastErr := render (fenced fence e)\<rparr>)"
    using fenced_sel(2) [of fence e] by (simp add: setReqErr_def fenced_def Let_def)
  show ?thesis using assms False unfolding s verdict_inv_def by (auto simp: Let_def split: if_splits)
next
  case True
  then have nr: "\<not> isRoutedFailure e" by (simp add: isRoutedFailure_def)
  show ?thesis
  proof (cases "displaces_other (vs_lastReqErr st) e")
    case disp: True
    then have "vs_lastReqErr st \<noteq> no_error" by (auto simp: displaces_other_def no_error_def)
    then show ?thesis using assms True nr disp by (auto simp: setReqErr_def verdict_inv_def Let_def)
  next
    case False
    show ?thesis
    proof (cases "\<exists>(rl, e)\<in>seen. isRoutedFailure e")
      case routed: True
      then obtain r x where x: "(r, x) \<in> seen" "isRoutedFailure x" "vs_routedFailure st = fenced fence x"
        "vs_routedFailureRateLimit st = r" using assms(1) by (auto simp: verdict_inv_def)
      then have "re_Kind (vs_routedFailure st) \<noteq> None" using routed_kind [OF x(2)] by simp
      then show ?thesis using True False nr x routed routed_kind [OF x(2)]
        by (auto simp: setReqErr_def verdict_inv_def Let_def)
    next
      case unrouted: False
      then have "re_Kind (vs_routedFailure st) = None" using assms(1) by (auto simp: verdict_inv_def split: if_splits)
      then show ?thesis using True False nr unrouted
        by (auto simp: setReqErr_def verdict_inv_def Let_def fenced_def isRoutedFailure_def)
    qed
  qed
qed

lemma verdict_run_inv:
  assumes "verdict_inv fence seen st" "\<forall>(rl, e)\<in>set es. re_Kind e \<noteq> None"
  shows "verdict_inv fence (set es \<union> seen) (verdict_run fence es st)"
  using assms
proof (induction es arbitrary: seen st)
  case (Cons p es)
  obtain rl e where p: "p = (rl, e)" by (cases p)
  have "verdict_inv fence (insert (rl, e) seen) (setReqErr fence e (st\<lparr>vs_rateLimit := rl\<rparr>))"
    using Cons.prems p by (intro setReqErr_inv) auto
  from Cons.IH [OF this] Cons.prems(2) p show ?case by (simp add: Un_commute)
qed simp

end
