(* ===== verification/Attempt_Outcome.thy ===== *)
theory Attempt_Outcome
  imports Req_Error Breaker_Ops
begin

text \<open>
  What an attempt tells the gateway's shared state (\<open>internal/proxy/breaker_outcome.go\<close>, the end of
  \<open>rate_limit_classify.go\<close>, \<open>stream_finalize.go\<close>): one response is classified, teaches the in-flight
  limiter, is noted in the cap ledger and charged or credited to the circuit breaker. Log lines
  are left out; the breaker's own emissions are collected in \<open>gw_emitted\<close>. The values the settings
  repository answers are the fields of \<open>proxySettings\<close>.
\<close>

record modelCandidate =
  mc_providerID :: string
  mc_providerName :: string
  mc_model :: string
  mc_maxInFlight :: "int option"

record proxySettings =
  ps_classifyEnabled :: bool
  ps_openOnExhaustion :: bool
  ps_failoverOnRateLimit :: bool
  ps_saturationMaxWait :: duration
  ps_recentSuccessWindow :: duration
  ps_growAfter :: int
  ps_forgetAfter :: duration

text \<open>The head of the body is the text \<open>SanitizeLogBody\<close> leaves of it.\<close>

record upstreamResp =
  rs_status :: int
  rs_header :: "string \<Rightarrow> string"
  rs_head :: string

record CapNote =
  cn_Phrase :: string
  cn_Model :: string
  cn_Entitled :: bool
  cn_At :: instant

record gateway =
  gw_breaker :: CircuitBreaker
  gw_inflight :: "inflightLimiter option"
  gw_caps :: "CapNote gomap"
  gw_rateLimits :: "(string \<times> string \<times> string) list"
  gw_emitted :: afterUnlock

record requestState = verdictState +
  st_circuitBreakerEnabled :: bool
  st_inflightEnabled :: bool
  st_attemptSlot :: "attemptSlot option"
  st_attemptBreaker :: string
  st_attemptPhrase :: string
  st_saturationRetried :: bool
  st_serverErrorRetried :: bool
  st_serverErrorRetryEnabled :: bool
  st_overallDeadline :: instant

type_synonym attempt_world = "requestState \<times> gateway"

subsection \<open>Notes and ledger\<close>

definition breakerCharge :: string where "breakerCharge = ''charge''"
definition breakerNoop :: string where "breakerNoop = ''noop''"
definition breakerSuccess :: string where "breakerSuccess = ''success''"
definition breakerAlive :: string where "breakerAlive = ''alive''"

definition noteBreaker :: "string \<Rightarrow> requestState \<Rightarrow> requestState" where
  "noteBreaker verdict st = st\<lparr>st_attemptBreaker := verdict\<rparr>"

definition noteAttemptPhrase :: "string \<Rightarrow> requestState \<Rightarrow> requestState" where
  "noteAttemptPhrase phrase st = st\<lparr>st_attemptPhrase := phrase\<rparr>"

definition CapLedger_Note :: "string \<Rightarrow> CapNote \<Rightarrow> gateway \<Rightarrow> gateway" where
  "CapLedger_Note providerID n gw = gw\<lparr>gw_caps := gm_put providerID n (gw_caps gw)\<rparr>"

definition CapLedger_Get :: "gateway \<Rightarrow> string \<Rightarrow> CapNote option" where
  "CapLedger_Get gw providerID = gm_get (gw_caps gw) providerID"

text \<open>A breaker operation that hands back emissions.\<close>

definition tell_breaker :: "CircuitBreaker \<times> afterUnlock \<Rightarrow> gateway \<Rightarrow> gateway" where
  "tell_breaker r gw = gw\<lparr>gw_breaker := fst r, gw_emitted := gw_emitted gw @ snd r\<rparr>"

definition settle_slot :: "proxySettings \<Rightarrow> slotOutcome \<Rightarrow> instant \<Rightarrow> attempt_world \<Rightarrow> attempt_world" where
  "settle_slot ps outcome now w = (case w of (st, gw) \<Rightarrow>
     (case st_attemptSlot st of
        None \<Rightarrow> (st, gw)
      | Some s \<Rightarrow>
          (case settle s outcome (ps_growAfter ps) (ps_forgetAfter ps) now (gw_inflight gw) of
             (s', limiter) \<Rightarrow> (st\<lparr>st_attemptSlot := Some s'\<rparr>, gw\<lparr>gw_inflight := limiter\<rparr>))))"

text \<open>\<open>admitCandidate\<close> on the request state: a skip is recorded like a saturated 429.\<close>

definition admit_attempt :: "modelCandidate \<Rightarrow> attempt_world \<Rightarrow> bool \<times> attempt_world" where
  "admit_attempt cand w = (case w of (st, gw) \<Rightarrow>
     (case admitCandidate (st_inflightEnabled st) (gw_inflight gw) (mc_providerID cand) (providerCeiling (mc_maxInFlight cand)) of
        (ok, slot, limiter) \<Rightarrow>
          (ok, (if ok then st\<lparr>st_attemptSlot := slot\<rparr>
                else st\<lparr>st_attemptSlot := None,
                        vs_rateLimit := no_verdict\<lparr>rl_classified := True, rl_class := rateLimitSaturated,
                                                   rl_retryAfter := defaultSaturatedRetryAfter\<rparr>\<rparr>),
           gw\<lparr>gw_inflight := limiter\<rparr>)))"

subsection \<open>Status policy\<close>

datatype breakerAction = breakerActionFailure | breakerActionNoOp | breakerActionSuccess

definition breakerRecordAction :: "int \<Rightarrow> breakerAction" where
  "breakerRecordAction statusCode =
     (if statusCode = 429 \<or> statusCode \<ge> 500 \<or> statusCode = 401 \<or> statusCode = 403 \<or> statusCode = 402
      then breakerActionFailure
      else if statusCode = 404 \<or> statusCode = statusClientClosedRequest then breakerActionNoOp
      else breakerActionSuccess)"

definition shouldFailover :: "proxySettings \<Rightarrow> int \<Rightarrow> bool" where
  "shouldFailover ps statusCode =
     (if statusCode \<ge> 500 then True
      else if statusCode = 429 then ps_failoverOnRateLimit ps
      else statusCode \<in> {401, 402, 403, 404, 499})"

definition retryableServerError :: "int \<Rightarrow> bool" where
  "retryableServerError status \<longleftrightarrow> status \<in> {500, 502, 503, 504}"

fun providerAtFault :: "ErrorKind \<Rightarrow> bool" where
  "providerAtFault KindProviderError = True"
| "providerAtFault KindProviderTimeout = True"
| "providerAtFault KindProviderModelGone = True"
| "providerAtFault _ = False"

subsection \<open>The breaker outcome of a response\<close>

definition charge :: "modelCandidate \<Rightarrow> Cause \<Rightarrow> rng \<Rightarrow> instant \<Rightarrow> gateway \<Rightarrow> gateway" where
  "charge cand cause g now gw =
     tell_breaker (RecordFailure (gw_breaker gw) (mc_providerID cand) (mc_providerName cand) (mc_model cand) cause g now) gw"

definition charge429 :: "modelCandidate \<Rightarrow> Cause \<Rightarrow> rng \<Rightarrow> instant \<Rightarrow> gateway \<Rightarrow> gateway" where
  "charge429 cand cause g now gw =
     tell_breaker (RecordRateLimited (gw_breaker gw) (mc_providerID cand) (mc_providerName cand) (mc_model cand) cause g now) gw"

definition recordRateLimitOutcome ::
    "proxySettings \<Rightarrow> modelCandidate \<Rightarrow> rateLimitVerdict \<Rightarrow> rng \<Rightarrow> instant \<Rightarrow> attempt_world \<Rightarrow> attempt_world" where
  "recordRateLimitOutcome ps cand rl g now w = (case w of (st, gw) \<Rightarrow>
     (case rl_class rl of
        rateLimitSaturated \<Rightarrow>
          (noteBreaker breakerNoop st,
           gw\<lparr>gw_breaker := RecordSaturated (gw_breaker gw) (mc_providerID cand) (mc_providerName cand) (mc_model cand) now\<rparr>)
      | rateLimitExhausted \<Rightarrow>
          (noteBreaker breakerCharge st,
           if \<not> ps_openOnExhaustion ps
           then charge429 cand (UpstreamStatus 429 ''exhausted, not opened by setting'') g now gw
           else tell_breaker
             ((if rl_account rl then RecordExhaustedAccount else RecordExhausted)
                (gw_breaker gw) (mc_providerID cand) (mc_providerName cand) (mc_model cand) 429 (rl_pinHint rl) g now) gw)
      | rateLimitUnknown \<Rightarrow> (st, gw)))"

definition recordPaymentRequiredOutcome ::
    "proxySettings \<Rightarrow> modelCandidate \<Rightarrow> rng \<Rightarrow> instant \<Rightarrow> attempt_world \<Rightarrow> attempt_world" where
  "recordPaymentRequiredOutcome ps cand g now w = (case w of (st, gw) \<Rightarrow>
     (noteBreaker breakerCharge st,
      if \<not> ps_openOnExhaustion ps
      then charge cand (UpstreamStatus 402 ''payment required, not opened by setting'') g now gw
      else tell_breaker (RecordExhausted (gw_breaker gw) (mc_providerID cand) (mc_providerName cand) (mc_model cand)
             402 pinHintUntilPaid g now) gw))"

definition recordBreakerOutcome ::
    "proxySettings \<Rightarrow> modelCandidate \<Rightarrow> int \<Rightarrow> bool \<Rightarrow> rateLimitVerdict \<Rightarrow> rng \<Rightarrow> instant \<Rightarrow> attempt_world \<Rightarrow> attempt_world" where
  "recordBreakerOutcome ps cand statusCode isFailoverEligible rl g now w = (case w of (st, gw) \<Rightarrow>
     if \<not> st_circuitBreakerEnabled st then (st, gw)
     else if isFailoverEligible
     then (if statusCode = 429 \<and> rl_class rl \<noteq> rateLimitUnknown then recordRateLimitOutcome ps cand rl g now (st, gw)
           else if statusCode = 402 then recordPaymentRequiredOutcome ps cand g now (st, gw)
           else (case breakerRecordAction statusCode of
                   breakerActionFailure \<Rightarrow>
                     (noteBreaker breakerCharge st,
                      if statusCode = 429 \<and> rl_classified rl
                      then charge429 cand (UpstreamStatus statusCode ''unrecognised'') g now gw
                      else charge cand (UpstreamStatus statusCode []) g now gw)
                 | breakerActionNoOp \<Rightarrow> (noteBreaker breakerNoop st, gw)
                 | breakerActionSuccess \<Rightarrow>
                     (noteBreaker breakerSuccess st,
                      tell_breaker (RecordSuccess (gw_breaker gw) (mc_providerID cand) (mc_providerName cand) (mc_model cand) now) gw)))
     else if \<not> servedSuccessStatus statusCode
     then (noteBreaker breakerAlive st,
           tell_breaker (RecordAlive (gw_breaker gw) (mc_providerID cand) (mc_providerName cand) (mc_model cand) statusCode now) gw)
     else (st, gw))"

subsection \<open>Judging a response\<close>

definition peekRateLimit ::
    "proxySettings \<Rightarrow> dates \<Rightarrow> instant \<Rightarrow> upstreamResp \<Rightarrow> rateLimitVerdict \<times> string \<times> bool" where
  "peekRateLimit ps ds now resp =
     (if \<not> ps_classifyEnabled ps then (no_verdict, [], False)
      else (classifyRateLimit ds now (rs_status resp) (rs_header resp) (rs_head resp) (ps_saturationMaxWait ps),
            rs_head resp, True))"

definition peekRateLimitVerdict :: "proxySettings \<Rightarrow> dates \<Rightarrow> instant \<Rightarrow> upstreamResp \<Rightarrow> rateLimitVerdict" where
  "peekRateLimitVerdict ps ds now resp = fst (peekRateLimit ps ds now resp)"

definition classify429Attempt ::
    "proxySettings \<Rightarrow> dates \<Rightarrow> instant \<Rightarrow> modelCandidate \<Rightarrow> upstreamResp \<Rightarrow> attempt_world \<Rightarrow> rateLimitVerdict \<times> requestState" where
  "classify429Attempt ps ds now cand resp w = (case w of (st, gw) \<Rightarrow>
     (let st = st\<lparr>vs_rateLimit := no_verdict\<rparr>
      in if rs_status resp \<noteq> 429 then (no_verdict, st)
         else (case peekRateLimit ps ds now resp of (v, body, classified) \<Rightarrow>
                 if \<not> classified then (no_verdict, st)
                 else
                   (let v = (if rl_class v = rateLimitUnknown \<and> st_circuitBreakerEnabled st \<and>
                                LastSuccessWithin (gw_breaker gw) (mc_providerID cand) (mc_model cand) (ps_recentSuccessWindow ps) now
                             then no_verdict\<lparr>rl_class := rateLimitSaturated, rl_retryAfter := defaultSaturatedRetryAfter\<rparr>
                             else v);
                        v = v\<lparr>rl_classified := True, rl_detail := body\<rparr>
                    in (v, noteAttemptPhrase (rl_phrase v) (st\<lparr>vs_rateLimit := v\<rparr>))))))"

definition count_429 ::
    "proxySettings \<Rightarrow> dates \<Rightarrow> instant \<Rightarrow> modelCandidate \<Rightarrow> upstreamResp \<Rightarrow> bool \<Rightarrow> rateLimitVerdict \<Rightarrow> gateway \<Rightarrow> gateway" where
  "count_429 ps ds now cand resp isFailoverEligible rl gw =
     (if rs_status resp \<noteq> 429 then gw
      else
        (let seen = (if isFailoverEligible then rl else peekRateLimitVerdict ps ds now resp);
             gw = gw\<lparr>gw_rateLimits := gw_rateLimits gw @
                       [(mc_providerName cand, mc_model cand, rateLimitClass_String (rl_class seen))]\<rparr>
         in if rl_class seen = rateLimitExhausted
            then CapLedger_Note (mc_providerID cand)
                   \<lparr>cn_Phrase = rl_phrase seen, cn_Model = mc_model cand, cn_Entitled = rl_entitled seen, cn_At = now\<rparr> gw
            else gw))"

definition teach_limiter ::
    "proxySettings \<Rightarrow> instant \<Rightarrow> modelCandidate \<Rightarrow> rateLimitVerdict \<Rightarrow> attempt_world \<Rightarrow> attempt_world" where
  "teach_limiter ps now cand rl w =
     (if rl_class rl = rateLimitSaturated \<and> st_inflightEnabled (fst w)
      then (case settle_slot ps slotUnclean now w of
              (st, gw) \<Rightarrow> (st, gw\<lparr>gw_inflight := cut (gw_inflight gw) (mc_providerID cand) (rl_retryAfter rl) now\<rparr>))
      else w)"

definition judge429AndRecordBreaker ::
    "proxySettings \<Rightarrow> dates \<Rightarrow> rng \<Rightarrow> instant \<Rightarrow> modelCandidate \<Rightarrow> upstreamResp \<Rightarrow> bool \<Rightarrow> attempt_world \<Rightarrow>
     rateLimitVerdict \<times> attempt_world" where
  "judge429AndRecordBreaker ps ds g now cand resp isFailoverEligible w = (case w of (st, gw) \<Rightarrow>
     (let (rl, st) = (if isFailoverEligible then classify429Attempt ps ds now cand resp (st, gw) else (no_verdict, st));
          gw = count_429 ps ds now cand resp isFailoverEligible rl gw;
          w = teach_limiter ps now cand rl (st, gw)
      in (rl, recordBreakerOutcome ps cand (rs_status resp) isFailoverEligible rl g now w)))"

subsection \<open>Answers that end after the headers\<close>

definition chargeBreaker :: "modelCandidate \<Rightarrow> int \<Rightarrow> string \<Rightarrow> rng \<Rightarrow> instant \<Rightarrow> attempt_world \<Rightarrow> attempt_world" where
  "chargeBreaker cand status reason g now w = (case w of (st, gw) \<Rightarrow>
     if \<not> st_circuitBreakerEnabled st then (st, gw)
     else (noteBreaker breakerCharge st, charge cand \<lparr>cause_Status = status, cause_Reason = reason\<rparr> g now gw))"

definition creditBreaker :: "modelCandidate \<Rightarrow> instant \<Rightarrow> attempt_world \<Rightarrow> attempt_world" where
  "creditBreaker cand now w = (case w of (st, gw) \<Rightarrow>
     if \<not> st_circuitBreakerEnabled st then (st, gw)
     else (noteBreaker breakerSuccess st,
           tell_breaker (RecordSuccess (gw_breaker gw) (mc_providerID cand) (mc_providerName cand) (mc_model cand) now) gw))"

text \<open>The fields of the log entry the answer is judged by.\<close>

record answerLog =
  al_completed :: bool
  al_errorKind :: ErrorKind
  al_emptyCompletion :: bool

definition recordAnswerOutcome ::
    "modelCandidate \<Rightarrow> answerLog \<Rightarrow> int \<Rightarrow> rng \<Rightarrow> instant \<Rightarrow> attempt_world \<Rightarrow> attempt_world" where
  "recordAnswerOutcome cand logData status g now w = (case w of (st, gw) \<Rightarrow>
     if \<not> st_circuitBreakerEnabled st then (st, gw)
     else if \<not> al_completed logData
     then (if \<not> providerAtFault (al_errorKind logData) then (st, gw)
           else chargeBreaker cand status ''response failed after headers'' g now (st, gw))
     else if al_emptyCompletion logData
     then chargeBreaker cand status ''response completed without delivering content'' g now (st, gw)
     else creditBreaker cand now (st, gw))"

text \<open>A success whose body cannot be turned into an answer. \<open>faulty\<close> is \<open>translationIsProviderFault\<close>
  of the error, \<open>interrupted\<close> the cancellation under the read.\<close>

definition rejectUntranslatableBody ::
    "(string \<Rightarrow> string) \<Rightarrow> proxySettings \<Rightarrow> modelCandidate \<Rightarrow> int \<Rightarrow> string option \<Rightarrow> bool \<Rightarrow> string \<Rightarrow> int \<Rightarrow>
     rng \<Rightarrow> instant \<Rightarrow> attempt_world \<Rightarrow> attempt_world" where
  "rejectUntranslatableBody fence ps cand status interrupted faulty errText attempt g now w =
     (case abortKind interrupted of (kind, aborted, abandoned) \<Rightarrow>
       (let kind = (if \<not> aborted then Some KindProviderError else kind);
            fault = (\<not> abandoned \<and> faulty);
            w = (if fault then chargeBreaker cand status
                   (if kind = Some KindProviderTimeout then ''upstream body stalled''
                    else ''upstream body could not be translated'') g now w
                 else w);
            (st, gw) = settle_slot ps (if fault then slotUnclean else slotNeutral) now w
        in (setReqErr fence (no_error\<lparr>re_Kind := kind, re_Attempt := attempt, re_Provider := mc_providerName cand,
                                     re_Underlying := errText\<rparr>) st, gw)))"

subsection \<open>Streams\<close>

text \<open>The fields of \<open>streamState\<close> the verdict reads.\<close>

record streamState =
  ss_sawContent :: bool
  ss_sawImage :: bool
  ss_deliveredBytes :: int
  ss_completionTokens :: int
  ss_unparsedChunks :: int
  ss_sawDone :: bool
  ss_sawTerminalEvent :: bool
  ss_clientDisconnected :: bool
  ss_stalled :: bool
  ss_interrupted :: bool
  ss_lineCapExceeded :: bool

record streamBreakerVerdict =
  sv_failureReason :: string
  sv_success :: bool

definition nothing_to_tell :: streamBreakerVerdict where
  "nothing_to_tell = \<lparr>sv_failureReason = [], sv_success = False\<rparr>"

definition streamDeliveredOutput :: "streamState \<Rightarrow> bool" where
  "streamDeliveredOutput st \<longleftrightarrow> ss_sawContent st \<or> ss_sawImage st \<or> ss_deliveredBytes st > 0 \<or> ss_completionTokens st > 0"

definition judgeStreamForBreaker :: "streamState \<Rightarrow> ErrorKind option \<Rightarrow> string \<Rightarrow> bool \<Rightarrow> streamBreakerVerdict" where
  "judgeStreamForBreaker st kind errMsg circuitBreakerOn =
     (if \<not> circuitBreakerOn \<or> (ss_interrupted st \<and> \<not> ss_lineCapExceeded st) \<or> ss_clientDisconnected st then nothing_to_tell
      else if errMsg = []
      then (if streamDeliveredOutput st then \<lparr>sv_failureReason = [], sv_success = True\<rparr>
            else if ss_unparsedChunks st > 0 then nothing_to_tell
            else \<lparr>sv_failureReason = ''stream completed without delivering content'', sv_success = False\<rparr>)
      else if ss_lineCapExceeded st
      then \<lparr>sv_failureReason = ''stream frame exceeded the line limit'', sv_success = False\<rparr>
      else if \<not> (case kind of Some k \<Rightarrow> providerAtFault k | None \<Rightarrow> False) then nothing_to_tell
      else if ss_stalled st \<and> \<not> ss_sawDone st \<and> \<not> ss_sawTerminalEvent st
      then \<lparr>sv_failureReason = ''stream stalled'', sv_success = False\<rparr>
      else if \<not> streamDeliveredOutput st
      then \<lparr>sv_failureReason = ''stream failed without delivering content'', sv_success = False\<rparr>
      else nothing_to_tell)"

definition streamSlotOutcome :: "streamState \<Rightarrow> ErrorKind option \<Rightarrow> string \<Rightarrow> slotOutcome" where
  "streamSlotOutcome st kind errMsg =
     (let v = judgeStreamForBreaker st kind errMsg True
      in if sv_success v then slotClean
         else if sv_failureReason v \<noteq> [] then slotUnclean
         else slotNeutral)"

text \<open>The verdict \<open>finalizeStream\<close> hands the breaker.\<close>

definition tell_stream_verdict ::
    "modelCandidate \<Rightarrow> int \<Rightarrow> streamBreakerVerdict \<Rightarrow> rng \<Rightarrow> instant \<Rightarrow> attempt_world \<Rightarrow> attempt_world" where
  "tell_stream_verdict cand statusCode verdict g now w = (case w of (st, gw) \<Rightarrow>
     if sv_failureReason verdict \<noteq> []
     then (noteBreaker breakerCharge st, charge cand \<lparr>cause_Status = statusCode, cause_Reason = sv_failureReason verdict\<rparr> g now gw)
     else if sv_success verdict
     then (noteBreaker breakerSuccess st,
           tell_breaker (RecordSuccess (gw_breaker gw) (mc_providerID cand) (mc_providerName cand) (mc_model cand) now) gw)
     else (st, gw))"

end
