(* ===== verification/Rate_Limit_Facts.thy ===== *)
theory Rate_Limit_Facts
  imports Rate_Limit
begin

text \<open>
  Facts about the classifier: every wait it reads is positive, no arithmetic on it wraps, and
  what each verdict it builds may contain.
\<close>

named_theorems wait_defs \<open>the waits and ceilings, unfolded to nanoseconds\<close>

lemmas wait_units [wait_defs] =
  defaultSaturationMaxWait_def defaultSaturatedRetryAfter_def pinHintWindow_def pinHintWeekly_def
  pinHintUntilPaid_def bodyResetHintMax_def second_def minute_def hour_def

definition saturation_ceiling :: "duration \<Rightarrow> duration" where
  "saturation_ceiling maxWait = (if maxWait \<le> 0 then defaultSaturationMaxWait else maxWait)"

lemma saturation_ceiling_pos: "0 < saturation_ceiling m"
  by (simp add: saturation_ceiling_def wait_defs)

subsection \<open>Stated waits\<close>

lemma parseRetryAfter_pos: "parseRetryAfter ds now v = Some d \<Longrightarrow> 0 < d"
proof -
  have "0 < wrap64 (min secs (go_quot bodyResetHintMax second) * second)" if "0 < secs" for secs
  proof -
    have "go_quot bodyResetHintMax second = 2592000"
      by (simp add: go_quot_nonneg wait_defs)
    moreover have "in_int64 (min secs 2592000 * second)"
      using that by (auto simp: in_int64_def wait_defs min_def)
    ultimately show ?thesis using that by (simp add: wrap64_id wait_defs)
  qed
  then show "parseRetryAfter ds now v = Some d \<Longrightarrow> 0 < d"
    by (auto simp: parseRetryAfter_def Let_def split: if_splits option.splits)
qed

lemma longest_reset_pos:
  "0 \<le> fst acc \<Longrightarrow> (snd acc \<longrightarrow> 0 < fst acc) \<Longrightarrow> longest_reset ds now hdr keys acc = (d, True) \<Longrightarrow> 0 < d"
  by (induction ds now hdr keys acc rule: longest_reset.induct) (auto split: option.splits if_splits)

lemma rateLimitResetHint_pos: "rateLimitResetHint ds now hdr = Some d \<Longrightarrow> 0 < d"
  using longest_reset_pos [of "(0, False)"]
  by (auto simp: rateLimitResetHint_def parseRetryAfter_pos split: option.splits prod.splits if_splits)

lemma plausibleWait_Some: "plausibleWait d = Some w \<longleftrightarrow> w = d \<and> 0 < d \<and> d \<le> bodyResetHintMax"
  by (auto simp: plausibleWait_def)

lemma body_waits_plausible:
  "delay_detail b = Some d \<Longrightarrow> 0 < d \<and> d \<le> bodyResetHintMax"
  "go_duration_wait b = Some d \<Longrightarrow> 0 < d \<and> d \<le> bodyResetHintMax"
  "words_wait b = Some d \<Longrightarrow> 0 < d \<and> d \<le> bodyResetHintMax"
  by (auto simp: delay_detail_def go_duration_wait_def words_wait_def plausibleWait_Some split: option.splits)

lemma bodyResetHint_range: "bodyResetHint b = Some (d, s) \<Longrightarrow> 0 < d \<and> d \<le> bodyResetHintMax"
  by (auto simp: bodyResetHint_def dest: body_waits_plausible split: option.splits)

lemma bodyResetHint_structured: "bodyResetHint b = Some (d, True) \<longleftrightarrow> delay_detail b = Some d"
  by (auto simp: bodyResetHint_def split: option.splits)

lemma longestResetHint_pos: "longestResetHint ds now hdr b = Some d \<Longrightarrow> 0 < d"
  by (auto simp: longestResetHint_def dest: rateLimitResetHint_pos bodyResetHint_range split: option.splits)

lemma longestResetHint_ge: "rateLimitResetHint ds now hdr = Some w \<Longrightarrow>
    \<exists>d. longestResetHint ds now hdr b = Some d \<and> w \<le> d"
  by (auto simp: longestResetHint_def split: option.splits)

lemma providerResetHint_pos: "providerResetHint ds now hdr b = Some d \<Longrightarrow> 0 < d"
  by (auto simp: providerResetHint_def dest: rateLimitResetHint_pos bodyResetHint_range split: option.splits)

subsection \<open>Verdicts\<close>

text \<open>What a verdict under a saturation ceiling may contain.\<close>

definition verdict_ok :: "duration \<Rightarrow> rateLimitVerdict \<Rightarrow> bool" where
  "verdict_ok m v = (case rl_class v of
     rateLimitUnknown \<Rightarrow> v = no_verdict
   | rateLimitSaturated \<Rightarrow> 0 < rl_retryAfter v \<and> rl_retryAfter v \<le> max m defaultSaturatedRetryAfter \<and>
       rl_pinHint v = 0 \<and> \<not> rl_entitled v \<and> \<not> rl_account v
   | rateLimitExhausted \<Rightarrow> 0 < rl_pinHint v \<and> rl_retryAfter v = 0 \<and> (rl_account v \<longrightarrow> rl_entitled v))"

lemma no_verdict_sel [simp]:
  "rl_class no_verdict = rateLimitUnknown" "rl_phrase no_verdict = []" "rl_retryAfter no_verdict = 0"
  "rl_pinHint no_verdict = 0" "rl_entitled no_verdict = False" "rl_account no_verdict = False"
  by (simp_all add: no_verdict_def)

lemma verdict_ok_no_verdict [simp]: "verdict_ok m no_verdict"
  by (simp add: verdict_ok_def)

lemma exhaustedVerdict_ok:
  assumes "0 < h" "0 < m"
  shows "verdict_ok m (exhaustedVerdict ds now hdr b m h e) \<and> rl_class (exhaustedVerdict ds now hdr b m h e) \<noteq> rateLimitUnknown \<and>
    \<not> rl_account (exhaustedVerdict ds now hdr b m h e)"
  using assms bodyResetHint_range [of b] rateLimitResetHint_pos [of ds now hdr]
  by (auto simp: exhaustedVerdict_def verdict_ok_def Let_def split: option.splits)

lemma saturatedVerdict_ok:
  assumes "0 < m"
  shows "verdict_ok m (saturatedVerdict ds now hdr b m) \<and> rl_class (saturatedVerdict ds now hdr b m) \<noteq> rateLimitUnknown \<and>
    \<not> rl_account (saturatedVerdict ds now hdr b m) \<and> \<not> rl_entitled (saturatedVerdict ds now hdr b m)"
  using assms longestResetHint_pos [of ds now hdr b]
  by (auto simp: saturatedVerdict_def verdict_ok_def wait_defs split: option.splits)

lemma verdict_ok_label:
  "verdict_ok m v \<Longrightarrow> rl_class v \<noteq> rateLimitUnknown \<Longrightarrow> \<not> rl_account v \<Longrightarrow>
   (a \<longrightarrow> rl_class v = rateLimitExhausted \<and> rl_entitled v) \<Longrightarrow>
   verdict_ok m (v\<lparr>rl_phrase := p, rl_account := a\<rparr>)"
  by (auto simp: verdict_ok_def split: rateLimitClass.splits)

lemma phrase_verdict_ok:
  assumes "0 < m" "\<forall>p\<in>set ps. ph_class p = rateLimitExhausted \<longrightarrow> 0 < ph_pinHint p"
    "phrase_verdict ds now hdr b m ps = Some v"
  shows "verdict_ok m v"
  using assms(2,3)
proof (induction ps)
  case (Cons p ps)
  show ?case
  proof (cases "phrase_matches b p \<and> ph_class p \<noteq> rateLimitUnknown")
    case True
    then show ?thesis
      using Cons.prems exhaustedVerdict_ok [of "ph_pinHint p" m ds now hdr b "ph_entitled p", OF _ assms(1)]
        saturatedVerdict_ok [OF assms(1), of ds now hdr b]
      by (cases "ph_class p") (auto simp: Let_def intro!: verdict_ok_label)
  qed (use Cons in auto)
qed simp

lemmas phrase_defs = unpaid_def spent_def busy_def

lemma table_pins: "\<forall>p\<in>set rateLimitPhrases. ph_class p = rateLimitExhausted \<longrightarrow> 0 < ph_pinHint p"
  by (simp add: rateLimitPhrases_def phrase_defs wait_defs)

lemma verdict_ok_phrase: "verdict_ok m v \<Longrightarrow> rl_class v \<noteq> rateLimitUnknown \<Longrightarrow> verdict_ok m (v\<lparr>rl_phrase := p\<rparr>)"
  by (simp add: verdict_ok_def split: rateLimitClass.splits)

lemma verdict_ok_entitled: "verdict_ok m v \<Longrightarrow> rl_entitled v \<Longrightarrow> rl_class v = rateLimitExhausted"
  by (cases "rl_class v") (auto simp: verdict_ok_def)

lemma classifyRateLimit_ok: "verdict_ok (saturation_ceiling m) (classifyRateLimit ds now status hdr body m)"
proof -
  let ?m = "saturation_ceiling m"
  let ?b = "ToLower body"
  let ?paid = "exhaustedVerdict ds now hdr ?b ?m pinHintUntilPaid True"
  let ?win = "exhaustedVerdict ds now hdr ?b ?m pinHintWindow False"
  note m = saturation_ceiling_pos [of m]
  have hints: "0 < pinHintUntilPaid" "0 < pinHintWindow" by (simp_all add: wait_defs)
  note paid = exhaustedVerdict_ok [OF hints(1) m, of ds now hdr ?b True]
  note win = exhaustedVerdict_ok [OF hints(2) m, of ds now hdr ?b False]
  have "verdict_ok ?m (?paid\<lparr>rl_phrase := miniMaxBalancePhrase, rl_account := rl_entitled ?paid\<rparr>)"
    using paid verdict_ok_entitled [of ?m ?paid] by (auto intro!: verdict_ok_label)
  moreover have "verdict_ok ?m (?win\<lparr>rl_phrase := miniMaxWindowPhrase\<rparr>)"
    using win by (auto intro: verdict_ok_phrase)
  moreover have "verdict_ok ?m v" if "phrase_verdict ds now hdr ?b ?m rateLimitPhrases = Some v" for v
    by (rule phrase_verdict_ok [OF m table_pins that])
  moreover have "verdict_ok ?m (if w \<le> ?m then no_verdict\<lparr>rl_class := rateLimitSaturated, rl_retryAfter := w\<rparr>
      else no_verdict\<lparr>rl_class := rateLimitExhausted, rl_pinHint := w\<rparr>)" if "providerResetHint ds now hdr ?b = Some w" for w
    using providerResetHint_pos [OF that] by (auto simp: verdict_ok_def)
  ultimately show ?thesis
    by (auto simp: classifyRateLimit_def saturation_ceiling_def [symmetric] Let_def split: option.split)
qed

subsection \<open>A stated window\<close>

lemma exhausted_named: "rateLimitResetHint ds now hdr = Some w \<Longrightarrow> m < w \<Longrightarrow>
    exhaustedVerdict ds now hdr b m h e = no_verdict\<lparr>rl_class := rateLimitExhausted, rl_pinHint := w, rl_entitled := e\<rparr>"
  by (simp add: exhaustedVerdict_def Let_def)

lemma saturated_named: "rateLimitResetHint ds now hdr = Some w \<Longrightarrow> m < w \<Longrightarrow>
    rl_class (saturatedVerdict ds now hdr b m) = rateLimitExhausted \<and> w \<le> rl_pinHint (saturatedVerdict ds now hdr b m)"
  using longestResetHint_ge [of ds now hdr w b] by (auto simp: saturatedVerdict_def)

lemma phrase_verdict_named:
  "rateLimitResetHint ds now hdr = Some w \<Longrightarrow> m < w \<Longrightarrow> phrase_verdict ds now hdr b m ps = Some v \<Longrightarrow>
   rl_class v = rateLimitExhausted \<and> w \<le> rl_pinHint v"
  by (induction ps) (auto simp: exhausted_named saturated_named Let_def split: if_splits)

lemma classify_named_window:
  assumes "rateLimitResetHint ds now hdr = Some w" "saturation_ceiling m < w"
  shows "rl_class (classifyRateLimit ds now 429 hdr body m) = rateLimitExhausted \<and>
    w \<le> rl_pinHint (classifyRateLimit ds now 429 hdr body m)"
proof -
  have "providerResetHint ds now hdr b = Some w" for b by (simp add: providerResetHint_def assms(1))
  then show ?thesis
    using assms phrase_verdict_named [OF assms]
    by (auto simp: classifyRateLimit_def saturation_ceiling_def [symmetric] exhausted_named Let_def split: option.split)
qed

subsection \<open>Spent before busy\<close>

definition spent_phrase :: "string \<Rightarrow> rateLimitPhrase \<Rightarrow> bool" where
  "spent_phrase b p \<longleftrightarrow> phrase_matches b p \<and> ph_class p = rateLimitExhausted"

text \<open>A table in which no exhausted entry follows one that is not.\<close>

fun spent_first :: "rateLimitPhrase list \<Rightarrow> bool" where
  "spent_first [] = True"
| "spent_first (p # ps) = (if ph_class p = rateLimitExhausted then spent_first ps
     else list_all (\<lambda>q. ph_class q \<noteq> rateLimitExhausted) (p # ps))"

lemma table_spent_first: "spent_first rateLimitPhrases"
  by (simp add: rateLimitPhrases_def phrase_defs)

lemma phrase_verdict_spent:
  assumes "spent_first ps" "\<exists>p\<in>set ps. spent_phrase b p"
  shows "\<exists>p\<in>set ps. spent_phrase b p \<and> (\<exists>v. phrase_verdict ds now hdr b m ps = Some v \<and>
    rl_class v = rl_class (exhaustedVerdict ds now hdr b m (ph_pinHint p) (ph_entitled p)) \<and>
    rl_retryAfter v = rl_retryAfter (exhaustedVerdict ds now hdr b m (ph_pinHint p) (ph_entitled p)))"
  using assms
proof (induction ps)
  case (Cons p ps)
  show ?case
  proof (cases "spent_phrase b p")
    case True
    then show ?thesis by (intro bexI [of _ p]) (auto simp: spent_phrase_def Let_def)
  next
    case False
    with Cons.prems have ex: "\<exists>q\<in>set ps. spent_phrase b q" by auto
    then have cl: "ph_class p = rateLimitExhausted"
      using Cons.prems(1) by (auto simp: spent_phrase_def list_all_iff split: if_splits)
    with False have "\<not> phrase_matches b p" by (simp add: spent_phrase_def)
    with Cons ex cl show ?thesis by auto
  qed
qed simp

lemma exhausted_cases:
  "rl_class (exhaustedVerdict ds now hdr b m h e) = rateLimitExhausted \<or>
   (\<exists>w. delay_detail b = Some w \<and> w \<le> m \<and>
     exhaustedVerdict ds now hdr b m h e = no_verdict\<lparr>rl_class := rateLimitSaturated, rl_retryAfter := w\<rparr>)"
  by (auto simp: exhaustedVerdict_def Let_def bodyResetHint_structured [symmetric] split: option.splits prod.splits)

lemma classify_spent:
  assumes "p \<in> set rateLimitPhrases" "ph_class p = rateLimitExhausted" "phrase_matches (ToLower body) p"
  shows "rl_class (classifyRateLimit ds now 429 hdr body m) = rateLimitExhausted \<or>
    (\<exists>w. delay_detail (ToLower body) = Some w \<and> w \<le> saturation_ceiling m \<and>
       rl_class (classifyRateLimit ds now 429 hdr body m) = rateLimitSaturated \<and>
       rl_retryAfter (classifyRateLimit ds now 429 hdr body m) = w)"
proof -
  let ?b = "ToLower body"
  let ?m = "saturation_ceiling m"
  from assms have "\<exists>p\<in>set rateLimitPhrases. spent_phrase ?b p" by (auto simp: spent_phrase_def)
  from phrase_verdict_spent [OF table_spent_first this, of ds now hdr ?m]
  obtain q :: rateLimitPhrase and v where v: "phrase_verdict ds now hdr ?b ?m rateLimitPhrases = Some v"
    "rl_class v = rl_class (exhaustedVerdict ds now hdr ?b ?m (ph_pinHint q) (ph_entitled q))"
    "rl_retryAfter v = rl_retryAfter (exhaustedVerdict ds now hdr ?b ?m (ph_pinHint q) (ph_entitled q))"
    by blast
  have "classifyRateLimit ds now 429 hdr body m = v"
    by (simp add: classifyRateLimit_def saturation_ceiling_def [symmetric] Let_def v(1))
  then show ?thesis using exhausted_cases [of ds now hdr ?b ?m "ph_pinHint q" "ph_entitled q"] v(2,3) by auto
qed

subsection \<open>Rounding up\<close>

lemma retryAfterSeconds_ceiling:
  assumes "0 < d" "d \<le> maxDuration - second"
  shows "retryAfterSeconds d * second \<ge> d \<and> (retryAfterSeconds d - 1) * second < d"
proof -
  have "in_int64 (d + second)" "in_int64 (d + second - 1)"
    using assms by (simp_all add: in_int64_def maxDuration_def second_def)
  then have q: "retryAfterSeconds d = (d + second - 1) div second"
    using assms by (simp add: retryAfterSeconds_def Let_def wrap64_id go_quot_nonneg second_def)
  have "(d + second - 1) div second * second + (d + second - 1) mod second = d + second - 1"
    by (rule div_mult_mod_eq)
  moreover have "0 \<le> (d + second - 1) mod second" "(d + second - 1) mod second < second"
    by (simp_all add: second_def)
  moreover have "(retryAfterSeconds d - 1) * second = retryAfterSeconds d * second - second"
    by (simp add: left_diff_distrib)
  ultimately show ?thesis unfolding q by (intro conjI; linarith)
qed

end
