(* ===== verification/Attempt_Facts.thy ===== *)
theory Attempt_Facts
  imports Attempt_Outcome Rate_Limit_Facts Breaker_Behaviour
begin

text \<open>
  How one response moves the breaker and the limiter together: a busy verdict leaves every
  admission answer as it was, the cut sees the load without the request that drew the 429, and
  a refusal that speaks for the account reaches the provider's verdict.
\<close>

subsection \<open>Busy is not a failure\<close>

lemma saturated_fields:
  "c_consecutiveFails (saturated_result cb c now) = c_consecutiveFails c"
  "c_failedProbes (saturated_result cb c now) = c_failedProbes c"
  "c_lastSuccess (saturated_result cb c now) = c_lastSuccess c"
  "c_opens429Streak (saturated_result cb c now) = c_opens429Streak c"
  "c_state (saturated_result cb c now) = logicalStateWith c (cooldowns cb) now"
  by (auto simp: saturated_result_def Let_def circuit_note_def probeIf_state)

lemma saturated_blocked:
  assumes "breaker_wf cb"
  shows "is_blocked (RecordSaturated cb p pn m now) q m' now = is_blocked cb q m' now"
    and "is_account_pinned (RecordSaturated cb p pn m now) q m' now = is_account_pinned cb q m' now"
proof -
  let ?cb = "RecordSaturated cb p pn m now"
  have cd: "cooldowns ?cb = cooldowns cb" by (rule saturated.op_cooldowns)
  have get: "getCircuit ?cb p m = Some (saturated_result cb (circuit_at cb p m) now)"
    by (simp add: RecordSaturated_state)
  have "is_blocked ?cb q m' now = is_blocked cb q m' now \<and>
    is_account_pinned ?cb q m' now = is_account_pinned cb q m' now"
  proof (cases "(q, m') = (p, m)")
    case False
    then show ?thesis using saturated.other_pair [OF assms] by blast
  next
    case True
    then have eq: "q = p" "m' = m" by simp_all
    show ?thesis
    proof (cases "is_blocked cb p m now")
      case blocked: True
      then obtain c where c: "getCircuit cb p m = Some c" "blocking c (cooldowns cb) now"
        by (auto simp: is_blocked_iff)
      have "getCircuit ?cb p m = Some c"
        using get c outcomes_while_blocking(3) [OF c(2)] by simp
      then show ?thesis using c eq cd by (simp add: is_blocked_def is_account_pinned_def)
    next
      case idle: False
      have "\<not> blocking (circuit_at cb p m) (cooldowns cb) now"
        using idle by (cases "getCircuit cb p m") (auto simp: is_blocked_def blocking_def new_circuit_def)
      then have "c_state (saturated_result cb (circuit_at cb p m) now) \<noteq> StateOpen"
        by (auto simp: saturated_fields logicalStateWith_def blocking_def)
      then have "\<not> is_blocked ?cb p m now" using get cd by (simp add: is_blocked_def blocking_def)
      then show ?thesis using idle eq account_pinned_blocked by metis
    qed
  qed
  then show "is_blocked ?cb q m' now = is_blocked cb q m' now"
    "is_account_pinned ?cb q m' now = is_account_pinned cb q m' now" by simp_all
qed

lemma saturated_admission:
  assumes "breaker_wf cb"
  shows "snd (snd (IsOpen (RecordSaturated cb p pn m now) q qn m' now now)) = snd (snd (IsOpen cb q qn m' now now))"
proof -
  have wf: "breaker_wf (RecordSaturated cb p pn m now)" by (rule saturated.op_wf [OF assms])
  have "effectiveSpan (RecordSaturated cb p pn m now) = effectiveSpan cb" by (rule saturated.op_span)
  then show ?thesis
    using saturated_blocked [OF assms, of p pn m now]
    by (simp add: IsOpen_answer [OF wf] IsOpen_answer [OF assms] provider_down_iff [OF wf] provider_down_iff [OF assms])
qed

subsection \<open>What a judgement touches\<close>

lemma count_429_keeps [simp]:
  "gw_breaker (count_429 ps ds now cand resp el rl gw) = gw_breaker gw"
  "gw_inflight (count_429 ps ds now cand resp el rl gw) = gw_inflight gw"
  "gw_emitted (count_429 ps ds now cand resp el rl gw) = gw_emitted gw"
  by (simp_all add: count_429_def CapLedger_Note_def Let_def)

lemma settle_slot_keeps [simp]:
  "gw_breaker (snd (settle_slot ps o' now w)) = gw_breaker (snd w)"
  "st_circuitBreakerEnabled (fst (settle_slot ps o' now w)) = st_circuitBreakerEnabled (fst w)"
  by (auto simp: settle_slot_def split: option.splits prod.splits)

lemma teach_limiter_keeps [simp]:
  "gw_breaker (snd (teach_limiter ps now cand rl w)) = gw_breaker (snd w)"
  "st_circuitBreakerEnabled (fst (teach_limiter ps now cand rl w)) = st_circuitBreakerEnabled (fst w)"
  by (simp_all add: teach_limiter_def case_prod_beta)

lemma classify429_keeps [simp]:
  "st_attemptSlot (snd (classify429Attempt ps ds now cand resp (st, gw))) = st_attemptSlot st"
  "st_inflightEnabled (snd (classify429Attempt ps ds now cand resp (st, gw))) = st_inflightEnabled st"
  "st_circuitBreakerEnabled (snd (classify429Attempt ps ds now cand resp (st, gw))) = st_circuitBreakerEnabled st"
  by (auto simp: classify429Attempt_def noteAttemptPhrase_def Let_def split: prod.splits)

lemma tell_breaker_keeps [simp]:
  "gw_inflight (tell_breaker r gw) = gw_inflight gw" "gw_breaker (tell_breaker r gw) = fst r"
  by (simp_all add: tell_breaker_def)

lemma recordBreakerOutcome_inflight [simp]:
  "gw_inflight (snd (recordBreakerOutcome ps cand code el rl g now w)) = gw_inflight (snd w)"
  by (auto simp: recordBreakerOutcome_def recordRateLimitOutcome_def recordPaymentRequiredOutcome_def
      charge_def charge429_def split: prod.splits rateLimitClass.splits breakerAction.splits)

text \<open>The verdict an eligible 429 draws: the classifier's, or busy by the recent success.\<close>

lemma classify429_cases:
  assumes "classify429Attempt ps ds now cand resp (st, gw) = (rl, st')"
  shows "rl = no_verdict \<and> (rs_status resp \<noteq> 429 \<or> \<not> ps_classifyEnabled ps) \<or>
    rs_status resp = 429 \<and> ps_classifyEnabled ps \<and> rl_classified rl \<and>
    (rl_class rl = rl_class (classifyRateLimit ds now 429 (rs_header resp) (rs_head resp) (ps_saturationMaxWait ps)) \<and>
     rl_account rl = rl_account (classifyRateLimit ds now 429 (rs_header resp) (rs_head resp) (ps_saturationMaxWait ps)) \<and>
     rl_pinHint rl = rl_pinHint (classifyRateLimit ds now 429 (rs_header resp) (rs_head resp) (ps_saturationMaxWait ps)) \<or>
     rl_class (classifyRateLimit ds now 429 (rs_header resp) (rs_head resp) (ps_saturationMaxWait ps)) = rateLimitUnknown \<and>
     rl_class rl = rateLimitSaturated)"
  using assms
  by (auto simp: classify429Attempt_def peekRateLimit_def Let_def split: if_splits prod.splits)

lemma judge_verdict:
  "fst (judge429AndRecordBreaker ps ds g now cand resp el (st, gw)) =
    (if el then fst (classify429Attempt ps ds now cand resp (st, gw)) else no_verdict)"
  by (simp add: judge429AndRecordBreaker_def Let_def split: prod.splits)

lemma judge_breaker:
  assumes "judge429AndRecordBreaker ps ds g now cand resp True (st, gw) = (rl, w')" "st_circuitBreakerEnabled st"
    "rs_status resp = 429" "rl_class rl \<noteq> rateLimitUnknown"
  shows "gw_breaker (snd w') =
    (if rl_class rl = rateLimitSaturated
     then RecordSaturated (gw_breaker gw) (mc_providerID cand) (mc_providerName cand) (mc_model cand) now
     else if \<not> ps_openOnExhaustion ps
     then fst (RecordRateLimited (gw_breaker gw) (mc_providerID cand) (mc_providerName cand) (mc_model cand)
                 (UpstreamStatus 429 ''exhausted, not opened by setting'') g now)
     else fst ((if rl_account rl then RecordExhaustedAccount else RecordExhausted)
                 (gw_breaker gw) (mc_providerID cand) (mc_providerName cand) (mc_model cand) 429 (rl_pinHint rl) g now))"
proof -
  obtain st1 where c: "classify429Attempt ps ds now cand resp (st, gw) = (rl, st1)"
    using assms(1) by (auto simp: judge429AndRecordBreaker_def Let_def split: prod.splits)
  let ?w = "teach_limiter ps now cand rl (st1, count_429 ps ds now cand resp True rl gw)"
  obtain st2 gw2 where w: "?w = (st2, gw2)" by fastforce
  have on: "st_circuitBreakerEnabled st2" and br: "gw_breaker gw2 = gw_breaker gw"
    using teach_limiter_keeps [of ps now cand rl "(st1, count_429 ps ds now cand resp True rl gw)"] w assms(2)
      classify429_keeps(3) [of ps ds now cand resp st gw] c by auto
  have "w' = recordBreakerOutcome ps cand 429 True rl g now (st2, gw2)"
    using assms(1,3) c w by (simp add: judge429AndRecordBreaker_def Let_def)
  then show ?thesis
    using on br assms(4)
    by (cases "rl_class rl") (simp_all add: recordBreakerOutcome_def recordRateLimitOutcome_def charge429_def)
qed

lemma judge_inflight:
  assumes "judge429AndRecordBreaker ps ds g now cand resp True (st, gw) = (rl, w')"
    "rl_class rl = rateLimitSaturated" "st_inflightEnabled st" "st_attemptSlot st = Some s"
  shows "gw_inflight (snd w') =
    cut (snd (settle s slotUnclean (ps_growAfter ps) (ps_forgetAfter ps) now (gw_inflight gw))) (mc_providerID cand) (rl_retryAfter rl) now"
proof -
  obtain st1 where c: "classify429Attempt ps ds now cand resp (st, gw) = (rl, st1)"
    using assms(1) by (auto simp: judge429AndRecordBreaker_def Let_def split: prod.splits)
  have "w' = recordBreakerOutcome ps cand (rs_status resp) True rl g now
      (teach_limiter ps now cand rl (st1, count_429 ps ds now cand resp True rl gw))"
    using assms(1) c by (simp add: judge429AndRecordBreaker_def Let_def)
  moreover have "st_attemptSlot st1 = Some s" "st_inflightEnabled st1"
    using classify429_keeps [of ps ds now cand resp st gw] c assms(3,4) by auto
  ultimately show ?thesis
    using assms(2) by (simp add: teach_limiter_def settle_slot_def split: prod.splits)
qed

subsection \<open>The cut\<close>

lemma settle_unclean_window:
  "iw_inflight (settle_window w slotUnclean ga fa now) = (if iw_inflight w > 0 then iw_inflight w - 1 else iw_inflight w) \<and>
   iw_limit (settle_window w slotUnclean ga fa now) \<in> {iw_limit w, 0}"
  by (simp add: settle_window_def Let_def)

lemma settle_then_cut:
  assumes "\<not> as_fired s" "as_provider s = p" "0 < iw_inflight (window_of l p)" "0 \<le> iw_limit (window_of l p)"
  shows "\<exists>l'. cut (snd (settle s slotUnclean ga fa now (Some l))) p ra now = Some l' \<and>
    iw_inflight (window_of l' p) = iw_inflight (window_of l p) - 1 \<and>
    1 \<le> iw_limit (window_of l' p) \<and> iw_limit (window_of l' p) \<le> max 1 (iw_inflight (window_of l p) - 1) \<and>
    (\<forall>q. q \<noteq> p \<longrightarrow> window_of l' q = window_of l q)"
proof -
  obtain l1 ga' fa' where l1: "release (Some l) p slotUnclean ga fa now = Some l1"
    "window_of l1 = (window_of l)(p := settle_window (window_of l p) slotUnclean ga' fa' now)"
    using release_spec [OF refl, of l p slotUnclean ga fa now] by blast
  obtain l2 w2 where l2: "cut (Some l1) p ra now = Some l2" "window_of l2 = (window_of l1)(p := w2)"
    "iw_inflight w2 = iw_inflight (window_of l1 p)" "iw_limit w2 = narrowed_limit (window_of l1 p)"
    using cut_spec [OF refl, of l1 p ra now] by auto
  have "iw_inflight (window_of l1 p) = iw_inflight (window_of l p) - 1" "0 \<le> iw_limit (window_of l1 p)"
    using settle_unclean_window [of "window_of l p" ga' fa' now] l1(2) assms(3,4) by auto
  then show ?thesis
    using l1 l2 assms(1,2) by (intro exI [of _ l2]) (auto simp: settle_def narrowed_limit_def)
qed

text \<open>The body reader that reaches the end first settles the slot, and the judgement's own settle
  is then a no-op.\<close>

lemma reader_first:
  assumes "\<not> as_fired s" "\<not> as_held s"
    "Body_Read \<lparr>ir_clean = False, ir_onEOF = True\<rparr> True s ga fa now limiter = (s1, limiter1)"
  shows "settle s1 slotUnclean ga fa now limiter1 = (s1, limiter1)"
    "limiter1 = snd (settle s slotUnclean ga fa now limiter)"
  using assms by (auto simp: Body_Read_def verdictHeld_def release_outcome_def settle_def)

lemma classify429_reads:
  "st_circuitBreakerEnabled st1 = st_circuitBreakerEnabled st2 \<Longrightarrow> gw_breaker gw1 = gw_breaker gw2 \<Longrightarrow>
   fst (classify429Attempt ps ds now cand resp (st1, gw1)) = fst (classify429Attempt ps ds now cand resp (st2, gw2))"
  by (simp add: classify429Attempt_def Let_def split: prod.splits)

subsection \<open>An account out of credit\<close>

lemma out_of_credit:
  assumes "Contains (ToLower body) ''insufficient balance''" "\<not> Contains (ToLower body) ''no resource package''"
    "rateLimitResetHint ds now hdr = None" "bodyResetHint (ToLower body) = None"
  shows "rl_class (classifyRateLimit ds now 429 hdr body m) = rateLimitExhausted \<and>
    rl_account (classifyRateLimit ds now 429 hdr body m) \<and>
    rl_pinHint (classifyRateLimit ds now 429 hdr body m) = pinHintUntilPaid"
proof -
  obtain ps where tab: "rateLimitPhrases = unpaid ''no resource package'' True # unpaid ''insufficient balance'' False # ps"
    by (simp add: rateLimitPhrases_def)
  have m: "phrase_matches (ToLower body) (unpaid ''insufficient balance'' False)"
    "\<not> phrase_matches (ToLower body) (unpaid ''no resource package'' True)"
    using assms(1,2) by (simp_all add: phrase_matches_def unpaid_def)
  have "phrase_verdict ds now hdr (ToLower body) k rateLimitPhrases =
      Some (no_verdict\<lparr>rl_class := rateLimitExhausted, rl_phrase := ''insufficient balance'',
        rl_pinHint := pinHintUntilPaid, rl_entitled := True, rl_account := True\<rparr>)" for k
    unfolding tab using assms(3,4) m by (simp add: exhaustedVerdict_def Let_def) (simp add: unpaid_def)
  then show ?thesis by (simp add: classifyRateLimit_def Let_def)
qed

end
