(* ===== verification/Attempt_Properties.thy ===== *)
theory Attempt_Properties
  imports Attempt_Facts Breaker_Properties Inflight_System
begin

text \<open>
  The properties of an attempt's outcome: what the rate-limit classifier may answer, what one
  response does to the breaker and the limiter together, how a stream is judged, and which
  failure the client is told about.
\<close>

subsection \<open>Classification\<close>

definition ex_dates :: dates where
  "ex_dates = \<lparr>http_ParseTime = \<lambda>_. None, time_Parse_RFC3339 = \<lambda>_. None\<rparr>"

definition ex_header :: "string \<Rightarrow> string \<Rightarrow> string \<Rightarrow> string" where
  "ex_header key v h = (if h = key then v else [])"


text \<open>C36: spent is never mistaken for busy. A wait in the headers beyond the saturation ceiling
  makes the verdict exhausted with a pin at least that long, whatever phrases the body has; and a
  body with any phrase of a spent window or balance is exhausted, whatever saturation words stand
  beside it, unless the body's structured retry detail states a wait within the ceiling.\<close>

theorem spent_is_never_busy:
  "(rateLimitResetHint ds now hdr = Some w \<and> saturation_ceiling m < w \<longrightarrow>
      rl_class (classifyRateLimit ds now 429 hdr body m) = rateLimitExhausted \<and>
      w \<le> rl_pinHint (classifyRateLimit ds now 429 hdr body m)) \<and>
   (p \<in> set rateLimitPhrases \<and> ph_class p = rateLimitExhausted \<and> phrase_matches (ToLower body) p \<longrightarrow>
      rl_class (classifyRateLimit ds now 429 hdr body m) = rateLimitExhausted \<or>
      (\<exists>w. delay_detail (ToLower body) = Some w \<and> w \<le> saturation_ceiling m \<and>
         rl_class (classifyRateLimit ds now 429 hdr body m) = rateLimitSaturated \<and>
         rl_retryAfter (classifyRateLimit ds now 429 hdr body m) = w))"
  using classify_named_window [of ds now hdr w m body] classify_spent [of p body ds now hdr m] by blast

theorem spent_is_never_busy_witness:
  "rl_class (classifyRateLimit ex_dates 0 429 (ex_header ''Retry-After'' ''120'') ''slow down'' 0) = rateLimitExhausted \<and>
   rl_class (classifyRateLimit ex_dates 0 429 (\<lambda>_. []) ''Rate limit exceeded: insufficient balance'' 0) = rateLimitExhausted"
proof -
  let ?b = "''Rate limit exceeded: insufficient balance''"
  have "rateLimitResetHint ex_dates 0 (ex_header ''Retry-After'' ''120'') = Some (120 * second)"
    "saturation_ceiling 0 < 120 * second" by code_simp+
  moreover have "unpaid ''insufficient balance'' False \<in> set rateLimitPhrases"
    by (simp add: rateLimitPhrases_def)
  moreover have "ph_class (unpaid ''insufficient balance'' False) = rateLimitExhausted"
    "phrase_matches (ToLower ?b) (unpaid ''insufficient balance'' False)" "delay_detail (ToLower ?b) = None"
    by code_simp+
  ultimately show ?thesis
    using spent_is_never_busy [of ex_dates 0 "ex_header ''Retry-After'' ''120''" "120 * second" 0 "''slow down''"]
      spent_is_never_busy [of ex_dates 0 "\<lambda>_. []" 0 0 ?b "unpaid ''insufficient balance'' False"] by auto
qed

subsection \<open>One response, breaker and limiter\<close>

text \<open>C37: a provider that answers busy is neither charged nor credited. When a 429 is judged
  saturated, every admission answer of the breaker, for every provider and model, is what it was
  before, and the circuit's failure count, failed probes, last success and rate-limit streak stay
  as they were.\<close>

theorem busy_is_not_a_failure:
  assumes "breaker_reachable (gw_breaker gw)" "st_circuitBreakerEnabled st" "rs_status resp = 429"
    "judge429AndRecordBreaker ps ds g now cand resp True (st, gw) = (rl, st', gw')" "rl_class rl = rateLimitSaturated"
  shows "snd (snd (IsOpen (gw_breaker gw') q qn m now now)) = snd (snd (IsOpen (gw_breaker gw) q qn m now now)) \<and>
    c_consecutiveFails (circuit_at (gw_breaker gw') (mc_providerID cand) (mc_model cand)) =
      c_consecutiveFails (circuit_at (gw_breaker gw) (mc_providerID cand) (mc_model cand)) \<and>
    c_failedProbes (circuit_at (gw_breaker gw') (mc_providerID cand) (mc_model cand)) =
      c_failedProbes (circuit_at (gw_breaker gw) (mc_providerID cand) (mc_model cand)) \<and>
    c_lastSuccess (circuit_at (gw_breaker gw') (mc_providerID cand) (mc_model cand)) =
      c_lastSuccess (circuit_at (gw_breaker gw) (mc_providerID cand) (mc_model cand)) \<and>
    c_opens429Streak (circuit_at (gw_breaker gw') (mc_providerID cand) (mc_model cand)) =
      c_opens429Streak (circuit_at (gw_breaker gw) (mc_providerID cand) (mc_model cand))"
proof -
  have "gw_breaker gw' = RecordSaturated (gw_breaker gw) (mc_providerID cand) (mc_providerName cand) (mc_model cand) now"
    using judge_breaker [OF assms(4,2,3)] assms(5) by simp
  then show ?thesis
    using saturated_admission [OF breaker_okD(1) [OF breaker_reachable_ok [OF assms(1)]]]
    by (simp add: RecordSaturated_state saturated_fields)
qed

definition ex_settings :: proxySettings where
  "ex_settings = \<lparr>ps_classifyEnabled = True, ps_openOnExhaustion = True, ps_failoverOnRateLimit = True,
     ps_saturationMaxWait = 60 * second, ps_recentSuccessWindow = 60 * second, ps_growAfter = 20,
     ps_forgetAfter = 10 * minute\<rparr>"

definition ex_candidate :: modelCandidate where
  "ex_candidate = \<lparr>mc_providerID = ''p'', mc_providerName = ''P'', mc_model = ''m'', mc_maxInFlight = None\<rparr>"

definition ex_resp :: "string \<Rightarrow> upstreamResp" where
  "ex_resp body = \<lparr>rs_status = 429, rs_header = \<lambda>_. [], rs_head = body\<rparr>"

definition ex_state :: requestState where
  "ex_state = \<lparr>vs_rateLimit = no_verdict, vs_lastReqErr = no_error, vs_lastErr = [],
     vs_terminalRateLimit = no_verdict, vs_routedFailure = no_error, vs_routedFailureRateLimit = no_verdict,
     st_circuitBreakerEnabled = True, st_inflightEnabled = True,
     st_attemptSlot = Some \<lparr>as_provider = ''p'', as_fired = False, as_held = False\<rparr>,
     st_attemptBreaker = [], st_attemptPhrase = [], st_saturationRetried = False, st_serverErrorRetried = False,
     st_serverErrorRetryEnabled = True, st_overallDeadline = ex_t + 10 * minute\<rparr>"

definition ex_inflight :: inflightLimiter where
  "ex_inflight = \<lparr>il_windows = [(''p'', \<lparr>iw_limit = 0, iw_inflight = 4, iw_goodRuns = 0, iw_lastCut = 0\<rparr>)], il_notify = 0\<rparr>"

definition ex_gateway :: gateway where
  "ex_gateway = \<lparr>gw_breaker = ex_new, gw_inflight = Some ex_inflight, gw_caps = [], gw_rateLimits = [], gw_emitted = []\<rparr>"

definition ex_judged :: "string \<Rightarrow> rateLimitVerdict \<times> attempt_world" where
  "ex_judged body = judge429AndRecordBreaker ex_settings ex_dates ex_rng ex_t ex_candidate (ex_resp body) True (ex_state, ex_gateway)"

lemma ex_gateway_breaker [simp]: "gw_breaker ex_gateway = ex_new"
  by (simp add: ex_gateway_def)

lemma ex_busy_judged: "rl_class (fst (ex_judged ''slow down'')) = rateLimitSaturated"
  by code_simp

theorem busy_is_not_a_failure_witness:
  "snd (snd (IsOpen (gw_breaker (snd (snd (ex_judged ''slow down'')))) ''p'' ''P'' ''m'' ex_t ex_t)) =
     snd (snd (IsOpen ex_new ''p'' ''P'' ''m'' ex_t ex_t))"
proof -
  obtain rl st' gw' where j: "ex_judged ''slow down'' = (rl, st', gw')" by (metis prod_cases3)
  with ex_busy_judged have "rl_class rl = rateLimitSaturated" by simp
  moreover have "breaker_reachable (gw_breaker ex_gateway)" "st_circuitBreakerEnabled ex_state"
    "rs_status (ex_resp ''slow down'') = 429"
    using ex_new_reachable by (simp_all add: ex_state_def ex_resp_def)
  ultimately show ?thesis
    using busy_is_not_a_failure j by (fastforce simp: ex_judged_def)
qed

text \<open>The cut after a saturated 429 sees exactly the load that fit. The request that drew the
  429 has returned its slot, the provider's allowance is at least one and at most the other
  requests in flight, no other provider's window moves, and the outcome is the same whether the
  judgement or the body reader settles the slot.\<close>

theorem cut_sees_the_load_that_fit:
  assumes "judge429AndRecordBreaker ps ds g now cand resp True (st, gw) = (rl, st', gw')"
    "rl_class rl = rateLimitSaturated" "st_inflightEnabled st" "st_attemptSlot st = Some s"
    "\<not> as_fired s" "\<not> as_held s" "as_provider s = mc_providerID cand" "gw_inflight gw = Some l"
    "0 < iw_inflight (window_of l (mc_providerID cand))" "0 \<le> iw_limit (window_of l (mc_providerID cand))"
    "Body_Read \<lparr>ir_clean = False, ir_onEOF = True\<rparr> True s (ps_growAfter ps) (ps_forgetAfter ps) now (Some l) = (s1, limiter1)"
    "judge429AndRecordBreaker ps ds g now cand resp True
       (st\<lparr>st_attemptSlot := Some s1\<rparr>, gw\<lparr>gw_inflight := limiter1\<rparr>) = (rl2, st2, gw2)"
  shows "\<exists>l'. gw_inflight gw' = Some l' \<and> gw_inflight gw2 = Some l' \<and>
    iw_inflight (window_of l' (mc_providerID cand)) = iw_inflight (window_of l (mc_providerID cand)) - 1 \<and>
    1 \<le> iw_limit (window_of l' (mc_providerID cand)) \<and>
    iw_limit (window_of l' (mc_providerID cand)) \<le> max 1 (iw_inflight (window_of l (mc_providerID cand)) - 1) \<and>
    (\<forall>q. q \<noteq> mc_providerID cand \<longrightarrow> window_of l' q = window_of l q)"
proof -
  let ?p = "mc_providerID cand"
  have one: "gw_inflight gw' = cut (snd (settle s slotUnclean (ps_growAfter ps) (ps_forgetAfter ps) now (Some l))) ?p (rl_retryAfter rl) now"
    using judge_inflight [OF assms(1-4)] assms(8) by simp
  have rl2: "rl2 = rl"
    using judge_verdict [of ps ds g now cand resp True st gw] assms(1,12)
      judge_verdict [of ps ds g now cand resp True "st\<lparr>st_attemptSlot := Some s1\<rparr>" "gw\<lparr>gw_inflight := limiter1\<rparr>"]
      classify429_reads [of st "st\<lparr>st_attemptSlot := Some s1\<rparr>" gw "gw\<lparr>gw_inflight := limiter1\<rparr>" ps ds now cand resp]
    by simp
  have "gw_inflight gw2 = cut limiter1 ?p (rl_retryAfter rl) now"
    using judge_inflight [OF assms(12), of s1] reader_first(1) [OF assms(5,6,11)] rl2 assms(2,3) by simp
  then have two: "gw_inflight gw2 = gw_inflight gw'" using one reader_first(2) [OF assms(5,6,11)] by simp
  show ?thesis
    using settle_then_cut [OF assms(5,7,9,10), of "ps_growAfter ps" "ps_forgetAfter ps" now "rl_retryAfter rl"] one two by auto
qed

theorem cut_sees_the_load_that_fit_witness:
  "\<exists>l'. gw_inflight (snd (snd (ex_judged ''slow down''))) = Some l' \<and>
     iw_inflight (window_of l' ''p'') = 3 \<and> 1 \<le> iw_limit (window_of l' ''p'') \<and> iw_limit (window_of l' ''p'') \<le> 3"
proof -
  let ?s = "\<lparr>as_provider = ''p'', as_fired = False, as_held = False\<rparr>"
  obtain rl st' gw' where j: "ex_judged ''slow down'' = (rl, st', gw')" by (metis prod_cases3)
  then have j1: "judge429AndRecordBreaker ex_settings ex_dates ex_rng ex_t ex_candidate (ex_resp ''slow down'') True
      (ex_state, ex_gateway) = (rl, st', gw')" by (simp add: ex_judged_def)
  have c: "rl_class rl = rateLimitSaturated" using ex_busy_judged j by simp
  obtain s1 limiter1 where r: "Body_Read \<lparr>ir_clean = False, ir_onEOF = True\<rparr> True ?s (ps_growAfter ex_settings)
      (ps_forgetAfter ex_settings) ex_t (Some ex_inflight) = (s1, limiter1)" by fastforce
  obtain rl2 st2 gw2 where j2: "judge429AndRecordBreaker ex_settings ex_dates ex_rng ex_t ex_candidate (ex_resp ''slow down'') True
      (ex_state\<lparr>st_attemptSlot := Some s1\<rparr>, ex_gateway\<lparr>gw_inflight := limiter1\<rparr>) = (rl2, st2, gw2)"
    by (metis prod_cases3)
  have w: "window_of ex_inflight ''p'' = \<lparr>iw_limit = 0, iw_inflight = 4, iw_goodRuns = 0, iw_lastCut = 0\<rparr>"
    by (simp add: window_of_def ex_inflight_def)
  have "st_inflightEnabled ex_state" "st_attemptSlot ex_state = Some ?s" "gw_inflight ex_gateway = Some ex_inflight"
    "mc_providerID ex_candidate = ''p''"
    by (simp_all add: ex_state_def ex_gateway_def ex_candidate_def)
  from cut_sees_the_load_that_fit [OF j1 c this(1,2) _ _ _ this(3) _ _ r j2] this w j
  show ?thesis by auto
qed



subsection \<open>Statuses and streams\<close>

text \<open>The routing policy and the breaker policy agree on every status code. A status that
  fails over is charged or left alone, never credited; a 2xx neither fails over nor tells the
  breaker anything at header time; and any other status that stays proves the provider alive and
  says nothing about a served answer.\<close>

theorem status_policies_agree:
  "(shouldFailover ps code \<longrightarrow> breakerRecordAction code \<noteq> breakerActionSuccess) \<and>
   (servedSuccessStatus code \<longrightarrow> \<not> shouldFailover ps code \<and>
      recordBreakerOutcome ps cand code (shouldFailover ps code) rl g now (st, gw) = (st, gw)) \<and>
   (\<not> servedSuccessStatus code \<and> \<not> shouldFailover ps code \<and> st_circuitBreakerEnabled st \<longrightarrow>
      c_lastSuccess (circuit_at (gw_breaker (snd (recordBreakerOutcome ps cand code (shouldFailover ps code) rl g now (st, gw))))
          (mc_providerID cand) (mc_model cand)) =
        c_lastSuccess (circuit_at (gw_breaker gw) (mc_providerID cand) (mc_model cand)))"
proof -
  have "shouldFailover ps code \<longrightarrow> breakerRecordAction code \<noteq> breakerActionSuccess"
    by (auto simp: shouldFailover_def breakerRecordAction_def statusClientClosedRequest_def)
  moreover have "servedSuccessStatus code \<longrightarrow> \<not> shouldFailover ps code"
    by (auto simp: shouldFailover_def servedSuccessStatus_def)
  ultimately show ?thesis
    by (auto simp: recordBreakerOutcome_def RecordAlive_def recordSuccess_state success_lastSuccess)
qed

theorem status_policies_agree_witness:
  "shouldFailover ex_settings 503 \<and> breakerRecordAction 503 \<noteq> breakerActionSuccess \<and>
   recordBreakerOutcome ex_settings ex_candidate 201 False no_verdict ex_rng ex_t (ex_state, ex_gateway) = (ex_state, ex_gateway)"
proof -
  have s: "shouldFailover ex_settings 503" "servedSuccessStatus 201"
    and n: "shouldFailover ex_settings 201 = False"
    by (simp_all add: shouldFailover_def servedSuccessStatus_def)
  show ?thesis
    using s status_policies_agree [of ex_settings 503]
      status_policies_agree [of ex_settings 201 ex_candidate no_verdict ex_rng ex_t ex_state ex_gateway]
    unfolding n by blast
qed

text \<open>How a finished stream is judged. A credit is due exactly to a stream that ended without
  error, with output, and neither the client nor a shutdown cut; once output was delivered, only a
  stall before any end signal or an oversized frame is charged; and the in-flight slot learns the
  same verdict, also while the breaker is switched off.\<close>

theorem stream_verdict_rule:
  "(sv_success (judgeStreamForBreaker ss k errMsg True) \<longleftrightarrow>
      errMsg = [] \<and> streamDeliveredOutput ss \<and> \<not> ss_clientDisconnected ss \<and>
      (ss_interrupted ss \<longrightarrow> ss_lineCapExceeded ss)) \<and>
   (streamDeliveredOutput ss \<and> sv_failureReason (judgeStreamForBreaker ss k errMsg True) \<noteq> [] \<longrightarrow>
      errMsg \<noteq> [] \<and> (ss_lineCapExceeded ss \<or> ss_stalled ss \<and> \<not> ss_sawDone ss \<and> \<not> ss_sawTerminalEvent ss)) \<and>
   (streamSlotOutcome ss k errMsg = slotClean \<longleftrightarrow> sv_success (judgeStreamForBreaker ss k errMsg True)) \<and>
   (streamSlotOutcome ss k errMsg = slotUnclean \<longleftrightarrow> sv_failureReason (judgeStreamForBreaker ss k errMsg True) \<noteq> []) \<and>
   judgeStreamForBreaker ss k errMsg False = nothing_to_tell"
  by (auto simp: judgeStreamForBreaker_def streamSlotOutcome_def nothing_to_tell_def Let_def split: option.splits)

definition ex_stream :: streamState where
  "ex_stream = \<lparr>ss_sawContent = True, ss_sawImage = False, ss_deliveredBytes = 5, ss_completionTokens = 0,
     ss_unparsedChunks = 0, ss_sawDone = False, ss_sawTerminalEvent = False, ss_clientDisconnected = False,
     ss_stalled = True, ss_interrupted = False, ss_lineCapExceeded = False\<rparr>"

theorem stream_verdict_rule_witness:
  "streamSlotOutcome ex_stream (Some KindProviderTimeout) ''stalled'' = slotUnclean \<and>
   streamSlotOutcome (ex_stream\<lparr>ss_stalled := False\<rparr>) None [] = slotClean"
proof -
  have "sv_failureReason (judgeStreamForBreaker ex_stream (Some KindProviderTimeout) ''stalled'' True) \<noteq> []"
    "streamDeliveredOutput (ex_stream\<lparr>ss_stalled := False\<rparr>)"
    by (simp_all add: judgeStreamForBreaker_def ex_stream_def streamDeliveredOutput_def)
  then show ?thesis
    using stream_verdict_rule [of ex_stream "Some KindProviderTimeout" "''stalled''"]
      stream_verdict_rule [of "ex_stream\<lparr>ss_stalled := False\<rparr>" None "[]"] by (simp add: ex_stream_def)
qed

subsection \<open>The failure the client is told\<close>

text \<open>C39: however failed attempts follow one another, the terminal verdict is one of the recorded
  errors together with the 429 verdict of that same attempt, and as soon as one candidate that had
  a route for the request failed, the verdict never is a refusal of the caller's body: a 400 is
  answered only when no provider was sent the request.\<close>

theorem refusal_never_hides_a_route:
  assumes "es \<noteq> []" "\<forall>(rl, e)\<in>set es. re_Kind e \<noteq> None"
  shows "(\<exists>(rl, e)\<in>set es. vs_lastReqErr (verdict_run fence es new_verdict) = fenced fence e \<and>
      vs_terminalRateLimit (verdict_run fence es new_verdict) = rl) \<and>
    ((\<exists>(rl, e)\<in>set es. isRoutedFailure e) \<longrightarrow>
      re_Kind (vs_lastReqErr (verdict_run fence es new_verdict)) \<noteq> Some KindValidation \<and>
      terminalStatus (vs_lastReqErr (verdict_run fence es new_verdict)) \<noteq> 400)"
proof -
  have "verdict_inv fence {} new_verdict" by (simp add: verdict_inv_def new_verdict_def no_error_def)
  from verdict_run_inv [OF this assms(2)] assms(1)
  have inv: "verdict_inv fence (set es) (verdict_run fence es new_verdict)" by simp
  have "terminalStatus e \<noteq> 400" if "re_Kind e \<noteq> Some KindValidation" for e
    using that by (auto simp: terminalStatus_def statusClientClosedRequest_def split: option.splits ErrorKind.splits)
  then show ?thesis using inv assms(1) by (auto simp: verdict_inv_def split: if_splits)
qed

theorem refusal_never_hides_a_route_witness:
  "re_Kind (vs_lastReqErr (verdict_run id
     [(no_verdict, req_error KindProviderError 0 ''A''), (no_verdict, req_error KindInternal 1 ''B''),
      (no_verdict, req_error KindValidation 2 ''C'')] new_verdict)) \<noteq> Some KindValidation"
proof -
  have "isRoutedFailure (req_error KindProviderError 0 ''A'')"
    by (simp add: isRoutedFailure_def req_error_def no_error_def)
  then show ?thesis
    using refusal_never_hides_a_route [of "[(no_verdict, req_error KindProviderError 0 ''A''),
      (no_verdict, req_error KindInternal 1 ''B''), (no_verdict, req_error KindValidation 2 ''C'')]" id]
    by (simp add: req_error_def)
qed

end
