(* ===== verification/Attempt_Trail.thy ===== *)
theory Attempt_Trail
  imports Attempt_Outcome
begin

text \<open>
  The per-attempt trail of a request (\<open>internal/proxy/attempt_trail.go\<close>): a record is opened when the
  loop commits to a candidate and closed when the attempt's fate is known. The two notes of the
  attempt in flight, \<open>attemptBreaker\<close> and \<open>attemptPhrase\<close>, are the fields \<open>st_attemptBreaker\<close> and
  \<open>st_attemptPhrase\<close> of the request state. Durations are kept in nanoseconds; \<open>detail\<close> arguments are
  the text \<open>attemptDetail\<close> leaves of the upstream's.
\<close>

record attemptRecord =
  ar_Attempt :: int
  ar_ProviderID :: string
  ar_Provider :: string
  ar_Model :: string
  ar_Status :: int
  ar_ErrorKind :: "ErrorKind option"
  ar_Detail :: string
  ar_Phrase :: string
  ar_Duration :: duration
  ar_Hedged :: bool
  ar_Breaker :: string

datatype logState = logPending | logStreaming | logCompleted | logFailed

record requestLogData =
  lg_providerID :: string
  lg_providerName :: string
  lg_openAttempt :: "attemptRecord option"
  lg_attempts :: "attemptRecord list"
  lg_attemptStarted :: instant
  lg_attemptStatus :: int
  lg_statusCode :: int
  lg_errorKind :: "ErrorKind option"
  lg_errorMessage :: string
  lg_failoverAttempt :: int
  lg_state :: logState
  lg_emptyCompletion :: bool
  lg_judge :: "(modelCandidate \<times> int) option"

definition breakerSkipped :: string where "breakerSkipped = ''skipped''"
definition breakerDisabled :: string where "breakerDisabled = ''disabled''"

definition newAttemptRecord :: "int \<Rightarrow> modelCandidate \<Rightarrow> attemptRecord" where
  "newAttemptRecord attempt cand =
     \<lparr>ar_Attempt = attempt, ar_ProviderID = mc_providerID cand, ar_Provider = mc_providerName cand,
      ar_Model = mc_model cand, ar_Status = 0, ar_ErrorKind = None, ar_Detail = [], ar_Phrase = [],
      ar_Duration = 0, ar_Hedged = False, ar_Breaker = []\<rparr>"

definition openAttemptRecord ::
    "int \<Rightarrow> modelCandidate \<Rightarrow> bool \<Rightarrow> instant \<Rightarrow> requestState \<times> requestLogData \<Rightarrow> requestState \<times> requestLogData" where
  "openAttemptRecord attempt cand hedged startedAt s = (case s of (st, l) \<Rightarrow>
     (st\<lparr>st_attemptBreaker := (if st_circuitBreakerEnabled st then [] else breakerDisabled), st_attemptPhrase := []\<rparr>,
      l\<lparr>lg_openAttempt := Some ((newAttemptRecord attempt cand)\<lparr>ar_Hedged := hedged\<rparr>),
        lg_attemptStarted := startedAt, lg_attemptStatus := 0\<rparr>))"

definition noteAttemptStatus :: "int \<Rightarrow> requestLogData \<Rightarrow> requestLogData" where
  "noteAttemptStatus status l = l\<lparr>lg_attemptStatus := status\<rparr>"

definition closeAttemptRecord ::
    "instant \<Rightarrow> int \<Rightarrow> ErrorKind option \<Rightarrow> string \<Rightarrow> string \<Rightarrow> requestState \<Rightarrow> requestLogData \<Rightarrow> requestLogData" where
  "closeAttemptRecord now status kind detail phrase st l =
     (case lg_openAttempt l of
        None \<Rightarrow> l
      | Some rec \<Rightarrow>
          l\<lparr>lg_openAttempt := None,
            lg_attempts := lg_attempts l @
              [rec\<lparr>ar_Status := status, ar_ErrorKind := kind, ar_Detail := detail, ar_Phrase := phrase,
                   ar_Breaker := st_attemptBreaker st,
                   ar_Duration := (if lg_attemptStarted l \<noteq> 0 then time_sub now (lg_attemptStarted l) else ar_Duration rec)\<rparr>]\<rparr>)"

definition closeTerminalAttempt :: "instant \<Rightarrow> requestState \<Rightarrow> requestLogData \<Rightarrow> requestLogData" where
  "closeTerminalAttempt now st l =
     (case lg_openAttempt l of
        None \<Rightarrow> l
      | Some _ \<Rightarrow>
          closeAttemptRecord now (if lg_attemptStatus l = 0 then lg_statusCode l else lg_attemptStatus l)
            (lg_errorKind l) [] (st_attemptPhrase st) st l)"

definition appendAttemptRecord :: "attemptRecord \<Rightarrow> requestLogData \<Rightarrow> requestLogData" where
  "appendAttemptRecord rec l = l\<lparr>lg_attempts := lg_attempts l @ [rec]\<rparr>"

definition appendSkip :: "string \<Rightarrow> string \<Rightarrow> string \<Rightarrow> string \<Rightarrow> requestLogData \<Rightarrow> requestLogData" where
  "appendSkip providerID providerName model detail l =
     appendAttemptRecord
       \<lparr>ar_Attempt = -1, ar_ProviderID = providerID, ar_Provider = providerName, ar_Model = model, ar_Status = 0,
        ar_ErrorKind = None, ar_Detail = detail, ar_Phrase = [], ar_Duration = 0, ar_Hedged = False,
        ar_Breaker = breakerSkipped\<rparr> l"

definition appendBreakerSkip :: "string \<Rightarrow> string \<Rightarrow> string \<Rightarrow> requestLogData \<Rightarrow> requestLogData" where
  "appendBreakerSkip providerID providerName model l = appendSkip providerID providerName model ''circuit breaker open'' l"

text \<open>The order \<open>attemptsJSON\<close> writes the trail in, a stable sort by attempt index; \<open>None\<close> is the SQL
  \<open>NULL\<close> of a request that never committed to a candidate.\<close>

definition attemptsJSON :: "requestLogData \<Rightarrow> attemptRecord list option" where
  "attemptsJSON l = (if lg_attempts l = [] then None else Some (sort_key ar_Attempt (lg_attempts l)))"

definition failoverProviders :: "requestLogData \<Rightarrow> string list" where
  "failoverProviders l = map ar_Provider (filter (\<lambda>a. ar_Attempt a \<ge> 1) (lg_attempts l))"

end
