(* ===== verification/Failover_Loop.thy ===== *)
theory Failover_Loop
  imports Attempt_Trail
begin

text \<open>
  The failover loop (\<open>internal/proxy/proxy.go\<close>): \<open>runFailoverLoop\<close>, the one-shot retries of the last
  candidate, the wait for a slot when every candidate is busy, and the exhaustion path. As in the
  source the loop is given the function that runs one attempt.

  The world of a request carries what the loop reads from outside as a sequence of moments, one per
  interaction: the clock, whether the client's context ended the wait, the jitter of a backoff, the
  in-flight limiter as a waiter last saw it. The error responses and answers written to the client
  and the waits slept are collected. The settings are read once (\<open>loopConfig\<close>); \<open>lc_fence\<close>,
  \<open>lc_detail\<close> and \<open>lc_mask\<close> are the masking and fencing of upstream text, \<open>lc_classify\<close> is
  \<open>classifyUpstreamError\<close> and \<open>lc_hint\<close> renders the hint of \<open>classifyProbeFailure\<close>.
\<close>

subsection \<open>The world of a request\<close>

record 'e envMoment =
  em_now :: instant
  em_done :: bool
  em_jitter :: int
  em_limiter :: "inflightLimiter option"
  em_attempt :: 'e

text \<open>An answer written to the client: \<open>cl_served\<close> tells a served answer from an error body.\<close>

record clientAnswer =
  cl_status :: int
  cl_message :: string
  cl_retryAfter :: "int option"
  cl_served :: bool

record 'e loopWorld =
  lw_env :: "nat \<Rightarrow> 'e envMoment"
  lw_tick :: nat
  lw_st :: requestState
  lw_gw :: gateway
  lw_log :: requestLogData
  lw_answers :: "clientAnswer list"
  lw_waits :: "duration list"

record loopConfig =
  lc_settings :: proxySettings
  lc_status429 :: bool
  lc_isFailover :: bool
  lc_reqModel :: string
  lc_fence :: "string \<Rightarrow> string"
  lc_detail :: "string \<Rightarrow> string"
  lc_mask :: "string \<Rightarrow> string"
  lc_classify :: "int \<Rightarrow> string \<Rightarrow> string \<Rightarrow> ErrorKind \<times> string"
  lc_dates :: dates
  lc_rng :: rng
  lc_isStreaming :: bool
  lc_ttftTimeout :: duration
  lc_stallTimeout :: duration
  lc_hint :: "string \<Rightarrow> duration \<Rightarrow> string"

definition moment :: "'e loopWorld \<Rightarrow> 'e envMoment \<times> 'e loopWorld" where
  "moment w = (lw_env w (lw_tick w), w\<lparr>lw_tick := Suc (lw_tick w)\<rparr>)"

text \<open>The operations on the pair of request state and shared state, and on the log entry, as steps of
  the world.\<close>

definition on_attempt :: "(attempt_world \<Rightarrow> attempt_world) \<Rightarrow> 'e loopWorld \<Rightarrow> 'e loopWorld" where
  "on_attempt f w = (case f (lw_st w, lw_gw w) of (st, gw) \<Rightarrow> w\<lparr>lw_st := st, lw_gw := gw\<rparr>)"

definition on_log :: "(requestLogData \<Rightarrow> requestLogData) \<Rightarrow> 'e loopWorld \<Rightarrow> 'e loopWorld" where
  "on_log f w = w\<lparr>lw_log := f (lw_log w)\<rparr>"

definition record_error :: "loopConfig \<Rightarrow> reqError \<Rightarrow> 'e loopWorld \<Rightarrow> 'e loopWorld" where
  "record_error cfg e w = w\<lparr>lw_st := setReqErr (lc_fence cfg) e (lw_st w)\<rparr>"

definition close_attempt ::
    "loopConfig \<Rightarrow> instant \<Rightarrow> int \<Rightarrow> ErrorKind option \<Rightarrow> string \<Rightarrow> string \<Rightarrow> 'e loopWorld \<Rightarrow> 'e loopWorld" where
  "close_attempt cfg now status kind detail phrase w =
     on_log (closeAttemptRecord now status kind (lc_detail cfg detail) phrase (lw_st w)) w"

definition write_answer :: "clientAnswer \<Rightarrow> 'e loopWorld \<Rightarrow> 'e loopWorld" where
  "write_answer a w = w\<lparr>lw_answers := lw_answers w @ [a]\<rparr>"

definition writeOpenAIError :: "string \<Rightarrow> int \<Rightarrow> int option \<Rightarrow> 'e loopWorld \<Rightarrow> 'e loopWorld" where
  "writeOpenAIError message status retryAfter =
     write_answer \<lparr>cl_status = status, cl_message = message, cl_retryAfter = retryAfter, cl_served = False\<rparr>"

subsection \<open>The terminal write\<close>

text \<open>\<open>judgeAnswerNow\<close> runs the breaker verdict a dispatch armed, once.\<close>

definition judgeAnswerNow :: "loopConfig \<Rightarrow> instant \<Rightarrow> 'e loopWorld \<Rightarrow> 'e loopWorld" where
  "judgeAnswerNow cfg now w =
     (case lg_judge (lw_log w) of
        None \<Rightarrow> w
      | Some (cand, status) \<Rightarrow>
          on_attempt (recordAnswerOutcome cand
              \<lparr>al_completed = (lg_state (lw_log w) = logCompleted),
               al_errorKind = (case lg_errorKind (lw_log w) of Some k \<Rightarrow> k | None \<Rightarrow> KindInternal),
               al_emptyCompletion = lg_emptyCompletion (lw_log w)\<rparr> status (lc_rng cfg) now)
            (on_log (\<lambda>l. l\<lparr>lg_judge := None\<rparr>) w))"

definition isTerminalLogState :: "logState \<Rightarrow> bool" where
  "isTerminalLogState s \<longleftrightarrow> s = logCompleted \<or> s = logFailed"

definition updateRequestLog :: "loopConfig \<Rightarrow> instant \<Rightarrow> 'e loopWorld \<Rightarrow> 'e loopWorld" where
  "updateRequestLog cfg now w =
     (if isTerminalLogState (lg_state (lw_log w))
      then (let w = judgeAnswerNow cfg now w in on_log (closeTerminalAttempt now (lw_st w)) w)
      else w)"

definition failRequest ::
    "loopConfig \<Rightarrow> int \<Rightarrow> ErrorKind option \<Rightarrow> string \<Rightarrow> int \<Rightarrow> 'e loopWorld \<Rightarrow> 'e loopWorld" where
  "failRequest cfg statusCode kind errMsg attempt w = (case moment w of (m, w) \<Rightarrow>
     updateRequestLog cfg (em_now m)
       (on_log (\<lambda>l. l\<lparr>lg_statusCode := statusCode, lg_errorKind := kind, lg_errorMessage := errMsg,
                      lg_failoverAttempt := attempt, lg_state := logFailed\<rparr>) w))"

definition failClientGone :: "loopConfig \<Rightarrow> int \<Rightarrow> string \<Rightarrow> 'e loopWorld \<Rightarrow> 'e loopWorld" where
  "failClientGone cfg attempt providerName w =
     (let w = record_error cfg (no_error\<lparr>re_Kind := Some KindClientDisconnect, re_Attempt := attempt,
                 re_Provider := providerName, re_Underlying := re_Underlying (vs_lastReqErr (lw_st w))\<rparr>) w
      in writeOpenAIError ''client disconnected'' statusClientClosedRequest None
           (failRequest cfg statusClientClosedRequest (Some KindClientDisconnect) (vs_lastErr (lw_st w)) attempt w))"

definition fail_exhausted :: "loopConfig \<Rightarrow> int \<Rightarrow> 'e loopWorld \<Rightarrow> 'e loopWorld" where
  "fail_exhausted cfg numCandidates w =
     (let x = failAllExhausted (lc_status429 cfg) (lc_isFailover cfg) (lc_reqModel cfg) numCandidates (lw_st w);
          last = vs_lastReqErr (lw_st w);
          w = on_log (\<lambda>l. l\<lparr>lg_providerName := (if re_Provider last \<noteq> [] then re_Provider last else lg_providerName l),
                            lg_providerID := []\<rparr>) w
      in writeOpenAIError (ex_clientMsg x) (ex_status x) (ex_retryAfter x)
           (failRequest cfg (ex_status x) (ex_kind x) (ex_logMsg x) (numCandidates - 1) w))"

subsection \<open>Backoff\<close>

definition retryMinRound :: duration where "retryMinRound = 100 * millisecond"
definition serverErrorRetryBackoff :: duration where "serverErrorRetryBackoff = 500 * millisecond"

text \<open>\<open>failoverBackoff\<close>: \<open>math.Pow(2, n)\<close> and the product are exact in double precision; the jitter is
  \<open>rand.Int64N(base)\<close>.\<close>

definition failoverBackoff :: "duration \<Rightarrow> duration \<Rightarrow> int \<Rightarrow> int \<Rightarrow> duration" where
  "failoverBackoff base capacity attempt jitter =
     wrap64 (min (Duration_of_float (of_int (base * 2 ^ nat (attempt - 1)))) capacity + jitter mod base)"

definition slept :: "duration \<Rightarrow> 'e loopWorld \<Rightarrow> 'e loopWorld" where
  "slept d w = w\<lparr>lw_waits := lw_waits w @ [d]\<rparr>"

text \<open>The wait between two candidates. \<open>True\<close> says that the request was answered: its client left.\<close>

definition backoff_wait :: "loopConfig \<Rightarrow> int \<Rightarrow> int \<Rightarrow> 'e loopWorld \<Rightarrow> bool \<times> 'e loopWorld" where
  "backoff_wait cfg attempt contacted w = (case moment w of (m, w) \<Rightarrow>
     (let w = slept (failoverBackoff (100 * millisecond) (2 * second) contacted (em_jitter m)) w;
          last = vs_lastReqErr (lw_st w)
      in if \<not> em_done m then (False, w)
         else if re_Kind last = Some KindProviderTimeout
         then (True,
               writeOpenAIError (terminalClientMessage last (lc_reqModel cfg) (lc_isFailover cfg)) (terminalStatus last) None
                 (failRequest cfg (terminalStatus last) (re_Kind last) (terminalLogMessage last (lc_isFailover cfg) attempt)
                   (attempt - 1) w))
         else (True, failClientGone cfg (attempt - 1) (lg_providerName (lw_log w)) w)))"

subsection \<open>The retries of the last candidate\<close>

datatype candidateOutcome = outcomeFailover | outcomeServed | outcomeFatal | outcomeRetrySaturated
  | outcomeRetryServerError | outcomeBusy | outcomeSkipped

type_synonym 'e attemptFn = "modelCandidate \<Rightarrow> int \<Rightarrow> int \<Rightarrow> 'e loopWorld \<Rightarrow> candidateOutcome \<times> 'e loopWorld"

definition saturatedRetryWait :: "loopConfig \<Rightarrow> requestState \<Rightarrow> duration" where
  "saturatedRetryWait cfg st =
     (let wait = rl_retryAfter (vs_rateLimit st);
          wait = (if wait \<le> 0 then defaultSaturatedRetryAfter else wait)
      in min wait (ps_saturationMaxWait (lc_settings cfg)))"

datatype retryStep = retryRefused | retryClientGone | retryNow

text \<open>\<open>retryLastCandidate\<close> up to the attempt: the wait that fits the deadline, and the wait itself.\<close>

definition fit_wait :: "instant \<Rightarrow> instant \<Rightarrow> duration \<Rightarrow> bool \<Rightarrow> duration option" where
  "fit_wait overallDeadline now wait yields =
     (let remaining = time_sub overallDeadline now;
          wait = (if yields then min wait (wrap64 (remaining - retryMinRound)) else wait)
      in if wait < 0 \<or> wrap64 (wait + retryMinRound) > remaining then None else Some wait)"

definition retryLastCandidate ::
    "loopConfig \<Rightarrow> modelCandidate \<Rightarrow> int \<Rightarrow> duration \<Rightarrow> bool \<Rightarrow> 'e loopWorld \<Rightarrow> retryStep \<times> 'e loopWorld" where
  "retryLastCandidate cfg cand attempt wait yields w =
     (let (fits, w) =
            (if st_overallDeadline (lw_st w) \<noteq> 0
             then (case moment w of (m, w) \<Rightarrow> (fit_wait (st_overallDeadline (lw_st w)) (em_now m) wait yields, w))
             else (Some wait, w))
      in case fits of
           None \<Rightarrow> (retryRefused, w)
         | Some wait \<Rightarrow>
             (case moment (slept wait w) of (m, w) \<Rightarrow>
                if em_done m then (retryClientGone, failClientGone cfg (attempt - 1) (mc_providerName cand) w)
                else (retryNow, w)))"

definition retrySaturatedCandidate :: "loopConfig \<Rightarrow> modelCandidate \<Rightarrow> int \<Rightarrow> 'e loopWorld \<Rightarrow> retryStep \<times> 'e loopWorld" where
  "retrySaturatedCandidate cfg cand attempt w =
     retryLastCandidate cfg cand attempt (saturatedRetryWait cfg (lw_st w)) False w"

definition retryServerErrorCandidate :: "loopConfig \<Rightarrow> modelCandidate \<Rightarrow> int \<Rightarrow> 'e loopWorld \<Rightarrow> retryStep \<times> 'e loopWorld" where
  "retryServerErrorCandidate cfg cand attempt w = (case moment w of (m, w) \<Rightarrow>
     retryLastCandidate cfg cand attempt (failoverBackoff serverErrorRetryBackoff (2 * second) 1 (em_jitter m)) True w)"

text \<open>The chain of retries: \<open>settleLastCandidateRetry\<close> acts on an outcome, a retry that runs hands the
  next outcome back to it. \<open>None\<close> is a chain that never ends.\<close>

partial_function (option) settleLastCandidateRetry ::
    "loopConfig \<Rightarrow> 'e attemptFn \<Rightarrow> modelCandidate \<Rightarrow> int \<Rightarrow> candidateOutcome \<Rightarrow> 'e loopWorld \<Rightarrow> (bool \<times> 'e loopWorld) option" where
  "settleLastCandidateRetry cfg attemptOne cand next outcome w =
     (if outcome = outcomeRetrySaturated \<or> outcome = outcomeRetryServerError
      then (case (if outcome = outcomeRetrySaturated then retrySaturatedCandidate cfg cand next w
                  else retryServerErrorCandidate cfg cand next w) of
              (step, w) \<Rightarrow>
                (if step = retryNow
                 then (case attemptOne cand next (next + 1) w of (outcome, w) \<Rightarrow>
                         settleLastCandidateRetry cfg attemptOne cand (next + 1) outcome w)
                 else Some (step = retryClientGone, w)))
      else if outcome = outcomeFailover \<or> outcome = outcomeSkipped \<or> outcome = outcomeBusy then Some (False, w)
      else Some (True, w))"

subsection \<open>Waiting for a slot\<close>

text \<open>The predicate \<open>waitForSlot\<close> is given: the first busy candidate the limiter has room for.\<close>

fun first_admittable :: "modelCandidate list \<Rightarrow> inflightLimiter option \<Rightarrow> nat option \<times> inflightLimiter option" where
  "first_admittable [] limiter = (None, limiter)"
| "first_admittable (c # cs) limiter =
     (case canAdmit limiter (mc_providerID c) (providerCeiling (mc_maxInFlight c)) of
        (True, limiter) \<Rightarrow> (Some 0, limiter)
      | (False, limiter) \<Rightarrow> (case first_admittable cs limiter of (i, limiter) \<Rightarrow> (map_option Suc i, limiter)))"

text \<open>A wait ends with the predicate asked on the limiter as it then is; an absent limiter never asks.
  The first component says that the client's context ended.\<close>

definition wait_for_slot :: "modelCandidate list \<Rightarrow> 'e loopWorld \<Rightarrow> bool \<times> nat option \<times> 'e loopWorld" where
  "wait_for_slot waiting w = (case moment w of (m, w) \<Rightarrow>
     if em_limiter m = None then (em_done m, None, w)
     else (case first_admittable waiting (em_limiter m) of (i, limiter) \<Rightarrow>
             (em_done m, i, w\<lparr>lw_gw := (lw_gw w)\<lparr>gw_inflight := limiter\<rparr>\<rparr>)))"

text \<open>A busy candidate that refused the body leaves the list, and its refusal yields to the busy skip of
  one that still waits.\<close>

definition yield_refusal :: "loopConfig \<Rightarrow> modelCandidate \<Rightarrow> modelCandidate \<Rightarrow> int \<Rightarrow> 'e loopWorld \<Rightarrow> 'e loopWorld" where
  "yield_refusal cfg refused next attempt w =
     (let last = vs_lastReqErr (lw_st w)
      in if re_Kind last = Some KindValidation \<and> re_Provider last = mc_providerName refused \<and> re_Model last = mc_model refused
         then record_error cfg (no_error\<lparr>re_Kind := Some KindProviderSaturated, re_Attempt := attempt,
                re_Provider := mc_providerName next, re_Model := mc_model next, re_Detail := busySkipDetail\<rparr>) w
         else w)"

partial_function (option) slot_loop ::
    "loopConfig \<Rightarrow> 'e attemptFn \<Rightarrow> instant \<Rightarrow> modelCandidate list \<Rightarrow> int \<Rightarrow> 'e loopWorld \<Rightarrow> (bool \<times> 'e loopWorld) option" where
  "slot_loop cfg attemptOne deadline waiting attempt w = (case moment w of (m, w) \<Rightarrow>
     (if em_now m \<ge> deadline then Some (False, w)
      else (case wait_for_slot waiting w of (gone, idx, w) \<Rightarrow>
        (if gone then Some (True, failClientGone cfg (attempt - 1) (lg_providerName (lw_log w)) w)
         else (case idx of
            None \<Rightarrow> Some (False, w)
          | Some i \<Rightarrow>
              (case attemptOne (waiting ! i) attempt (attempt + 1) w of (outcome, w) \<Rightarrow>
                (if outcome = outcomeBusy then slot_loop cfg attemptOne deadline waiting (attempt + 1) w
                 else if outcome = outcomeFailover then Some (False, w)
                 else if outcome = outcomeSkipped
                 then (if take i waiting @ drop (Suc i) waiting = [] then Some (False, w)
                       else slot_loop cfg attemptOne deadline (take i waiting @ drop (Suc i) waiting) (attempt + 1)
                              (yield_refusal cfg (waiting ! i) (hd (take i waiting @ drop (Suc i) waiting)) attempt w))
                 else if outcome = outcomeRetrySaturated \<or> outcome = outcomeRetryServerError
                 then settleLastCandidateRetry cfg attemptOne (waiting ! i) (attempt + 1) outcome w
                 else Some (True, w))))))))"

definition retryAfterSlotFrees ::
    "loopConfig \<Rightarrow> 'e attemptFn \<Rightarrow> modelCandidate list \<Rightarrow> int \<Rightarrow> 'e loopWorld \<Rightarrow> (bool \<times> 'e loopWorld) option" where
  "retryAfterSlotFrees cfg attemptOne waiting numCandidates w = (case moment w of (m, w) \<Rightarrow>
     (let deadline = time_add (em_now m) (ps_saturationMaxWait (lc_settings cfg));
          deadline = (if st_overallDeadline (lw_st w) < deadline then st_overallDeadline (lw_st w) else deadline)
      in slot_loop cfg attemptOne deadline waiting numCandidates w))"

subsection \<open>The loop\<close>

text \<open>The walk over the candidates; the answer says whether the client was answered, and which
  candidates were skipped as busy.\<close>

fun walk_candidates ::
    "loopConfig \<Rightarrow> 'e attemptFn \<Rightarrow> int \<Rightarrow> modelCandidate list \<Rightarrow> int \<Rightarrow> int \<Rightarrow> modelCandidate list \<Rightarrow> 'e loopWorld \<Rightarrow>
     (bool \<times> modelCandidate list \<times> 'e loopWorld) option" where
  "walk_candidates cfg attemptOne n [] attempt contacted waiting w = Some (False, waiting, w)"
| "walk_candidates cfg attemptOne n (c # cs) attempt contacted waiting w = (case moment w of (m, w) \<Rightarrow>
     if em_now m > st_overallDeadline (lw_st w) \<and> attempt > 0
     then Some (False, waiting,
            record_error cfg (no_error\<lparr>re_Kind := Some KindFailoverTimeout, re_Attempt := attempt - 1,
              re_Provider := lg_providerName (lw_log w), re_Underlying := re_Underlying (vs_lastReqErr (lw_st w))\<rparr>) w)
     else (case (if contacted > 0 then backoff_wait cfg attempt contacted w else (False, w)) of (gone, w) \<Rightarrow>
       if gone then Some (True, waiting, w)
       else (case attemptOne c attempt n w of (outcome, w) \<Rightarrow>
         (case outcome of
            outcomeFailover \<Rightarrow> walk_candidates cfg attemptOne n cs (attempt + 1) (contacted + 1) waiting w
          | outcomeBusy \<Rightarrow> walk_candidates cfg attemptOne n cs (attempt + 1) contacted (waiting @ [c]) w
          | outcomeSkipped \<Rightarrow> walk_candidates cfg attemptOne n cs (attempt + 1) contacted waiting w
          | outcomeRetrySaturated \<Rightarrow>
              map_option (\<lambda>(answered, w). (answered, waiting, w)) (settleLastCandidateRetry cfg attemptOne c n outcome w)
          | outcomeRetryServerError \<Rightarrow>
              map_option (\<lambda>(answered, w). (answered, waiting, w)) (settleLastCandidateRetry cfg attemptOne c n outcome w)
          | _ \<Rightarrow> Some (True, waiting, w)))))"

definition runFailoverLoop :: "loopConfig \<Rightarrow> 'e attemptFn \<Rightarrow> modelCandidate list \<Rightarrow> 'e loopWorld \<Rightarrow> 'e loopWorld option" where
  "runFailoverLoop cfg attemptOne cands w =
     (case walk_candidates cfg attemptOne (int (length cands)) cands 0 0 [] w of
        None \<Rightarrow> None
      | Some (True, _, w) \<Rightarrow> Some w
      | Some (False, waiting, w) \<Rightarrow>
          (if waiting = [] then Some (fail_exhausted cfg (int (length cands)) w)
           else (case retryAfterSlotFrees cfg attemptOne waiting (int (length cands)) w of
                   None \<Rightarrow> None
                 | Some (True, w) \<Rightarrow> Some w
                 | Some (False, w) \<Rightarrow> Some (fail_exhausted cfg (int (length cands)) w))))"

end
