(* ===== verification/Attempt_Candidate.thy ===== *)
theory Attempt_Candidate
  imports Failover_Loop
begin

text \<open>
  One attempt of a chat request (\<open>internal/proxy\<close>: \<open>proxy_failover.go\<close>, \<open>proxy_upstream.go\<close>,
  \<open>transient_retry.go\<close>, \<open>upstream_error_forward.go\<close>, \<open>nonstreaming_dispatch.go\<close>, the end of
  \<open>stream_finalize.go\<close>): admission, the upstream request with its transient retries, the judgement of
  the response, and what the client is given. What comes from outside or from the codecs is the
  attempt's environment \<open>attemptEnv\<close>: what other requests did to the shared state meanwhile, whether
  the upstream body could be built, the results of the upstream calls, of the self-heal round, of
  the translation and of the first-token probe, and how the answer or the stream ended. Metering
  and the retirement strikes are left out, and so is the native passthrough of a dialect.
\<close>

subsection \<open>The environment of an attempt\<close>

text \<open>A failed upstream call: \<open>te_context\<close> says that the error is a cancellation or a deadline, \<open>te_conn\<close>
  that it is one of the interruptions of a connection \<open>isRetryableUpstreamError\<close> knows.\<close>

record transportErr =
  te_context :: bool
  te_timeout :: bool
  te_conn :: bool
  te_wrote :: bool
  te_text :: string

text \<open>One try: its response or error, the state of the attempt's context when it returned and after the
  backoff that followed (\<open>Some origin\<close> once it has ended).\<close>

record upstreamTry =
  ut_result :: "transportErr + upstreamResp"
  ut_ctx :: "string option"
  ut_ctxAfter :: "string option"

datatype healResult = healNone | healAnswered upstreamResp | healFailed reqError

text \<open>A success whose body is no answer.\<close>

record bodyFault =
  bf_interrupted :: "string option"
  bf_faulty :: bool
  bf_text :: string
  bf_routable :: bool

datatype probeError = probeFrame string | probeEmpty string | probeLineCap | probeTruncated string | probeOther string

record answerEnd =
  ans_completed :: bool
  ans_kind :: "ErrorKind option"
  ans_empty :: bool
  ans_logMsg :: string
  ans_reason :: string

record streamEnd =
  se_state :: streamState
  se_kind :: "ErrorKind option"
  se_errMsg :: string

record attemptEnv =
  ae_interference :: "gateway \<Rightarrow> gateway"
  ae_build :: "(bool \<times> string) option"
  ae_tries :: "nat \<Rightarrow> upstreamTry"
  ae_responsesOnly :: bool
  ae_heal :: healResult
  ae_remap :: "upstreamResp \<Rightarrow> upstreamResp"
  ae_body :: string
  ae_errorObject :: bool
  ae_jsonValid :: bool
  ae_translation :: "bodyFault option"
  ae_fault :: "bodyFault option"
  ae_answer :: answerEnd
  ae_probe :: "probeError option"
  ae_stream :: streamEnd

type_synonym world = "attemptEnv loopWorld"

subsection \<open>The slot and the body\<close>

text \<open>The response's body settles the slot it carries: a drain reads to the end, then closes.\<close>

definition close_body :: "loopConfig \<Rightarrow> instant \<Rightarrow> inflightRelease option \<Rightarrow> attempt_world \<Rightarrow> attempt_world" where
  "close_body cfg now body w = (case w of (st, gw) \<Rightarrow>
     (case (body, st_attemptSlot st) of
        (Some b, Some s) \<Rightarrow>
          (case Body_Close b s (ps_growAfter (lc_settings cfg)) (ps_forgetAfter (lc_settings cfg)) now (gw_inflight gw) of
             (s, limiter) \<Rightarrow> (st\<lparr>st_attemptSlot := Some s\<rparr>, gw\<lparr>gw_inflight := limiter\<rparr>))
      | _ \<Rightarrow> (st, gw)))"

definition drain_body :: "loopConfig \<Rightarrow> instant \<Rightarrow> inflightRelease option \<Rightarrow> attempt_world \<Rightarrow> attempt_world" where
  "drain_body cfg now body w = (case w of (st, gw) \<Rightarrow>
     (case (body, st_attemptSlot st) of
        (Some b, Some s) \<Rightarrow>
          (case Body_Read b True s (ps_growAfter (lc_settings cfg)) (ps_forgetAfter (lc_settings cfg)) now (gw_inflight gw) of
             (s, limiter) \<Rightarrow> close_body cfg now body (st\<lparr>st_attemptSlot := Some s\<rparr>, gw\<lparr>gw_inflight := limiter\<rparr>))
      | _ \<Rightarrow> (st, gw)))"

definition hold_slot :: "attempt_world \<Rightarrow> attempt_world" where
  "hold_slot w = (case w of (st, gw) \<Rightarrow> (st\<lparr>st_attemptSlot := map_option holdVerdict (st_attemptSlot st)\<rparr>, gw))"

definition settle_attempt :: "loopConfig \<Rightarrow> instant \<Rightarrow> slotOutcome \<Rightarrow> world \<Rightarrow> world" where
  "settle_attempt cfg now outcome = on_attempt (settle_slot (lc_settings cfg) outcome now)"

fun outcome_of_kind :: "ErrorKind option \<Rightarrow> slotOutcome" where
  "outcome_of_kind (Some k) = slotOutcomeFor k"
| "outcome_of_kind None = slotUnclean"

subsection \<open>The upstream request\<close>

definition maxTransientRetries :: nat where "maxTransientRetries = 2"

definition isRetryableUpstreamError :: "transportErr \<Rightarrow> bool" where
  "isRetryableUpstreamError e =
     (if te_context e then False
      else if te_timeout e then False
      else if \<not> te_wrote e then True
      else te_conn e)"

text \<open>The tries of \<open>doUpstream\<close>; \<open>left\<close> is the number of retries that remain. A failure is the error that
  ended the tries, the state of the context, and the last transport error retried.\<close>

fun do_tries ::
    "(nat \<Rightarrow> upstreamTry) \<Rightarrow> nat \<Rightarrow> string \<Rightarrow> world \<Rightarrow> (bool \<times> string \<times> string option \<times> string + upstreamResp) \<times> world" where
  "do_tries tries left lastText w =
     (let t = tries (maxTransientRetries - left)
      in case ut_result t of
           Inr resp \<Rightarrow> (Inr resp, w)
         | Inl e \<Rightarrow>
             if left = 0 \<or> \<not> isRetryableUpstreamError e then (Inl (te_context e, te_text e, ut_ctx t, lastText), w)
             else (case moment w of (m, w) \<Rightarrow>
                     let w = slept (failoverBackoff (100 * millisecond) (500 * millisecond)
                               (int (maxTransientRetries - left) + 1) (em_jitter m)) w
                     in case ut_ctxAfter t of
                          Some origin \<Rightarrow> (Inl (True, [], Some origin, te_text e), w)
                        | None \<Rightarrow> do_tries tries (left - 1) (te_text e) w))"

declare do_tries.simps [simp del]

definition doUpstream ::
    "loopConfig \<Rightarrow> modelCandidate \<Rightarrow> int \<Rightarrow> attemptEnv \<Rightarrow> world \<Rightarrow> upstreamResp option \<times> world" where
  "doUpstream cfg cand attempt ae w =
     (case do_tries (ae_tries ae) maxTransientRetries [] w of
        (Inr resp, w) \<Rightarrow> (Some resp, w)
      | (Inl (isContextErr, text, ctx, lastText), w) \<Rightarrow> (case moment w of (m, w) \<Rightarrow>
          (let e = no_error\<lparr>re_Attempt := attempt, re_Provider := mc_providerName cand\<rparr>;
               e = (if \<not> isContextErr then e\<lparr>re_Kind := Some KindProviderError, re_Underlying := text\<rparr>
                    else (case ctx of
                            None \<Rightarrow> e\<lparr>re_Kind := Some KindProviderTimeout, re_Underlying := text\<rparr>
                          | Some origin \<Rightarrow> e\<lparr>re_Kind := Some (cancelOriginToKind origin), re_Underlying := lastText\<rparr>));
               w = record_error cfg e w;
               abandoned = (isContextErr \<and> requestAbandoned ctx)
           in (None, if abandoned then w
                     else on_attempt (chargeBreaker cand 0 ''upstream request failed'' (lc_rng cfg) (em_now m)) w))))"

definition buildErrorKind :: "bool \<Rightarrow> ErrorKind" where
  "buildErrorKind invalidRequest = (if invalidRequest then KindValidation else KindInternal)"

datatype beginResult = beganBusy | beganRefused | beganFailed | began upstreamResp

text \<open>\<open>beginAttempt\<close>; \<open>beganRefused\<close> is the failure that leaves \<open>attemptRefused\<close> set.\<close>

definition open_attempt :: "modelCandidate \<Rightarrow> int \<Rightarrow> instant \<Rightarrow> world \<Rightarrow> world" where
  "open_attempt cand attempt now w =
     (let w = on_log (\<lambda>l. l\<lparr>lg_providerID := mc_providerID cand, lg_providerName := mc_providerName cand\<rparr>) w;
          (st, l) = openAttemptRecord attempt cand False now (lw_st w, lw_log w)
      in w\<lparr>lw_st := st\<lparr>vs_rateLimit := no_verdict\<rparr>, lw_log := l\<rparr>)"

definition skip_busy :: "loopConfig \<Rightarrow> modelCandidate \<Rightarrow> int \<Rightarrow> instant \<Rightarrow> world \<Rightarrow> world" where
  "skip_busy cfg cand attempt now w =
     (let w = record_error cfg (no_error\<lparr>re_Kind := Some KindProviderSaturated, re_Attempt := attempt,
                re_Provider := mc_providerName cand, re_Model := mc_model cand, re_Detail := busySkipDetail\<rparr>) w;
          w = on_log (\<lambda>l. l\<lparr>lg_failoverAttempt := attempt\<rparr>) w;
          w = w\<lparr>lw_st := noteBreaker breakerNoop (lw_st w)\<rparr>
      in close_attempt cfg now 0 (Some KindProviderSaturated) busySkipDetail [] w)"

definition refuse_build :: "loopConfig \<Rightarrow> modelCandidate \<Rightarrow> int \<Rightarrow> instant \<Rightarrow> ErrorKind \<Rightarrow> string \<Rightarrow> world \<Rightarrow> world" where
  "refuse_build cfg cand attempt now kind text w =
     (let w = settle_attempt cfg now (slotOutcomeFor kind) w;
          w = record_error cfg (no_error\<lparr>re_Kind := Some kind, re_Attempt := attempt,
                re_Provider := mc_providerName cand, re_Model := mc_model cand, re_Underlying := text\<rparr>) w
      in close_attempt cfg now 0 (Some kind) text [] w)"

definition send_attempt ::
    "loopConfig \<Rightarrow> modelCandidate \<Rightarrow> int \<Rightarrow> attemptEnv \<Rightarrow> instant \<Rightarrow> world \<Rightarrow> beginResult \<times> world" where
  "send_attempt cfg cand attempt ae now w =
     (case ae_build ae of
        Some (invalid, text) \<Rightarrow>
          (if buildErrorKind invalid = KindValidation then beganRefused else beganFailed,
           refuse_build cfg cand attempt now (buildErrorKind invalid) text w)
      | None \<Rightarrow>
          (case doUpstream cfg cand attempt ae w of
             (Some resp, w) \<Rightarrow> (began resp, w)
           | (None, w) \<Rightarrow>
               (let last = vs_lastReqErr (lw_st w)
                in (beganFailed, close_attempt cfg now 0 (re_Kind last) (re_Underlying last) []
                      (settle_attempt cfg now (outcome_of_kind (re_Kind last)) w)))))"

definition beginAttempt ::
    "loopConfig \<Rightarrow> modelCandidate \<Rightarrow> int \<Rightarrow> attemptEnv \<Rightarrow> instant \<Rightarrow> world \<Rightarrow> beginResult \<times> world" where
  "beginAttempt cfg cand attempt ae now w =
     (let w = open_attempt cand attempt now (w\<lparr>lw_gw := ae_interference ae (lw_gw w)\<rparr>)
      in case admit_attempt cand (lw_st w, lw_gw w) of
           (ok, st, gw) \<Rightarrow>
             if ok then send_attempt cfg cand attempt ae now (w\<lparr>lw_st := st, lw_gw := gw\<rparr>)
             else (beganBusy, skip_busy cfg cand attempt now (w\<lparr>lw_st := st, lw_gw := gw\<rparr>)))"

subsection \<open>Leaving a candidate behind\<close>

definition note_attempt :: "int \<Rightarrow> world \<Rightarrow> world" where
  "note_attempt attempt = on_log (\<lambda>l. l\<lparr>lg_failoverAttempt := attempt\<rparr>)"

definition failOverPastCandidate ::
    "loopConfig \<Rightarrow> modelCandidate \<Rightarrow> upstreamResp \<Rightarrow> inflightRelease option \<Rightarrow> int \<Rightarrow> rateLimitVerdict \<Rightarrow> instant \<Rightarrow> world \<Rightarrow>
     candidateOutcome \<times> world" where
  "failOverPastCandidate cfg cand resp body attempt rl now w =
     (let w = on_attempt (drain_body cfg now body) w;
          w = record_error cfg (failoverReqErr rl attempt (mc_providerName cand) (rs_status resp)) w;
          w = note_attempt attempt w
      in (outcomeFailover,
          close_attempt cfg now (rs_status resp) (re_Kind (vs_lastReqErr (lw_st w))) (rs_head resp) (rl_phrase rl) w))"

definition serverErrorRetryBudgetLeft :: "requestState \<Rightarrow> instant \<Rightarrow> bool" where
  "serverErrorRetryBudgetLeft st now \<longleftrightarrow> st_overallDeadline st = 0 \<or>
     time_sub (st_overallDeadline st) now > 2 * serverErrorRetryBackoff + retryMinRound"

definition closeDeferredAttempt ::
    "loopConfig \<Rightarrow> upstreamResp \<Rightarrow> inflightRelease option \<Rightarrow> int \<Rightarrow> reqError \<Rightarrow> string \<Rightarrow> string \<Rightarrow> instant \<Rightarrow> world \<Rightarrow> world" where
  "closeDeferredAttempt cfg resp body attempt e detail phrase now w =
     (let w = note_attempt attempt (record_error cfg e (on_attempt (drain_body cfg now body) w))
      in close_attempt cfg now (rs_status resp) (re_Kind (vs_lastReqErr (lw_st w))) detail phrase w)"

definition deferSaturatedRetry ::
    "loopConfig \<Rightarrow> modelCandidate \<Rightarrow> upstreamResp \<Rightarrow> inflightRelease option \<Rightarrow> int \<Rightarrow> instant \<Rightarrow> world \<Rightarrow> candidateOutcome \<times> world" where
  "deferSaturatedRetry cfg cand resp body attempt now w =
     (let w = w\<lparr>lw_st := (lw_st w)\<lparr>st_saturationRetried := True\<rparr>\<rparr>; v = vs_rateLimit (lw_st w)
      in (outcomeRetrySaturated,
          closeDeferredAttempt cfg resp body attempt (rateLimitReqErr v attempt (mc_providerName cand)) (rl_detail v) (rl_phrase v) now w))"

definition deferServerErrorRetry ::
    "loopConfig \<Rightarrow> modelCandidate \<Rightarrow> upstreamResp \<Rightarrow> inflightRelease option \<Rightarrow> int \<Rightarrow> rateLimitVerdict \<Rightarrow> instant \<Rightarrow> world \<Rightarrow>
     candidateOutcome \<times> world" where
  "deferServerErrorRetry cfg cand resp body attempt rl now w =
     (outcomeRetryServerError,
      closeDeferredAttempt cfg resp body attempt (failoverReqErr rl attempt (mc_providerName cand) (rs_status resp)) (rs_head resp) []
        now (w\<lparr>lw_st := (lw_st w)\<lparr>st_serverErrorRetried := True\<rparr>\<rparr>))"

definition deferLastCandidateRetry ::
    "loopConfig \<Rightarrow> modelCandidate \<Rightarrow> upstreamResp \<Rightarrow> inflightRelease option \<Rightarrow> int \<Rightarrow> rateLimitVerdict \<Rightarrow> instant \<Rightarrow> world \<Rightarrow>
     (candidateOutcome \<times> world) option" where
  "deferLastCandidateRetry cfg cand resp body attempt rl now w =
     (if rl_class rl = rateLimitSaturated \<and> \<not> st_saturationRetried (lw_st w)
      then Some (deferSaturatedRetry cfg cand resp body attempt now w)
      else if st_serverErrorRetryEnabled (lw_st w) \<and> retryableServerError (rs_status resp) \<and>
              \<not> st_serverErrorRetried (lw_st w) \<and> serverErrorRetryBudgetLeft (lw_st w) now
      then Some (deferServerErrorRetry cfg cand resp body attempt rl now w)
      else None)"

subsection \<open>Forwarding an error\<close>

definition forwardableErrorStatus :: "int \<Rightarrow> bool" where
  "forwardableErrorStatus status =
     (if status < 400 \<or> status \<ge> 500 then False
      else status \<notin> {401, 402, 403, 404, 407, 429, 499})"

definition upstreamClientMessage :: "string \<Rightarrow> int \<Rightarrow> string \<Rightarrow> string" where
  "upstreamClientMessage providerName status reason =
     (if providerName = [] then reason
      else reason @ '' (provider '' @ providerName @ '', upstream HTTP '' @ show_int status @ '')'')"

definition forwardableErrorBodyCap :: nat where "forwardableErrorBodyCap = 1048576"

text \<open>The text a client is given with the provider's status. The body is the decoded text of the
  response; \<open>ae_errorObject\<close> and \<open>ae_jsonValid\<close> judge it.\<close>

definition forwarded_text :: "loopConfig \<Rightarrow> modelCandidate \<Rightarrow> int \<Rightarrow> bool \<Rightarrow> attemptEnv \<Rightarrow> string \<Rightarrow> string \<Rightarrow> string" where
  "forwarded_text cfg cand status mayForward ae head reason =
     (if \<not> mayForward then upstreamClientMessage (mc_providerName cand) status reason
      else if ae_errorObject ae \<and> length (ae_body ae) \<le> forwardableErrorBodyCap then lc_mask cfg (ae_body ae)
      else if ae_jsonValid ae then upstreamClientMessage (mc_providerName cand) status reason
      else lc_mask cfg head)"

definition forwardUpstreamError ::
    "loopConfig \<Rightarrow> modelCandidate \<Rightarrow> upstreamResp \<Rightarrow> inflightRelease option \<Rightarrow> int \<Rightarrow> bool \<Rightarrow> attemptEnv \<Rightarrow> instant \<Rightarrow> world \<Rightarrow>
     candidateOutcome \<times> world" where
  "forwardUpstreamError cfg cand resp body attempt isFailoverEligible ae now w =
     (let status = rs_status resp;
          mayForward = (\<not> isFailoverEligible \<and> forwardableErrorStatus status);
          w = on_attempt (drain_body cfg now body) w;
          v = vs_rateLimit (lw_st w);
          (kind, reason) = lc_classify cfg status (rs_head resp) (mc_model cand);
          (kind, reason) = rateLimitTerminalKind kind reason status v;
          retryAfter = (if status = 429 \<and> rl_class v = rateLimitSaturated then Some (retryAfterSeconds (rl_retryAfter v)) else None);
          w = failRequest cfg status (Some kind) (lc_fence cfg (lc_mask cfg (rs_head resp))) attempt w
      in (outcomeFatal, writeOpenAIError (forwarded_text cfg cand status mayForward ae (rs_head resp) reason) status retryAfter w))"

subsection \<open>Dispatching a success\<close>

definition rejectAndClose ::
    "loopConfig \<Rightarrow> modelCandidate \<Rightarrow> upstreamResp \<Rightarrow> inflightRelease option \<Rightarrow> bodyFault \<Rightarrow> int \<Rightarrow> instant \<Rightarrow> world \<Rightarrow>
     candidateOutcome \<times> world" where
  "rejectAndClose cfg cand resp body fault attempt now w =
     (let kind = (case abortKind (bf_interrupted fault) of (kind, aborted, _) \<Rightarrow> if aborted then kind else Some KindProviderError);
          w = on_attempt (rejectUntranslatableBody (lc_fence cfg) (lc_settings cfg) cand (rs_status resp) (bf_interrupted fault)
                (bf_faulty fault) (bf_text fault) attempt (lc_rng cfg) now) w;
          w = close_attempt cfg now (rs_status resp) kind (bf_text fault) [] (note_attempt attempt w);
          w = on_log (\<lambda>l. l\<lparr>lg_judge := None\<rparr>) w
      in (outcomeFailover, on_attempt (close_body cfg now body) w))"

definition deferAnswerJudgement :: "modelCandidate \<Rightarrow> int \<Rightarrow> world \<Rightarrow> world" where
  "deferAnswerJudgement cand status = on_log (\<lambda>l. l\<lparr>lg_judge := Some (cand, status)\<rparr>)"

definition nonCompletionClientStatus :: "int \<Rightarrow> int" where
  "nonCompletionClientStatus upstreamStatus = (if servedSuccessStatus upstreamStatus then 502 else upstreamStatus)"

text \<open>\<open>handleNonStreamingResponse\<close>: a completion or a bodiless success is written with the provider's
  status, anything else as this gateway's error; the body is closed last.\<close>

definition handleNonStreamingResponse ::
    "loopConfig \<Rightarrow> upstreamResp \<Rightarrow> inflightRelease option \<Rightarrow> answerEnd \<Rightarrow> int \<Rightarrow> instant \<Rightarrow> world \<Rightarrow> world" where
  "handleNonStreamingResponse cfg resp body ans attempt now w =
     (let status = rs_status resp;
          gone = (\<not> ans_completed ans \<and> ans_kind ans = Some KindClientDisconnect);
          w = on_log (\<lambda>l. l\<lparr>lg_statusCode := (if gone then statusClientClosedRequest else status),
                lg_errorKind := (if ans_completed ans then lg_errorKind l else ans_kind ans),
                lg_errorMessage := (if ans_completed ans then lg_errorMessage l else ans_logMsg ans),
                lg_failoverAttempt := attempt, lg_state := (if ans_completed ans then logCompleted else logFailed),
                lg_emptyCompletion := (if ans_completed ans then ans_empty ans else lg_emptyCompletion l)\<rparr>) w;
          w = updateRequestLog cfg now w;
          w = write_answer (if ans_completed ans
                then \<lparr>cl_status = status, cl_message = [], cl_retryAfter = None, cl_served = True\<rparr>
                else \<lparr>cl_status = (if gone then statusClientClosedRequest else nonCompletionClientStatus status),
                      cl_message = upstreamClientMessage (lg_providerName (lw_log w)) status (ans_reason ans),
                      cl_retryAfter = None, cl_served = False\<rparr>) w
      in on_attempt (drain_body cfg now body) w)"

definition dispatchNonStreaming ::
    "loopConfig \<Rightarrow> modelCandidate \<Rightarrow> upstreamResp \<Rightarrow> inflightRelease option \<Rightarrow> int \<Rightarrow> bool \<Rightarrow> attemptEnv \<Rightarrow> instant \<Rightarrow> world \<Rightarrow>
     candidateOutcome \<times> world" where
  "dispatchNonStreaming cfg cand resp body attempt hasMoreCandidates ae now w =
     (let body = map_option holdSlotForVerdict body
      in case (if hasMoreCandidates then Option.bind (ae_fault ae) (\<lambda>f. if bf_routable f then Some f else None) else None) of
           Some fault \<Rightarrow> rejectAndClose cfg cand resp body fault attempt now w
         | None \<Rightarrow>
             (let ans = ae_answer ae;
                  w = on_attempt hold_slot (deferAnswerJudgement cand (rs_status resp) w);
                  w = handleNonStreamingResponse cfg resp body ans attempt now w;
                  w = settle_attempt cfg now
                        (if lg_state (lw_log w) = logCompleted
                         then (if lg_emptyCompletion (lw_log w) then slotUnclean else slotClean)
                         else outcome_of_kind (lg_errorKind (lw_log w))) w
              in (outcomeServed, judgeAnswerNow cfg now w)))"

subsection \<open>Streams\<close>

definition lineCapErrMsg :: string where "lineCapErrMsg = ''stream failed: a frame exceeded the gateway'' @ [CHR 0x27] @ ''s 32 MiB line limit''"

text \<open>\<open>classifyProbeFailure\<close>; the hint's figures are rendered by \<open>hint\<close>.\<close>

definition classifyProbeFailure ::
    "string \<Rightarrow> string \<Rightarrow> bool \<Rightarrow> duration \<Rightarrow> duration \<Rightarrow> string \<Rightarrow> int \<Rightarrow> reqError \<times> bool" where
  "classifyProbeFailure providerName underlying clientGone elapsed stallTimeout hint attempt =
     (let e = no_error\<lparr>re_Attempt := attempt, re_Provider := providerName, re_Underlying := underlying\<rparr>
      in if clientGone \<and> elapsed < stallTimeout then (e\<lparr>re_Kind := Some KindClientDisconnect\<rparr>, False)
         else (e\<lparr>re_Kind := Some KindProviderTimeout, re_Hint := (if clientGone then hint else [])\<rparr>, True))"

definition classifyProbeError ::
    "(string \<Rightarrow> string) \<Rightarrow> probeError \<Rightarrow> string \<Rightarrow> bool \<Rightarrow> duration \<Rightarrow> duration \<Rightarrow> string \<Rightarrow> int \<Rightarrow> reqError \<times> bool" where
  "classifyProbeError fence probeErr providerName clientGone elapsed stallTimeout hint attempt =
     (let answered = (\<lambda>underlying. (no_error\<lparr>re_Kind := Some KindProviderError, re_Attempt := attempt,
                                     re_Provider := providerName, re_Underlying := underlying\<rparr>, True))
      in case probeErr of
           probeFrame msg \<Rightarrow> answered (fence msg)
         | probeEmpty msg \<Rightarrow> answered msg
         | probeLineCap \<Rightarrow> answered lineCapErrMsg
         | probeTruncated msg \<Rightarrow> answered (fence msg)
         | probeOther msg \<Rightarrow> classifyProbeFailure providerName (fence msg) clientGone elapsed stallTimeout hint attempt)"

definition probeBreakerReason :: "string \<Rightarrow> reqError \<Rightarrow> string" where
  "probeBreakerReason probe re =
     (if re_Kind re = Some KindProviderTimeout then probe @ '': no first token''
      else if re_Underlying re = lineCapErrMsg then probe @ '': a frame exceeded the line limit''
      else probe @ '': no usable first frame'')"

text \<open>\<open>handleStreamingResponse\<close> around the relay of the stream, and \<open>finalizeStream\<close>: the stream's
  end is given by \<open>streamEnd\<close>. The slot settles before the bookkeeping.\<close>

definition finalizeStream ::
    "loopConfig \<Rightarrow> modelCandidate \<Rightarrow> int \<Rightarrow> streamEnd \<Rightarrow> int \<Rightarrow> instant \<Rightarrow> world \<Rightarrow> world" where
  "finalizeStream cfg cand statusCode end' attempt now w =
     (let kind = se_kind end'; errMsg = se_errMsg end';
          w = settle_attempt cfg now (streamSlotOutcome (se_state end') kind errMsg) w;
          w = on_log (\<lambda>l. l\<lparr>lg_statusCode := (if errMsg \<noteq> [] then 0 else statusCode), lg_errorKind := kind,
                lg_errorMessage := lc_mask cfg errMsg, lg_failoverAttempt := attempt,
                lg_state := (if errMsg \<noteq> [] then logFailed else logCompleted)\<rparr>) w;
          w = on_attempt (tell_stream_verdict cand statusCode
                (judgeStreamForBreaker (se_state end') kind errMsg (st_circuitBreakerEnabled (lw_st w))) (lc_rng cfg) now) w
      in updateRequestLog cfg now w)"

definition handleStreamingResponse ::
    "loopConfig \<Rightarrow> modelCandidate \<Rightarrow> upstreamResp \<Rightarrow> inflightRelease option \<Rightarrow> streamEnd \<Rightarrow> int \<Rightarrow> instant \<Rightarrow> world \<Rightarrow> world" where
  "handleStreamingResponse cfg cand resp body end' attempt now w =
     (let w = on_attempt hold_slot w;
          w = write_answer \<lparr>cl_status = 200, cl_message = [], cl_retryAfter = None, cl_served = True\<rparr> w;
          w = updateRequestLog cfg now
                (on_log (\<lambda>l. l\<lparr>lg_statusCode := rs_status resp, lg_failoverAttempt := attempt, lg_state := logStreaming\<rparr>) w);
          w = on_attempt (close_body cfg now body) w;
          w = finalizeStream cfg cand (rs_status resp) end' attempt now w
      in settle_attempt cfg now slotUnclean (on_attempt (close_body cfg now body) w))"

definition fail_probe ::
    "loopConfig \<Rightarrow> modelCandidate \<Rightarrow> int \<Rightarrow> int \<Rightarrow> reqError \<Rightarrow> bool \<Rightarrow> instant \<Rightarrow> world \<Rightarrow> world" where
  "fail_probe cfg cand status attempt re charged now w =
     (let w = settle_attempt cfg now (outcome_of_kind (re_Kind re)) w;
          w = (if charged
               then on_attempt (chargeBreaker cand status (probeBreakerReason ''TTFT probe'' re) (lc_rng cfg) now) w
               else w);
          w = note_attempt attempt (record_error cfg re w)
      in close_attempt cfg now status (re_Kind re) (re_Underlying re) [] w)"

definition dispatchStreaming ::
    "loopConfig \<Rightarrow> modelCandidate \<Rightarrow> upstreamResp \<Rightarrow> inflightRelease option \<Rightarrow> int \<Rightarrow> attemptEnv \<Rightarrow> instant \<Rightarrow> world \<Rightarrow>
     candidateOutcome \<times> world" where
  "dispatchStreaming cfg cand resp body attempt ae now w =
     (if lc_ttftTimeout cfg > 0
      then (let w = on_attempt hold_slot w
            in case ae_probe ae of
                 None \<Rightarrow> (outcomeServed, handleStreamingResponse cfg cand resp body (ae_stream ae) attempt now w)
               | Some probeErr \<Rightarrow> (case moment w of (m, w) \<Rightarrow>
                   (let w = on_attempt (close_body cfg now body) w;
                        elapsed = time_sub (em_now m) (lg_attemptStarted (lw_log w));
                        (re, charged) = classifyProbeError (lc_fence cfg) probeErr (mc_providerName cand) (em_done m)
                          elapsed (lc_stallTimeout cfg) (lc_hint cfg (mc_providerName cand) elapsed) attempt
                    in (outcomeFailover, fail_probe cfg cand (rs_status resp) attempt re charged now w))))
      else (outcomeServed, handleStreamingResponse cfg cand resp body (ae_stream ae) attempt now w))"

subsection \<open>The attempt\<close>

definition retryRoundIsProviderFault :: "ErrorKind option \<Rightarrow> bool" where
  "retryRoundIsProviderFault k \<longleftrightarrow> k \<in> {Some KindProviderTimeout, Some KindProviderError, Some KindRetryTimeout}"

definition isLearnableRefusal :: "int \<Rightarrow> attemptEnv \<Rightarrow> bool" where
  "isLearnableRefusal status ae \<longleftrightarrow> status = 400 \<or> (status = 404 \<and> ae_responsesOnly ae)"

definition fail_heal :: "loopConfig \<Rightarrow> modelCandidate \<Rightarrow> reqError \<Rightarrow> instant \<Rightarrow> world \<Rightarrow> world" where
  "fail_heal cfg cand e now w =
     (let w = settle_attempt cfg now (outcome_of_kind (re_Kind e)) w;
          w = (if retryRoundIsProviderFault (re_Kind e)
               then on_attempt (chargeBreaker cand 0 ''retry request failed'' (lc_rng cfg) now) w else w)
      in close_attempt cfg now 0 (re_Kind e) (re_Underlying e) [] (record_error cfg e w))"

text \<open>From the response on: the slot rides its body, and after the judgement the attempt ends in one of
  five ways.\<close>

definition receive_response :: "upstreamResp \<Rightarrow> instant \<Rightarrow> world \<Rightarrow> inflightRelease option \<times> world" where
  "receive_response resp now w =
     (case finishAttemptAdmission (st_attemptSlot (lw_st w)) (rs_header resp) (rs_status resp) now (gw_inflight (lw_gw w)) of
        (body, limiter) \<Rightarrow>
          (body, on_log (noteAttemptStatus (rs_status resp)) (w\<lparr>lw_gw := (lw_gw w)\<lparr>gw_inflight := limiter\<rparr>\<rparr>)))"

definition end_attempt ::
    "loopConfig \<Rightarrow> modelCandidate \<Rightarrow> int \<Rightarrow> bool \<Rightarrow> bool \<Rightarrow> attemptEnv \<Rightarrow> upstreamResp \<Rightarrow> inflightRelease option \<Rightarrow> rateLimitVerdict \<Rightarrow>
     instant \<Rightarrow> world \<Rightarrow> candidateOutcome \<times> world" where
  "end_attempt cfg cand attempt hasMoreCandidates isFailoverEligible ae resp body rl now w =
     (if isFailoverEligible \<and> hasMoreCandidates then failOverPastCandidate cfg cand resp body attempt rl now w
      else (case (if isFailoverEligible then deferLastCandidateRetry cfg cand resp body attempt rl now w else None) of
              Some r \<Rightarrow> r
            | None \<Rightarrow>
                if \<not> servedSuccessStatus (rs_status resp)
                then forwardUpstreamError cfg cand resp body attempt isFailoverEligible ae now w
                else if lc_isStreaming cfg then dispatchStreaming cfg cand resp body attempt ae now w
                else (case ae_translation ae of
                        Some fault \<Rightarrow> rejectAndClose cfg cand resp (map_option holdSlotForVerdict body) fault attempt now w
                      | None \<Rightarrow> dispatchNonStreaming cfg cand resp body attempt hasMoreCandidates ae now w)))"

definition judge_response ::
    "loopConfig \<Rightarrow> modelCandidate \<Rightarrow> int \<Rightarrow> int \<Rightarrow> attemptEnv \<Rightarrow> upstreamResp \<Rightarrow> world \<Rightarrow> candidateOutcome \<times> world" where
  "judge_response cfg cand attempt totalCandidates ae resp w = (case moment w of (m, w) \<Rightarrow>
     (let resp = ae_remap ae resp; eligible = shouldFailover (lc_settings cfg) (rs_status resp)
      in case receive_response resp (em_now m) w of (body, w) \<Rightarrow>
           (case judge429AndRecordBreaker (lc_settings cfg) (lc_dates cfg) (lc_rng cfg) (em_now m) cand resp eligible (lw_st w, lw_gw w) of
              (rl, st, gw) \<Rightarrow>
                end_attempt cfg cand attempt (attempt < totalCandidates - 1) eligible ae resp body rl (em_now m)
                  (w\<lparr>lw_st := st, lw_gw := gw\<rparr>))))"

definition attemptCandidate :: "loopConfig \<Rightarrow> attemptEnv attemptFn" where
  "attemptCandidate cfg cand attempt totalCandidates w = (case moment w of (m, w) \<Rightarrow>
     (let ae = em_attempt m; now = em_now m
      in case beginAttempt cfg cand attempt ae now w of
           (beganBusy, w) \<Rightarrow> (outcomeBusy, w)
         | (beganRefused, w) \<Rightarrow> (outcomeSkipped, w)
         | (beganFailed, w) \<Rightarrow> (outcomeFailover, w)
         | (began resp, w) \<Rightarrow>
             if \<not> isLearnableRefusal (rs_status resp) ae then judge_response cfg cand attempt totalCandidates ae resp w
             else (case ae_heal ae of
                     healNone \<Rightarrow> judge_response cfg cand attempt totalCandidates ae resp w
                   | healAnswered resp' \<Rightarrow> judge_response cfg cand attempt totalCandidates ae resp' w
                   | healFailed e \<Rightarrow> (outcomeFailover, fail_heal cfg cand e now w))))"

end
