(* ===== verification/Failover_Loop_Facts.thy ===== *)
theory Failover_Loop_Facts
  imports Failover_Loop
begin

text \<open>
  What the loop owes its client whatever the attempts do: the contract of an attempt as a locale,
  and the consequences for the retries, the wait for a slot and the loop, proved once from it.
\<close>

subsection \<open>What the steps of the world keep\<close>

text \<open>The parts of the request state the loop's course depends on.\<close>

definition retry_flags :: "requestState \<Rightarrow> bool \<times> bool \<times> instant" where
  "retry_flags st = (st_saturationRetried st, st_serverErrorRetried st, st_overallDeadline st)"

definition trail_of :: "requestLogData \<Rightarrow> (int \<times> string \<times> string) list" where
  "trail_of l = map (\<lambda>r. (ar_Attempt r, ar_ProviderID r, ar_Model r)) (lg_attempts l)"

definition idle :: "'e loopWorld \<Rightarrow> bool" where
  "idle w \<longleftrightarrow> lg_openAttempt (lw_log w) = None"

lemma moment_simps [simp]:
  "fst (moment w) = lw_env w (lw_tick w)" "snd (moment w) = w\<lparr>lw_tick := Suc (lw_tick w)\<rparr>"
  by (simp_all add: moment_def)

lemma setReqErr_flags [simp]: "retry_flags (setReqErr fence e st) = retry_flags st"
  by (simp add: setReqErr_def retry_flags_def Let_def)

lemma noteBreaker_flags [simp]: "retry_flags (noteBreaker v st) = retry_flags st"
  by (simp add: noteBreaker_def retry_flags_def)

lemma recordAnswerOutcome_flags [simp]: "retry_flags (fst (recordAnswerOutcome cand l status g now w)) = retry_flags (fst w)"
  by (simp add: recordAnswerOutcome_def chargeBreaker_def creditBreaker_def split: prod.split)

lemma on_attempt_sel [simp]:
  "lw_env (on_attempt f w) = lw_env w" "lw_tick (on_attempt f w) = lw_tick w" "lw_log (on_attempt f w) = lw_log w"
  "lw_answers (on_attempt f w) = lw_answers w" "lw_waits (on_attempt f w) = lw_waits w"
  "lw_st (on_attempt f w) = fst (f (lw_st w, lw_gw w))" "lw_gw (on_attempt f w) = snd (f (lw_st w, lw_gw w))"
  by (simp_all add: on_attempt_def split: prod.split)

lemma on_log_sel [simp]:
  "lw_env (on_log f w) = lw_env w" "lw_tick (on_log f w) = lw_tick w" "lw_log (on_log f w) = f (lw_log w)"
  "lw_answers (on_log f w) = lw_answers w" "lw_waits (on_log f w) = lw_waits w"
  "lw_st (on_log f w) = lw_st w" "lw_gw (on_log f w) = lw_gw w"
  by (simp_all add: on_log_def)

lemma record_error_sel [simp]:
  "lw_env (record_error cfg e w) = lw_env w" "lw_tick (record_error cfg e w) = lw_tick w"
  "lw_log (record_error cfg e w) = lw_log w" "lw_answers (record_error cfg e w) = lw_answers w"
  "lw_gw (record_error cfg e w) = lw_gw w" "retry_flags (lw_st (record_error cfg e w)) = retry_flags (lw_st w)"
  by (simp_all add: record_error_def)

lemma close_attempt_sel [simp]:
  "lw_env (close_attempt cfg now s k d p w) = lw_env w" "lw_tick (close_attempt cfg now s k d p w) = lw_tick w"
  "lw_answers (close_attempt cfg now s k d p w) = lw_answers w" "lw_st (close_attempt cfg now s k d p w) = lw_st w"
  "lw_gw (close_attempt cfg now s k d p w) = lw_gw w"
  by (simp_all add: close_attempt_def)

lemma write_answer_sel [simp]:
  "lw_env (write_answer a w) = lw_env w" "lw_tick (write_answer a w) = lw_tick w" "lw_log (write_answer a w) = lw_log w"
  "lw_answers (write_answer a w) = lw_answers w @ [a]" "lw_st (write_answer a w) = lw_st w" "lw_gw (write_answer a w) = lw_gw w"
  by (simp_all add: write_answer_def)

lemma closeAttemptRecord_open [simp]: "lg_openAttempt (closeAttemptRecord now s k d p st l) = None"
  by (simp add: closeAttemptRecord_def split: option.split)

lemma closeAttemptRecord_trail:
  "trail_of (closeAttemptRecord now s k d p st l) =
     trail_of l @ (case lg_openAttempt l of None \<Rightarrow> [] | Some r \<Rightarrow> [(ar_Attempt r, ar_ProviderID r, ar_Model r)])"
  by (simp add: closeAttemptRecord_def trail_of_def split: option.split)

lemma closeTerminalAttempt_open [simp]: "lg_openAttempt (closeTerminalAttempt now st l) = None"
  by (simp add: closeTerminalAttempt_def split: option.split)

lemma closeTerminalAttempt_trail:
  "trail_of (closeTerminalAttempt now st l) =
     trail_of l @ (case lg_openAttempt l of None \<Rightarrow> [] | Some r \<Rightarrow> [(ar_Attempt r, ar_ProviderID r, ar_Model r)])"
  by (simp add: closeTerminalAttempt_def closeAttemptRecord_trail split: option.split)

text \<open>A piece of the request's course: the attempts it put on the trail, and whether it answered the
  client.\<close>

definition course :: "'e loopWorld \<Rightarrow> (int \<times> string \<times> string) list \<Rightarrow> bool \<Rightarrow> 'e loopWorld \<Rightarrow> bool" where
  "course w tr answered w' \<longleftrightarrow> lw_env w' = lw_env w \<and> lw_tick w \<le> lw_tick w' \<and> idle w' \<and>
     trail_of (lw_log w') = trail_of (lw_log w) @ tr \<and> (\<exists>a. lw_answers w' = lw_answers w @ a \<and> length a = of_bool answered) \<and>
     st_overallDeadline (lw_st w') = st_overallDeadline (lw_st w)"

lemma course_trans:
  "course w tr False w' \<Longrightarrow> course w' tr' b w'' \<Longrightarrow> course w (tr @ tr') b w''"
  by (auto simp: course_def)

lemma course_silent: "course w [] False w' \<Longrightarrow> course w' tr b w'' \<Longrightarrow> course w tr b w''"
  using course_trans by fastforce

lemma course_keeps:
  assumes "course w tr b w'"
  shows "lw_env w' = lw_env w" "lw_tick w \<le> lw_tick w'" "idle w'" "st_overallDeadline (lw_st w') = st_overallDeadline (lw_st w)"
  using assms by (simp_all add: course_def)

lemma course_refl [simp]: "idle w \<Longrightarrow> course w [] False w"
  by (simp add: course_def)

lemma course_tick [simp]: "idle w \<Longrightarrow> course w [] False (w\<lparr>lw_tick := Suc (lw_tick w)\<rparr>)"
  by (simp add: course_def idle_def)

lemma flags_deadline: "retry_flags st = retry_flags st' \<Longrightarrow> st_overallDeadline st = st_overallDeadline st'"
  by (simp add: retry_flags_def)

lemma judgeAnswerNow_keeps [simp]:
  "lw_env (judgeAnswerNow cfg now w) = lw_env w" "lw_tick (judgeAnswerNow cfg now w) = lw_tick w"
  "lw_answers (judgeAnswerNow cfg now w) = lw_answers w" "lg_openAttempt (lw_log (judgeAnswerNow cfg now w)) = lg_openAttempt (lw_log w)"
  "trail_of (lw_log (judgeAnswerNow cfg now w)) = trail_of (lw_log w)"
  "retry_flags (lw_st (judgeAnswerNow cfg now w)) = retry_flags (lw_st w)"
  by (simp_all add: judgeAnswerNow_def trail_of_def split: option.split prod.split)

lemma failRequest_keeps:
  "lw_env (failRequest cfg s k e a w) = lw_env w" "lw_tick (failRequest cfg s k e a w) = Suc (lw_tick w)"
  "lw_answers (failRequest cfg s k e a w) = lw_answers w" "idle (failRequest cfg s k e a w)"
  "retry_flags (lw_st (failRequest cfg s k e a w)) = retry_flags (lw_st w)"
  by (simp_all add: failRequest_def updateRequestLog_def isTerminalLogState_def idle_def Let_def split: prod.split)
    (simp_all add: moment_def)

lemma failRequest_trail:
  "trail_of (lw_log (failRequest cfg s k e a w)) =
     trail_of (lw_log w) @ (case lg_openAttempt (lw_log w) of None \<Rightarrow> [] | Some r \<Rightarrow> [(ar_Attempt r, ar_ProviderID r, ar_Model r)])"
  by (simp add: failRequest_def updateRequestLog_def isTerminalLogState_def moment_def Let_def closeTerminalAttempt_trail
      split: prod.split)
    (simp add: trail_of_def)

lemma fail_request_course:
  assumes "idle w" shows "course w [] True (writeOpenAIError msg status ra (failRequest cfg s k e a w))"
  using assms flags_deadline [OF failRequest_keeps(5) [of cfg s k e a w]]
  by (simp add: course_def writeOpenAIError_def failRequest_keeps failRequest_trail)
    (simp add: idle_def failRequest_keeps [unfolded idle_def])

lemma record_error_course: "idle w \<Longrightarrow> course w [] False (record_error cfg e w)"
  using flags_deadline [OF record_error_sel(6) [of cfg e w]] by (simp add: course_def idle_def)

lemma failClientGone_course: "idle w \<Longrightarrow> course w [] True (failClientGone cfg a p w)"
  unfolding failClientGone_def Let_def
  by (rule course_silent [OF record_error_course fail_request_course])
    (simp_all add: idle_def)

lemma fail_exhausted_course: "idle w \<Longrightarrow> course w [] True (fail_exhausted cfg n w)"
  unfolding fail_exhausted_def Let_def
  by (rule course_silent [OF _ fail_request_course])
    (simp_all add: idle_def course_def trail_of_def)

lemma slept_sel [simp]:
  "lw_env (slept d w) = lw_env w" "lw_tick (slept d w) = lw_tick w" "lw_log (slept d w) = lw_log w"
  "lw_answers (slept d w) = lw_answers w" "lw_st (slept d w) = lw_st w" "lw_gw (slept d w) = lw_gw w"
  "lw_waits (slept d w) = lw_waits w @ [d]"
  by (simp_all add: slept_def)

lemma slept_course: "course w tr b w' \<Longrightarrow> course w tr b (slept d w')"
  by (simp add: course_def idle_def)

lemma backoff_wait_course:
  assumes "idle w" "backoff_wait cfg attempt contacted w = (gone, w')" shows "course w [] gone w'"
proof -
  let ?w = "slept (failoverBackoff (100 * millisecond) (2 * second) contacted (em_jitter (lw_env w (lw_tick w))))
              (w\<lparr>lw_tick := Suc (lw_tick w)\<rparr>)"
  have c: "course w [] False ?w" using assms(1) by (simp add: slept_course)
  then have i: "idle ?w" by (rule course_keeps)
  show ?thesis
    using assms(2) c course_silent [OF c fail_request_course [OF i]] course_silent [OF c failClientGone_course [OF i]]
    by (auto simp: backoff_wait_def moment_def Let_def split: if_splits)
qed

lemma backoff_wait_flags:
  "backoff_wait cfg attempt contacted w = (False, w') \<Longrightarrow> retry_flags (lw_st w') = retry_flags (lw_st w)"
  by (auto simp: backoff_wait_def moment_def Let_def split: if_splits)

lemma retryLastCandidate_course:
  assumes "idle w" "retryLastCandidate cfg cand attempt wait yields w = (step, w')"
  shows "course w [] (step = retryClientGone) w' \<and> (step = retryNow \<longrightarrow> retry_flags (lw_st w') = retry_flags (lw_st w))"
proof -
  obtain fits w1 where f: "(if st_overallDeadline (lw_st w) \<noteq> 0
       then (case moment w of (m, w) \<Rightarrow> (fit_wait (st_overallDeadline (lw_st w)) (em_now m) wait yields, w))
       else (Some wait, w)) = (fits, w1)"
    by fastforce
  from f assms(1) have c: "course w [] False w1" and fl: "retry_flags (lw_st w1) = retry_flags (lw_st w)"
    by (auto simp: moment_def retry_flags_def split: if_splits)
  show ?thesis
  proof (cases fits)
    case None
    with assms(2) f c show ?thesis by (simp add: retryLastCandidate_def)
  next
    case (Some d)
    let ?w = "(slept d w1)\<lparr>lw_tick := Suc (lw_tick (slept d w1))\<rparr>"
    have c2: "course w [] False ?w"
      using course_silent [OF slept_course [OF c] course_tick [OF course_keeps(3) [OF slept_course [OF c]]]] .
    with assms(2) f Some fl course_silent [OF c2 failClientGone_course [OF course_keeps(3) [OF c2]]] show ?thesis
      by (auto simp: retryLastCandidate_def moment_def split: if_splits)
  qed
qed

text \<open>Both kinds of retry up to their attempt.\<close>

definition retry_step :: "loopConfig \<Rightarrow> modelCandidate \<Rightarrow> int \<Rightarrow> candidateOutcome \<Rightarrow> 'e loopWorld \<Rightarrow> retryStep \<times> 'e loopWorld" where
  "retry_step cfg cand attempt outcome w =
     (if outcome = outcomeRetrySaturated then retrySaturatedCandidate cfg cand attempt w
      else retryServerErrorCandidate cfg cand attempt w)"

lemma retry_step_course:
  assumes "idle w" "retry_step cfg cand attempt outcome w = (step, w')"
  shows "course w [] (step = retryClientGone) w' \<and> (step = retryNow \<longrightarrow> retry_flags (lw_st w') = retry_flags (lw_st w))"
proof (cases "outcome = outcomeRetrySaturated")
  case True
  with assms show ?thesis using retryLastCandidate_course by (simp add: retry_step_def retrySaturatedCandidate_def)
next
  case False
  let ?w = "w\<lparr>lw_tick := Suc (lw_tick w)\<rparr>"
  obtain wait where r: "retryLastCandidate cfg cand attempt wait True ?w = (step, w')"
    using False assms(2) by (auto simp: retry_step_def retryServerErrorCandidate_def moment_def)
  have "idle ?w" using assms(1) by (simp add: idle_def)
  from retryLastCandidate_course [OF this r] course_silent [OF course_tick [OF assms(1)]] show ?thesis by simp
qed

end
