(* ===== verification/Attempt_Contract.thy ===== *)
theory Attempt_Contract
  imports Failover_Loop_Facts
begin

text \<open>
  The contract an attempt keeps with the failover loop, and what the loop then owes its client: it
  returns, answers exactly once, tries the candidates in order and retries the last one at most
  twice.
\<close>

definition is_retry :: "candidateOutcome \<Rightarrow> bool" where
  "is_retry r \<longleftrightarrow> r = outcomeRetrySaturated \<or> r = outcomeRetryServerError"

definition is_answer :: "candidateOutcome \<Rightarrow> bool" where
  "is_answer r \<longleftrightarrow> r = outcomeServed \<or> r = outcomeFatal"

text \<open>The attempts of a list of candidates, numbered from an index.\<close>

fun numbered :: "int \<Rightarrow> modelCandidate list \<Rightarrow> (int \<times> string \<times> string) list" where
  "numbered i [] = []"
| "numbered i (c # cs) = (i, mc_providerID c, mc_model c) # numbered (i + 1) cs"

lemma numbered_append: "numbered i (xs @ ys) = numbered i xs @ numbered (i + int (length xs)) ys"
  by (induction xs arbitrary: i) (simp_all add: algebra_simps)

text \<open>How many one-shot retries a request still has.\<close>

definition retries_left :: "requestState \<Rightarrow> nat" where
  "retries_left st = of_bool (\<not> st_saturationRetried st) + of_bool (\<not> st_serverErrorRetried st)"

lemma retries_left_flags: "retry_flags st = retry_flags st' \<Longrightarrow> retries_left st = retries_left st'"
  by (simp add: retries_left_def retry_flags_def)

lemma retries_left_le: "retries_left st \<le> 2"
  by (simp add: retries_left_def)

definition chain_bound :: "candidateOutcome \<Rightarrow> requestState \<Rightarrow> nat" where
  "chain_bound r st = retries_left st + of_bool (is_retry r)"

subsection \<open>The clock\<close>

text \<open>The readings of the clock never go back, and pass every instant.\<close>

definition time_passes :: "(nat \<Rightarrow> 'e envMoment) \<Rightarrow> bool" where
  "time_passes env \<longleftrightarrow> (\<forall>n. em_now (env n) \<le> em_now (env (Suc n))) \<and> (\<forall>t. \<exists>n. t \<le> em_now (env n))"

lemma clock_mono: "time_passes env \<Longrightarrow> m \<le> n \<Longrightarrow> em_now (env m) \<le> em_now (env n)"
  unfolding time_passes_def by (rule lift_Suc_mono_le [of "\<lambda>n. em_now (env n)"]) auto

lemma clock_passes:
  assumes "time_passes env" obtains K where "\<And>n. K \<le> n \<Longrightarrow> t \<le> em_now (env n)"
  using assms clock_mono [OF assms] unfolding time_passes_def by (metis order_trans)

lemma first_admittable_index: "first_admittable cs limiter = (Some i, limiter') \<Longrightarrow> i < length cs"
  by (induction cs arbitrary: limiter limiter' i) (fastforce split: prod.splits bool.splits)+

lemma wait_for_slot_course:
  assumes "idle w" "wait_for_slot cs w = (gone, idx, w')"
  shows "course w [] False w'" "retry_flags (lw_st w') = retry_flags (lw_st w)" "lw_tick w' = Suc (lw_tick w)"
    "\<And>i. idx = Some i \<Longrightarrow> i < length cs"
  using assms first_admittable_index [of cs]
  by (auto simp: wait_for_slot_def moment_def course_def idle_def split: if_splits prod.splits)

lemma yield_refusal_course:
  "idle w \<Longrightarrow> course w [] False (yield_refusal cfg a b i w)"
  by (simp add: yield_refusal_def Let_def record_error_course)

subsection \<open>The walk\<close>

text \<open>A walk tries a prefix of the candidates in their order, each once; then the retries of the last
  one. A walk that stops early without an answer saw the clock past the overall deadline.\<close>

definition walked :: "int \<Rightarrow> modelCandidate list \<Rightarrow> int \<Rightarrow> 'e loopWorld \<Rightarrow> bool \<Rightarrow> 'e loopWorld \<Rightarrow> bool" where
  "walked n cs attempt w answered w' \<longleftrightarrow>
     (\<exists>k m. course w (numbered attempt (take k cs) @ numbered n (replicate m (last cs))) answered w' \<and>
        k \<le> length cs \<and> m \<le> retries_left (lw_st w) \<and> (m > 0 \<longrightarrow> k = length cs \<and> cs \<noteq> []) \<and>
        (\<not> answered \<and> k < length cs \<longrightarrow> (\<exists>j<lw_tick w'. st_overallDeadline (lw_st w) < em_now (lw_env w j))))"

lemma walked_nothing:
  "course w [] answered w' \<Longrightarrow> answered \<or> cs = [] \<or> (\<exists>j<lw_tick w'. st_overallDeadline (lw_st w) < em_now (lw_env w j)) \<Longrightarrow>
   walked n cs attempt w answered w'"
  unfolding walked_def by (intro exI [of _ 0]) auto

lemma walked_last:
  "course w (numbered attempt [c] @ numbered n (replicate m c)) answered w' \<Longrightarrow> m \<le> retries_left (lw_st w) \<Longrightarrow>
   m = 0 \<and> answered \<or> cs = [] \<Longrightarrow> walked n (c # cs) attempt w answered w'"
  unfolding walked_def by (intro exI [of _ "Suc 0"] exI [of _ m]) auto

lemma walked_step:
  assumes c: "course w [(attempt, mc_providerID c, mc_model c)] False w2"
    and left: "retries_left (lw_st w2) \<le> retries_left (lw_st w)"
    and rest: "walked n cs (attempt + 1) w2 answered w'"
  shows "walked n (c # cs) attempt w answered w'"
proof -
  from rest obtain k m where h:
    "course w2 (numbered (attempt + 1) (take k cs) @ numbered n (replicate m (last cs))) answered w'" "k \<le> length cs"
    "m \<le> retries_left (lw_st w2)" "m > 0 \<longrightarrow> k = length cs \<and> cs \<noteq> []"
    "\<not> answered \<and> k < length cs \<longrightarrow> (\<exists>j<lw_tick w'. st_overallDeadline (lw_st w2) < em_now (lw_env w2 j))"
    unfolding walked_def by blast
  have "replicate m (last cs) = replicate m (last (c # cs))" using h(4) by auto
  with course_trans [OF c h(1)] h(2-5) left course_keeps [OF c] show ?thesis
    unfolding walked_def by (intro exI [of _ "Suc k"] exI [of _ m]) auto
qed

subsection \<open>The contract\<close>

locale attempt_contract =
  fixes attemptOne :: "'e attemptFn"
  assumes attempt_course:
    "attemptOne c i n w = (r, w') \<Longrightarrow> course w [(i, mc_providerID c, mc_model c)] (is_answer r) w'"
  and attempt_flags:
    "attemptOne c i n w = (r, w') \<Longrightarrow>
       st_saturationRetried (lw_st w') = (st_saturationRetried (lw_st w) \<or> r = outcomeRetrySaturated) \<and>
       st_serverErrorRetried (lw_st w') = (st_serverErrorRetried (lw_st w) \<or> r = outcomeRetryServerError)"
  and saturation_once:
    "attemptOne c i n w = (r, w') \<Longrightarrow> r = outcomeRetrySaturated \<Longrightarrow> \<not> st_saturationRetried (lw_st w)"
  and serverError_once:
    "attemptOne c i n w = (r, w') \<Longrightarrow> r = outcomeRetryServerError \<Longrightarrow> \<not> st_serverErrorRetried (lw_st w)"
  and retry_is_last:
    "attemptOne c i n w = (r, w') \<Longrightarrow> is_retry r \<Longrightarrow> n \<le> i + 1"
begin

lemma attempt_spends:
  assumes "attemptOne c i n w = (r, w')" shows "chain_bound r (lw_st w') \<le> retries_left (lw_st w)"
  using attempt_flags [OF assms] saturation_once [OF assms] serverError_once [OF assms]
  by (auto simp: chain_bound_def retries_left_def is_retry_def split: if_splits)

text \<open>The chain of retries ends, and what it does to the request.\<close>

lemma settle_returns:
  assumes "idle w"
  shows "\<exists>answered w' k. settleLastCandidateRetry cfg attemptOne c nxt r w = Some (answered, w') \<and>
           course w (numbered nxt (replicate k c)) (answered \<and> \<not> is_answer r) w' \<and>
           (is_answer r \<longrightarrow> answered) \<and> k \<le> chain_bound r (lw_st w)"
  using assms
proof (induction "chain_bound r (lw_st w)" arbitrary: nxt r w rule: less_induct)
  case less
  show ?case
  proof (cases "is_retry r")
    case False
    then show ?thesis using less.prems
      by (intro exI [of _ "is_answer r"] exI [of _ w] exI [of _ 0])
        (cases r; simp add: settleLastCandidateRetry.simps is_retry_def is_answer_def)
  next
    case True
    obtain step w1 where s: "retry_step cfg c nxt r w = (step, w1)" by fastforce
    note c1 = retry_step_course [OF less.prems s]
    have unf: "settleLastCandidateRetry cfg attemptOne c nxt r w =
        (if step = retryNow
         then settleLastCandidateRetry cfg attemptOne c (nxt + 1) (fst (attemptOne c nxt (nxt + 1) w1)) (snd (attemptOne c nxt (nxt + 1) w1))
         else Some (step = retryClientGone, w1))"
      using True s by (subst settleLastCandidateRetry.simps) (auto simp: is_retry_def retry_step_def case_prod_beta)
    have nr: "\<not> is_answer r" using True by (auto simp: is_retry_def is_answer_def)
    show ?thesis
    proof (cases "step = retryNow")
      case False
      with c1 unf nr True show ?thesis by (intro exI [of _ "step = retryClientGone"] exI [of _ w1] exI [of _ 0]) simp
    next
      case now: True
      obtain r2 w2 where a: "attemptOne c nxt (nxt + 1) w1 = (r2, w2)" by fastforce
      from c1 now have "retries_left (lw_st w1) = retries_left (lw_st w)" by (intro retries_left_flags) simp
      with attempt_spends [OF a] True have lt: "chain_bound r2 (lw_st w2) < chain_bound r (lw_st w)"
        by (simp add: chain_bound_def)
      note c2 = attempt_course [OF a]
      from less.hyps [OF lt course_keeps(3) [OF c2], of "nxt + 1"] obtain answered w' k where
        h: "settleLastCandidateRetry cfg attemptOne c (nxt + 1) r2 w2 = Some (answered, w')"
           "course w2 (numbered (nxt + 1) (replicate k c)) (answered \<and> \<not> is_answer r2) w'"
           "is_answer r2 \<longrightarrow> answered" "k \<le> chain_bound r2 (lw_st w2)" by blast
      have c3: "course w1 (numbered nxt (replicate (Suc k) c)) answered w'"
        using c2 h(2,3) by (auto simp: course_def)
      have "course w [] False w1" using c1 now by simp
      from course_silent [OF this c3] h(1,4) lt unf a now nr show ?thesis
        by (intro exI [of _ answered] exI [of _ w'] exI [of _ "Suc k"]) simp
    qed
  qed
qed

lemma slot_settles:
  assumes "course w [(attempt, mc_providerID c, mc_model c)] (is_answer r) w2" "c \<in> S"
  shows "\<not> is_answer r \<Longrightarrow>
     \<exists>answered w' cs. settleLastCandidateRetry cfg attemptOne c (attempt + 1) r w2 = Some (answered, w') \<and>
        course w (numbered attempt cs) answered w' \<and> set cs \<subseteq> S"
proof -
  assume r: "\<not> is_answer r"
  from settle_returns [OF course_keeps(3) [OF assms(1)], of cfg c "attempt + 1" r] obtain answered w' k where
    h: "settleLastCandidateRetry cfg attemptOne c (attempt + 1) r w2 = Some (answered, w')"
       "course w2 (numbered (attempt + 1) (replicate k c)) (answered \<and> \<not> is_answer r) w'" by blast
  have "course w (numbered attempt (replicate (Suc k) c)) answered w'"
    using course_trans [OF _ h(2)] assms(1) r by fastforce
  with h(1) assms(2) show ?thesis by (intro exI [of _ answered] exI [of _ w'] exI [of _ "replicate (Suc k) c"]) auto
qed

text \<open>The wait for a slot ends too, at the latest when the clock passes its deadline.\<close>

lemma slot_loop_returns:
  assumes "idle w" "\<And>n. K \<le> n \<Longrightarrow> deadline \<le> em_now (lw_env w n)"
  shows "\<exists>answered w' cs. slot_loop cfg attemptOne deadline waiting attempt w = Some (answered, w') \<and>
           course w (numbered attempt cs) answered w' \<and> set cs \<subseteq> set waiting"
  using assms
proof (induction "K - lw_tick w" arbitrary: waiting attempt w rule: less_induct)
  case less
  let ?w = "w\<lparr>lw_tick := Suc (lw_tick w)\<rparr>"
  have c0: "course w [] False ?w" using less.prems(1) by simp
  show ?case
  proof (cases "em_now (lw_env w (lw_tick w)) \<ge> deadline")
    case True
    with c0 show ?thesis
      by (intro exI [of _ False] exI [of _ ?w] exI [of _ "[]"]) (simp add: slot_loop.simps moment_def)
  next
    case early: False
    then have tK: "lw_tick w < K" using less.prems(2) by (meson not_less)
    obtain gone idx w1 where ws: "wait_for_slot waiting ?w = (gone, idx, w1)" by (metis prod_cases3)
    note W = wait_for_slot_course [OF course_keeps(3) [OF c0] ws]
    have c1: "course w [] False w1" by (rule course_silent [OF c0 W(1)])
    show ?thesis
    proof (cases "gone \<or> idx = None")
      case True
      then show ?thesis
        using early ws c1 course_silent [OF c1 failClientGone_course [OF course_keeps(3) [OF c1]]]
        by (intro exI [of _ gone] exI [of _ "if gone then failClientGone cfg (attempt - 1) (lg_providerName (lw_log w1)) w1 else w1"]
              exI [of _ "[]"]) (auto simp: slot_loop.simps moment_def)
    next
      case False
      then obtain i where i: "idx = Some i" "\<not> gone" by blast
      with W(4) have ci: "waiting ! i \<in> set waiting" by simp
      obtain r w2 where a: "attemptOne (waiting ! i) attempt (attempt + 1) w1 = (r, w2)" by fastforce
      let ?tr = "[(attempt, mc_providerID (waiting ! i), mc_model (waiting ! i))]"
      have c2: "course w ?tr (is_answer r) w2" using course_silent [OF c1 attempt_course [OF a]] .
      then have e2: "lw_env w2 = lw_env w" "lw_tick w < lw_tick w2" "idle w2"
        using course_keeps [OF attempt_course [OF a]] W(3) by (auto dest: course_keeps)
      have unf: "slot_loop cfg attemptOne deadline waiting attempt w =
          (let rest = take i waiting @ drop (Suc i) waiting
           in if r = outcomeBusy then slot_loop cfg attemptOne deadline waiting (attempt + 1) w2
              else if r = outcomeFailover then Some (False, w2)
              else if r = outcomeSkipped
              then (if rest = [] then Some (False, w2)
                    else slot_loop cfg attemptOne deadline rest (attempt + 1) (yield_refusal cfg (waiting ! i) (hd rest) attempt w2))
              else if is_retry r then settleLastCandidateRetry cfg attemptOne (waiting ! i) (attempt + 1) r w2
              else Some (True, w2))"
        using early ws i a by (subst slot_loop.simps) (simp add: moment_def is_retry_def Let_def)
      have again: "\<exists>answered w' cs. slot_loop cfg attemptOne deadline rest (attempt + 1) w3 = Some (answered, w') \<and>
           course w (numbered attempt cs) answered w' \<and> set cs \<subseteq> set waiting"
        if c3: "course w2 [] False w3" and r: "\<not> is_answer r" and sub: "set rest \<subseteq> set waiting" for rest w3
      proof -
        have e3: "lw_env w3 = lw_env w" "lw_tick w < lw_tick w3" using e2 course_keeps [OF c3] by simp_all
        have "K - lw_tick w3 < K - lw_tick w" using tK e3(2) by simp
        from less.hyps [OF this course_keeps(3) [OF c3], of rest "attempt + 1"] less.prems(2) e3(1)
        obtain answered w' cs where h: "slot_loop cfg attemptOne deadline rest (attempt + 1) w3 = Some (answered, w')"
          "course w3 (numbered (attempt + 1) cs) answered w'" "set cs \<subseteq> set rest" by auto
        from course_trans [OF _ course_silent [OF c3 h(2)]] c2 r
        have "course w (numbered attempt (waiting ! i # cs)) answered w'" by fastforce
        with h(1,3) ci sub show ?thesis by (intro exI [of _ answered] exI [of _ w'] exI [of _ "waiting ! i # cs"]) auto
      qed
      have stop: "\<exists>answered w' cs. Some (is_answer r, w2) = Some (answered, w') \<and>
           course w (numbered attempt cs) answered w' \<and> set cs \<subseteq> set waiting"
        using c2 ci by (intro exI [of _ "is_answer r"] exI [of _ w2] exI [of _ "[waiting ! i]"]) auto
      have rest: "set (take i waiting @ drop (Suc i) waiting) \<subseteq> set waiting"
        by (auto dest: in_set_takeD in_set_dropD)
      show ?thesis
      proof (cases r)
        case outcomeBusy
        then show ?thesis using again [of w2 waiting] e2 unf by (simp add: is_answer_def Let_def)
      next
        case outcomeSkipped
        then show ?thesis using again [OF yield_refusal_course [OF e2(3)] _ rest] stop unf by (auto simp: is_answer_def Let_def)
      next
        case outcomeFailover
        then show ?thesis using stop unf by (simp add: is_answer_def Let_def)
      next
        case outcomeServed
        then show ?thesis using stop unf by (simp add: is_answer_def is_retry_def Let_def)
      next
        case outcomeFatal
        then show ?thesis using stop unf by (simp add: is_answer_def is_retry_def Let_def)
      next
        case outcomeRetrySaturated
        then show ?thesis using slot_settles [OF c2 ci] unf by (simp add: is_answer_def is_retry_def Let_def)
      next
        case outcomeRetryServerError
        then show ?thesis using slot_settles [OF c2 ci] unf by (simp add: is_answer_def is_retry_def Let_def)
      qed
    qed
  qed
qed

text \<open>The walk over the candidates returns.\<close>

lemma walk_returns:
  assumes "idle w" "attempt + int (length cs) = n"
  shows "\<exists>answered later w'. walk_candidates cfg attemptOne n cs attempt contacted waiting w = Some (answered, later, w') \<and>
           walked n cs attempt w answered w' \<and> set later \<subseteq> set waiting \<union> set cs"
  using assms
proof (induction cs arbitrary: attempt contacted waiting w)
  case Nil
  then show ?case using walked_nothing [of w False w "[]"] by (intro exI [of _ False]) simp
next
  case (Cons c cs)
  let ?w = "w\<lparr>lw_tick := Suc (lw_tick w)\<rparr>"
  let ?P = "\<lambda>res. \<exists>answered later w'. res = Some (answered, later, w') \<and>
     walked n (c # cs) attempt w answered w' \<and> set later \<subseteq> set waiting \<union> set (c # cs)"
  have c0: "course w [] False ?w" using Cons.prems(1) by simp
  show ?case
  proof (cases "em_now (lw_env w (lw_tick w)) > st_overallDeadline (lw_st w) \<and> attempt > 0")
    case True
    have c: "course w [] False (record_error cfg e ?w)" for e
      by (rule course_silent [OF c0 record_error_course [OF course_keeps(3) [OF c0]]])
    have "walked n (c # cs) attempt w False (record_error cfg e ?w)" for e
      using True by (intro walked_nothing [OF c]) (auto intro!: exI [of _ "lw_tick w"])
    with True show ?thesis by (intro exI [of _ False]) (auto simp: moment_def)
  next
    case dl: False
    obtain gone w1 where b: "(if contacted > 0 then backoff_wait cfg attempt contacted ?w else (False, ?w)) = (gone, w1)"
      by fastforce
    have c1: "course w [] gone w1"
      using b c0 course_silent [OF c0 backoff_wait_course [OF course_keeps(3) [OF c0]]] by (auto split: if_splits)
    show ?thesis
    proof (cases gone)
      case True
      then show ?thesis using dl b walked_nothing [OF c1] by (intro exI [of _ True]) (auto simp: moment_def)
    next
      case stay: False
      have f1: "retry_flags (lw_st w1) = retry_flags (lw_st w)"
        using b stay backoff_wait_flags [of cfg attempt contacted ?w w1] by (auto simp: retry_flags_def split: if_splits)
      obtain r w2 where a: "attemptOne c attempt n w1 = (r, w2)" by fastforce
      let ?tr = "[(attempt, mc_providerID c, mc_model c)]"
      have c2: "course w ?tr (is_answer r) w2" using course_silent [OF _ attempt_course [OF a]] c1 stay by simp
      have left: "chain_bound r (lw_st w2) \<le> retries_left (lw_st w)"
        using attempt_spends [OF a] retries_left_flags [OF f1] by simp
      have unf: "walk_candidates cfg attemptOne n (c # cs) attempt contacted waiting w =
         (case r of
            outcomeFailover \<Rightarrow> walk_candidates cfg attemptOne n cs (attempt + 1) (contacted + 1) waiting w2
          | outcomeBusy \<Rightarrow> walk_candidates cfg attemptOne n cs (attempt + 1) contacted (waiting @ [c]) w2
          | outcomeSkipped \<Rightarrow> walk_candidates cfg attemptOne n cs (attempt + 1) contacted waiting w2
          | outcomeRetrySaturated \<Rightarrow>
              map_option (\<lambda>(answered, w). (answered, waiting, w)) (settleLastCandidateRetry cfg attemptOne c n r w2)
          | outcomeRetryServerError \<Rightarrow>
              map_option (\<lambda>(answered, w). (answered, waiting, w)) (settleLastCandidateRetry cfg attemptOne c n r w2)
          | _ \<Rightarrow> Some (True, waiting, w2))"
        using b stay a by (simp add: moment_def) (use dl in blast)
      have again: "?P (walk_candidates cfg attemptOne n cs (attempt + 1) ctd wait' w2)"
        if r: "\<not> is_answer r" and sub: "set wait' \<subseteq> set waiting \<union> {c}" for ctd wait'
      proof -
        have "attempt + 1 + int (length cs) = n" using Cons.prems(2) by simp
        from Cons.IH [OF course_keeps(3) [OF c2] this] obtain answered later w' where
          h: "walk_candidates cfg attemptOne n cs (attempt + 1) ctd wait' w2 = Some (answered, later, w')"
             "walked n cs (attempt + 1) w2 answered w'" "set later \<subseteq> set wait' \<union> set cs" by metis
        have "walked n (c # cs) attempt w answered w'"
          using walked_step [OF _ _ h(2)] c2 r left by (simp add: chain_bound_def)
        with h sub show ?thesis by auto
      qed
      have retry: "?P (map_option (\<lambda>(answered, w). (answered, waiting, w)) (settleLastCandidateRetry cfg attemptOne c n r w2))"
        if r: "is_retry r"
      proof -
        have cs: "cs = []" using retry_is_last [OF a r] Cons.prems(2) by (cases cs) simp_all
        have nr: "\<not> is_answer r" using r by (auto simp: is_retry_def is_answer_def)
        from settle_returns [OF course_keeps(3) [OF c2], of cfg c n r] obtain answered w' k where
          h: "settleLastCandidateRetry cfg attemptOne c n r w2 = Some (answered, w')"
             "course w2 (numbered n (replicate k c)) answered w'" "k \<le> chain_bound r (lw_st w2)" using nr by auto
        have "course w (numbered attempt [c] @ numbered n (replicate k c)) answered w'"
          using course_trans [OF _ h(2)] c2 nr by fastforce
        from walked_last [OF this] h(3) left cs have "walked n (c # cs) attempt w answered w'" by simp
        with h(1) show ?thesis by auto
      qed
      have stop: "?P (Some (True, waiting, w2))" if "is_answer r"
        using c2 that walked_last [where m = 0 and answered = True and cs = cs]
        by (intro exI [of _ True] exI [of _ waiting] exI [of _ w2]) auto
      have sub: "set waiting \<subseteq> set waiting \<union> {c}" "set (waiting @ [c]) \<subseteq> set waiting \<union> {c}" by auto
      show ?thesis
        by (cases r; simp only: unf candidateOutcome.case)
          (use again [OF _ sub(1)] again [OF _ sub(2)] retry stop in \<open>simp_all add: is_answer_def is_retry_def\<close>)
    qed
  qed
qed

text \<open>The course of the whole loop.\<close>

lemma runFailoverLoop_course:
  assumes "idle w" and time: "time_passes (lw_env w)"
  shows "\<exists>w' k retries slots. runFailoverLoop cfg attemptOne cands w = Some w' \<and>
     course w (numbered 0 (take k cands) @ numbered (int (length cands)) retries @ numbered (int (length cands)) slots) True w' \<and>
     set retries \<subseteq> {last cands} \<and> length retries \<le> retries_left (lw_st w) \<and> set slots \<subseteq> set cands \<and>
     (retries \<noteq> [] \<or> slots \<noteq> [] \<longrightarrow> k = length cands)"
proof -
  let ?n = "int (length cands)"
  obtain answered later w1 where
    wk: "walk_candidates cfg attemptOne ?n cands 0 0 [] w = Some (answered, later, w1)"
        "walked ?n cands 0 w answered w1" "set later \<subseteq> set cands"
    using walk_returns [OF assms(1), of 0 cands ?n cfg 0 "[]"] by auto
  from wk(2) obtain k m where
    c1: "course w (numbered 0 (take k cands) @ numbered ?n (replicate m (last cands))) answered w1" and
    km: "k \<le> length cands" "m \<le> retries_left (lw_st w)" "m > 0 \<longrightarrow> k = length cands \<and> cands \<noteq> []" and
    late: "\<not> answered \<and> k < length cands \<longrightarrow> (\<exists>j<lw_tick w1. st_overallDeadline (lw_st w) < em_now (lw_env w j))"
    unfolding walked_def by blast
  note i1 = course_keeps [OF c1]
  have fin: ?thesis if "runFailoverLoop cfg attemptOne cands w = Some w'" "course w1 (numbered ?n slots) True w'" "\<not> answered"
    "set slots \<subseteq> set cands" "slots \<noteq> [] \<longrightarrow> k = length cands" for w' slots
  proof -
    from c1 that(3) have "course w (numbered 0 (take k cands) @ numbered ?n (replicate m (last cands))) False w1" by simp
    from course_trans [OF this that(2)] that km show ?thesis
      by (intro exI [of _ w'] exI [of _ k] exI [of _ "replicate m (last cands)"] exI [of _ slots]) auto
  qed
  show ?thesis
  proof (cases "answered \<or> later = []")
    case True
    show ?thesis
    proof (cases answered)
      case True
      with wk c1 km show ?thesis
        by (intro exI [of _ w1] exI [of _ k] exI [of _ "replicate m (last cands)"] exI [of _ "[]"])
          (auto simp: runFailoverLoop_def)
    next
      case False
      with True wk show ?thesis
        using fin [of "fail_exhausted cfg ?n w1" "[]"] fail_exhausted_course [OF i1(3)] by (simp add: runFailoverLoop_def)
    qed
  next
    case False
    let ?w2 = "w1\<lparr>lw_tick := Suc (lw_tick w1)\<rparr>"
    define d where "d = time_add (em_now (lw_env w1 (lw_tick w1))) (ps_saturationMaxWait (lc_settings cfg))"
    define deadline where "deadline = (if st_overallDeadline (lw_st w1) < d then st_overallDeadline (lw_st w1) else d)"
    have c2: "course w1 [] False ?w2" using i1(3) by simp
    obtain K where "\<And>n. K \<le> n \<Longrightarrow> deadline \<le> em_now (lw_env ?w2 n)"
      using clock_passes [OF time] i1(1) by auto
    from slot_loop_returns [OF course_keeps(3) [OF c2] this] obtain ok w3 slots where
      sl: "slot_loop cfg attemptOne deadline later ?n ?w2 = Some (ok, w3)" "course ?w2 (numbered ?n slots) ok w3"
          "set slots \<subseteq> set later" by blast
    have ra: "retryAfterSlotFrees cfg attemptOne later ?n w1 = Some (ok, w3)"
      using sl(1) unfolding deadline_def d_def
      by (auto simp: retryAfterSlotFrees_def moment_def Let_def split: if_splits)
    have c3: "course w1 (numbered ?n slots) True (if ok then w3 else fail_exhausted cfg ?n w3)"
      using course_silent [OF c2 sl(2)] course_trans [OF _ fail_exhausted_course [OF course_keeps(3) [OF sl(2)]]]
      by (cases ok) fastforce+
    have "slots = []" if "k < length cands"
    proof -
      from late that False obtain j where j: "j < lw_tick w1" "st_overallDeadline (lw_st w) < em_now (lw_env w j)" by blast
      from clock_mono [OF time, of j "Suc (lw_tick w1)"] j i1(1,4)
      have "deadline \<le> em_now (lw_env ?w2 (lw_tick ?w2))" by (simp add: deadline_def split: if_split)
      then have "slot_loop cfg attemptOne deadline later ?n ?w2 = Some (False, ?w2\<lparr>lw_tick := Suc (lw_tick ?w2)\<rparr>)"
        by (simp add: slot_loop.simps moment_def)
      with sl(1,2) show ?thesis by (cases slots) (auto simp: course_def)
    qed
    then have sk: "slots \<noteq> [] \<longrightarrow> k = length cands" using km(1) by (auto simp: le_less)
    have run: "runFailoverLoop cfg attemptOne cands w = Some (if ok then w3 else fail_exhausted cfg ?n w3)"
      using False wk(1) ra by (simp add: runFailoverLoop_def)
    show ?thesis by (rule fin [OF run c3 _ _ sk]) (use False sl(3) wk(3) in auto)
  qed
qed

end

end
