(* ===== verification/Attempt_Candidate_Facts.thy ===== *)
theory Attempt_Candidate_Facts
  imports Attempt_Candidate Attempt_Contract Attempt_Facts
begin

text \<open>
  An attempt of a chat request keeps the contract of the failover loop, and gives back the in-flight
  slot it took, on every path.
\<close>

subsection \<open>What the outcome recorders keep of the retry flags\<close>

lemma settle_slot_flags [simp]: "retry_flags (fst (settle_slot ps outcome now w)) = retry_flags (fst w)"
  by (simp add: settle_slot_def retry_flags_def split: prod.split option.split)

lemma chargeBreaker_flags [simp]: "retry_flags (fst (chargeBreaker cand s r g now w)) = retry_flags (fst w)"
  by (simp add: chargeBreaker_def split: prod.split)

lemma admit_attempt_flags: "admit_attempt cand (st, gw) = (ok, st', gw') \<Longrightarrow> retry_flags st' = retry_flags st"
  by (cases ok) (auto simp: admit_attempt_def retry_flags_def split: prod.splits)

lemma close_body_flags [simp]: "retry_flags (fst (close_body cfg now body w)) = retry_flags (fst w)"
  by (simp add: close_body_def retry_flags_def split: prod.split option.split)

lemma drain_body_flags [simp]: "retry_flags (fst (drain_body cfg now body w)) = retry_flags (fst w)"
  by (simp add: drain_body_def split: prod.split option.split) (simp add: retry_flags_def)

lemma hold_slot_flags [simp]: "retry_flags (fst (hold_slot w)) = retry_flags (fst w)"
  by (simp add: hold_slot_def retry_flags_def split: prod.split)

lemma tell_stream_verdict_flags [simp]: "retry_flags (fst (tell_stream_verdict cand s v g now w)) = retry_flags (fst w)"
  by (simp add: tell_stream_verdict_def split: prod.split)

lemma rejectUntranslatableBody_flags [simp]:
  "retry_flags (fst (rejectUntranslatableBody fence ps cand s i f e a g now w)) = retry_flags (fst w)"
  by (simp add: rejectUntranslatableBody_def Let_def case_prod_beta)

lemma recordBreakerOutcome_flags [simp]:
  "retry_flags (fst (recordBreakerOutcome ps cand s e rl g now w)) = retry_flags (fst w)"
  by (simp add: recordBreakerOutcome_def recordRateLimitOutcome_def recordPaymentRequiredOutcome_def
      split: prod.split rateLimitClass.split breakerAction.split)

lemma teach_limiter_flags [simp]: "retry_flags (fst (teach_limiter ps now cand rl w)) = retry_flags (fst w)"
  by (simp add: teach_limiter_def case_prod_beta)

lemma classify429_flags: "classify429Attempt ps ds now cand resp (st, gw) = (rl, st') \<Longrightarrow> retry_flags st' = retry_flags st"
  by (auto simp: classify429Attempt_def noteAttemptPhrase_def retry_flags_def Let_def split: if_splits prod.splits)

lemma judge_flags:
  assumes "judge429AndRecordBreaker ps ds g now cand resp e (st, gw) = (rl, st', gw')"
  shows "retry_flags st' = retry_flags st"
proof -
  obtain rl0 st0 where c: "(if e then classify429Attempt ps ds now cand resp (st, gw) else (no_verdict, st)) = (rl0, st0)"
    by fastforce
  then have "retry_flags st0 = retry_flags st" using classify429_flags by (auto split: if_splits)
  with assms c show ?thesis
    by (simp add: judge429AndRecordBreaker_def Let_def) (metis fst_conv recordBreakerOutcome_flags teach_limiter_flags)
qed

subsection \<open>The attempt in flight\<close>

text \<open>Between its opening and its close an attempt is the open record of the trail; the client has not been
  answered. \<open>f\<close> is the state of the retry flags.\<close>

definition opened ::
    "bool \<times> bool \<times> instant \<Rightarrow> modelCandidate \<Rightarrow> int \<Rightarrow> 'e loopWorld \<Rightarrow> 'e loopWorld \<Rightarrow> bool" where
  "opened f c i w w' \<longleftrightarrow> lw_env w' = lw_env w \<and> lw_tick w \<le> lw_tick w' \<and> lw_answers w' = lw_answers w \<and>
     trail_of (lw_log w') = trail_of (lw_log w) \<and> retry_flags (lw_st w') = f \<and> snd (snd f) = st_overallDeadline (lw_st w) \<and>
     (\<exists>r. lg_openAttempt (lw_log w') = Some r \<and> (ar_Attempt r, ar_ProviderID r, ar_Model r) = (i, mc_providerID c, mc_model c))"

lemma opened_attempt:
  "opened f c i w w' \<Longrightarrow> retry_flags (fst (g (lw_st w', lw_gw w'))) = retry_flags (lw_st w') \<Longrightarrow> opened f c i w (on_attempt g w')"
  by (simp add: opened_def)

lemma opened_log:
  "opened f c i w w' \<Longrightarrow> lg_openAttempt (g (lw_log w')) = lg_openAttempt (lw_log w') \<Longrightarrow>
   lg_attempts (g (lw_log w')) = lg_attempts (lw_log w') \<Longrightarrow> opened f c i w (on_log g w')"
  by (simp add: opened_def trail_of_def)

lemma opened_error: "opened f c i w w' \<Longrightarrow> opened f c i w (record_error cfg e w')"
  by (simp add: opened_def)

lemma opened_tick: "opened f c i w w' \<Longrightarrow> opened f c i w (w'\<lparr>lw_tick := Suc (lw_tick w')\<rparr>)"
  by (simp add: opened_def)

lemma opened_slept: "opened f c i w w' \<Longrightarrow> opened f c i w (slept d w')"
  by (simp add: opened_def)

lemma opened_state:
  "opened f c i w w' \<Longrightarrow> retry_flags st = retry_flags (lw_st w') \<Longrightarrow> opened f c i w (w'\<lparr>lw_st := st, lw_gw := gw\<rparr>)"
  by (simp add: opened_def)

lemma opened_gw: "opened f c i w w' \<Longrightarrow> opened f c i w (w'\<lparr>lw_gw := gw\<rparr>)"
  by (simp add: opened_def)

lemma opened_settle: "opened f c i w w' \<Longrightarrow> opened f c i w (settle_attempt cfg now outcome w')"
  unfolding settle_attempt_def by (rule opened_attempt) simp_all

lemma opened_note: "opened f c i w w' \<Longrightarrow> opened f c i w (note_attempt a w')"
  unfolding note_attempt_def by (rule opened_log) simp_all

lemma opened_judge: "opened f c i w w' \<Longrightarrow> opened f c i w (judgeAnswerNow cfg now w')"
  by (simp add: opened_def)

lemmas opened_steps = opened_error opened_tick opened_slept opened_gw opened_settle opened_note opened_judge

text \<open>The ways an attempt ends.\<close>

lemma closed_course:
  "opened f c i w w' \<Longrightarrow> course w [(i, mc_providerID c, mc_model c)] False (close_attempt cfg now s k d p w') \<and>
     retry_flags (lw_st (close_attempt cfg now s k d p w')) = f"
  by (auto simp: opened_def course_def idle_def close_attempt_def closeAttemptRecord_trail retry_flags_def)

lemma updated_course:
  assumes "opened f c i w w'" "isTerminalLogState (lg_state (lw_log w'))"
  shows "lw_env (updateRequestLog cfg now w') = lw_env w \<and> lw_tick w \<le> lw_tick (updateRequestLog cfg now w') \<and>
    idle (updateRequestLog cfg now w') \<and> lw_answers (updateRequestLog cfg now w') = lw_answers w \<and>
    trail_of (lw_log (updateRequestLog cfg now w')) = trail_of (lw_log w) @ [(i, mc_providerID c, mc_model c)] \<and>
    retry_flags (lw_st (updateRequestLog cfg now w')) = f"
  using assms by (auto simp: opened_def updateRequestLog_def idle_def closeTerminalAttempt_trail Let_def)

lemma failed_course:
  assumes "opened f c i w w'"
  shows "course w [(i, mc_providerID c, mc_model c)] True (writeOpenAIError msg s' ra (failRequest cfg s k e a w')) \<and>
     retry_flags (lw_st (writeOpenAIError msg s' ra (failRequest cfg s k e a w'))) = f"
  using assms failRequest_keeps [of cfg s k e a w'] failRequest_trail [of cfg s k e a w']
  by (auto simp: opened_def course_def writeOpenAIError_def idle_def retry_flags_def)

definition ended ::
    "bool \<times> bool \<times> instant \<Rightarrow> modelCandidate \<Rightarrow> int \<Rightarrow> 'e loopWorld \<Rightarrow> candidateOutcome \<times> 'e loopWorld \<Rightarrow> bool" where
  "ended f c i w res \<longleftrightarrow> (case (f, res) of ((sat, se, dl), (r, w')) \<Rightarrow>
     course w [(i, mc_providerID c, mc_model c)] (is_answer r) w' \<and>
     retry_flags (lw_st w') = (sat \<or> r = outcomeRetrySaturated, se \<or> r = outcomeRetryServerError, dl) \<and>
     (r = outcomeRetrySaturated \<longrightarrow> \<not> sat) \<and> (r = outcomeRetryServerError \<longrightarrow> \<not> se))"

lemma ended_closed:
  "opened f c i w w' \<Longrightarrow> r \<in> {outcomeFailover, outcomeBusy, outcomeSkipped} \<Longrightarrow>
   ended f c i w (r, close_attempt cfg now s k d p w')"
  using closed_course [of f c i w w'] by (cases f) (auto simp: ended_def is_answer_def)

lemma ended_failed:
  "opened f c i w w' \<Longrightarrow> ended f c i w (outcomeFatal, writeOpenAIError msg s' ra (failRequest cfg s k e a w'))"
  using failed_course [of f c i w w'] by (cases f) (simp add: ended_def is_answer_def)

subsection \<open>Each way of an attempt\<close>

lemma do_tries_opened:
  "do_tries tries left t w1 = (res, w2) \<Longrightarrow> opened f c i w w1 \<Longrightarrow> opened f c i w w2"
proof (induction left arbitrary: t w1)
  case 0
  then show ?case by (subst (asm) do_tries.simps) (auto simp: Let_def split: sum.splits)
next
  case (Suc left)
  from Suc.prems show ?case
    by (subst (asm) do_tries.simps)
      (auto simp: Let_def moment_def opened_steps split: sum.splits if_splits option.splits intro: Suc.IH)
qed

lemma doUpstream_opened:
  assumes "doUpstream cfg c i ae w1 = (resp, w2)" "opened f c i w w1" shows "opened f c i w w2"
proof -
  obtain r w3 where t: "do_tries (ae_tries ae) maxTransientRetries [] w1 = (r, w3)" by fastforce
  have "opened f c i w w3" using do_tries_opened [OF t assms(2)] .
  then have "opened f c i w (record_error cfg e (w3\<lparr>lw_tick := Suc (lw_tick w3)\<rparr>))" for e by (intro opened_steps)
  with assms(1) t \<open>opened f c i w w3\<close> show ?thesis
    by (cases r) (auto simp: doUpstream_def moment_def Let_def intro!: opened_attempt split: if_split_asm)
qed

lemma open_attempt_opened:
  "opened (retry_flags (lw_st w)) c i w (open_attempt c i now (w\<lparr>lw_tick := t, lw_gw := gw\<rparr>))" if "lw_tick w \<le> t"
  using that by (simp add: opened_def open_attempt_def openAttemptRecord_def newAttemptRecord_def trail_of_def retry_flags_def Let_def)

lemma skip_busy_ends: "opened f c i w w1 \<Longrightarrow> ended f c i w (outcomeBusy, skip_busy cfg c i now w1)"
  unfolding skip_busy_def Let_def
  by (rule ended_closed) (simp_all add: opened_def trail_of_def)

definition began_ok :: "modelCandidate \<Rightarrow> int \<Rightarrow> world \<Rightarrow> beginResult \<times> world \<Rightarrow> bool" where
  "began_ok c i w res = (case res of
       (began resp, w1) \<Rightarrow> opened (retry_flags (lw_st w)) c i w w1
     | (beganBusy, w1) \<Rightarrow> ended (retry_flags (lw_st w)) c i w (outcomeBusy, w1)
     | (beganRefused, w1) \<Rightarrow> ended (retry_flags (lw_st w)) c i w (outcomeSkipped, w1)
     | (beganFailed, w1) \<Rightarrow> ended (retry_flags (lw_st w)) c i w (outcomeFailover, w1))"

lemma send_attempt_ok:
  assumes "opened (retry_flags (lw_st w)) c i w w1" shows "began_ok c i w (send_attempt cfg c i ae now w1)"
proof (cases "ae_build ae")
  case None
  obtain r w3 where d: "doUpstream cfg c i ae w1 = (r, w3)" by fastforce
  have o3: "opened (retry_flags (lw_st w)) c i w w3" by (rule doUpstream_opened [OF d assms])
  then show ?thesis using ended_closed [OF opened_settle [OF o3], of outcomeFailover] None d
    by (cases r) (simp_all add: send_attempt_def began_ok_def Let_def)
next
  case (Some p)
  have "ended (retry_flags (lw_st w)) c i w (r, refuse_build cfg c i now k t w1)" if "r = outcomeSkipped \<or> r = outcomeFailover" for r k t
    using that unfolding refuse_build_def Let_def by (intro ended_closed opened_steps assms) auto
  with Some show ?thesis by (cases p) (simp add: send_attempt_def began_ok_def)
qed

lemma beginAttempt_ok: "began_ok c i w (beginAttempt cfg c i ae now (w\<lparr>lw_tick := Suc (lw_tick w)\<rparr>))"
proof -
  define w0 where "w0 = open_attempt c i now (w\<lparr>lw_tick := Suc (lw_tick w), lw_gw := ae_interference ae (lw_gw w)\<rparr>)"
  obtain ok st gw where a: "admit_attempt c (lw_st w0, lw_gw w0) = (ok, st, gw)" by (metis prod_cases3)
  have "opened (retry_flags (lw_st w)) c i w w0" unfolding w0_def by (rule open_attempt_opened) simp
  from opened_state [OF this admit_attempt_flags [OF a]] have "opened (retry_flags (lw_st w)) c i w (w0\<lparr>lw_st := st, lw_gw := gw\<rparr>)" .
  from send_attempt_ok [OF this] skip_busy_ends [OF this] a show ?thesis
    by (cases ok) (simp_all add: beginAttempt_def w0_def [symmetric] began_ok_def Let_def)
qed

lemma failOverPast_ends: "opened f c i w w1 \<Longrightarrow> ended f c i w (failOverPastCandidate cfg c resp body i rl now w1)"
  unfolding failOverPastCandidate_def Let_def
  by (rule ended_closed) (simp_all add: opened_steps opened_attempt)

lemma rejectAndClose_ends: "opened f c i w w1 \<Longrightarrow> ended f c i w (rejectAndClose cfg c resp body fault i now w1)"
proof -
  assume o1: "opened f c i w w1"
  define w2 where "w2 = note_attempt i (on_attempt (rejectUntranslatableBody (lc_fence cfg) (lc_settings cfg) c (rs_status resp)
     (bf_interrupted fault) (bf_faulty fault) (bf_text fault) i (lc_rng cfg) now) w1)"
  have o2: "opened f c i w w2" unfolding w2_def using o1 by (intro opened_steps opened_attempt) simp_all
  obtain k where r: "rejectAndClose cfg c resp body fault i now w1 =
     (outcomeFailover, on_attempt (close_body cfg now body) (on_log (\<lambda>l. l\<lparr>lg_judge := None\<rparr>)
        (close_attempt cfg now (rs_status resp) k (bf_text fault) [] w2)))"
    unfolding rejectAndClose_def w2_def Let_def by blast
  have "course w [(i, mc_providerID c, mc_model c)] False w' \<Longrightarrow>
      course w [(i, mc_providerID c, mc_model c)] False (on_attempt (close_body cfg now body) (on_log (\<lambda>l. l\<lparr>lg_judge := None\<rparr>) w'))" for w' :: world
    using flags_deadline [OF close_body_flags [of cfg now body "(lw_st w', lw_gw w')"]]
    by (simp add: course_def idle_def trail_of_def)
  with ended_closed [OF o2, of outcomeFailover] r show ?thesis by (cases f) (simp add: ended_def is_answer_def)
qed

lemma deferLast_ends:
  assumes "deferLastCandidateRetry cfg c resp body i rl now w1 = Some res" "opened (retry_flags (lw_st w)) c i w w1"
  shows "ended (retry_flags (lw_st w)) c i w res"
proof -
  have close: "opened f c i w w2 \<Longrightarrow> course w [(i, mc_providerID c, mc_model c)] False
      (closeDeferredAttempt cfg resp body i e d p now w2) \<and> retry_flags (lw_st (closeDeferredAttempt cfg resp body i e d p now w2)) = f"
    for f w2 e d p
    unfolding closeDeferredAttempt_def Let_def
    by (rule closed_course) (intro opened_steps opened_attempt; simp)
  have sat: "opened (True, st_serverErrorRetried (lw_st w), st_overallDeadline (lw_st w)) c i w
      (w1\<lparr>lw_st := (lw_st w1)\<lparr>st_saturationRetried := True\<rparr>\<rparr>)"
    and se: "opened (st_saturationRetried (lw_st w), True, st_overallDeadline (lw_st w)) c i w
      (w1\<lparr>lw_st := (lw_st w1)\<lparr>st_serverErrorRetried := True\<rparr>\<rparr>)"
    using assms(2) by (simp_all add: opened_def retry_flags_def)
  from assms(2) have "st_saturationRetried (lw_st w1) = st_saturationRetried (lw_st w)"
    "st_serverErrorRetried (lw_st w1) = st_serverErrorRetried (lw_st w)" by (simp_all add: opened_def retry_flags_def)
  with close [OF sat] close [OF se] assms(1) show ?thesis
    by (auto simp: deferLastCandidateRetry_def deferSaturatedRetry_def deferServerErrorRetry_def ended_def retry_flags_def
        is_answer_def Let_def split: if_splits)
qed

lemma forward_ends: "opened f c i w w1 \<Longrightarrow> ended f c i w (forwardUpstreamError cfg c resp body i elig ae now w1)"
  unfolding forwardUpstreamError_def Let_def case_prod_beta
  by (rule ended_failed) (rule opened_attempt; simp)

text \<open>A served answer: the terminal write closes the record, the answer is written once.\<close>

definition served_from :: "bool \<times> bool \<times> instant \<Rightarrow> modelCandidate \<Rightarrow> int \<Rightarrow> world \<Rightarrow> world \<Rightarrow> bool" where
  "served_from f c i w w' \<longleftrightarrow> ended f c i w (outcomeServed, w')"

lemma served_attempt:
  "served_from f c i w w' \<Longrightarrow> retry_flags (fst (g (lw_st w', lw_gw w'))) = retry_flags (lw_st w') \<Longrightarrow> served_from f c i w (on_attempt g w')"
  using flags_deadline [of "fst (g (lw_st w', lw_gw w'))" "lw_st w'"]
  by (cases f) (simp add: served_from_def ended_def course_def idle_def)

lemma served_settle: "served_from f c i w w' \<Longrightarrow> served_from f c i w (settle_attempt cfg now outcome w')"
  unfolding settle_attempt_def by (rule served_attempt) simp_all

lemma served_judge: "served_from f c i w w' \<Longrightarrow> served_from f c i w (judgeAnswerNow cfg now w')"
  using flags_deadline [OF judgeAnswerNow_keeps(6) [of cfg now w']]
  by (cases f) (simp add: served_from_def ended_def course_def idle_def)

lemma served_write:
  assumes "opened f c i w w1" "isTerminalLogState (lg_state (lw_log w1))"
  shows "served_from f c i w (write_answer a (updateRequestLog cfg now w1))"
proof -
  note u = updated_course [OF assms, of cfg now]
  from u assms(1) have "st_overallDeadline (lw_st (updateRequestLog cfg now w1)) = st_overallDeadline (lw_st w)"
    by (auto simp: opened_def retry_flags_def)
  with u show ?thesis by (cases f) (simp add: served_from_def ended_def course_def idle_def is_answer_def)
qed

lemma nonStreaming_served:
  assumes "opened f c i w w1" shows "served_from f c i w (handleNonStreamingResponse cfg resp body ans i now w1)"
  unfolding handleNonStreamingResponse_def Let_def
  by (intro served_attempt served_write opened_log assms) (simp_all add: isTerminalLogState_def)

lemma dispatchNonStreaming_ends:
  assumes "opened f c i w w1" shows "ended f c i w (dispatchNonStreaming cfg c resp body i hasMore ae now w1)"
proof -
  have "opened f c i w (on_attempt hold_slot (deferAnswerJudgement c (rs_status resp) w1))"
    unfolding deferAnswerJudgement_def by (intro opened_attempt opened_log assms) simp_all
  from served_judge [OF served_settle [OF nonStreaming_served [OF this]]] rejectAndClose_ends [OF assms] show ?thesis
    by (simp add: dispatchNonStreaming_def served_from_def Let_def split: option.split)
qed

text \<open>A stream writes its headers before it knows its end, so the answer precedes the terminal write.\<close>

lemma opened_streaming:
  "opened f c i w w1 \<Longrightarrow> opened f c i (write_answer a w) (write_answer a w1)"
  by (simp add: opened_def)

lemma served_stream:
  assumes "opened f c i (write_answer a w) w1" "isTerminalLogState (lg_state (lw_log w1))"
  shows "served_from f c i w (updateRequestLog cfg now w1)"
proof -
  note u = updated_course [OF assms, of cfg now]
  from u assms(1) have "st_overallDeadline (lw_st (updateRequestLog cfg now w1)) = st_overallDeadline (lw_st w)"
    by (auto simp: opened_def retry_flags_def)
  with u show ?thesis by (cases f) (simp add: served_from_def ended_def course_def idle_def is_answer_def)
qed

lemma finalizeStream_served:
  assumes "opened f c i (write_answer a w) w1" shows "served_from f c i w (finalizeStream cfg c s end' i now w1)"
  unfolding finalizeStream_def Let_def
  by (rule served_stream [where a = a])
    (rule opened_attempt, rule opened_log, rule opened_settle [OF assms], simp_all add: isTerminalLogState_def)

lemma opened_interim:
  "opened f c i w w1 \<Longrightarrow> \<not> isTerminalLogState (lg_state (lw_log w1)) \<Longrightarrow> opened f c i w (updateRequestLog cfg now w1)"
  by (simp add: updateRequestLog_def)

lemma streaming_served:
  assumes "opened f c i w w1" shows "served_from f c i w (handleStreamingResponse cfg c resp body end' i now w1)"
  unfolding handleStreamingResponse_def Let_def
  by (intro served_settle served_attempt finalizeStream_served
        [where a = "\<lparr>cl_status = 200, cl_message = [], cl_retryAfter = None, cl_served = True\<rparr>"]
      opened_attempt opened_interim opened_log opened_streaming assms)
    (simp_all add: isTerminalLogState_def)

lemma fail_probe_ends: "opened f c i w w1 \<Longrightarrow> ended f c i w (outcomeFailover, fail_probe cfg c s i re charged now w1)"
  unfolding fail_probe_def Let_def by (rule ended_closed) (simp_all add: opened_steps opened_attempt)

lemma fail_heal_ends: "opened f c i w w1 \<Longrightarrow> ended f c i w (outcomeFailover, fail_heal cfg c e now w1)"
  unfolding fail_heal_def Let_def by (rule ended_closed) (simp_all add: opened_steps opened_attempt)

lemma dispatchStreaming_ends:
  assumes "opened f c i w w1" shows "ended f c i w (dispatchStreaming cfg c resp body i ae now w1)"
proof -
  have oh: "opened f c i w (on_attempt hold_slot w1)" by (intro opened_attempt assms) simp
  from opened_attempt [OF opened_tick [OF oh], of "close_body cfg now body"] fail_probe_ends
  have "ended f c i w (outcomeFailover, fail_probe cfg c s i re charged now (on_attempt (close_body cfg now body)
      ((on_attempt hold_slot w1)\<lparr>lw_tick := Suc (lw_tick (on_attempt hold_slot w1))\<rparr>)))" for s re charged by simp
  then show ?thesis using streaming_served [OF assms] streaming_served [OF oh]
    by (simp add: dispatchStreaming_def served_from_def moment_def case_prod_beta Let_def split: option.split)
qed

lemma end_attempt_ends:
  assumes "opened (retry_flags (lw_st w)) c i w w1"
  shows "ended (retry_flags (lw_st w)) c i w (end_attempt cfg c i hasMore elig ae resp body rl now w1)"
  using failOverPast_ends [OF assms] forward_ends [OF assms] dispatchStreaming_ends [OF assms] rejectAndClose_ends [OF assms]
    dispatchNonStreaming_ends [OF assms] deferLast_ends [OF _ assms]
  by (simp add: end_attempt_def split: option.split)

lemma receive_response_opened:
  assumes "receive_response resp now w1 = (body, w2)" "opened f c i w w1" shows "opened f c i w w2"
  using assms by (auto simp: receive_response_def noteAttemptStatus_def opened_def trail_of_def split: prod.splits)

lemma judge_response_ends:
  assumes "opened (retry_flags (lw_st w)) c i w w1"
  shows "ended (retry_flags (lw_st w)) c i w (judge_response cfg c i n ae resp w1)"
proof -
  define m where "m = lw_env w1 (lw_tick w1)"
  define resp' where "resp' = ae_remap ae resp"
  obtain body w2 where adm: "receive_response resp' (em_now m) (w1\<lparr>lw_tick := Suc (lw_tick w1)\<rparr>) = (body, w2)" by fastforce
  note o2 = receive_response_opened [OF adm opened_tick [OF assms]]
  obtain rl st gw where j: "judge429AndRecordBreaker (lc_settings cfg) (lc_dates cfg) (lc_rng cfg) (em_now m) c resp'
      (shouldFailover (lc_settings cfg) (rs_status resp')) (lw_st w2, lw_gw w2) = (rl, st, gw)" by (metis prod_cases3)
  from end_attempt_ends [OF opened_state [OF o2 judge_flags [OF j]]] adm j show ?thesis
    by (simp add: judge_response_def moment_def m_def [symmetric] resp'_def [symmetric])
qed

lemma attemptCandidate_ends: "ended (retry_flags (lw_st w)) c i w (attemptCandidate cfg c i n w)"
proof -
  let ?m = "lw_env w (lw_tick w)"
  obtain b w1 where b: "beginAttempt cfg c i (em_attempt ?m) (em_now ?m) (w\<lparr>lw_tick := Suc (lw_tick w)\<rparr>) = (b, w1)" by fastforce
  note ok = beginAttempt_ok [of c i w cfg "em_attempt ?m" "em_now ?m", unfolded b began_ok_def]
  show ?thesis
  proof (cases b)
    case (began resp)
    with ok have o1: "opened (retry_flags (lw_st w)) c i w w1" by simp
    from fail_heal_ends [OF o1] judge_response_ends [OF o1] b began show ?thesis
      by (simp add: attemptCandidate_def moment_def Let_def split: healResult.split)
  qed (use ok b in \<open>simp_all add: attemptCandidate_def moment_def Let_def\<close>)
qed

lemma dispatch_is_no_retry:
  "\<not> is_retry (fst (dispatchNonStreaming cfg c resp body i hasMore ae now w))"
  "\<not> is_retry (fst (dispatchStreaming cfg c resp body i ae now w))"
  by (simp_all add: dispatchNonStreaming_def dispatchStreaming_def rejectAndClose_def is_retry_def case_prod_beta Let_def split: option.split)

lemma end_attempt_retry: "is_retry (fst (end_attempt cfg c i hasMore elig ae resp body rl now w)) \<Longrightarrow> \<not> hasMore"
  using dispatch_is_no_retry
  by (auto simp: end_attempt_def failOverPastCandidate_def forwardUpstreamError_def rejectAndClose_def is_retry_def Let_def
      case_prod_beta split: if_splits option.splits)

lemma judge_response_retry: "is_retry (fst (judge_response cfg c i n ae resp w)) \<Longrightarrow> n \<le> i + 1"
  unfolding judge_response_def Let_def case_prod_beta by (drule end_attempt_retry) simp

lemma attemptCandidate_retry: "is_retry (fst (attemptCandidate cfg c i n w)) \<Longrightarrow> n \<le> i + 1"
  using judge_response_retry
  by (auto simp: attemptCandidate_def is_retry_def Let_def case_prod_beta split: beginResult.splits if_splits healResult.splits prod.splits)

interpretation chat: attempt_contract "attemptCandidate cfg"
proof
  fix c i n w r w'
  assume a: "attemptCandidate cfg c i n w = (r, w')"
  note e = attemptCandidate_ends [of w c i cfg n, unfolded a ended_def retry_flags_def, simplified]
  show "course w [(i, mc_providerID c, mc_model c)] (is_answer r) w'" using e by simp
  show "st_saturationRetried (lw_st w') = (st_saturationRetried (lw_st w) \<or> r = outcomeRetrySaturated) \<and>
      st_serverErrorRetried (lw_st w') = (st_serverErrorRetried (lw_st w) \<or> r = outcomeRetryServerError)" using e by simp
  show "\<not> st_saturationRetried (lw_st w)" if "r = outcomeRetrySaturated" using e that by simp
  show "\<not> st_serverErrorRetried (lw_st w)" if "r = outcomeRetryServerError" using e that by simp
  show "n \<le> i + 1" if "is_retry r" using attemptCandidate_retry [of cfg c i n w] a that by simp
qed

end
