(* ===== verification/Attempt_Slots.thy ===== *)
theory Attempt_Slots
  imports Attempt_Candidate_Facts
begin

text \<open>
  The in-flight slot over an attempt: what it acquired it gives back, whichever of the failure exits,
  the body's close, the saturated 429 or the stream's end gets there first.
\<close>

subsection \<open>The ledger\<close>

type_synonym ledger = "attemptSlot option \<times> inflightLimiter option"

definition ledger_of :: "attempt_world \<Rightarrow> ledger" where
  "ledger_of w = (st_attemptSlot (fst w), gw_inflight (snd w))"

definition ledger :: "world \<Rightarrow> ledger" where
  "ledger w = ledger_of (lw_st w, lw_gw w)"

lemma ledger_of_world [simp]: "ledger_of (lw_st w, lw_gw w) = ledger w"
  by (simp add: ledger_def)

definition load :: "inflightLimiter \<Rightarrow> string \<Rightarrow> int" where
  "load l p = iw_inflight (window_of l p)"

text \<open>The load is what the others hold, and one more while the attempt's slot is out; \<open>None\<close> stands for the
  others of an absent limiter.\<close>

definition balanced :: "(string \<Rightarrow> int) option \<Rightarrow> ledger \<Rightarrow> bool" where
  "balanced others L \<longleftrightarrow> (case (others, L) of
       (None, _, None) \<Rightarrow> True
     | (Some held, slot, Some l) \<Rightarrow> \<forall>p. 0 \<le> held p \<and>
         load l p = held p + of_bool (\<exists>s. slot = Some s \<and> \<not> as_fired s \<and> as_provider s = p)
     | _ \<Rightarrow> False)"

lemma balanced_Some:
  "balanced others (slot, Some l) \<longleftrightarrow> (\<exists>held. others = Some held \<and> (\<forall>p. 0 \<le> held p \<and>
     load l p = held p + of_bool (\<exists>s. slot = Some s \<and> \<not> as_fired s \<and> as_provider s = p)))"
  by (cases others) (simp_all add: balanced_def)

lemma balanced_None [simp]: "balanced others (slot, None) \<longleftrightarrow> others = None"
  by (cases others) (simp_all add: balanced_def)

definition returned :: "ledger \<Rightarrow> bool" where
  "returned L \<longleftrightarrow> (\<forall>s. fst L = Some s \<longrightarrow> as_fired s)"

lemma balanced_settle:
  assumes "balanced others (Some s, lmt)"
  shows "balanced others (apfst Some (settle s outcome ga fa now lmt))"
proof (cases lmt)
  case None
  then show ?thesis using assms by (simp add: settle_def release_def)
next
  case (Some l)
  show ?thesis
  proof (cases "as_fired s")
    case True
    with assms show ?thesis by (simp add: settle_def)
  next
    case False
    let ?p = "as_provider s"
    obtain l' ga' fa' where l': "release (Some l) ?p outcome ga fa now = Some l'"
      and win: "window_of l' = (window_of l)(?p := settle_window (window_of l ?p) outcome ga' fa' now)"
      using release_spec [of l ?p outcome ga fa now] by blast
    from assms Some obtain held where "0 \<le> held ?p" "load l ?p = held ?p + of_bool (\<not> as_fired s)"
      by (fastforce simp: balanced_Some)
    then have "0 < iw_inflight (window_of l ?p)" using False by (simp add: load_def)
    with assms l' win Some False show ?thesis
      by (auto simp: balanced_Some load_def settle_def settle_window_inflight)
  qed
qed

lemma settle_returned: "returned (apfst Some (settle s outcome ga fa now lmt))"
  by (simp add: returned_def settle_def)

lemma settle_again: "returned (Some s, lmt) \<Longrightarrow> settle s outcome ga fa now lmt = (s, lmt)"
  by (simp add: returned_def settle_def)

text \<open>A body carries the slot when it is the one whose close will settle it.\<close>

definition carried :: "inflightRelease option \<Rightarrow> ledger \<Rightarrow> bool" where
  "carried body L \<longleftrightarrow> (\<forall>s. fst L = Some s \<longrightarrow> body \<noteq> None \<and> \<not> as_held s)"

subsection \<open>What the outcome recorders do to the ledger\<close>

definition settle_ledger :: "proxySettings \<Rightarrow> slotOutcome \<Rightarrow> instant \<Rightarrow> ledger \<Rightarrow> ledger" where
  "settle_ledger ps outcome now L = (case L of
       (None, lmt) \<Rightarrow> (None, lmt)
     | (Some s, lmt) \<Rightarrow> apfst Some (settle s outcome (ps_growAfter ps) (ps_forgetAfter ps) now lmt))"

lemma settle_slot_ledger [simp]: "ledger_of (settle_slot ps outcome now w) = settle_ledger ps outcome now (ledger_of w)"
  by (simp add: settle_slot_def settle_ledger_def ledger_of_def split: prod.split option.split)

lemma settle_ledger_ok:
  "balanced others L \<Longrightarrow> balanced others (settle_ledger ps outcome now L)" "returned (settle_ledger ps outcome now L)"
  by (auto simp: settle_ledger_def balanced_settle settle_returned split: prod.split option.split) (simp add: returned_def)

lemma charge_ledger [simp]: "ledger_of (chargeBreaker cand s r g now w) = ledger_of w"
  by (simp add: chargeBreaker_def ledger_of_def noteBreaker_def charge_def tell_breaker_def split: prod.split)

lemma recordAnswer_ledger [simp]: "ledger_of (recordAnswerOutcome cand l s g now w) = ledger_of w"
  by (simp add: recordAnswerOutcome_def creditBreaker_def split: prod.split)
    (simp add: ledger_of_def noteBreaker_def tell_breaker_def)

lemma tell_stream_ledger [simp]: "ledger_of (tell_stream_verdict cand s v g now w) = ledger_of w"
  by (simp add: tell_stream_verdict_def ledger_of_def noteBreaker_def charge_def tell_breaker_def split: prod.split)

lemma setReqErr_slot [simp]: "st_attemptSlot (setReqErr fence e st) = st_attemptSlot st"
  by (simp add: setReqErr_def Let_def)

lemma reject_ledger [simp]:
  "ledger_of (rejectUntranslatableBody fence ps cand s i f e a g now w) =
     settle_ledger ps (case abortKind i of (_, _, abandoned) \<Rightarrow> if \<not> abandoned \<and> f then slotUnclean else slotNeutral) now (ledger_of w)"
proof -
  have "ledger_of (setReqErr fence x st, gw) = ledger_of (st, gw)" for x st gw by (simp add: ledger_of_def)
  then show ?thesis by (simp add: rejectUntranslatableBody_def Let_def case_prod_beta)
qed

definition close_ledger :: "proxySettings \<Rightarrow> instant \<Rightarrow> inflightRelease option \<Rightarrow> ledger \<Rightarrow> ledger" where
  "close_ledger ps now body L = (case (body, L) of
       (Some b, Some s, lmt) \<Rightarrow> if as_held s then L else settle_ledger ps (release_outcome b) now L
     | _ \<Rightarrow> L)"

lemma close_body_ledger [simp]: "ledger_of (close_body cfg now body w) = close_ledger (lc_settings cfg) now body (ledger_of w)"
  by (simp add: close_body_def close_ledger_def settle_ledger_def ledger_of_def Body_Close_def verdictHeld_def
      split: prod.split option.split)

lemma settle_ledger_held: "fst (settle_ledger ps outcome now L) = map_option (\<lambda>s. s\<lparr>as_fired := True\<rparr>) (fst L)"
  by (simp add: settle_ledger_def settle_def split: prod.split option.split)

lemma settle_ledger_twice: "settle_ledger ps o2 now' (settle_ledger ps o1 now L) = settle_ledger ps o1 now L"
  by (simp add: settle_ledger_def settle_def split: prod.split option.split)

lemma drain_body_ledger [simp]: "ledger_of (drain_body cfg now body w) = close_ledger (lc_settings cfg) now body (ledger_of w)"
  by (simp add: drain_body_def close_ledger_def settle_ledger_def ledger_of_def Body_Read_def Body_Close_def verdictHeld_def settle_def
      close_body_def split: prod.split option.split)

lemma close_ledger_cases:
  obtains "close_ledger ps now body L = L" "\<not> carried body L \<or> returned L" | outcome where "close_ledger ps now body L = settle_ledger ps outcome now L"
proof (cases L)
  case (Pair slot l)
  show ?thesis
  proof (cases body)
    case None
    with Pair that(1) show ?thesis by (cases slot) (simp_all add: close_ledger_def carried_def returned_def)
  next
    case (Some b)
    show ?thesis
    proof (cases "\<exists>s. slot = Some s \<and> \<not> as_held s")
      case True
      with Pair Some that(2) show ?thesis by (auto simp: close_ledger_def)
    next
      case False
      with Pair Some that(1) show ?thesis by (cases slot) (simp_all add: close_ledger_def carried_def returned_def)
    qed
  qed
qed

lemma close_ledger_ok:
  "balanced others L \<Longrightarrow> balanced others (close_ledger ps now body L)"
  "carried body L \<or> returned L \<Longrightarrow> returned (close_ledger ps now body L)"
proof -
  show "balanced others L \<Longrightarrow> balanced others (close_ledger ps now body L)"
    by (cases rule: close_ledger_cases [of ps now body L]) (simp_all add: settle_ledger_ok)
  show "carried body L \<or> returned L \<Longrightarrow> returned (close_ledger ps now body L)"
    by (cases rule: close_ledger_cases [of ps now body L]) (auto simp: settle_ledger_ok)
qed

lemma hold_ledger [simp]: "ledger_of (hold_slot w) = apfst (map_option holdVerdict) (ledger_of w)"
  by (simp add: hold_slot_def ledger_of_def split: prod.split)

lemma hold_ledger_ok: "balanced others L \<Longrightarrow> balanced others (apfst (map_option holdVerdict) L)"
  by (cases L; cases "snd L") (auto simp: balanced_Some holdVerdict_def)

lemma admit_ledger:
  assumes "admit_attempt c (st, gw) = (ok, st', gw')" "returned (ledger_of (st, gw))" "balanced others (ledger_of (st, gw))"
  shows "balanced others (ledger_of (st', gw'))" "\<not> ok \<Longrightarrow> returned (ledger_of (st', gw'))"
    "\<And>s. st_attemptSlot st' = Some s \<Longrightarrow> \<not> as_held s"
proof -
  obtain slot lmt where a: "admitCandidate (st_inflightEnabled st) (gw_inflight gw) (mc_providerID c)
      (providerCeiling (mc_maxInFlight c)) = (ok, slot, lmt)" using assms(1) by (auto simp: admit_attempt_def split: prod.splits)
  have st': "st_attemptSlot st' = (if ok then slot else None)" "gw_inflight gw' = lmt"
    using assms(1) a by (cases ok; auto simp: admit_attempt_def)+
  show "\<not> ok \<Longrightarrow> returned (ledger_of (st', gw'))" using st' by (simp add: returned_def ledger_of_def)
  show "st_attemptSlot st' = Some s \<Longrightarrow> \<not> as_held s" for s
    using st' a by (auto simp: admitCandidate_def split: if_splits prod.splits bool.splits)
  have base: "\<exists>held. others = Some held \<and> (\<forall>p. load l p = held p \<and> 0 \<le> held p)" if "gw_inflight gw = Some l" for l
    using assms(2,3) that by (auto simp: balanced_Some returned_def ledger_of_def)
  show "balanced others (ledger_of (st', gw'))"
  proof (cases "st_inflightEnabled st \<and> gw_inflight gw \<noteq> None")
    case True
    then obtain l where l: "gw_inflight gw = Some l" by blast
    obtain ok' lmt' where t: "tryAcquire (Some l) (mc_providerID c) (providerCeiling (mc_maxInFlight c)) = (ok', lmt')" by fastforce
    from tryAcquire_spec [OF t] obtain l' where "lmt' = Some l'" and
      "window_of l' = (if ok' then (window_of l)(mc_providerID c := (window_of l (mc_providerID c))\<lparr>iw_inflight :=
         iw_inflight (window_of l (mc_providerID c)) + 1\<rparr>) else window_of l)" by auto
    moreover from this t a True l st' have "ledger_of (st', gw') =
        (if ok' then Some \<lparr>as_provider = mc_providerID c, as_fired = False, as_held = False\<rparr> else None, Some l')"
      by (cases ok') (auto simp: admitCandidate_def ledger_of_def)
    ultimately show ?thesis using base [OF l] by (cases ok') (auto simp: balanced_Some load_def)
  next
    case False
    with a st' have "gw_inflight gw' = gw_inflight gw \<and> (gw_inflight gw = None \<or> st_attemptSlot st' = None)"
      by (cases "st_inflightEnabled st") (auto simp: admitCandidate_def tryAcquire_def)
    with base assms(3) show ?thesis by (cases "gw_inflight gw") (auto simp: balanced_Some ledger_of_def)
  qed
qed

lemma cut_ledger: "balanced others (slot, l) \<Longrightarrow> balanced others (slot, cut l p ra now)"
proof (cases l)
  case (Some x)
  assume b: "balanced others (slot, l)"
  from cut_spec [OF refl, of x p ra now] obtain l' w' where
    "cut (Some x) p ra now = Some l'" "window_of l' = (window_of x)(p := w')" "iw_inflight w' = iw_inflight (window_of x p)" by blast
  with b Some show ?thesis by (auto simp: balanced_Some load_def)
qed (simp add: cut_def)

lemma teach_ledger:
  assumes "balanced others (ledger_of w)"
  shows "balanced others (ledger_of (teach_limiter ps now cand rl w))"
    "\<And>body. carried body (ledger_of w) \<Longrightarrow> carried body (ledger_of (teach_limiter ps now cand rl w))"
proof -
  obtain st gw where s: "settle_slot ps slotUnclean now w = (st, gw)" by fastforce
  have L: "ledger_of (st, gw) = settle_ledger ps slotUnclean now (ledger_of w)" using settle_slot_ledger [of ps slotUnclean now w] s by simp
  have b: "balanced others (st_attemptSlot st, gw_inflight gw)"
    using settle_ledger_ok(1) [OF assms, of ps slotUnclean now] L by (simp add: ledger_of_def)
  show "balanced others (ledger_of (teach_limiter ps now cand rl w))"
    using assms cut_ledger [OF b] s by (simp add: teach_limiter_def) (simp add: ledger_of_def)
  have "st_attemptSlot st = map_option (\<lambda>s. s\<lparr>as_fired := True\<rparr>) (st_attemptSlot (fst w))"
    using settle_ledger_held [of ps slotUnclean now "ledger_of w", folded L] by (simp add: ledger_of_def)
  then have "carried body (ledger_of w) \<Longrightarrow> carried body (ledger_of (st, gw\<lparr>gw_inflight := x\<rparr>))" for body x
    by (auto simp: carried_def ledger_of_def)
  then show "carried body (ledger_of w) \<Longrightarrow> carried body (ledger_of (teach_limiter ps now cand rl w))" for body
    using s by (simp add: teach_limiter_def)
qed

lemma recordBreaker_ledger [simp]: "ledger_of (recordBreakerOutcome ps cand s e rl g now w) = ledger_of w"
  by (simp add: recordBreakerOutcome_def recordRateLimitOutcome_def recordPaymentRequiredOutcome_def ledger_of_def noteBreaker_def
      charge_def charge429_def tell_breaker_def split: prod.split rateLimitClass.split breakerAction.split)

lemma judge_ledger:
  assumes "judge429AndRecordBreaker ps ds g now cand resp e w = (rl, w')" "balanced others (ledger_of w)"
  shows "balanced others (ledger_of w')" "carried body (ledger_of w) \<Longrightarrow> carried body (ledger_of w')"
proof -
  obtain st gw where w: "w = (st, gw)" by fastforce
  obtain rl0 st0 where c: "(if e then classify429Attempt ps ds now cand resp (st, gw) else (no_verdict, st)) = (rl0, st0)" by fastforce
  have slot: "st_attemptSlot st0 = st_attemptSlot st"
    using c by (auto simp: classify429Attempt_def noteAttemptPhrase_def Let_def split: if_splits prod.splits)
  have same: "ledger_of (st0, count_429 ps ds now cand resp e rl0 gw) = ledger_of w"
    using slot w by (simp add: ledger_of_def)
  have w': "w' = recordBreakerOutcome ps cand (rs_status resp) e rl0 g now
      (teach_limiter ps now cand rl0 (st0, count_429 ps ds now cand resp e rl0 gw))"
    using assms(1) w c by (auto simp: judge429AndRecordBreaker_def Let_def)
  show "balanced others (ledger_of w')" "carried body (ledger_of w) \<Longrightarrow> carried body (ledger_of w')"
    using teach_ledger [of others "(st0, count_429 ps ds now cand resp e rl0 gw)"] assms(2) same w' by simp_all
qed

subsection \<open>The ledger of the world\<close>

lemma ledger_attempt: "ledger (on_attempt f w) = ledger_of (f (lw_st w, lw_gw w))"
  by (simp add: ledger_def)

lemma ledger_recorders [simp]:
  "ledger (on_attempt (chargeBreaker cand s r g now) w) = ledger w"
  "ledger (on_attempt (recordAnswerOutcome cand a s g now) w) = ledger w"
  "ledger (on_attempt (tell_stream_verdict cand s v g now) w) = ledger w"
  "ledger (on_attempt (settle_slot ps outcome now) w) = settle_ledger ps outcome now (ledger w)"
  "ledger (on_attempt (close_body cfg now body) w) = close_ledger (lc_settings cfg) now body (ledger w)"
  "ledger (on_attempt (drain_body cfg now body) w) = close_ledger (lc_settings cfg) now body (ledger w)"
  "ledger (on_attempt hold_slot w) = apfst (map_option holdVerdict) (ledger w)"
  by (simp_all add: ledger_attempt)

lemma ledger_silent [simp]:
  "ledger (record_error cfg e w) = ledger w" "ledger (on_log g w) = ledger w" "ledger (close_attempt cfg now s k d p w) = ledger w"
  "ledger (write_answer a w) = ledger w" "ledger (note_attempt i w) = ledger w" "ledger (slept t w) = ledger w"
  "ledger (w\<lparr>lw_tick := n\<rparr>) = ledger w"
  by (simp_all add: record_error_def note_attempt_def ledger_def ledger_of_def)

lemma ledger_judge [simp]: "ledger (judgeAnswerNow cfg now w) = ledger w"
  by (simp add: judgeAnswerNow_def split: option.split prod.split)

lemma ledger_update [simp]: "ledger (updateRequestLog cfg now w) = ledger w"
  by (simp add: updateRequestLog_def Let_def)

lemma ledger_fail [simp]: "ledger (failRequest cfg s k e a w) = ledger w"
  by (simp add: failRequest_def moment_def)

lemma ledger_settle [simp]: "ledger (settle_attempt cfg now outcome w) = settle_ledger (lc_settings cfg) outcome now (ledger w)"
  by (simp add: settle_attempt_def)

lemma ledger_tries: "do_tries tries left t w = (r, w') \<Longrightarrow> ledger w' = ledger w"
proof (induction left arbitrary: t w)
  case 0
  then show ?case by (subst (asm) do_tries.simps) (auto simp: Let_def split: sum.splits)
next
  case (Suc left)
  from Suc.prems show ?case
    by (subst (asm) do_tries.simps)
      (auto simp: Let_def moment_def split: sum.splits if_splits option.splits dest!: Suc.IH)
qed

lemma ledger_upstream: "doUpstream cfg c i ae w = (r, w') \<Longrightarrow> ledger w' = ledger w"
proof -
  assume d: "doUpstream cfg c i ae w = (r, w')"
  obtain res w1 where t: "do_tries (ae_tries ae) maxTransientRetries [] w = (res, w1)" by fastforce
  have "ledger (record_error cfg e (w1\<lparr>lw_tick := n\<rparr>)) = ledger w" for e n using ledger_tries [OF t] by simp
  with d t ledger_tries [OF t] show ?thesis
    by (cases res) (auto simp: doUpstream_def moment_def Let_def split: if_split_asm)
qed

text \<open>An attempt's end returns the slot and keeps the ledger balanced.\<close>

definition parked :: "(string \<Rightarrow> int) option \<Rightarrow> world \<Rightarrow> bool" where
  "parked others w \<longleftrightarrow> balanced others (ledger w) \<and> returned (ledger w)"

lemma settled_parked: "balanced others (ledger w) \<Longrightarrow> ledger w' = settle_ledger ps outcome now (ledger w) \<Longrightarrow> parked others w'"
  by (simp add: parked_def settle_ledger_ok)

lemma closed_parked:
  "balanced others (ledger w) \<Longrightarrow> carried body (ledger w) \<Longrightarrow> ledger w' = close_ledger ps now body (ledger w) \<Longrightarrow> parked others w'"
  by (simp add: parked_def close_ledger_ok)

lemma carried_hold [simp]: "carried (map_option holdSlotForVerdict body) L = carried body L"
  by (simp add: carried_def)

lemma skip_busy_parked: "parked others w \<Longrightarrow> parked others (skip_busy cfg c i now w)"
  by (simp add: skip_busy_def parked_def Let_def) (simp add: ledger_def ledger_of_def noteBreaker_def record_error_def)

lemma send_attempt_parked:
  assumes "send_attempt cfg c i ae now w = (b, w')" "balanced others (ledger w)"
  shows "(\<exists>resp. b = began resp) \<and> ledger w' = ledger w \<or> (\<forall>resp. b \<noteq> began resp) \<and> parked others w'"
proof (cases "ae_build ae")
  case None
  obtain r w1 where d: "doUpstream cfg c i ae w = (r, w1)" by fastforce
  show ?thesis
  proof (cases r)
    case (Some resp)
    then show ?thesis using assms None d ledger_upstream [OF d] by (auto simp: send_attempt_def)
  next
    case r: None
    then have "b = beganFailed" "ledger w' = settle_ledger (lc_settings cfg) (outcome_of_kind (re_Kind (vs_lastReqErr (lw_st w1)))) now (ledger w)"
      using assms(1) None d ledger_upstream [OF d] by (auto simp: send_attempt_def Let_def)
    with settled_parked [OF assms(2)] show ?thesis by simp
  qed
next
  case (Some p)
  then have "\<forall>resp. b \<noteq> began resp" "\<exists>k. ledger w' = settle_ledger (lc_settings cfg) k now (ledger w)"
    using assms(1) by (cases p; auto simp: send_attempt_def refuse_build_def Let_def split: if_splits)+
  with settled_parked [OF assms(2)] show ?thesis by auto
qed

lemma rejectAndClose_parked:
  assumes "balanced others (ledger w)" shows "parked others (snd (rejectAndClose cfg c resp body fault i now w))"
  using assms by (simp add: rejectAndClose_def parked_def ledger_attempt Let_def settle_ledger_ok close_ledger_ok)

lemma dispatchNonStreaming_parked:
  assumes "balanced others (ledger w)"
  shows "parked others (snd (dispatchNonStreaming cfg c resp body i hasMore ae now w))"
proof -
  have r: "parked others (snd (rejectAndClose cfg c resp b fault i now w))" for b fault
    by (rule rejectAndClose_parked [OF assms])
  have b: "balanced others (ledger (handleNonStreamingResponse cfg resp b ans i now
      (on_attempt hold_slot (deferAnswerJudgement c (rs_status resp) w))))" for b ans
    using assms by (simp add: handleNonStreamingResponse_def deferAnswerJudgement_def Let_def hold_ledger_ok close_ledger_ok)
  show ?thesis using r settled_parked [OF b]
    by (simp add: dispatchNonStreaming_def Let_def split: option.split)
qed

lemma handleStreaming_parked:
  assumes "balanced others (ledger w)" shows "parked others (handleStreamingResponse cfg c resp body end' i now w)"
  using assms by (simp add: handleStreamingResponse_def finalizeStream_def parked_def Let_def settle_ledger_ok close_ledger_ok hold_ledger_ok)

lemma dispatchStreaming_parked:
  assumes "balanced others (ledger w)" shows "parked others (snd (dispatchStreaming cfg c resp body i ae now w))"
proof -
  have h: "balanced others (ledger (on_attempt hold_slot w))" using assms by (simp add: hold_ledger_ok)
  have p: "parked others (fail_probe cfg c s i re charged now (on_attempt (close_body cfg now body)
      ((on_attempt hold_slot w)\<lparr>lw_tick := n\<rparr>)))" for s re charged n
    using h by (simp add: fail_probe_def parked_def Let_def settle_ledger_ok close_ledger_ok)
  show ?thesis using handleStreaming_parked [OF assms] handleStreaming_parked [OF h] p
    by (simp add: dispatchStreaming_def moment_def case_prod_beta Let_def split: option.split)
qed

lemma drained_parked:
  assumes "balanced others (ledger w)" "carried body (ledger w)"
  shows "parked others (snd (failOverPastCandidate cfg c resp body i rl now w))"
    "parked others (snd (forwardUpstreamError cfg c resp body i elig ae now w))"
    "deferLastCandidateRetry cfg c resp body i rl now w = Some r \<Longrightarrow> parked others (snd r)"
proof -
  show "parked others (snd (failOverPastCandidate cfg c resp body i rl now w))"
    by (rule closed_parked [OF assms]) (simp add: failOverPastCandidate_def Let_def)
  show "parked others (snd (forwardUpstreamError cfg c resp body i elig ae now w))"
    by (rule closed_parked [OF assms]) (simp add: forwardUpstreamError_def writeOpenAIError_def case_prod_beta Let_def)
  have "ledger (w\<lparr>lw_st := (lw_st w)\<lparr>st_saturationRetried := True\<rparr>\<rparr>) = ledger w"
    "ledger (w\<lparr>lw_st := (lw_st w)\<lparr>st_serverErrorRetried := True\<rparr>\<rparr>) = ledger w"
    by (simp_all add: ledger_def ledger_of_def)
  then show "parked others (snd r)" if "deferLastCandidateRetry cfg c resp body i rl now w = Some r"
    using that closed_parked [OF assms]
    by (auto simp: deferLastCandidateRetry_def deferSaturatedRetry_def deferServerErrorRetry_def closeDeferredAttempt_def Let_def
        split: if_splits)
qed

lemma end_attempt_parked:
  assumes "balanced others (ledger w)" "carried body (ledger w)"
  shows "parked others (snd (end_attempt cfg c i hasMore elig ae resp body rl now w))"
  using drained_parked [OF assms] dispatchStreaming_parked [OF assms(1)] rejectAndClose_parked [OF assms(1)]
    dispatchNonStreaming_parked [OF assms(1)]
  by (simp add: end_attempt_def split: option.split)

lemma receive_response_ledger:
  assumes "receive_response resp now w = (body, w')" "balanced others (ledger w)" "\<And>s. st_attemptSlot (lw_st w) = Some s \<Longrightarrow> \<not> as_held s"
  shows "balanced others (ledger w')" "carried body (ledger w')"
proof -
  define l where "l = gw_inflight (lw_gw w')"
  have l: "ledger w' = (st_attemptSlot (lw_st w), l)" and body: "st_attemptSlot (lw_st w) \<noteq> None \<Longrightarrow> body \<noteq> None"
    and eq: "l = gw_inflight (lw_gw w) \<or> (\<exists>p. l = hintFull (gw_inflight (lw_gw w)) p now)"
    using assms(1) by (auto simp: receive_response_def finishAttemptAdmission_def ledger_def ledger_of_def l_def
        split: prod.splits option.splits if_splits)
  show "carried body (ledger w')" using l body assms(3) by (auto simp: carried_def)
  have hint: "balanced others (slot, x) \<Longrightarrow> balanced others (slot, hintFull x p now)" for slot x p
  proof (cases x)
    case (Some y)
    assume b: "balanced others (slot, x)"
    from hintFull_spec [OF refl, of y p now] obtain l' w' where
      "hintFull (Some y) p now = Some l'" "window_of l' = (window_of y)(p := w')" "iw_inflight w' = iw_inflight (window_of y p)" by blast
    with b Some show ?thesis by (auto simp: balanced_Some load_def)
  qed (simp add: hintFull_def)
  have "balanced others (st_attemptSlot (lw_st w), gw_inflight (lw_gw w))" using assms(2) by (simp add: ledger_def ledger_of_def)
  with eq hint l show "balanced others (ledger w')" by auto
qed

lemma judge_response_parked:
  assumes "balanced others (ledger w)" "\<And>s. st_attemptSlot (lw_st w) = Some s \<Longrightarrow> \<not> as_held s"
  shows "parked others (snd (judge_response cfg c i n ae resp w))"
proof -
  define m where "m = lw_env w (lw_tick w)"
  define resp' where "resp' = ae_remap ae resp"
  obtain body w2 where adm: "receive_response resp' (em_now m) (w\<lparr>lw_tick := Suc (lw_tick w)\<rparr>) = (body, w2)" by fastforce
  have L2: "balanced others (ledger w2)" "carried body (ledger w2)"
    using receive_response_ledger [OF adm, of others] assms by simp_all
  obtain rl st gw where j: "judge429AndRecordBreaker (lc_settings cfg) (lc_dates cfg) (lc_rng cfg) (em_now m) c resp'
      (shouldFailover (lc_settings cfg) (rs_status resp')) (lw_st w2, lw_gw w2) = (rl, st, gw)" by (metis prod_cases3)
  have L3: "balanced others (ledger_of (st, gw))" "carried body (ledger_of (st, gw))"
    using judge_ledger(1) [OF j, of others] judge_ledger(2) [OF j, of others body] L2 by simp_all
  have "ledger (w2\<lparr>lw_st := st, lw_gw := gw\<rparr>) = ledger_of (st, gw)" by (simp add: ledger_def)
  with end_attempt_parked [of others "w2\<lparr>lw_st := st, lw_gw := gw\<rparr>"] L3 L2 adm j show ?thesis
    by (simp add: judge_response_def moment_def m_def [symmetric] resp'_def [symmetric])
qed

text \<open>The slots of the others are as they left them when the attempt began.\<close>

lemma attemptCandidate_parked:
  fixes w :: world
  defines "gw \<equiv> ae_interference (em_attempt (lw_env w (lw_tick w))) (lw_gw w)"
  assumes "returned (ledger w)" "balanced others (None, gw_inflight gw)"
  shows "parked others (snd (attemptCandidate cfg c i n w))"
proof -
  let ?m = "lw_env w (lw_tick w)"
  define w0 where "w0 = open_attempt c i (em_now ?m) (w\<lparr>lw_tick := Suc (lw_tick w), lw_gw := gw\<rparr>)"
  have l0: "ledger w0 = (st_attemptSlot (lw_st w), gw_inflight gw)"
    by (simp add: w0_def open_attempt_def openAttemptRecord_def ledger_def ledger_of_def Let_def)
  have r0: "returned (ledger w0)" "balanced others (ledger w0)"
    using assms l0 by (cases "gw_inflight gw"; force simp: returned_def balanced_Some ledger_def ledger_of_def)+
  obtain ok st gw' where a: "admit_attempt c (lw_st w0, lw_gw w0) = (ok, st, gw')" by (metis prod_cases3)
  define w1 where "w1 = w0\<lparr>lw_st := st, lw_gw := gw'\<rparr>"
  have l1: "ledger w1 = ledger_of (st, gw')" by (simp add: w1_def ledger_def)
  note A = admit_ledger [OF a, of others, simplified, OF r0, folded l1]
  have held: "\<not> as_held s" if "ledger w2 = ledger w1" "st_attemptSlot (lw_st w2) = Some s" for w2 s
    using A(3) [of s] that by (simp add: ledger_def ledger_of_def w1_def)
  obtain b w2 where b: "beginAttempt cfg c i (em_attempt ?m) (em_now ?m) (w\<lparr>lw_tick := Suc (lw_tick w)\<rparr>) = (b, w2)" by fastforce
  have begin': "(\<exists>resp. b = began resp) \<and> ledger w2 = ledger w1 \<or> (\<forall>resp. b \<noteq> began resp) \<and> parked others w2"
  proof (cases ok)
    case True
    with b a have "send_attempt cfg c i (em_attempt ?m) (em_now ?m) w1 = (b, w2)"
      by (simp add: beginAttempt_def w0_def w1_def gw_def Let_def)
    from send_attempt_parked [OF this A(1)] show ?thesis by blast
  next
    case False
    with b a have "b = beganBusy" "w2 = skip_busy cfg c i (em_now ?m) w1"
      by (auto simp: beginAttempt_def w0_def w1_def gw_def Let_def)
    with skip_busy_parked [of others w1] A False show ?thesis by (auto simp: parked_def)
  qed
  show ?thesis
  proof (cases b)
    case (began resp)
    with begin' have L: "ledger w2 = ledger w1" by auto
    with A(1) have bal: "balanced others (ledger w2)" by simp
    have "parked others (fail_heal cfg c e now w2)" for e now
      using bal by (simp add: fail_heal_def parked_def Let_def settle_ledger_ok)
    with judge_response_parked [OF bal held [OF L]] b began show ?thesis
      by (simp add: attemptCandidate_def moment_def Let_def split: healResult.split)
  qed (use begin' b in \<open>auto simp: attemptCandidate_def moment_def Let_def\<close>)
qed

end
