(* ===== verification/Loop_Properties.thy ===== *)
theory Loop_Properties
  imports Attempt_Slots Attempt_Properties
begin

text \<open>
  The properties of the failover loop on the chat attempt: a request is answered exactly once and its
  loop returns, the candidates are tried in order, the last one is retried at most twice, an
  attempt gives its slot back, waits stay within their bounds.
\<close>

declare settleLastCandidateRetry.simps [code]
declare slot_loop.simps [code]

subsection \<open>A run to apply the properties to\<close>

text \<open>Two candidates. The provider of the first is at its window of one until the run's thirteenth
  moment. The second answers 503; every other connection breaks.\<close>

definition demo_config :: loopConfig where
  "demo_config = \<lparr>lc_settings = ex_settings, lc_status429 = True, lc_isFailover = True, lc_reqModel = ''m'',
     lc_fence = (\<lambda>t. t), lc_detail = (\<lambda>t. t), lc_mask = (\<lambda>t. t), lc_classify = (\<lambda>_ _ _. (KindProviderError, ''failed'')),
     lc_dates = ex_dates, lc_rng = ex_rng, lc_isStreaming = False,
     lc_ttftTimeout = 0, lc_stallTimeout = 0, lc_hint = (\<lambda>_ _. [])\<rparr>"

definition demo_limiter :: "int \<Rightarrow> inflightLimiter" where
  "demo_limiter n = \<lparr>il_windows = [(''A'', \<lparr>iw_limit = 1, iw_inflight = n, iw_goodRuns = 0, iw_lastCut = 0\<rparr>)], il_notify = 0\<rparr>"

definition demo_candidate :: "string \<Rightarrow> modelCandidate" where
  "demo_candidate p = \<lparr>mc_providerID = p, mc_providerName = p, mc_model = ''m'', mc_maxInFlight = None\<rparr>"

definition demo_resp :: "int \<Rightarrow> upstreamResp" where
  "demo_resp status' = \<lparr>rs_status = status', rs_header = (\<lambda>_. []), rs_head = []\<rparr>"

definition demo_try :: "nat \<Rightarrow> upstreamTry" where
  "demo_try n = \<lparr>ut_result = (if n = 3 then Inr (demo_resp 503)
       else Inl \<lparr>te_context = False, te_timeout = False, te_conn = False, te_wrote = True, te_text = ''broken''\<rparr>), ut_ctx = None, ut_ctxAfter = None\<rparr>"

definition demo_attempt :: "nat \<Rightarrow> attemptEnv" where
  "demo_attempt n = \<lparr>ae_interference = (\<lambda>g. g), ae_build = None, ae_tries = (\<lambda>_. demo_try n), ae_responsesOnly = False,
     ae_heal = healNone, ae_remap = (\<lambda>r. r), ae_body = [], ae_errorObject = False, ae_jsonValid = False,
     ae_translation = None, ae_fault = None,
     ae_answer = \<lparr>ans_completed = True, ans_kind = None, ans_empty = False, ans_logMsg = [], ans_reason = []\<rparr>,
     ae_probe = None, ae_stream = \<lparr>se_state = ex_stream, se_kind = None, se_errMsg = []\<rparr>\<rparr>"

definition demo_env :: "nat \<Rightarrow> attemptEnv envMoment" where
  "demo_env n = \<lparr>em_now = int n, em_done = False, em_jitter = 0,
     em_limiter = Some (demo_limiter (if n = 12 then 0 else 1)), em_attempt = demo_attempt n\<rparr>"

definition demo_world :: world where
  "demo_world = \<lparr>lw_env = demo_env, lw_tick = 0,
     lw_st = ex_state\<lparr>st_circuitBreakerEnabled := False, st_attemptSlot := None, st_overallDeadline := 10 * minute\<rparr>,
     lw_gw = ex_gateway\<lparr>gw_inflight := Some (demo_limiter 1)\<rparr>,
     lw_log = \<lparr>lg_providerID = [], lg_providerName = [], lg_openAttempt = None, lg_attempts = [], lg_attemptStarted = 0,
       lg_attemptStatus = 0, lg_statusCode = 0, lg_errorKind = None, lg_errorMessage = [], lg_failoverAttempt = 0,
       lg_state = logPending, lg_emptyCompletion = False, lg_judge = None\<rparr>,
     lw_answers = [], lw_waits = []\<rparr>"

definition demo_run :: "world option" where
  "demo_run = runFailoverLoop demo_config (attemptCandidate demo_config) [demo_candidate ''A'', demo_candidate ''B''] demo_world"

lemma demo_keeps [simp]: "idle demo_world" "lw_env demo_world = demo_env" "time_passes demo_env"
proof -
  show "idle demo_world" "lw_env demo_world = demo_env" by (simp_all add: idle_def demo_world_def)
  have "\<exists>n. t \<le> int n" for t :: int by (rule exI [of _ "nat t"]) simp
  then show "time_passes demo_env" by (simp add: time_passes_def demo_env_def)
qed

subsection \<open>The loop\<close>

text \<open>A chat request with any number of candidates ends, and its client is answered exactly once:
  whatever the providers, the network, the other requests and the client do, the failover loop
  returns and has written one answer more than before. Time passing is all it needs, and it needs
  it only to give up waiting for a busy provider.\<close>

theorem request_answered_once:
  assumes "lg_openAttempt (lw_log w) = None" "time_passes (lw_env w)"
  shows "\<exists>w' a. runFailoverLoop cfg (attemptCandidate cfg) cands w = Some w' \<and> lw_answers w' = lw_answers w @ [a]"
proof -
  obtain w' tr where "runFailoverLoop cfg (attemptCandidate cfg) cands w = Some w'" "course w tr True w'"
    using chat.runFailoverLoop_course [of w cfg cfg cands] assms unfolding idle_def by blast
  then show ?thesis by (auto simp: course_def length_Suc_conv)
qed

theorem request_answered_once_witness: "\<exists>w a. demo_run = Some w \<and> lw_answers w = [a]"
  using request_answered_once [of demo_world demo_config "[demo_candidate ''A'', demo_candidate ''B'']"]
    demo_keeps [unfolded idle_def]
  by (simp add: demo_run_def) (simp add: demo_world_def)

text \<open>C7: the attempts a request makes are, in this order, a prefix of its candidates, each once and
  numbered from 0; then at most two retries of the last candidate, no more than the request's unspent
  one-shot retries; then attempts on candidates that were busy. Retries and freed slots are tried only after
  every candidate was, and every attempt is on the trail with its number, provider and model.\<close>

theorem candidates_tried_in_order:
  assumes "lg_openAttempt (lw_log w) = None" "time_passes (lw_env w)"
    "runFailoverLoop cfg (attemptCandidate cfg) cands w = Some w'"
  shows "\<exists>k retries slots.
     trail_of (lw_log w') = trail_of (lw_log w) @ numbered 0 (take k cands) @
       numbered (int (length cands)) retries @ numbered (int (length cands)) slots \<and>
     set retries \<subseteq> {last cands} \<and>
     length retries \<le> of_bool (\<not> st_saturationRetried (lw_st w)) + of_bool (\<not> st_serverErrorRetried (lw_st w)) \<and>
     set slots \<subseteq> set cands \<and> (retries \<noteq> [] \<or> slots \<noteq> [] \<longrightarrow> k = length cands)"
proof -
  obtain k retries slots where
    "course w (numbered 0 (take k cands) @ numbered (int (length cands)) retries @ numbered (int (length cands)) slots) True w'"
    "set retries \<subseteq> {last cands} \<and> length retries \<le> retries_left (lw_st w) \<and> set slots \<subseteq> set cands \<and>
     (retries \<noteq> [] \<or> slots \<noteq> [] \<longrightarrow> k = length cands)"
    using chat.runFailoverLoop_course [of w cfg cfg cands] assms unfolding idle_def by auto
  then show ?thesis unfolding course_def retries_left_def by blast
qed

theorem candidates_tried_in_order_witness:
  "\<exists>w k retries slots. demo_run = Some w \<and>
     trail_of (lw_log w) = numbered 0 (take k [demo_candidate ''A'', demo_candidate ''B'']) @ numbered 2 retries @ numbered 2 slots \<and>
     length retries \<le> 2"
proof -
  obtain w where r: "demo_run = Some w"
    using chat.runFailoverLoop_course [of demo_world demo_config demo_config "[demo_candidate ''A'', demo_candidate ''B'']"]
    by (auto simp: demo_run_def)
  have o: "lg_openAttempt (lw_log demo_world) = None" "time_passes (lw_env demo_world)"
    using demo_keeps by (simp_all add: demo_world_def)
  have t: "trail_of (lw_log demo_world) = []" by (simp add: demo_world_def trail_of_def)
  obtain k retries slots where
    "trail_of (lw_log w) = numbered 0 (take k [demo_candidate ''A'', demo_candidate ''B'']) @ numbered 2 retries @ numbered 2 slots"
    "length retries \<le> of_bool (\<not> st_saturationRetried (lw_st demo_world)) + of_bool (\<not> st_serverErrorRetried (lw_st demo_world))"
    using candidates_tried_in_order [OF o r [unfolded demo_run_def]] unfolding t by auto
  moreover have "of_bool b + of_bool c \<le> (2 :: nat)" for b c by simp
  ultimately show ?thesis using r by (meson order_trans)
qed

text \<open>The numbers of the attempts are not all different. When a busy candidate was skipped and the last
  candidate has been retried without success, the attempt on the freed slot starts again at the number
  of candidates, which the retry already had.\<close>

theorem attempt_number_reused:
  "map_option (\<lambda>w. map (\<lambda>r. (ar_Attempt r, ar_Provider r)) (lg_attempts (lw_log w))) demo_run =
     Some [(0, ''A''), (1, ''B''), (2, ''B''), (2, ''A'')]"
  by code_simp

subsection \<open>Waits\<close>

lemma Duration_of_float_int: "Duration_of_float (of_int n) = (if in_int64 n then n else minDuration)"
  by (simp add: Duration_of_float_def Let_def)

lemma jitter_range: "0 \<le> jitter mod (100 * millisecond)" "jitter mod (100 * millisecond) < 100 * millisecond"
  by (simp_all add: millisecond_def)

lemma first_backoffs:
  assumes "1 \<le> contacted" "contacted \<le> 37"
  shows "failoverBackoff (100 * millisecond) (2 * second) contacted jitter =
           min (100 * millisecond * 2 ^ nat (contacted - 1)) (2 * second) + jitter mod (100 * millisecond)"
proof -
  define e :: int where "e = 2 ^ nat (contacted - 1)"
  have "nat (contacted - 1) \<le> 36" using assms by simp
  then have "e \<le> 2 ^ 36" unfolding e_def by (rule power_increasing) simp
  moreover have "1 \<le> e" by (simp add: e_def)
  ultimately have "in_int64 (100 * millisecond * e)"
    "in_int64 (min (100 * millisecond * e) (2 * second) + jitter mod (100 * millisecond))"
    using jitter_range [of jitter] unfolding in_int64_def millisecond_def second_def by auto
  then show ?thesis
    unfolding failoverBackoff_def Duration_of_float_int e_def [symmetric] by (simp add: wrap64_id)
qed

text \<open>The wait before the next candidate doubles with every candidate that was contacted, from a tenth
  of a second up to two seconds, and a jitter of less than a tenth of a second is added, for the first
  thirty-seven of them.\<close>

theorem failover_backoff_bounds:
  assumes "1 \<le> contacted" "contacted \<le> 37"
  shows "failoverBackoff (100 * millisecond) (2 * second) contacted jitter =
           min (100 * millisecond * 2 ^ nat (contacted - 1)) (2 * second) + jitter mod (100 * millisecond) \<and>
         100 * millisecond \<le> failoverBackoff (100 * millisecond) (2 * second) contacted jitter \<and>
         failoverBackoff (100 * millisecond) (2 * second) contacted jitter < 2 * second + 100 * millisecond"
proof -
  define e :: int where "e = 2 ^ nat (contacted - 1)"
  have "1 \<le> e" by (simp add: e_def)
  with jitter_range [of jitter] show ?thesis
    unfolding first_backoffs [OF assms] e_def [symmetric] by (auto simp: millisecond_def second_def min_def)
qed

theorem failover_backoff_bounds_witness:
  "failoverBackoff (100 * millisecond) (2 * second) 3 7 = 400 * millisecond + 7"
  using failover_backoff_bounds [of 3 7] by (simp add: millisecond_def second_def)

text \<open>Past that the wait is lost: from the thirty-eighth contacted candidate on the power leaves the range
  of an integer and, on amd64, the cap at two seconds keeps the smallest integer instead, so the wait is
  negative and the next candidate is tried at once.\<close>

theorem failover_backoff_overflow:
  assumes "38 \<le> contacted"
  shows "failoverBackoff (100 * millisecond) (2 * second) contacted jitter < 0"
proof -
  have "(2 :: int) ^ 37 \<le> 2 ^ nat (contacted - 1)" using assms by (intro power_increasing) simp_all
  then have "\<not> in_int64 (100 * millisecond * 2 ^ nat (contacted - 1))"
    unfolding in_int64_def millisecond_def by auto
  then have "Duration_of_float (of_int (100 * millisecond * 2 ^ nat (contacted - 1))) = minDuration"
    unfolding Duration_of_float_int by simp
  then show ?thesis using jitter_range [of jitter]
    unfolding failoverBackoff_def by (simp add: minDuration_def second_def millisecond_def wrap64_id in_int64_def)
qed

theorem failover_backoff_overflow_witness: "failoverBackoff (100 * millisecond) (2 * second) 38 0 < 0"
  using failover_backoff_overflow [of 38 0] by simp

text \<open>A retry of the last candidate never starts a wait that the request's deadline cannot hold: the wait it
  is given is not negative and leaves the least round before the deadline, a wait the provider asked
  for is kept whole, and a wait of the gateway's own only ever shortens.\<close>

theorem retry_wait_fits:
  assumes "fit_wait deadline now wait yields = Some d" "wait \<le> maxDuration - retryMinRound" "\<bar>deadline - now\<bar> < maxDuration - retryMinRound"
  shows "0 \<le> d \<and> now + d + retryMinRound \<le> deadline \<and> d \<le> wait \<and> (\<not> yields \<longrightarrow> d = wait)"
proof -
  have r: "time_sub deadline now = deadline - now"
    using assms(3) by (intro time_sub_exact) (simp add: retryMinRound_def millisecond_def)
  have w1: "wrap64 (deadline - now - retryMinRound) = deadline - now - retryMinRound"
    using assms(3) by (intro wrap64_id) (simp add: in_int64_def retryMinRound_def millisecond_def maxDuration_def abs_less_iff)
  have w2: "wrap64 (x + retryMinRound) = x + retryMinRound" if "0 \<le> x" "x \<le> wait" for x
    using that assms(2) by (intro wrap64_id) (simp add: in_int64_def retryMinRound_def millisecond_def maxDuration_def)
  show ?thesis using assms(1) w2 [of d]
    by (auto simp: fit_wait_def Let_def r w1 split: if_splits)
qed

theorem retry_wait_fits_witness:
  "fit_wait (3 * second) second (5 * second) True = Some (2 * second - retryMinRound) \<and> 0 \<le> 2 * second - retryMinRound"
proof -
  have "fit_wait (3 * second) second (5 * second) True = Some (2 * second - retryMinRound)"
    by (simp add: fit_wait_def time_sub_def wrap64_def second_def retryMinRound_def millisecond_def maxDuration_def minDuration_def)
  then show ?thesis using retry_wait_fits [of "3 * second" second "5 * second" True]
    by (simp add: second_def retryMinRound_def millisecond_def maxDuration_def)
qed

subsection \<open>Slots\<close>

text \<open>C8: an attempt gives back the in-flight slot it took. However it ends, answered or refused, failed over, retried,
  streamed or broken, afterwards no slot of it is out and every provider's load is what the other requests
  had when it began.\<close>

theorem attempt_gives_its_slot_back:
  fixes w :: world
  defines "others \<equiv> ae_interference (em_attempt (lw_env w (lw_tick w))) (lw_gw w)"
  assumes "\<And>s. st_attemptSlot (lw_st w) = Some s \<Longrightarrow> as_fired s"
    "gw_inflight others = Some l" "\<And>p. 0 \<le> iw_inflight (window_of l p)"
  shows "\<exists>l'. gw_inflight (lw_gw (snd (attemptCandidate cfg cand attempt n w))) = Some l' \<and>
     (\<forall>s. st_attemptSlot (lw_st (snd (attemptCandidate cfg cand attempt n w))) = Some s \<longrightarrow> as_fired s) \<and>
     (\<forall>p. iw_inflight (window_of l' p) = iw_inflight (window_of l p))"
proof -
  let ?w = "snd (attemptCandidate cfg cand attempt n w)"
  have "returned (ledger w)" using assms(2) by (simp add: returned_def ledger_def ledger_of_def)
  moreover have "balanced (Some (load l)) (None, gw_inflight others)" using assms(3,4) by (simp add: balanced_Some load_def)
  ultimately have "parked (Some (load l)) ?w" unfolding others_def by (rule attemptCandidate_parked)
  then have b: "balanced (Some (load l)) (st_attemptSlot (lw_st ?w), gw_inflight (lw_gw ?w))"
    and r: "\<forall>s. st_attemptSlot (lw_st ?w) = Some s \<longrightarrow> as_fired s"
    by (auto simp: parked_def returned_def ledger_def ledger_of_def)
  then show ?thesis by (cases "gw_inflight (lw_gw ?w)") (auto simp: balanced_Some load_def)
qed

theorem attempt_gives_its_slot_back_witness:
  "\<exists>l. gw_inflight (lw_gw (snd (attemptCandidate demo_config (demo_candidate ''A'') 0 1
          (demo_world\<lparr>lw_gw := ex_gateway\<lparr>gw_inflight := Some (demo_limiter 0)\<rparr>\<rparr>)))) = Some l \<and>
       iw_inflight (window_of l ''A'') = 0"
proof -
  let ?w = "demo_world\<lparr>lw_gw := ex_gateway\<lparr>gw_inflight := Some (demo_limiter 0)\<rparr>\<rparr>"
  have "ae_interference (em_attempt (lw_env ?w (lw_tick ?w))) (lw_gw ?w) = lw_gw ?w" "st_attemptSlot (lw_st ?w) = None"
    by (simp_all add: demo_world_def demo_env_def demo_attempt_def)
  moreover have "iw_inflight (window_of (demo_limiter 0) p) = 0" for p
    by (simp add: window_of_def demo_limiter_def zeroWindow_def)
  ultimately show ?thesis
    using attempt_gives_its_slot_back [of ?w "demo_limiter 0" demo_config "demo_candidate ''A''" 0 1] by auto
qed

end
