(* ===== verification/Row_Readers.thy ===== *)
theory Row_Readers
  imports Model_Cache Provider_Cache Failover_Store
begin

text \<open>
  The read-through readers of models and providers (\<open>internal/model/model.go\<close>,
  \<open>internal/provider/provider.go\<close>) on the request path: a cached row is answered from the cache,
  the others are queried and cached under the generation read before the query. The store is the
  world of the group repository with the two row caches; \<open>sr_columns\<close> has the columns of the
  providers table that repository does not read. A \<open>NULL\<close> in the \<open>enabled\<close> column cannot be scanned
  into a Go \<open>bool\<close>. A reader runs undisturbed.
\<close>

record Model = ModelRow +
  m_Enabled :: bool
  m_ProviderEnabled :: bool

record Provider = ProviderRow +
  p_Enabled :: bool
  p_MaxInFlight :: "int option"
  p_EncryptedKey :: string

record providerColumns =
  pc_max_in_flight :: "int option"
  pc_encrypted_key :: string
  pc_last_used_at :: "instant option"

record store =
  sr_world :: world
  sr_models :: "unit Model_ext model_cache"
  sr_providers :: "unit Provider_ext provider_cache"
  sr_columns :: "uuid \<Rightarrow> providerColumns"

definition sr_now :: "store \<Rightarrow> instant" where "sr_now s = w_clock (sr_world s)"

definition statement_fault :: "store \<Rightarrow> string option \<times> store" where
  "statement_fault s = (case next_fault (sr_world s) of (e, w) \<Rightarrow> (e, s\<lparr>sr_world := w\<rparr>))"

text \<open>The multi-row loop of a query: the first row that cannot be read ends it.\<close>

fun scan_rows :: "('r \<Rightarrow> db_error + 'a) \<Rightarrow> 'r list \<Rightarrow> db_error + 'a list" where
  "scan_rows scan [] = Inr []"
| "scan_rows scan (r # rs) =
     (case scan r of
        Inl e \<Rightarrow> Inl e
      | Inr x \<Rightarrow> (case scan_rows scan rs of Inl e \<Rightarrow> Inl e | Inr xs \<Rightarrow> Inr (x # xs)))"

subsection \<open>Models\<close>

text \<open>The rows of \<open>models m JOIN providers p ON m.provider_id = p.id\<close>.\<close>

definition joined_models :: "world \<Rightarrow> (model_row \<times> provider_row) list" where
  "joined_models w =
     concat (map (\<lambda>m. map (\<lambda>p. (m, p)) (filter (\<lambda>p. pr_id p = mr_provider_id m) (w_providers w))) (w_models w))"

definition scanModel :: "model_row \<times> provider_row \<Rightarrow> db_error + Model" where
  "scanModel r = (case r of (m, p) \<Rightarrow>
     (case mr_enabled m of
        None \<Rightarrow> Inl (ScanError ''enabled'')
      | Some b \<Rightarrow> Inr \<lparr>m_ID = mr_id m, m_ProviderID = mr_provider_id m, m_ModelID = mr_model_id m,
                      m_Enabled = b, m_ProviderEnabled = is_true (pr_enabled p)\<rparr>))"

definition scanModels :: "(model_row \<times> provider_row) list \<Rightarrow> db_error + Model list" where
  "scanModels = scan_rows scanModel"

definition query_model :: "(model_row \<Rightarrow> bool) \<Rightarrow> store \<Rightarrow> (db_error + Model) \<times> store" where
  "query_model P s =
     (case statement_fault s of
        (Some e, s) \<Rightarrow> (Inl (DbError e), s)
      | (None, s) \<Rightarrow>
          ((case find (\<lambda>r. P (fst r)) (joined_models (sr_world s)) of None \<Rightarrow> Inl ErrNoRows | Some r \<Rightarrow> scanModel r), s))"

definition Model_Get :: "uuid \<Rightarrow> store \<Rightarrow> (db_error + Model) \<times> store" where
  "Model_Get i s =
     (case GetCachedByUUID (sr_models s) i (sr_now s) of
        Some m \<Rightarrow> (Inr m, s)
      | None \<Rightarrow>
          (let gen = Model_CacheGen (sr_models s)
           in case query_model (\<lambda>r. mr_id r = i) s of
                (Inl e, s) \<Rightarrow> (Inl e, s)
              | (Inr m, s) \<Rightarrow> (Inr m, s\<lparr>sr_models := cacheModelByUUIDAt (sr_now s) (Some m) gen (sr_models s)\<rparr>)))"

definition cached_rows :: "(uuid \<Rightarrow> 'a option) \<Rightarrow> uuid list \<Rightarrow> 'a gomap" where
  "cached_rows cached ids = fold (\<lambda>i r. case cached i of Some x \<Rightarrow> gm_put i x r | None \<Rightarrow> r) ids []"

definition Model_GetByIDs :: "uuid list \<Rightarrow> store \<Rightarrow> (db_error + Model gomap) \<times> store" where
  "Model_GetByIDs ids s =
     (if ids = [] then (Inr [], s)
      else
        (let cached = (\<lambda>i. GetCachedByUUID (sr_models s) i (sr_now s));
             uncached = filter (\<lambda>i. cached i = None) ids;
             result = cached_rows cached ids
         in if uncached = [] then (Inr result, s)
            else
              (let gen = Model_CacheGen (sr_models s)
               in case statement_fault s of
                    (Some e, s) \<Rightarrow> (Inl (DbError e), s)
                  | (None, s) \<Rightarrow>
                      (case scanModels (filter (\<lambda>r. mr_id (fst r) \<in> set uncached) (joined_models (sr_world s))) of
                         Inl e \<Rightarrow> (Inl e, s)
                       | Inr ms \<Rightarrow>
                           (Inr (fold (\<lambda>m. gm_put (m_ID m) m) ms result),
                            s\<lparr>sr_models := WarmModelCacheAt (sr_now s) ms gen (sr_models s)\<rparr>)))))"

definition GetByProviderAndModelID :: "uuid \<Rightarrow> string \<Rightarrow> store \<Rightarrow> (db_error + Model) \<times> store" where
  "GetByProviderAndModelID providerID modelID s =
     (case GetCachedByCompositeKey (sr_models s) providerID modelID (sr_now s) of
        Some m \<Rightarrow> (Inr m, s)
      | None \<Rightarrow>
          (let gen = Model_CacheGen (sr_models s)
           in case query_model (\<lambda>r. mr_provider_id r = providerID \<and> mr_model_id r = modelID) s of
                (Inl e, s) \<Rightarrow> (Inl e, s)
              | (Inr m, s) \<Rightarrow>
                  (Inr m, s\<lparr>sr_models := cacheModelByUUIDAt (sr_now s) (Some m) gen
                     (cacheModelByCompositeKeyAt (sr_now s) providerID modelID (Some m) gen (sr_models s))\<rparr>)))"

subsection \<open>Providers\<close>

definition scanProvider :: "(uuid \<Rightarrow> providerColumns) \<Rightarrow> provider_row \<Rightarrow> db_error + Provider" where
  "scanProvider columns r =
     (case pr_enabled r of
        None \<Rightarrow> Inl (ScanError ''enabled'')
      | Some b \<Rightarrow> Inr \<lparr>p_ID = pr_id r, p_Name = pr_name r, p_LastUsedAt = pc_last_used_at (columns (pr_id r)),
                      p_Enabled = b, p_MaxInFlight = pc_max_in_flight (columns (pr_id r)),
                      p_EncryptedKey = pc_encrypted_key (columns (pr_id r))\<rparr>)"

definition cache_provider :: "CacheMark \<Rightarrow> Provider \<Rightarrow> store \<Rightarrow> store" where
  "cache_provider gen p s = s\<lparr>sr_providers := fst (cacheProviderAt (sr_now s) (Some p) gen (sr_providers s))\<rparr>"

definition query_provider :: "(provider_row \<Rightarrow> bool) \<Rightarrow> store \<Rightarrow> (db_error + Provider) \<times> store" where
  "query_provider P s =
     (case statement_fault s of
        (Some e, s) \<Rightarrow> (Inl (DbError e), s)
      | (None, s) \<Rightarrow>
          ((case find P (w_providers (sr_world s)) of None \<Rightarrow> Inl ErrNoRows | Some r \<Rightarrow> scanProvider (sr_columns s) r), s))"

definition Provider_Get :: "uuid \<Rightarrow> store \<Rightarrow> (db_error + Provider) \<times> store" where
  "Provider_Get i s =
     (case GetCachedByID (sr_providers s) i (sr_now s) of
        Some p \<Rightarrow> (Inr p, s)
      | None \<Rightarrow>
          (let gen = Provider_CacheGen (sr_providers s)
           in case query_provider (\<lambda>r. pr_id r = i) s of
                (Inl e, s) \<Rightarrow> (Inl e, s)
              | (Inr p, s) \<Rightarrow> (Inr p, cache_provider gen p s)))"

text \<open>The loop over the rows caches each as it is read.\<close>

fun take_providers :: "CacheMark \<Rightarrow> provider_row list \<Rightarrow> Provider gomap \<Rightarrow> store \<Rightarrow> (db_error + Provider gomap) \<times> store" where
  "take_providers gen [] result s = (Inr result, s)"
| "take_providers gen (r # rs) result s =
     (case scanProvider (sr_columns s) r of
        Inl e \<Rightarrow> (Inl e, s)
      | Inr p \<Rightarrow> take_providers gen rs (gm_put (p_ID p) p result) (cache_provider gen p s))"

definition Provider_GetByIDs :: "uuid list \<Rightarrow> store \<Rightarrow> (db_error + Provider gomap) \<times> store" where
  "Provider_GetByIDs ids s =
     (if ids = [] then (Inr [], s)
      else
        (let cached = (\<lambda>i. GetCachedByID (sr_providers s) i (sr_now s));
             uncached = filter (\<lambda>i. cached i = None) ids;
             result = cached_rows cached ids
         in if uncached = [] then (Inr result, s)
            else
              (let gen = Provider_CacheGen (sr_providers s)
               in case statement_fault s of
                    (Some e, s) \<Rightarrow> (Inl (DbError e), s)
                  | (None, s) \<Rightarrow>
                      take_providers gen (filter (\<lambda>r. pr_id r \<in> set uncached) (w_providers (sr_world s))) result s)))"

definition GetByName :: "string \<Rightarrow> store \<Rightarrow> (db_error + Provider) \<times> store" where
  "GetByName name s =
     (case GetCachedByName (sr_providers s) name (sr_now s) of
        Some p \<Rightarrow> (Inr p, s)
      | None \<Rightarrow>
          (let gen = Provider_CacheGen (sr_providers s)
           in case query_provider (\<lambda>r. pr_name r = name) s of
                (Inr p, s) \<Rightarrow> (Inr p, cache_provider gen p s)
              | (Inl e, s) \<Rightarrow>
                  if e \<noteq> ErrNoRows then (Inl e, s)
                  else (case query_provider (\<lambda>r. NormalizeName (pr_name r) = NormalizeName name) s of
                          (Inl e, s) \<Rightarrow> (Inl e, s)
                        | (Inr p, s) \<Rightarrow> (Inr p, cache_provider gen p s))))"

end
