(* ===== verification/Resolve.thy ===== *)
theory Resolve
  imports Failover_Loop Row_Readers
begin

text \<open>
  From the model a request names to its candidates (\<open>internal/proxy\<close>: \<open>resolve.go\<close> and the second half
  of \<open>proxy_request.go\<close>): the failover group or the provider, the rows of its members, the circuit
  breaker's refusals, the allow-lists of the key and of its owner; then the per-request knobs and
  the failover loop. The breaker is shared: before each entry other requests may have changed it
  (\<open>rm_others\<close>), and each of its calls reads its own clock. \<open>DecryptCached\<close> is an argument; timings,
  cache-hit marks and the decrypted key itself are left out.
\<close>

subsection \<open>What the breaker skipped\<close>

record skippedCandidate =
  sc_providerID :: uuid
  sc_providerName :: string
  sc_model :: string
  sc_retryAt :: instant
  sc_pinned :: bool
  sc_dated :: bool

record breakerSkipSummary =
  bk_skips :: nat
  bk_earliestRetry :: instant
  bk_allPinned :: bool
  bk_skipped :: "skippedCandidate list"

definition no_skips :: breakerSkipSummary where
  "no_skips = \<lparr>bk_skips = 0, bk_earliestRetry = 0, bk_allPinned = False, bk_skipped = []\<rparr>"

definition skip_note :: "instant \<Rightarrow> bool \<Rightarrow> bool \<Rightarrow> breakerSkipSummary \<Rightarrow> breakerSkipSummary" where
  "skip_note retryAt pinned ok s =
     (let s = (if bk_skips s = 0 then s\<lparr>bk_allPinned := True\<rparr> else s);
          s = s\<lparr>bk_skips := bk_skips s + 1\<rparr>
      in if \<not> ok then s\<lparr>bk_allPinned := False\<rparr>
         else
           (let s = (if bk_earliestRetry s = 0 \<or> retryAt < bk_earliestRetry s then s\<lparr>bk_earliestRetry := retryAt\<rparr> else s)
            in if \<not> pinned then s\<lparr>bk_allPinned := False\<rparr> else s))"

definition only :: "(uuid \<Rightarrow> bool) \<Rightarrow> breakerSkipSummary \<Rightarrow> breakerSkipSummary" where
  "only keep s =
     fold (\<lambda>c out. if keep (sc_providerID c) then skip_note (sc_retryAt c) (sc_pinned c) (sc_dated c) out else out)
       (bk_skipped s) no_skips"

subsection \<open>The environment\<close>

record resolveMoment =
  rm_others :: "CircuitBreaker \<Rightarrow> CircuitBreaker"
  rm_read :: instant
  rm_write :: instant
  rm_blocked :: instant

record resolveEnv =
  rz_moment :: "nat \<Rightarrow> resolveMoment"
  rz_breakerEnabled :: bool
  rz_decrypt :: "string \<Rightarrow> string + string"

datatype resolveError = notFoundError string | dbFault db_error | keyFault string

subsection \<open>Selecting\<close>

definition enabledEntryIDs :: "FailoverGroup \<Rightarrow> uuid list" where
  "enabledEntryIDs fg = filter (IsEntryEnabled fg) (fg_PriorityOrder fg)"

text \<open>The keys of the set in the order they were first met; the source's order is that of a Go map.\<close>

definition providerIDsFor :: "uuid list \<Rightarrow> Model gomap \<Rightarrow> uuid list" where
  "providerIDsFor ids models =
     fold (\<lambda>i ps. case gm_get models i of
         None \<Rightarrow> ps
       | Some m \<Rightarrow> if m_Enabled m \<and> m_ProviderEnabled m \<and> m_ProviderID m \<notin> set ps then ps @ [m_ProviderID m] else ps) ids []"

definition lookupFailoverGroup :: "string \<Rightarrow> store \<Rightarrow> (resolveError + FailoverGroup) \<times> store" where
  "lookupFailoverGroup displayModel s =
     (case GetByModel displayModel (sr_world s) of
        (Inl e, w) \<Rightarrow>
          (Inl (if e = ErrNoRows then notFoundError (''model not found: hotel/'' @ displayModel) else dbFault e),
           s\<lparr>sr_world := w\<rparr>)
      | (Inr fg, w) \<Rightarrow>
          (if \<not> fg_GroupEnabled fg then Inl (notFoundError ''failover group disabled'')
           else if fg_PriorityOrder fg = [] then Inl (notFoundError ''no entries in failover group'')
           else Inr fg,
           s\<lparr>sr_world := w\<rparr>))"

definition decryptProviderKey :: "resolveEnv \<Rightarrow> Provider \<Rightarrow> string + string" where
  "decryptProviderKey env p = (if p_EncryptedKey p = [] then Inr [] else rz_decrypt env (p_EncryptedKey p))"

definition candidate_of :: "Model \<Rightarrow> Provider \<Rightarrow> modelCandidate" where
  "candidate_of m p = \<lparr>mc_providerID = p_ID p, mc_providerName = p_Name p, mc_model = m_ModelID m, mc_maxInFlight = p_MaxInFlight p\<rparr>"

subsection \<open>Building the candidates\<close>

record buildState =
  bd_breaker :: CircuitBreaker
  bd_emitted :: afterUnlock
  bd_skips :: breakerSkipSummary
  bd_candidates :: "modelCandidate list"
  bd_decryptFailures :: nat

text \<open>The row pair an entry stands for, when both are there and switched on.\<close>

definition entry_rows :: "Model gomap \<Rightarrow> Provider gomap \<Rightarrow> uuid \<Rightarrow> (Model \<times> Provider) option" where
  "entry_rows models providers i =
     (case gm_get models i of
        None \<Rightarrow> None
      | Some m \<Rightarrow>
          if \<not> m_Enabled m then None
          else if \<not> m_ProviderEnabled m then None
          else (case gm_get providers (m_ProviderID m) of
                  None \<Rightarrow> None
                | Some p \<Rightarrow> if \<not> p_Enabled p then None else Some (m, p)))"

definition keep_candidate :: "resolveEnv \<Rightarrow> Model \<Rightarrow> Provider \<Rightarrow> buildState \<Rightarrow> buildState" where
  "keep_candidate env m p b =
     (case decryptProviderKey env p of
        Inl _ \<Rightarrow> b\<lparr>bd_decryptFailures := bd_decryptFailures b + 1\<rparr>
      | Inr _ \<Rightarrow> b\<lparr>bd_candidates := bd_candidates b @ [candidate_of m p]\<rparr>)"

definition skip_candidate :: "Model \<Rightarrow> Provider \<Rightarrow> instant \<times> bool \<times> bool \<Rightarrow> buildState \<Rightarrow> buildState" where
  "skip_candidate m p until b = (case until of (retryAt, pinned, dated) \<Rightarrow>
     (let skips = skip_note retryAt pinned dated (bd_skips b)
      in b\<lparr>bd_skips := skips\<lparr>bk_skipped := bk_skipped skips @
             [\<lparr>sc_providerID = p_ID p, sc_providerName = p_Name p, sc_model = m_ModelID m,
               sc_retryAt = retryAt, sc_pinned = pinned, sc_dated = dated\<rparr>]\<rparr>\<rparr>))"

text \<open>One entry of the walk; \<open>None\<close> is the panic of \<open>BlockedUntil\<close> on a missing circuit.\<close>

definition build_entry :: "resolveEnv \<Rightarrow> Model gomap \<Rightarrow> Provider gomap \<Rightarrow> bool \<Rightarrow> nat \<times> uuid \<Rightarrow> buildState \<Rightarrow> buildState option" where
  "build_entry env models providers cbEnabled entry b = (case entry of (k, i) \<Rightarrow>
     (case entry_rows models providers i of
        None \<Rightarrow> Some b
      | Some (m, p) \<Rightarrow>
          if \<not> cbEnabled then Some (keep_candidate env m p b)
          else
            (let t = rz_moment env k
             in case IsOpen (rm_others t (bd_breaker b)) (p_ID p) (p_Name p) (m_ModelID m) (rm_read t) (rm_write t) of
                  (cb, emitted, denied) \<Rightarrow>
                    (let b = b\<lparr>bd_breaker := cb, bd_emitted := bd_emitted b @ emitted\<rparr>
                     in if denied
                        then map_option (\<lambda>until. skip_candidate m p until b) (BlockedUntil cb (p_ID p) (m_ModelID m) (rm_blocked t))
                        else Some (keep_candidate env m p b)))))"

fun buildFailoverCandidates ::
    "resolveEnv \<Rightarrow> Model gomap \<Rightarrow> Provider gomap \<Rightarrow> bool \<Rightarrow> (nat \<times> uuid) list \<Rightarrow> buildState \<Rightarrow> buildState option" where
  "buildFailoverCandidates env models providers cbEnabled [] b = Some b"
| "buildFailoverCandidates env models providers cbEnabled (e # es) b =
     Option.bind (build_entry env models providers cbEnabled e b) (buildFailoverCandidates env models providers cbEnabled es)"

record resolution =
  rn_result :: "resolveError + modelCandidate list"
  rn_skips :: breakerSkipSummary
  rn_store :: store
  rn_breaker :: CircuitBreaker
  rn_emitted :: afterUnlock

definition unresolved :: "resolveError \<Rightarrow> store \<Rightarrow> CircuitBreaker \<Rightarrow> resolution" where
  "unresolved e s cb = \<lparr>rn_result = Inl e, rn_skips = no_skips, rn_store = s, rn_breaker = cb, rn_emitted = []\<rparr>"

definition built :: "store \<Rightarrow> buildState \<Rightarrow> resolution" where
  "built s b =
     \<lparr>rn_result = (if bd_candidates b = [] \<and> bd_decryptFailures b > 0
                   then Inl (keyFault (''all '' @ show_nat (bd_decryptFailures b) @ '' candidate(s) failed key decryption (wrong master key?)''))
                   else Inr (bd_candidates b)),
      rn_skips = bd_skips b, rn_store = s, rn_breaker = bd_breaker b, rn_emitted = bd_emitted b\<rparr>"

definition resolveHotelModel :: "resolveEnv \<Rightarrow> string \<Rightarrow> store \<Rightarrow> CircuitBreaker \<Rightarrow> resolution option" where
  "resolveHotelModel env displayModel s cb =
     (case lookupFailoverGroup displayModel s of
        (Inl e, s) \<Rightarrow> Some (unresolved e s cb)
      | (Inr fg, s) \<Rightarrow>
          (let ids = enabledEntryIDs fg
           in case Model_GetByIDs ids s of
                (Inl e, s) \<Rightarrow> Some (unresolved (dbFault e) s cb)
              | (Inr models, s) \<Rightarrow>
                  (case Provider_GetByIDs (providerIDsFor ids models) s of
                     (Inl e, s) \<Rightarrow> Some (unresolved (dbFault e) s cb)
                   | (Inr providers, s) \<Rightarrow>
                       map_option (built s)
                         (buildFailoverCandidates env models providers (rz_breakerEnabled env) (enumerate 0 ids)
                            \<lparr>bd_breaker = cb, bd_emitted = [], bd_skips = no_skips, bd_candidates = [], bd_decryptFailures = 0\<rparr>))))"

definition resolveSpecificProvider :: "resolveEnv \<Rightarrow> string \<Rightarrow> string \<Rightarrow> store \<Rightarrow> (resolveError + modelCandidate list) \<times> store" where
  "resolveSpecificProvider env providerName modelID s =
     (case GetByName providerName s of
        (Inl e, s) \<Rightarrow> (Inl (if e \<noteq> ErrNoRows then dbFault e else notFoundError (''provider not found: '' @ providerName)), s)
      | (Inr p, s) \<Rightarrow>
          (case GetByProviderAndModelID (p_ID p) modelID s of
             (Inl e, s) \<Rightarrow>
               (Inl (if e \<noteq> ErrNoRows then dbFault e
                     else notFoundError (''model not found: '' @ modelID @ '' on provider '' @ providerName)), s)
           | (Inr m, s) \<Rightarrow>
               (if \<not> m_Enabled m \<or> \<not> p_Enabled p then Inl (notFoundError ''model or provider disabled'')
                else (case decryptProviderKey env p of Inl e \<Rightarrow> Inl (keyFault e) | Inr _ \<Rightarrow> Inr [candidate_of m p]), s)))"

subsection \<open>Allow-lists\<close>

definition providerAllowFunc :: "string list option \<Rightarrow> uuid \<Rightarrow> bool" where
  "providerAllowFunc allowed i = (case allowed of None \<Rightarrow> True | Some ids \<Rightarrow> i \<in> set ids)"

fun effectiveAllowedProviders :: "string list option \<Rightarrow> string list option \<Rightarrow> string list option" where
  "effectiveAllowedProviders None None = None"
| "effectiveAllowedProviders key None = key"
| "effectiveAllowedProviders None owner = owner"
| "effectiveAllowedProviders (Some key) (Some owner) = Some (filter (\<lambda>i. i \<in> set owner) key)"

subsection \<open>The candidates of a request\<close>

record inboundRequest =
  ib_model :: string
  ib_keyAllowed :: "string list option"
  ib_ownerAllowed :: "string list option"
  ib_startTime :: instant
  ib_isStreaming :: bool
  ib_longRunning :: bool

definition hotelGroupName :: "string \<Rightarrow> string" where
  "hotelGroupName reqModel = ToLower (if starts_with reqModel ''hotel/'' then drop (length ''hotel/'') reqModel else reqModel)"

definition cut_slash :: "string \<Rightarrow> string \<times> string" where
  "cut_slash s = (takeWhile (\<lambda>c. c \<noteq> CHR ''/'') s, drop 1 (dropWhile (\<lambda>c. c \<noteq> CHR ''/'') s))"

definition resolveFailedMessage :: string where "resolveFailedMessage = ''could not resolve model''"

definition fail_with :: "loopConfig \<Rightarrow> int \<Rightarrow> ErrorKind option \<Rightarrow> string \<Rightarrow> string \<Rightarrow> int option \<Rightarrow> 'e loopWorld \<Rightarrow> 'e loopWorld" where
  "fail_with cfg status kind logMsg clientMsg retryAfter w =
     writeOpenAIError clientMsg status retryAfter (failRequest cfg status kind logMsg 0 w)"

definition failResolve :: "loopConfig \<Rightarrow> resolveError \<Rightarrow> 'e loopWorld \<Rightarrow> 'e loopWorld" where
  "failResolve cfg err w = (case moment w of (m, w) \<Rightarrow>
     if em_done m
     then fail_with cfg statusClientClosedRequest (Some KindClientDisconnect) ''client disconnected during model resolution''
            ''client disconnected'' None w
     else (case err of
             notFoundError msg \<Rightarrow> fail_with cfg 404 (Some KindValidation) msg msg None w
           | _ \<Rightarrow> fail_with cfg 500 (Some KindInternal) resolveFailedMessage resolveFailedMessage None w))"

definition fail_skipped :: "loopConfig \<Rightarrow> string \<Rightarrow> string \<Rightarrow> breakerSkipSummary \<Rightarrow> 'e loopWorld \<Rightarrow> 'e loopWorld" where
  "fail_skipped cfg displayModel reason skips w = (case moment w of (m, w) \<Rightarrow>
     (let x = failNoAvailableProvider (lc_status429 cfg) displayModel reason (bk_skips skips) (bk_earliestRetry skips)
                (bk_allPinned skips) (em_now m)
      in fail_with cfg (ex_status x) (ex_kind x) (ex_logMsg x) (ex_clientMsg x) (ex_retryAfter x) w))"

text \<open>The part after the switch: log fields, the allow-list, and the answer when it leaves nothing.\<close>

definition allow_candidates ::
    "loopConfig \<Rightarrow> inboundRequest \<Rightarrow> string \<Rightarrow> breakerSkipSummary \<Rightarrow> modelCandidate list \<Rightarrow> 'e loopWorld \<Rightarrow>
     modelCandidate list option \<times> 'e loopWorld" where
  "allow_candidates cfg rq displayModel skips cands w =
     (let w = on_log (\<lambda>l. l\<lparr>lg_providerName := (if starts_with (ib_model rq) ''hotel/'' then ''hotel'' else fst (cut_slash (ib_model rq)))\<rparr>) w
      in case effectiveAllowedProviders (ib_keyAllowed rq) (ib_ownerAllowed rq) of
           None \<Rightarrow> (Some cands, w)
         | Some allowed \<Rightarrow>
             (let providerAllowed = providerAllowFunc (Some allowed);
                  filtered = filter (\<lambda>c. providerAllowed (mc_providerID c)) cands
              in if filtered \<noteq> [] then (Some filtered, w)
                 else if bk_skips (only providerAllowed skips) > 0
                 then (None, fail_skipped cfg displayModel ''no_allowed_provider'' (only providerAllowed skips) w)
                 else (None, fail_with cfg 403 (Some KindAuth) ''virtual key does not have access to any provider for this model''
                              ''virtual key does not have access to any provider for this model'' None w)))"

definition append_skips :: "skippedCandidate list \<Rightarrow> requestLogData \<Rightarrow> requestLogData" where
  "append_skips cs l = fold (\<lambda>c. appendBreakerSkip (sc_providerID c) (sc_providerName c) (sc_model c)) cs l"

definition on_breaker :: "CircuitBreaker \<Rightarrow> afterUnlock \<Rightarrow> 'e loopWorld \<Rightarrow> 'e loopWorld" where
  "on_breaker cb emitted w =
     w\<lparr>lw_gw := (lw_gw w)\<lparr>gw_breaker := cb, gw_emitted := gw_emitted (lw_gw w) @ emitted\<rparr>\<rparr>"

definition resolve_group ::
    "loopConfig \<Rightarrow> resolveEnv \<Rightarrow> inboundRequest \<Rightarrow> store \<Rightarrow> 'e loopWorld \<Rightarrow> (modelCandidate list option \<times> store \<times> 'e loopWorld) option" where
  "resolve_group cfg env rq s w =
     (let displayModel = hotelGroupName (ib_model rq)
      in map_option (\<lambda>r.
           (let w = on_breaker (rn_breaker r) (rn_emitted r) w
            in case rn_result r of
                 Inl e \<Rightarrow> (None, rn_store r, failResolve cfg e w)
               | Inr cands \<Rightarrow>
                   (let w = on_log (append_skips (bk_skipped (rn_skips r))) w
                    in if cands = []
                       then (None, rn_store r, fail_skipped cfg displayModel ''no_available_provider'' (rn_skips r) w)
                       else (case allow_candidates cfg rq displayModel (rn_skips r) cands w of (cs, w) \<Rightarrow> (cs, rn_store r, w)))))
           (resolveHotelModel env displayModel s (gw_breaker (lw_gw w))))"

definition resolveCandidates ::
    "loopConfig \<Rightarrow> resolveEnv \<Rightarrow> inboundRequest \<Rightarrow> store \<Rightarrow> 'e loopWorld \<Rightarrow> (modelCandidate list option \<times> store \<times> 'e loopWorld) option" where
  "resolveCandidates cfg env rq s w =
     (if starts_with (ib_model rq) ''hotel/'' then resolve_group cfg env rq s w
      else if CHR ''/'' \<in> set (ib_model rq)
      then (case cut_slash (ib_model rq) of (providerName, modelID) \<Rightarrow>
             (case resolveSpecificProvider env providerName modelID s of
                (Inl e, s) \<Rightarrow> Some (None, s, failResolve cfg e w)
              | (Inr cands, s) \<Rightarrow> (case allow_candidates cfg rq [] no_skips cands w of (cs, w) \<Rightarrow> Some (cs, s, w))))
      else Some (None, s, fail_with cfg 400 (Some KindValidation) (''invalid model format: '' @ ib_model rq)
                  (''invalid model format: expected '' @ [CHR 0x22] @ ''provider/model'' @ [CHR 0x22] @ '' or '' @
                   [CHR 0x22] @ ''hotel/group'' @ [CHR 0x22]) None w))"

subsection \<open>The knobs of a request\<close>

record requestKnobs =
  rk_requestTimeout :: duration
  rk_circuitBreakerEnabled :: bool
  rk_inflightLimiterEnabled :: bool
  rk_serverErrorRetryEnabled :: bool
  rk_hedgingEnabled :: bool

definition failover_timeout :: "requestKnobs \<Rightarrow> inboundRequest \<Rightarrow> duration" where
  "failover_timeout k rq =
     (if ib_isStreaming rq \<or> ib_longRunning rq then wrap64 (rk_requestTimeout k * 10) else rk_requestTimeout k)"

definition loadFailoverConfig :: "requestKnobs \<Rightarrow> inboundRequest \<Rightarrow> 'e loopWorld \<Rightarrow> 'e loopWorld" where
  "loadFailoverConfig k rq w =
     w\<lparr>lw_st := (lw_st w)\<lparr>
         st_circuitBreakerEnabled := rk_circuitBreakerEnabled k,
         st_inflightEnabled := (gw_inflight (lw_gw w) \<noteq> None \<and> rk_inflightLimiterEnabled k),
         st_serverErrorRetryEnabled := rk_serverErrorRetryEnabled k,
         st_overallDeadline := time_add (ib_startTime rq) (wrap64 (failover_timeout k rq * 2))\<rparr>\<rparr>"

text \<open>\<open>ChatCompletions\<close> once the body has been read. The hedged race of a streaming group is the argument
  \<open>hedged\<close>.\<close>

definition ChatCompletions ::
    "loopConfig \<Rightarrow> resolveEnv \<Rightarrow> requestKnobs \<Rightarrow> inboundRequest \<Rightarrow> (modelCandidate list \<Rightarrow> 'e loopWorld \<Rightarrow> 'e loopWorld option) \<Rightarrow>
     'e attemptFn \<Rightarrow> store \<Rightarrow> 'e loopWorld \<Rightarrow> (store \<times> 'e loopWorld) option" where
  "ChatCompletions cfg env k rq hedged attemptOne s w =
     Option.bind (resolveCandidates cfg env rq s w) (\<lambda>(cands, s, w).
       case cands of
         None \<Rightarrow> Some (s, w)
       | Some cands \<Rightarrow>
           (let w = loadFailoverConfig k rq w
            in map_option (\<lambda>w. (s, w))
                 (if rk_hedgingEnabled k \<and> ib_isStreaming rq \<and> length cands > 1 then hedged cands w
                  else runFailoverLoop (cfg\<lparr>lc_isFailover := starts_with (ib_model rq) ''hotel/''\<rparr>) attemptOne cands w)))"

end
