(* ===== verification/Resolve_Facts.thy ===== *)
theory Resolve_Facts
  imports Resolve Breaker_System Breaker_Waits
begin

text \<open>
  What resolution does: the summary of the skips is a fold over their list, the admission checks of
  one instant do not disturb each other, the walk over the entries keeps the breaker sound and
  never panics, and in a quiet moment it builds exactly the routable, admitted entries.
\<close>

subsection \<open>The summary of the skips\<close>

definition note_skip :: "skippedCandidate \<Rightarrow> breakerSkipSummary \<Rightarrow> breakerSkipSummary" where
  "note_skip c = skip_note (sc_retryAt c) (sc_pinned c) (sc_dated c)"

lemma only_fold: "only keep s = fold note_skip (filter (\<lambda>c. keep (sc_providerID c)) (bk_skipped s)) no_skips"
proof -
  have "fold (\<lambda>c out. if keep (sc_providerID c) then skip_note (sc_retryAt c) (sc_pinned c) (sc_dated c) out else out) cs x =
        fold note_skip (filter (\<lambda>c. keep (sc_providerID c)) cs) x" for cs x
    by (induction cs arbitrary: x) (simp_all add: note_skip_def)
  then show ?thesis by (simp add: only_def)
qed

lemma skip_note_skipped: "skip_note t q d (s\<lparr>bk_skipped := cs\<rparr>) = (skip_note t q d s)\<lparr>bk_skipped := cs\<rparr>"
  by (simp add: skip_note_def Let_def)

lemma skip_note_keeps [simp]: "bk_skipped (skip_note t q d s) = bk_skipped s" "bk_skips (skip_note t q d s) = Suc (bk_skips s)"
  by (simp_all add: skip_note_def Let_def)

lemma fold_note_keeps [simp]:
  "bk_skipped (fold note_skip cs s) = bk_skipped s" "bk_skips (fold note_skip cs s) = bk_skips s + length cs"
  by (induction cs arbitrary: s) (simp_all add: note_skip_def)

text \<open>A summary that is the fold of its own list.\<close>

definition summary_ok :: "breakerSkipSummary \<Rightarrow> bool" where
  "summary_ok s \<longleftrightarrow> s\<lparr>bk_skipped := []\<rparr> = only (\<lambda>_. True) s"

lemma summary_ok_no_skips [simp]: "summary_ok no_skips"
  by (simp add: summary_ok_def only_fold no_skips_def)

lemma summary_ok_note:
  assumes "summary_ok s"
  shows "summary_ok ((note_skip c s)\<lparr>bk_skipped := bk_skipped s @ [c]\<rparr>)"
proof -
  have "(note_skip c s)\<lparr>bk_skipped := []\<rparr> = note_skip c (fold note_skip (bk_skipped s) no_skips)"
    using assms by (simp add: summary_ok_def only_fold note_skip_def flip: skip_note_skipped)
  then show ?thesis by (simp add: summary_ok_def only_fold)
qed

lemma fold_note_pinned:
  "bk_allPinned (fold note_skip cs s) \<longleftrightarrow>
     (if bk_skips s = 0 \<and> cs \<noteq> [] then True else bk_allPinned s) \<and> list_all (\<lambda>c. sc_dated c \<and> sc_pinned c) cs"
proof (induction cs arbitrary: s)
  case (Cons c cs)
  have "bk_allPinned (note_skip c s) \<longleftrightarrow> (bk_skips s = 0 \<or> bk_allPinned s) \<and> sc_dated c \<and> sc_pinned c"
    by (simp add: note_skip_def skip_note_def Let_def)
  moreover have "bk_skips (note_skip c s) = Suc (bk_skips s)" by (simp add: note_skip_def)
  ultimately show ?case by (auto simp: Cons.IH)
qed simp

text \<open>The instants a summary with this earliest retry stands for, and after more skips.\<close>

definition retries_of :: "breakerSkipSummary \<Rightarrow> skippedCandidate list \<Rightarrow> instant set" where
  "retries_of s cs = (if bk_earliestRetry s = 0 then {} else {bk_earliestRetry s}) \<union> sc_retryAt ` {c \<in> set cs. sc_dated c}"

definition earliest_in :: "instant set \<Rightarrow> instant \<Rightarrow> bool" where
  "earliest_in R e \<longleftrightarrow> (if R = {} then e = 0 else e \<in> R \<and> (\<forall>t \<in> R. e \<le> t))"

lemma fold_note_earliest:
  assumes "\<And>c. c \<in> set cs \<Longrightarrow> sc_dated c \<Longrightarrow> 0 < sc_retryAt c" "0 \<le> bk_earliestRetry s"
  shows "earliest_in (retries_of s cs) (bk_earliestRetry (fold note_skip cs s))"
  using assms
proof (induction cs arbitrary: s)
  case Nil
  then show ?case by (simp add: retries_of_def earliest_in_def)
next
  case (Cons c cs)
  let ?e = "bk_earliestRetry (fold note_skip cs (note_skip c s))"
  have e: "bk_earliestRetry (note_skip c s) =
      (if sc_dated c \<and> (bk_earliestRetry s = 0 \<or> sc_retryAt c < bk_earliestRetry s) then sc_retryAt c else bk_earliestRetry s)"
    by (simp add: note_skip_def skip_note_def Let_def)
  have pos: "sc_dated c \<Longrightarrow> 0 < sc_retryAt c" using Cons.prems(1) by simp
  then have "0 \<le> bk_earliestRetry (note_skip c s)" using Cons.prems(2) e by (cases "sc_dated c") auto
  with Cons.IH Cons.prems(1) have "earliest_in (retries_of (note_skip c s) cs) ?e" by simp
  with pos e show ?case by (auto simp: retries_of_def earliest_in_def split: if_splits)
qed

subsection \<open>Admission checks of one instant\<close>

definition denied :: "CircuitBreaker \<Rightarrow> instant \<Rightarrow> string \<Rightarrow> string \<Rightarrow> bool" where
  "denied cb t p m \<longleftrightarrow> is_blocked cb p m t \<or> provider_down cb p t"

lemma IsOpen_denied: "breaker_ok cb \<Longrightarrow> snd (snd (IsOpen cb p pn m t t)) = denied cb t p m"
  using IsOpen_answer [OF breaker_okD(1)] by (simp add: denied_def)

lemma IsOpen_ok: "breaker_ok cb \<Longrightarrow> breaker_ok (fst (IsOpen cb p pn m t t'))"
  by (simp add: IsOpen_state IsOpen_write_ok)

lemma IsOpen_keeps_denied:
  assumes "breaker_ok cb"
  shows "denied (fst (IsOpen cb p pn m t t)) t = denied cb t"
proof (cases "IsOpen_read cb p m t = NeedWrite")
  case True
  let ?cb = "fst (IsOpen_write cb p pn m t)"
  note wf = breaker_okD(1) [OF assms]
  have nb: "\<not> is_blocked cb p m t" using True by (auto simp: IsOpen_read_cases is_blocked_def split: option.splits if_splits)
  note nb' = IsOpen_write_not_blocked_after [OF nb, of pn]
  have "is_blocked ?cb q n t = is_blocked cb q n t" for q n
    using admit.other_pair(1) [OF wf, of q n p m pn t] nb nb' by (cases "(q, n) = (p, m)") auto
  moreover have "provider_down ?cb q t = provider_down cb q t" for q
    using admit.other_provider [of q p] admit.idle_verdict [OF wf nb nb'] by (cases "q = p") auto
  ultimately show ?thesis using True by (intro ext) (simp add: denied_def IsOpen_state)
qed (simp add: IsOpen_state)

subsection \<open>The walk\<close>

definition others_ok :: "resolveEnv \<Rightarrow> bool" where
  "others_ok env \<longleftrightarrow> (\<forall>k cb. breaker_ok cb \<longrightarrow> breaker_ok (rm_others (rz_moment env k) cb))"

definition build_sound :: "buildState \<Rightarrow> bool" where
  "build_sound b \<longleftrightarrow> breaker_ok (bd_breaker b) \<and> summary_ok (bd_skips b)"

lemma keep_candidate_sound [simp]: "build_sound (keep_candidate env m p b) = build_sound b"
  by (simp add: keep_candidate_def build_sound_def split: sum.split)

lemma skip_candidate_sound: "build_sound b \<Longrightarrow> build_sound (skip_candidate m p until b)"
proof -
  assume b: "build_sound b"
  obtain t q d where u: "until = (t, q, d)" by (metis prod_cases3)
  let ?c = "\<lparr>sc_providerID = p_ID p, sc_providerName = p_Name p, sc_model = m_ModelID m, sc_retryAt = t, sc_pinned = q, sc_dated = d\<rparr>"
  from b have "summary_ok ((note_skip ?c (bd_skips b))\<lparr>bk_skipped := bk_skipped (bd_skips b) @ [?c]\<rparr>)"
    by (intro summary_ok_note) (simp add: build_sound_def)
  with b show ?thesis by (simp add: u skip_candidate_def build_sound_def note_skip_def Let_def)
qed

lemma build_entry_sound:
  assumes "build_sound b" "others_ok env"
  shows "\<exists>b'. build_entry env models providers cbEnabled e b = Some b' \<and> build_sound b'"
proof -
  obtain k i where e: "e = (k, i)" by fastforce
  show ?thesis
  proof (cases "entry_rows models providers i")
    case None
    with assms e show ?thesis by (simp add: build_entry_def)
  next
    case (Some r)
    then obtain m p where r: "entry_rows models providers i = Some (m, p)" by fastforce
    let ?t = "rz_moment env k"
    obtain cb emitted d where o': "IsOpen (rm_others ?t (bd_breaker b)) (p_ID p) (p_Name p) (m_ModelID m) (rm_read ?t) (rm_write ?t) = (cb, emitted, d)"
      by (metis prod_cases3)
    have "breaker_ok (rm_others ?t (bd_breaker b))" using assms by (simp add: others_ok_def build_sound_def)
    with IsOpen_ok have ok: "breaker_ok cb" using o' by (metis fst_conv)
    let ?b = "b\<lparr>bd_breaker := cb, bd_emitted := bd_emitted b @ emitted\<rparr>"
    have "build_sound ?b" using assms(1) ok by (simp add: build_sound_def)
    moreover obtain u where "BlockedUntil cb (p_ID p) (m_ModelID m) (rm_blocked ?t) = Some u"
      using BlockedUntil_spec [OF breaker_okD(1) [OF ok] breaker_waits_bounded [OF ok]] by blast
    ultimately show ?thesis
      using assms(1) by (simp add: e build_entry_def r o' Let_def skip_candidate_sound)
  qed
qed

lemma build_sound_walk:
  assumes "others_ok env" "build_sound b"
  shows "\<exists>b'. buildFailoverCandidates env models providers cbEnabled es b = Some b' \<and> build_sound b'"
  using assms(2)
proof (induction es arbitrary: b)
  case (Cons e es)
  obtain b1 where "build_entry env models providers cbEnabled e b = Some b1" "build_sound b1"
    using build_entry_sound [OF Cons.prems assms(1)] by blast
  with Cons.IH show ?case by simp
qed simp

subsection \<open>The walk in a quiet moment\<close>

text \<open>Nothing else touches the breaker and the clock stands still.\<close>

definition quiet :: "resolveEnv \<Rightarrow> instant \<Rightarrow> bool" where
  "quiet env t \<longleftrightarrow> (\<forall>k. rz_moment env k = \<lparr>rm_others = (\<lambda>cb. cb), rm_read = t, rm_write = t, rm_blocked = t\<rparr>)"

definition decryptable :: "resolveEnv \<Rightarrow> Provider \<Rightarrow> bool" where
  "decryptable env p \<longleftrightarrow> \<not> isl (decryptProviderKey env p)"

definition refused :: "resolveEnv \<Rightarrow> CircuitBreaker \<Rightarrow> instant \<Rightarrow> Model \<times> Provider \<Rightarrow> bool" where
  "refused env cb t r \<longleftrightarrow> rz_breakerEnabled env \<and> denied cb t (p_ID (snd r)) (m_ModelID (fst r))"

text \<open>The candidates and the refusals a list of routes stands for.\<close>

definition admitted_candidates :: "resolveEnv \<Rightarrow> CircuitBreaker \<Rightarrow> instant \<Rightarrow> (Model \<times> Provider) list \<Rightarrow> modelCandidate list" where
  "admitted_candidates env cb t rs =
     map (\<lambda>(m, p). candidate_of m p) (filter (\<lambda>r. \<not> refused env cb t r \<and> decryptable env (snd r)) rs)"

definition refused_pairs :: "resolveEnv \<Rightarrow> CircuitBreaker \<Rightarrow> instant \<Rightarrow> (Model \<times> Provider) list \<Rightarrow> (string \<times> string) list" where
  "refused_pairs env cb t rs = map (\<lambda>(m, p). (p_ID p, m_ModelID m)) (filter (refused env cb t) rs)"

definition skip_pairs :: "breakerSkipSummary \<Rightarrow> (string \<times> string) list" where
  "skip_pairs s = map (\<lambda>c. (sc_providerID c, sc_model c)) (bk_skipped s)"

lemma keep_candidate_sel [simp]:
  "bd_breaker (keep_candidate env m p b) = bd_breaker b" "bd_skips (keep_candidate env m p b) = bd_skips b"
  "bd_candidates (keep_candidate env m p b) = bd_candidates b @ (if decryptable env p then [candidate_of m p] else [])"
  by (auto simp: keep_candidate_def decryptable_def split: sum.split)

lemma skip_candidate_sel [simp]:
  "bd_breaker (skip_candidate m p until b) = bd_breaker b"
  "bd_candidates (skip_candidate m p until b) = bd_candidates b"
  "skip_pairs (bd_skips (skip_candidate m p until b)) = skip_pairs (bd_skips b) @ [(p_ID p, m_ModelID m)]"
  by (simp_all add: skip_candidate_def skip_pairs_def Let_def split: prod.split)

lemma build_entry_quiet:
  assumes "quiet env t" "build_sound b" "build_entry env models providers (rz_breakerEnabled env) (k, i) b = Some b'"
  defines "rs \<equiv> (case entry_rows models providers i of None \<Rightarrow> [] | Some r \<Rightarrow> [r])"
  shows "bd_candidates b' = bd_candidates b @ admitted_candidates env (bd_breaker b) t rs"
    "skip_pairs (bd_skips b') = skip_pairs (bd_skips b) @ refused_pairs env (bd_breaker b) t rs"
    "denied (bd_breaker b') t = denied (bd_breaker b) t"
proof -
  have "bd_candidates b' = bd_candidates b @ admitted_candidates env (bd_breaker b) t rs \<and>
    skip_pairs (bd_skips b') = skip_pairs (bd_skips b) @ refused_pairs env (bd_breaker b) t rs \<and>
    denied (bd_breaker b') t = denied (bd_breaker b) t"
  proof (cases "entry_rows models providers i")
    case None
    with assms(3) show ?thesis by (simp add: build_entry_def rs_def admitted_candidates_def refused_pairs_def)
  next
    case (Some r)
    obtain m p where r: "r = (m, p)" by fastforce
    note rows = Some [unfolded r]
    have ok: "breaker_ok (bd_breaker b)" using assms(2) by (simp add: build_sound_def)
    have q: "rz_moment env k = \<lparr>rm_others = (\<lambda>cb. cb), rm_read = t, rm_write = t, rm_blocked = t\<rparr>"
      using assms(1) by (simp add: quiet_def)
    obtain cb emitted d where o': "IsOpen (bd_breaker b) (p_ID p) (p_Name p) (m_ModelID m) t t = (cb, emitted, d)"
      by (metis prod_cases3)
    have d: "d = denied (bd_breaker b) t (p_ID p) (m_ModelID m)" using IsOpen_denied [OF ok] o' by (metis snd_conv)
    have keep: "denied cb t = denied (bd_breaker b) t" using IsOpen_keeps_denied [OF ok] o' by (metis fst_conv)
    have "b' = keep_candidate env m p b" if "\<not> rz_breakerEnabled env"
      using assms(3) that by (simp add: build_entry_def rows)
    moreover have "\<exists>u. b' = skip_candidate m p u (b\<lparr>bd_breaker := cb, bd_emitted := bd_emitted b @ emitted\<rparr>)"
      if "rz_breakerEnabled env" d
      using assms(3) that by (auto simp: build_entry_def rows q o' Let_def)
    moreover have "b' = keep_candidate env m p (b\<lparr>bd_breaker := cb, bd_emitted := bd_emitted b @ emitted\<rparr>)"
      if "rz_breakerEnabled env" "\<not> d"
      using assms(3) that by (simp add: build_entry_def rows q o' Let_def)
    ultimately show ?thesis using d keep
      by (cases "rz_breakerEnabled env"; cases d)
        (auto simp: rs_def rows admitted_candidates_def refused_pairs_def refused_def)
  qed
  then show "bd_candidates b' = bd_candidates b @ admitted_candidates env (bd_breaker b) t rs"
    "skip_pairs (bd_skips b') = skip_pairs (bd_skips b) @ refused_pairs env (bd_breaker b) t rs"
    "denied (bd_breaker b') t = denied (bd_breaker b) t" by simp_all
qed

lemma admitted_append: "admitted_candidates env cb t (xs @ ys) = admitted_candidates env cb t xs @ admitted_candidates env cb t ys"
  by (simp add: admitted_candidates_def)

lemma refused_append: "refused_pairs env cb t (xs @ ys) = refused_pairs env cb t xs @ refused_pairs env cb t ys"
  by (simp add: refused_pairs_def)

lemma same_denied:
  "denied cb t = denied cb' t \<Longrightarrow> admitted_candidates env cb t rs = admitted_candidates env cb' t rs"
  "denied cb t = denied cb' t \<Longrightarrow> refused_pairs env cb t rs = refused_pairs env cb' t rs"
  by (simp_all add: admitted_candidates_def refused_pairs_def refused_def [abs_def])

definition routes :: "(uuid \<Rightarrow> (Model \<times> Provider) option) \<Rightarrow> uuid list \<Rightarrow> (Model \<times> Provider) list" where
  "routes rows ids = List.map_filter rows ids"

lemma routes_simps [simp]:
  "routes rows [] = []"
  "routes rows (i # ids) = (case rows i of None \<Rightarrow> [] | Some r \<Rightarrow> [r]) @ routes rows ids"
  by (simp_all add: routes_def List.map_filter_simps split: option.split)

lemma quiet_others_ok: "quiet env t \<Longrightarrow> others_ok env"
  by (simp add: quiet_def others_ok_def)

lemma build_walk_quiet:
  assumes "quiet env t"
  shows "build_sound b \<Longrightarrow> buildFailoverCandidates env models providers (rz_breakerEnabled env) es b = Some b' \<Longrightarrow>
    bd_candidates b' = bd_candidates b @ admitted_candidates env (bd_breaker b) t (routes (entry_rows models providers) (map snd es)) \<and>
    skip_pairs (bd_skips b') = skip_pairs (bd_skips b) @ refused_pairs env (bd_breaker b) t (routes (entry_rows models providers) (map snd es))"
proof (induction es arbitrary: b)
  case Nil
  then show ?case by (simp add: admitted_candidates_def refused_pairs_def)
next
  case (Cons e es)
  obtain k i where e: "e = (k, i)" by fastforce
  from Cons.prems(2) obtain b1 where b1: "build_entry env models providers (rz_breakerEnabled env) (k, i) b = Some b1"
    "buildFailoverCandidates env models providers (rz_breakerEnabled env) es b1 = Some b'"
    by (auto simp: e bind_eq_Some_conv)
  have "build_sound b1" using build_entry_sound [OF Cons.prems(1) quiet_others_ok [OF assms]] b1(1) by (metis option.inject)
  from Cons.IH [OF this b1(2)] build_entry_quiet [OF assms Cons.prems(1) b1(1)]
  show ?case by (simp add: e admitted_append refused_append same_denied [of "bd_breaker b1" t "bd_breaker b"])
qed

end
