(* ===== verification/Resolve_Tables.thy ===== *)
theory Resolve_Tables
  imports Resolve_Facts
begin

text \<open>
  The readers of rows as an implementation of the tables: with succeeding statements, readable rows and
  caches that hold what the tables hold, a batch read answers exactly the rows the tables have.
  The \<open>last_used_at\<close> of a cached provider may be newer than its row's, so providers are compared
  without it (\<open>anon\<close>). Resolution then is a function of the tables, the breaker and the key check.
\<close>

subsection \<open>The rows the tables have\<close>

definition read_model :: "model_row \<times> provider_row \<Rightarrow> Model" where
  "read_model r = (case r of (m, p) \<Rightarrow>
     \<lparr>m_ID = mr_id m, m_ProviderID = mr_provider_id m, m_ModelID = mr_model_id m,
      m_Enabled = is_true (mr_enabled m), m_ProviderEnabled = is_true (pr_enabled p)\<rparr>)"

definition model_at :: "world \<Rightarrow> uuid \<Rightarrow> Model option" where
  "model_at w i = find (\<lambda>m. m_ID m = i) (map read_model (joined_models w))"

definition read_provider :: "(uuid \<Rightarrow> providerColumns) \<Rightarrow> provider_row \<Rightarrow> Provider" where
  "read_provider columns r =
     \<lparr>p_ID = pr_id r, p_Name = pr_name r, p_LastUsedAt = pc_last_used_at (columns (pr_id r)),
      p_Enabled = is_true (pr_enabled r), p_MaxInFlight = pc_max_in_flight (columns (pr_id r)),
      p_EncryptedKey = pc_encrypted_key (columns (pr_id r))\<rparr>"

definition provider_at :: "store \<Rightarrow> uuid \<Rightarrow> Provider option" where
  "provider_at s i = find (\<lambda>p. p_ID p = i) (map (read_provider (sr_columns s)) (w_providers (sr_world s)))"

definition anon :: "Provider \<Rightarrow> Provider" where "anon p = p\<lparr>p_LastUsedAt := None\<rparr>"

definition readable :: "world \<Rightarrow> bool" where
  "readable w \<longleftrightarrow> distinct (map mr_id (w_models w)) \<and> distinct (map pr_id (w_providers w)) \<and>
     list_all (\<lambda>m. mr_enabled m \<noteq> None) (w_models w) \<and> list_all (\<lambda>p. pr_enabled p \<noteq> None) (w_providers w)"

definition models_fresh :: "store \<Rightarrow> bool" where
  "models_fresh s \<longleftrightarrow>
     (\<forall>i m. GetCachedByUUID (sr_models s) i (sr_now s) = Some m \<longrightarrow> model_at (sr_world s) i = Some m)"

definition providers_fresh :: "store \<Rightarrow> bool" where
  "providers_fresh s \<longleftrightarrow>
     (\<forall>i p. GetCachedByID (sr_providers s) i (sr_now s) = Some p \<longrightarrow> map_option anon (provider_at s i) = Some (anon p))"

definition same_tables :: "store \<Rightarrow> store \<Rightarrow> bool" where
  "same_tables s s' \<longleftrightarrow> w_models (sr_world s') = w_models (sr_world s) \<and> w_providers (sr_world s') = w_providers (sr_world s) \<and>
     sr_columns s' = sr_columns s \<and> w_clock (sr_world s') = w_clock (sr_world s) \<and>
     (w_faults (sr_world s) = [] \<longrightarrow> w_faults (sr_world s') = [])"

lemma same_tables_reads:
  assumes "same_tables s s'"
  shows "model_at (sr_world s') = model_at (sr_world s)" "provider_at s' = provider_at s"
    "readable (sr_world s') = readable (sr_world s)" "sr_now s' = sr_now s"
proof -
  have "joined_models (sr_world s') = joined_models (sr_world s)"
    using assms by (simp add: same_tables_def joined_models_def)
  then show "model_at (sr_world s') = model_at (sr_world s)" by (intro ext) (simp add: model_at_def)
  show "provider_at s' = provider_at s" using assms by (intro ext) (simp add: same_tables_def provider_at_def)
qed (use assms in \<open>simp_all add: same_tables_def readable_def sr_now_def\<close>)

subsection \<open>Lists with one row per key\<close>

lemma find_key:
  assumes "distinct (map key xs)" "x \<in> set xs"
  shows "find (\<lambda>y. key y = key x) xs = Some x"
  using assms by (induction xs) (auto simp: rev_image_eqI)

lemma one_per_key: "distinct (map key xs) \<Longrightarrow> length (filter (\<lambda>x. key x = k) xs) \<le> 1"
  by (induction xs) (auto simp: filter_empty_conv image_iff)

lemma fold_put_get:
  assumes "distinct (map key xs)"
  shows "gm_get (fold (\<lambda>x. gm_put (key x) x) xs m) i =
    (case find (\<lambda>x. key x = i) xs of Some x \<Rightarrow> Some x | None \<Rightarrow> gm_get m i)"
  using assms
proof (induction xs arbitrary: m)
  case (Cons x xs)
  have "find (\<lambda>y. key y = i) xs = None" if "i = key x"
    using that Cons.prems by (auto simp: find_None_iff image_iff)
  with Cons show ?case by (cases "i = key x") (auto split: option.split)
qed simp

lemma cached_rows_get: "gm_get (cached_rows cached ids) i = (if i \<in> set ids then cached i else None)"
proof -
  have "gm_get (fold (\<lambda>i r. case cached i of Some x \<Rightarrow> gm_put i x r | None \<Rightarrow> r) ids m) i =
    (if i \<in> set ids \<and> cached i \<noteq> None then cached i else gm_get m i)" for m
    by (induction ids arbitrary: m) (auto split: option.split)
  then show ?thesis by (simp add: cached_rows_def)
qed

lemma find_read_filter:
  assumes "\<And>x. key (f x) = k x"
  shows "find (\<lambda>y. key y = i) (map f (filter (\<lambda>x. k x \<in> S) xs)) = (if i \<in> S then find (\<lambda>y. key y = i) (map f xs) else None)"
  by (induction xs) (auto simp: assms)

lemma joined_distinct:
  assumes "distinct (map mr_id (w_models w))" "distinct (map pr_id (w_providers w))"
  shows "distinct (map (\<lambda>r. mr_id (fst r)) (joined_models w))"
proof -
  let ?f = "\<lambda>m. filter (\<lambda>p. pr_id p = mr_provider_id m) (w_providers w)"
  have one: "length (?f m) \<le> 1" for m :: model_row by (rule one_per_key [OF assms(2)])
  have "distinct (map (\<lambda>r. mr_id (fst r)) (concat (map (\<lambda>m. map (\<lambda>p. (m, p)) (?f m)) ms))) \<and>
    set (map (\<lambda>r. mr_id (fst r)) (concat (map (\<lambda>m. map (\<lambda>p. (m, p)) (?f m)) ms))) \<subseteq> mr_id ` set ms"
    if "distinct (map mr_id ms)" for ms :: "model_row list"
    using that
  proof (induction ms)
    case (Cons m ms)
    have "?f m = [] \<or> (\<exists>p. ?f m = [p])" using one [of m] by (cases "?f m") auto
    with Cons show ?case by auto
  qed simp
  with assms(1) show ?thesis by (simp add: joined_models_def)
qed

subsection \<open>Batch reads\<close>

lemma scan_rows_ok: "(\<And>r. r \<in> set rs \<Longrightarrow> scan r = Inr (f r)) \<Longrightarrow> scan_rows scan rs = Inr (map f rs)"
  by (induction rs) simp_all

lemma scanModel_ok:
  assumes "readable w" "r \<in> set (joined_models w)"
  shows "scanModel r = Inr (read_model r)"
  using assms by (auto simp: readable_def joined_models_def list_all_iff scanModel_def read_model_def is_true_def split: option.split)

lemma no_statement_fault: "w_faults (sr_world s) = [] \<Longrightarrow> statement_fault s = (None, s)"
  by (simp add: statement_fault_def next_fault_def)

lemma Model_GetByIDs_tables:
  assumes "readable (sr_world s)" "w_faults (sr_world s) = []" "models_fresh s"
  shows "\<exists>ms s'. Model_GetByIDs ids s = (Inr ms, s') \<and> same_tables s s' \<and> sr_providers s' = sr_providers s \<and>
    (\<forall>i \<in> set ids. gm_get ms i = model_at (sr_world s) i)"
proof -
  let ?c = "\<lambda>i. GetCachedByUUID (sr_models s) i (sr_now s)"
  let ?un = "filter (\<lambda>i. ?c i = None) ids"
  let ?rs = "filter (\<lambda>r. mr_id (fst r) \<in> set ?un) (joined_models (sr_world s))"
  have hit: "?c i = None \<or> ?c i = model_at (sr_world s) i" for i
    using assms(3) unfolding models_fresh_def by (metis not_None_eq)
  have rows: "scanModels ?rs = Inr (map read_model ?rs)"
    unfolding scanModels_def by (rule scan_rows_ok) (auto intro: scanModel_ok [OF assms(1)])
  have d: "distinct (map m_ID (map read_model ?rs))"
    using joined_distinct [of "sr_world s"] assms(1)
    by (auto simp: readable_def read_model_def comp_def case_prod_beta distinct_map intro: inj_on_subset)
  have key: "m_ID (read_model r) = mr_id (fst r)" for r by (simp add: read_model_def split: prod.split)
  have f: "find (\<lambda>m. m_ID m = i) (map read_model ?rs) = (if i \<in> set ?un then model_at (sr_world s) i else None)" for i
    unfolding model_at_def by (rule find_read_filter) (simp add: key)
  have "gm_get (fold (\<lambda>m. gm_put (m_ID m) m) (map read_model ?rs) (cached_rows ?c ids)) i = model_at (sr_world s) i"
    if "i \<in> set ids" for i
    using that hit [of i] unfolding fold_put_get [OF d] f cached_rows_get by (auto split: option.split)
  moreover have "gm_get (cached_rows ?c ids) i = model_at (sr_world s) i" if "i \<in> set ids" "?un = []" for i
    using that hit [of i] by (auto simp: cached_rows_get filter_empty_conv)
  moreover have "Model_GetByIDs ids s = (Inr (fold (\<lambda>m. gm_put (m_ID m) m) (map read_model ?rs) (cached_rows ?c ids)),
      s\<lparr>sr_models := WarmModelCacheAt (sr_now s) (map read_model ?rs) (Model_CacheGen (sr_models s)) (sr_models s)\<rparr>)"
    if "?un \<noteq> []"
  proof -
    have "ids \<noteq> []" using that by auto
    with that show ?thesis unfolding Model_GetByIDs_def Let_def no_statement_fault [OF assms(2)] by (simp add: rows del: set_filter)
  qed
  moreover have "Model_GetByIDs ids s = (Inr (cached_rows ?c ids), s)" if "?un = []"
    using that by (simp add: Model_GetByIDs_def Let_def cached_rows_def)
  ultimately show ?thesis
    by (cases "?un = []") (auto simp: same_tables_def)
qed

lemma cache_provider_same [simp]:
  "sr_world (cache_provider g p s) = sr_world s" "sr_columns (cache_provider g p s) = sr_columns s"
  by (simp_all add: cache_provider_def)

lemma take_providers_ok:
  assumes "list_all (\<lambda>r. pr_enabled r \<noteq> None) rs"
  shows "\<exists>s'. take_providers g rs m s =
      (Inr (fold (\<lambda>p. gm_put (p_ID p) p) (map (read_provider (sr_columns s)) rs) m), s') \<and> same_tables s s'"
  using assms
proof (induction rs arbitrary: m s)
  case Nil
  then show ?case by (simp add: same_tables_def)
next
  case (Cons r rs)
  then obtain b where "pr_enabled r = Some b" by auto
  then have "scanProvider (sr_columns s) r = Inr (read_provider (sr_columns s) r)"
    by (simp add: scanProvider_def read_provider_def is_true_def)
  with Cons.IH [of "gm_put (p_ID (read_provider (sr_columns s) r)) (read_provider (sr_columns s) r) m"
      "cache_provider g (read_provider (sr_columns s) r) s"] Cons.prems
  show ?case by (auto simp: same_tables_def)
qed

lemma Provider_GetByIDs_tables:
  assumes "readable (sr_world s)" "w_faults (sr_world s) = []" "providers_fresh s"
  shows "\<exists>ps s'. Provider_GetByIDs ids s = (Inr ps, s') \<and> same_tables s s' \<and>
    (\<forall>i \<in> set ids. map_option anon (gm_get ps i) = map_option anon (provider_at s i))"
proof -
  let ?c = "\<lambda>i. GetCachedByID (sr_providers s) i (sr_now s)"
  let ?un = "filter (\<lambda>i. ?c i = None) ids"
  let ?rs = "filter (\<lambda>r. pr_id r \<in> set ?un) (w_providers (sr_world s))"
  let ?ps = "map (read_provider (sr_columns s)) ?rs"
  have hit: "?c i = None \<or> map_option anon (?c i) = map_option anon (provider_at s i)" for i
    using assms(3) unfolding providers_fresh_def by (metis not_None_eq option.simps(9))
  have "list_all (\<lambda>r. pr_enabled r \<noteq> None) ?rs" using assms(1) by (auto simp: readable_def list_all_iff)
  then obtain s' where take: "take_providers (Provider_CacheGen (sr_providers s)) ?rs (cached_rows ?c ids) s =
      (Inr (fold (\<lambda>p. gm_put (p_ID p) p) ?ps (cached_rows ?c ids)), s')" "same_tables s s'"
    using take_providers_ok by blast
  have key: "p_ID (read_provider (sr_columns s) r) = pr_id r" for r by (simp add: read_provider_def)
  have d: "distinct (map p_ID ?ps)"
    using assms(1) by (auto simp: readable_def comp_def key distinct_map intro: inj_on_subset)
  have f: "find (\<lambda>p. p_ID p = i) ?ps = (if i \<in> set ?un then provider_at s i else None)" for i
    unfolding provider_at_def by (rule find_read_filter) (simp add: key)
  have "map_option anon (gm_get (fold (\<lambda>p. gm_put (p_ID p) p) ?ps (cached_rows ?c ids)) i) = map_option anon (provider_at s i)"
    if "i \<in> set ids" for i
    using that hit [of i] unfolding fold_put_get [OF d] f cached_rows_get by (auto split: option.split)
  moreover have "map_option anon (gm_get (cached_rows ?c ids) i) = map_option anon (provider_at s i)" if "i \<in> set ids" "?un = []" for i
    using that hit [of i] by (auto simp: cached_rows_get filter_empty_conv)
  ultimately show ?thesis using take
    by (cases "ids = []"; cases "?un = []")
      (auto simp: Provider_GetByIDs_def Let_def no_statement_fault [OF assms(2)] same_tables_def)
qed

subsection \<open>Routes\<close>

text \<open>The route an entry stands for according to the tables.\<close>

definition route_at :: "store \<Rightarrow> uuid \<Rightarrow> (Model \<times> Provider) option" where
  "route_at s i =
     (case model_at (sr_world s) i of
        None \<Rightarrow> None
      | Some m \<Rightarrow>
          if m_Enabled m \<and> m_ProviderEnabled m
          then (case provider_at s (m_ProviderID m) of
                  None \<Rightarrow> None
                | Some p \<Rightarrow> if p_Enabled p then Some (m, p) else None)
          else None)"

lemma anon_sel [simp]:
  "p_ID (anon p) = p_ID p" "p_Name (anon p) = p_Name p" "p_Enabled (anon p) = p_Enabled p"
  "p_MaxInFlight (anon p) = p_MaxInFlight p" "p_EncryptedKey (anon p) = p_EncryptedKey p"
  by (simp_all add: anon_def)

lemma anon_route [simp]:
  "refused env cb t (apsnd anon r) = refused env cb t r" "decryptable env (anon p) = decryptable env p"
  "candidate_of m (anon p) = candidate_of m p"
  by (simp_all add: refused_def decryptable_def decryptProviderKey_def candidate_of_def)

lemma anon_candidates:
  "admitted_candidates env cb t (map (apsnd anon) rs) = admitted_candidates env cb t rs"
  "refused_pairs env cb t (map (apsnd anon) rs) = refused_pairs env cb t rs"
  by (simp_all add: admitted_candidates_def refused_pairs_def filter_map comp_def case_prod_beta)

lemma routes_anon: "map (apsnd anon) (routes rows ids) = routes (\<lambda>i. map_option (apsnd anon) (rows i)) ids"
  by (induction ids) (simp_all split: option.split)

lemma routes_cong: "(\<And>i. i \<in> set ids \<Longrightarrow> rows i = rows' i) \<Longrightarrow> routes rows ids = routes rows' ids"
  by (induction ids) simp_all

lemma same_routes:
  assumes "\<And>i. i \<in> set ids \<Longrightarrow> map_option (apsnd anon) (rows i) = map_option (apsnd anon) (rows' i)"
  shows "admitted_candidates env cb t (routes rows ids) = admitted_candidates env cb t (routes rows' ids)"
    "refused_pairs env cb t (routes rows ids) = refused_pairs env cb t (routes rows' ids)"
proof -
  have "map (apsnd anon) (routes rows ids) = map (apsnd anon) (routes rows' ids)"
    unfolding routes_anon by (rule routes_cong) (rule assms)
  then show "admitted_candidates env cb t (routes rows ids) = admitted_candidates env cb t (routes rows' ids)"
    "refused_pairs env cb t (routes rows ids) = refused_pairs env cb t (routes rows' ids)"
    using anon_candidates by metis+
qed

lemma providerIDsFor_set:
  assumes "i \<in> set ids" "gm_get models i = Some m" "m_Enabled m" "m_ProviderEnabled m"
  shows "m_ProviderID m \<in> set (providerIDsFor ids models)"
proof -
  let ?f = "\<lambda>i ps. case gm_get models i of None \<Rightarrow> ps
      | Some m \<Rightarrow> if m_Enabled m \<and> m_ProviderEnabled m \<and> m_ProviderID m \<notin> set ps then ps @ [m_ProviderID m] else ps"
  have mono: "set ps \<subseteq> set (fold ?f is ps)" for "is" ps
    by (induction "is" arbitrary: ps) (fastforce split: option.splits if_splits)+
  have "m_ProviderID m \<in> set (fold ?f is ps)" if "i \<in> set is" for "is" ps
    using that
  proof (induction "is" arbitrary: ps)
    case (Cons j js)
    show ?case
    proof (cases "i = j")
      case True
      then have "m_ProviderID m \<in> set (?f j ps)" using assms(2-4) by simp
      then show ?thesis using mono [of "?f j ps" js] by auto
    qed (use Cons in simp)
  qed simp
  with assms(1) show ?thesis by (simp add: providerIDsFor_def)
qed

lemma entry_rows_route:
  assumes "\<And>i. i \<in> set ids \<Longrightarrow> gm_get models i = model_at (sr_world s) i"
    "\<And>q. q \<in> set (providerIDsFor ids models) \<Longrightarrow> map_option anon (gm_get providers q) = map_option anon (provider_at s q)"
    "i \<in> set ids"
  shows "map_option (apsnd anon) (entry_rows models providers i) = map_option (apsnd anon) (route_at s i)"
proof (cases "model_at (sr_world s) i")
  case None
  with assms(1,3) show ?thesis by (simp add: entry_rows_def route_at_def)
next
  case (Some m)
  then have m: "gm_get models i = Some m" using assms(1,3) by simp
  show ?thesis
  proof (cases "m_Enabled m \<and> m_ProviderEnabled m")
    case True
    then have "m_ProviderID m \<in> set (providerIDsFor ids models)" using providerIDsFor_set [OF assms(3) m] by simp
    from assms(2) [OF this] True Some m show ?thesis
      by (cases "gm_get providers (m_ProviderID m)"; cases "provider_at s (m_ProviderID m)")
        (simp_all add: entry_rows_def route_at_def, metis anon_sel(3))
  qed (use Some m in \<open>auto simp: entry_rows_def route_at_def\<close>)
qed

subsection \<open>The group\<close>

definition group_at :: "world \<Rightarrow> string \<Rightarrow> FailoverGroup option" where
  "group_at w g = (case find (\<lambda>r. gr_display_model r = g) (w_groups w) of
     None \<Rightarrow> None | Some r \<Rightarrow> (case scanFailoverGroup r of Inl _ \<Rightarrow> None | Inr fg \<Rightarrow> Some fg))"

definition group_fresh :: "world \<Rightarrow> string \<Rightarrow> bool" where
  "group_fresh w g \<longleftrightarrow> (\<forall>fg. GetCachedFailoverByModel (w_cache w) g (w_clock w) = Some fg \<longrightarrow> group_at w g = Some fg)"

lemma lookupFailoverGroup_tables:
  assumes "w_faults (sr_world s) = []" "group_fresh (sr_world s) g" "group_at (sr_world s) g = Some fg"
    "fg_GroupEnabled fg" "fg_PriorityOrder fg \<noteq> []"
  shows "\<exists>s'. lookupFailoverGroup g s = (Inr fg, s') \<and> same_tables s s' \<and>
    sr_models s' = sr_models s \<and> sr_providers s' = sr_providers s"
proof -
  have "\<exists>w. GetByModel g (sr_world s) = (Inr fg, w) \<and> same_tables s (s\<lparr>sr_world := w\<rparr>)"
    using assms(1-3)
    by (auto simp: GetByModel_def group_fresh_def group_at_def query_row_def next_fault_def same_tables_def Let_def
        split: option.splits sum.splits)
  with assms(4,5) show ?thesis by (auto simp: lookupFailoverGroup_def)
qed

lemma resolveHotelModel_tables:
  assumes "quiet env t" "breaker_ok cb" "readable (sr_world s)" "w_faults (sr_world s) = []"
    "models_fresh s" "providers_fresh s" "group_fresh (sr_world s) g"
    "group_at (sr_world s) g = Some fg" "fg_GroupEnabled fg" "fg_PriorityOrder fg \<noteq> []"
  defines "rs \<equiv> routes (route_at s) (enabledEntryIDs fg)"
  shows "\<exists>s' b. resolveHotelModel env g s cb = Some (built s' b) \<and> build_sound b \<and>
    bd_candidates b = admitted_candidates env cb t rs \<and> skip_pairs (bd_skips b) = refused_pairs env cb t rs"
proof -
  let ?ids = "enabledEntryIDs fg"
  let ?b0 = "\<lparr>bd_breaker = cb, bd_emitted = [], bd_skips = no_skips, bd_candidates = [], bd_decryptFailures = 0\<rparr>"
  obtain s1 where s1: "lookupFailoverGroup g s = (Inr fg, s1)" "same_tables s s1" "sr_models s1 = sr_models s" "sr_providers s1 = sr_providers s"
    using lookupFailoverGroup_tables assms(4,7-10) by blast
  note eq1 = same_tables_reads [OF s1(2)]
  have ok1: "readable (sr_world s1)" "w_faults (sr_world s1) = []" "models_fresh s1"
    using assms(3-5) s1(2,3) eq1 by (simp_all add: same_tables_def models_fresh_def)
  obtain ms s2 where s2: "Model_GetByIDs ?ids s1 = (Inr ms, s2)" "same_tables s1 s2" "sr_providers s2 = sr_providers s1"
      "\<forall>i \<in> set ?ids. gm_get ms i = model_at (sr_world s1) i"
    using Model_GetByIDs_tables [OF ok1] by blast
  note eq2 = same_tables_reads [OF s2(2)]
  have ok2: "readable (sr_world s2)" "w_faults (sr_world s2) = []" "providers_fresh s2"
    using assms(6) ok1(1,2) s1(4) s2(2,3) eq1 eq2 by (simp_all add: same_tables_def providers_fresh_def)
  obtain ps s3 where s3: "Provider_GetByIDs (providerIDsFor ?ids ms) s2 = (Inr ps, s3)"
      "\<forall>i \<in> set (providerIDsFor ?ids ms). map_option anon (gm_get ps i) = map_option anon (provider_at s2 i)"
    using Provider_GetByIDs_tables [OF ok2] by blast
  have b0: "build_sound ?b0" using assms(2) by (simp add: build_sound_def)
  obtain b where b: "buildFailoverCandidates env ms ps (rz_breakerEnabled env) (enumerate 0 ?ids) ?b0 = Some b" "build_sound b"
    using build_sound_walk [OF quiet_others_ok [OF assms(1)] b0] by blast
  have "map_option (apsnd anon) (entry_rows ms ps i) = map_option (apsnd anon) (route_at s i)" if "i \<in> set ?ids" for i
    using entry_rows_route [of ?ids ms s ps i] that s2(4) s3(2) eq1 eq2 by simp
  note same = same_routes [of ?ids "entry_rows ms ps" "route_at s", OF this]
  have "bd_candidates b = admitted_candidates env cb t rs" "skip_pairs (bd_skips b) = refused_pairs env cb t rs"
    using build_walk_quiet [OF assms(1) b0 b(1)] same by (simp_all add: rs_def skip_pairs_def no_skips_def)
  with b s1(1) s2(1) s3(1) show ?thesis by (auto simp: resolveHotelModel_def)
qed

end
