(* ===== verification/Resolve_Course.thy ===== *)
theory Resolve_Course
  imports Resolve_Tables Attempt_Contract
begin

text \<open>
  Resolution as a piece of a request's course: it never panics, it either answers the client or leaves
  a non-empty list of candidates the allow-lists permit, and all it puts on the trail are the
  breaker's skips.
\<close>

lemma resolveHotelModel_total:
  assumes "breaker_ok cb" "others_ok env"
  shows "\<exists>r. resolveHotelModel env g s cb = Some r \<and> breaker_ok (rn_breaker r) \<and> summary_ok (rn_skips r)"
proof -
  let ?b0 = "\<lparr>bd_breaker = cb, bd_emitted = [], bd_skips = no_skips, bd_candidates = [], bd_decryptFailures = 0\<rparr>"
  have "build_sound ?b0" using assms(1) by (simp add: build_sound_def)
  note walk = build_sound_walk [OF assms(2) this]
  have built: "rn_breaker (built s' b) = bd_breaker b" "rn_skips (built s' b) = bd_skips b" for s' b by (simp_all add: built_def)
  have "\<exists>r. map_option (built s') (buildFailoverCandidates env ms ps c es ?b0) = Some r \<and>
      breaker_ok (rn_breaker r) \<and> summary_ok (rn_skips r)" for s' ms ps c es
    using walk [of ms ps c es] by (auto simp: build_sound_def built)
  then show ?thesis using assms(1)
    by (simp add: resolveHotelModel_def unresolved_def Let_def split: prod.split sum.split)
qed

lemma on_breaker_course: "idle w \<Longrightarrow> course w [] False (on_breaker cb e w)"
  by (simp add: course_def idle_def on_breaker_def)

definition skip_mark :: "skippedCandidate \<Rightarrow> int \<times> string \<times> string" where
  "skip_mark c = (-1, sc_providerID c, sc_model c)"

lemma append_skips_log:
  "trail_of (append_skips cs l) = trail_of l @ map skip_mark cs" "lg_openAttempt (append_skips cs l) = lg_openAttempt l"
  by (induction cs arbitrary: l)
    (simp_all add: append_skips_def appendBreakerSkip_def appendSkip_def appendAttemptRecord_def trail_of_def skip_mark_def)

lemma append_skips_course: "idle w \<Longrightarrow> course w (map skip_mark cs) False (on_log (append_skips cs) w)"
  by (simp add: course_def idle_def append_skips_log)

lemma fail_with_course: "idle w \<Longrightarrow> course w [] True (fail_with cfg st k l c r w)"
  unfolding fail_with_def by (rule fail_request_course)

lemma tick_course: "course (w\<lparr>lw_tick := Suc (lw_tick w)\<rparr>) tr b w' \<Longrightarrow> idle w \<Longrightarrow> course w tr b w'"
  by (rule course_silent [OF course_tick])

lemma failResolve_course: "idle w \<Longrightarrow> course w [] True (failResolve cfg e w)"
  by (auto simp: failResolve_def moment_def split: resolveError.split
      intro!: tick_course fail_with_course) (simp_all add: idle_def)

lemma fail_skipped_course: "idle w \<Longrightarrow> course w [] True (fail_skipped cfg g r sk w)"
  by (auto simp: fail_skipped_def moment_def Let_def intro!: tick_course fail_with_course) (simp add: idle_def)

text \<open>What the allow-lists permit.\<close>

definition permitted :: "inboundRequest \<Rightarrow> modelCandidate \<Rightarrow> bool" where
  "permitted rq c \<longleftrightarrow> providerAllowFunc (ib_keyAllowed rq) (mc_providerID c) \<and> providerAllowFunc (ib_ownerAllowed rq) (mc_providerID c)"

lemma effective_permits:
  "providerAllowFunc (effectiveAllowedProviders key owner) i \<longleftrightarrow> providerAllowFunc key i \<and> providerAllowFunc owner i"
  by (cases key; cases owner) (auto simp: providerAllowFunc_def)

definition settled :: "inboundRequest \<Rightarrow> modelCandidate list option \<Rightarrow> 'e loopWorld \<Rightarrow> 'e loopWorld \<Rightarrow> (int \<times> string \<times> string) list \<Rightarrow> bool" where
  "settled rq cs w w' tr \<longleftrightarrow> course w tr (cs = None) w' \<and> list_all (\<lambda>x. fst x = -1) tr \<and>
     (\<forall>c. cs = Some c \<longrightarrow> c \<noteq> [] \<and> list_all (permitted rq) c)"

lemma log_name_course: "idle w \<Longrightarrow> course w [] False (on_log (\<lambda>l. l\<lparr>lg_providerName := n\<rparr>) w)"
  by (simp add: course_def idle_def trail_of_def)

lemma allow_candidates_settled:
  assumes "idle w" "cands \<noteq> []" "allow_candidates cfg rq g sk cands w = (cs, w')"
  shows "settled rq cs w w' []"
proof -
  let ?n = "if starts_with (ib_model rq) ''hotel/'' then ''hotel'' else fst (cut_slash (ib_model rq))"
  let ?w = "on_log (\<lambda>l. l\<lparr>lg_providerName := ?n\<rparr>) w"
  let ?eff = "effectiveAllowedProviders (ib_keyAllowed rq) (ib_ownerAllowed rq)"
  have w: "course w [] False ?w" "idle ?w" using log_name_course [OF assms(1)] course_keeps(3) by blast+
  show ?thesis
  proof (cases ?eff)
    case None
    then have "cs = Some cands" "w' = ?w" using assms(3) by (simp_all add: allow_candidates_def)
    with w assms(2) effective_permits [of "ib_keyAllowed rq" "ib_ownerAllowed rq"] None show ?thesis
      by (simp add: settled_def permitted_def list_all_iff) (simp add: providerAllowFunc_def)
  next
    case (Some allowed)
    let ?f = "filter (\<lambda>c. providerAllowFunc (Some allowed) (mc_providerID c)) cands"
    have perm: "list_all (permitted rq) ?f"
      using effective_permits [of "ib_keyAllowed rq" "ib_ownerAllowed rq"] Some
      by (simp add: permitted_def list_all_iff)
    have "(cs = Some ?f \<and> ?f \<noteq> [] \<and> w' = ?w) \<or> (cs = None \<and> course ?w [] True w')"
      using assms(3) fail_skipped_course [OF w(2)] fail_with_course [OF w(2)]
      by (auto simp: allow_candidates_def Some Let_def split: if_splits)
    with perm w(1) show ?thesis using course_silent [OF w(1)] by (auto simp: settled_def)
  qed
qed

lemma resolve_group_settled:
  assumes "idle w" "breaker_ok (gw_breaker (lw_gw w))" "others_ok env"
  shows "\<exists>cs s' w' tr. resolve_group cfg env rq s w = Some (cs, s', w') \<and> settled rq cs w w' tr"
proof -
  let ?g = "hotelGroupName (ib_model rq)"
  obtain r where r: "resolveHotelModel env ?g s (gw_breaker (lw_gw w)) = Some r"
    using resolveHotelModel_total [OF assms(2,3)] by blast
  let ?w1 = "on_breaker (rn_breaker r) (rn_emitted r) w"
  let ?sk = "bk_skipped (rn_skips r)"
  let ?w2 = "on_log (append_skips ?sk) ?w1"
  note w1 = on_breaker_course [OF assms(1), of "rn_breaker r" "rn_emitted r"]
  note i1 = course_keeps(3) [OF w1]
  note w2 = course_silent [OF w1 append_skips_course [OF i1, of ?sk]]
  note i2 = course_keeps(3) [OF w2]
  have marks: "list_all (\<lambda>x. fst x = -1) (map skip_mark ?sk)" by (simp add: skip_mark_def list_all_iff)
  show ?thesis
  proof (cases "rn_result r")
    case (Inl e)
    have "settled rq None w (failResolve cfg e ?w1) []"
      using course_silent [OF w1 failResolve_course [OF i1]] by (simp add: settled_def)
    then show ?thesis using r Inl by (auto simp: resolve_group_def Let_def)
  next
    case (Inr cands)
    show ?thesis
    proof (cases "cands = []")
      case True
      have "course w (map skip_mark ?sk @ []) True (fail_skipped cfg ?g ''no_available_provider'' (rn_skips r) ?w2)"
        by (rule course_trans [OF w2 fail_skipped_course [OF i2]])
      with marks have "settled rq None w (fail_skipped cfg ?g ''no_available_provider'' (rn_skips r) ?w2) (map skip_mark ?sk)"
        by (simp add: settled_def)
      then show ?thesis using r Inr True by (auto simp: resolve_group_def Let_def)
    next
      case False
      obtain cs w' where a: "allow_candidates cfg rq ?g (rn_skips r) cands ?w2 = (cs, w')" by fastforce
      from allow_candidates_settled [OF i2 False a] have s: "settled rq cs ?w2 w' []" .
      then have "course w (map skip_mark ?sk @ []) (cs = None) w'"
        unfolding settled_def by (intro course_trans [OF w2]) simp
      with s marks have "settled rq cs w w' (map skip_mark ?sk)" by (simp add: settled_def)
      then show ?thesis using r Inr False a by (auto simp: resolve_group_def Let_def)
    qed
  qed
qed

lemma resolveCandidates_settled:
  assumes "idle w" "breaker_ok (gw_breaker (lw_gw w))" "others_ok env"
  shows "\<exists>cs s' w' tr. resolveCandidates cfg env rq s w = Some (cs, s', w') \<and> settled rq cs w w' tr"
proof (cases "starts_with (ib_model rq) ''hotel/''")
  case True
  then show ?thesis using resolve_group_settled [OF assms] by (simp add: resolveCandidates_def)
next
  case False
  note no_group = False
  show ?thesis
  proof (cases "CHR ''/'' \<in> set (ib_model rq)")
    case False
    then obtain l c where "resolveCandidates cfg env rq s w = Some (None, s, fail_with cfg 400 (Some KindValidation) l c None w)"
      using no_group unfolding resolveCandidates_def by auto
    moreover have "settled rq None w (fail_with cfg 400 (Some KindValidation) l c None w) []"
      using fail_with_course [OF assms(1)] by (simp add: settled_def)
    ultimately show ?thesis by blast
  next
    case True
    obtain x s' where x: "resolveSpecificProvider env (fst (cut_slash (ib_model rq))) (snd (cut_slash (ib_model rq))) s = (x, s')"
      by fastforce
    show ?thesis
    proof (cases x)
      case (Inl e)
      then have "resolveCandidates cfg env rq s w = Some (None, s', failResolve cfg e w)"
        using no_group True x by (simp add: resolveCandidates_def case_prod_beta)
      moreover have "settled rq None w (failResolve cfg e w) []"
        using failResolve_course [OF assms(1)] by (simp add: settled_def)
      ultimately show ?thesis by blast
    next
      case (Inr cands)
      have "cands \<noteq> []" using x Inr by (auto simp: resolveSpecificProvider_def split: prod.splits sum.splits if_splits)
      moreover obtain cs w' where a: "allow_candidates cfg rq [] no_skips cands w = (cs, w')" by fastforce
      ultimately have "settled rq cs w w' []" using allow_candidates_settled [OF assms(1)] by blast
      with no_group True x Inr a show ?thesis by (auto simp: resolveCandidates_def case_prod_beta)
    qed
  qed
qed

end
