(* ===== verification/Resolve_Properties.thy ===== *)
theory Resolve_Properties
  imports Resolve_Course Loop_Properties Breaker_Properties
begin

text \<open>
  The properties of resolution and of a chat request from its model to its answer.
\<close>

subsection \<open>A gateway to apply the properties to\<close>

text \<open>A group of two members. The circuit of the first is open, the second is admitted. Nothing is
  cached.\<close>

definition demo_group :: group_row where
  "demo_group = \<lparr>gr_id = ''g'', gr_display_model = ''m'', gr_display_name = None, gr_description = None,
     gr_priority_order = OArr [''1'', ''2''], gr_entry_enabled = TSqlNull, gr_group_enabled = Some True,
     gr_auto_created = Some True, gr_auto_disabled_at = None, gr_floor_disabled_at = None, gr_created_at = 1, gr_updated_at = None\<rparr>"

definition demo_tables :: Failover_Store.world where
  "demo_tables = \<lparr>w_groups = [demo_group],
     w_models = [\<lparr>mr_id = ''1'', mr_model_id = ''m'', mr_provider_id = ''p'', mr_enabled = Some True\<rparr>,
                 \<lparr>mr_id = ''2'', mr_model_id = ''m'', mr_provider_id = ''q'', mr_enabled = Some True\<rparr>],
     w_providers = [\<lparr>pr_id = ''p'', pr_name = ''P'', pr_enabled = Some True, pr_created_at = 1\<rparr>,
                    \<lparr>pr_id = ''q'', pr_name = ''Q'', pr_enabled = Some True, pr_created_at = 1\<rparr>],
     w_settings = [], w_cache = new_failover_cache, w_echoClearPending = False, w_faults = [], w_clock = ex_t,
     w_uuids = (\<lambda>n. []), w_seq = 0\<rparr>"

definition demo_store :: store where
  "demo_store = \<lparr>sr_world = demo_tables, sr_models = new_model_cache, sr_providers = new_provider_cache,
     sr_columns = (\<lambda>_. \<lparr>pc_max_in_flight = None, pc_encrypted_key = [], pc_last_used_at = None\<rparr>)\<rparr>"

definition demo_resolve :: resolveEnv where
  "demo_resolve = \<lparr>rz_moment = (\<lambda>_. \<lparr>rm_others = (\<lambda>cb. cb), rm_read = ex_t, rm_write = ex_t, rm_blocked = ex_t\<rparr>),
     rz_breakerEnabled = True, rz_decrypt = (\<lambda>k. Inr k)\<rparr>"

definition demo_request :: inboundRequest where
  "demo_request = \<lparr>ib_model = ''hotel/m'', ib_keyAllowed = Some [''q''], ib_ownerAllowed = None, ib_startTime = ex_t,
     ib_isStreaming = False, ib_longRunning = False\<rparr>"

definition demo_knobs :: requestKnobs where
  "demo_knobs = \<lparr>rk_requestTimeout = minute, rk_circuitBreakerEnabled = True, rk_inflightLimiterEnabled = True,
     rk_serverErrorRetryEnabled = True, rk_hedgingEnabled = False\<rparr>"

definition demo_chat :: "attemptEnv loopWorld" where
  "demo_chat = demo_world\<lparr>lw_gw := ex_gateway\<lparr>gw_breaker := ex_open\<rparr>\<rparr>"

lemma demo_quiet: "quiet demo_resolve ex_t" "others_ok demo_resolve"
  by (simp_all add: quiet_def others_ok_def demo_resolve_def)

lemma demo_fresh: "models_fresh demo_store" "providers_fresh demo_store" "group_fresh demo_tables ''m''"
  by (simp_all add: models_fresh_def providers_fresh_def group_fresh_def demo_store_def demo_tables_def GetCachedByUUID_def
      GetCachedByID_def live_entry_def new_model_cache_def new_provider_cache_def new_failover_cache_def GetCachedFailoverByModel_def)

subsection \<open>Resolution\<close>

text \<open>C5: resolution implements the tables. When the statements succeed, the rows are readable, the caches hold what
  the tables hold, and nothing else touches the breaker, the candidates of an enabled group are exactly
  its enabled entries, in the operator's order, whose model, whose provider on the model's row and whose provider
  row are switched on, less those the breaker denies at that moment and those whose key does not decrypt; the
  denied ones are the skips, in the same order.\<close>

theorem resolution_refines_tables:
  assumes "quiet env t" "breaker_reachable cb" "readable (sr_world s)" "w_faults (sr_world s) = []"
    "models_fresh s" "providers_fresh s" "group_fresh (sr_world s) g"
    "group_at (sr_world s) g = Some fg" "fg_GroupEnabled fg" "fg_PriorityOrder fg \<noteq> []"
  defines "rs \<equiv> routes (route_at s) (enabledEntryIDs fg)"
  shows "\<exists>r. resolveHotelModel env g s cb = Some r \<and>
    (admitted_candidates env cb t rs \<noteq> [] \<longrightarrow> rn_result r = Inr (admitted_candidates env cb t rs)) \<and>
    (admitted_candidates env cb t rs = [] \<longrightarrow> rn_result r = Inr [] \<or> (\<exists>e. rn_result r = Inl (keyFault e))) \<and>
    skip_pairs (rn_skips r) = refused_pairs env cb t rs"
proof -
  obtain s' b where b: "resolveHotelModel env g s cb = Some (built s' b)"
    "bd_candidates b = admitted_candidates env cb t rs" "skip_pairs (bd_skips b) = refused_pairs env cb t rs"
    using resolveHotelModel_tables [OF assms(1) breaker_reachable_ok [OF assms(2)] assms(3-10)] rs_def by auto
  then show ?thesis by (auto simp: built_def)
qed

theorem resolution_refines_tables_witness:
  "\<exists>r. resolveHotelModel demo_resolve ''m'' demo_store ex_open = Some r \<and>
     rn_result r = Inr [\<lparr>mc_providerID = ''q'', mc_providerName = ''Q'', mc_model = ''m'', mc_maxInFlight = None\<rparr>] \<and>
     skip_pairs (rn_skips r) = [(''p'', ''m'')]"
proof -
  define fg where "fg = (case scanFailoverGroup demo_group of Inr fg \<Rightarrow> fg | Inl _ \<Rightarrow> undefined)"
  have g: "group_at (sr_world demo_store) ''m'' = Some fg" "fg_GroupEnabled fg" "fg_PriorityOrder fg = [''1'', ''2'']"
    "enabledEntryIDs fg = [''1'', ''2'']"
    by (simp_all add: fg_def group_at_def demo_store_def demo_tables_def demo_group_def scanFailoverGroup_def
        unmarshal_order_def unmarshal_toggles_def enabledEntryIDs_def IsEntryEnabled_def)
  have s: "sr_world demo_store = demo_tables" "readable demo_tables" "w_faults demo_tables = []"
    by (auto simp: demo_store_def demo_tables_def readable_def)
  have rs: "admitted_candidates demo_resolve ex_open ex_t (routes (route_at demo_store) [''1'', ''2'']) =
      [\<lparr>mc_providerID = ''q'', mc_providerName = ''Q'', mc_model = ''m'', mc_maxInFlight = None\<rparr>]"
    "refused_pairs demo_resolve ex_open ex_t (routes (route_at demo_store) [''1'', ''2'']) = [(''p'', ''m'')]"
    by code_simp+
  show ?thesis
    using resolution_refines_tables [OF demo_quiet(1) ex_open_reachable _ _ demo_fresh(1,2) _ g(1,2)] demo_fresh(3) s g(3,4) rs
    by auto
qed

text \<open>C6: a key never reaches a provider outside its own allow-list or its owner's. Whatever the group, the caches,
  the breaker and the database do, the candidates resolution hands to the failover loop are some, and each is on both lists;
  a list that is present but empty admits none.\<close>

theorem candidates_permitted:
  assumes "lg_openAttempt (lw_log w) = None" "breaker_reachable (gw_breaker (lw_gw w))" "others_ok env"
    "resolveCandidates cfg env rq s w = Some (Some cands, s', w')"
  shows "cands \<noteq> [] \<and> lw_answers w' = lw_answers w \<and>
    (\<forall>c \<in> set cands. (\<forall>ids. ib_keyAllowed rq = Some ids \<longrightarrow> mc_providerID c \<in> set ids) \<and>
                      (\<forall>ids. ib_ownerAllowed rq = Some ids \<longrightarrow> mc_providerID c \<in> set ids))"
proof -
  obtain tr where "settled rq (Some cands) w w' tr"
    using resolveCandidates_settled [of w env cfg rq s] assms breaker_reachable_ok by (auto simp: idle_def)
  then show ?thesis
    by (auto simp: settled_def course_def list_all_iff permitted_def providerAllowFunc_def)
qed

theorem candidates_permitted_witness:
  "\<exists>cands s w. resolveCandidates demo_config demo_resolve demo_request demo_store demo_chat = Some (Some cands, s, w) \<and>
     (\<forall>c \<in> set cands. mc_providerID c = ''q'')"
proof -
  have i: "lg_openAttempt (lw_log demo_chat) = None" "breaker_reachable (gw_breaker (lw_gw demo_chat))"
    using ex_open_reachable by (simp_all add: demo_chat_def demo_world_def)
  have "map_option (\<lambda>(cs, _). cs \<noteq> None) (resolveCandidates demo_config demo_resolve demo_request demo_store demo_chat) = Some True"
    by code_simp
  then obtain cands s w where r: "resolveCandidates demo_config demo_resolve demo_request demo_store demo_chat = Some (Some cands, s, w)"
    by auto
  from candidates_permitted [OF i demo_quiet(2) r] show ?thesis using r by (auto simp: demo_request_def)
qed

text \<open>The summary of the breaker's skips can be rebuilt from their list: keeping all of them gives it back, and
  keeping those a key may use counts exactly those, and calls them all pinned exactly when each is dated and waits out
  a quota pin.\<close>

theorem skip_summary_rebuilt:
  assumes "resolveHotelModel env g s cb = Some r" "breaker_reachable cb" "others_ok env"
  shows "only (\<lambda>_. True) (rn_skips r) = (rn_skips r)\<lparr>bk_skipped := []\<rparr> \<and>
    bk_skips (only keep (rn_skips r)) = length (filter (\<lambda>c. keep (sc_providerID c)) (bk_skipped (rn_skips r))) \<and>
    (bk_allPinned (only keep (rn_skips r)) \<longleftrightarrow> bk_skips (only keep (rn_skips r)) > 0 \<and>
       (\<forall>c \<in> set (bk_skipped (rn_skips r)). keep (sc_providerID c) \<longrightarrow> sc_dated c \<and> sc_pinned c))"
proof -
  have "summary_ok (rn_skips r)"
    using resolveHotelModel_total [OF breaker_reachable_ok [OF assms(2)] assms(3)] assms(1) by (metis option.inject)
  then show ?thesis
    by (simp add: summary_ok_def only_fold fold_note_pinned list_all_iff no_skips_def filter_empty_conv) auto
qed

theorem skip_summary_rebuilt_witness:
  "\<exists>r. resolveHotelModel demo_resolve ''m'' demo_store ex_open = Some r \<and>
     only (\<lambda>_. True) (rn_skips r) = (rn_skips r)\<lparr>bk_skipped := []\<rparr>"
proof -
  have "resolveHotelModel demo_resolve ''m'' demo_store ex_open \<noteq> None"
    using resolveHotelModel_total [OF breaker_reachable_ok [OF ex_open_reachable] demo_quiet(2)] by (metis option.distinct(1))
  then obtain r where r: "resolveHotelModel demo_resolve ''m'' demo_store ex_open = Some r" by auto
  from skip_summary_rebuilt [OF r ex_open_reachable demo_quiet(2)] r show ?thesis by auto
qed

subsection \<open>A chat request\<close>

text \<open>C4: a chat request ends with exactly one answer: from the model it names through resolution and the failover
  loop, whatever the database, the breaker, the providers, the other requests and the client do. (A streaming
  request to which hedging applies goes another way.)\<close>

theorem chat_request_answered_once:
  assumes "lg_openAttempt (lw_log w) = None" "time_passes (lw_env w)" "breaker_reachable (gw_breaker (lw_gw w))" "others_ok env"
    "\<not> (rk_hedgingEnabled k \<and> ib_isStreaming rq)"
  shows "\<exists>s' w' a. ChatCompletions cfg env k rq hedged (attemptCandidate cfg') s w = Some (s', w') \<and>
    lw_answers w' = lw_answers w @ [a]"
proof -
  obtain cs s1 w1 tr where r: "resolveCandidates cfg env rq s w = Some (cs, s1, w1)" "settled rq cs w w1 tr"
    using resolveCandidates_settled [of w env cfg rq s] assms(1,3,4) breaker_reachable_ok by (auto simp: idle_def)
  show ?thesis
  proof (cases cs)
    case None
    with r show ?thesis by (auto simp: ChatCompletions_def settled_def course_def length_Suc_conv)
  next
    case (Some cands)
    let ?w = "loadFailoverConfig k rq w1"
    let ?cfg = "cfg\<lparr>lc_isFailover := starts_with (ib_model rq) ''hotel/''\<rparr>"
    have w1: "lw_env w1 = lw_env w" "idle w1" "lw_answers w1 = lw_answers w"
      using r(2) Some by (auto simp: settled_def course_def)
    have "idle ?w" "lw_env ?w = lw_env w" "lw_answers ?w = lw_answers w"
      using w1 by (simp_all add: loadFailoverConfig_def idle_def)
    moreover from this obtain w2 t2 where "runFailoverLoop ?cfg (attemptCandidate cfg') cands ?w = Some w2" "course ?w t2 True w2"
      using chat.runFailoverLoop_course [of ?w ?cfg cfg' cands] assms(2) by auto
    ultimately show ?thesis using r(1) Some assms(5)
      by (auto simp: ChatCompletions_def Let_def course_def length_Suc_conv)
  qed
qed

theorem chat_request_answered_once_witness:
  "\<exists>s w a. ChatCompletions demo_config demo_resolve demo_knobs demo_request (\<lambda>_ _. None) (attemptCandidate demo_config) demo_store demo_chat =
     Some (s, w) \<and> lw_answers w = [a]"
proof -
  have "lg_openAttempt (lw_log demo_chat) = None" "lw_env demo_chat = demo_env" "lw_answers demo_chat = []"
    "breaker_reachable (gw_breaker (lw_gw demo_chat))" "\<not> (rk_hedgingEnabled demo_knobs \<and> ib_isStreaming demo_request)"
    using ex_open_reachable by (simp_all add: demo_chat_def demo_world_def demo_knobs_def)
  with chat_request_answered_once [of demo_chat demo_resolve demo_knobs demo_request demo_config "\<lambda>_ _. None" demo_config demo_store]
    demo_keeps(3) demo_quiet(2) show ?thesis by auto
qed





end
