(* ===== verification/Model_Table.thy ===== *)
theory Model_Table
  imports Complex_Main Row_Readers
begin

text \<open>
  The writers of the models table: discovery's upsert and missing-model sweep, the operator's
  edits, the traffic retirement and its undo, the prune, the dismissals and unpins of the claim
  list and the two reconciles of a fleet import (\<open>internal/model/model.go\<close>, \<open>retire.go\<close>,
  \<open>prune.go\<close>, \<open>internal/api/discovery_claims.go\<close>, \<open>configsync_apply_models.go\<close>).

  A \<open>model_full\<close> is a row with every column; its first four columns are the \<open>model_row\<close> the
  other repositories read. A nullable column is an option, and a condition on a \<open>NULL\<close> does not
  hold. A price is the value its \<open>REAL\<close> column holds. The table and the store of the readers
  move together: \<open>put_entries\<close> writes both. A statement fails when the list of faults of the
  world says so, and then changes nothing.
\<close>

subsection \<open>Rows\<close>

text \<open>One value for each price column, or for each key of the \<open>price_sources\<close> object.\<close>

record 'a price4 =
  p4_input :: "'a option"
  p4_cache_hit :: "'a option"
  p4_output :: "'a option"
  p4_search :: "'a option"

record model_full = model_row +
  me_name :: "string option"
  me_description :: "string option"
  me_display_name :: "string option"
  me_capabilities :: "string option"
  me_params :: "string option"
  me_modality :: "string option"
  me_input_modalities :: "string option"
  me_output_modalities :: "string option"
  me_context_length :: "int option"
  me_max_output_tokens :: "int option"
  me_prices :: "real price4"
  me_price_sources :: "string price4"
  me_owned_by :: "string option"
  me_disabled_manually :: "bool option"
  me_display_name_customized :: "bool option"
  me_price_customized :: bool
  me_limits_customized :: bool
  me_capabilities_customized :: bool
  me_created_at :: instant
  me_last_seen_at :: "instant option"
  me_missing_scans :: int
  me_discovery_dismissed_at :: "instant option"
  me_auto_retired_at :: "instant option"
  me_manually_enabled_at :: "instant option"

text \<open>A row of \<open>discovery_changes\<close>: the models its diff names as added or re-enabled.\<close>

record journal_row =
  jr_provider_id :: uuid
  jr_detected_at :: instant
  jr_returned :: "string list"

record model_store =
  ms_store :: store
  ms_entries :: "model_full list"
  ms_journal :: "journal_row list"

definition put_entries :: "model_full list \<Rightarrow> model_store \<Rightarrow> model_store" where
  "put_entries es s = s\<lparr>ms_entries := es,
     ms_store := (ms_store s)\<lparr>sr_world := (sr_world (ms_store s))\<lparr>w_models := map model_row.truncate es\<rparr>\<rparr>\<rparr>"

definition ms_now :: "model_store \<Rightarrow> instant" where "ms_now s = sr_now (ms_store s)"

definition ms_providers :: "model_store \<Rightarrow> provider_row list" where
  "ms_providers s = w_providers (sr_world (ms_store s))"

definition ms_fault :: "model_store \<Rightarrow> string option \<times> model_store" where
  "ms_fault s = (case statement_fault (ms_store s) of (e, st) \<Rightarrow> (e, s\<lparr>ms_store := st\<rparr>))"

definition ms_invalidate :: "model_store \<Rightarrow> model_store" where
  "ms_invalidate s = s\<lparr>ms_store := (ms_store s)\<lparr>sr_models := InvalidateModelCache (sr_models (ms_store s))\<rparr>\<rparr>"

definition ms_Get :: "uuid \<Rightarrow> model_store \<Rightarrow> (db_error + Model) \<times> model_store" where
  "ms_Get i s = (case Model_Get i (ms_store s) of (r, st) \<Rightarrow> (r, s\<lparr>ms_store := st\<rparr>))"

definition is_false :: "bool option \<Rightarrow> bool" where "is_false b \<longleftrightarrow> b = Some False"

text \<open>\<open>UPDATE models SET f WHERE P\<close> over the rows of the table.\<close>

definition update_where :: "('r \<Rightarrow> bool) \<Rightarrow> ('r \<Rightarrow> 'r) \<Rightarrow> 'r list \<Rightarrow> 'r list" where
  "update_where P f rs = map (\<lambda>r. if P r then f r else r) rs"

definition coalesce :: "'a option \<Rightarrow> 'a option \<Rightarrow> 'a option" where
  "coalesce a b = (case a of None \<Rightarrow> b | Some _ \<Rightarrow> a)"

definition map4 :: "('a option \<Rightarrow> 'b option \<Rightarrow> 'c option) \<Rightarrow> 'a price4 \<Rightarrow> 'b price4 \<Rightarrow> 'c price4" where
  "map4 f a b = \<lparr>p4_input = f (p4_input a) (p4_input b), p4_cache_hit = f (p4_cache_hit a) (p4_cache_hit b),
     p4_output = f (p4_output a) (p4_output b), p4_search = f (p4_search a) (p4_search b)\<rparr>"

definition none4 :: "'a price4" where
  "none4 = \<lparr>p4_input = None, p4_cache_hit = None, p4_output = None, p4_search = None\<rparr>"

text \<open>\<open>a || b\<close> on JSONB objects: the right operand wins where both have the key.\<close>

definition jsonb_concat :: "'a price4 \<Rightarrow> 'a price4 \<Rightarrow> 'a price4" where
  "jsonb_concat a b = map4 (\<lambda>x y. coalesce y x) a b"

subsection \<open>Discovery\<close>

text \<open>The in-memory model a scan hands to the upsert.\<close>

record scanned =
  sc_ID :: uuid
  sc_ProviderID :: uuid
  sc_ModelID :: string
  sc_Name :: string
  sc_Description :: string
  sc_DisplayName :: string
  sc_Capabilities :: string
  sc_Params :: string
  sc_Modality :: string
  sc_InputModalities :: string
  sc_OutputModalities :: string
  sc_ContextLength :: "int option"
  sc_MaxOutputTokens :: "int option"
  sc_Prices :: "real price4"
  sc_PriceSources :: "string price4"
  sc_OwnedBy :: string
  sc_Enabled :: bool
  sc_LiveContextLength :: bool
  sc_LiveMaxOutputTokens :: bool
  sc_PreserveCapabilities :: bool

definition MarkLiveMetaFromCurrent :: "scanned \<Rightarrow> scanned" where
  "MarkLiveMetaFromCurrent m = m\<lparr>sc_LiveContextLength := sc_ContextLength m \<noteq> None,
     sc_LiveMaxOutputTokens := sc_MaxOutputTokens m \<noteq> None\<rparr>"

definition StampPriceSources :: "string \<Rightarrow> scanned \<Rightarrow> scanned" where
  "StampPriceSources source m = m\<lparr>sc_PriceSources :=
     map4 (\<lambda>p s. if p \<noteq> None \<and> s = None then Some source else s) (sc_Prices m) (sc_PriceSources m)\<rparr>"

definition inserted_entry :: "instant \<Rightarrow> scanned \<Rightarrow> model_full" where
  "inserted_entry now m = \<lparr>mr_id = sc_ID m, mr_model_id = sc_ModelID m, mr_provider_id = sc_ProviderID m,
     mr_enabled = Some (sc_Enabled m), me_name = Some (sc_Name m), me_description = Some (sc_Description m),
     me_display_name = Some (sc_DisplayName m), me_capabilities = Some (sc_Capabilities m),
     me_params = Some (sc_Params m), me_modality = Some (sc_Modality m),
     me_input_modalities = Some (sc_InputModalities m), me_output_modalities = Some (sc_OutputModalities m),
     me_context_length = sc_ContextLength m, me_max_output_tokens = sc_MaxOutputTokens m,
     me_prices = sc_Prices m, me_price_sources = sc_PriceSources m, me_owned_by = Some (sc_OwnedBy m),
     me_disabled_manually = Some False, me_display_name_customized = Some False,
     me_price_customized = False, me_limits_customized = False, me_capabilities_customized = False,
     me_created_at = now, me_last_seen_at = Some now, me_missing_scans = 0,
     me_discovery_dismissed_at = None, me_auto_retired_at = None, me_manually_enabled_at = None\<rparr>"

text \<open>A limit: the operator's pin keeps the stored value, a live reading wins, anything else fills.\<close>

definition merge_limit :: "bool \<Rightarrow> bool \<Rightarrow> int option \<Rightarrow> int option \<Rightarrow> int option" where
  "merge_limit customized live stored incoming =
     (if customized then coalesce stored incoming
      else if live then coalesce incoming stored else coalesce stored incoming)"

definition merge_price :: "bool \<Rightarrow> 'a option \<Rightarrow> 'a option \<Rightarrow> 'a option" where
  "merge_price customized stored incoming =
     (if customized then coalesce stored incoming else coalesce incoming stored)"

definition merged_entry :: "instant \<Rightarrow> scanned \<Rightarrow> model_full \<Rightarrow> model_full" where
  "merged_entry now m r = r\<lparr>
     me_name := Some (sc_Name m), me_description := Some (sc_Description m),
     me_display_name := (if is_true (me_display_name_customized r) then me_display_name r else Some (sc_DisplayName m)),
     me_capabilities := (if me_capabilities_customized r \<or> sc_PreserveCapabilities m
                         then coalesce (me_capabilities r) (Some (sc_Capabilities m)) else Some (sc_Capabilities m)),
     me_params := Some (sc_Params m), me_modality := Some (sc_Modality m),
     me_input_modalities := Some (sc_InputModalities m), me_output_modalities := Some (sc_OutputModalities m),
     me_context_length := merge_limit (me_limits_customized r) (sc_LiveContextLength m) (me_context_length r) (sc_ContextLength m),
     me_max_output_tokens := merge_limit (me_limits_customized r) (sc_LiveMaxOutputTokens m) (me_max_output_tokens r) (sc_MaxOutputTokens m),
     me_prices := map4 (merge_price (me_price_customized r)) (me_prices r) (sc_Prices m),
     me_price_sources := (if me_price_customized r then jsonb_concat (sc_PriceSources m) (me_price_sources r)
                          else jsonb_concat (me_price_sources r) (sc_PriceSources m)),
     me_owned_by := Some (sc_OwnedBy m),
     mr_enabled := (if is_false (me_disabled_manually r) \<and> me_auto_retired_at r = None then Some True else mr_enabled r),
     me_missing_scans := 0,
     me_manually_enabled_at := None,
     me_discovery_dismissed_at := (if me_auto_retired_at r = None then None else me_discovery_dismissed_at r),
     me_last_seen_at := Some now\<rparr>"

definition same_model :: "scanned \<Rightarrow> model_full \<Rightarrow> bool" where
  "same_model m r \<longleftrightarrow> mr_provider_id r = sc_ProviderID m \<and> mr_model_id r = sc_ModelID m"

text \<open>
  The cache is dropped whether or not the statement succeeded. A new row whose provider is gone,
  or whose id another model has, violates a constraint.
\<close>

definition Upsert :: "scanned \<Rightarrow> model_store \<Rightarrow> db_error option \<times> model_store" where
  "Upsert m s =
     (case ms_fault s of
        (Some e, s) \<Rightarrow> (Some (DbError e), ms_invalidate s)
      | (None, s) \<Rightarrow>
          if \<exists>r\<in>set (ms_entries s). same_model m r
          then (None, ms_invalidate (put_entries (update_where (same_model m) (merged_entry (ms_now s) m) (ms_entries s)) s))
          else if (\<exists>r\<in>set (ms_entries s). mr_id r = sc_ID m) \<or> \<not> (\<exists>p\<in>set (ms_providers s). pr_id p = sc_ProviderID m)
          then (Some (DbError ''constraint''), ms_invalidate s)
          else (None, ms_invalidate (put_entries (ms_entries s @ [inserted_entry (ms_now s) m]) s)))"

definition MissingScanThreshold :: int where "MissingScanThreshold = 2"

record DisabledModelRef =
  dr_ID :: uuid
  dr_ModelID :: string

definition ref_of :: "model_full \<Rightarrow> DisabledModelRef" where
  "ref_of r = \<lparr>dr_ID = mr_id r, dr_ModelID = mr_model_id r\<rparr>"

definition missed :: "uuid \<Rightarrow> string list \<Rightarrow> model_full \<Rightarrow> bool" where
  "missed providerID present r \<longleftrightarrow>
     mr_provider_id r = providerID \<and> mr_model_id r \<notin> set present \<and> is_true (mr_enabled r)"

definition count_miss :: "model_full \<Rightarrow> model_full" where
  "count_miss r =
     (if me_missing_scans r + 1 \<ge> MissingScanThreshold \<and> me_manually_enabled_at r = None
      then r\<lparr>me_missing_scans := 0, mr_enabled := Some False\<rparr>
      else r\<lparr>me_missing_scans := me_missing_scans r + 1\<rparr>)"

definition reset_streak :: "uuid \<Rightarrow> string list \<Rightarrow> model_full \<Rightarrow> model_full" where
  "reset_streak providerID present r =
     (if mr_provider_id r = providerID \<and> mr_model_id r \<in> set present \<and> me_missing_scans r > 0
      then r\<lparr>me_missing_scans := 0\<rparr> else r)"

text \<open>Both updates of the statement read the rows as they were: they concern disjoint rows. The
  rows returned by the second one are split on its two flags.\<close>

definition RecordMissingModels ::
    "uuid \<Rightarrow> string list \<Rightarrow> model_store \<Rightarrow> (db_error + DisabledModelRef list \<times> DisabledModelRef list) \<times> model_store" where
  "RecordMissingModels providerID present s =
     (if present = [] then (Inr ([], []), s)
      else case ms_fault s of
        (Some e, s) \<Rightarrow> (Inl (DbError e), s)
      | (None, s) \<Rightarrow>
          (let returned = map count_miss (filter (missed providerID present) (ms_entries s));
               managed = filter (\<lambda>r. me_manually_enabled_at r = None) returned;
               disabled = map ref_of (filter (\<lambda>r. is_false (mr_enabled r)) managed);
               pending = map ref_of (filter (\<lambda>r. \<not> is_false (mr_enabled r)) managed);
               rows = map (reset_streak providerID present) (update_where (missed providerID present) count_miss (ms_entries s))
           in (Inr (disabled, pending), ms_invalidate (put_entries rows s))))"

subsection \<open>The operator\<close>

definition operator_choice :: "instant \<Rightarrow> bool \<Rightarrow> model_full \<Rightarrow> model_full" where
  "operator_choice now b r = r\<lparr>mr_enabled := Some b, me_disabled_manually := Some (\<not> b),
     me_auto_retired_at := None, me_discovery_dismissed_at := None,
     me_manually_enabled_at := (if b then Some now else None)\<rparr>"

definition SetEnabled :: "uuid \<Rightarrow> bool \<Rightarrow> model_store \<Rightarrow> (db_error + Model) \<times> model_store" where
  "SetEnabled i b s =
     (case ms_fault s of
        (Some e, s) \<Rightarrow> (Inl (DbError e), s)
      | (None, s) \<Rightarrow>
          ms_Get i (ms_invalidate (put_entries
            (update_where (\<lambda>r. mr_id r = i) (operator_choice (ms_now s) b) (ms_entries s)) s)))"

record UpdateModelRequest =
  ur_DisplayName :: "string option"
  ur_ContextLength :: "int option"
  ur_MaxOutputTokens :: "int option"
  ur_Prices :: "real price4"
  ur_PriceCustomized :: "bool option"
  ur_LimitsCustomized :: "bool option"
  ur_Capabilities :: "string option"
  ur_CapabilitiesCustomized :: "bool option"
  ur_Enabled :: "bool option"

text \<open>A \<open>SET\<close> clause: the column it assigns and its effect on the row. Every right-hand side
  reads at most its own column.\<close>

type_synonym set_clause = "string \<times> (model_full \<Rightarrow> model_full)"

definition when_some :: "'a option \<Rightarrow> ('a \<Rightarrow> set_clause list) \<Rightarrow> set_clause list" where
  "when_some a f = (case a of None \<Rightarrow> [] | Some x \<Rightarrow> f x)"

definition setDisplayName :: "UpdateModelRequest \<Rightarrow> set_clause list" where
  "setDisplayName req = when_some (ur_DisplayName req) (\<lambda>n.
     if n = [] then [(''display_name'', me_display_name_update (\<lambda>_. None)),
                     (''display_name_customized'', me_display_name_customized_update (\<lambda>_. Some False))]
     else [(''display_name'', me_display_name_update (\<lambda>_. Some n)),
           (''display_name_customized'', me_display_name_customized_update (\<lambda>_. Some True))])"

definition setLimits :: "UpdateModelRequest \<Rightarrow> set_clause list" where
  "setLimits req =
     (let unpinLimits = (ur_LimitsCustomized req = Some False);
          edits = (if unpinLimits then []
                   else when_some (ur_ContextLength req) (\<lambda>n. [(''context_length'', me_context_length_update (\<lambda>_. Some n))])
                      @ when_some (ur_MaxOutputTokens req) (\<lambda>n. [(''max_output_tokens'', me_max_output_tokens_update (\<lambda>_. Some n))]))
      in edits @
         (if unpinLimits then [(''limits_customized'', me_limits_customized_update (\<lambda>_. False)),
                               (''context_length'', me_context_length_update (\<lambda>_. None)),
                               (''max_output_tokens'', me_max_output_tokens_update (\<lambda>_. None))]
          else if edits \<noteq> [] \<or> ur_LimitsCustomized req = Some True
          then [(''limits_customized'', me_limits_customized_update (\<lambda>_. True))]
          else []))"

definition price_edits :: "real price4 \<Rightarrow> set_clause list" where
  "price_edits p =
       when_some (p4_input p) (\<lambda>x. [(''input_price_per_million'', me_prices_update (p4_input_update (\<lambda>_. Some x)))])
     @ when_some (p4_cache_hit p) (\<lambda>x. [(''input_price_per_million_cache_hit'', me_prices_update (p4_cache_hit_update (\<lambda>_. Some x)))])
     @ when_some (p4_output p) (\<lambda>x. [(''output_price_per_million'', me_prices_update (p4_output_update (\<lambda>_. Some x)))])
     @ when_some (p4_search p) (\<lambda>x. [(''search_price_per_thousand'', me_prices_update (p4_search_update (\<lambda>_. Some x)))])"

definition PriceSourceManual :: string where "PriceSourceManual = ''manual''"

definition edited_sources :: "real price4 \<Rightarrow> string price4" where
  "edited_sources p = map4 (\<lambda>x (_ :: unit option). case x of None \<Rightarrow> None | Some _ \<Rightarrow> Some PriceSourceManual) p none4"

definition setPrices :: "UpdateModelRequest \<Rightarrow> set_clause list" where
  "setPrices req =
     (let unpin = (ur_PriceCustomized req = Some False);
          edits = (if unpin then [] else price_edits (ur_Prices req));
          priceEdited = (edits \<noteq> [])
      in edits
       @ (if unpin then [(''price_customized'', me_price_customized_update (\<lambda>_. False)),
              (''input_price_per_million'', me_prices_update (p4_input_update (\<lambda>_. None))),
              (''input_price_per_million_cache_hit'', me_prices_update (p4_cache_hit_update (\<lambda>_. None))),
              (''output_price_per_million'', me_prices_update (p4_output_update (\<lambda>_. None))),
              (''search_price_per_thousand'', me_prices_update (p4_search_update (\<lambda>_. None))),
              (''price_sources'', me_price_sources_update (\<lambda>_. none4))]
          else if priceEdited
          then [(''price_sources'', me_price_sources_update (\<lambda>src. jsonb_concat src (edited_sources (ur_Prices req))))]
          else [])
       @ (if (ur_PriceCustomized req \<noteq> None \<and> \<not> unpin) \<or> priceEdited
          then [(''price_customized'', me_price_customized_update (\<lambda>_. True))] else []))"

definition setCapabilities :: "UpdateModelRequest \<Rightarrow> set_clause list" where
  "setCapabilities req =
     (if ur_CapabilitiesCustomized req = Some False
      then [(''capabilities_customized'', me_capabilities_customized_update (\<lambda>_. False))]
      else case ur_Capabilities req of
        Some b \<Rightarrow> [(''capabilities'', me_capabilities_update (\<lambda>_. Some b)),
                   (''capabilities_customized'', me_capabilities_customized_update (\<lambda>_. True))]
      | None \<Rightarrow> if ur_CapabilitiesCustomized req \<noteq> None
                then [(''capabilities_customized'', me_capabilities_customized_update (\<lambda>_. True))] else [])"

definition setEnabledClauses :: "instant \<Rightarrow> UpdateModelRequest \<Rightarrow> set_clause list" where
  "setEnabledClauses now req = when_some (ur_Enabled req) (\<lambda>b.
     [(''enabled'', mr_enabled_update (\<lambda>_. Some b)),
      (''disabled_manually'', me_disabled_manually_update (\<lambda>_. Some (\<not> b))),
      (''auto_retired_at'', me_auto_retired_at_update (\<lambda>_. None)),
      (''discovery_dismissed_at'', me_discovery_dismissed_at_update (\<lambda>_. None)),
      (''manually_enabled_at'', me_manually_enabled_at_update (\<lambda>_. if b then Some now else None))])"

definition update_clauses :: "instant \<Rightarrow> UpdateModelRequest \<Rightarrow> set_clause list" where
  "update_clauses now req =
     setDisplayName req @ setLimits req @ setPrices req @ setCapabilities req @ setEnabledClauses now req"

definition apply_clauses :: "set_clause list \<Rightarrow> model_full \<Rightarrow> model_full" where
  "apply_clauses cs r = fold (\<lambda>c r. snd c r) cs r"

text \<open>The database refuses a statement that assigns a column twice.\<close>

definition Update :: "uuid \<Rightarrow> UpdateModelRequest \<Rightarrow> model_store \<Rightarrow> (db_error + Model) \<times> model_store" where
  "Update i req s =
     (let cs = update_clauses (ms_now s) req
      in if cs = [] then ms_Get i s
         else case ms_fault s of
           (Some e, s) \<Rightarrow> (Inl (DbError e), s)
         | (None, s) \<Rightarrow>
             if \<not> distinct (map fst cs) then (Inl (DbError ''multiple assignments to same column''), s)
             else if \<not> (\<exists>r\<in>set (ms_entries s). mr_id r = i) then (Inl ErrNoRows, s)
             else ms_Get i (ms_invalidate (put_entries
                    (update_where (\<lambda>r. mr_id r = i) (apply_clauses cs) (ms_entries s)) s)))"

definition Model_DeleteByIDs :: "uuid list \<Rightarrow> model_store \<Rightarrow> (db_error + nat) \<times> model_store" where
  "Model_DeleteByIDs ids s =
     (if ids = [] then (Inr 0, s)
      else case ms_fault s of
        (Some e, s) \<Rightarrow> (Inl (DbError e), s)
      | (None, s) \<Rightarrow>
          (Inr (length (filter (\<lambda>r. mr_id r \<in> set ids) (ms_entries s))),
           ms_invalidate (put_entries (filter (\<lambda>r. mr_id r \<notin> set ids) (ms_entries s)) s)))"

definition Model_DeleteByID :: "uuid \<Rightarrow> model_store \<Rightarrow> db_error option \<times> model_store" where
  "Model_DeleteByID i s =
     (case ms_fault s of
        (Some e, s) \<Rightarrow> (Some (DbError e), s)
      | (None, s) \<Rightarrow> (None, ms_invalidate (put_entries (filter (\<lambda>r. mr_id r \<noteq> i) (ms_entries s)) s)))"

text \<open>The claim list: dismissing a gone model, handing a pinned one back to discovery.\<close>

definition named_by :: "uuid \<Rightarrow> string list \<Rightarrow> model_full \<Rightarrow> bool" where
  "named_by providerID modelIDs r \<longleftrightarrow> mr_provider_id r = providerID \<and> mr_model_id r \<in> set modelIDs"

definition returning :: "(model_full \<Rightarrow> bool) \<Rightarrow> (model_full \<Rightarrow> model_full) \<Rightarrow> model_store \<Rightarrow>
    (db_error + string list) \<times> model_store" where
  "returning P f s =
     (case ms_fault s of
        (Some e, s) \<Rightarrow> (Inl (DbError e), s)
      | (None, s) \<Rightarrow> (Inr (map mr_model_id (filter P (ms_entries s))), put_entries (update_where P f (ms_entries s)) s))"

definition setModelsDismissed :: "uuid \<Rightarrow> string list \<Rightarrow> model_store \<Rightarrow> (db_error + string list) \<times> model_store" where
  "setModelsDismissed providerID modelIDs s =
     returning (\<lambda>r. named_by providerID modelIDs r \<and> is_false (mr_enabled r) \<and> is_false (me_disabled_manually r))
       (\<lambda>r. r\<lparr>me_discovery_dismissed_at := Some (ms_now s)\<rparr>) s"

definition unpin :: "model_full \<Rightarrow> model_full" where
  "unpin r = r\<lparr>me_manually_enabled_at := None, me_missing_scans := 0\<rparr>"

definition setModelsUnpinned :: "uuid \<Rightarrow> string list \<Rightarrow> model_store \<Rightarrow> (db_error + string list) \<times> model_store" where
  "setModelsUnpinned providerID modelIDs s =
     returning (\<lambda>r. named_by providerID modelIDs r \<and> me_manually_enabled_at r \<noteq> None)
       unpin s"

subsection \<open>Listings\<close>

definition list_query :: "(model_row \<times> provider_row \<Rightarrow> bool) \<Rightarrow> model_store \<Rightarrow> (db_error + Model list) \<times> model_store" where
  "list_query P s =
     (case ms_fault s of
        (Some e, s) \<Rightarrow> (Inl (DbError e), s)
      | (None, s) \<Rightarrow> (scanModels (sort_key (\<lambda>r. mr_model_id (fst r)) (filter P (joined_models (sr_world (ms_store s))))), s))"

definition ListFiltered :: "uuid option \<Rightarrow> bool option \<Rightarrow> model_store \<Rightarrow> (db_error + Model list) \<times> model_store" where
  "ListFiltered providerID providerEnabled = list_query (\<lambda>(m, p).
     (case providerID of None \<Rightarrow> True | Some i \<Rightarrow> mr_provider_id m = i) \<and>
     (case providerEnabled of None \<Rightarrow> True | Some b \<Rightarrow> is_true (pr_enabled p) = b))"

definition Model_List :: "uuid option \<Rightarrow> model_store \<Rightarrow> (db_error + Model list) \<times> model_store" where
  "Model_List providerID = ListFiltered providerID None"

definition ListEnabled :: "model_store \<Rightarrow> (db_error + Model list) \<times> model_store" where
  "ListEnabled = list_query (\<lambda>(m, p). is_true (mr_enabled m) \<and> is_true (pr_enabled p))"

definition PinnedModelIDs :: "uuid \<Rightarrow> model_store \<Rightarrow> (db_error + string set) \<times> model_store" where
  "PinnedModelIDs providerID s =
     (case ms_fault s of
        (Some e, s) \<Rightarrow> (Inl (DbError e), s)
      | (None, s) \<Rightarrow>
          (Inr (set (map mr_model_id (filter (\<lambda>r. mr_provider_id r = providerID \<and> me_manually_enabled_at r \<noteq> None) (ms_entries s)))), s))"

end
