(* ===== verification/Model_Retire.thy ===== *)
theory Model_Retire
  imports Model_Table
begin

text \<open>
  The traffic retirement of a model and its undo (\<open>internal/model/retire.go\<close>) and the prune of the
  rows discovery retired (\<open>internal/model/prune.go\<close>).

  The retirement is staged: \<open>autoRetireStage\<close> opens the transaction, locks the row, checks it and
  writes it, and nobody else sees that write before \<open>autoRetireCommit\<close>. \<open>AutoRetireIfConfirmed\<close> is the
  two around the caller's confirmation; the interleavings with requests take the pieces.
\<close>

subsection \<open>Traffic retirement\<close>

definition entry_by_id :: "uuid \<Rightarrow> model_store \<Rightarrow> model_full option" where
  "entry_by_id i s = find (\<lambda>r. mr_id r = i) (ms_entries s)"

text \<open>What the locked row says: \<open>None\<close> when a flag is \<open>NULL\<close>, which a Go \<open>bool\<close> cannot hold.\<close>

definition still_routable :: "model_full \<Rightarrow> bool option" where
  "still_routable r =
     (case (mr_enabled r, me_disabled_manually r) of
        (Some enabled, Some manual) \<Rightarrow> Some (enabled \<and> \<not> manual \<and> me_auto_retired_at r = None)
      | _ \<Rightarrow> None)"

definition retired_entry :: "instant \<Rightarrow> model_full \<Rightarrow> model_full" where
  "retired_entry now r = r\<lparr>mr_enabled := Some False, me_auto_retired_at := Some now\<rparr>"

definition autoRetireStage :: "uuid \<Rightarrow> model_store \<Rightarrow> (db_error + instant option) \<times> model_store" where
  "autoRetireStage i s =
     (case ms_fault s of
        (Some e, s) \<Rightarrow> (Inl (DbError e), s)
      | (None, s) \<Rightarrow>
        (case ms_fault s of
           (Some e, s) \<Rightarrow> (Inl (DbError e), s)
         | (None, s) \<Rightarrow>
           (case entry_by_id i s of
              None \<Rightarrow> (Inr None, s)
            | Some r \<Rightarrow>
                (case still_routable r of
                   None \<Rightarrow> (Inl (ScanError ''enabled''), s)
                 | Some False \<Rightarrow> (Inr None, s)
                 | Some True \<Rightarrow>
                     (case ms_fault s of
                        (Some e, s) \<Rightarrow> (Inl (DbError e), s)
                      | (None, s) \<Rightarrow> (Inr (Some (ms_now s)), s))))))"

definition autoRetireCommit :: "uuid \<Rightarrow> instant \<Rightarrow> model_store \<Rightarrow> (db_error + bool) \<times> model_store" where
  "autoRetireCommit i stamp s =
     (case ms_fault s of
        (Some e, s) \<Rightarrow> (Inl (DbError e), s)
      | (None, s) \<Rightarrow>
          (Inr True, ms_invalidate (put_entries (update_where (\<lambda>r. mr_id r = i) (retired_entry stamp) (ms_entries s)) s)))"

definition AutoRetireIfConfirmed :: "uuid \<Rightarrow> bool \<Rightarrow> model_store \<Rightarrow> (db_error + bool) \<times> model_store" where
  "AutoRetireIfConfirmed i confirm s =
     (case autoRetireStage i s of
        (Inl e, s) \<Rightarrow> (Inl e, s)
      | (Inr None, s) \<Rightarrow> (Inr False, s)
      | (Inr (Some stamp), s) \<Rightarrow> if \<not> confirm then (Inr False, s) else autoRetireCommit i stamp s)"

definition as_retired :: "uuid \<Rightarrow> model_full \<Rightarrow> bool" where
  "as_retired i r \<longleftrightarrow> mr_id r = i \<and> is_false (mr_enabled r) \<and> is_false (me_disabled_manually r)
     \<and> me_auto_retired_at r \<noteq> None"

definition RevertAutoRetire :: "uuid \<Rightarrow> model_store \<Rightarrow> (db_error + bool) \<times> model_store" where
  "RevertAutoRetire i s =
     (case ms_fault s of
        (Some e, s) \<Rightarrow> (Inl (DbError e), s)
      | (None, s) \<Rightarrow>
          if filter (as_retired i) (ms_entries s) = [] then (Inr False, s)
          else (Inr True, ms_invalidate (put_entries
                 (update_where (as_retired i) (\<lambda>r. r\<lparr>mr_enabled := Some True, me_auto_retired_at := None\<rparr>) (ms_entries s)) s)))"

subsection \<open>Prune\<close>

definition notFlappedSince :: "instant \<Rightarrow> journal_row list \<Rightarrow> model_full \<Rightarrow> bool" where
  "notFlappedSince since js r \<longleftrightarrow>
     \<not> (\<exists>j\<in>set js. jr_provider_id j = mr_provider_id r \<and> jr_detected_at j \<ge> since \<and> mr_model_id r \<in> set (jr_returned j))"

definition last_seen :: "model_full \<Rightarrow> instant" where
  "last_seen r = (case me_last_seen_at r of Some t \<Rightarrow> t | None \<Rightarrow> me_created_at r)"

definition provider_on :: "model_store \<Rightarrow> model_full \<Rightarrow> bool" where
  "provider_on s r \<longleftrightarrow> (\<exists>p\<in>set (ms_providers s). pr_id p = mr_provider_id r \<and> is_true (pr_enabled p))"

text \<open>The state of a row that lets the prune delete it.\<close>

definition unclaimed :: "model_full \<Rightarrow> bool" where
  "unclaimed r \<longleftrightarrow> is_false (mr_enabled r) \<and> is_false (me_disabled_manually r)
     \<and> me_manually_enabled_at r = None \<and> me_auto_retired_at r = None"

definition selectPruneCandidates ::
    "instant \<Rightarrow> instant \<Rightarrow> uuid list \<Rightarrow> int \<Rightarrow> model_store \<Rightarrow> (db_error + model_full list) \<times> model_store" where
  "selectPruneCandidates horizon flapSince providerIDs limit s =
     (if providerIDs = [] \<or> limit \<le> 0 then (Inr [], s)
      else case ms_fault s of
        (Some e, s) \<Rightarrow> (Inl (DbError e), s)
      | (None, s) \<Rightarrow>
          (Inr (take (nat limit) (sort_key last_seen (sort_key mr_id
             (filter (\<lambda>r. mr_provider_id r \<in> set providerIDs \<and> provider_on s r \<and> unclaimed r
                        \<and> last_seen r < horizon \<and> notFlappedSince flapSince (ms_journal s) r) (ms_entries s))))), s))"

definition aliveModelIDs :: "uuid list \<Rightarrow> model_store \<Rightarrow> (db_error + uuid list) \<times> model_store" where
  "aliveModelIDs ids s =
     (case ms_fault s of
        (Some e, s) \<Rightarrow> (Inl (DbError e), s)
      | (None, s) \<Rightarrow> (Inr (map mr_id (filter (\<lambda>r. mr_id r \<in> set ids) (ms_entries s))), s))"

definition deletePruneCandidates ::
    "model_full list \<Rightarrow> instant \<Rightarrow> model_store \<Rightarrow> (db_error + model_full list) \<times> model_store" where
  "deletePruneCandidates candidates flapSince s =
     (if candidates = [] then (Inr [], s)
      else case ms_fault s of
        (Some e, s) \<Rightarrow> (Inl (DbError e), s)
      | (None, s) \<Rightarrow>
          (let ids = map mr_id candidates;
               doomed = (\<lambda>r. mr_id r \<in> set ids \<and> unclaimed r \<and> provider_on s r
                             \<and> notFlappedSince flapSince (ms_journal s) r);
               affected = length (filter doomed (ms_entries s));
               s = put_entries (filter (\<lambda>r. \<not> doomed r) (ms_entries s)) s
           in if affected = 0 then (Inr [], s)
              else (let s = ms_invalidate s
                    in if affected = length candidates then (Inr candidates, s)
                       else case aliveModelIDs ids s of
                         (Inl _, s) \<Rightarrow> (Inr candidates, s)
                       | (Inr alive, s) \<Rightarrow> (Inr (filter (\<lambda>c. mr_id c \<notin> set alive) candidates), s))))"

definition PruneRetired ::
    "instant \<Rightarrow> instant \<Rightarrow> uuid list \<Rightarrow> int \<Rightarrow> model_store \<Rightarrow> (db_error + model_full list) \<times> model_store" where
  "PruneRetired horizon flapSince providerIDs limit s =
     (case selectPruneCandidates horizon flapSince providerIDs limit s of
        (Inl e, s) \<Rightarrow> (Inl e, s)
      | (Inr [], s) \<Rightarrow> (Inr [], s)
      | (Inr cs, s) \<Rightarrow> deletePruneCandidates cs flapSince s)"

end
