(* ===== verification/Model_Fleet.thy ===== *)
theory Model_Fleet
  imports Model_Table "HOL-Library.Product_Lexorder"
begin

text \<open>
  The per-model part of a fleet sync: a member reconciles its operator disables and its
  manual-enable pins to the lists of the primary (\<open>configsync_apply_models.go\<close>) and exports its own
  two lists (\<open>configsync_export.go\<close>). A reference names a model by its provider's name and its id.
  The settings rows the code uses are kept decoded: the number of the latest import, the
  acknowledged references by marker, and the primary marker; a missing or unreadable one is the
  value the code falls back to. A section runs in one transaction: its statements take effect
  together at the commit or not at all.
\<close>

type_synonym modelRef = "string \<times> string"

record fleet_store =
  fl_models :: model_store
  fl_importSeq :: int
  fl_unapplied :: "modelRef list gomap"
  fl_isPrimary :: bool

datatype intentError = intentDb db_error | errImportSuperseded

definition keyFleetUnappliedModelDisables :: string where
  "keyFleetUnappliedModelDisables = ''_fleet_unapplied_model_disables''"

definition keyFleetUnappliedModelEnables :: string where
  "keyFleetUnappliedModelEnables = ''_fleet_unapplied_model_enables''"

subsection \<open>Statements in sequence\<close>

definition after :: "('s \<Rightarrow> ('e + 'a) \<times> 's) \<Rightarrow> ('a \<Rightarrow> 's \<Rightarrow> ('e + 'b) \<times> 's) \<Rightarrow> 's \<Rightarrow> ('e + 'b) \<times> 's" where
  "after m k s = (case m s of (Inl e, s) \<Rightarrow> (Inl e, s) | (Inr x, s) \<Rightarrow> k x s)"

definition statement :: "(fleet_store \<Rightarrow> 'a \<times> fleet_store) \<Rightarrow> fleet_store \<Rightarrow> (intentError + 'a) \<times> fleet_store" where
  "statement f s =
     (case ms_fault (fl_models s) of
        (Some e, m) \<Rightarrow> (Inl (intentDb (DbError e)), s\<lparr>fl_models := m\<rparr>)
      | (None, m) \<Rightarrow> (case f (s\<lparr>fl_models := m\<rparr>) of (x, s) \<Rightarrow> (Inr x, s)))"

definition no_effect :: "fleet_store \<Rightarrow> unit \<times> fleet_store" where "no_effect s = ((), s)"

definition update_models :: "(model_store \<Rightarrow> model_full \<Rightarrow> bool) \<Rightarrow> (model_full \<Rightarrow> model_full) \<Rightarrow>
    fleet_store \<Rightarrow> unit \<times> fleet_store" where
  "update_models P f s =
     ((), s\<lparr>fl_models := put_entries (update_where (P (fl_models s)) f (ms_entries (fl_models s))) (fl_models s)\<rparr>)"

text \<open>The deferred rollback: the tables are as they were when the transaction began.\<close>

definition in_transaction :: "(fleet_store \<Rightarrow> (intentError + 'a) \<times> fleet_store) \<Rightarrow>
    fleet_store \<Rightarrow> (intentError + 'a) \<times> fleet_store" where
  "in_transaction body s =
     (case after (statement no_effect) (\<lambda>_. after body (\<lambda>x. after (statement no_effect) (\<lambda>_ s. (Inr x, s)))) s of
        (Inl e, s') \<Rightarrow> (Inl e, s'\<lparr>fl_models := put_entries (ms_entries (fl_models s)) (fl_models s'),
                              fl_unapplied := fl_unapplied s\<rparr>)
      | (Inr x, s') \<Rightarrow> (Inr x, s'))"

subsection \<open>Import\<close>

definition lockFenceForPostCommit :: "int \<Rightarrow> fleet_store \<Rightarrow> (intentError + unit) \<times> fleet_store" where
  "lockFenceForPostCommit importSeq =
     after (statement no_effect) (\<lambda>_. after (statement no_effect) (\<lambda>_.
     after (statement (\<lambda>s. (fl_importSeq s, s))) (\<lambda>latest s.
       if latest \<noteq> importSeq then (Inl errImportSuperseded, s) else (Inr (), s))))"

text \<open>The reference of a row is formed with the name of its provider (the join).\<close>

definition row_refs :: "model_store \<Rightarrow> model_full \<Rightarrow> modelRef list" where
  "row_refs m r = map (\<lambda>p. (pr_name p, mr_model_id r)) (filter (\<lambda>p. pr_id p = mr_provider_id r) (ms_providers m))"

definition wanted :: "modelRef list \<Rightarrow> model_store \<Rightarrow> model_full \<Rightarrow> bool" where
  "wanted refs m r \<longleftrightarrow> (\<exists>x\<in>set (row_refs m r). x \<in> set refs)"

definition not_wanted :: "modelRef list \<Rightarrow> model_store \<Rightarrow> model_full \<Rightarrow> bool" where
  "not_wanted refs m r \<longleftrightarrow> (\<exists>x\<in>set (row_refs m r). x \<notin> set refs)"

definition model_refs :: "model_store \<Rightarrow> modelRef list" where
  "model_refs m = concat (map (row_refs m) (ms_entries m))"

definition absentModelRefs :: "modelRef list \<Rightarrow> fleet_store \<Rightarrow> modelRef list" where
  "absentModelRefs refs s = filter (\<lambda>x. x \<notin> set (model_refs (fl_models s))) refs"

definition applyModelIntent ::
    "modelRef list option \<Rightarrow> int \<Rightarrow> string \<Rightarrow> (modelRef list \<Rightarrow> fleet_store \<Rightarrow> (intentError + unit) \<times> fleet_store) \<Rightarrow>
     fleet_store \<Rightarrow> (intentError + modelRef list) \<times> fleet_store" where
  "applyModelIntent refs importSeq ackKey writer s =
     (case refs of
        None \<Rightarrow> (Inr [], s)
      | Some refs \<Rightarrow>
          (case in_transaction
             (after (lockFenceForPostCommit importSeq) (\<lambda>_.
              after (writer refs) (\<lambda>_.
              after (statement (\<lambda>s. (absentModelRefs refs s, s))) (\<lambda>unapplied.
              after (statement (\<lambda>s. ((), s\<lparr>fl_unapplied := gm_put ackKey unapplied (fl_unapplied s)\<rparr>))) (\<lambda>_ s.
                (Inr unapplied, s)))))) s of
             (Inl e, s) \<Rightarrow> (Inl e, s)
           | (Inr unapplied, s) \<Rightarrow> (Inr unapplied, s\<lparr>fl_models := ms_invalidate (fl_models s)\<rparr>)))"

text \<open>The right-hand sides of the two directions of each section.\<close>

definition fleet_off :: "model_full \<Rightarrow> model_full" where
  "fleet_off r = r\<lparr>mr_enabled := Some False, me_disabled_manually := Some True\<rparr>"

definition fleet_on :: "model_full \<Rightarrow> model_full" where
  "fleet_on r = r\<lparr>mr_enabled := Some True, me_disabled_manually := Some False,
     me_auto_retired_at := None, me_discovery_dismissed_at := None\<rparr>"

definition fleet_pin :: "instant \<Rightarrow> model_full \<Rightarrow> model_full" where
  "fleet_pin now r = (fleet_on r)\<lparr>me_missing_scans := 0,
     me_manually_enabled_at := coalesce (me_manually_enabled_at r) (Some now)\<rparr>"

definition writeDisables :: "modelRef list \<Rightarrow> fleet_store \<Rightarrow> (intentError + unit) \<times> fleet_store" where
  "writeDisables refs =
     after (statement (update_models (wanted refs) fleet_off)) (\<lambda>_.
       statement (update_models (\<lambda>m r. is_true (me_disabled_manually r) \<and> not_wanted refs m r) fleet_on))"

definition applyDisabledModels :: "modelRef list option \<Rightarrow> int \<Rightarrow> fleet_store \<Rightarrow> (intentError + modelRef list) \<times> fleet_store" where
  "applyDisabledModels refs importSeq = applyModelIntent refs importSeq keyFleetUnappliedModelDisables writeDisables"

definition writeEnables :: "instant \<Rightarrow> modelRef list \<Rightarrow> fleet_store \<Rightarrow> (intentError + unit) \<times> fleet_store" where
  "writeEnables now refs =
     after (statement (update_models (wanted refs) (fleet_pin now))) (\<lambda>_.
       statement (update_models (\<lambda>m r. me_manually_enabled_at r \<noteq> None \<and> not_wanted refs m r) unpin))"

definition applyEnabledModels :: "modelRef list option \<Rightarrow> int \<Rightarrow> fleet_store \<Rightarrow> (intentError + modelRef list) \<times> fleet_store" where
  "applyEnabledModels refs importSeq s =
     applyModelIntent refs importSeq keyFleetUnappliedModelEnables (writeEnables (ms_now (fl_models s))) s"

subsection \<open>Export\<close>

text \<open>Sorted by provider name and then by id, both by bytes.\<close>

definition sort_refs :: "modelRef list \<Rightarrow> modelRef list" where
  "sort_refs xs = sort xs"

text \<open>Appending what is not there yet keeps the first occurrences in order.\<close>

definition add_new :: "modelRef list \<Rightarrow> modelRef list \<Rightarrow> modelRef list" where
  "add_new xs out = fold (\<lambda>x out. if x \<in> set out then out else out @ [x]) xs out"

text \<open>A failed read of the primary marker answers that this instance is not the primary.\<close>

definition isFleetPrimary :: "fleet_store \<Rightarrow> bool \<times> fleet_store" where
  "isFleetPrimary s =
     (case statement (\<lambda>s. (fl_isPrimary s, s)) s of (Inl _, s) \<Rightarrow> (False, s) | (Inr b, s) \<Rightarrow> (b, s))"

definition exportModelRefs :: "(model_full \<Rightarrow> bool) \<Rightarrow> string \<Rightarrow> fleet_store \<Rightarrow> (intentError + modelRef list) \<times> fleet_store" where
  "exportModelRefs base ackKey =
     after (statement (\<lambda>s. (concat (map (row_refs (fl_models s)) (filter base (ms_entries (fl_models s)))), s))) (\<lambda>rows.
     after (statement (\<lambda>s. (case gm_get (fl_unapplied s) ackKey of None \<Rightarrow> [] | Some xs \<Rightarrow> xs, s))) (\<lambda>acked s.
       let out = add_new rows []
       in if acked = [] then (Inr (sort_refs out), s)
          else case isFleetPrimary s of
            (True, s) \<Rightarrow> (Inr (sort_refs out), s)
          | (False, s) \<Rightarrow>
              after (statement (\<lambda>s. (absentModelRefs acked s, s))) (\<lambda>missing s. (Inr (sort_refs (add_new missing out)), s)) s))"

definition exportDisabledModels :: "fleet_store \<Rightarrow> (intentError + modelRef list) \<times> fleet_store" where
  "exportDisabledModels =
     exportModelRefs (\<lambda>r. is_true (me_disabled_manually r) \<and> is_false (mr_enabled r)) keyFleetUnappliedModelDisables"

definition exportEnabledModels :: "fleet_store \<Rightarrow> (intentError + modelRef list) \<times> fleet_store" where
  "exportEnabledModels =
     exportModelRefs (\<lambda>r. me_manually_enabled_at r \<noteq> None \<and> is_true (mr_enabled r)) keyFleetUnappliedModelEnables"

end
