(* ===== verification/Model_Writes.thy ===== *)
theory Model_Writes
  imports Model_Retire Model_Fleet
begin

text \<open>
  Every writer of the models table as one step, and what a step can do to a row. \<open>run_op\<close> runs the
  operation of the source; \<open>row_move\<close>, \<open>may_delete\<close> and \<open>may_insert\<close> are the specification: the
  values a row can have after the step, the rows it can remove, the rows it can add. \<open>run_op_effect\<close>
  is the refinement, and the invariants of the table are proved over it.
\<close>

datatype model_op =
    OpUpsert scanned
  | OpMissing uuid "string list"
  | OpSetEnabled uuid bool
  | OpUpdate uuid UpdateModelRequest
  | OpDeleteOne uuid
  | OpDelete "uuid list"
  | OpDismiss uuid "string list"
  | OpUnpin uuid "string list"
  | OpRetire uuid bool
  | OpRevert uuid
  | OpPrune instant instant "uuid list" int
  | OpFleetDisables "modelRef list option" int
  | OpFleetEnables "modelRef list option" int
  | OpImported
  | OpClock instant
  | OpFaults "string option list"

definition on_models :: "(model_store \<Rightarrow> 'a \<times> model_store) \<Rightarrow> fleet_store \<Rightarrow> fleet_store" where
  "on_models f s = s\<lparr>fl_models := snd (f (fl_models s))\<rparr>"

definition set_world :: "(world \<Rightarrow> world) \<Rightarrow> model_store \<Rightarrow> model_store" where
  "set_world f m = m\<lparr>ms_store := (ms_store m)\<lparr>sr_world := f (sr_world (ms_store m))\<rparr>\<rparr>"

text \<open>The last three are the surroundings: an import commits, time passes, statements start to fail.\<close>

fun run_op :: "model_op \<Rightarrow> fleet_store \<Rightarrow> fleet_store" where
  "run_op (OpUpsert m) s = on_models (Upsert m) s"
| "run_op (OpMissing p present) s = on_models (RecordMissingModels p present) s"
| "run_op (OpSetEnabled i b) s = on_models (SetEnabled i b) s"
| "run_op (OpUpdate i req) s = on_models (Update i req) s"
| "run_op (OpDeleteOne i) s = on_models (Model_DeleteByID i) s"
| "run_op (OpDelete ids) s = on_models (Model_DeleteByIDs ids) s"
| "run_op (OpDismiss p ids) s = on_models (setModelsDismissed p ids) s"
| "run_op (OpUnpin p ids) s = on_models (setModelsUnpinned p ids) s"
| "run_op (OpRetire i confirm) s = on_models (AutoRetireIfConfirmed i confirm) s"
| "run_op (OpRevert i) s = on_models (RevertAutoRetire i) s"
| "run_op (OpPrune horizon flapSince ps limit) s = on_models (PruneRetired horizon flapSince ps limit) s"
| "run_op (OpFleetDisables refs n) s = snd (applyDisabledModels refs n s)"
| "run_op (OpFleetEnables refs n) s = snd (applyEnabledModels refs n s)"
| "run_op OpImported s = s\<lparr>fl_importSeq := fl_importSeq s + 1\<rparr>"
| "run_op (OpClock t) s = s\<lparr>fl_models := set_world (w_clock_update (\<lambda>_. t)) (fl_models s)\<rparr>"
| "run_op (OpFaults fs) s = s\<lparr>fl_models := set_world (w_faults_update (\<lambda>_. fs)) (fl_models s)\<rparr>"

definition run_ops :: "model_op list \<Rightarrow> fleet_store \<Rightarrow> fleet_store" where
  "run_ops ops s = fold run_op ops s"

abbreviation fl_entries :: "fleet_store \<Rightarrow> model_full list" where
  "fl_entries s \<equiv> ms_entries (fl_models s)"

subsection \<open>What a step may do to a row\<close>

fun row_move :: "model_op \<Rightarrow> model_full \<Rightarrow> model_full \<Rightarrow> bool" where
  "row_move (OpUpsert m) r r' = (r' = r \<or> same_model m r \<and> (\<exists>now. r' = merged_entry now m r))"
| "row_move (OpMissing p present) r r' =
     (r' = r \<or> missed p present r \<and> r' = count_miss r \<or> \<not> missed p present r \<and> r' = reset_streak p present r)"
| "row_move (OpSetEnabled i b) r r' = (r' = r \<or> mr_id r = i \<and> (\<exists>now. r' = operator_choice now b r))"
| "row_move (OpUpdate i req) r r' = (r' = r \<or> mr_id r = i \<and> (\<exists>now. r' = apply_clauses (update_clauses now req) r))"
| "row_move (OpDismiss p ids) r r' =
     (r' = r \<or> is_false (mr_enabled r) \<and> (\<exists>now. r' = r\<lparr>me_discovery_dismissed_at := Some now\<rparr>))"
| "row_move (OpUnpin p ids) r r' = (r' = r \<or> named_by p ids r \<and> r' = unpin r)"
| "row_move (OpRetire i confirm) r r' =
     (r' = r \<or> mr_id r = i \<and> confirm \<and> still_routable r = Some True \<and> (\<exists>now. r' = retired_entry now r))"
| "row_move (OpRevert i) r r' = (r' = r \<or> as_retired i r \<and> r' = r\<lparr>mr_enabled := Some True, me_auto_retired_at := None\<rparr>)"
| "row_move (OpFleetDisables refs n) r r' = (r' = r \<or> r' = fleet_off r \<or> r' = fleet_on (fleet_off r)
     \<or> is_true (me_disabled_manually r) \<and> r' = fleet_on r)"
| "row_move (OpFleetEnables refs n) r r' = (r' = r \<or> r' = unpin r \<or> (\<exists>now. r' = fleet_pin now r \<or> r' = unpin (fleet_pin now r)))"
| "row_move _ r r' = (r' = r)"

fun may_delete :: "model_op \<Rightarrow> model_full \<Rightarrow> bool" where
  "may_delete (OpDeleteOne i) r = (mr_id r = i)"
| "may_delete (OpDelete ids) r = (mr_id r \<in> set ids)"
| "may_delete (OpPrune horizon flapSince ps limit) r = unclaimed r"
| "may_delete _ r = False"

fun may_insert :: "model_op \<Rightarrow> model_full list \<Rightarrow> model_full \<Rightarrow> bool" where
  "may_insert (OpUpsert m) rs r = (\<not> (\<exists>x\<in>set rs. same_model m x \<or> mr_id x = sc_ID m) \<and> (\<exists>now. r = inserted_entry now m))"
| "may_insert _ rs r = False"

definition op_effect :: "model_op \<Rightarrow> model_full list \<Rightarrow> model_full list \<Rightarrow> bool" where
  "op_effect op rs rs' \<longleftrightarrow> (\<exists>doomed f new. (\<forall>r\<in>set rs. doomed r \<longrightarrow> may_delete op r)
     \<and> (\<forall>r\<in>set rs. row_move op r (f r)) \<and> (\<forall>r\<in>set new. may_insert op rs r) \<and> length new \<le> 1
     \<and> rs' = map f (filter (\<lambda>r. \<not> doomed r) rs) @ new)"

subsection \<open>The frame of a statement\<close>

lemma entries_put [simp]: "ms_entries (put_entries es m) = es"
  by (simp add: put_entries_def)

lemma entries_invalidate [simp]: "ms_entries (ms_invalidate m) = ms_entries m"
  by (simp add: ms_invalidate_def)

lemma providers_put [simp]: "ms_providers (put_entries es m) = ms_providers m"
  by (simp add: put_entries_def ms_providers_def)

lemma providers_invalidate [simp]: "ms_providers (ms_invalidate m) = ms_providers m"
  by (simp add: ms_invalidate_def ms_providers_def)

lemma journal_put [simp]: "ms_journal (put_entries es m) = ms_journal m"
  by (simp add: put_entries_def)

lemma fault_frame:
  assumes "ms_fault m = (e, m')"
  shows "ms_entries m' = ms_entries m" "ms_providers m' = ms_providers m" "ms_journal m' = ms_journal m"
  using assms by (auto simp: ms_fault_def statement_fault_def next_fault_def ms_providers_def split: prod.splits list.splits)

lemma entries_Get [simp]: "ms_entries (snd (ms_Get i m)) = ms_entries m"
  by (simp add: ms_Get_def split: prod.split)

lemma entries_set_world [simp]: "ms_entries (set_world f m) = ms_entries m"
  by (simp add: set_world_def)

subsection \<open>Every step stays within its specification\<close>

lemma row_move_refl [simp]: "row_move op r r"
  by (cases op) simp_all

lemma effect_map:
  assumes "\<And>r. r \<in> set rs \<Longrightarrow> row_move op r (f r)"
  shows "op_effect op rs (map f rs)"
  unfolding op_effect_def
  by (rule exI [of _ "\<lambda>_. False"], rule exI [of _ f], rule exI [of _ "[]"]) (use assms in simp)

lemma effect_same [intro, simp]: "op_effect op rs rs"
  using effect_map [of rs op id] by simp

lemma effect_filter:
  assumes "\<And>r. r \<in> set rs \<Longrightarrow> \<not> keep r \<Longrightarrow> may_delete op r"
  shows "op_effect op rs (filter keep rs)"
  unfolding op_effect_def
  by (rule exI [of _ "\<lambda>r. \<not> keep r"], rule exI [of _ id], rule exI [of _ "[]"]) (use assms in auto)

lemma effect_insert:
  assumes "may_insert op rs r"
  shows "op_effect op rs (rs @ [r])"
  unfolding op_effect_def
  by (rule exI [of _ "\<lambda>_. False"], rule exI [of _ id], rule exI [of _ "[r]"]) (use assms in simp)

lemma effect_update:
  assumes "\<And>r. r \<in> set rs \<Longrightarrow> P r \<Longrightarrow> row_move op r (f r)"
  shows "op_effect op rs (update_where P f rs)"
  unfolding update_where_def by (rule effect_map) (use assms in simp)

lemma upsert_effect: "op_effect (OpUpsert m) (ms_entries s) (ms_entries (snd (Upsert m s)))"
proof -
  obtain e s' where f: "ms_fault s = (e, s')" by fastforce
  note fr = fault_frame [OF f]
  consider "e \<noteq> None" | "e = None" "\<exists>r\<in>set (ms_entries s). same_model m r"
    | "e = None" "\<not> (\<exists>r\<in>set (ms_entries s). same_model m r)" by blast
  then show ?thesis
  proof cases
    case 1
    then show ?thesis using f fr by (auto simp: Upsert_def)
  next
    case 2
    then show ?thesis using f fr by (auto simp: Upsert_def intro!: effect_update)
  next
    case 3
    show ?thesis
    proof (cases "(\<exists>r\<in>set (ms_entries s). mr_id r = sc_ID m) \<or> \<not> (\<exists>p\<in>set (ms_providers s). pr_id p = sc_ProviderID m)")
      case True
      with 3 show ?thesis using f fr by (simp add: Upsert_def)
    next
      case False
      then have "may_insert (OpUpsert m) (ms_entries s) (inserted_entry (ms_now s') m)" using 3 by auto
      from effect_insert [OF this] show ?thesis using False 3 f fr by (simp add: Upsert_def)
    qed
  qed
qed

lemma missing_effect: "op_effect (OpMissing p present) (ms_entries s) (ms_entries (snd (RecordMissingModels p present s)))"
proof -
  obtain e s' where f: "ms_fault s = (e, s')" by fastforce
  note fr = fault_frame [OF f]
  have id: "reset_streak p present (count_miss r) = count_miss r" if "missed p present r" for r
    using that by (auto simp: reset_streak_def missed_def count_miss_def)
  have rows: "map (reset_streak p present) (update_where (missed p present) count_miss rs)
      = map (\<lambda>r. if missed p present r then count_miss r else reset_streak p present r) rs" for rs
    by (auto simp: update_where_def id)
  show ?thesis
    using f fr by (cases e) (auto simp: RecordMissingModels_def Let_def rows intro!: effect_map)
qed

lemma set_enabled_effect: "op_effect (OpSetEnabled i b) (ms_entries s) (ms_entries (snd (SetEnabled i b s)))"
proof -
  obtain e s' where f: "ms_fault s = (e, s')" by fastforce
  show ?thesis using f fault_frame [OF f] by (cases e) (auto simp: SetEnabled_def intro!: effect_update)
qed

lemma update_effect: "op_effect (OpUpdate i req) (ms_entries s) (ms_entries (snd (Update i req s)))"
proof -
  obtain e s' where f: "ms_fault s = (e, s')" by fastforce
  show ?thesis using f fault_frame [OF f] by (cases e) (auto simp: Update_def Let_def intro!: effect_update)
qed

lemma delete_one_effect: "op_effect (OpDeleteOne i) (ms_entries s) (ms_entries (snd (Model_DeleteByID i s)))"
proof -
  obtain e s' where f: "ms_fault s = (e, s')" by fastforce
  show ?thesis using f fault_frame [OF f] by (cases e) (auto simp: Model_DeleteByID_def intro!: effect_filter)
qed

lemma delete_effect: "op_effect (OpDelete ids) (ms_entries s) (ms_entries (snd (Model_DeleteByIDs ids s)))"
proof -
  obtain e s' where f: "ms_fault s = (e, s')" by fastforce
  show ?thesis using f fault_frame [OF f] by (cases e) (auto simp: Model_DeleteByIDs_def intro!: effect_filter)
qed

lemma effect_returning:
  assumes "\<And>r. P r \<Longrightarrow> row_move op r (f r)"
  shows "op_effect op (ms_entries s) (ms_entries (snd (returning P f s)))"
proof -
  obtain e s' where fa: "ms_fault s = (e, s')" by fastforce
  show ?thesis using fa fault_frame [OF fa] assms by (cases e) (auto simp: returning_def intro!: effect_update)
qed

lemma dismiss_effect: "op_effect (OpDismiss p ids) (ms_entries s) (ms_entries (snd (setModelsDismissed p ids s)))"
  unfolding setModelsDismissed_def by (rule effect_returning) auto

lemma unpin_effect: "op_effect (OpUnpin p ids) (ms_entries s) (ms_entries (snd (setModelsUnpinned p ids s)))"
  unfolding setModelsUnpinned_def by (rule effect_returning) (auto simp: unpin_def)

lemma entries_stage:
  assumes "autoRetireStage i s = (x, s')"
  shows "ms_entries s' = ms_entries s"
    "x = Inr (Some stamp) \<Longrightarrow> \<exists>r. entry_by_id i s = Some r \<and> still_routable r = Some True"
proof -
  obtain e1 s1 where f1: "ms_fault s = (e1, s1)" by fastforce
  obtain e2 s2 where f2: "ms_fault s1 = (e2, s2)" by fastforce
  obtain e3 s3 where f3: "ms_fault s2 = (e3, s3)" by fastforce
  note fr = fault_frame [OF f1] fault_frame [OF f2] fault_frame [OF f3]
  have same: "entry_by_id i s2 = entry_by_id i s" by (simp add: entry_by_id_def fr)
  show "ms_entries s' = ms_entries s"
    using assms fr by (auto simp: autoRetireStage_def f1 f2 f3 split: option.splits bool.splits)
  show "\<exists>r. entry_by_id i s = Some r \<and> still_routable r = Some True" if "x = Inr (Some stamp)"
    using assms that same by (auto simp: autoRetireStage_def f1 f2 f3 split: option.splits bool.splits)
qed

lemma entry_by_id_distinct:
  assumes "distinct (map mr_id (ms_entries s))" "r \<in> set (ms_entries s)" "mr_id r = i"
  shows "entry_by_id i s = Some r"
proof -
  obtain x where x: "entry_by_id i s = Some x"
    using assms(2,3) by (cases "entry_by_id i s") (auto simp: entry_by_id_def find_None_iff)
  then have "x \<in> set (ms_entries s)" "mr_id x = i" by (auto simp: entry_by_id_def find_Some_iff)
  with assms have "x = r" by (meson distinct_map inj_onD)
  with x show ?thesis by simp
qed

lemma retire_effect:
  assumes "distinct (map mr_id (ms_entries s))"
  shows "op_effect (OpRetire i confirm) (ms_entries s) (ms_entries (snd (AutoRetireIfConfirmed i confirm s)))"
proof -
  obtain x s1 where st: "autoRetireStage i s = (x, s1)" by fastforce
  obtain e s2 where f: "ms_fault s1 = (e, s2)" by fastforce
  note fr = entries_stage(1) [OF st] fault_frame(1) [OF f]
  show ?thesis
  proof (cases "\<exists>stamp. x = Inr (Some stamp) \<and> confirm \<and> e = None")
    case True
    then obtain stamp where x: "x = Inr (Some stamp)" "confirm" "e = None" by blast
    from entries_stage(2) [OF st x(1)] obtain r0 where r0: "entry_by_id i s = Some r0" "still_routable r0 = Some True" by blast
    have "row_move (OpRetire i confirm) r (retired_entry stamp r)" if "r \<in> set (ms_entries s)" "mr_id r = i" for r
      using entry_by_id_distinct [OF assms that] r0 that x(2) by auto
    then show ?thesis
      using x st f fr by (auto simp: AutoRetireIfConfirmed_def autoRetireCommit_def intro!: effect_update)
  next
    case False
    then have "ms_entries (snd (AutoRetireIfConfirmed i confirm s)) = ms_entries s"
      using st f fr
      by (cases x) (auto simp: AutoRetireIfConfirmed_def autoRetireCommit_def split: option.splits sum.splits)
    then show ?thesis by simp
  qed
qed

lemma revert_effect: "op_effect (OpRevert i) (ms_entries s) (ms_entries (snd (RevertAutoRetire i s)))"
proof -
  obtain e s' where f: "ms_fault s = (e, s')" by fastforce
  show ?thesis using f fault_frame [OF f]
    by (cases e) (auto simp: RevertAutoRetire_def simp del: filter_empty_conv intro!: effect_update)
qed

lemma prune_effect: "op_effect (OpPrune h t ps n) (ms_entries s) (ms_entries (snd (PruneRetired h t ps n s)))"
proof -
  obtain x s1 where sel: "selectPruneCandidates h t ps n s = (x, s1)" by fastforce
  obtain e0 s0 where f0: "ms_fault s = (e0, s0)" by fastforce
  obtain e s2 where f: "ms_fault s1 = (e, s2)" by fastforce
  have s1: "ms_entries s1 = ms_entries s"
    using sel f0 fault_frame [OF f0] by (auto simp: selectPruneCandidates_def split: if_splits option.splits)
  have alive: "ms_entries (snd (aliveModelIDs ids u)) = ms_entries u" for ids u
    by (auto simp: aliveModelIDs_def dest: fault_frame split: prod.split option.split)
  have alive': "ms_entries u' = ms_entries u" if "aliveModelIDs ids u = (y, u')" for ids u y u'
    using alive [of ids u] that by simp
  have del: "op_effect (OpPrune h t ps n) (ms_entries s1) (ms_entries (snd (deletePruneCandidates cs t s1)))" for cs
    using f fault_frame [OF f]
    by (auto simp: deletePruneCandidates_def Let_def alive' split: option.split sum.split prod.split intro!: effect_filter)
  show ?thesis
    using sel s1 del by (cases x) (auto simp: PruneRetired_def split: list.split)
qed

subsection \<open>The two sections of an import\<close>

lemma statement_cases:
  assumes "statement f s = (x, s')"
  obtains e m where "x = Inl e" "s' = s\<lparr>fl_models := m\<rparr>" "ms_entries m = ms_entries (fl_models s)"
      "ms_providers m = ms_providers (fl_models s)"
  | m y where "x = Inr y" "f (s\<lparr>fl_models := m\<rparr>) = (y, s')" "ms_entries m = ms_entries (fl_models s)"
      "ms_providers m = ms_providers (fl_models s)"
proof -
  obtain e m where f: "ms_fault (fl_models s) = (e, m)" by fastforce
  note fr = fault_frame [OF f]
  show thesis
  proof (cases e)
    case None
    then show thesis using assms f fr that(2) [of "fst (f (s\<lparr>fl_models := m\<rparr>))" m]
      by (auto simp: statement_def split: prod.splits)
  next
    case (Some a)
    then show thesis using assms f fr that(1) by (auto simp: statement_def)
  qed
qed

lemma after_Inr: "after m k s = (Inr y, s'') \<longleftrightarrow> (\<exists>x s'. m s = (Inr x, s') \<and> k x s' = (Inr y, s''))"
  by (auto simp: after_def split: prod.splits sum.splits)

lemma statement_Inr:
  assumes "statement f s = (Inr y, s')"
  obtains m where "f (s\<lparr>fl_models := m\<rparr>) = (y, s')" "ms_entries m = fl_entries s" "ms_providers m = ms_providers (fl_models s)"
  using assms by (cases rule: statement_cases) auto

lemma read_keeps: "statement (\<lambda>s. (g s, s)) s = (Inr y, s') \<Longrightarrow> fl_entries s' = fl_entries s"
  by (elim statement_Inr) auto

lemma no_effect_keeps: "statement no_effect s = (Inr y, s') \<Longrightarrow> fl_entries s' = fl_entries s"
  by (elim statement_Inr) (auto simp: no_effect_def)

lemma fence_keeps: "lockFenceForPostCommit n s = (Inr y, s') \<Longrightarrow> fl_entries s' = fl_entries s"
  by (auto simp: lockFenceForPostCommit_def after_Inr split: if_splits dest!: no_effect_keeps read_keeps)

lemma update_rows:
  assumes "statement (update_models P f) s = (Inr y, s')"
  shows "\<exists>m. fl_entries s' = update_where (P m) f (fl_entries s)"
proof -
  from assms obtain m where "update_models P f (s\<lparr>fl_models := m\<rparr>) = (y, s')" "ms_entries m = fl_entries s"
    by (rule statement_Inr)
  then have "fl_entries s' = update_where (P m) f (fl_entries s)" by (auto simp: update_models_def)
  then show ?thesis by blast
qed

lemma intent_cases:
  obtains "fl_entries (snd (applyModelIntent refs n key writer s)) = fl_entries s"
  | rs s0 x s1 where "refs = Some rs" "fl_entries s0 = fl_entries s" "writer rs s0 = (Inr x, s1)"
      "fl_entries (snd (applyModelIntent refs n key writer s)) = fl_entries s1"
proof (cases refs)
  case None
  then show thesis using that(1) by (simp add: applyModelIntent_def)
next
  case (Some rs)
  define body where "body = after (lockFenceForPostCommit n) (\<lambda>_.
      after (writer rs) (\<lambda>_.
      after (statement (\<lambda>s. (absentModelRefs rs s, s))) (\<lambda>unapplied.
      after (statement (\<lambda>s. ((), s\<lparr>fl_unapplied := gm_put key unapplied (fl_unapplied s)\<rparr>))) (\<lambda>_ s.
        (Inr unapplied, s)))))"
  obtain x s' where run: "in_transaction body s = (x, s')" by fastforce
  show thesis
  proof (cases x)
    case (Inl e)
    with run have "fl_entries s' = fl_entries s"
      by (auto simp: in_transaction_def split: prod.splits sum.splits)
    then show thesis using that(1) Some Inl run by (simp add: applyModelIntent_def body_def)
  next
    case (Inr u)
    from run Inr obtain y0 t0 t1 where t: "statement no_effect s = (Inr y0, t0)" "body t0 = (Inr u, t1)"
        "\<exists>y. statement no_effect t1 = (Inr y, s')"
      by (auto simp: in_transaction_def after_Inr split: prod.splits sum.splits)
    then have ends: "fl_entries t0 = fl_entries s" "fl_entries s' = fl_entries t1" by (auto dest: no_effect_keeps)
    from t(2) obtain y1 t2 y2 t3 y3 t4 y4 where b: "lockFenceForPostCommit n t0 = (Inr y1, t2)"
        "writer rs t2 = (Inr y2, t3)" "statement (\<lambda>s. (absentModelRefs rs s, s)) t3 = (Inr y3, t4)"
        "statement (\<lambda>s. ((), s\<lparr>fl_unapplied := gm_put key y3 (fl_unapplied s)\<rparr>)) t4 = (Inr y4, t1)"
      unfolding body_def after_Inr by auto
    have "fl_entries t1 = fl_entries t3"
      using read_keeps [OF b(3)] b(4) by (elim statement_Inr) auto
    then show thesis
      using that(2) [OF Some _ b(2)] fence_keeps [OF b(1)] ends Some Inr run
      by (simp add: applyModelIntent_def body_def)
  qed
qed

lemma write_disables_rows:
  assumes "writeDisables rs s = (Inr x, s')"
  shows "op_effect (OpFleetDisables q n) (fl_entries s) (fl_entries s')"
proof -
  from assms obtain y s1 where
      "statement (update_models (wanted rs) fleet_off) s = (Inr y, s1)"
      "statement (update_models (\<lambda>m r. is_true (me_disabled_manually r) \<and> not_wanted rs m r) fleet_on) s1 = (Inr x, s')"
    unfolding writeDisables_def after_Inr by blast
  from update_rows [OF this(1)] update_rows [OF this(2)] show ?thesis
    by (auto simp: update_where_def comp_def intro!: effect_map)
qed

lemma pin_moves:
  "row_move (OpFleetEnables q n) r (fleet_pin now r)" "row_move (OpFleetEnables q n) r (unpin r)"
  "row_move (OpFleetEnables q n) r (unpin (fleet_pin now r))"
  by auto

lemma write_enables_rows:
  assumes "writeEnables now rs s = (Inr x, s')"
  shows "op_effect (OpFleetEnables q n) (fl_entries s) (fl_entries s')"
proof -
  from assms obtain y s1 where
      "statement (update_models (wanted rs) (fleet_pin now)) s = (Inr y, s1)"
      "statement (update_models (\<lambda>m r. me_manually_enabled_at r \<noteq> None \<and> not_wanted rs m r) unpin) s1 = (Inr x, s')"
    unfolding writeEnables_def after_Inr by blast
  from update_rows [OF this(1)] update_rows [OF this(2)] show ?thesis
    by (auto simp: update_where_def comp_def pin_moves simp del: row_move.simps intro!: effect_map)
qed

lemma fleet_disables_effect:
  "op_effect (OpFleetDisables refs n) (fl_entries s) (fl_entries (snd (applyDisabledModels refs n s)))"
  unfolding applyDisabledModels_def
  by (rule intent_cases [of refs n keyFleetUnappliedModelDisables writeDisables s]) (auto dest: write_disables_rows)

lemma fleet_enables_effect:
  "op_effect (OpFleetEnables refs n) (fl_entries s) (fl_entries (snd (applyEnabledModels refs n s)))"
  unfolding applyEnabledModels_def
  by (rule intent_cases [of refs n keyFleetUnappliedModelEnables "writeEnables (ms_now (fl_models s))" s])
    (auto dest: write_enables_rows)

lemma run_op_effect:
  assumes "distinct (map mr_id (fl_entries s))"
  shows "op_effect op (fl_entries s) (fl_entries (run_op op s))"
  using assms
  by (cases op) (simp_all add: on_models_def upsert_effect missing_effect set_enabled_effect update_effect
      delete_one_effect delete_effect dismiss_effect unpin_effect retire_effect revert_effect prune_effect
      fleet_disables_effect fleet_enables_effect)

end
