(* ===== verification/Model_Invariants.thy ===== *)
theory Model_Invariants
  imports Model_Writes
begin

text \<open>
  The invariant of the models table under every writer, what the operator's and the traffic's
  decisions survive, the two-scan rule of discovery and the convergence of a fleet import.
\<close>

subsection \<open>Well-formed rows\<close>

definition all4 :: "('a option \<Rightarrow> 'b option \<Rightarrow> bool) \<Rightarrow> 'a price4 \<Rightarrow> 'b price4 \<Rightarrow> bool" where
  "all4 P a b \<longleftrightarrow> P (p4_input a) (p4_input b) \<and> P (p4_cache_hit a) (p4_cache_hit b)
     \<and> P (p4_output a) (p4_output b) \<and> P (p4_search a) (p4_search b)"

definition priced :: "real price4 \<Rightarrow> string price4 \<Rightarrow> bool" where
  "priced = all4 (\<lambda>p s. p = None \<longleftrightarrow> s = None)"

definition entry_wf :: "model_full \<Rightarrow> bool" where
  "entry_wf r \<longleftrightarrow> mr_enabled r \<noteq> None \<and> me_disabled_manually r \<noteq> None
     \<and> (is_true (mr_enabled r) \<longrightarrow> is_false (me_disabled_manually r) \<and> me_auto_retired_at r = None)
     \<and> priced (me_prices r) (me_price_sources r) \<and> 0 \<le> me_missing_scans r"

definition table_wf :: "model_full list \<Rightarrow> bool" where
  "table_wf rs \<longleftrightarrow> distinct (map mr_id rs) \<and> distinct (map (\<lambda>r. (mr_provider_id r, mr_model_id r)) rs)
     \<and> (\<forall>r\<in>set rs. entry_wf r)"

text \<open>What a scan may hand over: every price it carries has its source, and only those.\<close>

fun op_wf :: "model_op \<Rightarrow> bool" where
  "op_wf (OpUpsert m) = priced (sc_Prices m) (sc_PriceSources m)"
| "op_wf _ = True"

lemma all4_map4:
  assumes "\<And>a b c d. P a c \<Longrightarrow> Q b d \<Longrightarrow> R (f a b) (g c d)" "all4 P a c" "all4 Q b d"
  shows "all4 R (map4 f a b) (map4 g c d)"
  using assms by (simp add: all4_def map4_def)

lemma all4_right:
  assumes "\<And>a b. P a b \<Longrightarrow> R a (g a b)" "all4 P a b"
  shows "all4 R a (map4 g a b)"
  using assms by (simp add: all4_def map4_def)

lemma stamped_priced:
  assumes "all4 (\<lambda>p s. p = None \<longrightarrow> s = None) (sc_Prices m) (sc_PriceSources m)"
  shows "op_wf (OpUpsert (StampPriceSources source m))"
  using assms by (simp add: StampPriceSources_def priced_def) (erule all4_right [rotated], auto)

lemma jsonb_flip: "jsonb_concat a b = map4 coalesce b a"
  by (simp add: jsonb_concat_def map4_def)

lemma priced_coalesce: "priced p s \<Longrightarrow> priced q t \<Longrightarrow> priced (map4 coalesce p q) (map4 coalesce s t)"
  unfolding priced_def by (rule all4_map4) (auto simp: coalesce_def split: option.splits)

lemma map4_flip: "map4 (\<lambda>x y. f y x) a b = map4 f b a"
  by (simp add: map4_def)

lemma merge_prices:
  "map4 (merge_price True) p q = map4 coalesce p q" "map4 (merge_price False) p q = map4 coalesce q p"
  by (simp_all add: map4_def merge_price_def)

text \<open>The effect of the clauses on the columns of the invariant, column by column.\<close>

lemma apply_append [simp]: "apply_clauses (a @ b) r = apply_clauses b (apply_clauses a r)"
  by (simp add: apply_clauses_def)

lemma apply_Nil [simp]: "apply_clauses [] r = r"
  by (simp add: apply_clauses_def)

lemma apply_Cons [simp]: "apply_clauses (c # cs) r = apply_clauses cs (snd c r)"
  by (simp add: apply_clauses_def)

definition status_columns :: "model_full \<Rightarrow> bool option \<times> bool option \<times> instant option" where
  "status_columns r = (mr_enabled r, me_disabled_manually r, me_auto_retired_at r)"

definition fixed_columns :: "model_full \<Rightarrow> uuid \<times> uuid \<times> string \<times> int" where
  "fixed_columns r = (mr_id r, mr_provider_id r, mr_model_id r, me_missing_scans r)"

definition price_state :: "model_full \<Rightarrow> real price4 \<times> string price4" where
  "price_state r = (me_prices r, me_price_sources r)"

lemmas column_defs = status_columns_def fixed_columns_def price_state_def

lemma display_columns:
  "status_columns (apply_clauses (setDisplayName req) r) = status_columns r"
  "fixed_columns (apply_clauses (setDisplayName req) r) = fixed_columns r"
  "price_state (apply_clauses (setDisplayName req) r) = price_state r"
  by (cases "ur_DisplayName req"; simp add: setDisplayName_def when_some_def column_defs)+

lemma limit_columns:
  "status_columns (apply_clauses (setLimits req) r) = status_columns r"
  "fixed_columns (apply_clauses (setLimits req) r) = fixed_columns r"
  "price_state (apply_clauses (setLimits req) r) = price_state r"
  by (cases "ur_ContextLength req"; cases "ur_MaxOutputTokens req"; simp add: setLimits_def when_some_def Let_def column_defs)+

lemma capability_columns:
  "status_columns (apply_clauses (setCapabilities req) r) = status_columns r"
  "fixed_columns (apply_clauses (setCapabilities req) r) = fixed_columns r"
  "price_state (apply_clauses (setCapabilities req) r) = price_state r"
  by (cases "ur_Capabilities req"; simp add: setCapabilities_def column_defs)+

lemma enabled_columns:
  "fixed_columns (apply_clauses (setEnabledClauses now req) r) = fixed_columns r"
  "price_state (apply_clauses (setEnabledClauses now req) r) = price_state r"
  "status_columns (apply_clauses (setEnabledClauses now req) r) =
     (case ur_Enabled req of None \<Rightarrow> status_columns r | Some b \<Rightarrow> (Some b, Some (\<not> b), None))"
  by (cases "ur_Enabled req"; simp add: setEnabledClauses_def when_some_def column_defs)+

lemma price_edits_Nil: "price_edits p = [] \<longleftrightarrow> p = none4"
  by (cases p) (auto simp: price_edits_def when_some_def none4_def split: option.splits)

lemma price_edits_apply: "apply_clauses (price_edits p) r = r\<lparr>me_prices := map4 coalesce p (me_prices r)\<rparr>"
  by (cases "p4_input p"; cases "p4_cache_hit p"; cases "p4_output p"; cases "p4_search p")
    (simp_all add: price_edits_def when_some_def map4_def coalesce_def)

lemma setPrices_cases:
  obtains "ur_PriceCustomized req = Some False"
      "apply_clauses (setPrices req) r = r\<lparr>me_price_customized := False, me_prices := none4, me_price_sources := none4\<rparr>"
  | b where "apply_clauses (setPrices req) r = r\<lparr>me_price_customized := b\<rparr>"
  | "ur_PriceCustomized req \<noteq> Some False"
      "apply_clauses (setPrices req) r = r\<lparr>me_prices := map4 coalesce (ur_Prices req) (me_prices r),
         me_price_sources := jsonb_concat (me_price_sources r) (edited_sources (ur_Prices req)), me_price_customized := True\<rparr>"
proof -
  consider "ur_PriceCustomized req = Some False" | "ur_PriceCustomized req \<noteq> Some False" "price_edits (ur_Prices req) = []"
    | "ur_PriceCustomized req \<noteq> Some False" "price_edits (ur_Prices req) \<noteq> []" by blast
  then show thesis
  proof cases
    case 1
    have "me_prices r\<lparr>p4_input := None, p4_cache_hit := None, p4_output := None, p4_search := None\<rparr> = none4"
      by (simp add: none4_def)
    then show thesis using 1 by (intro that(1)) (simp_all add: setPrices_def)
  next
    case 2
    then show thesis
      using that(2) [of "if ur_PriceCustomized req = None then me_price_customized r else True"]
      by (auto simp: setPrices_def Let_def)
  next
    case 3
    then show thesis by (intro that(3)) (simp_all add: setPrices_def Let_def price_edits_apply)
  qed
qed

lemma price_columns:
  "status_columns (apply_clauses (setPrices req) r) = status_columns r"
  "fixed_columns (apply_clauses (setPrices req) r) = fixed_columns r"
  by (rule setPrices_cases [of req r]; simp add: column_defs)+

lemma price_columns_priced:
  assumes "priced (me_prices r) (me_price_sources r)"
  shows "priced (me_prices (apply_clauses (setPrices req) r)) (me_price_sources (apply_clauses (setPrices req) r))"
proof -
  have "priced (map4 coalesce p (me_prices r)) (jsonb_concat (me_price_sources r) (edited_sources p))" for p
    unfolding jsonb_flip
    by (rule priced_coalesce [OF _ assms])
      (auto simp: priced_def edited_sources_def all4_def map4_def none4_def split: option.split)
  then show ?thesis
    using assms by (cases rule: setPrices_cases [of req r]) (simp_all add: priced_def all4_def none4_def)
qed

lemmas clause_columns = display_columns limit_columns price_columns capability_columns enabled_columns

lemma clauses_fixed: "fixed_columns (apply_clauses (update_clauses now req) r) = fixed_columns r"
  by (simp add: update_clauses_def clause_columns)

lemma clauses_ids:
  "mr_id (apply_clauses (update_clauses now req) r) = mr_id r"
  "mr_provider_id (apply_clauses (update_clauses now req) r) = mr_provider_id r"
  "mr_model_id (apply_clauses (update_clauses now req) r) = mr_model_id r"
  using clauses_fixed [of now req r] by (simp_all add: fixed_columns_def)

lemma clauses_entry_wf:
  assumes "entry_wf r"
  shows "entry_wf (apply_clauses (update_clauses now req) r)"
proof -
  let ?a = "apply_clauses (setLimits req) (apply_clauses (setDisplayName req) r)"
  let ?r' = "apply_clauses (update_clauses now req) r"
  have a: "price_state ?a = price_state r" by (simp add: clause_columns)
  have "price_state ?r' = price_state (apply_clauses (setPrices req) ?a)"
    by (simp add: update_clauses_def clause_columns)
  moreover have "priced (me_prices (apply_clauses (setPrices req) ?a)) (me_price_sources (apply_clauses (setPrices req) ?a))"
    by (rule price_columns_priced) (use assms a in \<open>simp add: entry_wf_def price_state_def\<close>)
  moreover have "status_columns ?r' = (case ur_Enabled req of None \<Rightarrow> status_columns r | Some b \<Rightarrow> (Some b, Some (\<not> b), None))"
    by (simp add: update_clauses_def clause_columns split: option.split)
  moreover note clauses_fixed [of now req r]
  ultimately show ?thesis
    using assms by (cases "ur_Enabled req") (auto simp: entry_wf_def column_defs is_true_def is_false_def)
qed

subsection \<open>The invariant\<close>

lemma row_move_ids:
  assumes "row_move op r r'"
  shows "mr_id r' = mr_id r" "mr_provider_id r' = mr_provider_id r" "mr_model_id r' = mr_model_id r"
proof -
  have "mr_id r' = mr_id r \<and> mr_provider_id r' = mr_provider_id r \<and> mr_model_id r' = mr_model_id r"
    using assms
    by (cases op) (auto simp: merged_entry_def count_miss_def reset_streak_def operator_choice_def clauses_ids
        unpin_def retired_entry_def fleet_off_def fleet_on_def fleet_pin_def)
  then show "mr_id r' = mr_id r" "mr_provider_id r' = mr_provider_id r" "mr_model_id r' = mr_model_id r" by auto
qed

lemma merged_wf:
  assumes "entry_wf r" "priced (sc_Prices m) (sc_PriceSources m)"
  shows "entry_wf (merged_entry now m r)"
  using assms priced_coalesce [of "me_prices r" "me_price_sources r" "sc_Prices m" "sc_PriceSources m"]
    priced_coalesce [of "sc_Prices m" "sc_PriceSources m" "me_prices r" "me_price_sources r"]
  by (cases "me_price_customized r") (auto simp: entry_wf_def merged_entry_def merge_prices jsonb_flip is_true_def is_false_def)

lemma row_move_wf:
  assumes "row_move op r r'" "entry_wf r" "op_wf op"
  shows "entry_wf r'"
proof (cases op)
  case (OpUpsert m)
  then show ?thesis using assms merged_wf by auto
next
  case (OpUpdate i req)
  then show ?thesis using assms clauses_entry_wf by auto
qed (use assms in \<open>auto simp: entry_wf_def count_miss_def reset_streak_def missed_def operator_choice_def unpin_def
      retired_entry_def fleet_off_def fleet_on_def fleet_pin_def is_true_def is_false_def as_retired_def split: if_splits\<close>)

lemma inserted_wf: "may_insert op rs r \<Longrightarrow> op_wf op \<Longrightarrow> entry_wf r"
  by (cases op) (auto simp: inserted_entry_def entry_wf_def is_false_def)

lemma effect_table_wf:
  assumes "op_effect op rs rs'" "table_wf rs" "op_wf op"
  shows "table_wf rs'"
proof -
  from assms(1) obtain doomed f new where e: "\<And>r. r \<in> set rs \<Longrightarrow> row_move op r (f r)"
      "\<And>r. r \<in> set new \<Longrightarrow> may_insert op rs r" "length new \<le> 1" and rs': "rs' = map f (filter (\<lambda>r. \<not> doomed r) rs) @ new"
    unfolding op_effect_def by blast
  let ?kept = "filter (\<lambda>r. \<not> doomed r) rs"
  have ids: "map mr_id (map f ?kept) = map mr_id ?kept"
      "map (\<lambda>r. (mr_provider_id r, mr_model_id r)) (map f ?kept) = map (\<lambda>r. (mr_provider_id r, mr_model_id r)) ?kept"
    using row_move_ids [OF e(1)] by simp_all
  have kept: "distinct (map mr_id ?kept)" "distinct (map (\<lambda>r. (mr_provider_id r, mr_model_id r)) ?kept)"
    using assms(2) by (auto simp: table_wf_def intro: distinct_map_filter)
  have "distinct (map mr_id rs') \<and> distinct (map (\<lambda>r. (mr_provider_id r, mr_model_id r)) rs')"
  proof (cases new)
    case Nil
    then have "rs' = map f ?kept" by (simp add: rs')
    then show ?thesis using kept ids by metis
  next
    case (Cons n ns)
    with e(3) have new: "new = [n]" by simp
    then have "may_insert op rs n" using e(2) by simp
    then have "\<forall>x\<in>set rs. mr_id x \<noteq> mr_id n \<and> (mr_provider_id x, mr_model_id x) \<noteq> (mr_provider_id n, mr_model_id n)"
      by (cases op) (auto simp: inserted_entry_def same_model_def)
    then have "mr_id n \<notin> set (map mr_id ?kept)"
        "(mr_provider_id n, mr_model_id n) \<notin> set (map (\<lambda>r. (mr_provider_id r, mr_model_id r)) ?kept)" by auto
    then have "mr_id n \<notin> set (map mr_id (map f ?kept)) \<and>
        (mr_provider_id n, mr_model_id n) \<notin> set (map (\<lambda>r. (mr_provider_id r, mr_model_id r)) (map f ?kept))"
      unfolding ids by (rule conjI)
    then show ?thesis using kept ids unfolding rs' new map_append distinct_append by (simp del: map_map)
  qed
  moreover have "\<forall>r\<in>set rs'. entry_wf r"
    using assms(2,3) by (auto simp: rs' table_wf_def intro: row_move_wf [OF e(1)] inserted_wf [OF e(2)])
  ultimately show ?thesis by (simp add: table_wf_def)
qed

lemma run_op_table_wf:
  assumes "table_wf (fl_entries s)" "op_wf op"
  shows "table_wf (fl_entries (run_op op s))"
  using effect_table_wf [OF run_op_effect assms] assms(1) by (simp add: table_wf_def)

lemma run_ops_table_wf: "table_wf (fl_entries s) \<Longrightarrow> (\<And>op. op \<in> set ops \<Longrightarrow> op_wf op) \<Longrightarrow> table_wf (fl_entries (run_ops ops s))"
  unfolding run_ops_def by (induction ops arbitrary: s) (simp_all add: run_op_table_wf)

subsection \<open>What a row keeps\<close>

text \<open>A property of one row that every step of a kind keeps is kept by every sequence of such
  steps, and the row stays in the table.\<close>

definition still :: "uuid \<Rightarrow> (model_full \<Rightarrow> bool) \<Rightarrow> fleet_store \<Rightarrow> bool" where
  "still i P s \<longleftrightarrow> (\<exists>r\<in>set (fl_entries s). mr_id r = i \<and> P r)"

lemma still_step:
  assumes "still i P s" "distinct (map mr_id (fl_entries s))"
    "\<And>r r'. row_move op r r' \<Longrightarrow> mr_id r = i \<Longrightarrow> P r \<Longrightarrow> P r'" "\<And>r. mr_id r = i \<Longrightarrow> P r \<Longrightarrow> \<not> may_delete op r"
  shows "still i P (run_op op s)"
proof -
  from run_op_effect [OF assms(2)] obtain doomed f new where
      e: "\<forall>r\<in>set (fl_entries s). doomed r \<longrightarrow> may_delete op r" "\<forall>r\<in>set (fl_entries s). row_move op r (f r)"
        "fl_entries (run_op op s) = map f (filter (\<lambda>r. \<not> doomed r) (fl_entries s)) @ new"
    unfolding op_effect_def by metis
  from assms(1) obtain r where r: "r \<in> set (fl_entries s)" "mr_id r = i" "P r" by (auto simp: still_def)
  with e assms(4) have "\<not> doomed r" "row_move op r (f r)" by auto
  moreover have "P (f r)" "mr_id (f r) = i" using assms(3) r \<open>row_move op r (f r)\<close> row_move_ids by auto
  ultimately show ?thesis using r(1) unfolding still_def e(3) by auto
qed

text \<open>
  The interface of a lasting property: \<open>P\<close> of the row \<open>i\<close>, which no allowed step breaks and under
  which no allowed step deletes the row.
\<close>

locale lasting =
  fixes i :: uuid and P :: "model_full \<Rightarrow> bool" and allowed :: "model_op \<Rightarrow> bool"
  assumes move_keeps: "allowed op \<Longrightarrow> row_move op r r' \<Longrightarrow> mr_id r = i \<Longrightarrow> P r \<Longrightarrow> P r'"
    and row_stays: "allowed op \<Longrightarrow> mr_id r = i \<Longrightarrow> P r \<Longrightarrow> \<not> may_delete op r"
begin

lemma lasts:
  assumes "still i P s" "table_wf (fl_entries s)" "\<And>op. op \<in> set ops \<Longrightarrow> op_wf op \<and> allowed op"
  shows "still i P (run_ops ops s)"
  using assms
proof (induction ops arbitrary: s)
  case (Cons op ops)
  then have op: "op_wf op" "allowed op" by auto
  have "still i P (run_op op s)"
    by (rule still_step) (use Cons.prems(1,2) op move_keeps row_stays in \<open>auto simp: table_wf_def\<close>)
  then have "still i P (run_ops ops (run_op op s))"
    using Cons.prems run_op_table_wf [OF Cons.prems(2) op(1)] by (intro Cons.IH) auto
  then show ?case by (simp add: run_ops_def)
qed (simp add: run_ops_def)

end

text \<open>The steps nobody decided by hand: discovery, the traffic retirement, the prune, and the
  surroundings. A dismissal silences a claim and switches nothing.\<close>

fun automatic :: "model_op \<Rightarrow> bool" where
  "automatic (OpSetEnabled i b) = False"
| "automatic (OpUpdate i req) = False"
| "automatic (OpDeleteOne i) = False"
| "automatic (OpDelete ids) = False"
| "automatic (OpUnpin p ids) = False"
| "automatic (OpFleetDisables refs n) = False"
| "automatic (OpFleetEnables refs n) = False"
| "automatic _ = True"

definition switched_off :: "model_full \<Rightarrow> bool" where
  "switched_off r \<longleftrightarrow> mr_enabled r = Some False \<and> me_disabled_manually r = Some True"

definition traffic_retired :: "model_full \<Rightarrow> bool" where
  "traffic_retired r \<longleftrightarrow> mr_enabled r = Some False \<and> me_auto_retired_at r \<noteq> None"

definition pinned_on :: "model_full \<Rightarrow> bool" where
  "pinned_on r \<longleftrightarrow> mr_enabled r = Some True \<and> me_manually_enabled_at r \<noteq> None"

lemma switched_off_move:
  "row_move op r r' \<Longrightarrow> automatic op \<Longrightarrow> switched_off r \<Longrightarrow> switched_off r'"
  by (cases op) (auto simp: switched_off_def merged_entry_def missed_def reset_streak_def still_routable_def
      as_retired_def is_true_def is_false_def)

lemma traffic_retired_move:
  "row_move op r r' \<Longrightarrow> automatic op \<Longrightarrow> op \<noteq> OpRevert (mr_id r) \<Longrightarrow> traffic_retired r \<Longrightarrow> traffic_retired r'"
  by (cases op) (auto simp: traffic_retired_def merged_entry_def missed_def reset_streak_def still_routable_def
      as_retired_def is_true_def is_false_def split: option.splits)

text \<open>A pin holds until the listing names the model again, the provider refuses it, or an operator acts.\<close>

fun lifts_pin :: "model_full \<Rightarrow> model_op \<Rightarrow> bool" where
  "lifts_pin r (OpUpsert m) = same_model m r"
| "lifts_pin r (OpRetire i confirm) = (i = mr_id r)"
| "lifts_pin r op = (\<not> automatic op)"

lemma pinned_on_move:
  "row_move op r r' \<Longrightarrow> \<not> lifts_pin r op \<Longrightarrow> pinned_on r \<Longrightarrow> pinned_on r'"
  by (cases op) (auto simp: pinned_on_def count_miss_def reset_streak_def as_retired_def is_false_def)

lemma no_delete:
  assumes "automatic op" "switched_off r \<or> traffic_retired r \<or> pinned_on r"
  shows "\<not> may_delete op r"
  using assms by (cases op) (auto simp: unclaimed_def switched_off_def traffic_retired_def pinned_on_def is_false_def)

interpretation switched_off: lasting i switched_off automatic for i
  by unfold_locales (use switched_off_move no_delete in auto)

interpretation traffic_retired: lasting i traffic_retired "\<lambda>op. automatic op \<and> op \<noteq> OpRevert i" for i
  by unfold_locales (use traffic_retired_move no_delete in auto)

definition same_key :: "model_full \<Rightarrow> model_full \<Rightarrow> bool" where
  "same_key r x \<longleftrightarrow> mr_provider_id x = mr_provider_id r \<and> mr_model_id x = mr_model_id r"

interpretation pinned_on: lasting "mr_id r" "\<lambda>x. pinned_on x \<and> same_key r x" "\<lambda>op. automatic op \<and> \<not> lifts_pin r op" for r
proof unfold_locales
  fix op x x'
  assume a: "automatic op \<and> \<not> lifts_pin r op" "row_move op x x'" "mr_id x = mr_id r" "pinned_on x \<and> same_key r x"
  then have "lifts_pin x op = lifts_pin r op" by (cases op) (auto simp: same_model_def same_key_def)
  then show "pinned_on x' \<and> same_key r x'"
    using pinned_on_move [OF a(2)] row_move_ids [OF a(2)] a by (auto simp: same_key_def)
qed (use no_delete in auto)

end
