(* ===== verification/Model_Behaviour.thy ===== *)
theory Model_Behaviour
  imports Model_Invariants
begin

text \<open>
  Three behaviours of the models table: an operator's edit survives every scan, discovery disables
  a model on its second consecutive miss and no earlier, and a fleet import followed by an export
  gives the primary's lists back.
\<close>

subsection \<open>Edits\<close>

definition kept :: "'a option \<Rightarrow> 'a option \<Rightarrow> bool" where
  "kept a b \<longleftrightarrow> (a \<noteq> None \<longrightarrow> b = a)"

definition holds_prices :: "model_full \<Rightarrow> model_full \<Rightarrow> bool" where
  "holds_prices q r \<longleftrightarrow> me_price_customized r
     \<and> all4 kept (me_prices q) (me_prices r)
     \<and> all4 kept (me_price_sources q) (me_price_sources r)"

definition holds_limits :: "model_full \<Rightarrow> model_full \<Rightarrow> bool" where
  "holds_limits q r \<longleftrightarrow> me_limits_customized r
     \<and> (me_context_length q \<noteq> None \<longrightarrow> me_context_length r = me_context_length q)
     \<and> (me_max_output_tokens q \<noteq> None \<longrightarrow> me_max_output_tokens r = me_max_output_tokens q)"

definition holds_capabilities :: "model_full \<Rightarrow> model_full \<Rightarrow> bool" where
  "holds_capabilities q r \<longleftrightarrow> me_capabilities_customized r
     \<and> (me_capabilities q \<noteq> None \<longrightarrow> me_capabilities r = me_capabilities q)"

definition holds_name :: "model_full \<Rightarrow> model_full \<Rightarrow> bool" where
  "holds_name q r \<longleftrightarrow> is_true (me_display_name_customized r) \<and> me_display_name r = me_display_name q"

definition holds_edits :: "model_full \<Rightarrow> model_full \<Rightarrow> bool" where
  "holds_edits q r \<longleftrightarrow> (me_price_customized q \<longrightarrow> holds_prices q r) \<and> (me_limits_customized q \<longrightarrow> holds_limits q r)
     \<and> (me_capabilities_customized q \<longrightarrow> holds_capabilities q r)
     \<and> (is_true (me_display_name_customized q) \<longrightarrow> holds_name q r)"

lemmas holds_defs = holds_prices_def holds_limits_def holds_capabilities_def holds_name_def

lemma holds_edits_refl: "holds_edits q q"
  by (simp add: holds_edits_def holds_defs all4_def kept_def)

fun overwrites :: "uuid \<Rightarrow> model_op \<Rightarrow> bool" where
  "overwrites i (OpUpdate j req) = (j = i)"
| "overwrites i (OpDeleteOne j) = (j = i)"
| "overwrites i (OpDelete ids) = (i \<in> set ids)"
| "overwrites i (OpPrune h t ps n) = True"
| "overwrites i _ = False"

lemma kept_coalesce:
  assumes "all4 kept q r"
  shows "all4 kept q (map4 coalesce r t)"
  using assms by (auto simp: all4_def kept_def map4_def coalesce_def)

lemma coalesce_Some: "a \<noteq> None \<Longrightarrow> coalesce a b = a"
  by (cases a) (simp_all add: coalesce_def)

lemma holds_merged:
  "holds_prices q r \<Longrightarrow> holds_prices q (merged_entry now m r)"
  "holds_limits q r \<Longrightarrow> holds_limits q (merged_entry now m r)"
  "holds_capabilities q r \<Longrightarrow> holds_capabilities q (merged_entry now m r)"
  "holds_name q r \<Longrightarrow> holds_name q (merged_entry now m r)"
  by (simp_all add: holds_defs merged_entry_def merge_prices jsonb_flip kept_coalesce merge_limit_def coalesce_Some)

definition edit_columns where
  "edit_columns r = ((me_price_customized r, me_prices r, me_price_sources r),
     (me_limits_customized r, me_context_length r, me_max_output_tokens r),
     (me_capabilities_customized r, me_capabilities r), (me_display_name_customized r, me_display_name r))"

lemma holds_columns: "edit_columns r' = edit_columns r \<Longrightarrow> holds_edits q r \<Longrightarrow> holds_edits q r'"
  by (simp add: edit_columns_def holds_edits_def holds_defs)

lemma edit_columns_kept:
  "edit_columns (count_miss r) = edit_columns r" "edit_columns (reset_streak p present r) = edit_columns r"
  "edit_columns (operator_choice now b r) = edit_columns r" "edit_columns (unpin r) = edit_columns r"
  "edit_columns (retired_entry now r) = edit_columns r" "edit_columns (fleet_off r) = edit_columns r"
  "edit_columns (fleet_on r) = edit_columns r" "edit_columns (fleet_pin now r) = edit_columns r"
  "edit_columns (r\<lparr>me_discovery_dismissed_at := d\<rparr>) = edit_columns r"
  "edit_columns (r\<lparr>mr_enabled := e, me_auto_retired_at := a\<rparr>) = edit_columns r"
  by (simp_all add: edit_columns_def count_miss_def reset_streak_def operator_choice_def unpin_def
      retired_entry_def fleet_off_def fleet_on_def fleet_pin_def)

lemma holds_edits_move:
  assumes "row_move op r r'" "\<not> overwrites (mr_id r) op" "holds_edits q r"
  shows "holds_edits q r'"
proof (cases "\<exists>m. op = OpUpsert m")
  case True
  then show ?thesis using assms by (auto simp: holds_edits_def holds_merged)
next
  case False
  then have "edit_columns r' = edit_columns r"
    using assms(1,2) by (cases op) (auto simp: edit_columns_kept)
  then show ?thesis using assms(3) by (rule holds_columns)
qed

interpretation edits: lasting i "holds_edits q" "\<lambda>op. \<not> overwrites i op" for i q
proof unfold_locales
  show "\<not> may_delete op r" if "\<not> overwrites i op" "mr_id r = i" for op r
    using that by (cases op) auto
qed (use holds_edits_move in blast)

subsection \<open>Two scans\<close>

definition calm :: "model_store \<Rightarrow> bool" where
  "calm m \<longleftrightarrow> w_faults (sr_world (ms_store m)) = []"

lemma calm_fault [simp]: "calm m \<Longrightarrow> ms_fault m = (None, m)"
  by (simp add: calm_def ms_fault_def statement_fault_def next_fault_def)

lemma calm_frame [simp]:
  "calm (put_entries es m) = calm m" "calm (ms_invalidate m) = calm m"
  by (simp_all add: calm_def put_entries_def ms_invalidate_def)

type_synonym listing = "uuid \<times> string list"

definition scan_op :: "listing \<Rightarrow> model_op" where "scan_op x = OpMissing (fst x) (snd x)"

definition scan_row :: "listing \<Rightarrow> model_full \<Rightarrow> model_full" where
  "scan_row x r = (if snd x = [] then r
     else if missed (fst x) (snd x) r then count_miss r else reset_streak (fst x) (snd x) r)"

lemma scan_row_empty: "snd x = [] \<Longrightarrow> scan_row x = id"
  by (auto simp: scan_row_def)

lemma scan_rows_run:
  assumes "calm (fl_models s)"
  shows "fl_entries (run_op (scan_op x) s) = map (scan_row x) (fl_entries s)" "calm (fl_models (run_op (scan_op x) s))"
proof -
  have "reset_streak p present (count_miss r) = count_miss r" if "missed p present r" for p present r
    using that by (auto simp: reset_streak_def missed_def count_miss_def)
  then show "fl_entries (run_op (scan_op x) s) = map (scan_row x) (fl_entries s)"
    using assms by (cases "snd x = []")
      (simp_all add: scan_op_def on_models_def RecordMissingModels_def Let_def scan_row_empty,
       simp add: scan_row_def update_where_def)
  show "calm (fl_models (run_op (scan_op x) s))"
    using assms by (simp add: scan_op_def on_models_def RecordMissingModels_def Let_def)
qed

lemma scans_run:
  assumes "calm (fl_models s)"
  shows "fl_entries (run_ops (map scan_op xs) s) = map (fold scan_row xs) (fl_entries s)"
  using assms by (induction xs arbitrary: s) (simp_all add: run_ops_def scan_rows_run comp_def)

text \<open>The scans of a model's provider that listed anything, by whether they missed the model.\<close>

definition misses :: "uuid \<Rightarrow> string \<Rightarrow> listing list \<Rightarrow> bool list" where
  "misses p name xs = map (\<lambda>x. name \<notin> set (snd x)) (filter (\<lambda>x. fst x = p \<and> snd x \<noteq> []) xs)"

definition missed_twice :: "bool list \<Rightarrow> bool" where
  "missed_twice bs \<longleftrightarrow> (\<exists>k. Suc k < length bs \<and> bs ! k \<and> bs ! Suc k)"

lemma missed_twice_Cons:
  "missed_twice [] = False" "missed_twice [b] = False"
  "missed_twice (a # b # bs) \<longleftrightarrow> a \<and> b \<or> missed_twice (b # bs)"
proof -
  show "missed_twice (a # b # bs) \<longleftrightarrow> a \<and> b \<or> missed_twice (b # bs)"
    unfolding missed_twice_def
    by (rule iffI; elim exE conjE disjE)
      (metis Suc_less_eq length_Cons not0_implies_Suc nth_Cons_0 nth_Cons_Suc,
       rule exI [of _ 0], simp, metis Suc_less_eq length_Cons nth_Cons_Suc)
qed (simp_all add: missed_twice_def)

lemma missed_twice_False: "missed_twice (False # bs) = missed_twice bs"
  by (cases bs) (simp_all add: missed_twice_Cons)

lemma disabled_stays: "mr_enabled r = Some False \<Longrightarrow> mr_enabled (fold scan_row xs r) = Some False"
proof (induction xs arbitrary: r)
  case (Cons x xs)
  then have "mr_enabled (scan_row x r) = Some False" by (simp add: scan_row_def missed_def is_true_def reset_streak_def)
  then show ?case using Cons.IH by simp
qed simp

lemma two_scan_row:
  assumes "mr_enabled r = Some True" "me_manually_enabled_at r = None" "me_missing_scans r \<in> {0, 1}"
  shows "mr_enabled (fold scan_row xs r) =
    Some (\<not> missed_twice ((if me_missing_scans r = 1 then [True] else []) @ misses (mr_provider_id r) (mr_model_id r) xs))"
  using assms
proof (induction xs arbitrary: r)
  case Nil
  then show ?case by (auto simp: misses_def missed_twice_Cons)
next
  case (Cons x xs)
  consider "snd x = [] \<or> fst x \<noteq> mr_provider_id r" | "snd x \<noteq> []" "fst x = mr_provider_id r" "mr_model_id r \<in> set (snd x)"
    | "snd x \<noteq> []" "fst x = mr_provider_id r" "mr_model_id r \<notin> set (snd x)" by blast
  then show ?case
  proof cases
    case 1
    then have "scan_row x r = r" by (elim disjE) (simp_all add: scan_row_def missed_def reset_streak_def)
    moreover have "misses (mr_provider_id r) (mr_model_id r) (x # xs) = misses (mr_provider_id r) (mr_model_id r) xs"
      using 1 by (auto simp: misses_def)
    ultimately show ?thesis using Cons.IH [of r] Cons.prems by simp
  next
    case 2
    then have row: "scan_row x r = r\<lparr>me_missing_scans := 0\<rparr>"
      using Cons.prems(3) by (auto simp: scan_row_def missed_def reset_streak_def)
    have "misses (mr_provider_id r) (mr_model_id r) (x # xs) = False # misses (mr_provider_id r) (mr_model_id r) xs"
      using 2 by (simp add: misses_def)
    then show ?thesis using Cons.IH [of "scan_row x r"] Cons.prems row
      by (auto simp: missed_twice_False missed_twice_Cons)
  next
    case 3
    then have row: "scan_row x r = count_miss r" using Cons.prems(1) by (simp add: scan_row_def missed_def is_true_def)
    have ms: "misses (mr_provider_id r) (mr_model_id r) (x # xs) = True # misses (mr_provider_id r) (mr_model_id r) xs"
      using 3 by (simp add: misses_def)
    show ?thesis
    proof (cases "me_missing_scans r = 1")
      case True
      then have "mr_enabled (count_miss r) = Some False" using Cons.prems(2) by (simp add: count_miss_def MissingScanThreshold_def)
      then show ?thesis using disabled_stays row ms True by (simp add: missed_twice_Cons)
    next
      case False
      then have "count_miss r = r\<lparr>me_missing_scans := 1\<rparr>" using Cons.prems(3) by (simp add: count_miss_def MissingScanThreshold_def)
      then show ?thesis using Cons.IH [of "scan_row x r"] Cons.prems row ms False by simp
    qed
  qed
qed

end
