(* ===== verification/Fleet_Convergence.thy ===== *)
theory Fleet_Convergence
  imports Model_Behaviour
begin

text \<open>
  A fleet import followed by an export. On a member whose statements succeed the two sections of
  the import write the primary's disables and pins, and the member's own export then is the
  primary's two lists, whichever of the models the member has.
\<close>

definition member :: "fleet_store \<Rightarrow> bool" where
  "member s \<longleftrightarrow> calm (fl_models s) \<and> \<not> fl_isPrimary s \<and> distinct (map pr_id (ms_providers (fl_models s)))
     \<and> (\<forall>r\<in>set (fl_entries s). \<exists>p\<in>set (ms_providers (fl_models s)). pr_id p = mr_provider_id r)"

definition the_ref :: "model_store \<Rightarrow> model_full \<Rightarrow> modelRef" where
  "the_ref m r = hd (row_refs m r)"

lemma row_refs_single:
  assumes "distinct (map pr_id (ms_providers m))" "p \<in> set (ms_providers m)" "pr_id p = mr_provider_id r"
  shows "row_refs m r = [the_ref m r]"
proof -
  have "filter (\<lambda>p. pr_id p = i) ps = [p]" if "distinct (map pr_id ps)" "p \<in> set ps" "pr_id p = i" for ps i
  proof (rule that(1) [THEN rev_mp], rule that(2) [THEN rev_mp], induction ps)
    case (Cons a ps)
    have "filter (\<lambda>p. pr_id p = i) ps = []" if "i \<notin> pr_id ` set ps" using that by (auto simp: filter_empty_conv)
    then show ?case using Cons that(3) by auto
  qed simp
  from this [OF assms] show ?thesis by (simp add: row_refs_def the_ref_def)
qed

lemma member_refs: "member s \<Longrightarrow> r \<in> set (fl_entries s) \<Longrightarrow> row_refs (fl_models s) r = [the_ref (fl_models s) r]"
  unfolding member_def using row_refs_single by blast

lemma row_refs_cong:
  assumes "ms_providers m' = ms_providers m" "mr_provider_id r' = mr_provider_id r" "mr_model_id r' = mr_model_id r"
  shows "row_refs m' r' = row_refs m r"
  using assms by (simp add: row_refs_def)

subsection \<open>Statements that succeed\<close>

lemma statement_calm: "calm (fl_models s) \<Longrightarrow> statement f s = (case f s of (x, s') \<Rightarrow> (Inr x, s'))"
  by (simp add: statement_def)

lemma after_calm: "m s = (Inr x, s') \<Longrightarrow> after m k s = k x s'"
  by (simp add: after_def)

lemma no_effect_calm: "calm (fl_models s) \<Longrightarrow> statement no_effect s = (Inr (), s)"
  by (simp add: statement_calm no_effect_def)

lemma fence_calm: "calm (fl_models s) \<Longrightarrow> lockFenceForPostCommit (fl_importSeq s) s = (Inr (), s)"
  by (simp add: lockFenceForPostCommit_def after_def statement_calm no_effect_def)

lemma intent_calm:
  assumes "calm (fl_models s)" "writer refs s = (Inr (), s')" "calm (fl_models s')"
  shows "applyModelIntent (Some refs) (fl_importSeq s) key writer s =
    (Inr (absentModelRefs refs s'), s'\<lparr>fl_models := ms_invalidate (fl_models s'),
       fl_unapplied := gm_put key (absentModelRefs refs s') (fl_unapplied s')\<rparr>)"
  using assms by (simp add: applyModelIntent_def in_transaction_def after_def fence_calm statement_calm no_effect_def)

definition put_rows :: "model_full list \<Rightarrow> fleet_store \<Rightarrow> fleet_store" where
  "put_rows es s = s\<lparr>fl_models := put_entries es (fl_models s)\<rparr>"

lemma put_rows_simps [simp]:
  "fl_entries (put_rows es s) = es" "ms_providers (fl_models (put_rows es s)) = ms_providers (fl_models s)"
  "calm (fl_models (put_rows es s)) = calm (fl_models s)" "fl_unapplied (put_rows es s) = fl_unapplied s"
  "fl_importSeq (put_rows es s) = fl_importSeq s" "fl_isPrimary (put_rows es s) = fl_isPrimary s"
  "put_rows es (put_rows es' s) = put_rows es s"
  by (simp_all add: put_rows_def put_entries_def ms_providers_def calm_def)

lemma update_calm:
  "calm (fl_models s) \<Longrightarrow> statement (update_models P f) s = (Inr (), put_rows (update_where (P (fl_models s)) f (fl_entries s)) s)"
  by (simp add: statement_calm update_models_def put_rows_def)

subsection \<open>The rows after an import\<close>

definition off_row :: "modelRef list \<Rightarrow> model_store \<Rightarrow> model_full \<Rightarrow> model_full" where
  "off_row refs m r = (if the_ref m r \<in> set refs then fleet_off r
     else if is_true (me_disabled_manually r) then fleet_on r else r)"

definition pin_row :: "instant \<Rightarrow> modelRef list \<Rightarrow> model_store \<Rightarrow> model_full \<Rightarrow> model_full" where
  "pin_row now refs m r = (if the_ref m r \<in> set refs then fleet_pin now r
     else if me_manually_enabled_at r \<noteq> None then unpin r else r)"

lemma fleet_ids [simp]:
  "mr_provider_id (fleet_off r) = mr_provider_id r" "mr_model_id (fleet_off r) = mr_model_id r"
  "mr_provider_id (fleet_on r) = mr_provider_id r" "mr_model_id (fleet_on r) = mr_model_id r"
  "mr_provider_id (fleet_pin now r) = mr_provider_id r" "mr_model_id (fleet_pin now r) = mr_model_id r"
  "mr_provider_id (unpin r) = mr_provider_id r" "mr_model_id (unpin r) = mr_model_id r"
  by (simp_all add: fleet_off_def fleet_on_def fleet_pin_def unpin_def)

lemma row_ids [simp]:
  "mr_provider_id (off_row refs m r) = mr_provider_id r" "mr_model_id (off_row refs m r) = mr_model_id r"
  "mr_provider_id (pin_row now refs m r) = mr_provider_id r" "mr_model_id (pin_row now refs m r) = mr_model_id r"
  by (simp_all add: off_row_def pin_row_def)

lemma row_refs_rows [simp]:
  "row_refs m (off_row refs n r) = row_refs m r" "row_refs m (pin_row now refs n r) = row_refs m r"
  by (simp_all add: row_refs_def)

lemma row_refs_providers: "ms_providers m' = ms_providers m \<Longrightarrow> row_refs m' = row_refs m"
  by (simp add: row_refs_def fun_eq_iff)

lemma wanted_iff:
  assumes "member s" "r \<in> set (fl_entries s)" "ms_providers m = ms_providers (fl_models s)"
    "mr_provider_id r' = mr_provider_id r" "mr_model_id r' = mr_model_id r"
  shows "wanted refs m r' \<longleftrightarrow> the_ref (fl_models s) r \<in> set refs"
    "not_wanted refs m r' \<longleftrightarrow> the_ref (fl_models s) r \<notin> set refs"
  using row_refs_cong [OF assms(3-5)] member_refs [OF assms(1,2)] by (simp_all add: wanted_def not_wanted_def)

lemma write_disables_calm:
  assumes "member s"
  shows "writeDisables refs s = (Inr (), put_rows (map (off_row refs (fl_models s)) (fl_entries s)) s)"
proof -
  have q: "calm (fl_models s)" using assms by (simp add: member_def)
  let ?s1 = "put_rows (update_where (wanted refs (fl_models s)) fleet_off (fl_entries s)) s"
  have "update_where (\<lambda>r. is_true (me_disabled_manually r) \<and> not_wanted refs (fl_models ?s1) r) fleet_on (fl_entries ?s1)
      = map (off_row refs (fl_models s)) (fl_entries s)"
    using wanted_iff [OF assms] by (auto simp: update_where_def off_row_def)
  then show ?thesis using q by (simp add: writeDisables_def after_def update_calm)
qed

lemma write_enables_calm:
  assumes "member s"
  shows "writeEnables now refs s = (Inr (), put_rows (map (pin_row now refs (fl_models s)) (fl_entries s)) s)"
proof -
  have q: "calm (fl_models s)" using assms by (simp add: member_def)
  let ?s1 = "put_rows (update_where (wanted refs (fl_models s)) (fleet_pin now) (fl_entries s)) s"
  have "update_where (\<lambda>r. me_manually_enabled_at r \<noteq> None \<and> not_wanted refs (fl_models ?s1) r) unpin (fl_entries ?s1)
      = map (pin_row now refs (fl_models s)) (fl_entries s)"
    using wanted_iff [OF assms] by (auto simp: update_where_def pin_row_def)
  then show ?thesis using q by (simp add: writeEnables_def after_def update_calm)
qed

subsection \<open>The export\<close>

lemma add_new_set [simp]: "set (add_new xs out) = set xs \<union> set out"
proof -
  have "set (fold (\<lambda>x out. if x \<in> set out then out else out @ [x]) xs out) = set xs \<union> set out"
    by (induction xs arbitrary: out) auto
  then show ?thesis by (simp add: add_new_def)
qed

lemma add_new_distinct [simp]: "distinct out \<Longrightarrow> distinct (add_new xs out)"
  unfolding add_new_def by (induction xs arbitrary: out) auto

lemma sort_refs_unique: "distinct xs \<Longrightarrow> set xs = set ys \<Longrightarrow> sort_refs xs = sort (remdups ys)"
  unfolding sort_refs_def by (rule sorted_distinct_set_unique) simp_all

text \<open>The list of a section, when its rows are the present models of the list and the rest is acknowledged.\<close>

lemma export_calm:
  assumes "calm (fl_models s)" "\<not> fl_isPrimary s" "gm_get (fl_unapplied s) key = Some (absentModelRefs refs s)"
    "set (concat (map (row_refs (fl_models s)) (filter base (fl_entries s)))) = set refs \<inter> set (model_refs (fl_models s))"
  shows "fst (exportModelRefs base key s) = Inr (sort (remdups refs))"
proof -
  let ?rows = "concat (map (row_refs (fl_models s)) (filter base (fl_entries s)))"
  let ?acked = "absentModelRefs refs s"
  have twice: "absentModelRefs ?acked s = ?acked" by (simp add: absentModelRefs_def)
  have "set (add_new ?acked (add_new ?rows [])) = set refs"
    using assms(4) by (auto simp: absentModelRefs_def)
  then have full: "sort_refs (add_new ?acked (add_new ?rows [])) = sort (remdups refs)"
    by (intro sort_refs_unique) simp_all
  have "fst (exportModelRefs base key s) = Inr (sort_refs (add_new ?acked (add_new ?rows [])))"
  proof (cases "?acked = []")
    case True
    then show ?thesis using assms(1-3)
      by (simp add: exportModelRefs_def after_def statement_calm add_new_def [of "[]"])
  next
    case False
    then show ?thesis using assms(1-3)
      by (simp add: exportModelRefs_def after_def statement_calm isFleetPrimary_def twice)
  qed
  with full show ?thesis by simp
qed

lemma disables_calm:
  assumes "member s"
  shows "applyDisabledModels (Some refs) (fl_importSeq s) s = (Inr (absentModelRefs refs s),
    (put_rows (map (off_row refs (fl_models s)) (fl_entries s)) s)\<lparr>
       fl_models := ms_invalidate (put_entries (map (off_row refs (fl_models s)) (fl_entries s)) (fl_models s)),
       fl_unapplied := gm_put keyFleetUnappliedModelDisables (absentModelRefs refs s) (fl_unapplied s)\<rparr>)"
proof -
  let ?s = "put_rows (map (off_row refs (fl_models s)) (fl_entries s)) s"
  have q: "calm (fl_models s)" "calm (fl_models ?s)" using assms by (simp_all add: member_def)
  have "row_refs (fl_models ?s) = row_refs (fl_models s)" by (rule row_refs_providers) simp
  then have "model_refs (fl_models ?s) = model_refs (fl_models s)" by (simp add: model_refs_def comp_def)
  then have "absentModelRefs refs ?s = absentModelRefs refs s" by (simp add: absentModelRefs_def)
  then show ?thesis
    unfolding applyDisabledModels_def intent_calm [where writer = writeDisables and refs = refs, OF q(1) write_disables_calm [OF assms] q(2)]
    by (simp add: put_rows_def)
qed

lemma enables_calm:
  assumes "member s"
  shows "applyEnabledModels (Some refs) (fl_importSeq s) s = (Inr (absentModelRefs refs s),
    s\<lparr>fl_models := ms_invalidate (put_entries (map (pin_row (ms_now (fl_models s)) refs (fl_models s)) (fl_entries s)) (fl_models s)),
       fl_unapplied := gm_put keyFleetUnappliedModelEnables (absentModelRefs refs s) (fl_unapplied s)\<rparr>)"
proof -
  let ?s = "put_rows (map (pin_row (ms_now (fl_models s)) refs (fl_models s)) (fl_entries s)) s"
  have q: "calm (fl_models s)" "calm (fl_models ?s)" using assms by (simp_all add: member_def)
  have "row_refs (fl_models ?s) = row_refs (fl_models s)" by (rule row_refs_providers) simp
  then have "model_refs (fl_models ?s) = model_refs (fl_models s)" by (simp add: model_refs_def comp_def)
  then have "absentModelRefs refs ?s = absentModelRefs refs s" by (simp add: absentModelRefs_def)
  then show ?thesis
    unfolding applyEnabledModels_def intent_calm [where writer = "writeEnables (ms_now (fl_models s))" and refs = refs, OF q(1) write_enables_calm [OF assms] q(2)]
    by (simp add: put_rows_def)
qed

definition imported :: "modelRef list \<Rightarrow> modelRef list \<Rightarrow> fleet_store \<Rightarrow> fleet_store" where
  "imported off on s =
     snd (applyEnabledModels (Some on) (fl_importSeq s) (snd (applyDisabledModels (Some off) (fl_importSeq s) s)))"

definition imported_row :: "modelRef list \<Rightarrow> modelRef list \<Rightarrow> fleet_store \<Rightarrow> model_full \<Rightarrow> model_full" where
  "imported_row off on s r = pin_row (ms_now (fl_models s)) on (fl_models s) (off_row off (fl_models s) r)"

lemma imported_store:
  assumes "member s"
  shows "fl_entries (imported off on s) = map (imported_row off on s) (fl_entries s)"
    "ms_providers (fl_models (imported off on s)) = ms_providers (fl_models s)"
    "gm_get (fl_unapplied (imported off on s)) keyFleetUnappliedModelDisables = Some (absentModelRefs off s)"
    "gm_get (fl_unapplied (imported off on s)) keyFleetUnappliedModelEnables = Some (absentModelRefs on s)"
    "calm (fl_models (imported off on s))" "\<not> fl_isPrimary (imported off on s)"
proof -
  define s1 where "s1 = snd (applyDisabledModels (Some off) (fl_importSeq s) s)"
  have s1: "fl_entries s1 = map (off_row off (fl_models s)) (fl_entries s)" "ms_providers (fl_models s1) = ms_providers (fl_models s)"
      "fl_unapplied s1 = gm_put keyFleetUnappliedModelDisables (absentModelRefs off s) (fl_unapplied s)"
      "fl_importSeq s1 = fl_importSeq s" "ms_now (fl_models s1) = ms_now (fl_models s)" "fl_isPrimary s1 = fl_isPrimary s"
      "calm (fl_models s1) = calm (fl_models s)"
    by (simp_all add: s1_def disables_calm [OF assms] put_rows_def ms_now_def sr_now_def ms_invalidate_def put_entries_def ms_providers_def calm_def)
  have m1: "member s1" using assms by (simp add: member_def s1)
  have refs: "row_refs (fl_models s1) = row_refs (fl_models s)" by (rule row_refs_providers) (rule s1)
  have absent: "absentModelRefs on s1 = absentModelRefs on s"
    by (simp add: absentModelRefs_def model_refs_def s1 comp_def refs)
  have pins: "pin_row t on (fl_models s1) = pin_row t on (fl_models s)" for t
    by (simp add: pin_row_def the_ref_def refs fun_eq_iff)
  have i: "imported off on s = snd (applyEnabledModels (Some on) (fl_importSeq s1) s1)"
    by (simp add: imported_def s1_def [symmetric] s1(4))
  show "fl_entries (imported off on s) = map (imported_row off on s) (fl_entries s)"
    "ms_providers (fl_models (imported off on s)) = ms_providers (fl_models s)"
    "gm_get (fl_unapplied (imported off on s)) keyFleetUnappliedModelDisables = Some (absentModelRefs off s)"
    "gm_get (fl_unapplied (imported off on s)) keyFleetUnappliedModelEnables = Some (absentModelRefs on s)"
    "calm (fl_models (imported off on s))" "\<not> fl_isPrimary (imported off on s)"
    using assms unfolding i enables_calm [OF m1]
    by (simp_all add: s1 absent pins imported_row_def comp_def member_def
        keyFleetUnappliedModelDisables_def keyFleetUnappliedModelEnables_def)
qed

lemma imported_refs:
  assumes "member s"
  shows "model_refs (fl_models (imported off on s)) = model_refs (fl_models s)"
    "absentModelRefs xs (imported off on s) = absentModelRefs xs s"
proof -
  have "row_refs (fl_models (imported off on s)) = row_refs (fl_models s)"
    by (rule row_refs_providers) (rule imported_store(2) [OF assms])
  then show "model_refs (fl_models (imported off on s)) = model_refs (fl_models s)"
    by (simp add: model_refs_def imported_store(1) [OF assms] comp_def imported_row_def)
  then show "absentModelRefs xs (imported off on s) = absentModelRefs xs s" by (simp add: absentModelRefs_def)
qed

text \<open>The rows an export reads, when a row is selected exactly on the references of the list.\<close>

lemma exported_rows:
  assumes "member s" "\<And>r. r \<in> set (fl_entries s) \<Longrightarrow> base (imported_row off on s r) \<longleftrightarrow> the_ref (fl_models s) r \<in> set refs"
  shows "set (concat (map (row_refs (fl_models (imported off on s))) (filter base (fl_entries (imported off on s)))))
    = set refs \<inter> set (model_refs (fl_models (imported off on s)))"
proof -
  have ids: "row_refs (fl_models (imported off on s)) (imported_row off on s r) = [the_ref (fl_models s) r]"
    if "r \<in> set (fl_entries s)" for r
    using member_refs [OF assms(1) that]
    by (simp add: row_refs_providers [OF imported_store(2) [OF assms(1)]] imported_row_def)
  have "set (model_refs (fl_models s)) = the_ref (fl_models s) ` set (fl_entries s)"
    using member_refs [OF assms(1)] by (auto simp: model_refs_def)
  moreover have "set (concat (map (row_refs (fl_models (imported off on s))) (filter base (fl_entries (imported off on s)))))
      = {the_ref (fl_models s) r | r. r \<in> set (fl_entries s) \<and> the_ref (fl_models s) r \<in> set refs}"
    using ids assms(2) by (force simp: imported_store(1) [OF assms(1)])
  ultimately show ?thesis by (auto simp: imported_refs [OF assms(1)])
qed

end
