(* ===== verification/Model_Properties.thy ===== *)
theory Model_Properties
  imports Fleet_Convergence
begin

text \<open>What the models table guarantees: its invariant, whose decision stands, when discovery
  disables a model, what an operator's edit survives, and that a fleet converges.\<close>

subsection \<open>An edit reaches its row\<close>
























subsection \<open>A small table\<close>

definition demo_scan :: "string \<Rightarrow> scanned" where
  "demo_scan i = \<lparr>sc_ID = i, sc_ProviderID = ''p'', sc_ModelID = i, sc_Name = i, sc_Description = [], sc_DisplayName = i,
     sc_Capabilities = ''{}'', sc_Params = ''{}'', sc_Modality = [], sc_InputModalities = ''[]'', sc_OutputModalities = ''[]'',
     sc_ContextLength = Some 8192, sc_MaxOutputTokens = None, sc_Prices = none4\<lparr>p4_input := Some 3\<rparr>,
     sc_PriceSources = none4\<lparr>p4_input := Some ''catalog''\<rparr>, sc_OwnedBy = [], sc_Enabled = True,
     sc_LiveContextLength = True, sc_LiveMaxOutputTokens = False, sc_PreserveCapabilities = False\<rparr>"

definition demo_models :: "model_full list \<Rightarrow> fleet_store" where
  "demo_models rs = \<lparr>fl_models = \<lparr>ms_store = \<lparr>
       sr_world = \<lparr>w_groups = [], w_models = map model_row.truncate rs,
         w_providers = [\<lparr>pr_id = ''p'', pr_name = ''P'', pr_enabled = Some True, pr_created_at = 1\<rparr>],
         w_settings = [], w_cache = new_failover_cache, w_echoClearPending = False, w_faults = [], w_clock = 7,
         w_uuids = (\<lambda>n. []), w_seq = 0\<rparr>,
       sr_models = new_model_cache, sr_providers = new_provider_cache,
       sr_columns = (\<lambda>_. \<lparr>pc_max_in_flight = None, pc_encrypted_key = [], pc_last_used_at = None\<rparr>)\<rparr>,
     ms_entries = rs, ms_journal = []\<rparr>, fl_importSeq = 1, fl_unapplied = [], fl_isPrimary = False\<rparr>"

abbreviation demo_row :: model_full where "demo_row \<equiv> inserted_entry 5 (demo_scan ''m'')"

lemma demo_models_simps [simp]:
  "fl_entries (demo_models rs) = rs" "calm (fl_models (demo_models rs))" "fl_importSeq (demo_models rs) = 1"
  by (simp_all add: demo_models_def calm_def)

lemma demo_priced: "priced (sc_Prices (demo_scan i)) (sc_PriceSources (demo_scan i))"
  by (simp add: demo_scan_def priced_def all4_def none4_def)

lemma demo_row_wf: "entry_wf (inserted_entry t (demo_scan i))"
  using demo_priced [of i] by (simp add: entry_wf_def inserted_entry_def is_false_def)

subsection \<open>The invariant\<close>

text \<open>C14: the type of the models table. Under every sequence of the writers, whichever of their
  statements fail, ids and (provider, model) pairs stay unique, the two flags are never \<open>NULL\<close>, an
  enabled model is neither switched off by the operator nor retired from traffic, the miss counter is
  not negative, and every stored price names its source, and only a stored price does. Scans hand over
  prices with their sources.\<close>

theorem models_table_well_formed:
  assumes "table_wf (fl_entries s)" "\<And>op. op \<in> set ops \<Longrightarrow> op_wf op"
  shows "table_wf (fl_entries (run_ops ops s))"
  using assms by (rule run_ops_table_wf)

theorem models_table_well_formed_witness:
  "table_wf (fl_entries (run_ops [OpUpsert (demo_scan ''m''), OpMissing ''p'' [''x''], OpRetire ''m'' True, OpRevert ''m''] (demo_models [])))"
proof (rule models_table_well_formed)
  show "table_wf (fl_entries (demo_models []))" by (simp add: table_wf_def)
  show "op_wf op" if "op \<in> set [OpUpsert (demo_scan ''m''), OpMissing ''p'' [''x''], OpRetire ''m'' True, OpRevert ''m'']" for op
    using that demo_priced [of "''m''"] by auto
qed

text \<open>C16: whose decision stands. Discovery, the traffic retirement and its undo, the prune and the
  dismissals never switch a model the operator switched off back on, nor delete it; a model retired
  from traffic stays retired and in the table through every scan and prune, unless its own
  retirement is undone; and a model the operator pinned on stays on through any number of listings
  that omit it, until a listing names it, the provider refuses it, or an operator acts.\<close>

theorem decisions_stand:
  assumes "table_wf (fl_entries s)" "r \<in> set (fl_entries s)" "\<And>op. op \<in> set ops \<Longrightarrow> op_wf op \<and> automatic op"
  shows "(switched_off r \<longrightarrow> still (mr_id r) switched_off (run_ops ops s))
    \<and> (traffic_retired r \<and> OpRevert (mr_id r) \<notin> set ops \<longrightarrow> still (mr_id r) traffic_retired (run_ops ops s))
    \<and> (pinned_on r \<and> (\<forall>op\<in>set ops. \<not> lifts_pin r op) \<longrightarrow> still (mr_id r) pinned_on (run_ops ops s))"
proof (intro conjI impI)
  have here: "P r \<Longrightarrow> still (mr_id r) P s" for P using assms(2) by (auto simp: still_def)
  show "still (mr_id r) switched_off (run_ops ops s)" if "switched_off r"
    by (rule switched_off.lasts [OF here assms(1)]) (use that assms(3) in auto)
  show "still (mr_id r) traffic_retired (run_ops ops s)" if "traffic_retired r \<and> OpRevert (mr_id r) \<notin> set ops"
    by (rule traffic_retired.lasts [OF here assms(1)]) (use that assms(3) in auto)
  show "still (mr_id r) pinned_on (run_ops ops s)" if "pinned_on r \<and> (\<forall>op\<in>set ops. \<not> lifts_pin r op)"
  proof -
    have "still (mr_id r) (\<lambda>x. pinned_on x \<and> same_key r x) (run_ops ops s)"
      by (rule pinned_on.lasts [OF here assms(1)]) (use that assms(3) in \<open>auto simp: same_key_def\<close>)
    then show ?thesis by (auto simp: still_def)
  qed
qed

theorem decisions_stand_witness:
  "still ''m'' traffic_retired (run_ops [OpUpsert (demo_scan ''m''), OpMissing ''p'' [''x''], OpPrune 100 0 [''p''] 5]
     (demo_models [retired_entry 6 demo_row]))"
proof -
  let ?r = "retired_entry 6 demo_row"
  let ?ops = "[OpUpsert (demo_scan ''m''), OpMissing ''p'' [''x''], OpPrune 100 0 [''p''] 5]"
  have "entry_wf ?r" using demo_row_wf [of 5 "''m''"] by (simp add: entry_wf_def retired_entry_def is_true_def)
  then have "table_wf (fl_entries (demo_models [?r]))" by (simp add: table_wf_def)
  moreover have "op_wf op \<and> automatic op" if "op \<in> set ?ops" for op using that demo_priced [of "''m''"] by auto
  moreover have "traffic_retired ?r \<and> OpRevert (mr_id ?r) \<notin> set ?ops" "mr_id ?r = ''m''"
    by (simp_all add: traffic_retired_def retired_entry_def inserted_entry_def demo_scan_def)
  ultimately show ?thesis using decisions_stand [of "demo_models [?r]" ?r ?ops] by auto
qed






text \<open>C15: the fleet converges. When the two per-model sections of an import run on a member and its
  statements succeed, the member's next export is the primary's two lists, sorted and without
  duplicates, whichever of the named models the member has: the list of disables and the list of pins
  come back exactly as they were sent.\<close>

theorem fleet_lists_round_trip:
  assumes "member s" "set off \<inter> set on = {}"
  shows "fst (exportDisabledModels (imported off on s)) = Inr (sort (remdups off))
    \<and> fst (exportEnabledModels (imported off on s)) = Inr (sort (remdups on))"
proof (rule conjI)
  note st = imported_store [OF assms(1), of off on]
  have pins: "the_ref (fl_models s) (off_row off (fl_models s) r) = the_ref (fl_models s) r" for r
    by (simp add: the_ref_def)
  have off: "the_ref (fl_models s) (r\<lparr>mr_enabled := a, me_disabled_manually := b\<rparr>) = the_ref (fl_models s) r" for r a b
    by (simp add: the_ref_def row_refs_def)
  have base: "is_true (me_disabled_manually (imported_row off on s r)) \<and> is_false (mr_enabled (imported_row off on s r))
      \<longleftrightarrow> the_ref (fl_models s) r \<in> set off" for r
    using assms(2) by (auto simp: imported_row_def pin_row_def pins off_row_def fleet_pin_def fleet_on_def fleet_off_def
        unpin_def is_true_def is_false_def off)
  have pinned: "me_manually_enabled_at (imported_row off on s r) \<noteq> None \<and> is_true (mr_enabled (imported_row off on s r))
      \<longleftrightarrow> the_ref (fl_models s) r \<in> set on" for r
    by (auto simp: imported_row_def pin_row_def pins fleet_pin_def fleet_on_def unpin_def is_true_def coalesce_def split: option.splits)
  show "fst (exportDisabledModels (imported off on s)) = Inr (sort (remdups off))"
    unfolding exportDisabledModels_def
    by (rule export_calm [OF st(5,6) _ exported_rows [OF assms(1) base]]) (simp add: st imported_refs(2) [OF assms(1)])
  show "fst (exportEnabledModels (imported off on s)) = Inr (sort (remdups on))"
    unfolding exportEnabledModels_def
    by (rule export_calm [OF st(5,6) _ exported_rows [OF assms(1) pinned]]) (simp add: st imported_refs(2) [OF assms(1)])
qed

theorem fleet_lists_round_trip_witness:
  "fst (exportDisabledModels (imported [(''P'', ''m''), (''Z'', ''gone'')] [(''P'', ''n'')] (demo_models [demo_row])))
     = Inr [(''P'', ''m''), (''Z'', ''gone'')]"
proof -
  have "member (demo_models [demo_row])"
    by (simp add: member_def) (simp add: demo_models_def ms_providers_def inserted_entry_def demo_scan_def)
  then show ?thesis
    using fleet_lists_round_trip [of "demo_models [demo_row]" "[(''P'', ''m''), (''Z'', ''gone'')]" "[(''P'', ''n'')]"] by simp
qed

end
