(* ===== verification/Model_Gone.thy ===== *)
theory Model_Gone
  imports Model_Invariants Attempt_Outcome Failover_Sync
begin

text \<open>
  Retiring a model the provider refuses (\<open>internal/proxy\<close>: \<open>model_gone.go\<close>, \<open>model_gone_streak.go\<close>,
  \<open>model_gone_stream.go\<close>, \<open>model_gone_modality.go\<close>, \<open>model_probe.go\<close>). A refusal is a strike against one model
  on one upstream surface; enough strikes buy one probe, and only a probe the provider refuses
  disables the model, unless the model answered meanwhile.

  The lock sections of a streak are functions on it. A refusal and the goroutine it may start are one
  task, whose program counter stands at the next shared access: \<open>task_step\<close> takes it over one. What
  the code reports (a strike, a claim, a probe's verdict, the commit) is a line of the log, newest
  first. What a probe's request meets (the build, the transport, the provider's reply and the
  classifier's reading of it) is an input. Modality columns are kept decoded. The counters stay far
  below \<open>2^63\<close> and are integers.
\<close>

subsection \<open>Streaks\<close>

definition goneStrikeThreshold :: int where "goneStrikeThreshold = 3"
definition goneStrikeWindow :: duration where "goneStrikeWindow = 30 * minute"
definition goneProbeCooldown :: duration where "goneProbeCooldown = 5 * minute"
definition goneProbeInconclusiveWarnAfter :: int where "goneProbeInconclusiveWarnAfter = 3"
definition goneProbeMaxConcurrent :: nat where "goneProbeMaxConcurrent = 4"
definition goneProbeMaxBody :: int where "goneProbeMaxBody = 1048576"

type_synonym goneStreakKey = "uuid \<times> string"

record goneStreak =
  gs_n :: int
  gs_lastStrike :: instant
  gs_nextProbeAt :: instant
  gs_inconclusive :: int
  gs_cancelled :: bool

definition new_streak :: goneStreak where
  "new_streak = \<lparr>gs_n = 0, gs_lastStrike = 0, gs_nextProbeAt = 0, gs_inconclusive = 0, gs_cancelled = False\<rparr>"

definition strike :: "instant \<Rightarrow> goneStreak \<Rightarrow> int \<times> goneStreak" where
  "strike now s =
     (let n = (if gs_lastStrike s \<noteq> 0 \<and> time_sub now (gs_lastStrike s) > goneStrikeWindow then 1 else gs_n s + 1)
      in (n, s\<lparr>gs_n := n, gs_lastStrike := now\<rparr>))"

definition claimProbe :: "instant \<Rightarrow> goneStreak \<Rightarrow> bool \<times> goneStreak" where
  "claimProbe now s =
     (if gs_n s < goneStrikeThreshold then (False, s)
      else if gs_nextProbeAt s \<noteq> 0 \<and> now < gs_nextProbeAt s then (False, s)
      else (True, s\<lparr>gs_nextProbeAt := time_add now goneProbeCooldown, gs_cancelled := False\<rparr>))"

definition canClaimProbe :: "instant \<Rightarrow> goneStreak \<Rightarrow> bool \<times> string" where
  "canClaimProbe now s =
     (if gs_n s < goneStrikeThreshold then (False, ''the strikes were cleared while this refusal was being recorded'')
      else if gs_nextProbeAt s \<noteq> 0 \<and> now < gs_nextProbeAt s then (False, ''the model is inside its probe cooldown'')
      else (True, ''''))"

definition clearLocked :: "goneStreak \<Rightarrow> goneStreak" where
  "clearLocked s = s\<lparr>gs_n := 0, gs_lastStrike := 0, gs_inconclusive := 0\<rparr>"

definition park :: "goneStreak \<Rightarrow> goneStreak" where "park s = clearLocked s"

definition supersede :: "goneStreak \<Rightarrow> bool \<times> goneStreak" where
  "supersede s = (if gs_n s = 0 \<and> gs_cancelled s then (False, s) else (True, clearLocked (s\<lparr>gs_cancelled := True\<rparr>)))"

definition noteInconclusiveProbe :: "goneStreak \<Rightarrow> int \<times> goneStreak" where
  "noteInconclusiveProbe s = (gs_inconclusive s + 1, s\<lparr>gs_inconclusive := gs_inconclusive s + 1\<rparr>)"

subsection \<open>Which refusals count\<close>

definition probeChatEndpoint :: string where "probeChatEndpoint = ''/chat/completions''"
definition probeEmbeddingsEndpoint :: string where "probeEmbeddingsEndpoint = ''/embeddings''"

definition probeEndpointForFamily :: "string \<Rightarrow> string option" where
  "probeEndpointForFamily endpointType =
     (if endpointType \<in> {''chat'', ''messages'', ''responses''} then Some probeChatEndpoint
      else if endpointType = ''embeddings'' then Some probeEmbeddingsEndpoint
      else None)"

text \<open>A modality column: blank or an empty list, a list of strings, or anything else.\<close>

datatype modalities = ModNone | ModList "string list" | ModOther

definition declaredModalities :: "modalities \<Rightarrow> string list" where
  "declaredModalities raw = (case raw of ModNone \<Rightarrow> [] | ModList xs \<Rightarrow> xs | ModOther \<Rightarrow> [])"

definition admitsChatModalities :: "string list \<Rightarrow> bool" where
  "admitsChatModalities xs \<longleftrightarrow> xs = [] \<or> ''text'' \<in> set xs \<or> ''code'' \<in> set xs"

text \<open>The candidate of a refusal: the parts of the model and provider the retirement reads.\<close>

record goneCandidate =
  gc_modelUUID :: uuid
  gc_modelID :: string
  gc_inputModalities :: modalities
  gc_outputModalities :: modalities
  gc_providerID :: uuid
  gc_providerName :: string

definition modalityRulesOutSurface :: "goneCandidate \<Rightarrow> string \<Rightarrow> bool" where
  "modalityRulesOutSurface m probeEndpoint =
     (let out = declaredModalities (gc_outputModalities m)
      in if probeEndpoint = probeEmbeddingsEndpoint then ''embedding'' \<notin> set out
         else \<not> admitsChatModalities out \<or> \<not> admitsChatModalities (declaredModalities (gc_inputModalities m)))"

definition modalityAdmitsBothProbeSurfaces :: "goneCandidate \<Rightarrow> bool" where
  "modalityAdmitsBothProbeSurfaces m \<longleftrightarrow>
     \<not> modalityRulesOutSurface m probeChatEndpoint \<and> \<not> modalityRulesOutSurface m probeEmbeddingsEndpoint"

text \<open>The three gates before the strike: the surface the strike counts on, if it counts. The nil
  UUID is the empty one.\<close>

definition gone_gates :: "goneCandidate option \<Rightarrow> string \<Rightarrow> (goneCandidate \<times> string) option" where
  "gone_gates candidate endpointType =
     (case candidate of
        None \<Rightarrow> None
      | Some m \<Rightarrow>
          if gc_modelUUID m = [] then None
          else (case probeEndpointForFamily endpointType of
                  None \<Rightarrow> None
                | Some e \<Rightarrow>
                    if modalityRulesOutSurface m e then None
                    else if modalityAdmitsBothProbeSurfaces m then None
                    else Some (m, e)))"

subsection \<open>The probe\<close>

datatype probeVerdict = probeInconclusive | probeRefused | probeServed

record probeRun =
  pb_circuit :: State
  pb_built :: bool
  pb_transport :: bool
  pb_reached :: bool
  pb_status :: int
  pb_readOk :: bool
  pb_length :: int
  pb_kind :: "ErrorKind option"
  pb_translated :: bool
  pb_delivered :: bool

definition judgeProbeFailure :: "probeRun \<Rightarrow> probeVerdict" where
  "judgeProbeFailure p =
     (if \<not> pb_readOk p then probeInconclusive
      else if pb_length p > goneProbeMaxBody then probeInconclusive
      else if pb_kind p = Some KindProviderModelGone then probeRefused else probeInconclusive)"

definition judgeProbeSuccess :: "probeRun \<Rightarrow> probeVerdict" where
  "judgeProbeSuccess p =
     (if \<not> pb_translated p then probeInconclusive
      else if pb_delivered p then probeServed else probeInconclusive)"

definition probeModel :: "string \<Rightarrow> probeRun \<Rightarrow> probeVerdict" where
  "probeModel endpointType p =
     (if probeEndpointForFamily endpointType = None then probeInconclusive
      else if pb_circuit p = StateOpen then probeInconclusive
      else if \<not> pb_built p then probeInconclusive
      else if \<not> pb_transport p then probeInconclusive
      else if \<not> pb_reached p then probeInconclusive
      else if \<not> servedSuccessStatus (pb_status p) then judgeProbeFailure p
      else judgeProbeSuccess p)"

subsection \<open>Streams\<close>

datatype streamVerdict = verdictInconclusive | verdictGone | verdictServed

definition verdictForStream :: "ErrorKind option \<Rightarrow> ErrorKind option \<Rightarrow> bool \<Rightarrow> streamVerdict" where
  "verdictForStream kind upstreamKind producedOutput =
     (if upstreamKind = Some KindProviderModelGone \<or> kind = Some KindProviderModelGone then verdictGone
      else if kind = None \<and> producedOutput then verdictServed
      else verdictInconclusive)"

definition producedOutput :: "bool \<Rightarrow> int \<Rightarrow> int \<Rightarrow> bool" where
  "producedOutput deliveredContent tokensCompletion ttftMs \<longleftrightarrow> deliveredContent \<or> tokensCompletion > 0 \<or> ttftMs > 0"

subsection \<open>Tasks\<close>

text \<open>
  Where a refusal, and the goroutine it started, stands: before the read of the cooldown, of the
  breaker, the slot, the claim; then before the first read of the tombstone, the probe, what its verdict
  does to the streak, the staged write, its confirmation, the commit, the second read of the tombstone, the count, the undo, and the
  announcement (with or without the alert).
\<close>

datatype gonePc = AtCheck | AtBreaker | AtSlot | AtClaim | AtStart | AtProbe | AtVerdict probeVerdict | AtStage
  | AtConfirm instant | AtCommit instant | AtLate | AtCount | AtRevert | AtAnnounce bool | AtEnd

record goneTask =
  gt_cand :: goneCandidate
  gt_family :: string
  gt_key :: goneStreakKey
  gt_now :: instant
  gt_strikes :: int
  gt_slot :: bool
  gt_pc :: gonePc

datatype happening =
    Struck goneStreakKey instant
  | Answered goneStreakKey
  | Parked goneStreakKey
  | Claimed nat goneStreakKey instant
  | Probed nat probeVerdict
  | Confirmed nat
  | Retired nat uuid
  | Reverted nat uuid
  | Alerted nat uuid int

record goneSys =
  gy_streaks :: "(goneStreakKey \<times> goneStreak) list"
  gy_slots :: "(uuid \<times> nat) list"
  gy_tasks :: "goneTask list"
  gy_store :: fleet_store
  gy_log :: "happening list"

text \<open>What a step may read from outside: the breaker's state of the model and the probe's course.\<close>

record goneMoment =
  go_circuit :: State
  go_probe :: probeRun

definition streak_of :: "goneSys \<Rightarrow> goneStreakKey \<Rightarrow> goneStreak" where
  "streak_of s k = (case gm_get (gy_streaks s) k of Some x \<Rightarrow> x | None \<Rightarrow> new_streak)"

definition slots_of :: "goneSys \<Rightarrow> uuid \<Rightarrow> nat" where
  "slots_of s p = (case gm_get (gy_slots s) p of Some n \<Rightarrow> n | None \<Rightarrow> 0)"

definition put_streak :: "goneStreakKey \<Rightarrow> goneStreak \<Rightarrow> goneSys \<Rightarrow> goneSys" where
  "put_streak k x s = s\<lparr>gy_streaks := gm_put k x (gy_streaks s)\<rparr>"

definition report :: "happening \<Rightarrow> goneSys \<Rightarrow> goneSys" where
  "report h s = s\<lparr>gy_log := h # gy_log s\<rparr>"

text \<open>The non-blocking send on the provider's buffered channel, and the receive that gives it back.\<close>

definition acquireProbeSlot :: "uuid \<Rightarrow> goneSys \<Rightarrow> bool \<times> goneSys" where
  "acquireProbeSlot p s =
     (if slots_of s p < goneProbeMaxConcurrent
      then (True, s\<lparr>gy_slots := gm_put p (slots_of s p + 1) (gy_slots s)\<rparr>) else (False, s))"

text \<open>\<open>sync.OnceFunc\<close>: only the first call of a task's release takes its slot back.\<close>

definition release_slot :: "goneTask \<Rightarrow> goneSys \<Rightarrow> goneTask \<times> goneSys" where
  "release_slot t s =
     (if gt_slot t
      then (t\<lparr>gt_slot := False\<rparr>, s\<lparr>gy_slots := gm_put (gc_providerID (gt_cand t)) (slots_of s (gc_providerID (gt_cand t)) - 1) (gy_slots s)\<rparr>)
      else (t, s))"

text \<open>The end of a task: the deferred release.\<close>

definition finish :: "goneTask \<Rightarrow> goneSys \<Rightarrow> goneTask \<times> goneSys" where
  "finish t s = (case release_slot t s of (t, s) \<Rightarrow> (t\<lparr>gt_pc := AtEnd\<rparr>, s))"

definition goto :: "gonePc \<Rightarrow> goneTask \<Rightarrow> goneSys \<Rightarrow> goneTask \<times> goneSys" where
  "goto pc t s = (t\<lparr>gt_pc := pc\<rparr>, s)"

definition with_store :: "(model_store \<Rightarrow> 'a \<times> model_store) \<Rightarrow> goneSys \<Rightarrow> 'a \<times> goneSys" where
  "with_store f s = (case f (fl_models (gy_store s)) of (x, m) \<Rightarrow> (x, s\<lparr>gy_store := (gy_store s)\<lparr>fl_models := m\<rparr>\<rparr>))"

text \<open>The groups are revalidated on the tables the store shows; an error of it is only logged.\<close>

definition revalidate_groups :: "goneSys \<Rightarrow> goneSys" where
  "revalidate_groups s = snd (with_store (\<lambda>m.
     ((), m\<lparr>ms_store := (ms_store m)\<lparr>sr_world := snd (RevalidateCustomGroups (sr_world (ms_store m)))\<rparr>\<rparr>)) s)"

definition announceRetirement :: "nat \<Rightarrow> goneTask \<Rightarrow> bool \<Rightarrow> goneSys \<Rightarrow> goneSys" where
  "announceRetirement i t publish s =
     (let s = revalidate_groups s
      in if publish then report (Alerted i (gc_modelUUID (gt_cand t)) (gt_strikes t)) s else s)"

definition task_step :: "nat \<Rightarrow> goneMoment \<Rightarrow> goneTask \<Rightarrow> goneSys \<Rightarrow> goneTask \<times> goneSys" where
  "task_step i mom t s =
     (let k = gt_key t; x = streak_of s k; u = gc_modelUUID (gt_cand t)
      in case gt_pc t of
        AtCheck \<Rightarrow> if \<not> fst (canClaimProbe (gt_now t) x) then finish t s else goto AtBreaker t s
      | AtBreaker \<Rightarrow> if go_circuit mom = StateOpen then finish t s else goto AtSlot t s
      | AtSlot \<Rightarrow>
          (case acquireProbeSlot (gc_providerID (gt_cand t)) s of
             (False, s) \<Rightarrow> finish t s
           | (True, s) \<Rightarrow> goto AtClaim (t\<lparr>gt_slot := True\<rparr>) s)
      | AtClaim \<Rightarrow>
          (case claimProbe (gt_now t) x of
             (False, _) \<Rightarrow> finish t s
           | (True, x) \<Rightarrow> goto AtStart t (report (Claimed i k (gt_now t)) (put_streak k x s)))
      | AtStart \<Rightarrow> if gs_cancelled x then finish t s else goto AtProbe t s
      | AtProbe \<Rightarrow>
          (let verdict = probeModel (gt_family t) (go_probe mom)
           in case release_slot t s of (t, s) \<Rightarrow> goto (AtVerdict verdict) t (report (Probed i verdict) s))
      | AtVerdict verdict \<Rightarrow>
          (case verdict of
             probeServed \<Rightarrow> finish t (report (Parked k) (put_streak k (park x) s))
           | probeInconclusive \<Rightarrow> finish t (put_streak k (snd (noteInconclusiveProbe x)) s)
           | probeRefused \<Rightarrow> goto AtStage t s)
      | AtStage \<Rightarrow>
          (case with_store (autoRetireStage u) s of
             (Inr (Some stamp), s) \<Rightarrow> goto (AtConfirm stamp) t s
           | (_, s) \<Rightarrow> finish t s)
      | AtConfirm stamp \<Rightarrow> if gs_cancelled x then finish t s else goto (AtCommit stamp) t (report (Confirmed i) s)
      | AtCommit stamp \<Rightarrow>
          (case with_store (autoRetireCommit u stamp) s of
             (Inl e, s) \<Rightarrow> finish t s
           | (Inr _, s) \<Rightarrow> goto AtLate t (report (Retired i u) s))
      | AtLate \<Rightarrow> if gs_cancelled x then goto AtCount t s else goto (AtAnnounce True) t s
      | AtCount \<Rightarrow> if gs_n x \<ge> goneStrikeThreshold then goto (AtAnnounce True) t s else goto AtRevert t s
      | AtRevert \<Rightarrow>
          (case with_store (RevertAutoRetire u) s of
             (Inl e, s) \<Rightarrow> goto (AtAnnounce True) t s
           | (Inr False, s) \<Rightarrow> goto (AtAnnounce False) t s
           | (Inr True, s) \<Rightarrow> finish t (report (Reverted i u) s))
      | AtAnnounce publish \<Rightarrow> finish t (announceRetirement i t publish s)
      | AtEnd \<Rightarrow> (t, s))"

definition put_task :: "nat \<Rightarrow> goneTask \<times> goneSys \<Rightarrow> goneSys" where
  "put_task i ts = (snd ts)\<lparr>gy_tasks := (gy_tasks (snd ts))[i := fst ts]\<rparr>"

definition advance :: "nat \<Rightarrow> goneMoment \<Rightarrow> goneSys \<Rightarrow> goneSys" where
  "advance i mom s = (if i < length (gy_tasks s) then put_task i (task_step i mom (gy_tasks s ! i) s) else s)"

text \<open>A refusal that passes the gates is a strike; at the threshold it becomes a task.\<close>

definition noteModelGone :: "goneCandidate option \<Rightarrow> string \<Rightarrow> instant \<Rightarrow> goneSys \<Rightarrow> goneSys" where
  "noteModelGone candidate endpointType now s =
     (case gone_gates candidate endpointType of
        None \<Rightarrow> s
      | Some (m, e) \<Rightarrow>
          (let k = (gc_modelUUID m, e)
           in case strike now (streak_of s k) of
                (strikes, x) \<Rightarrow>
                  (let s = report (Struck k now) (put_streak k x s)
                   in if strikes < goneStrikeThreshold then s
                      else s\<lparr>gy_tasks := gy_tasks s @ [\<lparr>gt_cand = m, gt_family = endpointType, gt_key = k, gt_now = now,
                             gt_strikes = strikes, gt_slot = False, gt_pc = AtCheck\<rparr>]\<rparr>)))"

definition noteModelServed :: "uuid option \<Rightarrow> string \<Rightarrow> goneSys \<Rightarrow> goneSys" where
  "noteModelServed m endpointType s =
     (case m of
        None \<Rightarrow> s
      | Some u \<Rightarrow>
          if u = [] then s
          else (case probeEndpointForFamily endpointType of
                  None \<Rightarrow> s
                | Some e \<Rightarrow>
                    (case gm_get (gy_streaks s) (u, e) of
                       None \<Rightarrow> s
                     | Some x \<Rightarrow> report (Answered (u, e)) (put_streak (u, e) (snd (supersede x)) s))))"

definition noteStreamOutcome ::
    "ErrorKind option \<Rightarrow> ErrorKind option \<Rightarrow> bool \<Rightarrow> goneCandidate \<Rightarrow> string \<Rightarrow> instant \<Rightarrow> goneSys \<Rightarrow> goneSys" where
  "noteStreamOutcome kind upstreamKind produced candidate endpointType now s =
     (case verdictForStream kind upstreamKind produced of
        verdictGone \<Rightarrow> noteModelGone (Some candidate) endpointType now s
      | verdictServed \<Rightarrow> noteModelServed (Some (gc_modelUUID candidate)) endpointType s
      | verdictInconclusive \<Rightarrow> s)"

subsection \<open>Interleavings\<close>

text \<open>A task holds the lock of its row from the staged write to its end; a statement that needs the
  row waits.\<close>

definition holds_row :: "goneTask \<Rightarrow> bool" where
  "holds_row t \<longleftrightarrow> (case gt_pc t of AtConfirm _ \<Rightarrow> True | AtCommit _ \<Rightarrow> True | _ \<Rightarrow> False)"

definition locked :: "goneSys \<Rightarrow> uuid set" where
  "locked s = (\<lambda>t. gc_modelUUID (gt_cand t)) ` {t \<in> set (gy_tasks s). holds_row t}"

definition needs_row :: "goneTask \<Rightarrow> bool" where
  "needs_row t \<longleftrightarrow> gt_pc t \<in> {AtStage, AtRevert}"

definition waits :: "nat \<Rightarrow> goneSys \<Rightarrow> bool" where
  "waits i s \<longleftrightarrow> needs_row (gy_tasks s ! i) \<and> gc_modelUUID (gt_cand (gy_tasks s ! i)) \<in> locked s"

definition respects_locks :: "goneSys \<Rightarrow> fleet_store \<Rightarrow> bool" where
  "respects_locks s st \<longleftrightarrow> (\<forall>u\<in>locked s. filter (\<lambda>r. mr_id r = u) (fl_entries st) = filter (\<lambda>r. mr_id r = u) (fl_entries (gy_store s)))"

inductive gone_step :: "goneSys \<Rightarrow> goneSys \<Rightarrow> bool" where
  refused: "0 < now \<Longrightarrow> gone_step s (noteModelGone candidate endpointType now s)"
| served: "gone_step s (noteModelServed m endpointType s)"
| advances: "i < length (gy_tasks s) \<Longrightarrow> \<not> waits i s \<Longrightarrow> gone_step s (advance i mom s)"
| panics: "i < length (gy_tasks s) \<Longrightarrow> gt_pc (gy_tasks s ! i) = AtProbe \<Longrightarrow> gone_step s (put_task i (finish (gy_tasks s ! i) s))"
| writes: "op_wf op \<Longrightarrow> respects_locks s (run_op op (gy_store s)) \<Longrightarrow> gone_step s (s\<lparr>gy_store := run_op op (gy_store s)\<rparr>)"

definition gone_start :: "fleet_store \<Rightarrow> goneSys" where
  "gone_start st = \<lparr>gy_streaks = [], gy_slots = [], gy_tasks = [], gy_store = st, gy_log = []\<rparr>"

inductive gone_reachable :: "goneSys \<Rightarrow> bool" where
  start: "table_wf (fl_entries st) \<Longrightarrow> gone_reachable (gone_start st)"
| step: "gone_reachable s \<Longrightarrow> gone_step s s' \<Longrightarrow> gone_reachable s'"

end
