(* ===== verification/Model_Gone_Facts.thy ===== *)
theory Model_Gone_Facts
  imports Model_Gone
begin

text \<open>
  The invariants of the retirement: what a streak knows of the log, whose slots are taken, what a task
  can say it has seen, and that a staged row stays as it was checked.
\<close>

subsection \<open>What the log says of a streak\<close>

text \<open>The strikes of a surface since it last answered, newest first.\<close>

fun recent :: "goneStreakKey \<Rightarrow> happening list \<Rightarrow> instant list" where
  "recent k [] = []"
| "recent k (Struck k' t # hs) = (if k' = k then t # recent k hs else recent k hs)"
| "recent k (Answered k' # hs) = (if k' = k then [] else recent k hs)"
| "recent k (Parked k' # hs) = (if k' = k then [] else recent k hs)"
| "recent k (_ # hs) = recent k hs"

text \<open>The length of the newest run whose consecutive strikes are at most a window apart.\<close>

fun run_length :: "instant list \<Rightarrow> int" where
  "run_length [] = 0"
| "run_length [t] = 1"
| "run_length (t # u # ts) = (if t - u > goneStrikeWindow then 1 else run_length (u # ts) + 1)"

text \<open>The stamps of the probes claimed for a surface, newest first.\<close>

fun claims :: "goneStreakKey \<Rightarrow> happening list \<Rightarrow> instant list" where
  "claims k [] = []"
| "claims k (Claimed i k' t # hs) = (if k' = k then t # claims k hs else claims k hs)"
| "claims k (_ # hs) = claims k hs"

fun spaced :: "instant list \<Rightarrow> bool" where
  "spaced (t # u # ts) = (u + goneProbeCooldown \<le> t \<and> spaced (u # ts))"
| "spaced _ = True"

definition newest :: "instant list \<Rightarrow> instant" where
  "newest ts = (case ts of [] \<Rightarrow> 0 | t # _ \<Rightarrow> t)"

definition due :: "instant list \<Rightarrow> instant" where
  "due ts = (case ts of [] \<Rightarrow> 0 | t # _ \<Rightarrow> t + goneProbeCooldown)"

definition streak_inv :: "goneStreakKey \<Rightarrow> goneStreak \<Rightarrow> happening list \<Rightarrow> bool" where
  "streak_inv k x hs \<longleftrightarrow> gs_n x = run_length (recent k hs) \<and> gs_lastStrike x = newest (recent k hs)
     \<and> gs_nextProbeAt x = due (claims k hs) \<and> spaced (claims k hs)
     \<and> (\<forall>t\<in>set (recent k hs) \<union> set (claims k hs). 0 < t)"

lemma window_gap: "time_sub t u > goneStrikeWindow \<longleftrightarrow> t - u > goneStrikeWindow"
  by (auto simp: time_sub_def goneStrikeWindow_def minute_def maxDuration_def minDuration_def)

lemma streak_inv_new: "streak_inv k new_streak []"
  by (simp add: streak_inv_def new_streak_def newest_def due_def)

lemma streak_inv_strike:
  assumes "streak_inv k x hs" "0 < now"
  shows "streak_inv k (snd (strike now x)) (Struck k now # hs)"
  using assms by (cases "recent k hs") (auto simp: streak_inv_def strike_def Let_def window_gap newest_def)

lemma strike_count: "fst (strike now x) = gs_n (snd (strike now x))"
  by (simp add: strike_def Let_def)

lemma streak_inv_claim:
  assumes "streak_inv k x hs" "0 < now" "claimProbe now x = (True, x')"
  shows "streak_inv k x' (Claimed i k now # hs)" "gs_n x' = gs_n x" "3 \<le> gs_n x"
  using assms
  by (cases "claims k hs"; auto simp: streak_inv_def claimProbe_def time_add_def due_def goneStrikeThreshold_def
      goneProbeCooldown_def minute_def split: if_splits)+

lemma streak_inv_clear:
  assumes "streak_inv k x hs"
  shows "streak_inv k (snd (supersede x)) (Answered k # hs)" "streak_inv k (park x) (Parked k # hs)"
proof -
  have *: "streak_inv k (clearLocked (x\<lparr>gs_cancelled := b\<rparr>)) (Answered k # hs)" "streak_inv k (clearLocked x) (Parked k # hs)" for b
    using assms by (simp_all add: streak_inv_def clearLocked_def newest_def)
  show "streak_inv k (park x) (Parked k # hs)" using *(2) by (simp add: park_def)
  have "recent k hs = []" if "run_length (recent k hs) = 0"
  proof (cases "recent k hs" rule: run_length.cases)
    case (3 t u ts)
    have "0 \<le> run_length vs" for vs by (induction vs rule: run_length.induct) auto
    then have "0 < run_length (t # u # ts)" by (simp add: add_strict_increasing2 le_imp_0_less order_le_less_trans)
    with that 3 show ?thesis by simp
  qed (use that in auto)
  then show "streak_inv k (snd (supersede x)) (Answered k # hs)"
    using *(1) assms by (auto simp: supersede_def streak_inv_def newest_def)
qed

lemma streak_inv_inconclusive: "streak_inv k x hs \<Longrightarrow> streak_inv k (snd (noteInconclusiveProbe x)) hs"
  by (simp add: streak_inv_def noteInconclusiveProbe_def)

text \<open>A line of the log that does not name the surface says nothing about it.\<close>

fun concerns :: "goneStreakKey \<Rightarrow> happening \<Rightarrow> bool" where
  "concerns k (Struck k' t) = (k' = k)"
| "concerns k (Answered k') = (k' = k)"
| "concerns k (Parked k') = (k' = k)"
| "concerns k (Claimed i k' t) = (k' = k)"
| "concerns k _ = False"

lemma streak_inv_other: "\<not> concerns k h \<Longrightarrow> streak_inv k x (h # hs) = streak_inv k x hs"
  by (cases h) (auto simp: streak_inv_def)

subsection \<open>Frames\<close>

lemma streak_of_put [simp]: "streak_of (put_streak k x s) k' = (if k' = k then x else streak_of s k')"
  by (simp add: streak_of_def put_streak_def)

lemma put_streak_frame [simp]:
  "gy_slots (put_streak k x s) = gy_slots s" "gy_tasks (put_streak k x s) = gy_tasks s"
  "gy_store (put_streak k x s) = gy_store s" "gy_log (put_streak k x s) = gy_log s"
  by (simp_all add: put_streak_def)

lemma report_frame [simp]:
  "gy_streaks (report h s) = gy_streaks s" "gy_slots (report h s) = gy_slots s" "gy_tasks (report h s) = gy_tasks s"
  "gy_store (report h s) = gy_store s" "gy_log (report h s) = h # gy_log s" "streak_of (report h s) = streak_of s"
  by (simp_all add: report_def streak_of_def fun_eq_iff)

lemma with_store_frame:
  assumes "with_store f s = (x, s')"
  shows "gy_streaks s' = gy_streaks s" "gy_slots s' = gy_slots s" "gy_tasks s' = gy_tasks s" "gy_log s' = gy_log s"
    "streak_of s' = streak_of s"
  using assms by (auto simp: with_store_def streak_of_def fun_eq_iff split: prod.splits)

lemma revalidate_frame [simp]:
  "gy_streaks (revalidate_groups s) = gy_streaks s" "gy_slots (revalidate_groups s) = gy_slots s"
  "gy_tasks (revalidate_groups s) = gy_tasks s" "gy_log (revalidate_groups s) = gy_log s"
  "streak_of (revalidate_groups s) = streak_of s" "fl_entries (gy_store (revalidate_groups s)) = fl_entries (gy_store s)"
  by (auto simp: revalidate_groups_def with_store_def streak_of_def fun_eq_iff)

lemma release_frame [simp]:
  "gy_streaks (snd (release_slot t s)) = gy_streaks s" "gy_tasks (snd (release_slot t s)) = gy_tasks s"
  "gy_log (snd (release_slot t s)) = gy_log s" "gy_store (snd (release_slot t s)) = gy_store s"
  "streak_of (snd (release_slot t s)) = streak_of s"
  "gt_key (fst (release_slot t s)) = gt_key t" "gt_now (fst (release_slot t s)) = gt_now t"
  "gt_cand (fst (release_slot t s)) = gt_cand t" "\<not> gt_slot (fst (release_slot t s))"
  by (simp_all add: release_slot_def streak_of_def fun_eq_iff)

lemma finish_frame [simp]:
  "gy_streaks (snd (finish t s)) = gy_streaks s" "gy_tasks (snd (finish t s)) = gy_tasks s"
  "gy_log (snd (finish t s)) = gy_log s" "gy_store (snd (finish t s)) = gy_store s"
  "streak_of (snd (finish t s)) = streak_of s"
  "gt_key (fst (finish t s)) = gt_key t" "gt_now (fst (finish t s)) = gt_now t" "gt_cand (fst (finish t s)) = gt_cand t"
  "gt_pc (fst (finish t s)) = AtEnd" "\<not> gt_slot (fst (finish t s))"
  by (simp_all add: finish_def case_prod_beta)

lemma goto_frame [simp]:
  "snd (goto pc t s) = s" "gt_key (fst (goto pc t s)) = gt_key t" "gt_now (fst (goto pc t s)) = gt_now t"
  "gt_cand (fst (goto pc t s)) = gt_cand t" "gt_pc (fst (goto pc t s)) = pc" "gt_slot (fst (goto pc t s)) = gt_slot t"
  by (simp_all add: goto_def)

lemma acquire_frame:
  assumes "acquireProbeSlot p s = (b, s')"
  shows "gy_streaks s' = gy_streaks s" "gy_tasks s' = gy_tasks s" "gy_log s' = gy_log s" "gy_store s' = gy_store s"
    "streak_of s' = streak_of s"
  using assms by (auto simp: acquireProbeSlot_def streak_of_def fun_eq_iff split: if_splits)

subsection \<open>One step of a task\<close>

text \<open>What a step does to the log and the streaks: nothing that counts, a claim, a park, or a line
  about the task itself.\<close>

lemma finish_eq:
  assumes "finish t s = (t', s')"
  shows "gy_streaks s' = gy_streaks s" "gy_tasks s' = gy_tasks s" "gy_log s' = gy_log s" "gy_store s' = gy_store s"
    "streak_of s' = streak_of s" "gt_pc t' = AtEnd" "\<not> gt_slot t'" "gt_key t' = gt_key t" "gt_now t' = gt_now t" "gt_cand t' = gt_cand t"
  using finish_frame [of t s] unfolding assms by simp_all

lemma goto_eq: "goto pc t s = (t', s') \<longleftrightarrow> t' = t\<lparr>gt_pc := pc\<rparr> \<and> s' = s"
  by (auto simp: goto_def)

lemma task_step_cases:
  fixes t :: goneTask
  defines "k \<equiv> gt_key t"
  assumes "task_step i mom t s = (t', s')"
  obtains (silent) "gy_log s' = gy_log s" "streak_of s' = streak_of s"
  | (postponed) "gt_pc t = AtVerdict probeInconclusive" "gt_pc t' = AtEnd" "gy_log s' = gy_log s"
      "streak_of s' = (streak_of s)(k := snd (noteInconclusiveProbe (streak_of s k)))"
  | (claim) x where "gt_pc t = AtClaim" "gt_pc t' = AtStart" "claimProbe (gt_now t) (streak_of s k) = (True, x)"
      "gy_log s' = Claimed i k (gt_now t) # gy_log s" "streak_of s' = (streak_of s)(k := x)"
  | (parked) "gt_pc t = AtVerdict probeServed" "gt_pc t' = AtEnd" "gy_log s' = Parked k # gy_log s"
      "streak_of s' = (streak_of s)(k := park (streak_of s k))"
  | (own) h where "gy_log s' = h # gy_log s" "streak_of s' = streak_of s" "\<And>k. \<not> concerns k h"
proof (cases "gt_pc t")
  case AtSlot
  obtain b s1 where a: "acquireProbeSlot (gc_providerID (gt_cand t)) s = (b, s1)" by fastforce
  have "gy_log s' = gy_log s1" "streak_of s' = streak_of s1"
    using assms(2) AtSlot a by (auto simp: task_step_def goto_eq dest: finish_eq split: bool.splits)
  with acquire_frame [OF a] show thesis by (intro silent) simp_all
next
  case AtStage
  obtain r s1 where a: "with_store (autoRetireStage (gc_modelUUID (gt_cand t))) s = (r, s1)" by fastforce
  have "gy_log s' = gy_log s1" "streak_of s' = streak_of s1"
    using assms(2) AtStage a by (auto simp: task_step_def goto_eq dest: finish_eq split: sum.splits option.splits)
  with with_store_frame [OF a] show thesis by (intro silent) simp_all
next
  case (AtCommit stamp)
  obtain r s1 where a: "with_store (autoRetireCommit (gc_modelUUID (gt_cand t)) stamp) s = (r, s1)" by fastforce
  show thesis
  proof (cases r)
    case (Inl e)
    then have "gy_log s' = gy_log s1" "streak_of s' = streak_of s1"
      using assms(2) AtCommit a by (auto simp: task_step_def dest: finish_eq)
    with with_store_frame [OF a] show thesis by (intro silent) simp_all
  next
    case (Inr b)
    then have "gy_log s' = Retired i (gc_modelUUID (gt_cand t)) # gy_log s1" "streak_of s' = streak_of s1"
      using assms(2) AtCommit a by (auto simp: task_step_def goto_eq)
    with with_store_frame [OF a] show thesis by (intro own [of "Retired i (gc_modelUUID (gt_cand t))"]) simp_all
  qed
next
  case AtRevert
  obtain r s1 where a: "with_store (RevertAutoRetire (gc_modelUUID (gt_cand t))) s = (r, s1)" by fastforce
  show thesis
  proof (cases "r = Inr True")
    case True
    then have "gy_log s' = Reverted i (gc_modelUUID (gt_cand t)) # gy_log s1" "streak_of s' = streak_of s1"
      using assms(2) AtRevert a by (auto simp: task_step_def dest: finish_eq)
    with with_store_frame [OF a] show thesis by (intro own [of "Reverted i (gc_modelUUID (gt_cand t))"]) simp_all
  next
    case False
    then have "gy_log s' = gy_log s1" "streak_of s' = streak_of s1"
      using assms(2) AtRevert a by (auto simp: task_step_def goto_eq split: sum.splits bool.splits)
    with with_store_frame [OF a] show thesis by (intro silent) simp_all
  qed
next
  case AtProbe
  then have "gy_log s' = Probed i (probeModel (gt_family t) (go_probe mom)) # gy_log s" "streak_of s' = streak_of s"
    using assms(2) by (auto simp: task_step_def Let_def case_prod_beta goto_eq)
  then show thesis by (rule own) simp
next
  case (AtAnnounce publish)
  then show thesis
  proof (cases publish)
    case True
    then have "gy_log s' = Alerted i (gc_modelUUID (gt_cand t)) (gt_strikes t) # gy_log s" "streak_of s' = streak_of s"
      using assms(2) AtAnnounce by (auto simp: task_step_def announceRetirement_def Let_def dest: finish_eq)
    then show thesis by (rule own) simp
  next
    case False
    then show thesis using assms(2) AtAnnounce
      by (intro silent) (auto simp: task_step_def announceRetirement_def Let_def dest: finish_eq)
  qed
next
  case (AtVerdict verdict)
  then show thesis
  proof (cases verdict)
    case probeServed
    with assms(2) AtVerdict have f: "finish t (report (Parked k) (put_streak k (park (streak_of s k)) s)) = (t', s')"
      by (simp add: task_step_def Let_def k_def)
    show thesis using AtVerdict probeServed finish_eq [OF f] by (intro parked) (simp_all add: fun_eq_iff)
  next
    case probeInconclusive
    with assms(2) AtVerdict have f: "finish t (put_streak k (snd (noteInconclusiveProbe (streak_of s k))) s) = (t', s')"
      by (simp add: task_step_def Let_def k_def)
    show thesis using AtVerdict probeInconclusive finish_eq [OF f] by (intro postponed) (simp_all add: fun_eq_iff)
  next
    case probeRefused
    then show thesis using assms(2) AtVerdict by (intro silent) (auto simp: task_step_def goto_eq)
  qed
next
  case AtClaim
  obtain b x where a: "claimProbe (gt_now t) (streak_of s k) = (b, x)" by fastforce
  show thesis
  proof (cases b)
    case True
    then have "gy_log s' = Claimed i k (gt_now t) # gy_log s" "streak_of s' = (streak_of s)(k := x)" "gt_pc t' = AtStart"
      using assms(2) AtClaim a by (auto simp: task_step_def Let_def k_def goto_eq fun_eq_iff)
    then show thesis using AtClaim a True by (intro claim) simp_all
  next
    case False
    then show thesis using assms(2) AtClaim a
      by (intro silent) (auto simp: task_step_def Let_def k_def dest: finish_eq)
  qed
next
  case (AtConfirm stamp)
  show thesis
  proof (cases "gs_cancelled (streak_of s k)")
    case False
    then have "gy_log s' = Confirmed i # gy_log s" "streak_of s' = streak_of s"
      using assms(2) AtConfirm by (auto simp: task_step_def Let_def k_def goto_eq)
    then show thesis by (rule own) simp
  qed (use assms(2) AtConfirm in \<open>auto simp: task_step_def Let_def k_def dest: finish_eq intro: silent\<close>)
qed (use assms(2) in \<open>auto simp: task_step_def Let_def goto_eq dest: finish_eq intro: silent split: if_splits\<close>)

end
