(* ===== verification/Gone_History.thy ===== *)
theory Gone_History
  imports Model_Gone_Facts
begin

text \<open>
  The invariants over every interleaving of refusals, answers, tasks, panics and table writes:
  \<open>streaks_ok\<close> (each streak is what the log says of its surface), \<open>task_inv\<close> (what a task's program
  counter says of the log) and \<open>slots_ok\<close> (the provider's slots are those of the tasks that hold one).
\<close>

subsection \<open>The tombstone\<close>

fun tombstoned :: "goneStreakKey \<Rightarrow> happening list \<Rightarrow> bool" where
  "tombstoned k [] = False"
| "tombstoned k (Answered k' # hs) = (k' = k \<or> tombstoned k hs)"
| "tombstoned k (Claimed i k' t # hs) = (k' \<noteq> k \<and> tombstoned k hs)"
| "tombstoned k (_ # hs) = tombstoned k hs"

definition streaks_ok :: "goneSys \<Rightarrow> bool" where
  "streaks_ok s \<longleftrightarrow> (\<forall>k. streak_inv k (streak_of s k) (gy_log s) \<and> gs_cancelled (streak_of s k) = tombstoned k (gy_log s))
     \<and> (\<forall>t\<in>set (gy_tasks s). 0 < gt_now t)"

lemma tombstoned_other: "\<not> concerns k h \<Longrightarrow> tombstoned k (h # hs) = tombstoned k hs"
  by (cases h) auto

lemma cancelled_simps [simp]:
  "gs_cancelled (snd (strike now x)) = gs_cancelled x" "gs_cancelled (park x) = gs_cancelled x"
  "gs_cancelled (snd (noteInconclusiveProbe x)) = gs_cancelled x" "gs_cancelled (snd (supersede x))"
  by (simp_all add: strike_def Let_def park_def clearLocked_def noteInconclusiveProbe_def supersede_def)

lemma claim_clears: "claimProbe now x = (True, x') \<Longrightarrow> \<not> gs_cancelled x'"
  by (auto simp: claimProbe_def split: if_splits)

text \<open>A change of one surface's streak together with the line that reports it.\<close>

lemma streaks_ok_change:
  assumes "streaks_ok s" "streak_of s' = (streak_of s)(k := x)" "gy_log s' = h # gy_log s"
    "\<And>k'. k' \<noteq> k \<Longrightarrow> \<not> concerns k' h"
    "streak_inv k x (h # gy_log s)" "gs_cancelled x = tombstoned k (h # gy_log s)" "\<forall>t\<in>set (gy_tasks s'). 0 < gt_now t"
  shows "streaks_ok s'"
  using assms by (simp add: streaks_ok_def streak_inv_other tombstoned_other del: split_paired_All)

lemma streaks_ok_silent:
  assumes "streaks_ok s" "streak_of s' = streak_of s" "gy_log s' = gy_log s" "\<forall>t\<in>set (gy_tasks s'). 0 < gt_now t"
  shows "streaks_ok s'"
  using assms by (simp add: streaks_ok_def del: split_paired_All)

lemma streaks_ok_D:
  assumes "streaks_ok s"
  shows "streak_inv k (streak_of s k) (gy_log s)" "gs_cancelled (streak_of s k) = tombstoned k (gy_log s)"
  using assms by (simp_all add: streaks_ok_def del: split_paired_All)

lemma streaks_ok_task:
  assumes "streaks_ok s" "task_step i mom t s = (t', s1)" "0 < gt_now t"
    "streak_of s' = streak_of s1" "gy_log s' = gy_log s1" "\<forall>t\<in>set (gy_tasks s'). 0 < gt_now t"
  shows "streaks_ok s'"
proof -
  note s = streaks_ok_D [OF assms(1), of "gt_key t"]
  show ?thesis using assms(2)
  proof (cases rule: task_step_cases)
    case silent
    then show ?thesis using assms(1,4-6) by - (rule streaks_ok_silent [of s], simp_all)
  next
    case postponed
    then show ?thesis using assms(1,4-6) streak_inv_inconclusive [OF s(1)] s(2)
      by (simp add: streaks_ok_def del: split_paired_All)
  next
    case (claim x)
    then show ?thesis using assms(1,3-6) streak_inv_claim(1) [OF s(1) _ claim(3)] claim_clears [OF claim(3)]
      by - (rule streaks_ok_change [of s s' "gt_key t" x "Claimed i (gt_key t) (gt_now t)"], simp_all)
  next
    case parked
    then show ?thesis using assms(1,4-6) streak_inv_clear(2) [OF s(1)] s(2)
      by - (rule streaks_ok_change [of s s' "gt_key t" "park (streak_of s (gt_key t))" "Parked (gt_key t)"], simp_all)
  next
    case (own h)
    then show ?thesis using assms(1,4-6)
      by (simp add: streaks_ok_def streak_inv_other tombstoned_other del: split_paired_All)
  qed
qed

subsection \<open>What a task keeps\<close>

lemma with_store_snd [simp]:
  "gy_streaks (snd (with_store f s)) = gy_streaks s" "gy_slots (snd (with_store f s)) = gy_slots s"
  "gy_tasks (snd (with_store f s)) = gy_tasks s" "gy_log (snd (with_store f s)) = gy_log s"
  by (simp_all add: with_store_def case_prod_beta)

definition same_task :: "goneTask \<Rightarrow> goneTask \<Rightarrow> bool" where
  "same_task t t' \<longleftrightarrow> gt_key t' = gt_key t \<and> gt_now t' = gt_now t \<and> gt_cand t' = gt_cand t \<and> gt_family t' = gt_family t
     \<and> gt_strikes t' = gt_strikes t"

lemma same_task_finish: "same_task t (fst (finish t s))"
  by (simp add: same_task_def finish_def release_slot_def)

lemma same_task_goto: "same_task t (fst (goto pc t s))" "same_task t (fst (goto pc (t\<lparr>gt_slot := b\<rparr>) s))"
  "same_task t (fst (goto pc (fst (release_slot t s1)) s))"
  by (simp_all add: same_task_def goto_def release_slot_def)

lemma same_task_refl [simp]: "same_task t t" by (simp add: same_task_def)

lemmas task_step_unfold = task_step_def Let_def case_prod_beta acquireProbeSlot_def announceRetirement_def

lemma task_step_same:
  "same_task t (fst (task_step i mom t s))" "gy_tasks (snd (task_step i mom t s)) = gy_tasks s"
  by (auto simp: task_step_unfold same_task_finish same_task_goto
      split: gonePc.split probeVerdict.split sum.split option.split bool.split)


lemma advance_eq:
  assumes "i < length (gy_tasks s)" "task_step i mom (gy_tasks s ! i) s = (t', s1)"
  shows "advance i mom s = s1\<lparr>gy_tasks := (gy_tasks s)[i := t']\<rparr>" "same_task (gy_tasks s ! i) t'"
  using assms task_step_same [where i = i and mom = mom and t = "gy_tasks s ! i" and s = s] by (simp_all add: advance_def put_task_def)

lemma streak_of_upd [simp]: "streak_of (s\<lparr>gy_tasks := ts\<rparr>) = streak_of s" "streak_of (s\<lparr>gy_store := st\<rparr>) = streak_of s"
  by (simp_all add: streak_of_def fun_eq_iff)

text \<open>The shapes of a step: a strike with or without a new task, an answer, or nothing that
  concerns streaks and the log; and a step of a task.\<close>

lemma noteModelGone_cases:
  obtains (ignored) "noteModelGone c e now s = s"
  | (struck) k where "streak_of (noteModelGone c e now s) = (streak_of s)(k := snd (strike now (streak_of s k)))"
      "gy_log (noteModelGone c e now s) = Struck k now # gy_log s" "gy_tasks (noteModelGone c e now s) = gy_tasks s"
      "gy_slots (noteModelGone c e now s) = gy_slots s" "gy_store (noteModelGone c e now s) = gy_store s"
  | (nominated) k t where "streak_of (noteModelGone c e now s) = (streak_of s)(k := snd (strike now (streak_of s k)))"
      "gy_log (noteModelGone c e now s) = Struck k now # gy_log s" "gy_tasks (noteModelGone c e now s) = gy_tasks s @ [t]"
      "gy_slots (noteModelGone c e now s) = gy_slots s" "gy_store (noteModelGone c e now s) = gy_store s"
      "gt_pc t = AtCheck" "\<not> gt_slot t" "gt_key t = k" "gt_now t = now" "fst k = gc_modelUUID (gt_cand t)"
proof (cases "gone_gates c e")
  case None
  then show thesis by (intro ignored) (simp add: noteModelGone_def)
next
  case (Some me)
  define k where "k = (gc_modelUUID (fst me), snd me)"
  show thesis
  proof (cases "fst (strike now (streak_of s k)) < goneStrikeThreshold")
    case True
    then show thesis using Some
      by (intro struck [of k]) (auto simp: noteModelGone_def Let_def case_prod_beta k_def fun_eq_iff)
  next
    case False
    then show thesis using Some
      by (intro nominated [of k "\<lparr>gt_cand = fst me, gt_family = e, gt_key = k, gt_now = now,
          gt_strikes = fst (strike now (streak_of s k)), gt_slot = False, gt_pc = AtCheck\<rparr>"])
        (auto simp: noteModelGone_def Let_def case_prod_beta k_def fun_eq_iff)
  qed
qed

lemma noteModelServed_cases:
  obtains (ignored) "noteModelServed m e s = s"
  | (answered) k where "streak_of (noteModelServed m e s) = (streak_of s)(k := snd (supersede (streak_of s k)))"
      "gy_log (noteModelServed m e s) = Answered k # gy_log s" "gy_tasks (noteModelServed m e s) = gy_tasks s"
      "gy_slots (noteModelServed m e s) = gy_slots s" "gy_store (noteModelServed m e s) = gy_store s"
proof (cases "\<exists>u e' x. m = Some u \<and> u \<noteq> [] \<and> probeEndpointForFamily e = Some e' \<and> gm_get (gy_streaks s) (u, e') = Some x")
  case True
  then obtain u e' x where "m = Some u" "u \<noteq> []" "probeEndpointForFamily e = Some e'" "gm_get (gy_streaks s) (u, e') = Some x"
    by blast
  moreover from this have "streak_of s (u, e') = x" by (simp add: streak_of_def)
  ultimately show thesis by (intro answered [of "(u, e')"]) (auto simp: noteModelServed_def fun_eq_iff)
next
  case False
  then show thesis by (intro ignored) (auto simp: noteModelServed_def split: option.splits)
qed

lemma streaks_ok_step: "gone_step s s' \<Longrightarrow> streaks_ok s \<Longrightarrow> streaks_ok s'"
proof (induction rule: gone_step.induct)
  case (refused now s c e)
  have *: "streak_inv k (snd (strike now (streak_of s k))) (Struck k now # gy_log s)" for k
    using streak_inv_strike refused streaks_ok_D(1) by blast
  note tasks = refused(2) [unfolded streaks_ok_def, THEN conjunct2]
  show ?case
  proof (cases rule: noteModelGone_cases [where c = c and e = e and now = now and s = s])
    case ignored
    then show ?thesis using refused(2) by simp
  next
    case (struck k)
    then show ?thesis using refused(2) * [of k] streaks_ok_D(2) [OF refused(2), of k] tasks
      by - (rule streaks_ok_change [of s _ k "snd (strike now (streak_of s k))" "Struck k now"], simp_all)
  next
    case (nominated k t)
    then show ?thesis using refused * [of k] streaks_ok_D(2) [OF refused(2), of k] tasks
      by - (rule streaks_ok_change [of s _ k "snd (strike now (streak_of s k))" "Struck k now"], simp_all)
  qed
next
  case (served s m e)
  note tasks = served [unfolded streaks_ok_def, THEN conjunct2]
  show ?case
  proof (cases rule: noteModelServed_cases [where m = m and e = e and s = s])
    case ignored
    then show ?thesis using served by simp
  next
    case (answered k)
    then show ?thesis using served streak_inv_clear(1) [OF streaks_ok_D(1) [OF served, of k]] tasks
      by - (rule streaks_ok_change [of s _ k "snd (supersede (streak_of s k))" "Answered k"], simp_all)
  qed
next
  case (advances i s mom)
  obtain t' s1 where t: "task_step i mom (gy_tasks s ! i) s = (t', s1)" by fastforce
  note a = advance_eq [OF advances(1) t]
  have tasks: "\<forall>t\<in>set (gy_tasks s). 0 < gt_now t" using advances(3) by (simp add: streaks_ok_def)
  then have "\<forall>t\<in>set ((gy_tasks s)[i := t']). 0 < gt_now t"
    using a(2) advances(1) by (auto simp: same_task_def dest!: set_update_subset_insert [THEN subsetD])
  then show ?case using tasks advances(1)
    by - (rule streaks_ok_task [OF advances(3) t], simp_all add: a(1))
next
  case (panics i s)
  have "\<forall>t\<in>set (gy_tasks s). 0 < gt_now t" using panics(3) by (simp add: streaks_ok_def)
  then show ?case using panics(1)
    by - (rule streaks_ok_silent [OF panics(3)], auto simp: put_task_def dest!: set_update_subset_insert [THEN subsetD])
next
  case (writes op s)
  then show ?case by (simp add: streaks_ok_def)
qed

lemma streaks_ok_reachable: "gone_reachable s \<Longrightarrow> streaks_ok s"
proof (induction rule: gone_reachable.induct)
  case (start st)
  then show ?case
    by (simp add: streaks_ok_def gone_start_def streak_of_def streak_inv_new del: split_paired_All) (simp add: new_streak_def)
qed (rule streaks_ok_step)

end
