(* ===== verification/Gone_Evidence.thy ===== *)
theory Gone_Evidence
  imports Gone_History
begin

text \<open>
  What a task can say it has seen (\<open>pc_inv\<close>), that every retirement of the log was earned
  (\<open>retirements_earned\<close>), and that a provider's slots are exactly those its tasks hold (\<open>slots_ok\<close>).
\<close>

subsection \<open>Evidence\<close>

text \<open>The log holds the task's claim on three strikes in a row; then the probe's verdict; then the
  confirmation, made when no answer stood against the newest claim of the surface.\<close>

definition claimed :: "nat \<Rightarrow> goneStreakKey \<Rightarrow> happening list \<Rightarrow> bool" where
  "claimed i k hs \<longleftrightarrow> (\<exists>later now hs'. hs = later @ Claimed i k now # hs' \<and> goneStrikeThreshold \<le> run_length (recent k hs'))"

definition probed :: "nat \<Rightarrow> goneStreakKey \<Rightarrow> probeVerdict \<Rightarrow> happening list \<Rightarrow> bool" where
  "probed i k v hs \<longleftrightarrow> (\<exists>later hs'. hs = later @ Probed i v # hs' \<and> claimed i k hs')"

definition confirmed :: "nat \<Rightarrow> goneStreakKey \<Rightarrow> happening list \<Rightarrow> bool" where
  "confirmed i k hs \<longleftrightarrow> (\<exists>later hs'. hs = later @ Confirmed i # hs' \<and> probed i k probeRefused hs' \<and> \<not> tombstoned k hs')"

lemma evidence_mono:
  "claimed i k hs \<Longrightarrow> claimed i k (h # hs)" "probed i k v hs \<Longrightarrow> probed i k v (h # hs)" "confirmed i k hs \<Longrightarrow> confirmed i k (h # hs)"
  unfolding claimed_def probed_def confirmed_def by (metis append_Cons)+

definition pc_inv :: "nat \<Rightarrow> goneTask \<Rightarrow> happening list \<Rightarrow> bool" where
  "pc_inv i t hs \<longleftrightarrow> (case gt_pc t of
       AtStart \<Rightarrow> claimed i (gt_key t) hs
     | AtProbe \<Rightarrow> claimed i (gt_key t) hs
     | AtVerdict v \<Rightarrow> probed i (gt_key t) v hs
     | AtStage \<Rightarrow> probed i (gt_key t) probeRefused hs
     | AtConfirm _ \<Rightarrow> probed i (gt_key t) probeRefused hs
     | AtCommit _ \<Rightarrow> confirmed i (gt_key t) hs
     | _ \<Rightarrow> True)"

definition task_key_ok :: "goneTask \<Rightarrow> bool" where
  "task_key_ok t \<longleftrightarrow> fst (gt_key t) = gc_modelUUID (gt_cand t)"

fun retirements_earned :: "happening list \<Rightarrow> bool" where
  "retirements_earned [] = True"
| "retirements_earned (Retired i u # hs) = ((\<exists>e. confirmed i (u, e) hs) \<and> retirements_earned hs)"
| "retirements_earned (_ # hs) = retirements_earned hs"

lemma pc_inv_mono: "pc_inv i t hs \<Longrightarrow> pc_inv i t (h # hs)"
  by (cases "gt_pc t") (simp_all add: pc_inv_def evidence_mono)

lemma pc_inv_grow: "pc_inv i t hs \<Longrightarrow> pc_inv i t (new @ hs)"
  by (induction new) (simp_all add: pc_inv_mono)

lemma new_evidence:
  "goneStrikeThreshold \<le> run_length (recent k hs) \<Longrightarrow> claimed i k (Claimed i k now # hs)"
  "claimed i k hs \<Longrightarrow> probed i k v (Probed i v # hs)"
  "probed i k probeRefused hs \<Longrightarrow> \<not> tombstoned k hs \<Longrightarrow> confirmed i k (Confirmed i # hs)"
  unfolding claimed_def probed_def confirmed_def by (metis append_Nil)+

text \<open>A step of a task keeps its evidence and adds at most one line, earned when it is a retirement.\<close>

definition earned_line :: "happening \<Rightarrow> happening list \<Rightarrow> bool" where
  "earned_line h hs \<longleftrightarrow> (\<forall>i u. h = Retired i u \<longrightarrow> (\<exists>e. confirmed i (u, e) hs))"

lemma retirements_cons: "retirements_earned (h # hs) \<longleftrightarrow> earned_line h hs \<and> retirements_earned hs"
  by (cases h) (auto simp: earned_line_def)

lemma pc_inv_task:
  fixes mom :: goneMoment
  assumes "streaks_ok s" "pc_inv i t (gy_log s)" "task_key_ok t"
  defines "ts \<equiv> task_step i mom t s"
  shows "pc_inv i (fst ts) (gy_log (snd ts))"
    and "gy_log (snd ts) = gy_log s \<or> (\<exists>h. gy_log (snd ts) = h # gy_log s \<and> earned_line h (gy_log s))"
proof -
  note st = streaks_ok_D [OF assms(1), of "gt_key t"]
  note inv = assms(2) [unfolded pc_inv_def]
  have "pc_inv i (fst ts) (gy_log (snd ts)) \<and> (gy_log (snd ts) = gy_log s \<or> (\<exists>h. gy_log (snd ts) = h # gy_log s \<and> earned_line h (gy_log s)))"
  proof (cases "gt_pc t")
    case AtClaim
    show ?thesis
    proof (cases "claimProbe (gt_now t) (streak_of s (gt_key t))")
      case (Pair b x)
      then have "goneStrikeThreshold \<le> run_length (recent (gt_key t) (gy_log s))" if b
        using that st(1) by (auto simp: claimProbe_def streak_inv_def split: if_splits)
      with AtClaim Pair show ?thesis
        by (cases b) (simp_all add: ts_def task_step_unfold pc_inv_def new_evidence earned_line_def)
    qed
  next
    case AtStart
    with inv show ?thesis by (simp add: ts_def task_step_unfold pc_inv_def)
  next
    case AtProbe
    with inv show ?thesis by (simp add: ts_def task_step_unfold pc_inv_def new_evidence earned_line_def)
  next
    case (AtVerdict v)
    with inv show ?thesis by (cases v) (simp_all add: ts_def task_step_unfold pc_inv_def earned_line_def)
  next
    case AtStage
    with inv show ?thesis
      by (simp add: ts_def task_step_unfold pc_inv_def split: sum.split option.split)
  next
    case (AtConfirm stamp)
    with inv st(2) show ?thesis by (simp add: ts_def task_step_unfold pc_inv_def new_evidence earned_line_def)
  next
    case (AtCommit stamp)
    with inv have "confirmed i (gt_key t) (gy_log s)" by simp
    with assms(3) have "\<exists>e. confirmed i (gc_modelUUID (gt_cand t), e) (gy_log s)"
      unfolding task_key_ok_def by (metis prod.collapse)
    with AtCommit show ?thesis by (simp add: ts_def task_step_unfold pc_inv_def earned_line_def split: sum.split)
  next
    case AtRevert
    then show ?thesis by (simp add: ts_def task_step_unfold pc_inv_def earned_line_def split: sum.split bool.split)
  next
    case AtEnd
    then show ?thesis using assms(2) by (simp add: ts_def task_step_unfold)
  qed (simp_all add: ts_def task_step_unfold pc_inv_def earned_line_def)
  then show "pc_inv i (fst ts) (gy_log (snd ts))"
    and "gy_log (snd ts) = gy_log s \<or> (\<exists>h. gy_log (snd ts) = h # gy_log s \<and> earned_line h (gy_log s))" by simp_all
qed

definition history_ok :: "goneSys \<Rightarrow> bool" where
  "history_ok s \<longleftrightarrow> retirements_earned (gy_log s)
     \<and> (\<forall>i<length (gy_tasks s). pc_inv i (gy_tasks s ! i) (gy_log s) \<and> task_key_ok (gy_tasks s ! i))"

lemma history_silent:
  assumes "history_ok s" "gy_log s' = h # gy_log s" "earned_line h (gy_log s)" "gy_tasks s' = gy_tasks s"
  shows "history_ok s'"
  using assms by (simp add: history_ok_def retirements_cons pc_inv_mono)

lemma history_step: "gone_step s s' \<Longrightarrow> streaks_ok s \<Longrightarrow> history_ok s \<Longrightarrow> history_ok s'"
proof (induction rule: gone_step.induct)
  case (refused now s c e)
  show ?case
  proof (cases rule: noteModelGone_cases [where c = c and e = e and now = now and s = s])
    case ignored
    then show ?thesis using refused by simp
  next
    case (struck k)
    then show ?thesis using history_silent [OF refused(3)] by (simp add: earned_line_def)
  next
    case (nominated k t)
    moreover from this have "pc_inv (length (gy_tasks s)) t (Struck k now # gy_log s)" "task_key_ok t"
      by (simp_all add: pc_inv_def task_key_ok_def)
    ultimately show ?thesis using refused(3)
      by (simp add: history_ok_def pc_inv_mono nth_append less_Suc_eq)
  qed
next
  case (served s m e)
  show ?case
  proof (cases rule: noteModelServed_cases [where m = m and e = e and s = s])
    case ignored
    then show ?thesis using served by simp
  next
    case (answered k)
    then show ?thesis using history_silent [OF served(2)] by (simp add: earned_line_def)
  qed
next
  case (advances i s mom)
  obtain t' s1 where t: "task_step i mom (gy_tasks s ! i) s = (t', s1)" by fastforce
  note a = advance_eq [OF advances(1) t]
  have k: "task_key_ok t'" using a(2) advances(1,4) by (simp add: same_task_def history_ok_def task_key_ok_def)
  have "pc_inv i (gy_tasks s ! i) (gy_log s)" "task_key_ok (gy_tasks s ! i)" using advances by (simp_all add: history_ok_def)
  note p = pc_inv_task [OF advances(3) this, of mom, unfolded t fst_conv snd_conv]
  from p(2) show ?case
  proof (elim disjE exE conjE)
    assume "gy_log s1 = gy_log s"
    then show ?thesis using p(1) k advances(1,4) by (auto simp: a(1) history_ok_def nth_list_update)
  next
    fix h assume "gy_log s1 = h # gy_log s" "earned_line h (gy_log s)"
    then show ?thesis using p(1) k advances(1,4)
      by (auto simp: a(1) history_ok_def nth_list_update retirements_cons pc_inv_mono)
  qed
next
  case (panics i s)
  then show ?case by (simp add: history_ok_def put_task_def nth_list_update pc_inv_def task_key_ok_def)
next
  case (writes op s)
  then show ?case by (simp add: history_ok_def)
qed

lemma history_reachable: "gone_reachable s \<Longrightarrow> history_ok s"
proof (induction rule: gone_reachable.induct)
  case (start st)
  then show ?case by (simp add: history_ok_def gone_start_def)
qed (rule history_step, assumption, rule streaks_ok_reachable)


subsection \<open>Slots\<close>

text \<open>The steps of a task during which it holds a slot of its provider.\<close>

definition holding :: "goneTask \<Rightarrow> bool" where
  "holding t \<longleftrightarrow> gt_pc t \<in> {AtClaim, AtStart, AtProbe}"

definition holds_slot :: "uuid \<Rightarrow> goneTask \<Rightarrow> bool" where
  "holds_slot p t \<longleftrightarrow> gc_providerID (gt_cand t) = p \<and> holding t"

definition slots_ok :: "goneSys \<Rightarrow> bool" where
  "slots_ok s \<longleftrightarrow> (\<forall>p. slots_of s p = length (filter (holds_slot p) (gy_tasks s)) \<and> length (filter (holds_slot p) (gy_tasks s)) \<le> goneProbeMaxConcurrent)
     \<and> (\<forall>t\<in>set (gy_tasks s). gt_slot t = holding t)"

lemma length_filter_update:
  "i < length xs \<Longrightarrow> length (filter P (xs[i := y])) + of_bool (P (xs ! i)) = length (filter P xs) + of_bool (P y)"
proof (induction xs arbitrary: i)
  case (Cons x xs)
  then show ?case by (cases i) (fastforce simp: of_bool_def split: if_splits)+
qed simp

lemma slots_of_frame: "gy_slots s' = gy_slots s \<Longrightarrow> slots_of s' p = slots_of s p"
  by (simp add: slots_of_def)

lemma slots_of_put [simp]: "slots_of (s\<lparr>gy_slots := gm_put p n (gy_slots s)\<rparr>) q = (if q = p then n else slots_of s q)"
  by (simp add: slots_of_def)

lemma slots_of_tasks [simp]: "slots_of (s\<lparr>gy_tasks := ts\<rparr>) p = slots_of s p" "slots_of (s\<lparr>gy_store := st\<rparr>) p = slots_of s p"
  by (simp_all add: slots_of_def)

lemma release_slots:
  "slots_of (snd (release_slot t s)) p = slots_of s p - of_bool (gc_providerID (gt_cand t) = p \<and> gt_slot t)"
  by (auto simp: release_slot_def slots_of_def)

lemma finish_slots:
  "slots_of (snd (finish t s)) p = slots_of s p - of_bool (gc_providerID (gt_cand t) = p \<and> gt_slot t)"
  by (simp add: finish_def case_prod_beta release_slots)

lemma slots_of_simps [simp]:
  "slots_of (report h s) p = slots_of s p" "slots_of (put_streak k x s) p = slots_of s p"
  "slots_of (revalidate_groups s) p = slots_of s p" "slots_of (snd (with_store f s)) p = slots_of s p"
  by (simp_all add: slots_of_def)

text \<open>A step moves its task's own slot and no other, and takes one only below the cap.\<close>

lemma task_step_slots:
  fixes mom :: goneMoment and i :: nat
  assumes "gt_slot t = holding t" "holding t \<longrightarrow> 0 < slots_of s (gc_providerID (gt_cand t))"
  defines "ts \<equiv> task_step i mom t s"
  shows "gt_slot (fst ts) = holding (fst ts)"
    and "slots_of (snd ts) p + of_bool (holds_slot p t) = slots_of s p + of_bool (holds_slot p (fst ts))"
    and "slots_of s p \<le> goneProbeMaxConcurrent \<longrightarrow> slots_of (snd ts) p \<le> goneProbeMaxConcurrent"
proof -
  have "gt_slot (fst ts) = holding (fst ts)
    \<and> slots_of (snd ts) p + of_bool (holds_slot p t) = slots_of s p + of_bool (holds_slot p (fst ts))
    \<and> (slots_of s p \<le> goneProbeMaxConcurrent \<longrightarrow> slots_of (snd ts) p \<le> goneProbeMaxConcurrent)"
  proof (cases "gt_pc t")
    case AtSlot
    with assms(1) show ?thesis
      by (auto simp: ts_def task_step_unfold holding_def holds_slot_def finish_slots)
  qed (use assms(1,2) in \<open>auto simp: ts_def task_step_unfold holding_def holds_slot_def finish_slots release_slots
        split: probeVerdict.split sum.split option.split bool.split\<close>)
  then show "gt_slot (fst ts) = holding (fst ts)"
    and "slots_of (snd ts) p + of_bool (holds_slot p t) = slots_of s p + of_bool (holds_slot p (fst ts))"
    and "slots_of s p \<le> goneProbeMaxConcurrent \<longrightarrow> slots_of (snd ts) p \<le> goneProbeMaxConcurrent" by simp_all
qed

lemma slots_ok_D:
  assumes "slots_ok s" "i < length (gy_tasks s)"
  shows "gt_slot (gy_tasks s ! i) = holding (gy_tasks s ! i)"
    "holding (gy_tasks s ! i) \<longrightarrow> 0 < slots_of s (gc_providerID (gt_cand (gy_tasks s ! i)))"
proof -
  show "gt_slot (gy_tasks s ! i) = holding (gy_tasks s ! i)" using assms by (simp add: slots_ok_def)
  have "gy_tasks s ! i \<in> set (gy_tasks s)" using assms(2) by simp
  then show "holding (gy_tasks s ! i) \<longrightarrow> 0 < slots_of s (gc_providerID (gt_cand (gy_tasks s ! i)))"
    using assms(1) by (auto simp: slots_ok_def holds_slot_def filter_empty_conv length_greater_0_conv)
qed

lemma slots_ok_update:
  assumes "slots_ok s" "i < length (gy_tasks s)" "gy_tasks s' = (gy_tasks s)[i := t']" "gt_slot t' = holding t'"
    "\<And>p. slots_of s' p + of_bool (holds_slot p (gy_tasks s ! i)) = slots_of s p + of_bool (holds_slot p t')"
    "\<And>p. slots_of s p \<le> goneProbeMaxConcurrent \<longrightarrow> slots_of s' p \<le> goneProbeMaxConcurrent"
  shows "slots_ok s'"
proof -
  have "slots_of s' p = length (filter (holds_slot p) (gy_tasks s'))" for p
    using assms(1) assms(5) [of p] length_filter_update [OF assms(2), of "holds_slot p" t'] by (simp add: slots_ok_def assms(3))
  moreover have "slots_of s' p \<le> goneProbeMaxConcurrent" for p using assms(1) assms(6) [of p] by (simp add: slots_ok_def)
  ultimately have "slots_of s' p = length (filter (holds_slot p) (gy_tasks s')) \<and> length (filter (holds_slot p) (gy_tasks s')) \<le> goneProbeMaxConcurrent"
    for p by simp
  moreover have "\<forall>t\<in>set (gy_tasks s'). gt_slot t = holding t"
    using assms(1,4) by (auto simp: slots_ok_def assms(3) dest!: set_update_subset_insert [THEN subsetD])
  ultimately show ?thesis unfolding slots_ok_def by blast
qed

lemma slots_ok_frame:
  assumes "slots_ok s" "gy_slots s' = gy_slots s" "gy_tasks s' = gy_tasks s \<or> (\<exists>t. gy_tasks s' = gy_tasks s @ [t] \<and> gt_pc t = AtCheck \<and> \<not> gt_slot t)"
  shows "slots_ok s'"
proof -
  have "filter (holds_slot p) (gy_tasks s') = filter (holds_slot p) (gy_tasks s)" for p
    using assms(3) by (auto simp: holds_slot_def holding_def)
  moreover have "\<forall>t\<in>set (gy_tasks s'). gt_slot t = holding t" using assms(1,3) by (auto simp: slots_ok_def holding_def)
  ultimately show ?thesis using assms(1) by (simp add: slots_ok_def slots_of_frame [OF assms(2)])
qed

lemma slots_step: "gone_step s s' \<Longrightarrow> slots_ok s \<Longrightarrow> slots_ok s'"
proof (induction rule: gone_step.induct)
  case (refused now s c e)
  show ?case
  proof (cases rule: noteModelGone_cases [where c = c and e = e and now = now and s = s])
    case ignored
    then show ?thesis using refused(2) by simp
  next
    case (struck k)
    then show ?thesis by (intro slots_ok_frame [OF refused(2)]) simp_all
  next
    case (nominated k t)
    then show ?thesis by (intro slots_ok_frame [OF refused(2)]) simp_all
  qed
next
  case (served s m e)
  show ?case
  proof (cases rule: noteModelServed_cases [where m = m and e = e and s = s])
    case ignored
    then show ?thesis using served by simp
  next
    case (answered k)
    then show ?thesis by (intro slots_ok_frame [OF served]) simp_all
  qed
next
  case (advances i s mom)
  obtain t' s1 where t: "task_step i mom (gy_tasks s ! i) s = (t', s1)" by fastforce
  note a = advance_eq [OF advances(1) t]
  note p = task_step_slots [OF slots_ok_D [OF advances(3,1)], where i = i and mom = mom, unfolded t fst_conv snd_conv]
  show ?case
    by (rule slots_ok_update [OF advances(3,1)]) (use p in \<open>simp_all add: a(1)\<close>)
next
  case (panics i s)
  have h: "holding (gy_tasks s ! i)" "gt_slot (gy_tasks s ! i)"
    using panics(2) slots_ok_D(1) [OF panics(3,1)] by (simp_all add: holding_def)
  note d = slots_ok_D(2) [OF panics(3,1)] finish_slots [of "gy_tasks s ! i" s]
  show ?case
    by (rule slots_ok_update [OF panics(3,1), where t' = "fst (finish (gy_tasks s ! i) s)"])
      (use h d in \<open>auto simp: put_task_def holding_def holds_slot_def\<close>)
next
  case (writes op s)
  then show ?case by (simp add: slots_ok_def slots_of_def)
qed

lemma slots_reachable: "gone_reachable s \<Longrightarrow> slots_ok s"
proof (induction rule: gone_reachable.induct)
  case (start st)
  then show ?case by (simp add: slots_ok_def gone_start_def slots_of_def)
qed (rule slots_step)

end
