(* ===== verification/Gone_Rows.thy ===== *)
theory Gone_Rows
  imports Gone_Evidence
begin

text \<open>
  The row a task has staged stays as it was checked until the commit: two tasks never hold the same
  row, and what others write leaves a held row alone.
\<close>

definition rows_of :: "uuid \<Rightarrow> model_full list \<Rightarrow> model_full list" where
  "rows_of u rs = filter (\<lambda>r. mr_id r = u) rs"

definition task_model :: "goneTask \<Rightarrow> uuid" where "task_model t = gc_modelUUID (gt_cand t)"

definition checked :: "uuid \<Rightarrow> model_full list \<Rightarrow> bool" where
  "checked u rs \<longleftrightarrow> (\<exists>r. rows_of u rs = [r] \<and> still_routable r = Some True)"

definition rows_ok :: "goneSys \<Rightarrow> bool" where
  "rows_ok s \<longleftrightarrow> table_wf (fl_entries (gy_store s))
     \<and> (\<forall>t\<in>set (gy_tasks s). holds_row t \<longrightarrow> checked (task_model t) (fl_entries (gy_store s)))
     \<and> (\<forall>i j. i < length (gy_tasks s) \<and> j < length (gy_tasks s) \<and> holds_row (gy_tasks s ! i) \<and> holds_row (gy_tasks s ! j)
          \<and> task_model (gy_tasks s ! i) = task_model (gy_tasks s ! j) \<longrightarrow> i = j)"

lemma rows_of_update:
  assumes "\<And>r. P r \<Longrightarrow> mr_id r = u" "\<And>r. mr_id (f r) = mr_id r" "v \<noteq> u"
  shows "rows_of v (update_where P f rs) = rows_of v rs"
  using assms by (induction rs) (auto simp: rows_of_def update_where_def)

lemma entries_with_store [simp]: "fl_entries (gy_store (snd (with_store f s))) = ms_entries (snd (f (fl_models (gy_store s))))"
  by (simp add: with_store_def case_prod_beta)

lemma fst_with_store [simp]: "fst (with_store f s) = fst (f (fl_models (gy_store s)))"
  by (simp add: with_store_def case_prod_beta)

lemma commit_entries:
  "fst (autoRetireCommit u stamp m) = Inr b \<Longrightarrow>
     ms_entries (snd (autoRetireCommit u stamp m)) = update_where (\<lambda>r. mr_id r = u) (retired_entry stamp) (ms_entries m)"
  "fst (autoRetireCommit u stamp m) = Inl e \<Longrightarrow> ms_entries (snd (autoRetireCommit u stamp m)) = ms_entries m"
  by (auto simp: autoRetireCommit_def dest: fault_frame split: prod.splits option.splits)

lemma revert_entries:
  "ms_entries (snd (RevertAutoRetire u m)) = ms_entries m \<or>
   ms_entries (snd (RevertAutoRetire u m)) =
     update_where (as_retired u) (\<lambda>r. r\<lparr>mr_enabled := Some True, me_auto_retired_at := None\<rparr>) (ms_entries m)"
  by (auto simp: RevertAutoRetire_def simp del: filter_empty_conv dest: fault_frame split: prod.splits option.splits)

text \<open>What a step of a task does to the rows.\<close>

lemma task_step_rows:
  fixes t :: goneTask and s :: goneSys
  defines "rs \<equiv> fl_entries (gy_store s)"
  assumes "task_step i mom t s = (t', s1)"
  obtains (same) "fl_entries (gy_store s1) = rs" "holds_row t' \<longrightarrow> holds_row t"
  | (staged) "gt_pc t = AtStage" "fl_entries (gy_store s1) = rs"
      "\<exists>r. find (\<lambda>r. mr_id r = task_model t) rs = Some r \<and> still_routable r = Some True"
  | (committed) stamp where "gt_pc t = AtCommit stamp" "\<not> holds_row t'"
      "fl_entries (gy_store s1) = update_where (\<lambda>r. mr_id r = task_model t) (retired_entry stamp) rs"
  | (reverted) "gt_pc t = AtRevert" "\<not> holds_row t'"
      "fl_entries (gy_store s1) = update_where (as_retired (task_model t)) (\<lambda>r. r\<lparr>mr_enabled := Some True, me_auto_retired_at := None\<rparr>) rs"
proof -
  have ts: "t' = fst (task_step i mom t s)" "s1 = snd (task_step i mom t s)" using assms(2) by simp_all
  show thesis
  proof (cases "gt_pc t")
  case AtStage
  let ?st = "autoRetireStage (task_model t) (fl_models (gy_store s))"
  have e: "fl_entries (gy_store s1) = rs"
    using AtStage entries_stage(1) [of "task_model t" "fl_models (gy_store s)" "fst ?st" "snd ?st"]
    by (simp add: ts rs_def task_step_unfold task_model_def split: sum.split option.split)
  show thesis
  proof (cases "\<exists>stamp. fst ?st = Inr (Some stamp)")
    case True
    then have "\<exists>r. find (\<lambda>r. mr_id r = task_model t) rs = Some r \<and> still_routable r = Some True"
      using entries_stage(2) [of "task_model t" "fl_models (gy_store s)" _ "snd ?st"] by (metis (no_types) rs_def entry_by_id_def prod.collapse)
    then show thesis using AtStage e by (intro staged)
  next
    case False
    then have "\<not> holds_row t'" using AtStage
      by (auto simp: ts task_step_unfold holds_row_def task_model_def split: sum.split option.split)
    then show thesis using e by (intro same) simp_all
  qed
next
  case (AtCommit stamp)
  let ?c = "autoRetireCommit (task_model t) stamp (fl_models (gy_store s))"
  have n: "\<not> holds_row t'" using AtCommit
    by (auto simp: ts task_step_unfold holds_row_def split: sum.split)
  show thesis
  proof (cases "fst ?c")
    case (Inl e)
    then show thesis using AtCommit n commit_entries(2) [OF Inl]
      by (intro same) (simp_all add: ts rs_def task_step_unfold task_model_def)
  next
    case (Inr b)
    then show thesis using AtCommit n commit_entries(1) [OF Inr]
      by (intro committed) (simp_all add: ts rs_def task_step_unfold task_model_def)
  qed
next
  case AtRevert
  have n: "\<not> holds_row t'" using AtRevert
    by (auto simp: ts task_step_unfold holds_row_def split: sum.split bool.split)
  have "fl_entries (gy_store s1) = ms_entries (snd (RevertAutoRetire (task_model t) (fl_models (gy_store s))))"
    using AtRevert by (simp add: ts task_step_unfold task_model_def split: sum.split bool.split)
  with revert_entries [of "task_model t" "fl_models (gy_store s)"] n AtRevert show thesis
    unfolding rs_def by (metis same [unfolded rs_def] reverted [unfolded rs_def])
next
  case (AtVerdict v)
  then show thesis by (intro same) (simp_all add: ts rs_def task_step_unfold holds_row_def split: probeVerdict.split)
next
  case (AtConfirm stamp)
  then show thesis by (intro same) (simp_all add: ts rs_def task_step_unfold holds_row_def)
qed (auto intro!: same simp: ts rs_def task_step_unfold holds_row_def split: bool.splits if_splits)
qed


lemma checked_find:
  assumes "table_wf rs" "find (\<lambda>r. mr_id r = u) rs = Some r" "still_routable r = Some True"
  shows "checked u rs"
proof -
  have r: "r \<in> set (rows_of u rs)" using assms(2) by (auto simp: find_Some_iff rows_of_def)
  have "distinct (map mr_id (rows_of u rs))" "\<forall>x\<in>set (rows_of u rs). mr_id x = u"
    using assms(1) by (auto simp: table_wf_def rows_of_def intro: distinct_map_filter)
  then have "rows_of u rs = [r]" using r by (cases "rows_of u rs"; cases "tl (rows_of u rs)") auto
  with assms(3) show ?thesis by (simp add: checked_def)
qed

lemma checked_rows: "rows_of u rs' = rows_of u rs \<Longrightarrow> checked u rs' = checked u rs"
  by (simp add: checked_def)

lemma checked_commit:
  assumes "table_wf rs" "checked u rs"
  shows "table_wf (update_where (\<lambda>r. mr_id r = u) (retired_entry stamp) rs)"
proof (rule effect_table_wf [OF _ assms(1)])
  show "op_effect (OpRetire u True) rs (update_where (\<lambda>r. mr_id r = u) (retired_entry stamp) rs)"
  proof (rule effect_update)
    fix r assume "r \<in> set rs" "mr_id r = u"
    then have "r \<in> set (rows_of u rs)" by (simp add: rows_of_def)
    with assms(2) have "still_routable r = Some True" by (auto simp: checked_def)
    with \<open>mr_id r = u\<close> show "row_move (OpRetire u True) r (retired_entry stamp r)" by auto
  qed
qed simp

lemma reverted_wf:
  assumes "table_wf rs"
  shows "table_wf (update_where (as_retired u) (\<lambda>r. r\<lparr>mr_enabled := Some True, me_auto_retired_at := None\<rparr>) rs)"
  by (rule effect_table_wf [OF _ assms, of "OpRevert u"]) (auto intro!: effect_update)

lemma locked_iff: "u \<in> locked s \<longleftrightarrow> (\<exists>t\<in>set (gy_tasks s). holds_row t \<and> task_model t = u)"
  by (auto simp: locked_def task_model_def)

text \<open>The rows a step leaves alone: those another task holds.\<close>

lemma rows_ok_task:
  assumes ok: "rows_ok s" and i: "i < length (gy_tasks s)" "\<not> waits i s"
    and t: "task_step i mom (gy_tasks s ! i) s = (t', s1)"
  defines "rs \<equiv> fl_entries (gy_store s)" and "rs1 \<equiv> fl_entries (gy_store s1)"
  shows "table_wf rs1" "holds_row t' \<longrightarrow> checked (task_model (gy_tasks s ! i)) rs1"
    "\<And>j. j < length (gy_tasks s) \<Longrightarrow> j \<noteq> i \<Longrightarrow> holds_row (gy_tasks s ! j) \<Longrightarrow>
        checked (task_model (gy_tasks s ! j)) rs1 \<and> (holds_row t' \<longrightarrow> task_model (gy_tasks s ! j) \<noteq> task_model (gy_tasks s ! i))"
proof -
  let ?t = "gy_tasks s ! i"
  have wf: "table_wf rs" and chk: "\<And>j. j < length (gy_tasks s) \<Longrightarrow> holds_row (gy_tasks s ! j) \<Longrightarrow> checked (task_model (gy_tasks s ! j)) rs"
    and excl: "\<And>j. j < length (gy_tasks s) \<Longrightarrow> j \<noteq> i \<Longrightarrow> holds_row (gy_tasks s ! j) \<Longrightarrow> holds_row ?t \<Longrightarrow> task_model (gy_tasks s ! j) \<noteq> task_model ?t"
    using ok i(1) unfolding rows_ok_def rs_def by (simp_all, blast)
  have free: "task_model (gy_tasks s ! j) \<noteq> task_model ?t" if "needs_row ?t" "j < length (gy_tasks s)" "holds_row (gy_tasks s ! j)" for j
    using i(2) that by (auto simp: waits_def locked_iff task_model_def)
  have "table_wf rs1 \<and> (holds_row t' \<longrightarrow> checked (task_model ?t) rs1) \<and>
    (\<forall>j<length (gy_tasks s). j \<noteq> i \<longrightarrow> holds_row (gy_tasks s ! j) \<longrightarrow>
        checked (task_model (gy_tasks s ! j)) rs1 \<and> (holds_row t' \<longrightarrow> task_model (gy_tasks s ! j) \<noteq> task_model ?t))"
  proof (cases rule: task_step_rows [OF t, folded rs_def rs1_def, case_names same staged committed reverted])
    case same
    then show ?thesis using wf chk excl i(1) by simp
  next
    case staged
    then have "needs_row ?t" by (simp add: needs_row_def)
    with staged show ?thesis using wf chk free checked_find [OF wf] by auto
  next
    case (committed stamp)
    then have h: "holds_row ?t" by (simp add: holds_row_def)
    have "checked v rs1 = checked v rs" if "v \<noteq> task_model ?t" for v
      unfolding committed(3) by (rule checked_rows, rule rows_of_update [OF _ _ that]) (simp_all add: retired_entry_def)
    moreover have "table_wf rs1" unfolding committed(3) by (rule checked_commit [OF wf chk [OF i(1) h]])
    ultimately show ?thesis using committed(2) chk excl [OF _ _ _ h] by simp
  next
    case reverted
    then have n: "needs_row ?t" by (simp add: needs_row_def)
    have "checked v rs1 = checked v rs" if "v \<noteq> task_model ?t" for v
      unfolding reverted(3) by (rule checked_rows, rule rows_of_update [OF _ _ that]) (simp_all add: as_retired_def)
    moreover have "table_wf rs1" unfolding reverted(3) by (rule reverted_wf [OF wf])
    ultimately show ?thesis using reverted(2) chk free [OF n] by simp
  qed
  then show "table_wf rs1" "holds_row t' \<longrightarrow> checked (task_model ?t) rs1"
    "\<And>j. j < length (gy_tasks s) \<Longrightarrow> j \<noteq> i \<Longrightarrow> holds_row (gy_tasks s ! j) \<Longrightarrow>
        checked (task_model (gy_tasks s ! j)) rs1 \<and> (holds_row t' \<longrightarrow> task_model (gy_tasks s ! j) \<noteq> task_model ?t)" by simp_all
qed


lemma rows_ok_frame:
  assumes "rows_ok s" "gy_store s' = gy_store s" "gy_tasks s' = gy_tasks s \<or> (\<exists>t. gy_tasks s' = gy_tasks s @ [t] \<and> \<not> holds_row t)"
  shows "rows_ok s'"
  using assms(3)
proof (elim disjE exE conjE)
  assume "gy_tasks s' = gy_tasks s"
  with assms(1,2) show ?thesis by (simp add: rows_ok_def)
next
  fix t assume t: "gy_tasks s' = gy_tasks s @ [t]" "\<not> holds_row t"
  have "i < length (gy_tasks s) \<and> gy_tasks s' ! i = gy_tasks s ! i" if "i < length (gy_tasks s')" "holds_row (gy_tasks s' ! i)" for i
    using that t by (auto simp: nth_append less_Suc_eq split: if_splits)
  then show ?thesis using assms(1,2) t unfolding rows_ok_def by (metis (no_types, lifting) in_set_conv_nth)
qed

lemma rows_ok_update:
  assumes "rows_ok s" "i < length (gy_tasks s)" "gy_tasks s' = (gy_tasks s)[i := t']" "task_model t' = task_model (gy_tasks s ! i)"
    "table_wf (fl_entries (gy_store s'))" "holds_row t' \<longrightarrow> checked (task_model t') (fl_entries (gy_store s'))"
    "\<And>j. j < length (gy_tasks s) \<Longrightarrow> j \<noteq> i \<Longrightarrow> holds_row (gy_tasks s ! j) \<Longrightarrow>
        checked (task_model (gy_tasks s ! j)) (fl_entries (gy_store s')) \<and> (holds_row t' \<longrightarrow> task_model (gy_tasks s ! j) \<noteq> task_model t')"
  shows "rows_ok s'"
proof -
  have tasks: "gy_tasks s' ! j = (if j = i then t' else gy_tasks s ! j)" if "j < length (gy_tasks s')" for j
    using that assms(2,3) by (simp add: nth_list_update)
  have len: "length (gy_tasks s') = length (gy_tasks s)" by (simp add: assms(3))
  have "checked (task_model t) (fl_entries (gy_store s'))" if "t \<in> set (gy_tasks s')" "holds_row t" for t
    using that assms(6,7) by (metis in_set_conv_nth len tasks)
  moreover have "k = j" if "k < length (gy_tasks s')" "j < length (gy_tasks s')" "holds_row (gy_tasks s' ! k)" "holds_row (gy_tasks s' ! j)"
      "task_model (gy_tasks s' ! k) = task_model (gy_tasks s' ! j)" for k j
  proof (cases "k = i \<or> j = i")
    case True
    then show ?thesis using that assms(7) unfolding len by (metis len tasks)
  next
    case False
    then show ?thesis using that assms(1) unfolding rows_ok_def len by (metis len tasks)
  qed
  ultimately show ?thesis using assms(5) unfolding rows_ok_def by blast
qed

lemma rows_step: "gone_step s s' \<Longrightarrow> rows_ok s \<Longrightarrow> rows_ok s'"
proof (induction rule: gone_step.induct)
  case (refused now s c e)
  show ?case
  proof (cases rule: noteModelGone_cases [where c = c and e = e and now = now and s = s])
    case ignored
    then show ?thesis using refused(2) by simp
  next
    case (struck k)
    then show ?thesis by (intro rows_ok_frame [OF refused(2)]) simp_all
  next
    case (nominated k t)
    then show ?thesis by (intro rows_ok_frame [OF refused(2)]) (simp_all add: holds_row_def)
  qed
next
  case (served s m e)
  show ?case
  proof (cases rule: noteModelServed_cases [where m = m and e = e and s = s])
    case ignored
    then show ?thesis using served by simp
  next
    case (answered k)
    then show ?thesis by (intro rows_ok_frame [OF served]) simp_all
  qed
next
  case (advances i s mom)
  obtain t' s1 where t: "task_step i mom (gy_tasks s ! i) s = (t', s1)" by fastforce
  note a = advance_eq [OF advances(1) t] and r = rows_ok_task [OF advances(3,1,2) t]
  have m: "task_model t' = task_model (gy_tasks s ! i)" using a(2) by (simp add: same_task_def task_model_def)
  show ?case
    by (rule rows_ok_update [OF advances(3,1), where t' = t']) (use r m in \<open>simp_all add: a(1)\<close>)
next
  case (panics i s)
  show ?case
    by (rule rows_ok_update [OF panics(3,1), where t' = "fst (finish (gy_tasks s ! i) s)"])
      (use panics(3) in \<open>auto simp: put_task_def holds_row_def task_model_def rows_ok_def\<close>)
next
  case (writes op s)
  have "checked (task_model t) (fl_entries (run_op op (gy_store s)))" if "t \<in> set (gy_tasks s)" "holds_row t" for t
  proof -
    have "rows_of (task_model t) (fl_entries (run_op op (gy_store s))) = rows_of (task_model t) (fl_entries (gy_store s))"
      using writes(2) that unfolding respects_locks_def rows_of_def by (metis locked_iff)
    with writes(3) that show ?thesis by (simp add: checked_def rows_ok_def)
  qed
  moreover have "table_wf (fl_entries (run_op op (gy_store s)))"
    using writes(1,3) by (intro run_op_table_wf) (simp_all add: rows_ok_def)
  ultimately show ?case using writes(3) by (simp add: rows_ok_def)
qed

lemma rows_reachable: "gone_reachable s \<Longrightarrow> rows_ok s"
proof (induction rule: gone_reachable.induct)
  case (start st)
  then show ?case by (simp add: rows_ok_def gone_start_def)
qed (rule rows_step)

end
