(* ===== verification/Gone_Properties.thy ===== *)
theory Gone_Properties
  imports Gone_Rows Model_Properties
begin

text \<open>What the retirement guarantees over every interleaving: which evidence stands behind a
  retired model, which row it writes, what a streak counts, how often a surface is probed and how
  many probes a provider sees at once.\<close>

subsection \<open>Spacing\<close>

lemma spaced_sorted: "spaced ts \<longleftrightarrow> sorted_wrt (\<lambda>t u. u + goneProbeCooldown \<le> t) ts"
proof (induction ts rule: spaced.induct)
  case (1 t u ts)
  then show ?case by (fastforce simp: goneProbeCooldown_def minute_def)
qed simp_all

lemma claims_append: "claims k (xs @ ys) = claims k xs @ claims k ys"
proof (induction xs)
  case (Cons h xs)
  then show ?case by (cases h) simp_all
qed simp

lemma claims_mem: "t \<in> set (claims k hs) \<longleftrightarrow> (\<exists>j. Claimed j k t \<in> set hs)"
proof (induction hs)
  case (Cons h hs)
  then show ?case by (cases h) auto
qed simp

lemma tombstone_lifted:
  assumes "\<not> tombstoned k (xs @ Answered k # ys)"
  shows "\<exists>j t. Claimed j k t \<in> set xs"
  using assms
proof (induction xs)
  case (Cons h xs)
  then show ?case by (cases h) auto
qed simp

lemma spaced_span:
  assumes "sorted_wrt (\<lambda>t u. u + goneProbeCooldown \<le> t) (t # ts)" "\<forall>x\<in>set (t # ts). a \<le> x"
  shows "a + goneProbeCooldown * int (length ts) \<le> t"
  using assms
proof (induction ts arbitrary: t)
  case (Cons u ts)
  then have "a + goneProbeCooldown * int (length ts) \<le> u" by auto
  moreover have "u + goneProbeCooldown \<le> t" using Cons.prems by simp
  ultimately show ?case by (simp add: algebra_simps)
qed simp

lemma spaced_in_hour:
  assumes "spaced ts"
  shows "length (filter (\<lambda>t. a \<le> t \<and> t < a + 60 * minute) ts) \<le> 12"
proof (cases "filter (\<lambda>t. a \<le> t \<and> t < a + 60 * minute) ts")
  case (Cons t us)
  have "sorted_wrt (\<lambda>t u. u + goneProbeCooldown \<le> t) (t # us)"
    using sorted_wrt_filter assms unfolding spaced_sorted Cons [symmetric] by blast
  moreover have in_hour: "\<forall>x\<in>set (t # us). a \<le> x \<and> x < a + 60 * minute" unfolding Cons [symmetric] by simp
  ultimately have "a + goneProbeCooldown * int (length us) \<le> t" by (intro spaced_span) auto
  then have "goneProbeCooldown * int (length us) < 60 * minute" using in_hour by simp
  then have "length us < 12" by (simp add: goneProbeCooldown_def minute_def)
  then show ?thesis unfolding Cons by simp
qed simp

subsection \<open>Runs\<close>

text \<open>A finite run of moves is a reachable state; a move whose condition does not hold is skipped.\<close>

datatype gone_move = Refuse goneCandidate string instant | Serve uuid string | Go nat goneMoment

fun gone_run :: "gone_move list \<Rightarrow> goneSys \<Rightarrow> goneSys" where
  "gone_run [] s = s"
| "gone_run (Refuse c e now # ms) s = gone_run ms (if 0 < now then noteModelGone (Some c) e now s else s)"
| "gone_run (Serve u e # ms) s = gone_run ms (noteModelServed (Some u) e s)"
| "gone_run (Go i mom # ms) s = gone_run ms (if i < length (gy_tasks s) \<and> \<not> waits i s then advance i mom s else s)"

lemma gone_run_reachable: "gone_reachable s \<Longrightarrow> gone_reachable (gone_run ms s)"
  by (induction ms s rule: gone_run.induct) (simp_all add: gone_reachable.step [OF _ gone_step.refused]
      gone_reachable.step [OF _ gone_step.served] gone_reachable.step [OF _ gone_step.advances])

text \<open>Three refusals of a chat model within an hour, then its task up to the commit and over it.\<close>

definition gone_candidate :: goneCandidate where
  "gone_candidate = \<lparr>gc_modelUUID = ''m'', gc_modelID = ''m'', gc_inputModalities = ModNone, gc_outputModalities = ModNone,
     gc_providerID = ''p'', gc_providerName = ''P''\<rparr>"

definition gone_moment :: goneMoment where
  "gone_moment = \<lparr>go_circuit = StateClosed, go_probe = \<lparr>pb_circuit = StateClosed, pb_built = True, pb_transport = True, pb_reached = True,
     pb_status = 404, pb_readOk = True, pb_length = 10, pb_kind = Some KindProviderModelGone, pb_translated = True, pb_delivered = False\<rparr>\<rparr>"

definition gone_nominated :: goneSys where
  "gone_nominated = gone_run [Refuse gone_candidate ''chat'' 1, Refuse gone_candidate ''messages'' (29 * minute),
     Refuse gone_candidate ''chat'' (58 * minute)] (gone_start (demo_models [demo_row]))"

definition gone_at_commit :: goneSys where
  "gone_at_commit = gone_run (replicate 9 (Go 0 gone_moment)) gone_nominated"

lemma gone_nominated_reachable: "gone_reachable gone_nominated"
  unfolding gone_nominated_def by (rule gone_run_reachable, rule gone_reachable.start) (simp add: table_wf_def demo_row_wf)

lemma gone_at_commit_reachable: "gone_reachable gone_at_commit" "gone_reachable (gone_run ms gone_at_commit)"
  unfolding gone_at_commit_def using gone_nominated_reachable by (auto intro: gone_run_reachable)

subsection \<open>The guarantees\<close>

text \<open>C9: a retirement is earned. Whatever refusals, answers, other probes and table writes
  interleave, every retirement in the log is preceded, in this order, by its task's claim, made when
  the last three or more refusals of that model and surface stood unanswered and at most half an hour
  apart, by the task's own probe, which the provider refused, and by the confirmation. Between the
  claim and the confirmation the model did not answer on that surface, unless a later
  refusal run bought another claim at least the cooldown after this one.\<close>

theorem retirement_is_earned:
  assumes "gone_reachable s" "gy_log s = later @ Retired i u # earlier"
  shows "\<exists>e a b c d now. earlier = a @ Confirmed i # b @ Probed i probeRefused # c @ Claimed i (u, e) now # d
     \<and> goneStrikeThreshold \<le> run_length (recent (u, e) d)
     \<and> (\<forall>x y. b @ Probed i probeRefused # c = x @ Answered (u, e) # y \<longrightarrow>
          (\<exists>j t. Claimed j (u, e) t \<in> set x \<and> now + goneProbeCooldown \<le> t))"
proof -
  have "retirements_earned (later @ Retired i u # earlier)"
    using history_reachable [OF assms(1)] by (simp add: history_ok_def assms(2))
  then have "retirements_earned (Retired i u # earlier)" by (induction later) (simp_all add: retirements_cons)
  then obtain e where "confirmed i (u, e) earlier" by auto
  then obtain a b c d now where parts: "earlier = a @ Confirmed i # b @ Probed i probeRefused # c @ Claimed i (u, e) now # d"
      and run: "goneStrikeThreshold \<le> run_length (recent (u, e) d)"
      and live: "\<not> tombstoned (u, e) (b @ Probed i probeRefused # c @ Claimed i (u, e) now # d)"
    unfolding confirmed_def probed_def claimed_def by (auto 4 3)
  have "spaced (claims (u, e) (gy_log s))" using streaks_ok_D(1) [OF streaks_ok_reachable [OF assms(1)]] by (simp add: streak_inv_def)
  then have sp: "\<forall>t\<in>set (claims (u, e) (b @ Probed i probeRefused # c)). now + goneProbeCooldown \<le> t"
    unfolding assms(2) parts spaced_sorted by (auto simp: claims_append sorted_wrt_append)
  have "\<exists>j t. Claimed j (u, e) t \<in> set x \<and> now + goneProbeCooldown \<le> t"
    if x: "b @ Probed i probeRefused # c = x @ Answered (u, e) # y" for x y
  proof -
    have "\<not> tombstoned (u, e) (x @ Answered (u, e) # (y @ Claimed i (u, e) now # d))" using live x by (metis append.assoc append_Cons)
    from tombstone_lifted [OF this] obtain j t where "Claimed j (u, e) t \<in> set x" by blast
    moreover from this have "t \<in> set (claims (u, e) (b @ Probed i probeRefused # c))" unfolding x claims_mem by auto
    ultimately show ?thesis using sp by blast
  qed
  with parts run show ?thesis by blast
qed

theorem retirement_is_earned_witness:
  "\<exists>e a b c d now. tl (gy_log (gone_run [Go 0 gone_moment] gone_at_commit))
       = a @ Confirmed 0 # b @ Probed 0 probeRefused # c @ Claimed 0 (''m'', e) now # d
     \<and> goneStrikeThreshold \<le> run_length (recent (''m'', e) d)"
proof -
  let ?s = "gone_run [Go 0 gone_moment] gone_at_commit"
  have "hd (gy_log ?s) = Retired 0 ''m''" "gy_log ?s \<noteq> []" by code_simp+
  then have "gy_log ?s = [] @ Retired 0 ''m'' # tl (gy_log ?s)" by (metis append_Nil list.collapse)
  from retirement_is_earned [OF gone_at_commit_reachable(2) this] show ?thesis by blast
qed

text \<open>C10: a retirement never overwrites anyone's decision. When a task's commit goes through, the
  table holds exactly one row of its model, that row is enabled, not switched off by hand and not
  yet retired, although it was checked earlier, and the commit changes that row alone; otherwise the
  commit changes no row and reports no retirement.\<close>

theorem retirement_writes_the_checked_row:
  assumes "gone_reachable s" "i < length (gy_tasks s)" "gt_pc (gy_tasks s ! i) = AtCommit stamp"
  shows "let u = gc_modelUUID (gt_cand (gy_tasks s ! i)); s' = advance i mom s;
             rs = fl_entries (gy_store s); rs' = fl_entries (gy_store s')
         in gy_log s' = gy_log s \<and> rs' = rs
            \<or> gy_log s' = Retired i u # gy_log s \<and> rs' = update_where (\<lambda>r. mr_id r = u) (retired_entry stamp) rs
              \<and> (\<exists>r. filter (\<lambda>r. mr_id r = u) rs = [r] \<and> still_routable r = Some True)"
proof -
  let ?t = "gy_tasks s ! i"
  let ?c = "autoRetireCommit (gc_modelUUID (gt_cand ?t)) stamp (fl_models (gy_store s))"
  have "holds_row ?t" using assms(3) by (simp add: holds_row_def)
  then have "checked (gc_modelUUID (gt_cand ?t)) (fl_entries (gy_store s))"
    using rows_reachable [OF assms(1)] assms(2) by (simp add: rows_ok_def task_model_def)
  then show ?thesis
    using assms(2,3) commit_entries
    by (cases "fst ?c") (simp_all add: Let_def advance_def put_task_def task_step_def case_prod_beta checked_def rows_of_def)
qed

theorem retirement_writes_the_checked_row_witness:
  "fl_entries (gy_store (advance 0 gone_moment gone_at_commit)) = [retired_entry 7 demo_row]"
proof -
  have task: "0 < length (gy_tasks gone_at_commit)" "gt_pc (gy_tasks gone_at_commit ! 0) = AtCommit 7"
    and model: "gc_modelUUID (gt_cand (gy_tasks gone_at_commit ! 0)) = ''m''" "fl_entries (gy_store gone_at_commit) = [demo_row]"
    and log: "gy_log (advance 0 gone_moment gone_at_commit) \<noteq> gy_log gone_at_commit" by code_simp+
  have "mr_id demo_row = ''m''" by code_simp
  then show ?thesis using retirement_writes_the_checked_row [OF gone_at_commit_reachable(1) task, of gone_moment] log
    by (simp add: Let_def model update_where_def)
qed

text \<open>C11: a streak is its surface's log. After any interleaving the counter is the length of the
  newest run of refusals since the surface last answered, with gaps of at most half an hour; the tombstone
  says whether it answered since the newest claim; and a refusal may claim a probe exactly when the
  run has three refusals and every earlier claim is at least the cooldown old.\<close>

theorem streak_follows_the_log:
  assumes "gone_reachable s"
  shows "gs_n (streak_of s k) = run_length (recent k (gy_log s))
     \<and> (gs_cancelled (streak_of s k) \<longleftrightarrow> tombstoned k (gy_log s))
     \<and> (fst (canClaimProbe now (streak_of s k)) \<longleftrightarrow>
           goneStrikeThreshold \<le> run_length (recent k (gy_log s)) \<and> (\<forall>t\<in>set (claims k (gy_log s)). t + goneProbeCooldown \<le> now))"
proof -
  note d = streaks_ok_D [OF streaks_ok_reachable [OF assms], of k]
  have "gs_nextProbeAt (streak_of s k) \<noteq> 0 \<and> now < gs_nextProbeAt (streak_of s k)
      \<longleftrightarrow> \<not> (\<forall>t\<in>set (claims k (gy_log s)). t + goneProbeCooldown \<le> now)"
  proof (cases "claims k (gy_log s)")
    case (Cons t ts)
    then have "\<forall>u\<in>set ts. u + goneProbeCooldown \<le> t" "0 < t"
      using d(1) unfolding streak_inv_def spaced_sorted by auto
    then show ?thesis using d(1) Cons by (fastforce simp: streak_inv_def due_def goneProbeCooldown_def minute_def)
  qed (use d(1) in \<open>simp add: streak_inv_def due_def\<close>)
  then show ?thesis using d by (auto simp: canClaimProbe_def streak_inv_def)
qed

theorem streak_follows_the_log_witness:
  "gs_n (streak_of gone_nominated (''m'', probeChatEndpoint)) = 3
   \<and> fst (canClaimProbe (58 * minute) (streak_of gone_nominated (''m'', probeChatEndpoint)))"
proof -
  let ?k = "(''m'', probeChatEndpoint)"
  have "run_length (recent ?k (gy_log gone_nominated)) = 3" "claims ?k (gy_log gone_nominated) = []" by code_simp+
  then show ?thesis using streak_follows_the_log [OF gone_nominated_reachable, of ?k "58 * minute"]
    by (simp add: goneStrikeThreshold_def)
qed

text \<open>C12: probes are spaced. Two claims of one surface are at least five minutes apart, in the
  order they were made, so that no hour holds more than twelve.\<close>

theorem probes_are_spaced:
  assumes "gone_reachable s"
  shows "(\<forall>a b c i j t t'. gy_log s = a @ Claimed i k t # b @ Claimed j k t' # c \<longrightarrow> t' + 5 * minute \<le> t)
     \<and> length (filter (\<lambda>t. from_t \<le> t \<and> t < from_t + 60 * minute) (claims k (gy_log s))) \<le> 12"
proof -
  have sp: "spaced (claims k (gy_log s))" using streaks_ok_D(1) [OF streaks_ok_reachable [OF assms]] by (simp add: streak_inv_def)
  have "t' + 5 * minute \<le> t" if "gy_log s = a @ Claimed i k t # b @ Claimed j k t' # c" for a b c i j t t'
    using sp unfolding spaced_sorted that by (auto simp: claims_append sorted_wrt_append goneProbeCooldown_def)
  with spaced_in_hour [OF sp] show ?thesis by blast
qed

theorem probes_are_spaced_witness:
  "claims (''m'', probeChatEndpoint) (gy_log gone_at_commit) = [58 * minute]
   \<and> length (filter (\<lambda>t. 0 \<le> t \<and> t < 0 + 60 * minute) (claims (''m'', probeChatEndpoint) (gy_log gone_at_commit))) \<le> 12"
proof
  show "claims (''m'', probeChatEndpoint) (gy_log gone_at_commit) = [58 * minute]" by code_simp
  show "length (filter (\<lambda>t. 0 \<le> t \<and> t < 0 + 60 * minute) (claims (''m'', probeChatEndpoint) (gy_log gone_at_commit))) \<le> 12"
    using probes_are_spaced [OF gone_at_commit_reachable(1)] by blast
qed

text \<open>C13: no probe slot is lost or taken twice. A provider's count of taken slots is the number of
  its tasks between the acquisition and the end of their probe, panics included, and never exceeds
  four, so at most four probes of one provider are in flight.\<close>

theorem probe_slots_exact:
  assumes "gone_reachable s"
  shows "slots_of s p = length (filter (\<lambda>t. gc_providerID (gt_cand t) = p \<and> gt_pc t \<in> {AtClaim, AtStart, AtProbe}) (gy_tasks s))
     \<and> slots_of s p \<le> 4"
proof -
  have "holds_slot p = (\<lambda>t. gc_providerID (gt_cand t) = p \<and> gt_pc t \<in> {AtClaim, AtStart, AtProbe})"
    by (simp add: fun_eq_iff holds_slot_def holding_def)
  then show ?thesis using slots_reachable [OF assms] unfolding slots_ok_def goneProbeMaxConcurrent_def by metis
qed

theorem probe_slots_exact_witness: "slots_of (gone_run (replicate 4 (Go 0 gone_moment)) gone_nominated) ''p'' = 1"
proof -
  let ?s = "gone_run (replicate 4 (Go 0 gone_moment)) gone_nominated"
  have "map (\<lambda>t. (gc_providerID (gt_cand t), gt_pc t)) (gy_tasks ?s) = [(''p'', AtStart)]" by code_simp
  then obtain t where "gy_tasks ?s = [t]" "gc_providerID (gt_cand t) = ''p''" "gt_pc t = AtStart" by auto
  then show ?thesis using probe_slots_exact [OF gone_run_reachable [OF gone_nominated_reachable], of "replicate 4 (Go 0 gone_moment)" "''p''"]
    by simp
qed

end
