(* ===== verification/Spec2Isabelle.thy ===== *)
theory Spec2Isabelle
  imports Breaker_Properties Breaker_Wait_Properties Breaker_Poll_Properties Breaker_Event_Properties
    Shared_State_Properties Failover_Properties Inflight_Properties Attempt_Properties Loop_Properties Resolve_Properties Model_Properties
    Gone_Properties
begin

text \<open>
  \<^bold>\<open>Model Hotel\<close> is a gateway in front of many providers of language models. A request names a
  model or a failover group; the gateway resolves it to an ordered list of (provider, model)
  candidates, skips those its circuit breaker holds dark, and walks the rest. This development
  models the parts that decide where a request may go, and the state the goroutines of the
  gateway share to decide it.

  \<^bold>\<open>How the source is modelled.\<close> A struct is a record, a package's mutable state is a record passed
  from operation to operation, an operation of the source is one definition with the source's
  name. A critical section is one atomic step; an operation with two critical sections has one
  definition per section (\<open>IsOpen_read\<close>, \<open>IsOpen_write\<close>). Clocks, random numbers and statement
  outcomes are arguments. What a function emits after unlocking (log lines, metrics, events) is a
  list it returns. Durations and instants are 64-bit nanosecond counts with Go's wrap-around and
  saturation written out (\<open>Hotel_Prelude\<close>); the one floating-point expression is computed in
  IEEE double precision on rationals (\<open>Go_Float\<close>). A Go map is an association list with distinct
  keys whose order stands for one of the orders \<open>range\<close> may use.

  \<^bold>\<open>The circuit breaker\<close> (\<open>internal/failover\<close>: \<open>circuitbreaker.go\<close>, \<open>model_circuits.go\<close>,
  \<open>circuit_quota.go\<close>, \<open>circuit_events.go\<close>, \<open>circuit_status.go\<close>, \<open>circuit_reset.go\<close>) keeps one
  circuit per provider and upstream model, and derives the provider's verdict from them.
    \<^item> \<open>Circuit\<close>: the circuit, its streaks and notes, pin sources. \<open>Breaker_Core\<close>: the breaker,
      its settings, cooldowns, the probe backoff. \<open>Provider_Verdict\<close>: report, dominant circuit,
      eviction. \<open>Breaker_Events\<close>, \<open>Quota_Pins\<close>, \<open>Breaker_Ops\<close>: events, pin stamping, the request
      path. \<open>Quota_Poll\<close>: release, retarget, seed and sweep. \<open>Breaker_Status\<close>: status and resets.
    \<^item> \<open>Circuit_Invariant\<close>, \<open>Breaker_Frame\<close>, \<open>Breaker_Requests\<close>, \<open>Breaker_Waits\<close>, \<open>Quota_Passes\<close>,
      \<open>Quota_Advice\<close>, \<open>Breaker_Behaviour\<close>: the invariant of a circuit and of the breaker, what each
      operation changes (the locales \<open>one_circuit_op\<close>, \<open>circuit_walk\<close> and \<open>provider_walk\<close>,
      interpreted on the operations), and the waits.
    \<^item> \<open>Breaker_System\<close>: every operation as a step of a transition system, reachable states and
      their invariant.
    \<^item> \<open>Breaker_Properties\<close> and its siblings state the properties: the admission rule, opening,
      recovery, backoff and escalation, pins, isolation, the polls, status, resets and events.

  \<^bold>\<open>The event bus\<close> (\<open>internal/events/bus.go\<close>, theory \<open>Event_Bus\<close>): subscribers as channels of a
  heap, sends on closed channels as panics, reachable states and their invariant.

  \<^bold>\<open>The read-through caches\<close>: \<open>Read_Through\<close> states the fencing discipline as a transition system
  and a locale of what a cache promises, with coherence proved once. \<open>Failover_Cache\<close> and
  \<open>Model_Cache\<close> (\<open>internal/failover/cache.go\<close>, \<open>internal/model/cache.go\<close>) interpret it;
  \<open>Provider_Cache\<close> (\<open>internal/provider/cache.go\<close>) has a finer fence, per row, and its own exactness
  theorem over runs of cache calls. Counters are 64-bit words; the theorems assume fewer than
  \<open>2 ^ 64\<close> invalidations in the life of a process.

  \<^bold>\<open>Failover groups\<close> (\<open>failover.go\<close>, \<open>sync.go\<close>, \<open>revalidate.go\<close>): \<open>Failover_Store\<close> has the tables,
  the SQL statements and the repository, \<open>Failover_Sync\<close> the sync, the prune, the revalidation and
  the fleet echo. The world of an operation carries the outcomes of the statements it will issue,
  so every error branch is a run. \<open>Failover_Membership\<close> has the pure parts, \<open>Failover_Frame\<close> and
  \<open>Failover_Maintenance\<close> what each operation may touch whatever fails, \<open>Failover_Correct\<close> and
  \<open>Failover_Sync_All\<close> what they achieve when nothing fails, \<open>Failover_Properties\<close> the properties.
  An operation on the repository runs undisturbed; the race the upsert's \<open>WHERE\<close> clause guards
  against shows up as a cached group that the table no longer holds.

  \<^bold>\<open>The in-flight limiter\<close> (\<open>internal/proxy/inflight.go\<close>): \<open>Inflight\<close> has the learned window of a
  provider, its slots and their one-shot settling, \<open>Inflight_System\<close> the goroutines that acquire,
  settle and wait as a transition system with its invariant, \<open>Inflight_Properties\<close> the properties.

  \<^bold>\<open>Strings\<close>: \<open>Go_Text\<close> has the parts of Go's \<open>strings\<close>, \<open>strconv\<close>, \<open>regexp\<close> and \<open>time\<close> the request path
  uses: case mapping and trimming of ASCII, a leftmost-first matcher for the regular expressions the
  source compiles, number and duration parsing. The conversion of a float to an integer is the
  one of amd64, where an out-of-range value becomes the smallest integer.

  \<^bold>\<open>What an upstream answer means\<close> (\<open>internal/proxy\<close>: \<open>rate_limit_classify.go\<close>, \<open>reqerror.go\<close>,
  \<open>verdict.go\<close>, \<open>failover_exhausted.go\<close>, \<open>transport.go\<close> and the outcome recorders):
    \<^item> \<open>Rate_Limit\<close>: the class of a 429 (saturated, exhausted, unknown) from its headers and body.
      The two date parsers (RFC 3339 and HTTP dates) are arguments. \<open>Rate_Limit_Facts\<close>: the shape of every verdict.
    \<^item> \<open>Req_Error\<close>: the request's error, its status and messages, the rule by which a later error
      replaces an earlier one, the exhaustion path. The fencing of upstream text is an argument.
    \<^item> \<open>Attempt_Outcome\<close>: what one answer tells the breaker, the in-flight limiter and the attempt
      trail; status policies; the verdict of a stream. \<open>Attempt_Facts\<close> and \<open>Attempt_Properties\<close>:
      how these components compose.

  \<^bold>\<open>The failover loop and the attempt\<close> (\<open>internal/proxy\<close>: \<open>proxy.go\<close>, \<open>proxy_failover.go\<close>,
  \<open>proxy_upstream.go\<close>, \<open>transient_retry.go\<close>, \<open>upstream_error_forward.go\<close>, the dispatch files and
  \<open>attempt_trail.go\<close>) put these parts together for a chat request.
    \<^item> \<open>Attempt_Trail\<close>: the record of every attempt on the request's log entry.
    \<^item> \<open>Failover_Loop\<close>: the walk over the candidates, the backoff, the one-shot retries of the last
      candidate, the wait for a slot, the answers. Everything outside the request (clock, client,
      jitter, the other requests' slots) is a sequence of moments, one per interaction.
      \<open>Failover_Loop_Facts\<close> has what each part leaves alone.
    \<^item> \<open>Attempt_Contract\<close>: the locale of what the loop needs of the function that runs one attempt
      (it answers exactly when it says so, leaves one record, spends a retry flag for each retry it
      asks for), and the loop's theorems from it.
    \<^item> \<open>Attempt_Candidate\<close>: the chat attempt, with what codecs, network and self-heal produced as its
      environment. \<open>Attempt_Candidate_Facts\<close> interprets the contract on it; \<open>Attempt_Slots\<close> follows its
      in-flight slot through every way an attempt can end.
    \<^item> \<open>Loop_Properties\<close>: one answer per request, the order of attempts, the waits, the slot.

  \<^bold>\<open>From the model to its candidates\<close> (\<open>internal/proxy\<close>: \<open>resolve.go\<close>, \<open>proxy_request.go\<close>;
  \<open>internal/model/model.go\<close>, \<open>internal/provider/provider.go\<close>) joins the failover groups, the caches and
  the breaker to the loop.
    \<^item> \<open>Row_Readers\<close>: the read-through readers of models and providers on the tables and the row caches.
    \<^item> \<open>Resolve\<close>: the group or provider a request names, its members' rows, the breaker's refusals and
      their summary, the allow-lists, the knobs of a request, and \<open>ChatCompletions\<close> from there on.
    \<^item> \<open>Resolve_Facts\<close>: the summary as a fold, the admission checks of one instant, the walk over the
      entries. \<open>Resolve_Tables\<close>: the readers refine the tables, and resolution with them.
      \<open>Resolve_Course\<close>: resolution as a piece of the request's course. \<open>Resolve_Properties\<close>: the properties.

  \<^bold>\<open>The models table\<close> (\<open>internal/model\<close>: \<open>model.go\<close>, \<open>retire.go\<close>, \<open>prune.go\<close>; \<open>internal/api\<close>:
  \<open>configsync_apply_models.go\<close>, \<open>configsync_export.go\<close>, \<open>discovery_claims.go\<close>) is written by discovery, the operator, the
  traffic retirement, the prune and the imports of a fleet, all of which decide whether a model is routable.
    \<^item> \<open>Model_Table\<close>: the rows with every column, the upsert, the missing-model sweep, the operator's edits, the listings.
      \<open>Model_Retire\<close>: the staged retirement, its undo, the prune. \<open>Model_Fleet\<close>: the two per-model sections of an import
      and the export.
    \<^item> \<open>Model_Writes\<close>: every writer as a step, and the specification of what a step may do to a row, insert or delete.
      \<open>Model_Invariants\<close>: the table's invariant, and the locale of a property of a row that outlives a kind of steps.
    \<^item> \<open>Model_Behaviour\<close>: edits, the two-scan rule. \<open>Fleet_Convergence\<close>: an import and the export that follows.
      \<open>Model_Properties\<close>: the properties.

  \<^bold>\<open>Retiring a refused model\<close> (\<open>internal/proxy\<close>: \<open>model_gone.go\<close>, \<open>model_gone_streak.go\<close>, \<open>model_gone_stream.go\<close>,
  \<open>model_gone_modality.go\<close>, \<open>model_probe.go\<close>) connects the request path to the models table: refusals are counted per model
  and surface, a probe adjudicates, and the staged write disables the model unless it answered meanwhile.
    \<^item> \<open>Model_Gone\<close>: the streak, the gates, the probe, and every refusal as a task whose steps are its accesses to
      shared state; \<open>gone_step\<close> interleaves tasks, answers, panics and the other writers of the table, which wait for a row
      a task has locked. The log of what happened is newest first.
    \<^item> \<open>Model_Gone_Facts\<close>, \<open>Gone_History\<close>: each streak as a function of the log. \<open>Gone_Evidence\<close>: what a task's
      program counter says of the log, and the probe slots. \<open>Gone_Rows\<close>: the staged row. \<open>Gone_Properties\<close>: the properties.

  \<^bold>\<open>Fuel and bounds.\<close> No definition uses fuel. Two loops of the source have no bound of their own, the
  chain of retries and the wait for a slot: they are \<open>partial_function (option)\<close>, where not returning
  is \<open>None\<close>, and they are proved to return, the first because each retry spends a flag, the second
  because time passes its deadline. Every other loop is a recursion over a list or a counter.

  \<^bold>\<open>Not modelled.\<close> The HTTP handlers and the wire formats (\<open>internal/api\<close>, the translators and the stream relays of
  \<open>internal/proxy\<close>, hedging, the multimodal endpoints, metering), the rate limiters (\<open>internal/ratelimit\<close>), budgets, the front desk, discovery,
  the writing half of the provider repository, the UI and the command line; log levels and the text of database errors;
  JSON documents as text (the model keeps them decoded); case mapping outside ASCII; the database's
  collation; the redaction of logged bodies.
\<close>

end
